(* ===== verification/Go_Base.thy ===== *)
theory Go_Base
  imports Main "HOL-Library.Word" "HOL-Library.Sublist" "HOL-Library.AList"
begin

section \<open>Shared vocabulary: the Go values the components use\<close>

text \<open>
  The prelude of the development. A Go \<open>string\<close> is a list of bytes (HOL's \<open>string\<close>, a list of
  8-bit characters), a \<open>rune\<close> is a natural number, \<open>[]rune(s)\<close> is \<open>runes s\<close>. UUIDs are 128-bit
  words, instants and durations are integers counting nanoseconds. The functions of Go's standard
  library that the source calls (\<open>strings.ToLower\<close>, \<open>strings.TrimSpace\<close>, \<open>strings.CutPrefix\<close>,
  \<open>fmt.Sprintf("%d")\<close>, \<open>slices.Contains\<close>) are modelled here with the lemmas the components share.
  The collection \<open>go_simps\<close> holds the equations that evaluate them.
\<close>

named_theorems go_simps
named_theorems db_simps
named_theorems db_intros

type_synonym uuid = "128 word"
type_synonym rune = nat
type_synonym gotime = int
type_synonym duration = int

abbreviation uuid_Nil :: uuid where "uuid_Nil \<equiv> 0"

abbreviation nanosecond :: duration where "nanosecond \<equiv> 1"
definition second :: duration where "second = 1000000000"
definition hour :: duration where "hour = 3600 * second"

subsection \<open>UTF-8\<close>

text \<open>
  \<open>decode1 c cs\<close> reads one rune at the front of \<open>c # cs\<close> and returns it with the number of bytes
  of \<open>cs\<close> it used. As in Go, every byte that does not start a valid encoding is the replacement
  rune U+FFFD of width one.
\<close>

definition cont_byte :: "char \<Rightarrow> bool" where
  "cont_byte c \<longleftrightarrow> (let b = (of_char c :: nat) in 128 \<le> b \<and> b < 192)"

definition decode1 :: "char \<Rightarrow> string \<Rightarrow> rune \<times> nat" where
  "decode1 c cs = (let b = (of_char c :: nat) in
     if b < 128 then (b, 0)
     else if 194 \<le> b \<and> b < 224 then
       (case cs of c1 # _ \<Rightarrow> if cont_byte c1
            then ((b - 192) * 64 + (of_char c1 - 128), 1) else (65533, 0)
        | _ \<Rightarrow> (65533, 0))
     else if 224 \<le> b \<and> b < 240 then
       (case cs of c1 # c2 # _ \<Rightarrow>
            if cont_byte c1 \<and> cont_byte c2
               \<and> (b = 224 \<longrightarrow> 160 \<le> (of_char c1 :: nat)) \<and> (b = 237 \<longrightarrow> (of_char c1 :: nat) < 160)
            then ((b - 224) * 4096 + (of_char c1 - 128) * 64 + (of_char c2 - 128), 2) else (65533, 0)
        | _ \<Rightarrow> (65533, 0))
     else if 240 \<le> b \<and> b < 245 then
       (case cs of c1 # c2 # c3 # _ \<Rightarrow>
            if cont_byte c1 \<and> cont_byte c2 \<and> cont_byte c3
               \<and> (b = 240 \<longrightarrow> 144 \<le> (of_char c1 :: nat)) \<and> (b = 244 \<longrightarrow> (of_char c1 :: nat) < 144)
            then ((b - 240) * 262144 + (of_char c1 - 128) * 4096
                   + (of_char c2 - 128) * 64 + (of_char c3 - 128), 3) else (65533, 0)
        | _ \<Rightarrow> (65533, 0))
     else (65533, 0))"

fun runes :: "string \<Rightarrow> rune list" where
  "runes [] = []"
| "runes (c # cs) = (let (r, n) = decode1 c cs in r # runes (drop n cs))"

definition encode_rune :: "rune \<Rightarrow> string" where
  "encode_rune r =
     (if r < 128 then [char_of r]
      else if r < 2048 then [char_of (192 + r div 64), char_of (128 + r mod 64)]
      else if (55296 \<le> r \<and> r < 57344) \<or> 1114112 \<le> r
        then [char_of (239 :: nat), char_of (191 :: nat), char_of (189 :: nat)]
      else if r < 65536 then
        [char_of (224 + r div 4096), char_of (128 + r div 64 mod 64), char_of (128 + r mod 64)]
      else [char_of (240 + r div 262144), char_of (128 + r div 4096 mod 64),
            char_of (128 + r div 64 mod 64), char_of (128 + r mod 64)])"

definition encode_runes :: "rune list \<Rightarrow> string" where
  "encode_runes rs = concat (map encode_rune rs)"

definition ascii :: "string \<Rightarrow> bool" where
  "ascii s \<longleftrightarrow> (\<forall>c \<in> set s. (of_char c :: nat) < 128)"

lemma ascii_simps [go_simps]:
  "ascii []" "ascii (c # cs) \<longleftrightarrow> (of_char c :: nat) < 128 \<and> ascii cs"
  "ascii (s @ t) \<longleftrightarrow> ascii s \<and> ascii t"
  by (auto simp: ascii_def)

lemma runes_ascii: "ascii s \<Longrightarrow> runes s = map of_char s"
  by (induction s) (auto simp: ascii_def decode1_def)

lemma runes_ascii_append: "ascii s \<Longrightarrow> runes (s @ t) = map of_char s @ runes t"
  by (induction s) (auto simp: ascii_def decode1_def)

lemma encode_runes_ascii: "ascii s \<Longrightarrow> encode_runes (map of_char s) = s"
  by (induction s) (auto simp: ascii_def encode_runes_def encode_rune_def)

lemma encode_runes_simps [go_simps]:
  "encode_runes [] = []" "encode_runes (r # rs) = encode_rune r @ encode_runes rs"
  "encode_runes (rs @ ts) = encode_runes rs @ encode_runes ts"
  by (auto simp: encode_runes_def)

lemma length_runes_le: "length (runes s) \<le> length s"
proof (induction s rule: runes.induct)
  case (2 c cs)
  obtain r n where d: "decode1 c cs = (r, n)" by fastforce
  with 2 have "length (runes (drop n cs)) \<le> length cs" by fastforce
  with d show ?case by simp
qed simp

subsection \<open>The standard library's string functions\<close>

definition unicode_IsSpace :: "rune \<Rightarrow> bool" where
  "unicode_IsSpace r \<longleftrightarrow>
     (9 \<le> r \<and> r \<le> 13) \<or> r = 32 \<or> r = 133 \<or> r = 160 \<or> r = 5760 \<or> (8192 \<le> r \<and> r \<le> 8202)
     \<or> r = 8232 \<or> r = 8233 \<or> r = 8239 \<or> r = 8287 \<or> r = 12288"

definition space_runes :: "rune list" where
  "space_runes = [9, 10, 11, 12, 13, 32, 133, 160, 5760, 8192, 8193, 8194, 8195, 8196, 8197, 8198,
     8199, 8200, 8201, 8202, 8232, 8233, 8239, 8287, 12288]"

lemma set_space_runes: "set space_runes = Collect unicode_IsSpace"
proof -
  have "r \<in> set space_runes \<longleftrightarrow> unicode_IsSpace r" for r
    by (simp add: space_runes_def unicode_IsSpace_def) presburger
  then show ?thesis by auto
qed

definition space_encodings :: "string list" where
  "space_encodings = map encode_rune space_runes"

text \<open>
  \<open>strings.TrimSpace\<close> drops the encodings of white space at both ends. No encoding is a prefix of
  another one, so the order of the search does not matter.
\<close>

fun trim_encoded :: "string list \<Rightarrow> nat \<Rightarrow> string \<Rightarrow> string" where
  "trim_encoded es 0 s = s"
| "trim_encoded es (Suc n) s =
     (case find (\<lambda>e. prefix e s) es of
        None \<Rightarrow> s
      | Some e \<Rightarrow> trim_encoded es n (drop (length e) s))"

definition TrimLeftSpace :: "string \<Rightarrow> string" where
  "TrimLeftSpace s = trim_encoded space_encodings (length s) s"

definition TrimRightSpace :: "string \<Rightarrow> string" where
  "TrimRightSpace s = rev (trim_encoded (map rev space_encodings) (length s) (rev s))"

definition TrimSpace :: "string \<Rightarrow> string" where
  "TrimSpace s = TrimRightSpace (TrimLeftSpace s)"

lemma find_Some_mem: "find P xs = Some x \<Longrightarrow> x \<in> set xs \<and> P x"
  by (induction xs) (auto split: if_splits)

lemma find_None_iff_all: "find P xs = None \<longleftrightarrow> (\<forall>x \<in> set xs. \<not> P x)"
  by (induction xs) auto

text \<open>A text that starts and ends with solid ASCII characters is not changed.\<close>

definition solid :: "char \<Rightarrow> bool" where
  "solid c \<longleftrightarrow> (of_char c :: nat) < 128 \<and> \<not> unicode_IsSpace (of_char c)"

lemma space_encodings_ends:
  "list_all (\<lambda>e. e \<noteq> [] \<and> \<not> solid (hd e) \<and> \<not> solid (last e)) space_encodings"
  by (simp add: space_encodings_def space_runes_def encode_rune_def solid_def unicode_IsSpace_def)

lemma trim_encoded_stop:
  assumes "list_all (\<lambda>e. e \<noteq> [] \<and> \<not> solid (hd e)) es" "solid c"
  shows "trim_encoded es n (c # s) = c # s"
proof (cases n)
  case (Suc m)
  have "find (\<lambda>e. prefix e (c # s)) es = None"
    using assms by (auto simp: find_None_iff_all list_all_iff prefix_Cons)
  with Suc show ?thesis by simp
qed simp

lemma TrimSpace_solid:
  assumes "s \<noteq> []" "solid (hd s)" "solid (last s)"
  shows "TrimSpace s = s"
proof -
  have l: "list_all (\<lambda>e. e \<noteq> [] \<and> \<not> solid (hd e)) space_encodings"
    "list_all (\<lambda>e. e \<noteq> [] \<and> \<not> solid (hd e)) (map rev space_encodings)"
    using space_encodings_ends by (auto simp: list_all_iff hd_rev)
  have "TrimLeftSpace s = s"
    using trim_encoded_stop [OF l(1) assms(2)] assms(1) unfolding TrimLeftSpace_def
    by (metis list.collapse)
  moreover have "TrimRightSpace s = s"
    using trim_encoded_stop [OF l(2) assms(3), of "length s" "tl (rev s)"] assms(1)
    unfolding TrimRightSpace_def by (metis hd_rev list.collapse rev_is_Nil_conv rev_rev_ident)
  ultimately show ?thesis by (simp add: TrimSpace_def)
qed

lemma TrimSpace_Nil [simp]: "TrimSpace [] = []"
  by (simp add: TrimSpace_def TrimLeftSpace_def TrimRightSpace_def)

text \<open>
  \<open>strings.ToLower\<close> and \<open>strings.ToUpper\<close> on the bytes of the ASCII range. The source applies them
  to identifiers that only hold ASCII letters, digits and underscores, and to the PATCH operation
  name, which is then compared with three words without a letter that a non-ASCII rune maps to.
\<close>

definition lower_char :: "char \<Rightarrow> char" where
  "lower_char c = (let b = (of_char c :: nat) in if 65 \<le> b \<and> b \<le> 90 then char_of (b + 32) else c)"

definition upper_char :: "char \<Rightarrow> char" where
  "upper_char c = (let b = (of_char c :: nat) in if 97 \<le> b \<and> b \<le> 122 then char_of (b - 32) else c)"

definition ToLower :: "string \<Rightarrow> string" where "ToLower s = map lower_char s"
definition ToUpper :: "string \<Rightarrow> string" where "ToUpper s = map upper_char s"

lemma lower_char_idem [simp]: "lower_char (lower_char c) = lower_char c"
proof -
  have "(of_char c :: nat) < 256"
    using of_char_mod_256 [of c, where 'a = nat] by (metis mod_less_divisor zero_less_numeral)
  then show ?thesis by (auto simp: lower_char_def Let_def)
qed

lemma ToLower_idem [simp]: "ToLower (ToLower s) = ToLower s"
  by (simp add: ToLower_def)

lemma ToLower_append [simp]: "ToLower (s @ t) = ToLower s @ ToLower t"
  by (simp add: ToLower_def)

definition CutPrefix :: "string \<Rightarrow> string \<Rightarrow> string option" where
  "CutPrefix s p = (if prefix p s then Some (drop (length p) s) else None)"

lemma CutPrefix_append [simp]: "CutPrefix (p @ s) p = Some s"
  by (simp add: CutPrefix_def)

lemma CutPrefix_Some: "CutPrefix s p = Some t \<longleftrightarrow> s = p @ t"
  by (auto simp: CutPrefix_def prefix_def)

text \<open>\<open>strings.IndexByte\<close>: the position of the first occurrence.\<close>

fun IndexByte :: "string \<Rightarrow> char \<Rightarrow> nat option" where
  "IndexByte [] b = None"
| "IndexByte (c # cs) b = (if c = b then Some 0 else map_option Suc (IndexByte cs b))"

lemma IndexByte_None: "IndexByte s b = None \<longleftrightarrow> b \<notin> set s"
  by (induction s) auto

lemma IndexByte_Some:
  "IndexByte s b = Some i \<Longrightarrow> i < length s \<and> s ! i = b \<and> b \<notin> set (take i s)"
  by (induction s arbitrary: i) (auto split: if_splits)

lemma IndexByte_append: "b \<notin> set s \<Longrightarrow> IndexByte (s @ b # t) b = Some (length s)"
  by (induction s) auto

text \<open>\<open>strconv.Quote\<close> (the verb \<open>%q\<close>) on the bytes of a name, and \<open>strings.Join\<close>.\<close>

definition quote_char :: "char \<Rightarrow> string" where
  "quote_char c = (let n = (of_char c :: nat) in
     if c = CHR 0x22 then [CHR 0x5C, CHR 0x22] else if c = CHR 0x5C then [CHR 0x5C, CHR 0x5C]
     else if n = 7 then [CHR 0x5C, CHR ''a''] else if n = 8 then [CHR 0x5C, CHR ''b'']
     else if n = 9 then [CHR 0x5C, CHR ''t''] else if n = 10 then [CHR 0x5C, CHR ''n'']
     else if n = 11 then [CHR 0x5C, CHR ''v''] else if n = 12 then [CHR 0x5C, CHR ''f'']
     else if n = 13 then [CHR 0x5C, CHR ''r'']
     else if n < 32 \<or> n = 127
     then [CHR 0x5C, CHR ''x'', ''0123456789abcdef'' ! (n div 16), ''0123456789abcdef'' ! (n mod 16)]
     else [c])"

definition Quote :: "string \<Rightarrow> string" where
  "Quote s = [CHR 0x22] @ concat (map quote_char s) @ [CHR 0x22]"

fun Join :: "string list \<Rightarrow> string \<Rightarrow> string" where
  "Join [] sep = []"
| "Join [s] sep = s"
| "Join (s # ss) sep = s @ sep @ Join ss sep"

text \<open>A text in single quotes.\<close>

definition squoted :: "string \<Rightarrow> string" where
  "squoted s = [CHR 0x27] @ s @ [CHR 0x27]"

subsection \<open>Numbers in text\<close>

fun show_nat :: "nat \<Rightarrow> string" where
  "show_nat n = (if n < 10 then [char_of (48 + n)]
                 else show_nat (n div 10) @ [char_of (48 + n mod 10)])"

declare show_nat.simps [simp del]

definition show_int :: "int \<Rightarrow> string" where
  "show_int i = (if i < 0 then CHR ''-'' # show_nat (nat (- i)) else show_nat (nat i))"

definition is_digit_char :: "char \<Rightarrow> bool" where
  "is_digit_char c \<longleftrightarrow> (let b = (of_char c :: nat) in 48 \<le> b \<and> b \<le> 57)"

definition digit_val :: "char \<Rightarrow> nat" where
  "digit_val c = of_char c - 48"

definition read_nat :: "string \<Rightarrow> nat" where
  "read_nat s = foldl (\<lambda>n c. n * 10 + digit_val c) 0 s"

lemma digit_char_props:
  "d < 10 \<Longrightarrow> is_digit_char (char_of (48 + d))"
  "d < 10 \<Longrightarrow> digit_val (char_of (48 + d)) = d"
  by (auto simp: is_digit_char_def digit_val_def Let_def)

lemma show_nat_digits: "list_all is_digit_char (show_nat n)"
proof (induction n rule: show_nat.induct)
  case (1 n)
  then show ?case
    by (subst show_nat.simps) (auto simp: digit_char_props)
qed

lemma show_nat_nonempty [simp]: "show_nat n \<noteq> []"
  by (subst show_nat.simps) simp

lemma read_show_nat: "read_nat (show_nat n) = n"
proof (induction n rule: show_nat.induct)
  case (1 n)
  show ?case
  proof (cases "n < 10")
    case True
    then show ?thesis
      by (subst show_nat.simps) (simp add: read_nat_def digit_char_props)
  next
    case False
    with "1.IH" have IH: "read_nat (show_nat (n div 10)) = n div 10" by simp
    have "n mod 10 < 10" by simp
    then have "read_nat (show_nat (n div 10) @ [char_of (48 + n mod 10)])
        = n div 10 * 10 + n mod 10"
      using IH by (simp only: read_nat_def foldl_append foldl.simps digit_char_props)
    with False show ?thesis
      by (subst show_nat.simps) (simp only: if_False div_mult_mod_eq)
  qed
qed

text \<open>\<open>strconv.Atoi\<close> on a 64-bit platform: an optional sign, digits, and the range of \<open>int\<close>.\<close>

definition Atoi :: "string \<Rightarrow> int option" where
  "Atoi s = (let (neg, ds) = (case s of
                 c # cs \<Rightarrow> if c = CHR ''-'' then (True, cs) else if c = CHR ''+'' then (False, cs)
                          else (False, s)
               | [] \<Rightarrow> (False, []));
               n = (if neg then - int (read_nat ds) else int (read_nat ds))
     in if ds \<noteq> [] \<and> list_all is_digit_char ds \<and> - (2 ^ 63) \<le> n \<and> n < 2 ^ 63 then Some n else None)"

subsection \<open>Lists, options and maps\<close>

lemma length_remove1_le: "length (remove1 x xs) \<le> length xs"
  by (induction xs) auto

lemma set_remove1_distinct: "distinct xs \<Longrightarrow> set (remove1 x xs) = set xs - {x}"
  by (rule set_remove1_eq)

text \<open>Paging as \<open>LIMIT l OFFSET o\<close> does it (both are non-negative where the source uses them).\<close>

definition page :: "int \<Rightarrow> int \<Rightarrow> 'a list \<Rightarrow> 'a list" where
  "page lim off xs = take (nat lim) (drop (nat off) xs)"

lemma length_page: "length (page lim off xs) \<le> nat lim"
  by (simp add: page_def)

lemma set_page: "set (page lim off xs) \<subseteq> set xs"
  by (auto simp: page_def dest: in_set_takeD in_set_dropD)

text \<open>A loop that fails at the first element that fails.\<close>

fun map_res :: "('a \<Rightarrow> 'e + 'b) \<Rightarrow> 'a list \<Rightarrow> 'e + 'b list" where
  "map_res f [] = Inr []"
| "map_res f (x # xs) =
     (case f x of
        Inl e \<Rightarrow> Inl e
      | Inr y \<Rightarrow> (case map_res f xs of Inl e \<Rightarrow> Inl e | Inr ys \<Rightarrow> Inr (y # ys)))"

lemma map_res_Inr: "map_res f xs = Inr ys \<longleftrightarrow> list_all2 (\<lambda>x y. f x = Inr y) xs ys"
  by (induction f xs arbitrary: ys rule: map_res.induct) (auto simp: list_all2_Cons1 split: sum.splits)

subsection \<open>Hexadecimal\<close>

definition hex_digit :: "nat \<Rightarrow> char" where
  "hex_digit n = (if n < 10 then char_of (48 + n) else char_of (87 + n))"

definition hex_encode :: "string \<Rightarrow> string" where
  "hex_encode s = concat (map (\<lambda>c. [hex_digit (of_char c div 16), hex_digit (of_char c mod 16)]) s)"

end
