(* ===== verification/Go_Errors.thy ===== *)
theory Go_Errors
  imports Go_Base
begin

section \<open>Errors as values\<close>

text \<open>
  Go's \<open>error\<close> interface as a datatype. Each package's sentinel errors are a datatype of their
  own; \<open>goerr\<close> is the disjoint union with the structured \<open>*apierr.APIError\<close>, the errors of the
  PostgreSQL driver, and the two ways \<open>fmt.Errorf\<close> builds an error: \<open>Wrap c e\<close> is
  \<open>Errorf("c: %w", e)\<close> and \<open>Detailed e d\<close> is \<open>Errorf("%w: %v", e, d)\<close>, whose second part is text
  only. \<open>Panic\<close> is a Go panic, which unwinds to the recovery middleware like an error that no caller
  inspects. The text of an error is not rendered: a message that embeds \<open>err.Error()\<close> holds the error
  itself (\<open>ErrText\<close>).
\<close>

datatype auth_error = ErrNotProvisioned | ErrDisabled | ErrMissingAuth

datatype entity_error = Entity_ErrNotFound | Entity_ErrDuplicateExternalID

datatype entitytype_error = EntityType_ErrNotFound | EntityType_ErrDuplicateTypeName
  | EntityType_ErrHasEntities

datatype overlay_error = Overlay_ErrNotFound | Overlay_ErrDuplicate | Overlay_ErrEntityNotFound
  | Overlay_ErrNoSchema | Overlay_ErrNoSystemScope

datatype overlayschema_error = OverlaySchema_ErrNotFound | OverlaySchema_ErrDuplicate
  | OverlaySchema_ErrSystemNotFound | OverlaySchema_ErrEntityTypeNotFound
  | OverlaySchema_ErrHasOverlays

datatype relation_error = Relation_ErrNotFound | Relation_ErrDuplicate

datatype system_error = System_ErrNotFound | System_ErrDuplicateName

datatype webhook_error = Webhook_ErrNotFound | Webhook_ErrNoSystemScope

datatype retrieval_error = Retrieval_ErrEntityNotFound

datatype users_error = Users_ErrNotFound | Users_ErrAlreadyExists | Users_ErrUserNameRequired
  | Users_ErrExternalIDRequired | Users_ErrInvalidFilter
  | Users_ErrPatchNoTarget | Users_ErrPatchInvalidValue

datatype groups_error = Groups_ErrNotFound | Groups_ErrAlreadyExists | Groups_ErrDisplayNameRequired
  | Groups_ErrExternalIDRequired | Groups_ErrInvalidMember | Groups_ErrBuiltinGroup
  | Groups_ErrInvalidFilter | Groups_ErrPatchNoTarget | Groups_ErrPatchInvalidValue

datatype scimauth_error = ErrEmptyProvider | ErrEmptyToken | ErrDuplicateToken

text \<open>The messages of the SCIM filter and path parsers (\<open>internal/scim/parser\<close>).\<close>

datatype filter_msg =
    UnexpectedCharacter rune | UnterminatedEscape | UnterminatedString | InvalidEscape rune
  | InvalidNumber | InvalidNumberText string | UnexpectedTrailing | ExpectedRParen
  | ExpectedAttribute | ExpectedSubAttribute | ExpectedOperator | ExpectedLiteral

datatype InvalidFilterError = InvalidFilterError (Filter_Pos: nat) (Filter_Msg: filter_msg)

datatype path_msg =
    PathExpectedAttribute | PathUnterminatedBracket | PathInvalidBracket InvalidFilterError
  | PathExpectedSubAttribute | PathUnexpectedTrailing

datatype InvalidPathError = InvalidPathError (Path_Pos: nat) (Path_Msg: path_msg)

datatype json_error = JsonUnexpectedEnd | JsonSyntax | JsonTypeMismatch

datatype dberr =
    PgError (pg_Code: string) (pg_ConstraintName: string)
  | ConnError | ErrNoRows | ErrTxCommitRollback

datatype translate_msg =
    UnsupportedAttribute string | OnlyStringAttributes string | ExpectsStringValue string
  | UnsupportedOperator string

datatype goerr =
    AuthE auth_error | EntityE entity_error | EntityTypeE entitytype_error | OverlayE overlay_error
  | OverlaySchemaE overlayschema_error | RelationE relation_error | SystemE system_error
  | WebhookE webhook_error | RetrievalE retrieval_error | UsersE users_error
  | GroupsE groups_error | ScimAuthE scimauth_error
  | FilterE InvalidFilterError | PathE InvalidPathError | TranslateE translate_msg
  | JsonE json_error | Db dberr | Text string | ApiE APIError
  | Wrap string goerr | Detailed goerr goerr | Panic string
and APIError = APIError (HTTPStatus: int) (Code: string) (Message: "msg list") (Details: "msg list list")
and msg = Lit string | ErrText goerr

type_synonym 'a res = "goerr + 'a"

text \<open>
  \<open>errors.Is\<close> follows the chain of wrapped errors, \<open>errors.As\<close> finds the structured error or the
  driver's error on it.
\<close>

fun errors_Is :: "goerr \<Rightarrow> goerr \<Rightarrow> bool" where
  "errors_Is (Wrap c e) t = (Wrap c e = t \<or> errors_Is e t)"
| "errors_Is (Detailed e d) t = (Detailed e d = t \<or> errors_Is e t)"
| "errors_Is e t = (e = t)"

fun errors_As_API :: "goerr \<Rightarrow> APIError option" where
  "errors_As_API (ApiE a) = Some a"
| "errors_As_API (Wrap c e) = errors_As_API e"
| "errors_As_API (Detailed e d) = errors_As_API e"
| "errors_As_API e = None"

fun errors_As_Pg :: "goerr \<Rightarrow> (string \<times> string) option" where
  "errors_As_Pg (Db (PgError c k)) = Some (c, k)"
| "errors_As_Pg (Wrap c e) = errors_As_Pg e"
| "errors_As_Pg (Detailed e d) = errors_As_Pg e"
| "errors_As_Pg e = None"

definition pg_code_is :: "goerr \<Rightarrow> string \<Rightarrow> bool" where
  "pg_code_is e code \<longleftrightarrow> (case errors_As_Pg e of None \<Rightarrow> False | Some (c, k) \<Rightarrow> c = code)"

abbreviation is_no_rows :: "goerr \<Rightarrow> bool" where
  "is_no_rows e \<equiv> errors_Is e (Db ErrNoRows)"

subsection \<open>The constructors of \<open>internal/apierr\<close>\<close>

definition api_NotFound :: "string \<Rightarrow> APIError" where
  "api_NotFound resource = APIError 404 ''NOT_FOUND'' [Lit (resource @ '' not found'')] []"

definition api_Conflict :: "msg list \<Rightarrow> APIError" where
  "api_Conflict message = APIError 409 ''CONFLICT'' message []"

definition api_BadRequest_details :: "msg list \<Rightarrow> msg list list \<Rightarrow> APIError" where
  "api_BadRequest_details message details = APIError 400 ''BAD_REQUEST'' message details"

abbreviation api_BadRequest :: "msg list \<Rightarrow> APIError" where
  "api_BadRequest message \<equiv> api_BadRequest_details message []"

definition api_ValidationFailed :: "msg list list \<Rightarrow> APIError" where
  "api_ValidationFailed details =
     APIError 400 ''VALIDATION_FAILED'' [Lit ''request validation failed''] details"

definition api_Unauthorized :: "msg list \<Rightarrow> APIError" where
  "api_Unauthorized message = APIError 401 ''UNAUTHORIZED'' message []"

definition api_Forbidden :: "msg list \<Rightarrow> APIError" where
  "api_Forbidden message = APIError 403 ''FORBIDDEN'' message []"

definition api_UnprocessableEntity_details :: "msg list \<Rightarrow> msg list list \<Rightarrow> APIError" where
  "api_UnprocessableEntity_details message details =
     APIError 422 ''UNPROCESSABLE_ENTITY'' message details"

abbreviation api_UnprocessableEntity :: "msg list \<Rightarrow> APIError" where
  "api_UnprocessableEntity message \<equiv> api_UnprocessableEntity_details message []"

definition api_Internal :: "msg list \<Rightarrow> APIError" where
  "api_Internal message = APIError 500 ''INTERNAL_ERROR'' message []"

definition api_ServiceUnavailable :: "msg list \<Rightarrow> APIError" where
  "api_ServiceUnavailable message = APIError 503 ''SERVICE_UNAVAILABLE'' message []"

lemmas api_defs = api_NotFound_def api_Conflict_def api_BadRequest_details_def api_ValidationFailed_def
  api_Unauthorized_def api_Forbidden_def api_UnprocessableEntity_details_def api_Internal_def
  api_ServiceUnavailable_def

lemma api_status [simp]:
  "HTTPStatus (api_NotFound r) = 404" "HTTPStatus (api_Conflict m) = 409"
  "HTTPStatus (api_BadRequest_details m d) = 400" "HTTPStatus (api_ValidationFailed d) = 400"
  "HTTPStatus (api_Unauthorized m) = 401" "HTTPStatus (api_Forbidden m) = 403"
  "HTTPStatus (api_UnprocessableEntity_details m d) = 422" "HTTPStatus (api_Internal m) = 500"
  "HTTPStatus (api_ServiceUnavailable m) = 503"
  by (simp_all add: api_defs)

text \<open>
  \<open>response.HandleError\<close>: the status and body of the response for a service error. An error that
  is not an \<open>*apierr.APIError\<close> becomes a generic 500 whose body carries nothing of the error.
\<close>

definition HandleError :: "goerr \<Rightarrow> APIError" where
  "HandleError e = (case errors_As_API e of
      Some a \<Rightarrow> a
    | None \<Rightarrow> api_Internal [Lit ''an unexpected error occurred''])"

lemma errors_Is_refl [simp]: "errors_Is e e"
  by (cases e) auto

lemma HandleError_unknown:
  "errors_As_API e = None \<Longrightarrow> HandleError e = api_Internal [Lit ''an unexpected error occurred'']"
  by (simp add: HandleError_def)

end
