(* ===== verification/Go_Json.thy ===== *)
theory Go_Json
  imports Go_Errors
begin

section \<open>JSON documents and their decoding\<close>

text \<open>
  A JSON document is a tree; a number keeps its literal, an object keeps its members in the order of
  the text, duplicates included. A \<open>json.RawMessage\<close> is \<open>None\<close> when the member is absent (the nil
  slice) and \<open>Some j\<close> otherwise: it comes out of a decoder that has already checked its syntax.

  \<open>encoding/json\<close> decodes the literal \<open>null\<close> into every Go type without an error and without
  effect, so \<open>null\<close> reads as the zero value: the empty string, \<open>false\<close>, a nil map or slice.
\<close>

datatype json =
    JNull | JBool bool | JNum string | JStr string | JArr "json list" | JObj "(string \<times> json) list"

type_synonym raw = "json option"

text \<open>
  A Go map is an association list with distinct keys. Decoding an object into a map keeps the last
  of several members with one key. Go leaves the iteration order of a map open; the model iterates
  in the order of the list.
\<close>

type_synonym 'v gomap = "(string \<times> 'v) list"

definition decode_members :: "(string \<times> 'v) list \<Rightarrow> 'v gomap" where
  "decode_members kvs = AList.clearjunk (rev kvs)"

lemma distinct_decode_members: "distinct (map fst (decode_members kvs))"
  by (simp add: decode_members_def distinct_clearjunk)

lemma set_decode_members: "set (decode_members kvs) \<subseteq> set kvs"
proof -
  have "set (AList.clearjunk xs) \<subseteq> set xs" for xs :: "(string \<times> 'v) list"
  proof (induction xs rule: AList.clearjunk.induct)
    case (2 x xs)
    have "set (AList.delete (fst x) xs) \<subseteq> set xs" by (auto simp: AList.delete_eq)
    with 2 show ?case by auto
  qed simp
  then show ?thesis by (fastforce simp: decode_members_def)
qed

lemma map_of_decode_members: "map_of (decode_members kvs) = map_of (rev kvs)"
  by (simp add: decode_members_def map_of_clearjunk)

lemma map_of_rev_distinct: "distinct (map fst kvs) \<Longrightarrow> map_of (rev kvs) = map_of kvs"
proof (induction kvs)
  case (Cons a kvs)
  then have "map_of kvs (fst a) = None" by (simp add: map_of_eq_None_iff)
  with Cons show ?case by (cases a) (auto simp: fun_eq_iff map_add_def split: option.splits)
qed simp

lemma decode_members_distinct_map_of:
  "distinct (map fst kvs) \<Longrightarrow> map_of (decode_members kvs) = map_of kvs"
  by (simp add: map_of_decode_members map_of_rev_distinct)

text \<open>\<open>json.Unmarshal\<close> into a string, a bool, a map of raw messages and a map of \<open>any\<close>.\<close>

fun unmarshal_string :: "raw \<Rightarrow> json_error + string" where
  "unmarshal_string None = Inl JsonUnexpectedEnd"
| "unmarshal_string (Some (JStr s)) = Inr s"
| "unmarshal_string (Some JNull) = Inr []"
| "unmarshal_string (Some _) = Inl JsonTypeMismatch"

fun unmarshal_bool :: "raw \<Rightarrow> json_error + bool" where
  "unmarshal_bool None = Inl JsonUnexpectedEnd"
| "unmarshal_bool (Some (JBool b)) = Inr b"
| "unmarshal_bool (Some JNull) = Inr False"
| "unmarshal_bool (Some _) = Inl JsonTypeMismatch"

text \<open>A map result is \<open>None\<close> for the nil map that \<open>null\<close> leaves behind.\<close>

fun unmarshal_map :: "raw \<Rightarrow> json_error + json gomap option" where
  "unmarshal_map None = Inl JsonUnexpectedEnd"
| "unmarshal_map (Some (JObj kvs)) = Inr (Some (decode_members kvs))"
| "unmarshal_map (Some JNull) = Inr None"
| "unmarshal_map (Some _) = Inl JsonTypeMismatch"

definition map_entries :: "'v gomap option \<Rightarrow> 'v gomap" where
  "map_entries m = (case m of None \<Rightarrow> [] | Some kvs \<Rightarrow> kvs)"

text \<open>
  Decoding into a struct matches member names with the field tags without regard to case. Besides
  ASCII case, \<open>encoding/json\<close> folds the long s (U+017F) to s and the Kelvin sign (U+212A) to k.
\<close>

fun fold_name :: "string \<Rightarrow> string" where
  "fold_name [] = []"
| "fold_name (c # cs) =
     (case cs of
        d # ds \<Rightarrow>
          if (of_char c :: nat) = 197 \<and> (of_char d :: nat) = 191 then CHR ''s'' # fold_name ds
          else (case ds of
              e # es \<Rightarrow>
                if (of_char c :: nat) = 226 \<and> (of_char d :: nat) = 132 \<and> (of_char e :: nat) = 170
                then CHR ''k'' # fold_name es
                else lower_char c # fold_name cs
            | [] \<Rightarrow> lower_char c # fold_name cs)
      | [] \<Rightarrow> lower_char c # fold_name cs)"

definition field_matches :: "string \<Rightarrow> string \<Rightarrow> bool" where
  "field_matches tag name \<longleftrightarrow> fold_name name = fold_name tag"

text \<open>
  The decoder runs through the members in order; each matching member overwrites the field, and
  \<open>null\<close> leaves it as it is. A member of the wrong type is reported after the whole document.
\<close>

fun decode_string_field :: "string \<Rightarrow> string \<Rightarrow> (string \<times> json) list \<Rightarrow> string" where
  "decode_string_field tag acc [] = acc"
| "decode_string_field tag acc ((k, v) # kvs) =
     decode_string_field tag
       (if field_matches tag k then (case v of JStr s \<Rightarrow> s | _ \<Rightarrow> acc) else acc) kvs"

fun decode_bool_field :: "string \<Rightarrow> bool \<Rightarrow> (string \<times> json) list \<Rightarrow> bool" where
  "decode_bool_field tag acc [] = acc"
| "decode_bool_field tag acc ((k, v) # kvs) =
     decode_bool_field tag
       (if field_matches tag k then (case v of JBool b \<Rightarrow> b | _ \<Rightarrow> acc) else acc) kvs"

definition string_field_ok :: "string \<Rightarrow> (string \<times> json) list \<Rightarrow> bool" where
  "string_field_ok tag kvs \<longleftrightarrow>
     list_all (\<lambda>(k, v). field_matches tag k \<longrightarrow> (case v of JStr _ \<Rightarrow> True | JNull \<Rightarrow> True | _ \<Rightarrow> False)) kvs"

definition bool_field_ok :: "string \<Rightarrow> (string \<times> json) list \<Rightarrow> bool" where
  "bool_field_ok tag kvs \<longleftrightarrow>
     list_all (\<lambda>(k, v). field_matches tag k \<longrightarrow> (case v of JBool _ \<Rightarrow> True | JNull \<Rightarrow> True | _ \<Rightarrow> False)) kvs"

subsection \<open>Properties documents\<close>

text \<open>
  \<open>map[string]any\<close> as the source uses it for \<open>entity.properties\<close>: assignment, deletion, lookup. A
  value decoded into \<open>any\<close> is a tree; \<open>.(string)\<close> and \<open>.(bool)\<close> are its type assertions.
\<close>

type_synonym props = "json gomap"

definition props_get :: "props \<Rightarrow> string \<Rightarrow> json option" where
  "props_get p k = map_of p k"

definition props_set :: "string \<Rightarrow> json \<Rightarrow> props \<Rightarrow> props" where
  "props_set k v p = AList.update k v p"

definition props_delete :: "string \<Rightarrow> props \<Rightarrow> props" where
  "props_delete k p = AList.delete k p"

lemma props_get_set [go_simps]:
  "props_get (props_set k v p) k' = (if k = k' then Some v else props_get p k')"
  by (simp add: props_get_def props_set_def update_conv')

lemma props_get_delete [go_simps]:
  "props_get (props_delete k p) k' = (if k = k' then None else props_get p k')"
  by (simp add: props_get_def props_delete_def delete_conv')

lemma props_get_Nil [go_simps]: "props_get [] k = None"
  by (simp add: props_get_def)

lemma props_get_Cons [go_simps]:
  "props_get ((k, v) # p) k' = (if k = k' then Some v else props_get p k')"
  by (simp add: props_get_def)

definition marshal_props :: "props \<Rightarrow> json" where
  "marshal_props p = JObj p"

definition as_string :: "json option \<Rightarrow> string option" where
  "as_string v = (case v of Some (JStr s) \<Rightarrow> Some s | _ \<Rightarrow> None)"

definition as_bool :: "json option \<Rightarrow> bool option" where
  "as_bool v = (case v of Some (JBool b) \<Rightarrow> Some b | _ \<Rightarrow> None)"

lemma as_string_simps [go_simps]:
  "as_string None = None" "as_string (Some (JStr s)) = Some s" "as_string (Some JNull) = None"
  "as_string (Some (JBool b)) = None" "as_string (Some (JNum n)) = None"
  "as_string (Some (JArr xs)) = None" "as_string (Some (JObj kvs)) = None"
  by (simp_all add: as_string_def)

lemma as_bool_simps [go_simps]:
  "as_bool None = None" "as_bool (Some (JBool b)) = Some b" "as_bool (Some JNull) = None"
  "as_bool (Some (JStr s)) = None" "as_bool (Some (JNum n)) = None"
  "as_bool (Some (JArr xs)) = None" "as_bool (Some (JObj kvs)) = None"
  by (simp_all add: as_bool_def)

text \<open>
  What the libraries print into a document: \<open>UUID.String\<close>, SHA-256 and the RFC 3339 format of an instant;
  and the error \<open>url.ParseRequestURI\<close> has for a text, if it has one.
\<close>

record render_env =
  re_uuid :: "uuid \<Rightarrow> string"
  re_sha256 :: "string \<Rightarrow> string"
  re_time :: "gotime \<Rightarrow> string"
  re_url :: "string \<Rightarrow> string option"

end
