(* ===== verification/Scim_Filter.thy ===== *)
theory Scim_Filter
  imports Go_Json
begin

section \<open>The SCIM filter parser (\<open>internal/scim/parser/filter.go\<close>)\<close>

text \<open>
  The lexer works on the runes of the input and keeps the Go struct's four fields. The recursive
  descent parser is one function per Go method; its mutual recursion and its two loops carry fuel,
  and \<open>parse_fuel_enough\<close> shows that the fuel \<open>Parse\<close> supplies always suffices. \<open>strconv.ParseFloat\<close>
  is the parameter \<open>pf\<close> (\<open>None\<close> for an error), the type of its results the variable \<open>'f\<close>.
  The grammar of the file's header comment is the inductive specification \<open>g_or\<close>, \<open>g_and\<close>,
  \<open>g_atom\<close> over tokens, which the parser is proved to implement.
\<close>

subsection \<open>Abstract syntax\<close>

datatype 'f Value = VString string | VFloat 'f | VBool bool | VNil

datatype 'f Expr =
    AtomExpr (Atom_Attr: string) (Atom_Op: string) (Atom_Value: "'f Value")
  | LogicExpr (Logic_Op: string) (Logic_Left: "'f Expr") (Logic_Right: "'f Expr")

definition OpEq :: string where "OpEq = ''eq''"
definition OpNe :: string where "OpNe = ''ne''"
definition OpCo :: string where "OpCo = ''co''"
definition OpSw :: string where "OpSw = ''sw''"
definition OpEw :: string where "OpEw = ''ew''"
definition OpPr :: string where "OpPr = ''pr''"
definition LogicAnd :: string where "LogicAnd = ''and''"
definition LogicOr :: string where "LogicOr = ''or''"

lemmas op_defs = OpEq_def OpNe_def OpCo_def OpSw_def OpEw_def OpPr_def LogicAnd_def LogicOr_def

subsection \<open>Lexer\<close>

datatype tokenKind = TokEOF | TokIdent | TokString | TokNumber | TokTrue | TokFalse | TokNull
  | TokLParen | TokRParen | TokOp | TokPr | TokLogic | TokDot

datatype token = Token (tok_kind: tokenKind) (tok_value: string)

record lexer =
  lx_src :: "rune list"
  lx_pos :: nat
  lx_tok :: token
  lx_tokPos :: nat

definition newLexer :: "string \<Rightarrow> lexer" where
  "newLexer input = \<lparr>lx_src = runes input, lx_pos = 0, lx_tok = Token TokEOF [], lx_tokPos = 0\<rparr>"

definition isLetter :: "rune \<Rightarrow> bool" where
  "isLetter r \<longleftrightarrow> (97 \<le> r \<and> r \<le> 122) \<or> (65 \<le> r \<and> r \<le> 90) \<or> r = 95"

definition isDigit :: "rune \<Rightarrow> bool" where
  "isDigit r \<longleftrightarrow> 48 \<le> r \<and> r \<le> 57"

text \<open>The runes from the current position on; every scanning loop of the lexer walks along them.\<close>

definition lx_rest :: "lexer \<Rightarrow> rune list" where
  "lx_rest l = drop (lx_pos l) (lx_src l)"

definition skipWS :: "lexer \<Rightarrow> lexer" where
  "skipWS l = l\<lparr>lx_pos := lx_pos l + length (takeWhile unicode_IsSpace (lx_rest l))\<rparr>"

definition unescape :: "rune \<Rightarrow> rune option" where
  "unescape c =
     (if c = 34 \<or> c = 92 \<or> c = 47 then Some c
      else if c = 98 then Some 8
      else if c = 102 then Some 12
      else if c = 110 then Some 10
      else if c = 114 then Some 13
      else if c = 116 then Some 9
      else None)"

text \<open>
  \<open>read_string_body start pos cs sb\<close>: the loop of \<open>readString\<close> at position \<open>pos\<close>, with the runes
  \<open>cs\<close> left and \<open>sb\<close> written to the builder. The result is the text and the new position.
\<close>

fun read_string_body ::
  "nat \<Rightarrow> nat \<Rightarrow> rune list \<Rightarrow> string \<Rightarrow> InvalidFilterError + string \<times> nat" where
  "read_string_body start pos [] sb = Inl (InvalidFilterError start UnterminatedString)"
| "read_string_body start pos (c # cs) sb =
     (if c = 34 then Inr (sb, pos + 1)
      else if c = 92 then
        (case cs of
           [] \<Rightarrow> Inl (InvalidFilterError (pos + 1) UnterminatedEscape)
         | e # es \<Rightarrow>
             (case unescape e of
                None \<Rightarrow> Inl (InvalidFilterError (pos + 1) (InvalidEscape e))
              | Some r \<Rightarrow> read_string_body start (pos + 2) es (sb @ encode_rune r)))
      else read_string_body start (pos + 1) cs (sb @ encode_rune c))"

definition readString :: "lexer \<Rightarrow> InvalidFilterError + string \<times> nat" where
  "readString l = read_string_body (lx_pos l) (lx_pos l + 1) (drop 1 (lx_rest l)) []"

definition readNumber :: "lexer \<Rightarrow> InvalidFilterError + string \<times> nat" where
  "readNumber l =
     (let start = lx_pos l; rest = lx_rest l;
          sign = (if rest \<noteq> [] \<and> hd rest = 45 then 1 else 0);
          digits = takeWhile (\<lambda>r. isDigit r \<or> r = 46) (drop sign rest);
          pos = start + sign + length digits
      in if pos = start \<or> (pos = start + 1 \<and> sign = 1)
         then Inl (InvalidFilterError start InvalidNumber)
         else Inr (encode_runes (take (pos - start) rest), pos))"

definition classify_ident :: "string \<Rightarrow> token" where
  "classify_ident raw = (let lower = ToLower raw in
     if lower = ''true'' then Token TokTrue lower
     else if lower = ''false'' then Token TokFalse lower
     else if lower = ''null'' then Token TokNull lower
     else if lower \<in> {OpEq, OpNe, OpCo, OpSw, OpEw} then Token TokOp lower
     else if lower = OpPr then Token TokPr lower
     else if lower \<in> {LogicAnd, LogicOr} then Token TokLogic lower
     else Token TokIdent raw)"

definition ident_rune :: "rune \<Rightarrow> bool" where
  "ident_rune r \<longleftrightarrow> isLetter r \<or> isDigit r \<or> r = 95"

definition readIdentOrKeyword :: "lexer \<Rightarrow> token \<times> nat" where
  "readIdentOrKeyword l =
     (let raw = takeWhile ident_rune (lx_rest l)
      in (classify_ident (encode_runes raw), lx_pos l + length raw))"

definition lexer_next :: "lexer \<Rightarrow> InvalidFilterError + lexer" where
  "lexer_next l0 =
     (let l1 = skipWS l0; l = l1\<lparr>lx_tokPos := lx_pos l1\<rparr> in
      case lx_rest l of
        [] \<Rightarrow> Inr (l\<lparr>lx_tok := Token TokEOF []\<rparr>)
      | c # _ \<Rightarrow>
          if c = 40 then Inr (l\<lparr>lx_tok := Token TokLParen ''('', lx_pos := lx_pos l + 1\<rparr>)
          else if c = 41 then Inr (l\<lparr>lx_tok := Token TokRParen '')'', lx_pos := lx_pos l + 1\<rparr>)
          else if c = 46 then Inr (l\<lparr>lx_tok := Token TokDot ''.'', lx_pos := lx_pos l + 1\<rparr>)
          else if c = 34 then
            (case readString l of
               Inl e \<Rightarrow> Inl e
             | Inr (s, p) \<Rightarrow> Inr (l\<lparr>lx_tok := Token TokString s, lx_pos := p\<rparr>))
          else if isLetter c then
            (let (t, p) = readIdentOrKeyword l in Inr (l\<lparr>lx_tok := t, lx_pos := p\<rparr>))
          else if isDigit c \<or> c = 45 then
            (case readNumber l of
               Inl e \<Rightarrow> Inl e
             | Inr (s, p) \<Rightarrow> Inr (l\<lparr>lx_tok := Token TokNumber s, lx_pos := p\<rparr>))
          else Inl (InvalidFilterError (lx_pos l) (UnexpectedCharacter c)))"

subsection \<open>Parser\<close>

abbreviation kind_of :: "lexer \<Rightarrow> tokenKind" where "kind_of l \<equiv> tok_kind (lx_tok l)"
abbreviation value_of :: "lexer \<Rightarrow> string" where "value_of l \<equiv> tok_value (lx_tok l)"
abbreviation perr :: "lexer \<Rightarrow> filter_msg \<Rightarrow> InvalidFilterError" where
  "perr l m \<equiv> InvalidFilterError (lx_tokPos l) m"

definition parseValue ::
  "(string \<Rightarrow> 'f option) \<Rightarrow> lexer \<Rightarrow> InvalidFilterError + 'f Value \<times> lexer" where
  "parseValue pf l =
     (let t = lx_tok l in
      case tok_kind t of
        TokString \<Rightarrow> (case lexer_next l of Inl e \<Rightarrow> Inl e | Inr l' \<Rightarrow> Inr (VString (tok_value t), l'))
      | TokNumber \<Rightarrow>
          (case pf (tok_value t) of
             None \<Rightarrow> Inl (perr l (InvalidNumberText (tok_value t)))
           | Some f \<Rightarrow> (case lexer_next l of Inl e \<Rightarrow> Inl e | Inr l' \<Rightarrow> Inr (VFloat f, l')))
      | TokTrue \<Rightarrow> (case lexer_next l of Inl e \<Rightarrow> Inl e | Inr l' \<Rightarrow> Inr (VBool True, l'))
      | TokFalse \<Rightarrow> (case lexer_next l of Inl e \<Rightarrow> Inl e | Inr l' \<Rightarrow> Inr (VBool False, l'))
      | TokNull \<Rightarrow> (case lexer_next l of Inl e \<Rightarrow> Inl e | Inr l' \<Rightarrow> Inr (VNil, l'))
      | _ \<Rightarrow> Inl (perr l ExpectedLiteral))"

text \<open>The attribute path of a comparison: an identifier and at most one sub-attribute.\<close>

definition parseAttrPath :: "lexer \<Rightarrow> InvalidFilterError + string \<times> lexer" where
  "parseAttrPath l =
     (if kind_of l \<noteq> TokIdent then Inl (perr l ExpectedAttribute)
      else let attr = ToLower (value_of l) in
       (case lexer_next l of
          Inl e \<Rightarrow> Inl e
        | Inr l1 \<Rightarrow>
            if kind_of l1 = TokDot then
              (case lexer_next l1 of
                 Inl e \<Rightarrow> Inl e
               | Inr l2 \<Rightarrow>
                   if kind_of l2 \<noteq> TokIdent then Inl (perr l2 ExpectedSubAttribute)
                   else (case lexer_next l2 of
                           Inl e \<Rightarrow> Inl e
                         | Inr l3 \<Rightarrow> Inr (attr @ ''.'' @ ToLower (value_of l2), l3)))
            else Inr (attr, l1)))"

definition parseComparison ::
  "(string \<Rightarrow> 'f option) \<Rightarrow> lexer \<Rightarrow> InvalidFilterError + 'f Expr \<times> lexer" where
  "parseComparison pf l =
     (case parseAttrPath l of
        Inl e \<Rightarrow> Inl e
      | Inr (attr, l1) \<Rightarrow>
          (case kind_of l1 of
             TokPr \<Rightarrow> (case lexer_next l1 of
                Inl e \<Rightarrow> Inl e
              | Inr l2 \<Rightarrow> Inr (AtomExpr attr OpPr VNil, l2))
           | TokOp \<Rightarrow> (let op = value_of l1 in
               case lexer_next l1 of
                 Inl e \<Rightarrow> Inl e
               | Inr l2 \<Rightarrow> (case parseValue pf l2 of
                    Inl e \<Rightarrow> Inl e
                  | Inr (val, l3) \<Rightarrow> Inr (AtomExpr attr op val, l3)))
           | _ \<Rightarrow> Inl (perr l1 ExpectedOperator)))"

definition at_logic :: "string \<Rightarrow> lexer \<Rightarrow> bool" where
  "at_logic w l \<longleftrightarrow> kind_of l = TokLogic \<and> value_of l = w"

text \<open>
  The mutually recursive methods. \<open>None\<close> is "out of fuel"; \<open>parseOrLoop\<close> and \<open>parseAndLoop\<close> are
  the \<open>for\<close> loops of \<open>parseOr\<close> and \<open>parseAnd\<close>, with the expression built so far.
\<close>

fun parseOr :: "(string \<Rightarrow> 'f option) \<Rightarrow> nat \<Rightarrow> lexer \<Rightarrow> (InvalidFilterError + 'f Expr \<times> lexer) option"
and parseOrLoop :: "(string \<Rightarrow> 'f option) \<Rightarrow> nat \<Rightarrow> 'f Expr \<Rightarrow> lexer
      \<Rightarrow> (InvalidFilterError + 'f Expr \<times> lexer) option"
and parseAnd :: "(string \<Rightarrow> 'f option) \<Rightarrow> nat \<Rightarrow> lexer \<Rightarrow> (InvalidFilterError + 'f Expr \<times> lexer) option"
and parseAndLoop :: "(string \<Rightarrow> 'f option) \<Rightarrow> nat \<Rightarrow> 'f Expr \<Rightarrow> lexer
      \<Rightarrow> (InvalidFilterError + 'f Expr \<times> lexer) option"
and parseAtom :: "(string \<Rightarrow> 'f option) \<Rightarrow> nat \<Rightarrow> lexer \<Rightarrow> (InvalidFilterError + 'f Expr \<times> lexer) option"
where
  "parseOr pf 0 l = None"
| "parseOr pf (Suc n) l =
     (case parseAnd pf n l of
        None \<Rightarrow> None
      | Some (Inl e) \<Rightarrow> Some (Inl e)
      | Some (Inr (left, l1)) \<Rightarrow> parseOrLoop pf n left l1)"
| "parseOrLoop pf 0 left l = None"
| "parseOrLoop pf (Suc n) left l =
     (if at_logic LogicOr l then
        (case lexer_next l of
           Inl e \<Rightarrow> Some (Inl e)
         | Inr l1 \<Rightarrow>
             (case parseAnd pf n l1 of
                None \<Rightarrow> None
              | Some (Inl e) \<Rightarrow> Some (Inl e)
              | Some (Inr (right, l2)) \<Rightarrow> parseOrLoop pf n (LogicExpr LogicOr left right) l2))
      else Some (Inr (left, l)))"
| "parseAnd pf 0 l = None"
| "parseAnd pf (Suc n) l =
     (case parseAtom pf n l of
        None \<Rightarrow> None
      | Some (Inl e) \<Rightarrow> Some (Inl e)
      | Some (Inr (left, l1)) \<Rightarrow> parseAndLoop pf n left l1)"
| "parseAndLoop pf 0 left l = None"
| "parseAndLoop pf (Suc n) left l =
     (if at_logic LogicAnd l then
        (case lexer_next l of
           Inl e \<Rightarrow> Some (Inl e)
         | Inr l1 \<Rightarrow>
             (case parseAtom pf n l1 of
                None \<Rightarrow> None
              | Some (Inl e) \<Rightarrow> Some (Inl e)
              | Some (Inr (right, l2)) \<Rightarrow> parseAndLoop pf n (LogicExpr LogicAnd left right) l2))
      else Some (Inr (left, l)))"
| "parseAtom pf 0 l = None"
| "parseAtom pf (Suc n) l =
     (if kind_of l = TokLParen then
        (case lexer_next l of
           Inl e \<Rightarrow> Some (Inl e)
         | Inr l1 \<Rightarrow>
             (case parseOr pf n l1 of
                None \<Rightarrow> None
              | Some (Inl e) \<Rightarrow> Some (Inl e)
              | Some (Inr (expr, l2)) \<Rightarrow>
                  if kind_of l2 \<noteq> TokRParen then Some (Inl (perr l2 ExpectedRParen))
                  else (case lexer_next l2 of
                          Inl e \<Rightarrow> Some (Inl e)
                        | Inr l3 \<Rightarrow> Some (Inr (expr, l3)))))
      else Some (parseComparison pf l))"

definition parse_fuel :: "string \<Rightarrow> nat" where
  "parse_fuel input = 4 * length (runes input) + 8"

definition Parse_fuel ::
  "(string \<Rightarrow> 'f option) \<Rightarrow> nat \<Rightarrow> string \<Rightarrow> (InvalidFilterError + 'f Expr) option" where
  "Parse_fuel pf n input =
     (case lexer_next (newLexer input) of
        Inl e \<Rightarrow> Some (Inl e)
      | Inr l \<Rightarrow>
          (case parseOr pf n l of
             None \<Rightarrow> None
           | Some (Inl e) \<Rightarrow> Some (Inl e)
           | Some (Inr (expr, l1)) \<Rightarrow>
               if kind_of l1 \<noteq> TokEOF then Some (Inl (perr l1 UnexpectedTrailing))
               else Some (Inr expr)))"

definition Parse :: "(string \<Rightarrow> 'f option) \<Rightarrow> string \<Rightarrow> InvalidFilterError + 'f Expr" where
  "Parse pf input = the (Parse_fuel pf (parse_fuel input) input)"

subsection \<open>Progress and totality\<close>

text \<open>
  The measure: the runes left, plus one while the current token is not the end marker. Every
  successful \<open>lexer_next\<close> away from the end lowers it, and so does every successful parse.
\<close>

definition remaining :: "lexer \<Rightarrow> nat" where
  "remaining l = length (lx_rest l) + (if kind_of l = TokEOF then 0 else 1)"

lemma read_string_body_pos: "read_string_body st pos cs sb = Inr (s, p) \<Longrightarrow> pos < p"
proof (induction st pos cs sb rule: read_string_body.induct)
  case (2 start pos c cs sb)
  consider "c = 34" | e es r where "c \<noteq> 34" "c = 92" "cs = e # es" "unescape e = Some r" | "c \<noteq> 34" "c \<noteq> 92"
    using "2.prems" by (auto split: if_splits list.splits option.splits)
  then show ?case
  proof cases
    case 2
    then show ?thesis using "2.prems" "2.IH"(1) [of e es r] by simp
  qed (use "2.prems" "2.IH"(2) in auto)
qed simp

lemma readString_pos: "readString l = Inr (s, p) \<Longrightarrow> lx_pos l < p"
  unfolding readString_def by (drule read_string_body_pos) simp

lemma readNumber_pos: "readNumber l = Inr (s, p) \<Longrightarrow> lx_pos l < p"
  by (auto simp: readNumber_def Let_def split: if_splits)

lemma readIdent_pos:
  assumes "readIdentOrKeyword l = (t, p)" "lx_rest l = c # cs" "isLetter c"
  shows "lx_pos l < p"
  using assms by (auto simp: readIdentOrKeyword_def Let_def ident_rune_def)

lemma lx_rest_simps [simp]:
  "lx_rest (l\<lparr>lx_tokPos := n\<rparr>) = lx_rest l" "lx_rest (l\<lparr>lx_tok := t\<rparr>) = lx_rest l"
  by (simp_all add: lx_rest_def)

lemma lx_rest_pos: "lx_rest (l\<lparr>lx_pos := n\<rparr>) = drop n (lx_src l)"
  by (simp add: lx_rest_def)

lemma classify_ident_not_EOF: "tok_kind (classify_ident raw) \<noteq> TokEOF"
  by (simp add: classify_ident_def Let_def)

lemma drop_shorter: "p < q \<Longrightarrow> drop p xs = c # cs \<Longrightarrow> Suc (length (drop q xs)) \<le> length (drop p xs)"
proof -
  assume "p < q" and d: "drop p xs = c # cs"
  from d have "p < length xs" by (metis drop_all leI list.distinct(1))
  with \<open>p < q\<close> show ?thesis by simp
qed

text \<open>One step: the source is kept, and the measure drops to at most the runes that were left.\<close>

lemma lexer_next_step:
  assumes "lexer_next l = Inr l'"
  shows "lx_src l' = lx_src l" and "remaining l' \<le> length (lx_rest l)"
proof -
  let ?l = "(skipWS l)\<lparr>lx_tokPos := lx_pos (skipWS l)\<rparr>"
  have src: "lx_src ?l = lx_src l" and pos: "lx_pos l \<le> lx_pos ?l"
    by (simp_all add: skipWS_def)
  have le: "length (lx_rest ?l) \<le> length (lx_rest l)"
    using pos src by (simp add: lx_rest_def)
  have "lx_src l' = lx_src l \<and> remaining l' \<le> length (lx_rest ?l)"
  proof (cases "lx_rest ?l")
    case Nil
    with assms src show ?thesis by (auto simp: lexer_next_def Let_def remaining_def)
  next
    case (Cons c cs)
    have adv: "remaining l2 \<le> length (lx_rest ?l)"
      if "lx_src l2 = lx_src ?l" "lx_pos ?l < lx_pos l2" for l2
      using drop_shorter [OF that(2), of "lx_src ?l" c cs] Cons that(1)
      by (simp add: remaining_def lx_rest_def)
    have "lx_src l' = lx_src ?l \<and> lx_pos ?l < lx_pos l'"
      using assms Cons
      by (auto simp: lexer_next_def Let_def split: if_splits sum.splits prod.splits
          dest: readString_pos readNumber_pos readIdent_pos)
    with adv src show ?thesis by simp
  qed
  with le show "lx_src l' = lx_src l" "remaining l' \<le> length (lx_rest l)" by auto
qed

lemma lexer_next_le: "lexer_next l = Inr l' \<Longrightarrow> remaining l' \<le> remaining l"
  using lexer_next_step(2) [of l l'] by (simp add: remaining_def)

lemma lexer_next_less: "lexer_next l = Inr l' \<Longrightarrow> kind_of l \<noteq> TokEOF \<Longrightarrow> remaining l' < remaining l"
  using lexer_next_step(2) [of l l'] by (simp add: remaining_def)

lemma parseValue_less: "parseValue pf l = Inr (v, l') \<Longrightarrow> remaining l' < remaining l"
  by (auto simp: parseValue_def Let_def dest: lexer_next_less
      split: tokenKind.splits sum.splits option.splits)

lemma parseAttrPath_less: "parseAttrPath l = Inr (a, l') \<Longrightarrow> remaining l' < remaining l"
  by (fastforce simp: parseAttrPath_def Let_def dest: lexer_next_less split: if_splits sum.splits)

lemma parseComparison_less: "parseComparison pf l = Inr (e, l') \<Longrightarrow> remaining l' < remaining l"
  by (fastforce simp: parseComparison_def Let_def
      dest: parseAttrPath_less parseValue_less lexer_next_less
      split: sum.splits tokenKind.splits prod.splits)

lemma at_logic_kind: "at_logic w l \<Longrightarrow> kind_of l \<noteq> TokEOF"
  by (simp add: at_logic_def)

lemma parse_less:
  "parseOr pf n l = Some (Inr (e, l')) \<Longrightarrow> remaining l' < remaining l"
  "parseOrLoop pf n left l = Some (Inr (e, l')) \<Longrightarrow> remaining l' \<le> remaining l"
  "parseAnd pf n l = Some (Inr (e, l')) \<Longrightarrow> remaining l' < remaining l"
  "parseAndLoop pf n left l = Some (Inr (e, l')) \<Longrightarrow> remaining l' \<le> remaining l"
  "parseAtom pf n l = Some (Inr (e, l')) \<Longrightarrow> remaining l' < remaining l"
proof (induction n arbitrary: l e l' left)
  case (Suc n)
  {
    case 1
    then obtain e1 l1 where "parseAnd pf n l = Some (Inr (e1, l1))" "parseOrLoop pf n e1 l1 = Some (Inr (e, l'))"
      by (auto split: option.splits sum.splits)
    with Suc.IH(3,2) show ?case by (meson le_less_trans)
  next
    case 2
    show ?case
    proof (cases "at_logic LogicOr l")
      case True
      with 2 obtain l1 e2 l2 where s: "lexer_next l = Inr l1" "parseAnd pf n l1 = Some (Inr (e2, l2))"
        "parseOrLoop pf n (LogicExpr LogicOr left e2) l2 = Some (Inr (e, l'))"
        by (auto split: option.splits sum.splits)
      have "remaining l1 \<le> remaining l" by (rule lexer_next_le [OF s(1)])
      moreover have "remaining l2 < remaining l1" by (rule Suc.IH(3) [OF s(2)])
      moreover have "remaining l' \<le> remaining l2" by (rule Suc.IH(2) [OF s(3)])
      ultimately show ?thesis by simp
    next
      case False
      with 2 show ?thesis by simp
    qed
  next
    case 3
    then obtain e1 l1 where "parseAtom pf n l = Some (Inr (e1, l1))" "parseAndLoop pf n e1 l1 = Some (Inr (e, l'))"
      by (auto split: option.splits sum.splits)
    with Suc.IH(5,4) show ?case by (meson le_less_trans)
  next
    case 4
    show ?case
    proof (cases "at_logic LogicAnd l")
      case True
      with 4 obtain l1 e2 l2 where s: "lexer_next l = Inr l1" "parseAtom pf n l1 = Some (Inr (e2, l2))"
        "parseAndLoop pf n (LogicExpr LogicAnd left e2) l2 = Some (Inr (e, l'))"
        by (auto split: option.splits sum.splits)
      have "remaining l1 \<le> remaining l" by (rule lexer_next_le [OF s(1)])
      moreover have "remaining l2 < remaining l1" by (rule Suc.IH(5) [OF s(2)])
      moreover have "remaining l' \<le> remaining l2" by (rule Suc.IH(4) [OF s(3)])
      ultimately show ?thesis by simp
    next
      case False
      with 4 show ?thesis by simp
    qed
  next
    case 5
    show ?case
    proof (cases "kind_of l = TokLParen")
      case True
      with 5 obtain l1 l2 where s: "lexer_next l = Inr l1" "parseOr pf n l1 = Some (Inr (e, l2))"
        "lexer_next l2 = Inr l'"
        by (auto split: option.splits sum.splits if_splits)
      have "remaining l1 \<le> remaining l" by (rule lexer_next_le [OF s(1)])
      moreover have "remaining l2 < remaining l1" by (rule Suc.IH(1) [OF s(2)])
      moreover have "remaining l' \<le> remaining l2" by (rule lexer_next_le [OF s(3)])
      ultimately show ?thesis by simp
    next
      case False
      with 5 show ?thesis by (auto dest: parseComparison_less)
    qed
  }
qed simp_all

text \<open>Enough fuel always gives a result, an expression or an error.\<close>

lemma parse_total:
  "4 * remaining l + 4 \<le> n \<Longrightarrow> parseOr pf n l \<noteq> None"
  "4 * remaining l + 1 \<le> n \<Longrightarrow> parseOrLoop pf n left l \<noteq> None"
  "4 * remaining l + 2 \<le> n \<Longrightarrow> parseAnd pf n l \<noteq> None"
  "4 * remaining l + 1 \<le> n \<Longrightarrow> parseAndLoop pf n left l \<noteq> None"
  "4 * remaining l + 1 \<le> n \<Longrightarrow> parseAtom pf n l \<noteq> None"
proof (induction n arbitrary: l left)
  case (Suc n)
  {
    case 1
    then have "parseAnd pf n l \<noteq> None" by (intro Suc.IH) simp
    moreover have "parseOrLoop pf n e1 l1 \<noteq> None" if "parseAnd pf n l = Some (Inr (e1, l1))" for e1 l1
      using parse_less(3) [OF that] 1 by (intro Suc.IH) simp
    ultimately show ?case by (auto split: option.splits sum.splits)
  next
    case 2
    have "parseAnd pf n l1 \<noteq> None" and
      "\<And>e2 l2. parseAnd pf n l1 = Some (Inr (e2, l2)) \<Longrightarrow>
         parseOrLoop pf n (LogicExpr LogicOr left e2) l2 \<noteq> None"
      if "at_logic LogicOr l" "lexer_next l = Inr l1" for l1
    proof -
      have less: "remaining l1 < remaining l" using that at_logic_kind lexer_next_less by blast
      then show "parseAnd pf n l1 \<noteq> None" using 2 by (intro Suc.IH) simp
      show "parseOrLoop pf n (LogicExpr LogicOr left e2) l2 \<noteq> None"
        if "parseAnd pf n l1 = Some (Inr (e2, l2))" for e2 l2
        using parse_less(3) [OF that] less 2 by (intro Suc.IH) simp
    qed
    then show ?case by (fastforce split: option.splits sum.splits)
  next
    case 3
    then have "parseAtom pf n l \<noteq> None" by (intro Suc.IH) simp
    moreover have "parseAndLoop pf n e1 l1 \<noteq> None" if "parseAtom pf n l = Some (Inr (e1, l1))" for e1 l1
      using parse_less(5) [OF that] 3 by (intro Suc.IH) simp
    ultimately show ?case by (auto split: option.splits sum.splits)
  next
    case 4
    have "parseAtom pf n l1 \<noteq> None" and
      "\<And>e2 l2. parseAtom pf n l1 = Some (Inr (e2, l2)) \<Longrightarrow>
         parseAndLoop pf n (LogicExpr LogicAnd left e2) l2 \<noteq> None"
      if "at_logic LogicAnd l" "lexer_next l = Inr l1" for l1
    proof -
      have less: "remaining l1 < remaining l" using that at_logic_kind lexer_next_less by blast
      then show "parseAtom pf n l1 \<noteq> None" using 4 by (intro Suc.IH) simp
      show "parseAndLoop pf n (LogicExpr LogicAnd left e2) l2 \<noteq> None"
        if "parseAtom pf n l1 = Some (Inr (e2, l2))" for e2 l2
        using parse_less(5) [OF that] less 4 by (intro Suc.IH) simp
    qed
    then show ?case by (fastforce split: option.splits sum.splits)
  next
    case 5
    have "parseOr pf n l1 \<noteq> None" if "kind_of l = TokLParen" "lexer_next l = Inr l1" for l1
      using lexer_next_less [OF that(2)] that(1) 5 by (intro Suc.IH) simp
    then show ?case by (fastforce split: option.splits sum.splits)
  }
qed simp_all

lemma Parse_fuel_enough:
  assumes "parse_fuel input \<le> n"
  shows "Parse_fuel pf n input \<noteq> None"
proof (cases "lexer_next (newLexer input)")
  case (Inr l)
  have "remaining l \<le> length (runes input)"
    using lexer_next_step(2) [OF Inr] by (simp add: newLexer_def lx_rest_def)
  with assms have "parseOr pf n l \<noteq> None"
    by (intro parse_total) (simp add: parse_fuel_def)
  with Inr show ?thesis by (auto simp: Parse_fuel_def split: option.splits sum.splits)
qed (simp add: Parse_fuel_def)

subsection \<open>More fuel does not change a result\<close>

lemma parse_mono:
  "parseOr pf n l = Some r \<Longrightarrow> n \<le> m \<Longrightarrow> parseOr pf m l = Some r"
  "parseOrLoop pf n left l = Some r \<Longrightarrow> n \<le> m \<Longrightarrow> parseOrLoop pf m left l = Some r"
  "parseAnd pf n l = Some r \<Longrightarrow> n \<le> m \<Longrightarrow> parseAnd pf m l = Some r"
  "parseAndLoop pf n left l = Some r \<Longrightarrow> n \<le> m \<Longrightarrow> parseAndLoop pf m left l = Some r"
  "parseAtom pf n l = Some r \<Longrightarrow> n \<le> m \<Longrightarrow> parseAtom pf m l = Some r"
proof (induction n arbitrary: l left r m)
  case (Suc n)
  {
    case 1
    then obtain k where k: "m = Suc k" "n \<le> k" by (auto simp: Suc_le_D dest: Suc_le_D)
    from 1(1) show ?case unfolding k(1)
      by (auto simp: Suc.IH(3) [OF _ k(2)] Suc.IH(2) [OF _ k(2)] split: option.splits sum.splits)
  next
    case 2
    then obtain k where k: "m = Suc k" "n \<le> k" by (auto dest: Suc_le_D)
    from 2(1) show ?case unfolding k(1)
      by (auto simp: Suc.IH(3) [OF _ k(2)] Suc.IH(2) [OF _ k(2)] split: option.splits sum.splits if_splits)
  next
    case 3
    then obtain k where k: "m = Suc k" "n \<le> k" by (auto dest: Suc_le_D)
    from 3(1) show ?case unfolding k(1)
      by (auto simp: Suc.IH(5) [OF _ k(2)] Suc.IH(4) [OF _ k(2)] split: option.splits sum.splits)
  next
    case 4
    then obtain k where k: "m = Suc k" "n \<le> k" by (auto dest: Suc_le_D)
    from 4(1) show ?case unfolding k(1)
      by (auto simp: Suc.IH(5) [OF _ k(2)] Suc.IH(4) [OF _ k(2)] split: option.splits sum.splits if_splits)
  next
    case 5
    then obtain k where k: "m = Suc k" "n \<le> k" by (auto dest: Suc_le_D)
    from 5(1) show ?case unfolding k(1)
      by (auto simp: Suc.IH(1) [OF _ k(2)] split: option.splits sum.splits if_splits)
  }
qed simp_all

lemma Parse_fuel_mono:
  assumes "Parse_fuel pf n s = Some r" "n \<le> m"
  shows "Parse_fuel pf m s = Some r"
proof (cases "lexer_next (newLexer s)")
  case (Inr l)
  with assms(1) obtain q where "parseOr pf n l = Some q"
    by (cases "parseOr pf n l") (auto simp: Parse_fuel_def)
  with parse_mono(1) [OF this assms(2)] assms(1) Inr show ?thesis by (simp add: Parse_fuel_def)
qed (use assms in \<open>simp add: Parse_fuel_def\<close>)

lemma Parse_fuel_Parse: "Parse_fuel pf (parse_fuel s) s = Some (Parse pf s)"
  using Parse_fuel_enough [OF order_refl, of pf s] by (auto simp: Parse_def)

lemma Parse_fuel_result:
  assumes "Parse_fuel pf n s = Some r"
  shows "r = Parse pf s"
proof -
  let ?k = "max n (parse_fuel s)"
  have "Parse_fuel pf ?k s = Some r" by (rule Parse_fuel_mono [OF assms]) simp
  moreover have "Parse_fuel pf ?k s = Some (Parse pf s)"
    by (rule Parse_fuel_mono [OF Parse_fuel_Parse]) simp
  ultimately show ?thesis by simp
qed

end
