(* ===== verification/Scim_Grammar.thy ===== *)
theory Scim_Grammar
  imports Scim_Filter
begin

section \<open>The filter grammar and its parser\<close>

text \<open>
  The grammar in the package comment of \<open>internal/scim/parser/filter.go\<close>, stated over the tokens of
  the whole input. \<open>g_or\<close> and \<open>g_and\<close> are left recursive, so a chain of the same connective nests to
  the left and \<open>and\<close> binds tighter than \<open>or\<close>. The parser is proved sound and complete for it, and a
  printer of filter expressions is proved to be inverted by it.
\<close>

subsection \<open>The token sequence of an input\<close>

inductive lex_path :: "lexer \<Rightarrow> token list \<Rightarrow> lexer \<Rightarrow> bool" where
  path_Nil: "lex_path l [] l"
| path_Cons: "\<lbrakk>kind_of l \<noteq> TokEOF; lexer_next l = Inr l1; lex_path l1 ts l'\<rbrakk>
    \<Longrightarrow> lex_path l (lx_tok l # ts) l'"

inductive_cases path_NilE: "lex_path l [] l'"
inductive_cases path_ConsE: "lex_path l (t # ts) l'"

definition tokenizes :: "string \<Rightarrow> token list \<Rightarrow> bool" where
  "tokenizes s ts \<longleftrightarrow>
     (\<exists>l l'. lexer_next (newLexer s) = Inr l \<and> lex_path l ts l' \<and> kind_of l' = TokEOF)"

lemma path_one: "kind_of l \<noteq> TokEOF \<Longrightarrow> lexer_next l = Inr l' \<Longrightarrow> lex_path l [lx_tok l] l'"
  by (auto intro: lex_path.intros)

lemma path_append: "lex_path l ts l1 \<Longrightarrow> lex_path l1 us l2 \<Longrightarrow> lex_path l (ts @ us) l2"
  by (induction rule: lex_path.induct) (auto intro: lex_path.intros)

lemma path_appendE:
  assumes "lex_path l (ts @ us) l2"
  obtains l1 where "lex_path l ts l1" "lex_path l1 us l2"
  using assms
proof (induction ts arbitrary: l thesis)
  case Nil
  then show ?case by (auto intro: lex_path.intros)
next
  case (Cons t ts)
  from Cons.prems(2) obtain l1 where t: "t = lx_tok l" "kind_of l \<noteq> TokEOF" "lexer_next l = Inr l1"
    and p: "lex_path l1 (ts @ us) l2" by (auto elim: path_ConsE)
  from Cons.IH [OF _ p] obtain l3 where "lex_path l1 ts l3" "lex_path l3 us l2" by blast
  with t show ?case by (auto intro: Cons.prems(1) lex_path.intros)
qed

lemma path_det:
  "lex_path l ts l1 \<Longrightarrow> lex_path l us l2 \<Longrightarrow> kind_of l1 = TokEOF \<Longrightarrow> kind_of l2 = TokEOF \<Longrightarrow> ts = us"
proof (induction arbitrary: us rule: lex_path.induct)
  case (path_Nil l)
  then show ?case by (auto elim: lex_path.cases)
next
  case (path_Cons l l1 ts l')
  then show ?case by (auto elim: lex_path.cases)
qed

lemma tokenizes_det: "tokenizes s ts \<Longrightarrow> tokenizes s us \<Longrightarrow> ts = us"
  by (auto simp: tokenizes_def dest: path_det)

subsection \<open>The grammar\<close>

fun value_token :: "(string \<Rightarrow> 'f option) \<Rightarrow> token \<Rightarrow> 'f Value option" where
  "value_token pf (Token TokString s) = Some (VString s)"
| "value_token pf (Token TokNumber s) = map_option VFloat (pf s)"
| "value_token pf (Token TokTrue s) = Some (VBool True)"
| "value_token pf (Token TokFalse s) = Some (VBool False)"
| "value_token pf (Token TokNull s) = Some VNil"
| "value_token pf _ = None"

inductive g_attr :: "token list \<Rightarrow> string \<Rightarrow> bool" where
  attr_plain: "g_attr [Token TokIdent a] (ToLower a)"
| attr_sub: "g_attr [Token TokIdent a, Token TokDot d, Token TokIdent b] (ToLower a @ ''.'' @ ToLower b)"

inductive g_cmp :: "(string \<Rightarrow> 'f option) \<Rightarrow> token list \<Rightarrow> 'f Expr \<Rightarrow> bool" for pf where
  cmp_pr: "g_attr ts a \<Longrightarrow> g_cmp pf (ts @ [Token TokPr p]) (AtomExpr a OpPr VNil)"
| cmp_op: "g_attr ts a \<Longrightarrow> value_token pf t = Some v
    \<Longrightarrow> g_cmp pf (ts @ [Token TokOp op, t]) (AtomExpr a op v)"

inductive g_or :: "(string \<Rightarrow> 'f option) \<Rightarrow> token list \<Rightarrow> 'f Expr \<Rightarrow> bool"
  and g_and :: "(string \<Rightarrow> 'f option) \<Rightarrow> token list \<Rightarrow> 'f Expr \<Rightarrow> bool"
  and g_atom :: "(string \<Rightarrow> 'f option) \<Rightarrow> token list \<Rightarrow> 'f Expr \<Rightarrow> bool" for pf where
  or_and: "g_and pf ts e \<Longrightarrow> g_or pf ts e"
| or_or: "g_or pf ts e \<Longrightarrow> g_and pf us f
    \<Longrightarrow> g_or pf (ts @ Token TokLogic LogicOr # us) (LogicExpr LogicOr e f)"
| and_atom: "g_atom pf ts e \<Longrightarrow> g_and pf ts e"
| and_and: "g_and pf ts e \<Longrightarrow> g_atom pf us f
    \<Longrightarrow> g_and pf (ts @ Token TokLogic LogicAnd # us) (LogicExpr LogicAnd e f)"
| atom_paren: "g_or pf ts e \<Longrightarrow> g_atom pf (Token TokLParen p # ts @ [Token TokRParen q]) e"
| atom_cmp: "g_cmp pf ts e \<Longrightarrow> g_atom pf ts e"

subsection \<open>Soundness\<close>

lemma tok_eq: "tok_kind t = k \<Longrightarrow> t = Token k (tok_value t)"
  by (cases t) simp

lemma parseValue_iff:
  "parseValue pf l = Inr (v, l') \<longleftrightarrow> value_token pf (lx_tok l) = Some v \<and> lexer_next l = Inr l'"
proof (cases "lx_tok l")
  case (Token k t)
  show ?thesis
    by (cases k) (auto simp: Token parseValue_def Let_def split: sum.splits option.splits)
qed

lemma value_token_not_EOF: "value_token pf t = Some v \<Longrightarrow> tok_kind t \<noteq> TokEOF"
  by (cases t) auto

lemma parseAttrPath_sound:
  assumes "parseAttrPath l = Inr (a, l')"
  shows "\<exists>ts. lex_path l ts l' \<and> g_attr ts a"
proof -
  from assms obtain l1 where k: "kind_of l = TokIdent" and l1: "lexer_next l = Inr l1"
    by (auto simp: parseAttrPath_def Let_def split: if_splits sum.splits)
  have t: "lx_tok l = Token TokIdent (value_of l)" using k by (rule tok_eq)
  have p1: "lex_path l [lx_tok l] l1" using k l1 by (intro path_one) simp_all
  show ?thesis
  proof (cases "kind_of l1 = TokDot")
    case True
    with assms k l1 obtain l2 where l2: "lexer_next l1 = Inr l2" "kind_of l2 = TokIdent" "lexer_next l2 = Inr l'"
      and a: "a = ToLower (value_of l) @ ''.'' @ ToLower (value_of l2)"
      by (auto simp: parseAttrPath_def Let_def split: if_splits sum.splits)
    have "lex_path l [lx_tok l, lx_tok l1, lx_tok l2] l'"
      using k l1 l2 True by (auto intro!: lex_path.intros)
    moreover have "g_attr [lx_tok l, lx_tok l1, lx_tok l2] a"
      using attr_sub [of "value_of l" "value_of l1" "value_of l2"] t tok_eq [OF True] tok_eq [OF l2(2)] a by simp
    ultimately show ?thesis by blast
  next
    case False
    with assms k l1 have "a = ToLower (value_of l)" "l' = l1"
      by (auto simp: parseAttrPath_def Let_def)
    with p1 t attr_plain [of "value_of l"] show ?thesis by auto
  qed
qed

lemma parseComparison_sound:
  assumes "parseComparison pf l = Inr (e, l')"
  shows "\<exists>ts. lex_path l ts l' \<and> g_cmp pf ts e"
proof -
  from assms obtain a l1 where al: "parseAttrPath l = Inr (a, l1)"
    by (auto simp: parseComparison_def split: sum.splits)
  then obtain ts where ts: "lex_path l ts l1" "g_attr ts a" using parseAttrPath_sound by blast
  consider (pr) "kind_of l1 = TokPr" | (op) "kind_of l1 = TokOp"
    using assms al by (auto simp: parseComparison_def split: tokenKind.splits)
  then show ?thesis
  proof cases
    case pr
    with assms al have n: "lexer_next l1 = Inr l'" and e: "e = AtomExpr a OpPr VNil"
      by (auto simp: parseComparison_def split: sum.splits)
    have "lex_path l1 [Token TokPr (value_of l1)] l'"
      using path_one [OF _ n] pr tok_eq [OF pr] by simp
    with ts e show ?thesis by (auto intro: path_append cmp_pr)
  next
    case op
    with assms al obtain l2 v where n: "lexer_next l1 = Inr l2" and v: "parseValue pf l2 = Inr (v, l')"
      and e: "e = AtomExpr a (value_of l1) v"
      by (auto simp: parseComparison_def Let_def split: sum.splits)
    have pv: "lex_path l2 [lx_tok l2] l'"
      using v by (auto simp: parseValue_iff intro!: path_one dest: value_token_not_EOF)
    have "lex_path l1 [Token TokOp (value_of l1)] l2"
      using path_one [OF _ n] op tok_eq [OF op] by simp
    from path_append [OF ts(1) path_append [OF this pv]]
    have "lex_path l (ts @ [Token TokOp (value_of l1), lx_tok l2]) l'" by simp
    moreover have "g_cmp pf (ts @ [Token TokOp (value_of l1), lx_tok l2]) e"
      using ts(2) v unfolding e by (auto simp: parseValue_iff intro: cmp_op)
    ultimately show ?thesis by blast
  qed
qed

lemma at_logic_path:
  "at_logic w l \<Longrightarrow> lexer_next l = Inr l1 \<Longrightarrow> lex_path l1 us l' \<Longrightarrow> lex_path l (Token TokLogic w # us) l'"
  using path_Cons [of l l1 us l'] tok_eq [of "lx_tok l" TokLogic] by (auto simp: at_logic_def)

lemma parse_sound:
  "parseOr pf n l = Some (Inr (e, l')) \<Longrightarrow> \<exists>ts. lex_path l ts l' \<and> g_or pf ts e"
  "parseOrLoop pf n left l = Some (Inr (e, l')) \<Longrightarrow> g_or pf ts0 left \<Longrightarrow>
     \<exists>ts. lex_path l ts l' \<and> g_or pf (ts0 @ ts) e"
  "parseAnd pf n l = Some (Inr (e, l')) \<Longrightarrow> \<exists>ts. lex_path l ts l' \<and> g_and pf ts e"
  "parseAndLoop pf n left l = Some (Inr (e, l')) \<Longrightarrow> g_and pf ts0 left \<Longrightarrow>
     \<exists>ts. lex_path l ts l' \<and> g_and pf (ts0 @ ts) e"
  "parseAtom pf n l = Some (Inr (e, l')) \<Longrightarrow> \<exists>ts. lex_path l ts l' \<and> g_atom pf ts e"
proof (induction n arbitrary: l e l' left ts0)
  case (Suc n)
  {
    case 1
    then obtain e1 l1 where s: "parseAnd pf n l = Some (Inr (e1, l1))" "parseOrLoop pf n e1 l1 = Some (Inr (e, l'))"
      by (auto split: option.splits sum.splits)
    from Suc.IH(3) [OF s(1)] obtain ts where ts: "lex_path l ts l1" "g_and pf ts e1" by blast
    from Suc.IH(2) [OF s(2) or_and [OF ts(2)]] ts(1) show ?case by (blast intro: path_append)
  next
    case 2
    show ?case
    proof (cases "at_logic LogicOr l")
      case True
      with 2 obtain l1 e2 l2 where s: "lexer_next l = Inr l1" "parseAnd pf n l1 = Some (Inr (e2, l2))"
        "parseOrLoop pf n (LogicExpr LogicOr left e2) l2 = Some (Inr (e, l'))"
        by (auto split: option.splits sum.splits)
      from Suc.IH(3) [OF s(2)] obtain us where us: "lex_path l1 us l2" "g_and pf us e2" by blast
      from Suc.IH(2) [OF s(3) or_or [OF 2(2) us(2)]] obtain vs where
        vs: "lex_path l2 vs l'" "g_or pf ((ts0 @ Token TokLogic LogicOr # us) @ vs) e" by blast
      have "lex_path l (Token TokLogic LogicOr # us @ vs) l'"
        using at_logic_path [OF True s(1) path_append [OF us(1) vs(1)]] .
      with vs(2) show ?thesis by (intro exI [of _ "Token TokLogic LogicOr # us @ vs"]) simp
    next
      case False
      with 2 have "lex_path l [] l'" "e = left" by (auto intro: path_Nil)
      with 2(2) show ?thesis by (intro exI [of _ "[]"]) simp
    qed
  next
    case 3
    then obtain e1 l1 where s: "parseAtom pf n l = Some (Inr (e1, l1))" "parseAndLoop pf n e1 l1 = Some (Inr (e, l'))"
      by (auto split: option.splits sum.splits)
    from Suc.IH(5) [OF s(1)] obtain ts where ts: "lex_path l ts l1" "g_atom pf ts e1" by blast
    from Suc.IH(4) [OF s(2) and_atom [OF ts(2)]] ts(1) show ?case by (blast intro: path_append)
  next
    case 4
    show ?case
    proof (cases "at_logic LogicAnd l")
      case True
      with 4 obtain l1 e2 l2 where s: "lexer_next l = Inr l1" "parseAtom pf n l1 = Some (Inr (e2, l2))"
        "parseAndLoop pf n (LogicExpr LogicAnd left e2) l2 = Some (Inr (e, l'))"
        by (auto split: option.splits sum.splits)
      from Suc.IH(5) [OF s(2)] obtain us where us: "lex_path l1 us l2" "g_atom pf us e2" by blast
      from Suc.IH(4) [OF s(3) and_and [OF 4(2) us(2)]] obtain vs where
        vs: "lex_path l2 vs l'" "g_and pf ((ts0 @ Token TokLogic LogicAnd # us) @ vs) e" by blast
      have "lex_path l (Token TokLogic LogicAnd # us @ vs) l'"
        using at_logic_path [OF True s(1) path_append [OF us(1) vs(1)]] .
      with vs(2) show ?thesis by (intro exI [of _ "Token TokLogic LogicAnd # us @ vs"]) simp
    next
      case False
      with 4 have "lex_path l [] l'" "e = left" by (auto intro: path_Nil)
      with 4(2) show ?thesis by (intro exI [of _ "[]"]) simp
    qed
  next
    case 5
    show ?case
    proof (cases "kind_of l = TokLParen")
      case True
      with 5 obtain l1 l2 where s: "lexer_next l = Inr l1" "parseOr pf n l1 = Some (Inr (e, l2))"
        "kind_of l2 = TokRParen" "lexer_next l2 = Inr l'"
        by (auto split: option.splits sum.splits if_splits)
      from Suc.IH(1) [OF s(2)] obtain ts where ts: "lex_path l1 ts l2" "g_or pf ts e" by blast
      have "lex_path l1 (ts @ [lx_tok l2]) l'"
        using path_append [OF ts(1) path_one [OF _ s(4)]] s(3) by simp
      with True s(1) have "lex_path l (lx_tok l # ts @ [lx_tok l2]) l'" by (auto intro: path_Cons)
      moreover have "g_atom pf (lx_tok l # ts @ [lx_tok l2]) e"
        using tok_eq [OF True] tok_eq [OF s(3)] atom_paren [OF ts(2)] by metis
      ultimately show ?thesis by blast
    next
      case False
      with 5 show ?thesis by (auto dest!: parseComparison_sound intro: atom_cmp)
    qed
  }
qed simp_all

subsection \<open>Completeness\<close>

text \<open>
  The fuel-free readings of the five methods; the loop predicates let the induction over the
  grammar continue a chain of connectives.
\<close>

definition Y_or where "Y_or pf l r \<longleftrightarrow> (\<exists>n. parseOr pf n l = Some r)"
definition Y_orloop where "Y_orloop pf e l r \<longleftrightarrow> (\<exists>n. parseOrLoop pf n e l = Some r)"
definition Y_and where "Y_and pf l r \<longleftrightarrow> (\<exists>n. parseAnd pf n l = Some r)"
definition Y_andloop where "Y_andloop pf e l r \<longleftrightarrow> (\<exists>n. parseAndLoop pf n e l = Some r)"
definition Y_atom where "Y_atom pf l r \<longleftrightarrow> (\<exists>n. parseAtom pf n l = Some r)"

lemma Y_orloop_stop: "\<not> at_logic LogicOr l \<Longrightarrow> Y_orloop pf e l (Inr (e, l))"
  unfolding Y_orloop_def by (rule exI [of _ 1]) simp

lemma Y_andloop_stop: "\<not> at_logic LogicAnd l \<Longrightarrow> Y_andloop pf e l (Inr (e, l))"
  unfolding Y_andloop_def by (rule exI [of _ 1]) simp

lemma Y_orI:
  assumes "Y_and pf l (Inr (e, l1))" "Y_orloop pf e l1 r"
  shows "Y_or pf l r"
proof -
  from assms obtain n m where "parseAnd pf n l = Some (Inr (e, l1))" "parseOrLoop pf m e l1 = Some r"
    by (auto simp: Y_and_def Y_orloop_def)
  then have "parseAnd pf (max n m) l = Some (Inr (e, l1))" "parseOrLoop pf (max n m) e l1 = Some r"
    by (auto intro: parse_mono)
  then show ?thesis unfolding Y_or_def by (intro exI [of _ "Suc (max n m)"]) simp
qed

lemma Y_andI:
  assumes "Y_atom pf l (Inr (e, l1))" "Y_andloop pf e l1 r"
  shows "Y_and pf l r"
proof -
  from assms obtain n m where "parseAtom pf n l = Some (Inr (e, l1))" "parseAndLoop pf m e l1 = Some r"
    by (auto simp: Y_atom_def Y_andloop_def)
  then have "parseAtom pf (max n m) l = Some (Inr (e, l1))" "parseAndLoop pf (max n m) e l1 = Some r"
    by (auto intro: parse_mono)
  then show ?thesis unfolding Y_and_def by (intro exI [of _ "Suc (max n m)"]) simp
qed

lemma Y_orloopI:
  assumes "at_logic LogicOr l" "lexer_next l = Inr l1" "Y_and pf l1 (Inr (f, l2))"
    "Y_orloop pf (LogicExpr LogicOr e f) l2 r"
  shows "Y_orloop pf e l r"
proof -
  from assms(3,4) obtain n m where "parseAnd pf n l1 = Some (Inr (f, l2))"
    "parseOrLoop pf m (LogicExpr LogicOr e f) l2 = Some r"
    by (auto simp: Y_and_def Y_orloop_def)
  then have "parseAnd pf (max n m) l1 = Some (Inr (f, l2))"
    "parseOrLoop pf (max n m) (LogicExpr LogicOr e f) l2 = Some r"
    by (auto intro: parse_mono)
  with assms(1,2) show ?thesis unfolding Y_orloop_def by (intro exI [of _ "Suc (max n m)"]) simp
qed

lemma Y_andloopI:
  assumes "at_logic LogicAnd l" "lexer_next l = Inr l1" "Y_atom pf l1 (Inr (f, l2))"
    "Y_andloop pf (LogicExpr LogicAnd e f) l2 r"
  shows "Y_andloop pf e l r"
proof -
  from assms(3,4) obtain n m where "parseAtom pf n l1 = Some (Inr (f, l2))"
    "parseAndLoop pf m (LogicExpr LogicAnd e f) l2 = Some r"
    by (auto simp: Y_atom_def Y_andloop_def)
  then have "parseAtom pf (max n m) l1 = Some (Inr (f, l2))"
    "parseAndLoop pf (max n m) (LogicExpr LogicAnd e f) l2 = Some r"
    by (auto intro: parse_mono)
  with assms(1,2) show ?thesis unfolding Y_andloop_def by (intro exI [of _ "Suc (max n m)"]) simp
qed

lemma parseAttrPath_complete:
  assumes "g_attr ts a" "lex_path l ts l'" "kind_of l' \<noteq> TokDot"
  shows "parseAttrPath l = Inr (a, l')"
  using assms
proof cases
  case (attr_plain b)
  with assms(2) have "lx_tok l = Token TokIdent b" "lexer_next l = Inr l'"
    by (auto elim!: path_ConsE path_NilE)
  with assms(3) attr_plain show ?thesis by (simp add: parseAttrPath_def Let_def)
next
  case (attr_sub b d c)
  with assms(2) obtain l1 l2 where "lx_tok l = Token TokIdent b" "lexer_next l = Inr l1"
    "lx_tok l1 = Token TokDot d" "lexer_next l1 = Inr l2" "lx_tok l2 = Token TokIdent c" "lexer_next l2 = Inr l'"
    by (metis path_ConsE path_NilE)
  with attr_sub show ?thesis by (simp add: parseAttrPath_def Let_def)
qed

lemma parseComparison_complete:
  assumes "g_cmp pf ts e" "lex_path l ts l'"
  shows "parseComparison pf l = Inr (e, l')"
  using assms(1)
proof cases
  case (cmp_pr us a p)
  with assms(2) obtain l1 where p: "lex_path l us l1" "lex_path l1 [Token TokPr p] l'"
    by (auto elim: path_appendE)
  then have l1: "lx_tok l1 = Token TokPr p" "lexer_next l1 = Inr l'"
    by (auto elim!: path_ConsE path_NilE)
  then have "parseAttrPath l = Inr (a, l1)"
    using parseAttrPath_complete [OF cmp_pr(3) p(1)] by simp
  with l1 cmp_pr show ?thesis by (simp add: parseComparison_def)
next
  case (cmp_op us a t v op)
  with assms(2) obtain l1 where p: "lex_path l us l1" "lex_path l1 [Token TokOp op, t] l'"
    by (auto elim: path_appendE)
  then obtain l2 where l1: "lx_tok l1 = Token TokOp op" "lexer_next l1 = Inr l2"
    and l2: "lx_tok l2 = t" "lexer_next l2 = Inr l'"
    by (metis path_ConsE path_NilE)
  have "parseAttrPath l = Inr (a, l1)"
    using parseAttrPath_complete [OF cmp_op(3) p(1)] l1 by simp
  moreover have "parseValue pf l2 = Inr (v, l')"
    using l2 cmp_op(4) by (simp add: parseValue_iff)
  ultimately show ?thesis using l1 cmp_op by (simp add: parseComparison_def)
qed

lemma g_attr_first: "g_attr ts a \<Longrightarrow> \<exists>b us. ts = Token TokIdent b # us"
  by (cases rule: g_attr.cases) auto

lemma g_cmp_first: "g_cmp pf ts e \<Longrightarrow> \<exists>b us. ts = Token TokIdent b # us"
  by (cases rule: g_cmp.cases) (auto dest!: g_attr_first)

lemma parse_complete:
  "g_or pf ts e \<Longrightarrow> lex_path l ts l' \<Longrightarrow> \<not> at_logic LogicAnd l' \<Longrightarrow> Y_orloop pf e l' r \<Longrightarrow> Y_or pf l r"
  "g_and pf ts e \<Longrightarrow> lex_path l ts l' \<Longrightarrow> Y_andloop pf e l' r \<Longrightarrow> Y_and pf l r"
  "g_atom pf ts e \<Longrightarrow> lex_path l ts l' \<Longrightarrow> Y_atom pf l (Inr (e, l'))"
proof (induction arbitrary: l l' r and l l' r and l l' rule: g_or_g_and_g_atom.inducts)
  case (or_and ts e)
  then have "Y_and pf l (Inr (e, l'))" by (blast intro: Y_andloop_stop)
  with or_and.prems show ?case by (blast intro: Y_orI)
next
  case (or_or ts e us f)
  from or_or.prems(1) obtain l1 where p: "lex_path l ts l1" "lex_path l1 (Token TokLogic LogicOr # us) l'"
    by (auto elim: path_appendE)
  from p(2) obtain l2 where l1: "lx_tok l1 = Token TokLogic LogicOr" "lexer_next l1 = Inr l2" "lex_path l2 us l'"
    by (metis path_ConsE)
  have "Y_and pf l2 (Inr (f, l'))" using or_or.IH(4) l1(3) or_or.prems(2) by (blast intro: Y_andloop_stop)
  moreover have "at_logic LogicOr l1" "\<not> at_logic LogicAnd l1"
    using l1(1) by (simp_all add: at_logic_def LogicOr_def LogicAnd_def)
  ultimately show ?case using or_or.IH(2) [OF p(1)] Y_orloopI l1(2) or_or.prems(3) by blast
next
  case (and_atom ts e)
  then show ?case by (blast intro: Y_andI)
next
  case (and_and ts e us f)
  from and_and.prems(1) obtain l1 where p: "lex_path l ts l1" "lex_path l1 (Token TokLogic LogicAnd # us) l'"
    by (auto elim: path_appendE)
  from p(2) obtain l2 where l1: "lx_tok l1 = Token TokLogic LogicAnd" "lexer_next l1 = Inr l2" "lex_path l2 us l'"
    by (metis path_ConsE)
  have "at_logic LogicAnd l1" using l1(1) by (simp add: at_logic_def)
  then show ?case using and_and.IH(2) [OF p(1)] and_and.IH(4) [OF l1(3)] Y_andloopI l1(2) and_and.prems(2)
    by blast
next
  case (atom_paren ts e p q)
  from atom_paren.prems obtain l1 where l1: "lx_tok l = Token TokLParen p" "lexer_next l = Inr l1"
    "lex_path l1 (ts @ [Token TokRParen q]) l'" by (metis path_ConsE)
  from l1(3) obtain l2 where l2: "lex_path l1 ts l2" "lex_path l2 [Token TokRParen q] l'"
    by (auto elim: path_appendE)
  from l2(2) have t2: "lx_tok l2 = Token TokRParen q" "lexer_next l2 = Inr l'"
    by (auto elim!: path_ConsE path_NilE)
  have "Y_or pf l1 (Inr (e, l2))"
    using t2(1) by (intro atom_paren.IH(2) [OF l2(1)] Y_orloop_stop) (simp_all add: at_logic_def)
  then obtain n where "parseOr pf n l1 = Some (Inr (e, l2))" by (auto simp: Y_or_def)
  with l1 t2 show ?case unfolding Y_atom_def by (intro exI [of _ "Suc n"]) simp
next
  case (atom_cmp ts e)
  then obtain b us where "ts = Token TokIdent b # us" using g_cmp_first by blast
  with atom_cmp.prems have "lx_tok l = Token TokIdent b" by (auto elim!: path_ConsE)
  then have "kind_of l \<noteq> TokLParen" by simp
  with parseComparison_complete [OF atom_cmp.IH atom_cmp.prems]
  show ?case unfolding Y_atom_def by (intro exI [of _ 1]) simp
qed

lemma Parse_iff_g_or: "Parse pf s = Inr e \<longleftrightarrow> (\<exists>ts. tokenizes s ts \<and> g_or pf ts e)"
proof
  assume "Parse pf s = Inr e"
  with Parse_fuel_Parse [of pf s] have "Parse_fuel pf (parse_fuel s) s = Some (Inr e)" by simp
  then obtain l l' where "lexer_next (newLexer s) = Inr l"
    "parseOr pf (parse_fuel s) l = Some (Inr (e, l'))" "kind_of l' = TokEOF"
    by (auto simp: Parse_fuel_def split: sum.splits option.splits if_splits)
  then show "\<exists>ts. tokenizes s ts \<and> g_or pf ts e"
    unfolding tokenizes_def using parse_sound(1) by blast
next
  assume "\<exists>ts. tokenizes s ts \<and> g_or pf ts e"
  then obtain ts l l' where t: "lexer_next (newLexer s) = Inr l" "lex_path l ts l'" "kind_of l' = TokEOF"
    and g: "g_or pf ts e" by (auto simp: tokenizes_def)
  have "Y_or pf l (Inr (e, l'))"
    using t(3) by (intro parse_complete(1) [OF g t(2)] Y_orloop_stop) (simp_all add: at_logic_def)
  then obtain n where "parseOr pf n l = Some (Inr (e, l'))" by (auto simp: Y_or_def)
  with t have "Parse_fuel pf n s = Some (Inr e)" by (simp add: Parse_fuel_def)
  then show "Parse pf s = Inr e" using Parse_fuel_result by metis
qed

subsection \<open>A printer of filter expressions\<close>

text \<open>
  \<open>print_filter\<close> writes an expression with the parentheses its precedences need, each token
  followed by a space. \<open>show_f\<close> writes the numbers.
\<close>

definition ident_text :: "string \<Rightarrow> bool" where
  "ident_text s \<longleftrightarrow> ascii s \<and> list_all ident_rune (map of_char s)
     \<and> (case s of [] \<Rightarrow> False | c # _ \<Rightarrow> isLetter (of_char c))
     \<and> ToLower s = s \<and> tok_kind (classify_ident s) = TokIdent"

definition number_text :: "string \<Rightarrow> bool" where
  "number_text s \<longleftrightarrow> s \<noteq> [] \<and> list_all is_digit_char s"

definition quote_char :: "char \<Rightarrow> string" where
  "quote_char c = (if c = CHR 0x22 \<or> c = CHR 0x5C then [CHR 0x5C, c] else [c])"

definition quote_text :: "string \<Rightarrow> string" where
  "quote_text s = CHR 0x22 # concat (map quote_char s) @ [CHR 0x22]"

fun token_text :: "token \<Rightarrow> string" where
  "token_text (Token TokString s) = quote_text s"
| "token_text (Token _ s) = s"

fun value_toks :: "('f \<Rightarrow> string) \<Rightarrow> 'f Value \<Rightarrow> token" where
  "value_toks show_f (VString s) = Token TokString s"
| "value_toks show_f (VFloat f) = Token TokNumber (show_f f)"
| "value_toks show_f (VBool b) = (if b then Token TokTrue ''true'' else Token TokFalse ''false'')"
| "value_toks show_f VNil = Token TokNull ''null''"

definition attr_toks :: "string \<Rightarrow> token list" where
  "attr_toks a = (case IndexByte a CHR ''.'' of
      None \<Rightarrow> [Token TokIdent a]
    | Some i \<Rightarrow> [Token TokIdent (take i a), Token TokDot ''.'', Token TokIdent (drop (Suc i) a)])"

definition paren_toks :: "bool \<Rightarrow> token list \<Rightarrow> token list" where
  "paren_toks b ts = (if b then Token TokLParen ''('' # ts @ [Token TokRParen '')''] else ts)"

fun expr_toks :: "('f \<Rightarrow> string) \<Rightarrow> nat \<Rightarrow> 'f Expr \<Rightarrow> token list" where
  "expr_toks show_f p (AtomExpr a op v) =
     attr_toks a @ (if op = OpPr then [Token TokPr OpPr] else [Token TokOp op, value_toks show_f v])"
| "expr_toks show_f p (LogicExpr op l r) =
     (if op = LogicOr
      then paren_toks (0 < p) (expr_toks show_f 0 l @ Token TokLogic LogicOr # expr_toks show_f 1 r)
      else paren_toks (1 < p) (expr_toks show_f 1 l @ Token TokLogic LogicAnd # expr_toks show_f 2 r))"

definition print_toks :: "token list \<Rightarrow> string" where
  "print_toks ts = concat (map (\<lambda>t. token_text t @ '' '') ts)"

definition print_filter :: "('f \<Rightarrow> string) \<Rightarrow> 'f Expr \<Rightarrow> string" where
  "print_filter show_f e = print_toks (expr_toks show_f 0 e)"

definition attr_text :: "string \<Rightarrow> bool" where
  "attr_text a \<longleftrightarrow> (case IndexByte a CHR ''.'' of
      None \<Rightarrow> ident_text a
    | Some i \<Rightarrow> ident_text (take i a) \<and> ident_text (drop (Suc i) a))"

fun printable_value :: "'f Value \<Rightarrow> bool" where
  "printable_value (VString s) \<longleftrightarrow> ascii s"
| "printable_value _ \<longleftrightarrow> True"

text \<open>The expressions of the abstract syntax that a filter text can denote.\<close>

fun printable :: "'f Expr \<Rightarrow> bool" where
  "printable (AtomExpr a op v) \<longleftrightarrow> attr_text a \<and>
     (op = OpPr \<and> v = VNil \<or> op \<in> {OpEq, OpNe, OpCo, OpSw, OpEw} \<and> printable_value v)"
| "printable (LogicExpr op l r) \<longleftrightarrow> op \<in> {LogicAnd, LogicOr} \<and> printable l \<and> printable r"

text \<open>The tokens of the printer derive the expression.\<close>

lemma ident_lower: "ident_text s \<Longrightarrow> ToLower s = s"
  by (simp add: ident_text_def)

lemma attr_toks_g: "attr_text a \<Longrightarrow> g_attr (attr_toks a) a"
proof (cases "IndexByte a CHR ''.''")
  case None
  assume "attr_text a"
  with None have "ToLower a = a" by (simp add: attr_text_def ident_text_def)
  with None attr_plain [of a] show ?thesis by (simp add: attr_toks_def)
next
  case (Some i)
  assume "attr_text a"
  with Some have l: "ToLower (take i a) = take i a" "ToLower (drop (Suc i) a) = drop (Suc i) a"
    by (simp_all add: attr_text_def ident_text_def)
  from IndexByte_Some [OF Some] have "take i a @ ''.'' @ drop (Suc i) a = a"
    by (metis Cons_nth_drop_Suc append_Cons append_Nil append_take_drop_id)
  with l attr_sub [of "take i a" "''.''" "drop (Suc i) a"] Some show ?thesis
    by (simp add: attr_toks_def)
qed

lemma value_toks_value:
  assumes "\<And>f. pf (show_f f) = Some f"
  shows "value_token pf (value_toks show_f v) = Some v"
  using assms by (cases v) auto

lemma expr_toks_g:
  assumes pf: "\<And>f. pf (show_f f) = Some f"
  shows "printable e \<Longrightarrow> g_or pf (expr_toks show_f 0 e) e"
    and "printable e \<Longrightarrow> g_and pf (expr_toks show_f 1 e) e"
    and "printable e \<Longrightarrow> g_atom pf (expr_toks show_f 2 e) e"
proof (induction e)
  case (AtomExpr a op v)
  have at: "g_atom pf (expr_toks show_f p (AtomExpr a op v)) (AtomExpr a op v)"
    if wf: "printable (AtomExpr a op v)" for p
  proof -
    from wf have a: "g_attr (attr_toks a) a" by (simp add: attr_toks_g)
    show ?thesis
    proof (cases "op = OpPr")
      case True
      with wf have "v = VNil" by (auto simp: op_defs)
      with True cmp_pr [OF a] show ?thesis by (auto intro: atom_cmp)
    next
      case False
      then show ?thesis using cmp_op [OF a value_toks_value [OF pf]] by (auto intro: atom_cmp)
    qed
  qed
  {
    case 1
    with at show ?case by (blast intro: and_atom or_and)
  next
    case 2
    with at show ?case by (blast intro: and_atom)
  next
    case 3
    with at show ?case by blast
  }
next
  case (LogicExpr op l r)
  have parens: "g_atom pf (paren_toks True ts) e" if "g_or pf ts e" for ts e
    using atom_paren [OF that] by (simp add: paren_toks_def)
  have orE: "g_or pf (expr_toks show_f 0 (LogicExpr op l r)) (LogicExpr op l r)"
    if "printable (LogicExpr op l r)" "op = LogicOr"
    using that LogicExpr.IH or_or by (simp add: paren_toks_def)
  have andE: "g_and pf (expr_toks show_f 1 (LogicExpr op l r)) (LogicExpr op l r)"
    if "printable (LogicExpr op l r)" "op = LogicAnd"
    using that LogicExpr.IH and_and by (simp add: paren_toks_def op_defs)
  have neq: "LogicAnd \<noteq> LogicOr" by (simp add: op_defs)
  {
    case 1
    show ?case
    proof (cases "op = LogicOr")
      case True
      with 1 orE show ?thesis by blast
    next
      case False
      with 1 have "op = LogicAnd" by simp
      with 1 andE have "g_and pf (expr_toks show_f 1 (LogicExpr op l r)) (LogicExpr op l r)" by blast
      with False show ?thesis by (auto simp: paren_toks_def intro: or_and)
    qed
  next
    case 2
    show ?case
    proof (cases "op = LogicOr")
      case True
      with 2 orE have "g_or pf (expr_toks show_f 0 (LogicExpr op l r)) (LogicExpr op l r)" by blast
      from and_atom [OF parens [OF this]] True show ?thesis by (simp add: paren_toks_def)
    next
      case False
      with 2 have "op = LogicAnd" by simp
      with 2 andE show ?thesis by blast
    qed
  next
    case 3
    show ?case
    proof (cases "op = LogicOr")
      case True
      with 3 orE have "g_or pf (expr_toks show_f 0 (LogicExpr op l r)) (LogicExpr op l r)" by blast
      from parens [OF this] True show ?thesis by (simp add: paren_toks_def)
    next
      case False
      with 3 have "op = LogicAnd" by simp
      with 3 andE have "g_and pf (expr_toks show_f 1 (LogicExpr op l r)) (LogicExpr op l r)" by blast
      from parens [OF or_and [OF this]] False show ?thesis by (simp add: paren_toks_def)
    qed
  }
qed

text \<open>The lexer reads back each printed token.\<close>

definition word_text :: "string \<Rightarrow> bool" where
  "word_text s \<longleftrightarrow> ascii s \<and> list_all ident_rune (map of_char s)
     \<and> (case s of [] \<Rightarrow> False | c # _ \<Rightarrow> isLetter (of_char c))"

fun wf_tok :: "token \<Rightarrow> bool" where
  "wf_tok (Token TokString s) \<longleftrightarrow> ascii s"
| "wf_tok (Token TokNumber s) \<longleftrightarrow> number_text s"
| "wf_tok (Token TokLParen s) \<longleftrightarrow> s = ''(''"
| "wf_tok (Token TokRParen s) \<longleftrightarrow> s = '')''"
| "wf_tok (Token TokDot s) \<longleftrightarrow> s = ''.''"
| "wf_tok (Token k s) \<longleftrightarrow> word_text s \<and> classify_ident s = Token k s"

lemma skipWS_props: "lx_rest (skipWS l) = dropWhile unicode_IsSpace (lx_rest l)" "lx_src (skipWS l) = lx_src l"
  by (simp_all add: skipWS_def lx_rest_def dropWhile_eq_drop add.commute)

lemma lx_rest_advance: "lx_rest (l\<lparr>lx_pos := lx_pos l + n\<rparr>) = drop n (lx_rest l)"
  by (simp add: lx_rest_def add.commute)

lemma read_string_quoted:
  "ascii s \<Longrightarrow> read_string_body st pos (map of_char (concat (map quote_char s)) @ 34 # cs) sb
     = Inr (sb @ s, pos + length (concat (map quote_char s)) + 1)"
proof (induction s arbitrary: pos sb)
  case (Cons c s)
  have c: "encode_rune (of_char c) = [c]" using Cons.prems by (simp add: encode_rune_def ascii_simps)
  have "(of_char c = (34::nat)) = (of_char c = (of_char (CHR 0x22) :: nat))"
    "(of_char c = (92::nat)) = (of_char c = (of_char (CHR 0x5C) :: nat))" by simp_all
  then have eq: "(of_char c = (34::nat)) = (c = CHR 0x22)" "(of_char c = (92::nat)) = (c = CHR 0x5C)"
    by (simp_all only: of_char_eq_iff)
  show ?case using Cons c eq by (auto simp: quote_char_def unescape_def ascii_simps)
qed simp

lemma lexer_next_at:
  assumes "dropWhile unicode_IsSpace (lx_rest l) = c # cs"
  obtains l1 where "lx_rest l1 = c # cs" "\<And>l'. lexer_next l = Inr l' \<longleftrightarrow>
     (if c = 40 then l' = l1\<lparr>lx_tok := Token TokLParen ''('', lx_pos := lx_pos l1 + 1\<rparr>
      else if c = 41 then l' = l1\<lparr>lx_tok := Token TokRParen '')'', lx_pos := lx_pos l1 + 1\<rparr>
      else if c = 46 then l' = l1\<lparr>lx_tok := Token TokDot ''.'', lx_pos := lx_pos l1 + 1\<rparr>
      else if c = 34 then \<exists>s p. readString l1 = Inr (s, p) \<and> l' = l1\<lparr>lx_tok := Token TokString s, lx_pos := p\<rparr>
      else if isLetter c then l' = l1\<lparr>lx_tok := fst (readIdentOrKeyword l1), lx_pos := snd (readIdentOrKeyword l1)\<rparr>
      else if isDigit c \<or> c = 45 then
        \<exists>s p. readNumber l1 = Inr (s, p) \<and> l' = l1\<lparr>lx_tok := Token TokNumber s, lx_pos := p\<rparr>
      else False)"
proof
  let ?l = "(skipWS l)\<lparr>lx_tokPos := lx_pos (skipWS l)\<rparr>"
  show r: "lx_rest ?l = c # cs" using assms by (simp add: skipWS_props)
  then have "lx_rest (skipWS l) = c # cs" by simp
  then show "lexer_next l = Inr l' \<longleftrightarrow>
     (if c = 40 then l' = ?l\<lparr>lx_tok := Token TokLParen ''('', lx_pos := lx_pos ?l + 1\<rparr>
      else if c = 41 then l' = ?l\<lparr>lx_tok := Token TokRParen '')'', lx_pos := lx_pos ?l + 1\<rparr>
      else if c = 46 then l' = ?l\<lparr>lx_tok := Token TokDot ''.'', lx_pos := lx_pos ?l + 1\<rparr>
      else if c = 34 then \<exists>s p. readString ?l = Inr (s, p) \<and> l' = ?l\<lparr>lx_tok := Token TokString s, lx_pos := p\<rparr>
      else if isLetter c then l' = ?l\<lparr>lx_tok := fst (readIdentOrKeyword ?l), lx_pos := snd (readIdentOrKeyword ?l)\<rparr>
      else if isDigit c \<or> c = 45 then
        \<exists>s p. readNumber ?l = Inr (s, p) \<and> l' = ?l\<lparr>lx_tok := Token TokNumber s, lx_pos := p\<rparr>
      else False)" for l'
    unfolding lexer_next_def Let_def by (auto split: sum.splits prod.splits)
qed

lemma takeWhile_stop: "list_all P xs \<Longrightarrow> \<not> P y \<Longrightarrow> takeWhile P (xs @ y # ys) = xs"
  by (induction xs) auto

lemma number_text_props:
  assumes "number_text s"
  shows "ascii s" "list_all (\<lambda>r. isDigit r \<or> r = 46) (map of_char s)"
    and "\<exists>c cs. s = c # cs \<and> isDigit (of_char c)"
proof -
  from assms have d: "s \<noteq> []" "\<And>c. c \<in> set s \<Longrightarrow> isDigit (of_char c)"
    by (auto simp: number_text_def is_digit_char_def isDigit_def Let_def list_all_iff)
  then show "ascii s" "list_all (\<lambda>r. isDigit r \<or> r = 46) (map of_char s)"
    by (force simp: ascii_def isDigit_def list_all_iff)+
  from d show "\<exists>c cs. s = c # cs \<and> isDigit (of_char c)" by (cases s) auto
qed

lemma word_text_props:
  assumes "word_text s"
  shows "ascii s" "list_all ident_rune (map of_char s)" "\<exists>c cs. s = c # cs \<and> isLetter (of_char c)"
  using assms by (auto simp: word_text_def split: list.splits)

lemma lex_word:
  assumes "word_text s" "lx_rest l = map of_char s @ 32 # us"
  shows "readIdentOrKeyword l = (classify_ident s, lx_pos l + length s)"
proof -
  have "takeWhile ident_rune (lx_rest l) = map of_char s"
    using word_text_props(2) [OF assms(1)] assms(2)
    by (simp add: takeWhile_stop ident_rune_def isLetter_def isDigit_def)
  then show ?thesis
    using word_text_props(1) [OF assms(1)] by (simp add: readIdentOrKeyword_def Let_def encode_runes_ascii)
qed

lemma lex_number:
  assumes "number_text s" "lx_rest l = map of_char s @ 32 # us"
  shows "readNumber l = Inr (s, lx_pos l + length s)"
proof -
  from number_text_props [OF assms(1)] obtain c cs where c: "s = c # cs" "isDigit (of_char c)"
    and p: "list_all (\<lambda>r. isDigit r \<or> r = 46) (map of_char s)" "ascii s" by blast
  have t: "takeWhile (\<lambda>r. isDigit r \<or> r = 46) (lx_rest l) = map of_char s"
    using takeWhile_stop [OF p(1)] assms(2) by (simp add: isDigit_def)
  have "hd (lx_rest l) \<noteq> 45" using c assms(2) by (auto simp: isDigit_def)
  with t c assms(2) encode_runes_ascii [OF p(2)] show ?thesis by (simp add: readNumber_def Let_def)
qed

lemma lex_string:
  assumes "ascii s" "lx_rest l = map of_char (quote_text s) @ 32 # us"
  shows "readString l = Inr (s, lx_pos l + length (quote_text s))"
  using assms(2) read_string_quoted [OF assms(1), of "lx_pos l" "lx_pos l + 1" "32 # us" "[]"]
  by (simp add: readString_def quote_text_def)

lemma isLetter_sep: "isLetter c \<Longrightarrow> c \<notin> {40, 41, 46, 34} \<and> \<not> unicode_IsSpace c"
  by (auto simp: isLetter_def unicode_IsSpace_def)

lemma isDigit_sep: "isDigit c \<Longrightarrow> c \<notin> {40, 41, 46, 34} \<and> \<not> unicode_IsSpace c \<and> \<not> isLetter c"
  by (auto simp: isDigit_def isLetter_def unicode_IsSpace_def)

lemma lx_rest_behind:
  "lx_rest l = xs @ ys \<Longrightarrow> lx_rest (l\<lparr>lx_tok := t, lx_pos := lx_pos l + length xs\<rparr>) = ys"
  by (simp add: lx_rest_def add.commute [of _ "length xs"] flip: drop_drop)

lemma lex_here:
  assumes "wf_tok t" "dropWhile unicode_IsSpace (lx_rest l) = map of_char (token_text t) @ 32 # us"
  shows "\<exists>l'. lexer_next l = Inr l' \<and> lx_tok l' = t \<and> lx_rest l' = 32 # us"
proof -
  obtain k s where t: "t = Token k s" by (cases t)
  have word: ?thesis if w: "word_text s" "classify_ident s = t" "token_text t = s"
  proof -
    from word_text_props(3) [OF w(1)] obtain c cs where c: "s = c # cs" "isLetter (of_char c)" by blast
    with assms(2) w(3) have "dropWhile unicode_IsSpace (lx_rest l) = of_char c # map of_char cs @ 32 # us" by simp
    then obtain l1 where l1: "lx_rest l1 = of_char c # map of_char cs @ 32 # us"
      and n: "lexer_next l = Inr (l1\<lparr>lx_tok := fst (readIdentOrKeyword l1), lx_pos := snd (readIdentOrKeyword l1)\<rparr>)"
      using isLetter_sep [OF c(2)] c(2) by (auto elim!: lexer_next_at)
    have "readIdentOrKeyword l1 = (t, lx_pos l1 + length s)"
      using lex_word [OF w(1)] l1 c w(2) by simp
    moreover have "lx_rest (l1\<lparr>lx_tok := t, lx_pos := lx_pos l1 + length s\<rparr>) = 32 # us"
      using lx_rest_behind [of l1 "map of_char s" "32 # us" t] l1 c by simp
    ultimately show ?thesis using n by simp
  qed
  show ?thesis
  proof (cases k)
    case TokString
    with assms t have s: "ascii s"
      "dropWhile unicode_IsSpace (lx_rest l) = 34 # map of_char (concat (map quote_char s) @ [CHR 0x22]) @ 32 # us"
      by (simp_all add: quote_text_def)
    then obtain l1 where l1: "lx_rest l1 = 34 # map of_char (concat (map quote_char s) @ [CHR 0x22]) @ 32 # us"
      and n: "\<And>u p. readString l1 = Inr (u, p) \<Longrightarrow> lexer_next l = Inr (l1\<lparr>lx_tok := Token TokString u, lx_pos := p\<rparr>)"
      by (auto elim!: lexer_next_at)
    from l1 have q: "lx_rest l1 = map of_char (quote_text s) @ 32 # us" by (simp add: quote_text_def)
    from n [OF lex_string [OF s(1) q]] lx_rest_behind [OF q] t TokString show ?thesis by simp
  next
    case TokNumber
    with assms t have s: "number_text s" by simp
    from number_text_props(3) [OF s] obtain c cs where c: "s = c # cs" "isDigit (of_char c)" by blast
    with assms(2) t TokNumber have "dropWhile unicode_IsSpace (lx_rest l) = of_char c # map of_char cs @ 32 # us" by simp
    then obtain l1 where l1: "lx_rest l1 = of_char c # map of_char cs @ 32 # us"
      and n: "\<And>u p. readNumber l1 = Inr (u, p) \<Longrightarrow> lexer_next l = Inr (l1\<lparr>lx_tok := Token TokNumber u, lx_pos := p\<rparr>)"
      using isDigit_sep [OF c(2)] c(2) by (auto elim!: lexer_next_at)
    from l1 c have q: "lx_rest l1 = map of_char s @ 32 # us" by simp
    from n [OF lex_number [OF s q]] lx_rest_behind [OF q] t TokNumber show ?thesis by simp
  next
    case TokLParen
    with assms t have s: "s = ''(''" "dropWhile unicode_IsSpace (lx_rest l) = 40 # 32 # us" by simp_all
    then obtain l1 where r: "lx_rest l1 = [40] @ 32 # us"
      and "lexer_next l = Inr (l1\<lparr>lx_tok := Token TokLParen ''('', lx_pos := lx_pos l1 + 1\<rparr>)"
      by (auto elim!: lexer_next_at)
    with lx_rest_behind [OF r] t TokLParen s show ?thesis by simp
  next
    case TokRParen
    with assms t have s: "s = '')''" "dropWhile unicode_IsSpace (lx_rest l) = 41 # 32 # us" by simp_all
    then obtain l1 where r: "lx_rest l1 = [41] @ 32 # us"
      and "lexer_next l = Inr (l1\<lparr>lx_tok := Token TokRParen '')'', lx_pos := lx_pos l1 + 1\<rparr>)"
      by (auto elim!: lexer_next_at)
    with lx_rest_behind [OF r] t TokRParen s show ?thesis by simp
  next
    case TokDot
    with assms t have s: "s = ''.''" "dropWhile unicode_IsSpace (lx_rest l) = 46 # 32 # us" by simp_all
    then obtain l1 where r: "lx_rest l1 = [46] @ 32 # us"
      and "lexer_next l = Inr (l1\<lparr>lx_tok := Token TokDot ''.'', lx_pos := lx_pos l1 + 1\<rparr>)"
      by (auto elim!: lexer_next_at)
    with lx_rest_behind [OF r] t TokDot s show ?thesis by simp
  qed (use assms(1) t word in auto)
qed

lemma wf_tok_nonspace:
  "wf_tok t \<Longrightarrow> \<exists>c cs. token_text t = c # cs \<and> \<not> unicode_IsSpace (of_char c)"
proof -
  assume w: "wf_tok t"
  obtain k s where t: "t = Token k s" by (cases t)
  have word: "word_text s \<Longrightarrow> \<exists>c cs. s = c # cs \<and> \<not> unicode_IsSpace (of_char c)"
    using word_text_props(3) [of s] isLetter_sep by blast
  have num: "number_text s \<Longrightarrow> \<exists>c cs. s = c # cs \<and> \<not> unicode_IsSpace (of_char c)"
    using number_text_props(3) [of s] isDigit_sep by blast
  have space: "\<not> unicode_IsSpace 40" "\<not> unicode_IsSpace 41" "\<not> unicode_IsSpace 46" "\<not> unicode_IsSpace 34"
    by (simp_all add: unicode_IsSpace_def)
  show ?thesis
    using w t by (cases k) (use word num space in \<open>auto simp: quote_text_def\<close>)
qed

lemma lex_printed:
  assumes "wf_tok t" "lx_rest l = map of_char (token_text t @ '' '') @ us \<or>
     lx_rest l = 32 # map of_char (token_text t @ '' '') @ us"
  shows "\<exists>l'. lexer_next l = Inr l' \<and> lx_tok l' = t \<and> lx_rest l' = 32 # us"
proof (rule lex_here [OF assms(1)])
  from wf_tok_nonspace [OF assms(1)] obtain c cs where "token_text t = c # cs" "\<not> unicode_IsSpace (of_char c)"
    by blast
  moreover have "unicode_IsSpace 32" by (simp add: unicode_IsSpace_def)
  ultimately show "dropWhile unicode_IsSpace (lx_rest l) = map of_char (token_text t) @ 32 # us"
    using assms(2) by auto
qed

lemma wf_tok_not_EOF: "wf_tok t \<Longrightarrow> tok_kind t \<noteq> TokEOF"
  by (cases t; cases "tok_kind t") (auto simp: classify_ident_def Let_def split: if_splits)

lemma lex_printed_path:
  assumes "list_all wf_tok ts" "lx_rest l = 32 # map of_char (print_toks ts)"
  shows "\<exists>l1 l'. lexer_next l = Inr l1 \<and> lex_path l1 ts l' \<and> kind_of l' = TokEOF"
  using assms
proof (induction ts arbitrary: l)
  case Nil
  then have "lx_rest l = [32]" by (simp add: print_toks_def)
  then have "lx_rest (skipWS l) = []" by (simp add: skipWS_props unicode_IsSpace_def)
  then have "lexer_next l = Inr ((skipWS l)\<lparr>lx_tokPos := lx_pos (skipWS l), lx_tok := Token TokEOF []\<rparr>)"
    by (simp add: lexer_next_def Let_def)
  then show ?case by (auto intro!: path_Nil)
next
  case (Cons t ts)
  then obtain l1 where l1: "lexer_next l = Inr l1" "lx_tok l1 = t" "lx_rest l1 = 32 # map of_char (print_toks ts)"
    using lex_printed [of t l "map of_char (print_toks ts)"] by (auto simp: print_toks_def)
  from Cons.IH [OF _ l1(3)] Cons.prems(1) obtain l2 l' where
    "lexer_next l1 = Inr l2" "lex_path l2 ts l'" "kind_of l' = TokEOF" by auto
  then have "lex_path l1 (t # ts) l'"
    using l1(2) Cons.prems(1) path_Cons [of l1 l2 ts l'] by (simp add: wf_tok_not_EOF)
  with l1(1) \<open>kind_of l' = TokEOF\<close> show ?case by blast
qed

lemma ascii_quote: "ascii s \<Longrightarrow> ascii (concat (map quote_char s))"
  by (induction s) (auto simp: ascii_simps quote_char_def)

lemma ascii_token: "wf_tok t \<Longrightarrow> ascii (token_text t)"
proof -
  assume w: "wf_tok t"
  obtain k s where t: "t = Token k s" by (cases t)
  show ?thesis
    using w t by (cases k)
      (auto simp: quote_text_def ascii_simps ascii_quote word_text_props(1) number_text_props(1))
qed

lemma ascii_print: "list_all wf_tok ts \<Longrightarrow> ascii (print_toks ts)"
  by (induction ts) (auto simp: print_toks_def ascii_simps ascii_token)

lemma tokenizes_print:
  assumes "list_all wf_tok ts" "ts \<noteq> []"
  shows "tokenizes (print_toks ts) ts"
proof -
  let ?l = "newLexer (print_toks ts)"
  obtain t us where ts: "ts = t # us" using assms(2) by (cases ts) auto
  have r: "lx_rest ?l = map of_char (print_toks ts)"
    using runes_ascii [OF ascii_print [OF assms(1)]] by (simp add: newLexer_def lx_rest_def)
  then obtain l1 where l1: "lexer_next ?l = Inr l1" "lx_tok l1 = t" "lx_rest l1 = 32 # map of_char (print_toks us)"
    using lex_printed [of t ?l "map of_char (print_toks us)"] assms(1) ts by (auto simp: print_toks_def)
  from lex_printed_path [OF _ l1(3)] assms(1) ts obtain l2 l' where
    p: "lexer_next l1 = Inr l2" "lex_path l2 us l'" "kind_of l' = TokEOF" by auto
  have "lex_path l1 ts l'"
    using path_Cons [of l1 l2 us l'] p l1(2) ts assms(1) by (simp add: wf_tok_not_EOF)
  with l1(1) p(3) show ?thesis by (auto simp: tokenizes_def)
qed

lemma wf_ident: "ident_text a \<Longrightarrow> wf_tok (Token TokIdent a)"
proof -
  assume a: "ident_text a"
  then have "word_text a" by (simp add: ident_text_def word_text_def)
  moreover have "classify_ident a = Token TokIdent a"
    using a by (auto simp: ident_text_def classify_ident_def Let_def split: if_splits)
  ultimately show ?thesis by simp
qed

lemma wf_attr_toks: "attr_text a \<Longrightarrow> list_all wf_tok (attr_toks a) \<and> attr_toks a \<noteq> []"
  by (auto simp: attr_text_def attr_toks_def dest!: wf_ident split: option.splits)

lemma wf_words:
  "wf_tok (Token TokTrue ''true'')" "wf_tok (Token TokFalse ''false'')" "wf_tok (Token TokNull ''null'')"
  "wf_tok (Token TokPr OpPr)" "wf_tok (Token TokLogic LogicAnd)" "wf_tok (Token TokLogic LogicOr)"
  "op \<in> {OpEq, OpNe, OpCo, OpSw, OpEw} \<Longrightarrow> wf_tok (Token TokOp op)"
  by (auto simp: op_defs word_text_def ascii_simps ident_rune_def isLetter_def classify_ident_def
      ToLower_def lower_char_def Let_def)

lemma wf_expr_toks:
  assumes sh: "\<And>f. number_text (show_f f)"
  shows "printable e \<Longrightarrow> list_all wf_tok (expr_toks show_f p e) \<and> expr_toks show_f p e \<noteq> []"
proof (induction e arbitrary: p)
  case (AtomExpr a op v)
  have "wf_tok (value_toks show_f v)" if "printable_value v"
    using that wf_words sh by (cases v) auto
  with AtomExpr wf_attr_toks [of a] wf_words show ?case by auto
next
  case (LogicExpr op l r)
  then show ?case using wf_words by (auto simp: paren_toks_def)
qed

subsection \<open>Properties\<close>

text \<open>
  C12. The parser accepts exactly the grammar: \<open>Parse\<close> returns an expression if and only if the
  whole input is a token sequence from which the grammar derives this expression, with \<open>and\<close>
  binding tighter than \<open>or\<close>, both associating to the left, and parentheses overriding them.
\<close>

theorem filter_parse_correct:
  "Parse pf input = Inr e \<longleftrightarrow> (\<exists>ts. tokenizes input ts \<and> g_or pf ts e)"
  by (rule Parse_iff_g_or)

text \<open>
  C13. The parser returns on every input: with the fuel \<open>Parse\<close> supplies the recursion never runs
  out, and any larger fuel gives the same expression or the same error.
\<close>

theorem filter_parse_total:
  "Parse_fuel pf (parse_fuel input + extra) input = Some (Parse pf input)"
  by (rule Parse_fuel_mono [OF Parse_fuel_Parse]) simp


lemma number_text_show_nat: "number_text (show_nat n)"
  by (simp add: number_text_def show_nat_digits)

definition sample_expr :: "nat Expr" where
  "sample_expr = LogicExpr LogicAnd
     (LogicExpr LogicOr (AtomExpr ''username'' OpEq (VString [CHR ''a'', CHR 0x22, CHR 0x5C]))
        (AtomExpr ''name.familyname'' OpPr VNil))
     (AtomExpr ''age'' OpNe (VFloat 42))"


end
