(* ===== verification/Scim_Path.thy ===== *)
theory Scim_Path
  imports Scim_Grammar
begin

section \<open>The PATCH path parser (\<open>internal/scim/parser/path.go\<close>)\<close>

text \<open>
  \<open>ParsePath\<close> works on the bytes of the input: an attribute, an optional filter between brackets
  (parsed by the filter parser) and an optional sub-attribute. The loops of the source that scan
  identifier characters are \<open>takeWhile\<close>.
\<close>

datatype 'f Path = Path (Path_Attr: string) (Path_SubAttr: string) (Path_Filter: "'f Expr option")

definition isIdentChar :: "char \<Rightarrow> bool" where
  "isIdentChar c \<longleftrightarrow> (let b = (of_char c :: nat) in
     (97 \<le> b \<and> b \<le> 122) \<or> (65 \<le> b \<and> b \<le> 90) \<or> (48 \<le> b \<and> b \<le> 57) \<or> c = CHR ''_'' \<or> c = CHR ''-'')"

text \<open>\<open>index_loop ch i inStr cs\<close>: the loop of \<open>indexUnquoted\<close> at index \<open>i\<close> with the bytes \<open>cs\<close> left.\<close>

fun index_loop :: "char \<Rightarrow> nat \<Rightarrow> bool \<Rightarrow> string \<Rightarrow> nat option" where
  "index_loop ch i inStr [] = None"
| "index_loop ch i inStr (c # cs) =
     (if inStr then
        (if c = CHR 0x5C \<and> cs \<noteq> [] then index_loop ch (i + 2) True (drop 1 cs)
         else index_loop ch (i + 1) (c \<noteq> CHR 0x22) cs)
      else if c = CHR 0x22 then index_loop ch (i + 1) True cs
      else if c = ch then Some i
      else index_loop ch (i + 1) False cs)"

definition indexUnquoted :: "string \<Rightarrow> char \<Rightarrow> nat option" where
  "indexUnquoted s ch = index_loop ch 0 False s"

text \<open>The bracket filter at the front of \<open>rest\<close>: the expression, the rest, the bytes consumed.\<close>

definition parse_bracket ::
  "(string \<Rightarrow> 'f option) \<Rightarrow> nat \<Rightarrow> string \<Rightarrow> InvalidPathError + 'f Expr option \<times> string \<times> nat" where
  "parse_bracket pf consumed rest =
     (if prefix ''['' rest then
        (case indexUnquoted rest CHR '']'' of
           None \<Rightarrow> Inl (InvalidPathError consumed PathUnterminatedBracket)
         | Some closeIdx \<Rightarrow>
             (case Parse pf (drop 1 (take closeIdx rest)) of
                Inl e \<Rightarrow> Inl (InvalidPathError (consumed + 1) (PathInvalidBracket e))
              | Inr expr \<Rightarrow> Inr (Some expr, drop (closeIdx + 1) rest, consumed + closeIdx + 1)))
      else Inr (None, rest, consumed))"

definition parse_subattr :: "nat \<Rightarrow> string \<Rightarrow> InvalidPathError + string \<times> string \<times> nat" where
  "parse_subattr consumed rest =
     (if prefix ''.'' rest then
        (let sub = drop 1 rest; ident = takeWhile isIdentChar sub in
         if ident = [] then Inl (InvalidPathError (consumed + 1) PathExpectedSubAttribute)
         else Inr (ToLower ident, drop (length ident) sub, consumed + 1 + length ident))
      else Inr ([], rest, consumed))"

definition ParsePath :: "(string \<Rightarrow> 'f option) \<Rightarrow> string \<Rightarrow> InvalidPathError + 'f Path" where
  "ParsePath pf input =
     (let s = TrimSpace input in
      if s = [] then Inr (Path [] [] None)
      else let attr = takeWhile isIdentChar s in
        if attr = [] then Inl (InvalidPathError 0 PathExpectedAttribute)
        else
         (case parse_bracket pf (length attr) (drop (length attr) s) of
            Inl e \<Rightarrow> Inl e
          | Inr (filt, rest, consumed) \<Rightarrow>
              (case parse_subattr consumed rest of
                 Inl e \<Rightarrow> Inl e
               | Inr (sub, rest', consumed') \<Rightarrow>
                   if TrimSpace rest' \<noteq> [] then Inl (InvalidPathError consumed' PathUnexpectedTrailing)
                   else Inr (Path (ToLower attr) sub filt))))"

subsection \<open>The closing bracket of a printed filter\<close>

lemma isIdentChar_solid: "isIdentChar c \<Longrightarrow> solid c"
  by (auto simp: isIdentChar_def solid_def unicode_IsSpace_def Let_def)

lemma index_loop_plain:
  "ch \<notin> set s \<Longrightarrow> CHR 0x22 \<notin> set s \<Longrightarrow> index_loop ch i False (s @ t) = index_loop ch (i + length s) False t"
  by (induction s arbitrary: i) auto

lemma index_loop_quoted:
  "index_loop ch i True (concat (map quote_char s) @ CHR 0x22 # t)
     = index_loop ch (i + length (concat (map quote_char s)) + 1) False t"
  by (induction s arbitrary: i) (auto simp: quote_char_def)

lemma index_loop_quote_text:
  "index_loop ch i False (quote_text s @ t) = index_loop ch (i + length (quote_text s)) False t"
  using index_loop_quoted [of ch "i + 1" s t] by (simp add: quote_text_def)

lemma word_plain: "word_text s \<Longrightarrow> CHR '']'' \<notin> set s \<and> CHR 0x22 \<notin> set s"
  by (auto simp: word_text_def list_all_iff ident_rune_def isLetter_def isDigit_def)

lemma number_plain: "number_text s \<Longrightarrow> CHR '']'' \<notin> set s \<and> CHR 0x22 \<notin> set s"
  by (auto simp: number_text_def list_all_iff is_digit_char_def Let_def)

lemma index_loop_token:
  assumes "wf_tok t"
  shows "index_loop CHR '']'' i False (token_text t @ u)
     = index_loop CHR '']'' (i + length (token_text t)) False u"
proof -
  obtain k s where t: "t = Token k s" by (cases t)
  show ?thesis
    using assms t by (cases k) (simp_all add: index_loop_quote_text index_loop_plain word_plain number_plain)
qed

lemma index_loop_print:
  "list_all wf_tok ts \<Longrightarrow> index_loop CHR '']'' i False (print_toks ts @ u)
     = index_loop CHR '']'' (i + length (print_toks ts)) False u"
proof (induction ts arbitrary: i)
  case (Cons t ts)
  have "index_loop CHR '']'' i False (print_toks (t # ts) @ u)
      = index_loop CHR '']'' i False (token_text t @ '' '' @ print_toks ts @ u)"
    by (simp add: print_toks_def)
  also have "\<dots> = index_loop CHR '']'' (i + length (token_text t) + 1) False (print_toks ts @ u)"
    using Cons.prems by (simp add: index_loop_token)
  finally show ?case using Cons by (simp add: print_toks_def ac_simps)
qed (simp add: print_toks_def)

subsection \<open>Properties\<close>

definition ident_word :: "string \<Rightarrow> bool" where
  "ident_word s \<longleftrightarrow> s \<noteq> [] \<and> list_all isIdentChar s"

text \<open>A path as a client writes it; an empty \<open>sub\<close> stands for no sub-attribute.\<close>

definition print_path :: "('f \<Rightarrow> string) \<Rightarrow> string \<Rightarrow> 'f Expr option \<Rightarrow> string \<Rightarrow> string" where
  "print_path show_f attr filt sub =
     attr @ (case filt of None \<Rightarrow> [] | Some e \<Rightarrow> ''['' @ print_filter show_f e @ '']'')
          @ (if sub = [] then [] else ''.'' @ sub)"

lemma takeWhile_ident: "list_all isIdentChar s \<Longrightarrow> (t = [] \<or> \<not> isIdentChar (hd t)) \<Longrightarrow> takeWhile isIdentChar (s @ t) = s"
  by (cases t) (auto simp: list_all_iff takeWhile_append takeWhile_eq_all_conv)

lemma parse_bracket_print:
  assumes "\<And>f. pf (show_f f) = Some f" "\<And>f. number_text (show_f f)" "printable e"
  shows "parse_bracket pf n (''['' @ print_filter show_f e @ '']'' @ rest)
     = Inr (Some e, rest, n + length (print_filter show_f e) + 2)"
proof -
  let ?p = "print_filter show_f e"
  have w: "list_all wf_tok (expr_toks show_f 0 e)"
    using wf_expr_toks [where show_f = show_f, OF assms(2) assms(3)] by blast
  have "indexUnquoted (''['' @ ?p @ '']'' @ rest) CHR '']'' = Some (length ?p + 1)"
    using index_loop_print [OF w, of 1 "'']'' @ rest"] by (simp add: indexUnquoted_def print_filter_def)
  moreover have "Parse pf ?p = Inr e"
    unfolding Parse_iff_g_or print_filter_def
    using expr_toks_g(1) [where pf = pf and show_f = show_f, OF assms(1) assms(3)]
      wf_expr_toks [where show_f = show_f, OF assms(2) assms(3)] tokenizes_print by blast
  ultimately show ?thesis by (simp add: parse_bracket_def)
qed

lemma parse_subattr_print:
  assumes "sub = [] \<or> ident_word sub"
  shows "parse_subattr n (if sub = [] then [] else ''.'' @ sub)
     = Inr (ToLower sub, [], if sub = [] then n else n + 1 + length sub)"
proof -
  have "takeWhile isIdentChar sub = sub"
    using assms takeWhile_ident [of sub "[]"] by (auto simp: ident_word_def)
  then show ?thesis by (auto simp: parse_subattr_def Let_def ToLower_def simp del: takeWhile_eq_all_conv)
qed

text \<open>A single word is the path of the attribute it names.\<close>

lemma ParsePath_word:
  assumes "ident_word w"
  shows "ParsePath pf w = Inr (Path (ToLower w) [] None)"
proof -
  have solid: "list_all solid w" "w \<noteq> []"
    using assms isIdentChar_solid by (auto simp: ident_word_def list_all_iff)
  then have trim: "TrimSpace w = w" by (intro TrimSpace_solid) (auto simp: list_all_iff)
  have tw: "takeWhile isIdentChar w = w" using takeWhile_ident [of w "[]"] assms by (simp add: ident_word_def)
  show ?thesis
    unfolding ParsePath_def Let_def trim tw using solid(2) by (simp add: parse_bracket_def parse_subattr_def TrimSpace_Nil)
qed

text \<open>
  A path written as an attribute, an optional bracketed filter and an optional sub-attribute is
  parsed into exactly these parts, the names in lower case, whatever the filter's strings contain
  (closing brackets and escaped quotes included).
\<close>

theorem path_print_parse:
  assumes "\<And>f. pf (show_f f) = Some f" "\<And>f. number_text (show_f f)"
    and "ident_word attr" "sub = [] \<or> ident_word sub" "\<And>e. filt = Some e \<Longrightarrow> printable e"
  shows "ParsePath pf (print_path show_f attr filt sub) = Inr (Path (ToLower attr) (ToLower sub) filt)"
proof -
  define tail where "tail = (if sub = [] then [] else ''.'' @ sub)"
  define mid where "mid = (case filt of None \<Rightarrow> [] | Some e \<Rightarrow> ''['' @ print_filter show_f e @ '']'')"
  have s: "print_path show_f attr filt sub = attr @ mid @ tail"
    by (simp add: print_path_def mid_def tail_def)
  have solid: "list_all solid attr" "list_all solid sub" "attr \<noteq> []"
    using assms(3,4) isIdentChar_solid by (auto simp: ident_word_def list_all_iff)
  have br: "solid CHR '']''" by (simp add: solid_def unicode_IsSpace_def)
  have "solid (last (attr @ mid @ tail))"
    using solid br by (auto simp: mid_def tail_def list_all_iff last_append split: option.splits)
  moreover have "solid (hd (attr @ mid @ tail))"
    using solid by (cases attr) auto
  ultimately have trim: "TrimSpace (attr @ mid @ tail) = attr @ mid @ tail"
    using solid(3) by (intro TrimSpace_solid) auto
  have "mid @ tail = [] \<or> \<not> isIdentChar (hd (mid @ tail))"
    by (auto simp: mid_def tail_def isIdentChar_def split: option.splits)
  then have tw: "takeWhile isIdentChar (attr @ mid @ tail) = attr"
    using takeWhile_ident [of attr "mid @ tail"] assms(3) by (simp add: ident_word_def)
  have "\<exists>n. parse_bracket pf (length attr) (mid @ tail) = Inr (filt, tail, n)"
  proof (cases filt)
    case None
    then show ?thesis by (auto simp: mid_def tail_def parse_bracket_def)
  next
    case (Some e)
    with parse_bracket_print [where pf = pf and show_f = show_f, OF assms(1,2) assms(5) [OF Some]]
    show ?thesis by (auto simp: mid_def)
  qed
  then obtain n where b: "parse_bracket pf (length attr) (mid @ tail) = Inr (filt, tail, n)" by blast
  show ?thesis
    unfolding s ParsePath_def Let_def trim tw
    using solid(3) b parse_subattr_print [OF assms(4), of n] by (simp add: tail_def)
qed

theorem path_print_parse_witness:
  "ParsePath (\<lambda>s. Some (read_nat s))
     (print_path show_nat ''Emails'' (Some (AtomExpr ''type'' OpEq (VString ''a]b''))) ''value'')
   = Inr (Path (ToLower ''Emails'') (ToLower ''value'') (Some (AtomExpr ''type'' OpEq (VString ''a]b''))))"
proof (rule path_print_parse)
  show "Some (read_nat (show_nat f)) = Some f" for f by (simp add: read_show_nat)
  show "number_text (show_nat f)" for f by (rule number_text_show_nat)
  show "ident_word ''Emails''" "''value'' = [] \<or> ident_word ''value''"
    by (simp_all add: ident_word_def isIdentChar_def)
  show "printable e" if "Some (AtomExpr ''type'' OpEq (VString ''a]b'')) = Some e" for e :: "nat Expr"
    using that by (auto simp: op_defs attr_text_def ident_text_def ascii_simps ident_rune_def
        isLetter_def ToLower_def lower_char_def classify_ident_def Let_def)
qed

end
