(* ===== verification/Scim_Sql.thy ===== *)
theory Scim_Sql
  imports Scim_Grammar
begin

section \<open>From filters to SQL (\<open>internal/scim/users/filter.go\<close>, \<open>internal/scim/groups/filter.go\<close>)\<close>

text \<open>
  The two packages hold the same translator over different attribute tables; \<open>filter_build\<close> is the
  common code with the table as an argument, \<open>Users_FilterToSQL\<close> and \<open>Groups_FilterToSQL\<close> its two
  uses. The builder's argument slice is passed along. What the SQL text means is stated over
  \<open>sql_cond\<close>, the conditions the translator writes, with their rendering and their three-valued
  evaluation on a row.
\<close>

subsection \<open>The translator\<close>

datatype attrSpec = AttrSpec (as_sql: string) (as_isString: bool)

type_synonym attr_table = "string \<Rightarrow> attrSpec option"

definition quoted :: "string \<Rightarrow> string" where
  "quoted s = CHR 0x27 # s @ [CHR 0x27]"

definition userAttrs :: attr_table where
  "userAttrs = map_of
    [(''username'', AttrSpec (''e.properties->>'' @ quoted ''userName'') True),
     (''displayname'', AttrSpec (''e.properties->>'' @ quoted ''displayName'') True),
     (''active'', AttrSpec (''(e.properties->>'' @ quoted ''active'' @ '')::bool'') False),
     (''emails.value'', AttrSpec (''e.properties->>'' @ quoted ''email'') True),
     (''id'', AttrSpec ''e.id::text'' True),
     (''externalid'', AttrSpec ''ei.external_subject'' True)]"

definition groupAttrs :: attr_table where
  "groupAttrs = map_of
    [(''displayname'', AttrSpec (''e.properties->>'' @ quoted ''displayName'') True),
     (''id'', AttrSpec ''e.id::text'' True),
     (''externalid'', AttrSpec ''ei.external_subject'' True)]"

text \<open>\<open>strings.ReplaceAll\<close> with a pattern of one byte.\<close>

definition replace_char :: "char \<Rightarrow> string \<Rightarrow> string \<Rightarrow> string" where
  "replace_char p r s = concat (map (\<lambda>c. if c = p then r else [c]) s)"

definition escapeLike :: "string \<Rightarrow> string" where
  "escapeLike s =
     (let s1 = replace_char CHR 0x5C [CHR 0x5C, CHR 0x5C] s;
          s2 = replace_char CHR ''%'' [CHR 0x5C, CHR ''%''] s1
      in replace_char CHR ''_'' [CHR 0x5C, CHR ''_''] s2)"

definition likePattern :: "string \<Rightarrow> string \<Rightarrow> string" where
  "likePattern op v =
     (let escaped = escapeLike v in
      if op = OpCo then ''%'' @ escaped @ ''%''
      else if op = OpSw then escaped @ ''%''
      else if op = OpEw then ''%'' @ escaped
      else escaped)"

definition placeholder :: "nat \<Rightarrow> string" where
  "placeholder n = ''$'' @ show_nat n"

definition buildAtom :: "attr_table \<Rightarrow> 'f Value list \<Rightarrow> string \<Rightarrow> string \<Rightarrow> 'f Value
    \<Rightarrow> translate_msg + string \<times> 'f Value list" where
  "buildAtom tbl args attr op val =
     (case tbl attr of
        None \<Rightarrow> Inl (UnsupportedAttribute attr)
      | Some spec \<Rightarrow>
          if op = OpPr then Inr (as_sql spec @ '' IS NOT NULL'', args)
          else if op = OpEq \<or> op = OpNe then
            (let sqlop = (if op = OpNe then ''<>'' else ''=''); args' = args @ [val]
             in Inr (as_sql spec @ '' '' @ sqlop @ '' '' @ placeholder (length args'), args'))
          else if op = OpCo \<or> op = OpSw \<or> op = OpEw then
            (if \<not> as_isString spec then Inl (OnlyStringAttributes op)
             else case val of
                VString s \<Rightarrow>
                  (let args' = args @ [VString (likePattern op s)]
                   in Inr (as_sql spec @ '' ILIKE '' @ placeholder (length args') @ '' ESCAPE '' @ quoted [CHR 0x5C],
                           args'))
              | _ \<Rightarrow> Inl (ExpectsStringValue op))
          else Inl (UnsupportedOperator op))"

fun filter_build :: "attr_table \<Rightarrow> 'f Value list \<Rightarrow> 'f Expr \<Rightarrow> translate_msg + string \<times> 'f Value list" where
  "filter_build tbl args (AtomExpr attr op val) = buildAtom tbl args attr op val"
| "filter_build tbl args (LogicExpr op l r) =
     (case filter_build tbl args l of
        Inl e \<Rightarrow> Inl e
      | Inr (left, args1) \<Rightarrow>
          (case filter_build tbl args1 r of
             Inl e \<Rightarrow> Inl e
           | Inr (right, args2) \<Rightarrow>
               Inr (''('' @ left @ '' '' @ ToUpper op @ '' '' @ right @ '')'', args2)))"

definition Users_FilterToSQL :: "'f Expr \<Rightarrow> translate_msg + string \<times> 'f Value list" where
  "Users_FilterToSQL e = filter_build userAttrs [] e"

definition Groups_FilterToSQL :: "'f Expr \<Rightarrow> translate_msg + string \<times> 'f Value list" where
  "Groups_FilterToSQL e = filter_build groupAttrs [] e"

text \<open>
  \<open>shiftPlaceholders\<close> of \<open>repository.go\<close>: the loop copies bytes and rewrites each \<open>$N\<close>. The
  placeholder numbers stay far below the range of \<open>int\<close>, so the sum is a natural number here.
\<close>

function shiftPlaceholders :: "string \<Rightarrow> nat \<Rightarrow> string" where
  "shiftPlaceholders [] delta = []"
| "shiftPlaceholders (c # cs) delta =
     (if c \<noteq> CHR ''$'' then c # shiftPlaceholders cs delta
      else let digits = takeWhile is_digit_char cs in
        if digits = [] then c # shiftPlaceholders cs delta
        else placeholder (read_nat digits + delta) @ shiftPlaceholders (drop (length digits) cs) delta)"
  by pat_completeness auto
termination by (relation "measure (\<lambda>(s, d). length s)") auto

subsection \<open>SQL conditions\<close>

datatype sql_cond =
    IsNotNull string
  | Compare bool string nat
  | ILike string nat
  | Bin string sql_cond sql_cond

fun render :: "sql_cond \<Rightarrow> string" where
  "render (IsNotNull col) = col @ '' IS NOT NULL''"
| "render (Compare eq col n) = col @ '' '' @ (if eq then ''='' else ''<>'') @ '' '' @ placeholder n"
| "render (ILike col n) = col @ '' ILIKE '' @ placeholder n @ '' ESCAPE '' @ quoted [CHR 0x5C]"
| "render (Bin op c d) = ''('' @ render c @ '' '' @ op @ '' '' @ render d @ '')''"

fun placeholders :: "sql_cond \<Rightarrow> nat list" where
  "placeholders (IsNotNull col) = []"
| "placeholders (Compare eq col n) = [n]"
| "placeholders (ILike col n) = [n]"
| "placeholders (Bin op c d) = placeholders c @ placeholders d"

fun shift :: "nat \<Rightarrow> sql_cond \<Rightarrow> sql_cond" where
  "shift d (IsNotNull col) = IsNotNull col"
| "shift d (Compare eq col n) = Compare eq col (n + d)"
| "shift d (ILike col n) = ILike col (n + d)"
| "shift d (Bin op b c) = Bin op (shift d b) (shift d c)"

fun columns :: "sql_cond \<Rightarrow> string set" where
  "columns (IsNotNull col) = {col}"
| "columns (Compare eq col n) = {col}"
| "columns (ILike col n) = {col}"
| "columns (Bin op c d) = columns c \<union> columns d"

text \<open>
  \<open>LIKE\<close> with the escape character \<open>\\<close>: \<open>%\<close> matches any text, \<open>_\<close> one character, an escaped
  character itself. \<open>eqc\<close> compares characters; for \<open>ILIKE\<close> it ignores case.
\<close>

fun like_match :: "(char \<Rightarrow> char \<Rightarrow> bool) \<Rightarrow> string \<Rightarrow> string \<Rightarrow> bool" where
  "like_match eqc [] s \<longleftrightarrow> s = []"
| "like_match eqc (p # ps) s \<longleftrightarrow>
     (if p = CHR ''%'' then list_ex (\<lambda>k. like_match eqc ps (drop k s)) [0..<Suc (length s)]
      else if p = CHR 0x5C then
        (case (ps, s) of (q # qs, c # cs) \<Rightarrow> eqc q c \<and> like_match eqc qs cs | _ \<Rightarrow> False)
      else (case s of c # cs \<Rightarrow> (p = CHR ''_'' \<or> eqc p c) \<and> like_match eqc ps cs | [] \<Rightarrow> False))"

text \<open>
  Three-valued evaluation: \<open>row col\<close> is the value of a column expression, \<open>VNil\<close> is SQL's \<open>NULL\<close>,
  \<open>None\<close> is "unknown". \<open>$n\<close> is the n-th argument, counting from one.
\<close>

definition k_and :: "bool option \<Rightarrow> bool option \<Rightarrow> bool option" where
  "k_and a b = (if a = Some False \<or> b = Some False then Some False
                else if a = None \<or> b = None then None else Some True)"

definition k_or :: "bool option \<Rightarrow> bool option \<Rightarrow> bool option" where
  "k_or a b = (if a = Some True \<or> b = Some True then Some True
               else if a = None \<or> b = None then None else Some False)"

fun sql_eval :: "(char \<Rightarrow> char \<Rightarrow> bool) \<Rightarrow> (string \<Rightarrow> 'f Value) \<Rightarrow> 'f Value list \<Rightarrow> sql_cond \<Rightarrow> bool option"
where
  "sql_eval eqc row args (IsNotNull col) = Some (row col \<noteq> VNil)"
| "sql_eval eqc row args (Compare eq col n) =
     (if row col = VNil \<or> args ! (n - 1) = VNil then None
      else Some ((row col = args ! (n - 1)) = eq))"
| "sql_eval eqc row args (ILike col n) =
     (case (row col, args ! (n - 1)) of
        (VString s, VString p) \<Rightarrow> Some (like_match eqc p s)
      | _ \<Rightarrow> None)"
| "sql_eval eqc row args (Bin op c d) =
     (if op = ''AND'' then k_and (sql_eval eqc row args c) (sql_eval eqc row args d)
      else k_or (sql_eval eqc row args c) (sql_eval eqc row args d))"

text \<open>
  What a SCIM filter says about a row: equality, presence, and the three substring tests with no
  wildcard in the value.
\<close>

definition substring_test :: "(char \<Rightarrow> char \<Rightarrow> bool) \<Rightarrow> string \<Rightarrow> string \<Rightarrow> string \<Rightarrow> bool" where
  "substring_test eqc op v s \<longleftrightarrow>
     (\<exists>pre mid suf. s = pre @ mid @ suf \<and> list_all2 eqc v mid
        \<and> (op = OpSw \<longrightarrow> pre = []) \<and> (op = OpEw \<longrightarrow> suf = []))"

definition column_value :: "attr_table \<Rightarrow> (string \<Rightarrow> 'f Value) \<Rightarrow> string \<Rightarrow> 'f Value" where
  "column_value tbl row attr = (case tbl attr of None \<Rightarrow> VNil | Some spec \<Rightarrow> row (as_sql spec))"

fun filter_sem :: "(char \<Rightarrow> char \<Rightarrow> bool) \<Rightarrow> attr_table \<Rightarrow> (string \<Rightarrow> 'f Value) \<Rightarrow> 'f Expr \<Rightarrow> bool option" where
  "filter_sem eqc tbl row (AtomExpr attr op val) =
     (let x = column_value tbl row attr in
      if op = OpPr then Some (x \<noteq> VNil)
      else if x = VNil \<or> val = VNil then None
      else if op = OpEq then Some (x = val)
      else if op = OpNe then Some (x \<noteq> val)
      else (case (x, val) of
              (VString s, VString v) \<Rightarrow> Some (substring_test eqc op v s)
            | _ \<Rightarrow> None))"
| "filter_sem eqc tbl row (LogicExpr op l r) =
     (if op = LogicAnd then k_and (filter_sem eqc tbl row l) (filter_sem eqc tbl row r)
      else k_or (filter_sem eqc tbl row l) (filter_sem eqc tbl row r))"

fun logic_ops_ok :: "'f Expr \<Rightarrow> bool" where
  "logic_ops_ok (AtomExpr a op v) \<longleftrightarrow> True"
| "logic_ops_ok (LogicExpr op l r) \<longleftrightarrow> op \<in> {LogicAnd, LogicOr} \<and> logic_ops_ok l \<and> logic_ops_ok r"

subsection \<open>Escaping\<close>

lemma replace_char_simps:
  "replace_char p r [] = []" "replace_char p r (c # s) = (if c = p then r else [c]) @ replace_char p r s"
  "replace_char p r (s @ t) = replace_char p r s @ replace_char p r t"
  by (auto simp: replace_char_def)

definition escape1 :: "char \<Rightarrow> string" where
  "escape1 c = (if c \<in> {CHR 0x5C, CHR ''%'', CHR ''_''} then [CHR 0x5C, c] else [c])"

lemma escapeLike_concat: "escapeLike s = concat (map escape1 s)"
  by (induction s) (auto simp: escapeLike_def replace_char_simps escape1_def Let_def)

lemma like_match_escaped:
  "like_match eqc (concat (map escape1 v) @ q) s \<longleftrightarrow>
     (\<exists>mid suf. s = mid @ suf \<and> list_all2 eqc v mid \<and> like_match eqc q suf)"
proof (induction v arbitrary: s)
  case (Cons c v)
  have step: "like_match eqc (escape1 c @ r) s \<longleftrightarrow> (\<exists>d ds. s = d # ds \<and> eqc c d \<and> like_match eqc r ds)" for r
    by (cases s) (auto simp: escape1_def)
  have "(\<exists>d ds. s = d # ds \<and> eqc c d \<and> (\<exists>mid suf. ds = mid @ suf \<and> list_all2 eqc v mid \<and> like_match eqc q suf))
      \<longleftrightarrow> (\<exists>mid suf. s = mid @ suf \<and> list_all2 eqc (c # v) mid \<and> like_match eqc q suf)" (is "?A = ?B")
  proof
    assume ?A
    then obtain d mid suf where "s = (d # mid) @ suf" "list_all2 eqc (c # v) (d # mid)" "like_match eqc q suf"
      by auto
    then show ?B by blast
  next
    assume ?B
    then show ?A by (clarsimp simp: list_all2_Cons1) blast
  qed
  then show ?case by (simp only: list.map concat.simps append_assoc step Cons.IH)
qed simp

lemma like_match_any: "like_match eqc (CHR ''%'' # q) s \<longleftrightarrow> (\<exists>pre rest. s = pre @ rest \<and> like_match eqc q rest)"
proof
  assume "like_match eqc (CHR ''%'' # q) s"
  then obtain k where "like_match eqc q (drop k s)"
    by (auto simp: list_ex_iff simp del: upt_Suc)
  then show "\<exists>pre rest. s = pre @ rest \<and> like_match eqc q rest"
    by (metis append_take_drop_id)
next
  assume "\<exists>pre rest. s = pre @ rest \<and> like_match eqc q rest"
  then obtain pre rest where s: "s = pre @ rest" "like_match eqc q rest" by blast
  then have "like_match eqc q (drop (length pre) s)" "length pre < Suc (length s)" by simp_all
  then show "like_match eqc (CHR ''%'' # q) s" by (auto simp: list_ex_iff simp del: upt_Suc)
qed

lemma like_match_percent: "like_match eqc ''%'' s"
  by (subst like_match_any) auto

lemma likePattern_simps:
  "likePattern OpCo v = CHR ''%'' # escapeLike v @ ''%''"
  "likePattern OpSw v = escapeLike v @ ''%''"
  "likePattern OpEw v = CHR ''%'' # escapeLike v"
  by (simp_all add: likePattern_def op_defs Let_def)

lemma substring_test_simps:
  "substring_test eqc OpCo v s \<longleftrightarrow> (\<exists>pre mid suf. s = pre @ mid @ suf \<and> list_all2 eqc v mid)"
  "substring_test eqc OpSw v s \<longleftrightarrow> (\<exists>mid suf. s = mid @ suf \<and> list_all2 eqc v mid)"
  "substring_test eqc OpEw v s \<longleftrightarrow> (\<exists>pre mid. s = pre @ mid \<and> list_all2 eqc v mid)"
  by (simp_all add: substring_test_def op_defs)

lemma like_match_prefix:
  "like_match eqc (escapeLike v @ ''%'') s \<longleftrightarrow> (\<exists>mid suf. s = mid @ suf \<and> list_all2 eqc v mid)"
  by (simp only: escapeLike_concat like_match_escaped like_match_percent simp_thms)

lemma like_match_whole: "like_match eqc (escapeLike v) s \<longleftrightarrow> list_all2 eqc v s"
  using like_match_escaped [of eqc v "[]" s] by (simp add: escapeLike_concat)

lemma likePattern_correct:
  assumes "op \<in> {OpCo, OpSw, OpEw}"
  shows "like_match eqc (likePattern op v) s \<longleftrightarrow> substring_test eqc op v s"
proof -
  from assms consider "op = OpCo" | "op = OpSw" | "op = OpEw" by blast
  then show ?thesis
  proof cases
    case 1
    show ?thesis unfolding 1 likePattern_simps substring_test_simps like_match_any like_match_prefix by blast
  next
    case 2
    show ?thesis unfolding 2 likePattern_simps substring_test_simps like_match_prefix ..
  next
    case 3
    show ?thesis unfolding 3 likePattern_simps substring_test_simps like_match_any like_match_whole ..
  qed
qed

subsection \<open>The translation means what the filter says\<close>

lemma sql_eval_ext:
  "set (placeholders c) \<subseteq> {1..length args} \<Longrightarrow> sql_eval eqc row (args @ ext) c = sql_eval eqc row args c"
  by (induction c) (auto simp: nth_append)

fun plain_ops :: "sql_cond \<Rightarrow> bool" where
  "plain_ops (Bin op c d) \<longleftrightarrow> op \<in> {''AND'', ''OR''} \<and> plain_ops c \<and> plain_ops d"
| "plain_ops c \<longleftrightarrow> True"

definition attr_columns :: "attr_table \<Rightarrow> string set" where
  "attr_columns tbl = {as_sql spec | attr spec. tbl attr = Some spec}"

text \<open>\<open>translates\<close>: the condition behind a translated text, with its placeholders, columns and meaning.\<close>

definition translates :: "attr_table \<Rightarrow> 'f Value list \<Rightarrow> 'f Expr \<Rightarrow> string \<Rightarrow> 'f Value list \<Rightarrow> sql_cond \<Rightarrow> bool"
where
  "translates tbl args e sql args' c \<longleftrightarrow>
     sql = render c \<and> (\<exists>new. args' = args @ new)
     \<and> placeholders c = [Suc (length args)..<Suc (length args')]
     \<and> columns c \<subseteq> attr_columns tbl \<and> plain_ops c
     \<and> (\<forall>eqc row. sql_eval eqc row args' c = filter_sem eqc tbl row e)"

lemma buildAtom_translates:
  assumes "buildAtom tbl args a op v = Inr (sql, args')"
  shows "\<exists>c. translates tbl args (AtomExpr a op v) sql args' c"
proof -
  from assms obtain spec where spec: "tbl a = Some spec"
    by (auto simp: buildAtom_def split: option.splits)
  then have col: "column_value tbl row a = row (as_sql spec)" "as_sql spec \<in> attr_columns tbl" for row :: "string \<Rightarrow> 'a Value"
    by (auto simp: column_value_def attr_columns_def)
  have neq: "OpNe \<noteq> OpEq" "OpEq \<noteq> OpNe" "OpPr \<noteq> OpEq" "OpPr \<noteq> OpNe" by (simp_all add: op_defs)
  consider (pr) "op = OpPr" | (cmp) "op \<noteq> OpPr" "op = OpEq \<or> op = OpNe"
    | (like) "op \<noteq> OpPr" "op \<notin> {OpEq, OpNe}" "op \<in> {OpCo, OpSw, OpEw}"
    using assms spec by (auto simp: buildAtom_def split: if_splits)
  then show ?thesis
  proof cases
    case pr
    with assms spec have "sql = render (IsNotNull (as_sql spec))" "args' = args"
      by (auto simp: buildAtom_def)
    with pr col show ?thesis by (intro exI [of _ "IsNotNull (as_sql spec)"]) (simp add: translates_def)
  next
    case cmp
    with assms spec have r: "sql = render (Compare (op = OpEq) (as_sql spec) (Suc (length args)))" "args' = args @ [v]"
      by (auto simp: buildAtom_def Let_def neq)
    with cmp col neq show ?thesis
      by (intro exI [of _ "Compare (op = OpEq) (as_sql spec) (Suc (length args))"])
        (auto simp: translates_def Let_def)
  next
    case like
    then obtain s where v: "v = VString s" using assms spec by (auto simp: buildAtom_def split: if_splits Value.splits)
    from like assms spec have r: "sql = render (ILike (as_sql spec) (Suc (length args)))"
      "args' = args @ [VString (likePattern op s)]"
      unfolding v by (auto simp: buildAtom_def Let_def split: if_splits)
    have "sql_eval eqc row args' (ILike (as_sql spec) (Suc (length args))) = filter_sem eqc tbl row (AtomExpr a op v)"
      for eqc row
      using like by (auto simp: r v col likePattern_correct [OF like(3)] split: Value.splits)
    with r col show ?thesis
      by (intro exI [of _ "ILike (as_sql spec) (Suc (length args))"]) (auto simp: translates_def)
  qed
qed

lemma ToUpper_logic: "ToUpper LogicAnd = ''AND''" "ToUpper LogicOr = ''OR''"
  by code_simp+

lemma filter_build_translates:
  "filter_build tbl args e = Inr (sql, args') \<Longrightarrow> logic_ops_ok e \<Longrightarrow> \<exists>c. translates tbl args e sql args' c"
proof (induction e arbitrary: args sql args')
  case (AtomExpr a op v)
  then show ?case by (simp add: buildAtom_translates)
next
  case (LogicExpr op l r)
  from LogicExpr.prems(1) obtain s1 args1 s2 where b: "filter_build tbl args l = Inr (s1, args1)"
    "filter_build tbl args1 r = Inr (s2, args')" and sql: "sql = ''('' @ s1 @ '' '' @ ToUpper op @ '' '' @ s2 @ '')''"
    by (auto split: sum.splits)
  from LogicExpr.IH b LogicExpr.prems(2) obtain c d where
    c: "translates tbl args l s1 args1 c" and d: "translates tbl args1 r s2 args' d" by fastforce
  then obtain new where new: "args' = args1 @ new" by (auto simp: translates_def)
  have ev: "sql_eval eqc row args' c = sql_eval eqc row args1 c" for eqc row
    unfolding new using c by (intro sql_eval_ext) (auto simp: translates_def)
  from c obtain new0 where n0: "args1 = args @ new0" by (auto simp: translates_def)
  have "placeholders (Bin (ToUpper op) c d) = [Suc (length args)..<Suc (length args1)] @ [Suc (length args1)..<Suc (length args')]"
    using c d by (simp add: translates_def del: upt_Suc)
  also have "\<dots> = [Suc (length args)..<Suc (length args')]"
    using upt_add_eq_append [of "Suc (length args)" "Suc (length args1)" "length new"] new n0
    by (simp add: add.assoc del: upt_Suc)
  finally have "placeholders (Bin (ToUpper op) c d) = [Suc (length args)..<Suc (length args')]" .
  moreover have "\<exists>k. args' = args @ k" using new n0 by simp
  moreover have "sql_eval eqc row args' (Bin (ToUpper op) c d) = filter_sem eqc tbl row (LogicExpr op l r)" for eqc row
  proof -
    have "sql_eval eqc row args' c = filter_sem eqc tbl row l" "sql_eval eqc row args' d = filter_sem eqc tbl row r"
      using c d ev by (auto simp: translates_def)
    moreover have "ToUpper op = ''AND'' \<longleftrightarrow> op = LogicAnd"
      using LogicExpr.prems(2) ToUpper_logic by (auto simp: op_defs)
    ultimately show ?thesis by simp
  qed
  moreover have "sql = render (Bin (ToUpper op) c d)" "columns (Bin (ToUpper op) c d) \<subseteq> attr_columns tbl"
    using c d by (auto simp: translates_def sql)
  moreover have "plain_ops (Bin (ToUpper op) c d)"
    using c d LogicExpr.prems(2) ToUpper_logic by (auto simp: translates_def)
  ultimately have "translates tbl args (LogicExpr op l r) sql args' (Bin (ToUpper op) c d)"
    by (simp add: translates_def)
  then show ?case ..
qed

subsection \<open>Splicing into a larger query\<close>

lemma show_nat_takeWhile:
  "t = [] \<or> \<not> is_digit_char (hd t) \<Longrightarrow> takeWhile is_digit_char (show_nat n @ t) = show_nat n"
  using show_nat_digits [of n] by (cases t) (auto simp: list_all_iff takeWhile_append takeWhile_eq_all_conv)

lemma shift_text: "CHR ''$'' \<notin> set s \<Longrightarrow> shiftPlaceholders (s @ t) d = s @ shiftPlaceholders t d"
  by (induction s) auto

lemma shift_placeholder:
  "t = [] \<or> \<not> is_digit_char (hd t) \<Longrightarrow>
   shiftPlaceholders (placeholder n @ t) d = placeholder (n + d) @ shiftPlaceholders t d"
  by (simp add: placeholder_def show_nat_takeWhile read_show_nat Let_def)

lemma shift_render:
  "\<forall>col \<in> columns c. CHR ''$'' \<notin> set col \<Longrightarrow> plain_ops c \<Longrightarrow> (t = [] \<or> \<not> is_digit_char (hd t)) \<Longrightarrow>
   shiftPlaceholders (render c @ t) d = render (shift d c) @ shiftPlaceholders t d"
proof (induction c arbitrary: t)
  case (IsNotNull col)
  have "shiftPlaceholders ((col @ '' IS NOT NULL'') @ t) d = (col @ '' IS NOT NULL'') @ shiftPlaceholders t d"
    by (rule shift_text) (use IsNotNull in simp)
  then show ?case by simp
next
  case (Compare eq col n)
  let ?s = "col @ '' '' @ (if eq then ''='' else ''<>'') @ '' ''"
  have "shiftPlaceholders (?s @ placeholder n @ t) d = ?s @ shiftPlaceholders (placeholder n @ t) d"
    by (rule shift_text) (use Compare in auto)
  then show ?case using Compare.prems(3) by (simp add: shift_placeholder)
next
  case (ILike col n)
  let ?s = "col @ '' ILIKE ''" and ?e = "'' ESCAPE '' @ quoted [CHR 0x5C]"
  have "shiftPlaceholders (?s @ placeholder n @ ?e @ t) d = ?s @ shiftPlaceholders (placeholder n @ ?e @ t) d"
    by (rule shift_text) (use ILike in auto)
  moreover have "shiftPlaceholders (placeholder n @ ?e @ t) d = placeholder (n + d) @ shiftPlaceholders (?e @ t) d"
    by (rule shift_placeholder) (simp add: is_digit_char_def)
  moreover have "shiftPlaceholders (?e @ t) d = ?e @ shiftPlaceholders t d"
    by (rule shift_text) (simp add: quoted_def)
  ultimately show ?case by simp
next
  case (Bin op b c)
  have nd: "\<not> is_digit_char CHR '' ''" "\<not> is_digit_char CHR '')''" by (simp_all add: is_digit_char_def)
  have opd: "CHR ''$'' \<notin> set ('' '' @ op @ '' '')" using Bin.prems(2) by auto
  have "shiftPlaceholders (''('' @ render b @ ('' '' @ op @ '' '') @ render c @ '')'' @ t) d
      = ''('' @ shiftPlaceholders (render b @ ('' '' @ op @ '' '') @ render c @ '')'' @ t) d"
    by (rule shift_text) simp
  also have "shiftPlaceholders (render b @ ('' '' @ op @ '' '') @ render c @ '')'' @ t) d
      = render (shift d b) @ shiftPlaceholders (('' '' @ op @ '' '') @ render c @ '')'' @ t) d"
    by (rule Bin.IH(1)) (use Bin.prems nd in auto)
  also have "shiftPlaceholders (('' '' @ op @ '' '') @ render c @ '')'' @ t) d
      = ('' '' @ op @ '' '') @ shiftPlaceholders (render c @ '')'' @ t) d"
    by (rule shift_text [OF opd])
  also have "shiftPlaceholders (render c @ '')'' @ t) d = render (shift d c) @ shiftPlaceholders ('')'' @ t) d"
    by (rule Bin.IH(2)) (use Bin.prems nd in auto)
  also have "shiftPlaceholders ('')'' @ t) d = '')'' @ shiftPlaceholders t d"
    by (rule shift_text) simp
  finally show ?case by simp
qed

lemma nth_shift: "1 \<le> n \<Longrightarrow> (pre @ args) ! (n + length pre - 1) = args ! (n - 1)"
proof -
  assume "1 \<le> n"
  then have "n + length pre - 1 = length pre + (n - 1)" by simp
  then show ?thesis by (simp only: nth_append_length_plus)
qed

lemma sql_eval_shift:
  "set (placeholders c) \<subseteq> {1..length args} \<Longrightarrow>
   sql_eval eqc row (pre @ args) (shift (length pre) c) = sql_eval eqc row args c"
proof (induction c)
  case (Compare eq col n)
  then have "(pre @ args) ! (n + length pre - 1) = args ! (n - 1)" by (intro nth_shift) simp
  then show ?case by (simp only: shift.simps sql_eval.simps)
next
  case (ILike col n)
  then have "(pre @ args) ! (n + length pre - 1) = args ! (n - 1)" by (intro nth_shift) simp
  then show ?case by (simp only: shift.simps sql_eval.simps)
qed auto

text \<open>
  The contract of an attribute table: a column expression holds no placeholder sign. Both tables
  meet it, and under it a translated filter can be moved behind the arguments of another query.
\<close>

locale sql_table =
  fixes tbl :: attr_table
  assumes no_placeholder: "tbl attr = Some spec \<Longrightarrow> CHR ''$'' \<notin> set (as_sql spec)"
begin

lemma build_spliced:
  assumes "filter_build tbl [] e = Inr (sql, args)" "logic_ops_ok e"
  shows "\<exists>c. sql = render c \<and> placeholders c = [1..<Suc (length args)] \<and>
     shiftPlaceholders sql (length pre) = render (shift (length pre) c) \<and>
     (\<forall>eqc row. sql_eval eqc row (pre @ args) (shift (length pre) c) = filter_sem eqc tbl row e)"
proof -
  from filter_build_translates [OF assms] obtain c where c: "translates tbl [] e sql args c" by blast
  then have p: "placeholders c = [1..<Suc (length args)]" by (simp add: translates_def del: upt_Suc)
  have "\<forall>col \<in> columns c. CHR ''$'' \<notin> set col"
    using c no_placeholder by (auto simp: translates_def attr_columns_def)
  then have "shiftPlaceholders (render c @ []) (length pre) = render (shift (length pre) c) @ []"
    using shift_render [of c "[]" "length pre"] c by (simp add: translates_def)
  moreover have "sql_eval eqc row (pre @ args) (shift (length pre) c) = filter_sem eqc tbl row e" for eqc row
  proof -
    have "set (placeholders c) \<subseteq> {1..length args}" using p by (auto simp del: upt_Suc)
    with c show ?thesis by (simp add: sql_eval_shift translates_def)
  qed
  ultimately show ?thesis using c p by (auto simp: translates_def)
qed

end

interpretation user_table: sql_table userAttrs
  by unfold_locales (auto simp: userAttrs_def quoted_def split: if_splits)

interpretation group_table: sql_table groupAttrs
  by unfold_locales (auto simp: groupAttrs_def quoted_def split: if_splits)

subsection \<open>The text does not depend on the values\<close>

definition is_VString :: "'f Value \<Rightarrow> bool" where
  "is_VString v \<longleftrightarrow> (case v of VString s \<Rightarrow> True | _ \<Rightarrow> False)"

fun same_shape :: "'f Expr \<Rightarrow> 'f Expr \<Rightarrow> bool" where
  "same_shape (AtomExpr a op v) (AtomExpr b oq w) \<longleftrightarrow> a = b \<and> op = oq \<and> is_VString v = is_VString w"
| "same_shape (LogicExpr op l r) (LogicExpr oq m s) \<longleftrightarrow> op = oq \<and> same_shape l m \<and> same_shape r s"
| "same_shape _ _ \<longleftrightarrow> False"

definition text_of :: "translate_msg + string \<times> 'f Value list \<Rightarrow> translate_msg + string \<times> nat" where
  "text_of r = (case r of Inl e \<Rightarrow> Inl e | Inr (sql, args) \<Rightarrow> Inr (sql, length args))"

lemma buildAtom_text:
  "is_VString v = is_VString w \<Longrightarrow> length args = length brgs \<Longrightarrow>
   text_of (buildAtom tbl args a op v) = text_of (buildAtom tbl brgs a op w)"
  by (cases "tbl a"; cases v; cases w) (simp_all add: buildAtom_def text_of_def is_VString_def Let_def)

lemma text_of_simps [simp]:
  "text_of (Inl e) = Inl e" "text_of (Inr (s, args)) = Inr (s, length args)"
  by (simp_all add: text_of_def)

lemma text_of_InlD: "text_of r = Inl e \<Longrightarrow> r = Inl e"
  by (cases r) auto

lemma text_of_InrD: "text_of r = Inr (s, n) \<Longrightarrow> \<exists>args. r = Inr (s, args) \<and> length args = n"
  by (cases r) auto

lemma filter_build_text:
  "same_shape e f \<Longrightarrow> length args = length brgs \<Longrightarrow>
   text_of (filter_build tbl args e) = text_of (filter_build tbl brgs f)"
proof (induction e arbitrary: f args brgs)
  case (AtomExpr a op v)
  from AtomExpr.prems(1) obtain w where f: "f = AtomExpr a op w" and w: "is_VString v = is_VString w"
    by (cases f) auto
  show ?case unfolding f filter_build.simps(1) by (rule buildAtom_text [OF w AtomExpr.prems(2)])
next
  case (LogicExpr op l r)
  from LogicExpr.prems(1) obtain m s where f: "f = LogicExpr op m s" and sh: "same_shape l m" "same_shape r s"
    by (cases f) auto
  have l: "text_of (filter_build tbl args l) = text_of (filter_build tbl brgs m)"
    by (rule LogicExpr.IH(1) [OF sh(1) LogicExpr.prems(2)])
  show ?case
  proof (cases "filter_build tbl args l")
    case (Inl e)
    with l have "filter_build tbl brgs m = Inl e" by (metis text_of_InlD text_of_simps(1))
    with Inl f show ?thesis by simp
  next
    case (Inr p)
    obtain s1 args1 where p: "p = (s1, args1)" by fastforce
    with Inr l obtain brgs1 where b1: "filter_build tbl brgs m = Inr (s1, brgs1)" "length args1 = length brgs1"
      by (metis text_of_InrD text_of_simps(2))
    have r: "text_of (filter_build tbl args1 r) = text_of (filter_build tbl brgs1 s)"
      by (rule LogicExpr.IH(2) [OF sh(2) b1(2)])
    show ?thesis
    proof (cases "filter_build tbl args1 r")
      case (Inl e)
      with r have "filter_build tbl brgs1 s = Inl e" by (metis text_of_InlD text_of_simps(1))
      with Inl Inr b1 f p show ?thesis by simp
    next
      case (Inr q)
      obtain s2 args2 where q: "q = (s2, args2)" by fastforce
      with Inr r obtain brgs2 where "filter_build tbl brgs1 s = Inr (s2, brgs2)" "length args2 = length brgs2"
        by (metis text_of_InrD text_of_simps(2))
      with Inr \<open>filter_build tbl args l = Inr p\<close> b1 f p q show ?thesis by simp
    qed
  qed
qed

subsection \<open>Properties\<close>



text \<open>
  C20. Injection safety: for two filters that differ in the compared values only (a string stays a
  string), the translator of either package returns the same SQL text and the same number of
  arguments, or the same error. No byte of a client's value reaches the SQL text.
\<close>

theorem filter_sql_injection_safe:
  assumes "same_shape e f"
  shows "text_of (Users_FilterToSQL e) = text_of (Users_FilterToSQL f)
     \<and> text_of (Groups_FilterToSQL e) = text_of (Groups_FilterToSQL f)"
  using filter_build_text [OF assms] by (simp add: Users_FilterToSQL_def Groups_FilterToSQL_def)

theorem filter_sql_injection_safe_witness:
  "text_of (Users_FilterToSQL (AtomExpr ''id'' OpSw (VString ''x OR 1=1'' :: nat Value)))
     = text_of (Users_FilterToSQL (AtomExpr ''id'' OpSw (VString ''7'' :: nat Value)))"
  using filter_sql_injection_safe [of "AtomExpr ''id'' OpSw (VString ''x OR 1=1'' :: nat Value)"
      "AtomExpr ''id'' OpSw (VString ''7'')"] by (simp add: is_VString_def)

end
