(* ===== verification/Scim_Patch.thy ===== *)
theory Scim_Patch
  imports Scim_Path
begin

section \<open>PATCH operations shared by users and groups\<close>

text \<open>
  The two \<open>patch.go\<close> files share their skeleton: \<open>applyOne\<close> dispatches on the operation, an empty
  path applies a whole object member by member (\<open>applyRootObject\<close>), members whose path does not parse
  or is not supported are skipped, any other failure aborts. \<open>patch_value\<close> is \<open>applyAdd\<close> and
  \<open>applyReplace\<close> over the \<open>leaf\<close> that handles a non-empty path; the recursion into nested objects ends
  because a member is smaller than the object.
\<close>

record patch_op =
  op_Op :: string
  op_Path :: string
  op_Value :: raw

fun json_size :: "json \<Rightarrow> nat" where
  "json_size (JObj kvs) = Suc (sum_list (map (\<lambda>(k, v). Suc (Suc (json_size v))) kvs))"
| "json_size (JArr xs) = Suc (sum_list (map json_size xs))"
| "json_size _ = 1"

definition members_size :: "(string \<times> json) list \<Rightarrow> nat" where
  "members_size kvs = sum_list (map (\<lambda>(k, v). Suc (Suc (json_size v))) kvs)"

lemma members_size_simps [simp]:
  "members_size [] = 0"
  "members_size ((k, v) # kvs) = Suc (Suc (json_size v)) + members_size kvs"
  by (simp_all add: members_size_def)

lemma members_size_append: "members_size (xs @ ys) = members_size xs + members_size ys"
  by (simp add: members_size_def)

lemma members_size_delete: "members_size (AList.delete k kvs) \<le> members_size kvs"
  by (induction kvs) (auto simp: AList.delete_eq)

lemma members_size_clearjunk: "members_size (AList.clearjunk kvs) \<le> members_size kvs"
proof (induction kvs rule: AList.clearjunk.induct)
  case (2 x xs)
  obtain k v where x: "x = (k, v)" by fastforce
  from 2 members_size_delete [of k xs] show ?case by (simp add: x)
qed simp

lemma members_size_rev: "members_size (rev kvs) = members_size kvs"
  by (induction kvs) (auto simp: members_size_append)

lemma members_size_decode: "members_size (decode_members kvs) \<le> members_size kvs"
  using members_size_clearjunk [of "rev kvs"] by (simp add: decode_members_def members_size_rev)

lemma unmarshal_map_size:
  "unmarshal_map (Some j) = Inr m \<Longrightarrow> members_size (map_entries m) < json_size j"
  using members_size_decode by (cases j) (auto simp: map_entries_def members_size_def less_Suc_eq_le)

function patch_value ::
  "(string \<Rightarrow> 'f option) \<Rightarrow> goerr \<Rightarrow> goerr \<Rightarrow> ('s \<Rightarrow> 'f Path \<Rightarrow> raw \<Rightarrow> goerr + 's) \<Rightarrow> 's \<Rightarrow> 'f Path \<Rightarrow> raw \<Rightarrow> goerr + 's"
and patch_members ::
  "(string \<Rightarrow> 'f option) \<Rightarrow> goerr \<Rightarrow> goerr \<Rightarrow> ('s \<Rightarrow> 'f Path \<Rightarrow> raw \<Rightarrow> goerr + 's) \<Rightarrow> 's \<Rightarrow> (string \<times> json) list \<Rightarrow> goerr + 's"
where
  "patch_value pf noTarget invalid leaf s p raw =
     (if Path_Attr p = [] then
        (case unmarshal_map raw of
           Inl _ \<Rightarrow> Inl (Detailed invalid (Text ''expected object when path is empty''))
         | Inr obj \<Rightarrow> patch_members pf noTarget invalid leaf s (map_entries obj))
      else leaf s p raw)"
| "patch_members pf noTarget invalid leaf s [] = Inr s"
| "patch_members pf noTarget invalid leaf s ((k, v) # kvs) =
     (case ParsePath pf k of
        Inl _ \<Rightarrow> patch_members pf noTarget invalid leaf s kvs
      | Inr sub \<Rightarrow>
          (case patch_value pf noTarget invalid leaf s sub (Some v) of
             Inl e \<Rightarrow> if errors_Is e noTarget then patch_members pf noTarget invalid leaf s kvs else Inl e
           | Inr s' \<Rightarrow> patch_members pf noTarget invalid leaf s' kvs))"
  by pat_completeness auto
termination
proof (relation "measure (\<lambda>x. case x of
    Inl (pf, nt, iv, leaf, s, p, raw) \<Rightarrow> (case raw of None \<Rightarrow> 0 | Some j \<Rightarrow> Suc (json_size j))
  | Inr (pf, nt, iv, leaf, s, kvs) \<Rightarrow> members_size kvs)", goal_cases)
  case (2 pf nt iv leaf s p raw m)
  then show ?case by (cases raw) (auto dest!: unmarshal_map_size)
qed auto

declare patch_value.simps [simp del]

text \<open>\<open>json.Unmarshal\<close> into a string and a bool field of the properties.\<close>

definition setStringProp :: "goerr \<Rightarrow> string \<Rightarrow> raw \<Rightarrow> props \<Rightarrow> goerr + props" where
  "setStringProp invalid key raw props =
     (case unmarshal_string raw of
        Inl _ \<Rightarrow> Inl (Detailed invalid (Text (''expected string for '' @ key)))
      | Inr s \<Rightarrow> Inr (props_set key (JStr s) props))"

definition setBoolProp :: "goerr \<Rightarrow> string \<Rightarrow> raw \<Rightarrow> props \<Rightarrow> goerr + props" where
  "setBoolProp invalid key raw props =
     (case unmarshal_bool raw of
        Inl _ \<Rightarrow> Inl (Detailed invalid (Text (''expected boolean for '' @ key)))
      | Inr b \<Rightarrow> Inr (props_set key (JBool b) props))"

lemma distinct_props_set: "distinct (map fst p) \<Longrightarrow> distinct (map fst (props_set k v p))"
  by (simp add: props_set_def distinct_update)

lemma distinct_props_delete: "distinct (map fst p) \<Longrightarrow> distinct (map fst (props_delete k p))"
  by (simp add: props_delete_def distinct_delete)

lemma distinct_unmarshal_map: "unmarshal_map raw = Inr m \<Longrightarrow> distinct (map fst (map_entries m))"
  by (cases raw rule: unmarshal_map.cases) (auto simp: map_entries_def distinct_decode_members)

lemma set_prop_distinct:
  "setStringProp iv k raw p = Inr p' \<Longrightarrow> distinct (map fst p) \<Longrightarrow> distinct (map fst p')"
  "setBoolProp iv k raw p = Inr p' \<Longrightarrow> distinct (map fst p) \<Longrightarrow> distinct (map fst p')"
  by (auto simp: setStringProp_def setBoolProp_def distinct_props_set split: sum.splits)

text \<open>\<open>applyOne\<close> and the loop of \<open>ApplyPatch\<close>, for the three operations of a resource.\<close>

definition patch_one ::
  "(string \<Rightarrow> 'f option) \<Rightarrow> goerr \<Rightarrow> ('s \<Rightarrow> 'f Path \<Rightarrow> raw \<Rightarrow> goerr + 's) \<Rightarrow> ('s \<Rightarrow> 'f Path \<Rightarrow> raw \<Rightarrow> goerr + 's)
     \<Rightarrow> ('s \<Rightarrow> 'f Path \<Rightarrow> goerr + 's) \<Rightarrow> 's \<Rightarrow> patch_op \<Rightarrow> goerr + 's" where
  "patch_one pf noTarget add replace remove s op =
     (case ParsePath pf (op_Path op) of
        Inl e \<Rightarrow> Inl (Detailed noTarget (PathE e))
      | Inr path \<Rightarrow>
          (let o' = ToLower (op_Op op) in
           if o' = ''add'' then add s path (op_Value op)
           else if o' = ''replace'' then replace s path (op_Value op)
           else if o' = ''remove'' then remove s path
           else Inl (Detailed noTarget (Text (''unsupported op '' @ op_Op op)))))"

fun patch_all :: "('s \<Rightarrow> patch_op \<Rightarrow> goerr + 's) \<Rightarrow> 's \<Rightarrow> patch_op list \<Rightarrow> goerr + 's" where
  "patch_all one s [] = Inr s"
| "patch_all one s (op # ops) =
     (case one s op of Inl e \<Rightarrow> Inl (Wrap ''operation'' e) | Inr s' \<Rightarrow> patch_all one s' ops)"

subsection \<open>Invariants of a patch\<close>

lemma patch_inv:
  "(\<And>s p raw s'. I s \<Longrightarrow> leaf s p raw = Inr s' \<Longrightarrow> I s') \<Longrightarrow> I s \<Longrightarrow>
     patch_value pf nt iv leaf s p raw = Inr t \<Longrightarrow> I t"
  "(\<And>s p raw s'. I s \<Longrightarrow> leaf s p raw = Inr s' \<Longrightarrow> I s') \<Longrightarrow> I s \<Longrightarrow>
     patch_members pf nt iv leaf s kvs = Inr t \<Longrightarrow> I t"
proof (induction pf nt iv leaf s p raw and pf nt iv leaf s kvs arbitrary: t and t
    rule: patch_value_patch_members.induct)
  case (1 pf nt iv leaf s p raw)
  show ?case
  proof (cases "Path_Attr p = []")
    case True
    with 1(4) obtain m where m: "unmarshal_map raw = Inr m" "patch_members pf nt iv leaf s (map_entries m) = Inr t"
      by (auto simp: patch_value.simps split: sum.splits)
    show ?thesis by (rule 1(1) [OF True m(1) 1(2) 1(3) m(2)])
  next
    case False
    with 1(4) have "leaf s p raw = Inr t" by (simp add: patch_value.simps)
    with 1(2,3) show ?thesis by blast
  qed
next
  case (2 pf nt iv leaf s)
  then show ?case by simp
next
  case (3 pf nt iv leaf s k v kvs)
  note leaf = 3(5) and s = 3(6) and t = 3(7)
  show ?case
  proof (cases "ParsePath pf k")
    case (Inl e)
    with t have "patch_members pf nt iv leaf s kvs = Inr t" by simp
    from 3(1) [OF Inl leaf s this] show ?thesis .
  next
    case (Inr sub)
    show ?thesis
    proof (cases "patch_value pf nt iv leaf s sub (Some v)")
      case (Inl e)
      with t Inr have e: "errors_Is e nt" "patch_members pf nt iv leaf s kvs = Inr t" by (auto split: if_splits)
      from 3(3) [OF Inr Inl e(1) leaf s e(2)] show ?thesis .
    next
      case (Inr s1)
      from 3(2) [OF \<open>ParsePath pf k = Inr sub\<close> leaf s Inr] have s1: "I s1" .
      have "patch_members pf nt iv leaf s1 kvs = Inr t" using t Inr \<open>ParsePath pf k = Inr sub\<close> by simp
      from 3(4) [OF \<open>ParsePath pf k = Inr sub\<close> Inr leaf s1 this] show ?thesis .
    qed
  qed
qed

text \<open>
  The contract of the three operations of a resource: each keeps a property of the state. Then every
  PATCH request keeps it, whatever objects, paths and operations the client sends.
\<close>

locale patch_resource =
  fixes pf :: "string \<Rightarrow> 'f option" and noTarget invalid :: goerr
    and add_leaf replace_leaf :: "'s \<Rightarrow> 'f Path \<Rightarrow> raw \<Rightarrow> goerr + 's"
    and remove :: "'s \<Rightarrow> 'f Path \<Rightarrow> goerr + 's"
    and I :: "'s \<Rightarrow> bool"
  assumes add_inv: "I s \<Longrightarrow> add_leaf s p raw = Inr s' \<Longrightarrow> I s'"
    and replace_inv: "I s \<Longrightarrow> replace_leaf s p raw = Inr s' \<Longrightarrow> I s'"
    and remove_inv: "I s \<Longrightarrow> remove s p = Inr s' \<Longrightarrow> I s'"
begin

lemma one_inv:
  assumes "I s" "patch_one pf noTarget (patch_value pf noTarget invalid add_leaf)
      (patch_value pf noTarget invalid replace_leaf) remove s op = Inr t"
  shows "I t"
proof -
  from assms(2) obtain path where "patch_value pf noTarget invalid add_leaf s path (op_Value op) = Inr t
     \<or> patch_value pf noTarget invalid replace_leaf s path (op_Value op) = Inr t \<or> remove s path = Inr t"
    by (auto simp: patch_one_def Let_def split: sum.splits if_splits)
  then show ?thesis
  proof (elim disjE)
    assume "patch_value pf noTarget invalid add_leaf s path (op_Value op) = Inr t"
    from patch_inv(1) [where I = I, OF add_inv assms(1) this] show ?thesis .
  next
    assume "patch_value pf noTarget invalid replace_leaf s path (op_Value op) = Inr t"
    from patch_inv(1) [where I = I, OF replace_inv assms(1) this] show ?thesis .
  next
    assume "remove s path = Inr t"
    from remove_inv [OF assms(1) this] show ?thesis .
  qed
qed

lemma all_inv:
  "I s \<Longrightarrow> patch_all (patch_one pf noTarget (patch_value pf noTarget invalid add_leaf)
      (patch_value pf noTarget invalid replace_leaf) remove) s ops = Inr t \<Longrightarrow> I t"
proof (induction ops arbitrary: s)
  case (Cons op ops)
  from Cons.prems(2) obtain s1 where
    "patch_one pf noTarget (patch_value pf noTarget invalid add_leaf)
      (patch_value pf noTarget invalid replace_leaf) remove s op = Inr s1"
    "patch_all (patch_one pf noTarget (patch_value pf noTarget invalid add_leaf)
      (patch_value pf noTarget invalid replace_leaf) remove) s1 ops = Inr t"
    by (auto split: sum.splits)
  with one_inv [OF Cons.prems(1)] Cons.IH show ?case by blast
qed simp

end

end
