(* ===== verification/Scim_Users.thy ===== *)
theory Scim_Users
  imports Scim_Patch
begin

section \<open>SCIM users: resource, mapper and PATCH (\<open>internal/scim/users\<close>)\<close>

text \<open>
  The user resource (\<open>model.go\<close>), its conversion from and to the stored properties (\<open>mapper.go\<close>) and
  the PATCH operations on the properties (\<open>patch.go\<close>). Rendering uses \<open>UUID.String\<close>, SHA-256 and the
  RFC 3339 format of an instant, which are the fields of \<open>render_env\<close>.
\<close>

record scim_name =
  nm_Formatted :: string
  nm_FamilyName :: string
  nm_GivenName :: string

record scim_email =
  em_Value :: string
  em_Type :: string
  em_Primary :: bool

record scim_meta =
  me_ResourceType :: string
  me_Created :: gotime
  me_LastModified :: gotime
  me_Location :: string
  me_Version :: string

record scim_user =
  us_Schemas :: "string list"
  us_ID :: string
  us_ExternalID :: string
  us_UserName :: string
  us_DisplayName :: string
  us_Name :: "scim_name option"
  us_Emails :: "scim_email list"
  us_Active :: "bool option"
  us_Meta :: "scim_meta option"

record stored_user =
  su_EntityID :: uuid
  su_Properties :: "props option"
  su_ExternalSubject :: string
  su_CreatedAt :: gotime
  su_UpdatedAt :: gotime

definition PropertyKeyUserName :: string where "PropertyKeyUserName = ''userName''"
definition PropertyKeyDisplayName :: string where "PropertyKeyDisplayName = ''displayName''"
definition PropertyKeyEmail :: string where "PropertyKeyEmail = ''email''"
definition PropertyKeyActive :: string where "PropertyKeyActive = ''active''"
definition UserSchemaURN :: string where "UserSchemaURN = ''urn:ietf:params:scim:schemas:core:2.0:User''"

lemmas user_keys = PropertyKeyUserName_def PropertyKeyDisplayName_def PropertyKeyEmail_def PropertyKeyActive_def

subsection \<open>Mapper\<close>

definition pickDisplayName :: "scim_user \<Rightarrow> string" where
  "pickDisplayName u =
     (if us_DisplayName u \<noteq> [] then us_DisplayName u
      else case us_Name u of None \<Rightarrow> [] | Some n \<Rightarrow> nm_Formatted n)"

definition pickPrimaryEmail :: "scim_email list \<Rightarrow> string" where
  "pickPrimaryEmail emails =
     (case emails of
        [] \<Rightarrow> []
      | e # _ \<Rightarrow>
          (case find (\<lambda>e. em_Primary e \<and> em_Value e \<noteq> []) emails of
             Some p \<Rightarrow> em_Value p
           | None \<Rightarrow> em_Value e))"

definition derefBoolDefault :: "bool option \<Rightarrow> bool \<Rightarrow> bool" where
  "derefBoolDefault p d = (case p of None \<Rightarrow> d | Some b \<Rightarrow> b)"

definition Users_ToProperties :: "scim_user \<Rightarrow> props" where
  "Users_ToProperties u =
     (let p0 = [(PropertyKeyUserName, JStr (us_UserName u)),
                (PropertyKeyActive, JBool (derefBoolDefault (us_Active u) True))];
          dn = pickDisplayName u;
          p1 = (if dn \<noteq> [] then props_set PropertyKeyDisplayName (JStr dn) p0 else p0);
          email = pickPrimaryEmail (us_Emails u)
      in if email \<noteq> [] then props_set PropertyKeyEmail (JStr email) p1 else p1)"

definition asString :: "json option \<Rightarrow> string" where
  "asString v = (case as_string v of Some s \<Rightarrow> s | None \<Rightarrow> [])"

definition scim_ETag :: "render_env \<Rightarrow> uuid \<Rightarrow> gotime \<Rightarrow> string" where
  "scim_ETag env i t =
     (let h = re_sha256 env (re_uuid env i @ re_time env t)
      in ''W/'' @ [CHR 0x22] @ hex_encode (take 8 h) @ [CHR 0x22])"

definition Users_FromStored :: "render_env \<Rightarrow> stored_user \<Rightarrow> scim_user" where
  "Users_FromStored env s =
     (let props = map_entries (su_Properties s); uid = re_uuid env (su_EntityID s);
          email = asString (props_get props PropertyKeyEmail) in
      \<lparr>us_Schemas = [UserSchemaURN], us_ID = uid, us_ExternalID = su_ExternalSubject s,
       us_UserName = asString (props_get props PropertyKeyUserName),
       us_DisplayName = asString (props_get props PropertyKeyDisplayName),
       us_Name = None,
       us_Emails = (if email \<noteq> [] then [\<lparr>em_Value = email, em_Type = [], em_Primary = True\<rparr>] else []),
       us_Active = as_bool (props_get props PropertyKeyActive),
       us_Meta = Some \<lparr>me_ResourceType = ''User'', me_Created = su_CreatedAt s, me_LastModified = su_UpdatedAt s,
         me_Location = ''/scim/v2/Users/'' @ uid, me_Version = scim_ETag env (su_EntityID s) (su_UpdatedAt s)\<rparr>\<rparr>)"

lemma asString_JStr [simp]: "asString (Some (JStr s)) = s"
  by (simp add: asString_def as_string_def)

lemma Users_ToProperties_get:
  "props_get (Users_ToProperties u) PropertyKeyUserName = Some (JStr (us_UserName u))"
  "props_get (Users_ToProperties u) PropertyKeyActive = Some (JBool (derefBoolDefault (us_Active u) True))"
  "asString (props_get (Users_ToProperties u) PropertyKeyDisplayName) = pickDisplayName u"
  "asString (props_get (Users_ToProperties u) PropertyKeyEmail) = pickPrimaryEmail (us_Emails u)"
  by (auto simp: Users_ToProperties_def user_keys go_simps Let_def asString_def)

subsection \<open>PATCH\<close>

definition noTarget :: goerr where "noTarget = UsersE Users_ErrPatchNoTarget"
definition invalidValue :: goerr where "invalidValue = UsersE Users_ErrPatchInvalidValue"

definition isPrimaryEqTrue :: "'f Expr option \<Rightarrow> bool" where
  "isPrimaryEqTrue e = (case e of
      Some (AtomExpr attr op val) \<Rightarrow> attr = ''primary'' \<and> op = OpEq \<and> val = VBool True
    | _ \<Rightarrow> False)"

text \<open>Decoding of an email and of a list of emails.\<close>

fun decode_email :: "json \<Rightarrow> json_error + scim_email" where
  "decode_email (JObj kvs) =
     (if string_field_ok ''value'' kvs \<and> string_field_ok ''type'' kvs \<and> bool_field_ok ''primary'' kvs
      then Inr \<lparr>em_Value = decode_string_field ''value'' [] kvs, em_Type = decode_string_field ''type'' [] kvs,
                em_Primary = decode_bool_field ''primary'' False kvs\<rparr>
      else Inl JsonTypeMismatch)"
| "decode_email JNull = Inr \<lparr>em_Value = [], em_Type = [], em_Primary = False\<rparr>"
| "decode_email _ = Inl JsonTypeMismatch"

fun decode_each :: "('a \<Rightarrow> json_error + 'b) \<Rightarrow> 'a list \<Rightarrow> json_error + 'b list" where
  "decode_each f [] = Inr []"
| "decode_each f (x # xs) =
     (case f x of Inl e \<Rightarrow> Inl e
      | Inr y \<Rightarrow> (case decode_each f xs of Inl e \<Rightarrow> Inl e | Inr ys \<Rightarrow> Inr (y # ys)))"

fun decode_emails :: "raw \<Rightarrow> json_error + scim_email list" where
  "decode_emails (Some (JArr xs)) = decode_each decode_email xs"
| "decode_emails (Some JNull) = Inr []"
| "decode_emails None = Inl JsonUnexpectedEnd"
| "decode_emails _ = Inl JsonTypeMismatch"

definition decode_one :: "(json \<Rightarrow> json_error + 'a) \<Rightarrow> raw \<Rightarrow> json_error + 'a" where
  "decode_one f raw = (case raw of None \<Rightarrow> Inl JsonUnexpectedEnd | Some j \<Rightarrow> f j)"

definition setEmailsFromValue :: "raw \<Rightarrow> props \<Rightarrow> goerr + props" where
  "setEmailsFromValue raw props =
     (let single =
        (case decode_one decode_email raw of
           Inr e \<Rightarrow> if em_Value e \<noteq> [] then Inr (props_set PropertyKeyEmail (JStr (em_Value e)) props)
                    else Inl (Detailed invalidValue (Text ''emails must be an array or a single object''))
         | Inl _ \<Rightarrow> Inl (Detailed invalidValue (Text ''emails must be an array or a single object'')))
      in case decode_emails raw of
           Inr arr \<Rightarrow>
             if arr \<noteq> [] then
               (let email = pickPrimaryEmail arr in
                if email \<noteq> [] then Inr (props_set PropertyKeyEmail (JStr email) props)
                else Inl (Detailed invalidValue (Text ''no usable email in array'')))
             else single
         | Inl _ \<Rightarrow> single)"

definition users_add_leaf :: "props \<Rightarrow> 'f Path \<Rightarrow> raw \<Rightarrow> goerr + props" where
  "users_add_leaf props p raw =
     (if Path_Filter p \<noteq> None \<or> Path_SubAttr p \<noteq> [] then Inl noTarget
      else if Path_Attr p = ''displayname'' then setStringProp invalidValue PropertyKeyDisplayName raw props
      else if Path_Attr p = ''active'' then setBoolProp invalidValue PropertyKeyActive raw props
      else if Path_Attr p = ''emails'' then setEmailsFromValue raw props
      else Inl noTarget)"

definition users_replace_leaf :: "props \<Rightarrow> 'f Path \<Rightarrow> raw \<Rightarrow> goerr + props" where
  "users_replace_leaf props p raw =
     (if Path_Attr p = ''emails'' \<and> Path_SubAttr p = ''value'' \<and> isPrimaryEqTrue (Path_Filter p)
      then setStringProp invalidValue PropertyKeyEmail raw props
      else if Path_Filter p \<noteq> None \<or> Path_SubAttr p \<noteq> [] then Inl noTarget
      else if Path_Attr p = ''displayname'' then setStringProp invalidValue PropertyKeyDisplayName raw props
      else if Path_Attr p = ''username'' then setStringProp invalidValue PropertyKeyUserName raw props
      else if Path_Attr p = ''active'' then setBoolProp invalidValue PropertyKeyActive raw props
      else if Path_Attr p = ''emails'' then setEmailsFromValue raw props
      else Inl noTarget)"

definition Users_applyRemove :: "props \<Rightarrow> 'f Path \<Rightarrow> goerr + props" where
  "Users_applyRemove props p =
     (if Path_Attr p = ''emails'' \<and> Path_SubAttr p = [] \<and> isPrimaryEqTrue (Path_Filter p)
      then Inr (props_delete PropertyKeyEmail props)
      else Inl noTarget)"

definition Users_applyAdd :: "(string \<Rightarrow> 'f option) \<Rightarrow> props \<Rightarrow> 'f Path \<Rightarrow> raw \<Rightarrow> goerr + props" where
  "Users_applyAdd pf = patch_value pf noTarget invalidValue users_add_leaf"

definition Users_applyReplace :: "(string \<Rightarrow> 'f option) \<Rightarrow> props \<Rightarrow> 'f Path \<Rightarrow> raw \<Rightarrow> goerr + props" where
  "Users_applyReplace pf = patch_value pf noTarget invalidValue users_replace_leaf"

definition Users_applyOne :: "(string \<Rightarrow> 'f option) \<Rightarrow> props \<Rightarrow> patch_op \<Rightarrow> goerr + props" where
  "Users_applyOne pf = patch_one pf noTarget (Users_applyAdd pf) (Users_applyReplace pf) Users_applyRemove"

text \<open>\<open>ApplyPatch\<close> works on a copy of the map, which a nil map turns into an empty one.\<close>

definition Users_ApplyPatch :: "(string \<Rightarrow> 'f option) \<Rightarrow> props option \<Rightarrow> patch_op list \<Rightarrow> goerr + props" where
  "Users_ApplyPatch pf inp ops = patch_all (Users_applyOne pf) (map_entries inp) ops"

subsection \<open>The shape of a user's properties\<close>

text \<open>
  What the seeded schema of the type User demands of a document, as far as PATCH can affect it: the
  four keys have their types, \<open>userName\<close> and \<open>active\<close> are present, no other key appears.
\<close>

definition user_shape :: "props \<Rightarrow> bool" where
  "user_shape p \<longleftrightarrow> as_string (props_get p PropertyKeyUserName) \<noteq> None
     \<and> as_bool (props_get p PropertyKeyActive) \<noteq> None
     \<and> (\<forall>k v. props_get p k = Some v \<longrightarrow> k \<in> {PropertyKeyUserName, PropertyKeyDisplayName, PropertyKeyEmail, PropertyKeyActive})
     \<and> (props_get p PropertyKeyDisplayName \<noteq> None \<longrightarrow> as_string (props_get p PropertyKeyDisplayName) \<noteq> None)
     \<and> (props_get p PropertyKeyEmail \<noteq> None \<longrightarrow> as_string (props_get p PropertyKeyEmail) \<noteq> None)"

lemma key_neq:
  "PropertyKeyUserName \<noteq> PropertyKeyDisplayName" "PropertyKeyUserName \<noteq> PropertyKeyEmail"
  "PropertyKeyUserName \<noteq> PropertyKeyActive" "PropertyKeyDisplayName \<noteq> PropertyKeyEmail"
  "PropertyKeyDisplayName \<noteq> PropertyKeyActive" "PropertyKeyEmail \<noteq> PropertyKeyActive"
  by (simp_all add: user_keys)

lemma user_shape_set_string:
  "user_shape p \<Longrightarrow> k \<in> {PropertyKeyUserName, PropertyKeyDisplayName, PropertyKeyEmail} \<Longrightarrow> user_shape (props_set k (JStr s) p)"
  by (auto simp: user_shape_def go_simps key_neq key_neq [symmetric])

lemma user_shape_set_bool: "user_shape p \<Longrightarrow> user_shape (props_set PropertyKeyActive (JBool b) p)"
  by (auto simp: user_shape_def go_simps key_neq key_neq [symmetric])

lemma user_shape_delete: "user_shape p \<Longrightarrow> user_shape (props_delete PropertyKeyEmail p)"
  by (auto simp: user_shape_def go_simps key_neq key_neq [symmetric])

lemma setStringProp_shape:
  "setStringProp iv k raw p = Inr p' \<Longrightarrow> user_shape p \<Longrightarrow>
     k \<in> {PropertyKeyUserName, PropertyKeyDisplayName, PropertyKeyEmail} \<Longrightarrow> user_shape p'"
  by (auto simp: setStringProp_def user_shape_set_string split: sum.splits)

lemma setBoolProp_shape: "setBoolProp iv PropertyKeyActive raw p = Inr p' \<Longrightarrow> user_shape p \<Longrightarrow> user_shape p'"
  by (auto simp: setBoolProp_def user_shape_set_bool split: sum.splits)

lemma setEmails_shape: "setEmailsFromValue raw p = Inr p' \<Longrightarrow> user_shape p \<Longrightarrow> user_shape p'"
  by (auto simp: setEmailsFromValue_def Let_def user_shape_set_string split: sum.splits if_splits)

interpretation user_patch: patch_resource pf noTarget invalidValue users_add_leaf users_replace_leaf
    Users_applyRemove user_shape for pf :: "string \<Rightarrow> 'f option"
proof unfold_locales
  fix s s' :: props and p :: "'f Path" and raw
  show "user_shape s \<Longrightarrow> users_add_leaf s p raw = Inr s' \<Longrightarrow> user_shape s'"
    by (auto simp: users_add_leaf_def split: if_splits
        dest: setStringProp_shape setBoolProp_shape setEmails_shape)
  show "user_shape s \<Longrightarrow> users_replace_leaf s p raw = Inr s' \<Longrightarrow> user_shape s'"
    by (auto simp: users_replace_leaf_def split: if_splits
        dest: setStringProp_shape setBoolProp_shape setEmails_shape)
  show "user_shape s \<Longrightarrow> Users_applyRemove s p = Inr s' \<Longrightarrow> user_shape s'"
    by (auto simp: Users_applyRemove_def user_shape_delete split: if_splits)
qed

lemma Users_ToProperties_shape: "user_shape (Users_ToProperties u)"
  by (auto simp: user_shape_def Users_ToProperties_def go_simps Let_def key_neq key_neq [symmetric] split: if_splits)

lemma Users_ApplyPatch_shape:
  "user_shape (map_entries inp) \<Longrightarrow> Users_ApplyPatch pf inp ops = Inr out \<Longrightarrow> user_shape out"
  unfolding Users_ApplyPatch_def Users_applyOne_def Users_applyAdd_def Users_applyReplace_def
  by (rule user_patch.all_inv)

text \<open>A patch keeps the keys of the document distinct.\<close>

lemma setEmails_distinct:
  "setEmailsFromValue raw p = Inr p' \<Longrightarrow> distinct (map fst p) \<Longrightarrow> distinct (map fst p')"
  by (auto simp: setEmailsFromValue_def Let_def distinct_props_set split: sum.splits if_splits)

interpretation user_keys_patch: patch_resource pf noTarget invalidValue users_add_leaf users_replace_leaf
    Users_applyRemove "\<lambda>p. distinct (map fst p)" for pf :: "string \<Rightarrow> 'f option"
proof unfold_locales
  fix s s' :: props and p :: "'f Path" and raw
  show "distinct (map fst s) \<Longrightarrow> users_add_leaf s p raw = Inr s' \<Longrightarrow> distinct (map fst s')"
    by (auto simp: users_add_leaf_def split: if_splits dest: set_prop_distinct setEmails_distinct)
  show "distinct (map fst s) \<Longrightarrow> users_replace_leaf s p raw = Inr s' \<Longrightarrow> distinct (map fst s')"
    by (auto simp: users_replace_leaf_def split: if_splits dest: set_prop_distinct setEmails_distinct)
  show "distinct (map fst s) \<Longrightarrow> Users_applyRemove s p = Inr s' \<Longrightarrow> distinct (map fst s')"
    by (auto simp: Users_applyRemove_def distinct_props_delete split: if_splits)
qed

lemma Users_ApplyPatch_distinct:
  "distinct (map fst (map_entries inp)) \<Longrightarrow> Users_ApplyPatch pf inp ops = Inr out \<Longrightarrow> distinct (map fst out)"
  unfolding Users_ApplyPatch_def Users_applyOne_def Users_applyAdd_def Users_applyReplace_def
  by (rule user_keys_patch.all_inv)

lemma Users_ToProperties_distinct: "distinct (map fst (Users_ToProperties u))"
  unfolding Users_ToProperties_def Let_def
  by (auto simp: user_keys intro!: distinct_props_set)

subsection \<open>Properties\<close>

text \<open>
  Storing an inbound user and rendering it back preserves what OAD keeps of it: the user name,
  the display name with its fallback to \<open>name.formatted\<close>, the primary email (or else the first one)
  as the only and primary email, and the active flag with its default true; the id, the external id
  and the version come from the row.
\<close>

theorem user_store_render:
  "(let u' = Users_FromStored env \<lparr>su_EntityID = i, su_Properties = Some (Users_ToProperties u),
        su_ExternalSubject = sub, su_CreatedAt = t0, su_UpdatedAt = t1\<rparr>
    in us_UserName u' = us_UserName u \<and> us_DisplayName u' = pickDisplayName u
       \<and> map em_Value (us_Emails u') = (if pickPrimaryEmail (us_Emails u) = [] then [] else [pickPrimaryEmail (us_Emails u)])
       \<and> list_all em_Primary (us_Emails u') \<and> us_Active u' = Some (derefBoolDefault (us_Active u) True)
       \<and> us_ID u' = re_uuid env i \<and> us_ExternalID u' = sub
       \<and> map_option me_Version (us_Meta u') = Some (scim_ETag env i t1))"
  by (simp add: Users_FromStored_def map_entries_def Users_ToProperties_get Let_def as_bool_def)

text \<open>
  C21. A PATCH request of any operations keeps the shape the User type demands: \<open>userName\<close> and
  \<open>active\<close> stay present with their types, and no key outside the schema appears, whatever objects,
  nested members and paths the client sends; a stored inbound user has this shape.
\<close>

theorem user_patch_keeps_shape:
  assumes "user_shape (map_entries inp)" and "Users_ApplyPatch pf inp ops = Inr out"
  shows "user_shape (Users_ToProperties u) \<and> user_shape out"
  using Users_ToProperties_shape Users_ApplyPatch_shape [OF assms] by blast

theorem user_patch_keeps_shape_witness:
  "(let u = \<lparr>us_Schemas = [], us_ID = [], us_ExternalID = ''x'', us_UserName = ''ann'', us_DisplayName = [],
         us_Name = None, us_Emails = [], us_Active = None, us_Meta = None\<rparr>;
        ops = [\<lparr>op_Op = ''Replace'', op_Path = ''active'', op_Value = Some (JBool False)\<rparr>];
        out = [(PropertyKeyUserName, JStr ''ann''), (PropertyKeyActive, JBool False)] in
    Users_ApplyPatch (\<lambda>_. None :: nat option) (Some (Users_ToProperties u)) ops = Inr out \<and> user_shape out)"
proof -
  let ?u = "\<lparr>us_Schemas = [], us_ID = [], us_ExternalID = ''x'', us_UserName = ''ann'', us_DisplayName = [],
         us_Name = None, us_Emails = [], us_Active = None, us_Meta = None\<rparr> :: scim_user"
  let ?ops = "[\<lparr>op_Op = ''Replace'', op_Path = ''active'', op_Value = Some (JBool False)\<rparr>]"
  let ?out = "[(PropertyKeyUserName, JStr ''ann''), (PropertyKeyActive, JBool False)]"
  have low: "ToLower ''Replace'' = ''replace''" "ToLower ''active'' = ''active''" by code_simp+
  have run: "Users_ApplyPatch (\<lambda>_. None :: nat option) (Some (Users_ToProperties ?u)) ?ops = Inr ?out"
    by (simp add: Users_ApplyPatch_def Users_applyOne_def patch_one_def ParsePath_word ident_word_def isIdentChar_def
        low Users_applyReplace_def patch_value.simps users_replace_leaf_def setBoolProp_def
        Users_ToProperties_def Let_def pickDisplayName_def pickPrimaryEmail_def derefBoolDefault_def map_entries_def
        user_keys props_set_def)
  have "user_shape (map_entries (Some (Users_ToProperties ?u)))"
    by (simp add: map_entries_def Users_ToProperties_shape)
  from user_patch_keeps_shape [OF this run] run show ?thesis by (simp add: Let_def)
qed

end
