(* ===== verification/Scim_Groups.thy ===== *)
theory Scim_Groups
  imports Scim_Users
begin

section \<open>SCIM groups: resource, mapper and PATCH (\<open>internal/scim/groups\<close>)\<close>

text \<open>
  The group resource, its stored form and its PATCH operations, which work on the properties and on
  the ordered list of member identifiers. \<open>uuid.Parse\<close> is the parameter \<open>up\<close>.
\<close>

record group_member =
  gm_Value :: string
  gm_Ref :: string
  gm_Type :: string
  gm_Display :: string

record scim_group =
  gr_Schemas :: "string list"
  gr_ID :: string
  gr_ExternalID :: string
  gr_DisplayName :: string
  gr_Members :: "group_member list"
  gr_Meta :: "scim_meta option"

record member_entity =
  mb_EntityID :: uuid
  mb_Type :: string
  mb_Display :: string

record stored_group =
  sg_EntityID :: uuid
  sg_Properties :: "props option"
  sg_ExternalSubject :: string
  sg_Members :: "member_entity list"
  sg_CreatedAt :: gotime
  sg_UpdatedAt :: gotime

record patch_state =
  ps_Properties :: props
  ps_MemberIDs :: "uuid list"

definition GroupSchemaURN :: string where "GroupSchemaURN = ''urn:ietf:params:scim:schemas:core:2.0:Group''"

subsection \<open>Mapper\<close>

definition Groups_ToProperties :: "scim_group \<Rightarrow> props" where
  "Groups_ToProperties g = [(PropertyKeyDisplayName, JStr (gr_DisplayName g))]"

definition memberRef :: "render_env \<Rightarrow> member_entity \<Rightarrow> string" where
  "memberRef env m =
     (let endpoint = (if mb_Type m = ''Group'' then ''/scim/v2/Groups/'' else ''/scim/v2/Users/'')
      in endpoint @ re_uuid env (mb_EntityID m))"

definition Groups_FromStored :: "render_env \<Rightarrow> stored_group \<Rightarrow> scim_group" where
  "Groups_FromStored env s =
     (let gid = re_uuid env (sg_EntityID s) in
      \<lparr>gr_Schemas = [GroupSchemaURN], gr_ID = gid, gr_ExternalID = sg_ExternalSubject s,
       gr_DisplayName = asString (props_get (map_entries (sg_Properties s)) PropertyKeyDisplayName),
       gr_Members = map (\<lambda>m. \<lparr>gm_Value = re_uuid env (mb_EntityID m), gm_Ref = memberRef env m,
                               gm_Type = mb_Type m, gm_Display = mb_Display m\<rparr>) (sg_Members s),
       gr_Meta = Some \<lparr>me_ResourceType = ''Group'', me_Created = sg_CreatedAt s, me_LastModified = sg_UpdatedAt s,
         me_Location = ''/scim/v2/Groups/'' @ gid, me_Version = scim_ETag env (sg_EntityID s) (sg_UpdatedAt s)\<rparr>\<rparr>)"

subsection \<open>PATCH\<close>

definition Groups_noTarget :: goerr where "Groups_noTarget = GroupsE Groups_ErrPatchNoTarget"
definition Groups_invalidValue :: goerr where "Groups_invalidValue = GroupsE Groups_ErrPatchInvalidValue"

fun decode_member :: "json \<Rightarrow> json_error + group_member" where
  "decode_member (JObj kvs) =
     (if string_field_ok ''value'' kvs \<and> string_field_ok ''$ref'' kvs \<and> string_field_ok ''type'' kvs
         \<and> string_field_ok ''display'' kvs
      then Inr \<lparr>gm_Value = decode_string_field ''value'' [] kvs, gm_Ref = decode_string_field ''$ref'' [] kvs,
                gm_Type = decode_string_field ''type'' [] kvs, gm_Display = decode_string_field ''display'' [] kvs\<rparr>
      else Inl JsonTypeMismatch)"
| "decode_member JNull = Inr \<lparr>gm_Value = [], gm_Ref = [], gm_Type = [], gm_Display = []\<rparr>"
| "decode_member _ = Inl JsonTypeMismatch"

fun decode_members_array :: "raw \<Rightarrow> json_error + group_member list" where
  "decode_members_array (Some (JArr xs)) = decode_each decode_member xs"
| "decode_members_array (Some JNull) = Inr []"
| "decode_members_array None = Inl JsonUnexpectedEnd"
| "decode_members_array _ = Inl JsonTypeMismatch"

definition not_a_uuid :: goerr where
  "not_a_uuid = Detailed Groups_invalidValue (Text ''member value is not a UUID'')"

fun membersToUUIDs :: "(string \<Rightarrow> uuid option) \<Rightarrow> group_member list \<Rightarrow> goerr + uuid list" where
  "membersToUUIDs up [] = Inr []"
| "membersToUUIDs up (m # ms) =
     (if gm_Value m = [] then Inl (Detailed Groups_invalidValue (Text ''member.value is required''))
      else case up (gm_Value m) of
        None \<Rightarrow> Inl not_a_uuid
      | Some i \<Rightarrow> (case membersToUUIDs up ms of Inl e \<Rightarrow> Inl e | Inr is \<Rightarrow> Inr (i # is)))"

definition decodeMembersValue :: "(string \<Rightarrow> uuid option) \<Rightarrow> raw \<Rightarrow> goerr + uuid list" where
  "decodeMembersValue up raw =
     (if raw = None then Inl (Detailed Groups_invalidValue (Text ''members value is required''))
      else case decode_members_array raw of
        Inr arr \<Rightarrow> membersToUUIDs up arr
      | Inl _ \<Rightarrow>
          (case decode_one decode_member raw of
             Inr single \<Rightarrow>
               if gm_Value single \<noteq> [] then (case up (gm_Value single) of None \<Rightarrow> Inl not_a_uuid | Some i \<Rightarrow> Inr [i])
               else Inl (Detailed Groups_invalidValue (Text ''members must be a Member object or an array of Member objects''))
           | Inl _ \<Rightarrow> Inl (Detailed Groups_invalidValue (Text ''members must be a Member object or an array of Member objects''))))"

text \<open>The loops of \<open>mergeMembers\<close> and \<open>dedupMembers\<close>; the set \<open>seen\<close> holds the members of \<open>out\<close>.\<close>

fun append_new :: "uuid list \<Rightarrow> uuid list \<Rightarrow> uuid list" where
  "append_new out [] = out"
| "append_new out (i # is) = (if i \<in> set out then append_new out is else append_new (out @ [i]) is)"

definition mergeMembers :: "uuid list \<Rightarrow> uuid list \<Rightarrow> uuid list" where
  "mergeMembers base toAdd = append_new base toAdd"

definition dedupMembers :: "uuid list \<Rightarrow> uuid list" where
  "dedupMembers ids = append_new [] ids"

fun remove_loop :: "bool \<Rightarrow> uuid \<Rightarrow> uuid list \<Rightarrow> uuid list" where
  "remove_loop dropped target [] = []"
| "remove_loop dropped target (i # is) =
     (if \<not> dropped \<and> i = target then remove_loop True target is else i # remove_loop dropped target is)"

definition removeMember :: "uuid list \<Rightarrow> uuid \<Rightarrow> uuid list" where
  "removeMember ids target = remove_loop False target ids"

definition memberValueFilter :: "(string \<Rightarrow> uuid option) \<Rightarrow> 'f Expr \<Rightarrow> uuid option" where
  "memberValueFilter up e =
     (case e of
        AtomExpr attr op val \<Rightarrow>
          if attr \<noteq> ''value'' \<or> op \<noteq> OpEq then None
          else (case val of VString s \<Rightarrow> up s | _ \<Rightarrow> None)
      | LogicExpr op l r \<Rightarrow> None)"

definition set_display :: "raw \<Rightarrow> patch_state \<Rightarrow> goerr + patch_state" where
  "set_display raw s =
     (case setStringProp Groups_invalidValue PropertyKeyDisplayName raw (ps_Properties s) of
        Inl e \<Rightarrow> Inl e | Inr p \<Rightarrow> Inr (s\<lparr>ps_Properties := p\<rparr>))"

definition groups_add_leaf :: "(string \<Rightarrow> uuid option) \<Rightarrow> patch_state \<Rightarrow> 'f Path \<Rightarrow> raw \<Rightarrow> goerr + patch_state" where
  "groups_add_leaf up s p raw =
     (if Path_Filter p \<noteq> None \<or> Path_SubAttr p \<noteq> [] then Inl Groups_noTarget
      else if Path_Attr p = ''displayname'' then set_display raw s
      else if Path_Attr p = ''members'' then
        (case decodeMembersValue up raw of
           Inl e \<Rightarrow> Inl e
         | Inr toAdd \<Rightarrow> Inr (s\<lparr>ps_MemberIDs := mergeMembers (ps_MemberIDs s) toAdd\<rparr>))
      else Inl Groups_noTarget)"

definition groups_replace_leaf :: "(string \<Rightarrow> uuid option) \<Rightarrow> patch_state \<Rightarrow> 'f Path \<Rightarrow> raw \<Rightarrow> goerr + patch_state" where
  "groups_replace_leaf up s p raw =
     (if Path_Filter p \<noteq> None \<or> Path_SubAttr p \<noteq> [] then Inl Groups_noTarget
      else if Path_Attr p = ''displayname'' then set_display raw s
      else if Path_Attr p = ''members'' then
        (case decodeMembersValue up raw of
           Inl e \<Rightarrow> Inl e
         | Inr new \<Rightarrow> Inr (s\<lparr>ps_MemberIDs := dedupMembers new\<rparr>))
      else Inl Groups_noTarget)"

definition Groups_applyRemove :: "(string \<Rightarrow> uuid option) \<Rightarrow> patch_state \<Rightarrow> 'f Path \<Rightarrow> goerr + patch_state" where
  "Groups_applyRemove up s p =
     (if Path_Attr p \<noteq> ''members'' \<or> Path_SubAttr p \<noteq> [] then Inl Groups_noTarget
      else case Path_Filter p of
        None \<Rightarrow> Inr (s\<lparr>ps_MemberIDs := []\<rparr>)
      | Some e \<Rightarrow>
          (case memberValueFilter up e of
             None \<Rightarrow> Inl Groups_noTarget
           | Some target \<Rightarrow> Inr (s\<lparr>ps_MemberIDs := removeMember (ps_MemberIDs s) target\<rparr>)))"

definition Groups_applyAdd ::
  "(string \<Rightarrow> 'f option) \<Rightarrow> (string \<Rightarrow> uuid option) \<Rightarrow> patch_state \<Rightarrow> 'f Path \<Rightarrow> raw \<Rightarrow> goerr + patch_state" where
  "Groups_applyAdd pf up = patch_value pf Groups_noTarget Groups_invalidValue (groups_add_leaf up)"

definition Groups_applyReplace ::
  "(string \<Rightarrow> 'f option) \<Rightarrow> (string \<Rightarrow> uuid option) \<Rightarrow> patch_state \<Rightarrow> 'f Path \<Rightarrow> raw \<Rightarrow> goerr + patch_state" where
  "Groups_applyReplace pf up = patch_value pf Groups_noTarget Groups_invalidValue (groups_replace_leaf up)"

definition Groups_applyOne ::
  "(string \<Rightarrow> 'f option) \<Rightarrow> (string \<Rightarrow> uuid option) \<Rightarrow> patch_state \<Rightarrow> patch_op \<Rightarrow> goerr + patch_state" where
  "Groups_applyOne pf up =
     patch_one pf Groups_noTarget (Groups_applyAdd pf up) (Groups_applyReplace pf up) (Groups_applyRemove up)"

definition Groups_ApplyPatch ::
  "(string \<Rightarrow> 'f option) \<Rightarrow> (string \<Rightarrow> uuid option) \<Rightarrow> props option \<Rightarrow> uuid list \<Rightarrow> patch_op list \<Rightarrow> goerr + patch_state" where
  "Groups_ApplyPatch pf up inp ids ops =
     patch_all (Groups_applyOne pf up) \<lparr>ps_Properties = map_entries inp, ps_MemberIDs = ids\<rparr> ops"

subsection \<open>Member lists\<close>

lemma append_new_set: "set (append_new out is) = set out \<union> set is"
  by (induction out "is" rule: append_new.induct) auto

lemma append_new_distinct: "distinct out \<Longrightarrow> distinct (append_new out is)"
  by (induction out "is" rule: append_new.induct) auto

lemma append_new_prefix: "\<exists>new. append_new out is = out @ new"
  by (induction out "is" rule: append_new.induct) auto

lemma remove_loop_done: "remove_loop True target is = is"
  by (induction "is") auto

lemma removeMember_remove1: "removeMember ids target = remove1 target ids"
  unfolding removeMember_def by (induction ids) (auto simp: remove_loop_done)

text \<open>What PATCH keeps: no member twice, no property twice, \<open>displayName\<close> a string.\<close>

definition group_patch_ok :: "patch_state \<Rightarrow> bool" where
  "group_patch_ok s \<longleftrightarrow> distinct (ps_MemberIDs s) \<and> distinct (map fst (ps_Properties s))
     \<and> (\<exists>t. props_get (ps_Properties s) PropertyKeyDisplayName = Some (JStr t))"

lemma set_display_ok: "set_display raw s = Inr s' \<Longrightarrow> group_patch_ok s \<Longrightarrow> group_patch_ok s'"
  by (auto simp: set_display_def group_patch_ok_def setStringProp_def go_simps distinct_props_set split: sum.splits)

interpretation group_patch: patch_resource pf Groups_noTarget Groups_invalidValue "groups_add_leaf up"
    "groups_replace_leaf up" "Groups_applyRemove up" group_patch_ok
    for pf :: "string \<Rightarrow> 'f option" and up :: "string \<Rightarrow> uuid option"
proof unfold_locales
  fix s s' :: patch_state and p :: "'f Path" and raw
  show "group_patch_ok s \<Longrightarrow> groups_add_leaf up s p raw = Inr s' \<Longrightarrow> group_patch_ok s'"
    by (auto simp: groups_add_leaf_def mergeMembers_def group_patch_ok_def append_new_distinct
        split: if_splits sum.splits dest: set_display_ok [unfolded group_patch_ok_def])
  show "group_patch_ok s \<Longrightarrow> groups_replace_leaf up s p raw = Inr s' \<Longrightarrow> group_patch_ok s'"
    by (auto simp: groups_replace_leaf_def dedupMembers_def group_patch_ok_def append_new_distinct
        split: if_splits sum.splits dest: set_display_ok [unfolded group_patch_ok_def])
  show "group_patch_ok s \<Longrightarrow> Groups_applyRemove up s p = Inr s' \<Longrightarrow> group_patch_ok s'"
    by (auto simp: Groups_applyRemove_def group_patch_ok_def removeMember_remove1
        split: if_splits option.splits)
qed

lemma Groups_ApplyPatch_ok:
  "Groups_ApplyPatch pf up inp ids ops = Inr out \<Longrightarrow>
   group_patch_ok \<lparr>ps_Properties = map_entries inp, ps_MemberIDs = ids\<rparr> \<Longrightarrow> group_patch_ok out"
  unfolding Groups_ApplyPatch_def Groups_applyOne_def Groups_applyAdd_def Groups_applyReplace_def
  by (rule group_patch.all_inv)

subsection \<open>Properties\<close>

text \<open>
  The member operations of a group PATCH mean set operations in order: adding is union and keeps the
  present members in front, replacing takes the new members without repetition, removing by filter
  takes out the one member. Whatever operations a request lists, a patched group has pairwise
  distinct members and still has its display name as a string.
\<close>

theorem group_patch_members:
  assumes "Groups_ApplyPatch pf up inp ids ops = Inr out" "distinct ids" "distinct (map fst (map_entries inp))"
    and "props_get (map_entries inp) PropertyKeyDisplayName = Some (JStr name)"
  shows "set (mergeMembers ids new) = set ids \<union> set new \<and> (\<exists>ext. mergeMembers ids new = ids @ ext)
     \<and> set (dedupMembers new) = set new \<and> distinct (dedupMembers new)
     \<and> set (removeMember ids target) = set ids - {target}
     \<and> distinct (ps_MemberIDs out) \<and> (\<exists>t. props_get (ps_Properties out) PropertyKeyDisplayName = Some (JStr t))"
proof -
  have "group_patch_ok out"
    using Groups_ApplyPatch_ok [OF assms(1)] assms(2-4) by (simp add: group_patch_ok_def)
  then show ?thesis
    using assms(2) by (simp add: mergeMembers_def dedupMembers_def append_new_set append_new_prefix append_new_distinct
        removeMember_remove1 set_remove1_distinct group_patch_ok_def)
qed

definition sample_up :: "string \<Rightarrow> uuid option" where
  "sample_up s = (if s = ''u7'' then Some 7 else None)"

definition add_member :: "patch_op list" where
  "add_member = [\<lparr>op_Op = ''add'', op_Path = ''members'', op_Value = Some (JObj [(''value'', JStr ''u7'')])\<rparr>]"

lemma add_member_run:
  "Groups_ApplyPatch pf sample_up (Some [(''displayName'', JStr ''x'')]) [5] add_member
     = Inr \<lparr>ps_Properties = [(''displayName'', JStr ''x'')], ps_MemberIDs = [5, 7]\<rparr>"
proof -
  have low: "ToLower ''add'' = ''add''" "ToLower ''members'' = ''members''" by code_simp+
  have names: "field_matches ''value'' ''value''" "\<not> field_matches ''$ref'' ''value''"
    "\<not> field_matches ''type'' ''value''" "\<not> field_matches ''display'' ''value''" by code_simp+
  show ?thesis
    by (simp add: add_member_def Groups_ApplyPatch_def Groups_applyOne_def patch_one_def ParsePath_word ident_word_def
        isIdentChar_def low Groups_applyAdd_def patch_value.simps groups_add_leaf_def decodeMembersValue_def
        decode_one_def string_field_ok_def names sample_up_def mergeMembers_def map_entries_def)
qed

theorem group_patch_members_witness:
  "set (mergeMembers [5] [7]) = {5, 7} \<and> distinct (ps_MemberIDs \<lparr>ps_Properties = [(''displayName'', JStr ''x'')], ps_MemberIDs = [5, 7]\<rparr>)
     \<and> Groups_ApplyPatch (\<lambda>_. None :: nat option) sample_up (Some [(''displayName'', JStr ''x'')]) [5] add_member
     = Inr \<lparr>ps_Properties = [(''displayName'', JStr ''x'')], ps_MemberIDs = [5, 7]\<rparr>"
proof -
  have h: "distinct [5 :: uuid]" "distinct (map fst (map_entries (Some [(''displayName'', JStr ''x'')])))"
    "props_get (map_entries (Some [(''displayName'', JStr ''x'')])) PropertyKeyDisplayName = Some (JStr ''x'')"
    by (simp_all add: map_entries_def user_keys go_simps)
  from group_patch_members [OF add_member_run [of "\<lambda>_. None :: nat option"] h, of "[7]" 9] add_member_run show ?thesis by auto
qed

end
