(* ===== verification/Pg_Db.thy ===== *)
theory Pg_Db
  imports Go_Json
begin

section \<open>The database (\<open>migrations/\<close>, \<open>internal/db\<close>)\<close>

text \<open>
  The PostgreSQL schema of \<open>migrations/000001_initial_schema.up.sql\<close>: a table is a list of row
  records, in the order a scan returns them. The statements the repositories send are functions on
  the tables that check what the schema declares: unique keys (23505), foreign keys (23503), the
  triggers on \<open>system_id\<close> (P0001), row level security (42501 for a row that may not be written), and
  the cascades. What the program does not decide is the \<open>world\<close>: which statement fails and how
  (a lost connection, a value too long for its column), the random identifiers, the clock, whether
  the role bypasses row level security, what an unset setting reads as, and how a nested JSON value
  is written as text.
\<close>

subsection \<open>Tables\<close>

record type_row =
  ty_id :: uuid
  ty_name :: string
  ty_allowed_properties :: json
  ty_allowed_relations :: json
  ty_scope :: string
  ty_builtin :: bool
  ty_created :: gotime
  ty_updated :: gotime

record entity_row =
  en_id :: uuid
  en_type_id :: uuid
  en_external_id :: string
  en_properties :: json
  en_system_id :: "uuid option"
  en_builtin :: bool
  en_created :: gotime
  en_updated :: gotime

record identity_row =
  ei_id :: uuid
  ei_entity_id :: uuid
  ei_provider :: string
  ei_subject :: string
  ei_created :: gotime
  ei_updated :: gotime

record relation_row =
  rl_id :: uuid
  rl_subject :: uuid
  rl_type :: string
  rl_target :: uuid
  rl_system :: "uuid option"
  rl_created :: gotime

record overlay_row =
  ov_id :: uuid
  ov_entity :: uuid
  ov_system :: uuid
  ov_properties :: json
  ov_created :: gotime
  ov_updated :: gotime

record schema_row =
  sc_id :: uuid
  sc_system :: uuid
  sc_type :: uuid
  sc_allowed :: json
  sc_created :: gotime
  sc_updated :: gotime

record webhook_row =
  wh_id :: uuid
  wh_system :: uuid
  wh_url :: string
  wh_secret :: string
  wh_active :: bool
  wh_created :: gotime
  wh_updated :: gotime

record audit_row =
  au_id :: uuid
  au_actor :: string
  au_operation :: string
  au_resource_type :: string
  au_resource_id :: uuid
  au_before :: raw
  au_after :: raw
  au_system :: "uuid option"
  au_time :: gotime

record delivery_row =
  dl_id :: uuid
  dl_subscription :: uuid
  dl_audit :: uuid
  dl_status :: string
  dl_attempts :: int
  dl_next_retry :: "gotime option"
  dl_response :: "int option"
  dl_created :: gotime

record retrieval_row =
  rt_caller :: string
  rt_query :: json
  rt_refs :: json
  rt_system :: "uuid option"
  rt_time :: gotime

record database =
  db_types :: "type_row list"
  db_entities :: "entity_row list"
  db_identities :: "identity_row list"
  db_relations :: "relation_row list"
  db_overlays :: "overlay_row list"
  db_schemas :: "schema_row list"
  db_webhooks :: "webhook_row list"
  db_audit :: "audit_row list"
  db_deliveries :: "delivery_row list"
  db_retrievals :: "retrieval_row list"

subsection \<open>Sessions, statements and transactions\<close>

text \<open>
  The setting \<open>app.current_system_id\<close>: null, empty, or the text of a system's identifier (which is
  determined by the identifier and determines it).
\<close>

datatype setting = SetNull | SetEmpty | SetSystem uuid

record world =
  w_fail :: "nat \<Rightarrow> dberr option"
  w_uuid :: "nat \<Rightarrow> uuid"
  w_time :: "nat \<Rightarrow> gotime"
  w_unset :: "nat \<Rightarrow> setting"
  w_bypass_rls :: bool
  w_render :: "json \<Rightarrow> string"
  w_indoubt :: "nat \<Rightarrow> bool"

record query_ctx =
  q_setting :: setting
  q_now :: gotime
  q_uuid :: uuid
  q_bypass :: bool
  q_render :: "json \<Rightarrow> string"

record transaction =
  tx_snapshot :: database
  tx_now :: gotime
  tx_setting :: setting
  tx_aborted :: bool

record sess =
  s_db :: database
  s_n :: nat
  s_tx :: "transaction option"

type_synonym 'a db = "world \<Rightarrow> sess \<Rightarrow> 'a res \<times> sess"
type_synonym 'a statement = "query_ctx \<Rightarrow> database \<Rightarrow> dberr + 'a \<times> database"

definition ret :: "'a \<Rightarrow> 'a db" where
  "ret x = (\<lambda>w s. (Inr x, s))"

definition throw :: "goerr \<Rightarrow> 'a db" where
  "throw e = (\<lambda>w s. (Inl e, s))"

definition bind :: "'a db \<Rightarrow> ('a \<Rightarrow> 'b db) \<Rightarrow> 'b db" where
  "bind m f = (\<lambda>w s. case m w s of (Inl e, s') \<Rightarrow> (Inl e, s') | (Inr x, s') \<Rightarrow> f x w s')"

definition catch :: "'a db \<Rightarrow> (goerr \<Rightarrow> 'a db) \<Rightarrow> 'a db" where
  "catch m h = (\<lambda>w s. case m w s of (Inl e, s') \<Rightarrow> h e w s' | (Inr x, s') \<Rightarrow> (Inr x, s'))"

definition wrap_err :: "string \<Rightarrow> 'a db \<Rightarrow> 'a db" where
  "wrap_err c m = catch m (\<lambda>e. throw (Wrap c e))"

primrec for_each :: "'a list \<Rightarrow> ('a \<Rightarrow> unit db) \<Rightarrow> unit db" where
  "for_each [] f = ret ()"
| "for_each (x # xs) f = bind (f x) (\<lambda>_. for_each xs f)"

definition lift_res :: "'a res \<Rightarrow> 'a db" where
  "lift_res r = (case r of Inl e \<Rightarrow> throw e | Inr x \<Rightarrow> ret x)"

text \<open>
  Sending a statement: it may fail without an effect; an error inside a transaction aborts it, and
  an aborted transaction refuses every further statement.
\<close>

definition exec :: "'a statement \<Rightarrow> 'a db" where
  "exec f = (\<lambda>w s.
     let n = s_n s; s1 = s\<lparr>s_n := Suc n\<rparr> in
     case s_tx s of
       None \<Rightarrow>
         (case w_fail w n of
            Some e \<Rightarrow> (Inl (Db e), s1)
          | None \<Rightarrow>
              (case f \<lparr>q_setting = w_unset w n, q_now = w_time w n, q_uuid = w_uuid w n,
                      q_bypass = w_bypass_rls w, q_render = w_render w\<rparr> (s_db s) of
                 Inl e \<Rightarrow> (Inl (Db e), s1)
               | Inr (x, d) \<Rightarrow> (Inr x, s1\<lparr>s_db := d\<rparr>)))
     | Some t \<Rightarrow>
         if tx_aborted t then (Inl (Db (PgError ''25P02'' [])), s1)
         else
           (case w_fail w n of
              Some e \<Rightarrow> (Inl (Db e), s1\<lparr>s_tx := Some (t\<lparr>tx_aborted := True\<rparr>)\<rparr>)
            | None \<Rightarrow>
                (case f \<lparr>q_setting = tx_setting t, q_now = tx_now t, q_uuid = w_uuid w n,
                        q_bypass = w_bypass_rls w, q_render = w_render w\<rparr> (s_db s) of
                   Inl e \<Rightarrow> (Inl (Db e), s1\<lparr>s_tx := Some (t\<lparr>tx_aborted := True\<rparr>)\<rparr>)
                 | Inr (x, d) \<Rightarrow> (Inr x, s1\<lparr>s_db := d\<rparr>))))"

text \<open>\<open>QueryRow(...).Scan\<close> and \<open>Query\<close>: a query does not change the tables.\<close>

definition query :: "(query_ctx \<Rightarrow> database \<Rightarrow> 'a) \<Rightarrow> 'a db" where
  "query f = exec (\<lambda>q d. Inr (f q d, d))"

definition scan_row :: "'a option db \<Rightarrow> 'a db" where
  "scan_row m = bind m (\<lambda>r. case r of None \<Rightarrow> throw (Db ErrNoRows) | Some x \<Rightarrow> ret x)"

definition query_row :: "(query_ctx \<Rightarrow> database \<Rightarrow> 'a list) \<Rightarrow> 'a db" where
  "query_row f = scan_row (query (\<lambda>q d. case f q d of [] \<Rightarrow> None | x # _ \<Rightarrow> Some x))"

definition begin_tx :: "unit db" where
  "begin_tx = (\<lambda>w s.
     let n = s_n s; s1 = s\<lparr>s_n := Suc n\<rparr> in
     case w_fail w n of
       Some e \<Rightarrow> (Inl (Db e), s1)
     | None \<Rightarrow> (Inr (), s1\<lparr>s_tx := Some \<lparr>tx_snapshot = s_db s, tx_now = w_time w n,
                    tx_setting = w_unset w n, tx_aborted = False\<rparr>\<rparr>))"

definition rollback :: "sess \<Rightarrow> sess" where
  "rollback s = (case s_tx s of None \<Rightarrow> s | Some t \<Rightarrow> s\<lparr>s_db := tx_snapshot t, s_tx := None\<rparr>)"

text \<open>
  \<open>Commit\<close> of an aborted transaction rolls back. A commit whose acknowledgement is lost may have
  taken effect all the same (\<open>w_indoubt\<close>).
\<close>

definition commit_tx :: "unit db" where
  "commit_tx = (\<lambda>w s.
     let n = s_n s; s1 = s\<lparr>s_n := Suc n\<rparr> in
     case s_tx s of
       None \<Rightarrow> (Inr (), s1)
     | Some t \<Rightarrow>
         if tx_aborted t then (Inl (Db ErrTxCommitRollback), rollback s1)
         else case w_fail w n of
                Some e \<Rightarrow> (Inl (Db e), if w_indoubt w n then s1\<lparr>s_tx := None\<rparr> else rollback s1)
              | None \<Rightarrow> (Inr (), s1\<lparr>s_tx := None\<rparr>))"

text \<open>\<open>pool.Begin\<close> with the deferred \<open>tx.Rollback\<close>, around a body that commits itself.\<close>

definition with_tx :: "string \<Rightarrow> 'a db \<Rightarrow> 'a db" where
  "with_tx c body = (\<lambda>w s.
     case begin_tx w s of
       (Inl e, s1) \<Rightarrow> (Inl (Wrap c e), s1)
     | (Inr _, s1) \<Rightarrow> (case body w s1 of (r, s2) \<Rightarrow> (r, rollback s2)))"

text \<open>\<open>internal/db/scope.go\<close>: the setting of a transaction, then the body and the commit.\<close>

definition set_system :: "uuid \<Rightarrow> unit db" where
  "set_system u = bind (query (\<lambda>q d. ()))
     (\<lambda>_ w s. (Inr (), case s_tx s of None \<Rightarrow> s | Some t \<Rightarrow> s\<lparr>s_tx := Some (t\<lparr>tx_setting := SetSystem u\<rparr>)\<rparr>))"

definition WithSystemScope :: "uuid option \<Rightarrow> 'a db \<Rightarrow> 'a db" where
  "WithSystemScope systemID fn =
     with_tx ''begin transaction''
       (bind (case systemID of None \<Rightarrow> ret () | Some u \<Rightarrow> wrap_err ''setting system scope'' (set_system u))
         (\<lambda>_. bind fn (\<lambda>x. bind commit_tx (\<lambda>_. ret x))))"

subsection \<open>Laws of the session\<close>

lemma run_simps [db_simps]:
  "ret x w s = (Inr x, s)"
  "throw e w s = (Inl e, s)"
  "bind m f w s = (case m w s of (Inl e, s') \<Rightarrow> (Inl e, s') | (Inr x, s') \<Rightarrow> f x w s')"
  "catch m h w s = (case m w s of (Inl e, s') \<Rightarrow> h e w s' | (Inr x, s') \<Rightarrow> (Inr x, s'))"
  "lift_res r w s = (r, s)"
  by (auto simp: ret_def throw_def bind_def catch_def lift_res_def split: sum.splits)

lemma bind_Inr: "bind m f w s = (Inr y, s2) \<longleftrightarrow> (\<exists>x s1. m w s = (Inr x, s1) \<and> f x w s1 = (Inr y, s2))"
  by (auto simp: bind_def split: prod.splits sum.splits)

lemma catch_Inr: "catch m h w s = (Inr y, s2) \<longleftrightarrow>
    m w s = (Inr y, s2) \<or> (\<exists>e s1. m w s = (Inl e, s1) \<and> h e w s1 = (Inr y, s2))"
  by (auto simp: catch_def split: prod.splits sum.splits)

text \<open>
  \<open>preserving R m\<close>: whatever happens, the tables before and after \<open>m\<close> are related by \<open>R\<close>, and inside
  a transaction the snapshot stays. It holds of a program built from statements that satisfy \<open>R\<close>.
\<close>

definition preserving :: "(database \<Rightarrow> database \<Rightarrow> bool) \<Rightarrow> 'a db \<Rightarrow> bool" where
  "preserving R m \<longleftrightarrow> (\<forall>w s. R (s_db s) (s_db (snd (m w s)))
     \<and> map_option tx_snapshot (s_tx (snd (m w s))) = map_option tx_snapshot (s_tx s))"

lemma preservingD:
  assumes "preserving R m" "m w s = (r, s')"
  shows "R (s_db s) (s_db s')" and "map_option tx_snapshot (s_tx s') = map_option tx_snapshot (s_tx s)"
proof -
  have "R (s_db s) (s_db (snd (m w s))) \<and> map_option tx_snapshot (s_tx (snd (m w s))) = map_option tx_snapshot (s_tx s)"
    using assms(1) unfolding preserving_def by blast
  with assms(2) show "R (s_db s) (s_db s')" "map_option tx_snapshot (s_tx s') = map_option tx_snapshot (s_tx s)"
    by simp_all
qed

lemma preservingI:
  "(\<And>w s r s'. m w s = (r, s') \<Longrightarrow>
     R (s_db s) (s_db s') \<and> map_option tx_snapshot (s_tx s') = map_option tx_snapshot (s_tx s))
   \<Longrightarrow> preserving R m"
  unfolding preserving_def by (metis prod.collapse)

lemma preserving_ret [db_intros]: "reflp R \<Longrightarrow> preserving R (ret x)"
  by (rule preservingI) (auto simp: ret_def reflpD)

lemma preserving_throw [db_intros]: "reflp R \<Longrightarrow> preserving R (throw e)"
  by (rule preservingI) (auto simp: throw_def reflpD)

lemma preserving_lift_res [db_intros]: "reflp R \<Longrightarrow> preserving R (lift_res r)"
  by (rule preservingI) (auto simp: db_simps reflpD)

lemma preserving_bind [db_intros]:
  assumes "transp R" "preserving R m" "\<And>x. preserving R (f x)"
  shows "preserving R (bind m f)"
proof (rule preservingI)
  fix w s r s'
  assume b: "bind m f w s = (r, s')"
  obtain r1 s1 where m: "m w s = (r1, s1)" by fastforce
  note pm = preservingD [OF assms(2) m]
  show "R (s_db s) (s_db s') \<and> map_option tx_snapshot (s_tx s') = map_option tx_snapshot (s_tx s)"
  proof (cases r1)
    case (Inl e)
    with b m pm show ?thesis by (simp add: bind_def)
  next
    case (Inr x)
    with b m have "f x w s1 = (r, s')" by (simp add: bind_def)
    from preservingD [OF assms(3) this] pm show ?thesis using assms(1) by (auto dest: transpD)
  qed
qed

lemma preserving_catch [db_intros]:
  assumes "transp R" "preserving R m" "\<And>e. preserving R (h e)"
  shows "preserving R (catch m h)"
proof (rule preservingI)
  fix w s r s'
  assume b: "catch m h w s = (r, s')"
  obtain r1 s1 where m: "m w s = (r1, s1)" by fastforce
  note pm = preservingD [OF assms(2) m]
  show "R (s_db s) (s_db s') \<and> map_option tx_snapshot (s_tx s') = map_option tx_snapshot (s_tx s)"
  proof (cases r1)
    case (Inr x)
    with b m pm show ?thesis by (simp add: catch_def)
  next
    case (Inl e)
    with b m have "h e w s1 = (r, s')" by (simp add: catch_def)
    from preservingD [OF assms(3) this] pm show ?thesis using assms(1) by (auto dest: transpD)
  qed
qed

lemma preserving_wrap [db_intros]:
  "reflp R \<Longrightarrow> transp R \<Longrightarrow> preserving R m \<Longrightarrow> preserving R (wrap_err c m)"
  unfolding wrap_err_def by (intro db_intros)

lemma preserving_for_each [db_intros]:
  "reflp R \<Longrightarrow> transp R \<Longrightarrow> (\<And>x. preserving R (f x)) \<Longrightarrow> preserving R (for_each xs f)"
  by (induction xs) (auto intro!: db_intros)

lemma preserving_exec:
  assumes "reflp R" "\<And>q d x d'. f q d = Inr (x, d') \<Longrightarrow> R d d'"
  shows "preserving R (exec f)"
proof (rule preservingI)
  fix w s r s'
  assume e: "exec f w s = (r, s')"
  show "R (s_db s) (s_db s') \<and> map_option tx_snapshot (s_tx s') = map_option tx_snapshot (s_tx s)"
  proof (cases "s_tx s")
    case None
    with e assms show ?thesis by (auto simp: exec_def Let_def reflpD split: option.splits sum.splits)
  next
    case (Some t)
    with e assms show ?thesis
      by (auto simp: exec_def Let_def reflpD split: option.splits sum.splits if_splits)
  qed
qed

lemma preserving_query [db_intros]: "reflp R \<Longrightarrow> preserving R (query f)"
  unfolding query_def by (rule preserving_exec) (auto simp: reflpD)

lemma preserving_scan_row [db_intros]:
  "reflp R \<Longrightarrow> transp R \<Longrightarrow> preserving R m \<Longrightarrow> preserving R (scan_row m)"
  unfolding scan_row_def by (intro db_intros) (auto split: option.splits intro: db_intros)

lemma preserving_query_row [db_intros]: "reflp R \<Longrightarrow> transp R \<Longrightarrow> preserving R (query_row f)"
  unfolding query_row_def by (intro db_intros)

lemma preserving_if [db_intros]:
  "preserving R m \<Longrightarrow> preserving R m' \<Longrightarrow> preserving R (if b then m else m')"
  by simp

subsection \<open>Transactions are atomic\<close>

definition tx_do :: "string \<Rightarrow> (unit db \<Rightarrow> unit db) \<Rightarrow> 'a db \<Rightarrow> 'a db" where
  "tx_do c wrap_commit m = with_tx c (bind m (\<lambda>x. bind (wrap_commit commit_tx) (\<lambda>_. ret x)))"

definition keeps_snapshot :: "'a db \<Rightarrow> bool" where
  "keeps_snapshot m \<longleftrightarrow> preserving (\<lambda>_ _. True) m"

lemma preserving_keeps_snapshot: "preserving R m \<Longrightarrow> keeps_snapshot m"
  by (simp add: preserving_def keeps_snapshot_def)

lemma keeps_snapshotD:
  "keeps_snapshot m \<Longrightarrow> m w s = (r, s') \<Longrightarrow> s_tx s = Some t \<Longrightarrow> \<exists>t'. s_tx s' = Some t' \<and> tx_snapshot t' = tx_snapshot t"
  unfolding keeps_snapshot_def by (drule (1) preservingD(2)) auto

lemma begin_tx_cases:
  assumes "begin_tx w s = (r, s1)"
  obtains e where "r = Inl e" "s_db s1 = s_db s" "s_tx s1 = s_tx s"
    | t where "r = Inr ()" "s_db s1 = s_db s" "s_tx s1 = Some t" "tx_snapshot t = s_db s"
  using assms by (auto simp: begin_tx_def Let_def split: option.splits)

lemma commit_tx_cases:
  assumes "commit_tx w s = (r, s1)" "s_tx s = Some t"
  obtains "r = Inr ()" "s_db s1 = s_db s" "s_tx s1 = None"
    | e where "r = Inl e" "s_db s1 = tx_snapshot t" "s_tx s1 = None"
    | e n where "r = Inl e" "s_db s1 = s_db s" "s_tx s1 = None" "w_indoubt w n"
  using assms by (auto simp: commit_tx_def rollback_def Let_def split: option.splits if_splits)

text \<open>
  A transaction that returns a value has made exactly the changes of its body; one that returns an
  error has changed nothing, unless the acknowledgement of its commit was lost.
\<close>

theorem tx_do_atomic:
  assumes tx: "tx_do c wrap m w s = (r, s')" and s: "s_tx s = None" and keep: "keeps_snapshot m"
    and wrap: "\<And>w s. (\<exists>e. fst (commit_tx w s) = Inl e \<and> (\<exists>e'. wrap commit_tx w s = (Inl e', snd (commit_tx w s))))
       \<or> wrap commit_tx w s = commit_tx w s"
  shows "s_tx s' = None \<and>
    (case r of
       Inr x \<Rightarrow> \<exists>s1 s2. s_db s1 = s_db s \<and> m w s1 = (Inr x, s2) \<and> s_db s' = s_db s2
     | Inl e \<Rightarrow> s_db s' = s_db s \<or> (\<exists>n x s1 s2. w_indoubt w n \<and> s_db s1 = s_db s \<and> m w s1 = (Inr x, s2) \<and> s_db s' = s_db s2))"
proof -
  obtain rb s1 where b: "begin_tx w s = (rb, s1)" by fastforce
  from b show ?thesis
  proof (cases rule: begin_tx_cases)
    case (1 e)
    with tx b s show ?thesis by (auto simp: tx_do_def with_tx_def)
  next
    case (2 t)
    obtain rm s2 where m: "m w s1 = (rm, s2)" by fastforce
    from keeps_snapshotD [OF keep m 2(3)] obtain t2 where t2: "s_tx s2 = Some t2" "tx_snapshot t2 = s_db s"
      using 2(4) by auto
    show ?thesis
    proof (cases rm)
      case (Inl e)
      with tx b 2 m t2 show ?thesis by (auto simp: tx_do_def with_tx_def bind_def rollback_def)
    next
      case (Inr x)
      obtain rc s3 where c: "commit_tx w s2 = (rc, s3)" by fastforce
      have wc: "(\<exists>e e'. rc = Inl e \<and> wrap commit_tx w s2 = (Inl e', s3)) \<or> wrap commit_tx w s2 = (rc, s3)"
        using wrap [of w s2] c by auto
      from c t2(1) show ?thesis
      proof (cases rule: commit_tx_cases)
        case 1
        with tx b 2 m Inr wc have "r = Inr x" "s_tx s' = None" "s_db s' = s_db s2"
          by (auto simp: tx_do_def with_tx_def bind_def ret_def rollback_def)
        with m Inr \<open>s_db s1 = s_db s\<close> show ?thesis by auto
      next
        case (2 e)
        with tx b \<open>rb = Inr ()\<close> m Inr wc t2 show ?thesis
          by (auto simp: tx_do_def with_tx_def bind_def ret_def rollback_def)
      next
        case (3 e n)
        with tx b \<open>rb = Inr ()\<close> m Inr wc obtain e' where "r = Inl e'" "s_tx s' = None" "s_db s' = s_db s2"
          by (auto simp: tx_do_def with_tx_def bind_def ret_def rollback_def)
        with m Inr \<open>s_db s1 = s_db s\<close> 3(4) show ?thesis by auto
      qed
    qed
  qed
qed

lemma wrap_commit:
  "(\<exists>e. fst (commit_tx w s) = Inl e \<and> (\<exists>e'. wrap_err c commit_tx w s = (Inl e', snd (commit_tx w s))))
     \<or> wrap_err c commit_tx w s = commit_tx w s"
  by (cases "commit_tx w s"; cases "fst (commit_tx w s)") (auto simp: wrap_err_def catch_def throw_def)

text \<open>One audit record per change: \<open>audits P m\<close> says that a success of \<open>m\<close> appends exactly one.\<close>

definition audits :: "('a \<Rightarrow> audit_row \<Rightarrow> bool) \<Rightarrow> 'a db \<Rightarrow> bool" where
  "audits P m \<longleftrightarrow> (\<forall>w s x s'. m w s = (Inr x, s') \<longrightarrow>
     (\<exists>row. db_audit (s_db s') = db_audit (s_db s) @ [row] \<and> P x row))"

definition same_audit :: "database \<Rightarrow> database \<Rightarrow> bool" where
  "same_audit d d' \<longleftrightarrow> db_audit d' = db_audit d"

lemma same_audit_props [db_intros]: "reflp same_audit" "transp same_audit"
  by (auto simp: same_audit_def intro!: reflpI transpI)

lemma auditsD:
  "audits P m \<Longrightarrow> m w s = (Inr x, s') \<Longrightarrow> \<exists>row. db_audit (s_db s') = db_audit (s_db s) @ [row] \<and> P x row"
  unfolding audits_def by blast

lemma auditsI:
  "(\<And>w s x s'. m w s = (Inr x, s') \<Longrightarrow> \<exists>row. db_audit (s_db s') = db_audit (s_db s) @ [row] \<and> P x row)
   \<Longrightarrow> audits P m"
  unfolding audits_def by blast

lemma audits_bind_right:
  assumes "preserving same_audit m" "\<And>x. audits P (f x)"
  shows "audits P (bind m f)"
proof (rule auditsI)
  fix w s y s'
  assume "bind m f w s = (Inr y, s')"
  then obtain x s1 where m: "m w s = (Inr x, s1)" and f: "f x w s1 = (Inr y, s')" by (auto simp: bind_Inr)
  have "db_audit (s_db s1) = db_audit (s_db s)"
    using preservingD(1) [OF assms(1) m] by (simp add: same_audit_def)
  with auditsD [OF assms(2) f] show "\<exists>row. db_audit (s_db s') = db_audit (s_db s) @ [row] \<and> P y row" by simp
qed

lemma audits_bind_left:
  assumes "audits P m" "\<And>x. preserving same_audit (f x)" "\<And>w s x y s'. f x w s = (Inr y, s') \<Longrightarrow> (\<And>row. P x row \<Longrightarrow> Q y row)"
  shows "audits Q (bind m f)"
proof (rule auditsI)
  fix w s y s'
  assume "bind m f w s = (Inr y, s')"
  then obtain x s1 where m: "m w s = (Inr x, s1)" and f: "f x w s1 = (Inr y, s')" by (auto simp: bind_Inr)
  from auditsD [OF assms(1) m] obtain row where "db_audit (s_db s1) = db_audit (s_db s) @ [row]" "P x row"
    by blast
  moreover have "db_audit (s_db s') = db_audit (s_db s1)"
    using preservingD(1) [OF assms(2) f] by (simp add: same_audit_def)
  ultimately show "\<exists>row. db_audit (s_db s') = db_audit (s_db s) @ [row] \<and> Q y row"
    using assms(3) [OF f] by auto
qed

text \<open>
  The contract every mutation of the services meets, and what it gives inside a transaction: no
  change without its audit record, no audit record without its change.
\<close>

locale audited =
  fixes body :: "'a db" and P :: "'a \<Rightarrow> audit_row \<Rightarrow> bool"
  assumes keeps: "keeps_snapshot body"
    and one_record: "audits P body"
begin

lemma all_or_nothing_gen:
  assumes "tx_do c wrap body w s = (r, s')" "s_tx s = None"
    and wrap: "\<And>w s. (\<exists>e. fst (commit_tx w s) = Inl e \<and> (\<exists>e'. wrap commit_tx w s = (Inl e', snd (commit_tx w s))))
       \<or> wrap commit_tx w s = commit_tx w s"
  shows "(\<And>x. r = Inr x \<Longrightarrow> \<exists>row. db_audit (s_db s') = db_audit (s_db s) @ [row] \<and> P x row)"
    and "(\<And>e. r = Inl e \<Longrightarrow> (\<And>n. \<not> w_indoubt w n) \<Longrightarrow> s_db s' = s_db s)"
    and "s_tx s' = None"
proof -
  note at = tx_do_atomic [where wrap = wrap, OF assms(1,2) keeps wrap]
  show "s_tx s' = None" using at by blast
  show "\<exists>row. db_audit (s_db s') = db_audit (s_db s) @ [row] \<and> P x row" if "r = Inr x" for x
    using at that one_record unfolding audits_def by fastforce
  show "s_db s' = s_db s" if "r = Inl e" "\<And>n. \<not> w_indoubt w n" for e
    using at that by auto
qed

lemma all_or_nothing:
  assumes "tx_do c (wrap_err cc) body w s = (r, s')" "s_tx s = None"
  shows "(\<And>x. r = Inr x \<Longrightarrow> \<exists>row. db_audit (s_db s') = db_audit (s_db s) @ [row] \<and> P x row)"
    and "(\<And>e. r = Inl e \<Longrightarrow> (\<And>n. \<not> w_indoubt w n) \<Longrightarrow> s_db s' = s_db s)"
    and "s_tx s' = None"
  using all_or_nothing_gen [where wrap = "wrap_err cc", OF assms wrap_commit] by blast+

end

end
