(* ===== verification/Pg_Tables.thy ===== *)
theory Pg_Tables
  imports Pg_Db
begin

section \<open>Rows, constraints and the statements on them\<close>

text \<open>
  What the statements of the repositories do to the tables: row level security, the operator
  \<open>->>\<close> with the cast to boolean, the trigger on \<open>system_id\<close>, unique and foreign keys, cascades.
  A multi-row result without \<open>ORDER BY\<close> comes in table order.
\<close>

subsection \<open>Visibility and JSON\<close>

definition visible :: "query_ctx \<Rightarrow> uuid option \<Rightarrow> bool" where
  "visible q sys \<longleftrightarrow> q_bypass q \<or> sys = None \<or> q_setting q = SetEmpty
     \<or> (\<exists>u. sys = Some u \<and> q_setting q = SetSystem u)"

lemma visible_code [code]:
  "visible q sys = (q_bypass q \<or> sys = None \<or> q_setting q = SetEmpty
     \<or> (case (sys, q_setting q) of (Some u, SetSystem v) \<Rightarrow> u = v | _ \<Rightarrow> False))"
  by (auto simp: visible_def split: option.splits setting.splits)

definition entities :: "query_ctx \<Rightarrow> database \<Rightarrow> entity_row list" where
  "entities q d = filter (\<lambda>e. visible q (en_system_id e)) (db_entities d)"

definition relations :: "query_ctx \<Rightarrow> database \<Rightarrow> relation_row list" where
  "relations q d = filter (\<lambda>r. visible q (rl_system r)) (db_relations d)"

definition jsonb_get :: "json \<Rightarrow> string \<Rightarrow> json option" where
  "jsonb_get j k = (case j of JObj kvs \<Rightarrow> map_of (rev kvs) k | _ \<Rightarrow> None)"

text \<open>\<open>j ->> k\<close>; SQL's \<open>NULL\<close> is \<open>None\<close>.\<close>

definition jsonb_text :: "query_ctx \<Rightarrow> json \<Rightarrow> string \<Rightarrow> string option" where
  "jsonb_text q j k =
     (case jsonb_get j k of
        None \<Rightarrow> None
      | Some JNull \<Rightarrow> None
      | Some (JStr s) \<Rightarrow> Some s
      | Some (JBool b) \<Rightarrow> Some (if b then ''true'' else ''false'')
      | Some (JNum n) \<Rightarrow> Some n
      | Some v \<Rightarrow> Some (q_render q v))"

text \<open>The cast of text to boolean: prefixes of the words, and 22P02 for anything else.\<close>

definition pg_bool :: "string \<Rightarrow> dberr + bool" where
  "pg_bool s = (let t = ToLower (TrimSpace s) in
     if t \<noteq> [] \<and> (prefix t ''true'' \<or> prefix t ''yes'' \<or> t = ''on'' \<or> t = ''1'') then Inr True
     else if t \<noteq> [] \<and> (prefix t ''false'' \<or> prefix t ''no'' \<or> t = ''of'' \<or> t = ''off'' \<or> t = ''0'') then Inr False
     else Inl (PgError ''22P02'' []))"

lemma pg_bool_texts: "pg_bool ''true'' = Inr True" "pg_bool ''false'' = Inr False"
proof -
  have t: "TrimSpace ''true'' = ''true''" "TrimSpace ''false'' = ''false''"
    by (rule TrimSpace_solid; simp add: solid_def unicode_IsSpace_def)+
  show "pg_bool ''true'' = Inr True" "pg_bool ''false'' = Inr False"
    unfolding pg_bool_def t by (simp_all add: ToLower_def lower_char_def)
qed

definition find_type :: "database \<Rightarrow> string \<Rightarrow> type_row option" where
  "find_type d name = find (\<lambda>t. ty_name t = name) (db_types d)"

definition has_type :: "database \<Rightarrow> string \<Rightarrow> entity_row \<Rightarrow> bool" where
  "has_type d name e \<longleftrightarrow> list_ex (\<lambda>t. ty_id t = en_type_id e \<and> ty_name t = name) (db_types d)"

text \<open>The join of entities, their type and their external identities.\<close>

definition linked_entities :: "query_ctx \<Rightarrow> string \<Rightarrow> string \<Rightarrow> database \<Rightarrow> (entity_row \<times> identity_row) list" where
  "linked_entities q tname provider d =
     [(e, i). e \<leftarrow> filter (has_type d tname) (entities q d),
              i \<leftarrow> filter (\<lambda>i. ei_entity_id i = en_id e \<and> ei_provider i = provider) (db_identities d)]"

subsection \<open>Statements\<close>

definition pg_error :: "string \<Rightarrow> string \<Rightarrow> dberr + 'a" where
  "pg_error code constraint = Inl (PgError code constraint)"

text \<open>\<open>assert_system_id_targets_system_entity\<close>, run before a row with a \<open>system_id\<close> is written.\<close>

definition system_check :: "query_ctx \<Rightarrow> database \<Rightarrow> uuid option \<Rightarrow> bool" where
  "system_check q d sys \<longleftrightarrow>
     (case sys of
        None \<Rightarrow> True
      | Some u \<Rightarrow>
          (case (find_type d ''System'', find (\<lambda>e. en_id e = u) (entities q d)) of
             (Some t, Some e) \<Rightarrow> en_type_id e = ty_id t
           | _ \<Rightarrow> False))"

definition insert_entity :: "uuid \<Rightarrow> string \<Rightarrow> json \<Rightarrow> uuid option \<Rightarrow> entity_row statement" where
  "insert_entity tid ext props sys = (\<lambda>q d.
     let e = \<lparr>en_id = q_uuid q, en_type_id = tid, en_external_id = ext, en_properties = props,
              en_system_id = sys, en_builtin = False, en_created = q_now q, en_updated = q_now q\<rparr> in
     if \<not> system_check q d sys then pg_error ''P0001'' []
     else if \<not> visible q sys then pg_error ''42501'' []
     else if list_ex (\<lambda>e'. en_id e' = en_id e) (db_entities d) then pg_error ''23505'' ''entity_pkey''
     else if list_ex (\<lambda>e'. en_type_id e' = tid \<and> en_external_id e' = ext) (db_entities d)
       then pg_error ''23505'' ''entity_type_id_external_id_key''
     else if \<not> list_ex (\<lambda>t. ty_id t = tid) (db_types d) then pg_error ''23503'' ''entity_type_id_fkey''
     else Inr (e, d\<lparr>db_entities := db_entities d @ [e]\<rparr>))"

text \<open>\<open>INSERT ... SELECT id FROM entity_type_definition WHERE type_name = ...\<close>\<close>

definition insert_entity_of_type :: "string \<Rightarrow> string \<Rightarrow> json \<Rightarrow> entity_row option statement" where
  "insert_entity_of_type tname ext props = (\<lambda>q d.
     case find_type d tname of
       None \<Rightarrow> Inr (None, d)
     | Some t \<Rightarrow> (case insert_entity (ty_id t) ext props None q d of
                    Inl e \<Rightarrow> Inl e | Inr (row, d') \<Rightarrow> Inr (Some row, d')))"

definition update_entities ::
  "(query_ctx \<Rightarrow> database \<Rightarrow> entity_row \<Rightarrow> bool) \<Rightarrow> (entity_row \<Rightarrow> entity_row) \<Rightarrow> entity_row list statement" where
  "update_entities P f = (\<lambda>q d.
     let hit = (\<lambda>e. visible q (en_system_id e) \<and> P q d e);
         upd = (\<lambda>e. (f e)\<lparr>en_updated := q_now q\<rparr>)
     in Inr (map upd (filter hit (db_entities d)),
             d\<lparr>db_entities := map (\<lambda>e. if hit e then upd e else e) (db_entities d)\<rparr>))"

definition insert_identity :: "uuid \<Rightarrow> string \<Rightarrow> string \<Rightarrow> unit statement" where
  "insert_identity eid provider sub = (\<lambda>q d.
     let i = \<lparr>ei_id = q_uuid q, ei_entity_id = eid, ei_provider = provider, ei_subject = sub,
              ei_created = q_now q, ei_updated = q_now q\<rparr> in
     if list_ex (\<lambda>i'. ei_id i' = ei_id i) (db_identities d) then pg_error ''23505'' ''entity_external_identity_pkey''
     else if list_ex (\<lambda>i'. ei_provider i' = provider \<and> ei_subject i' = sub) (db_identities d)
       then pg_error ''23505'' ''entity_external_identity_provider_name_external_subject_key''
     else if \<not> list_ex (\<lambda>e. en_id e = eid) (db_entities d)
       then pg_error ''23503'' ''entity_external_identity_entity_id_fkey''
     else Inr ((), d\<lparr>db_identities := db_identities d @ [i]\<rparr>))"

definition delete_identities :: "(identity_row \<Rightarrow> bool) \<Rightarrow> nat statement" where
  "delete_identities P = (\<lambda>q d.
     Inr (length (filter P (db_identities d)), d\<lparr>db_identities := filter (\<lambda>i. \<not> P i) (db_identities d)\<rparr>))"

definition insert_relation :: "uuid \<Rightarrow> string \<Rightarrow> uuid \<Rightarrow> uuid option \<Rightarrow> relation_row statement" where
  "insert_relation subj rtype tgt sys = (\<lambda>q d.
     let r = \<lparr>rl_id = q_uuid q, rl_subject = subj, rl_type = rtype, rl_target = tgt, rl_system = sys,
              rl_created = q_now q\<rparr> in
     if \<not> system_check q d sys then pg_error ''P0001'' []
     else if \<not> visible q sys then pg_error ''42501'' []
     else if list_ex (\<lambda>r'. rl_id r' = rl_id r) (db_relations d) then pg_error ''23505'' ''relation_pkey''
     else if list_ex (\<lambda>r'. rl_subject r' = subj \<and> rl_type r' = rtype \<and> rl_target r' = tgt \<and> rl_system r' = sys)
              (db_relations d)
       then pg_error ''23505'' (if sys = None then ''uq_relation_global'' else ''uq_relation_scoped'')
     else if \<not> list_ex (\<lambda>e. en_id e = subj) (db_entities d) then pg_error ''23503'' ''relation_subject_entity_id_fkey''
     else if \<not> list_ex (\<lambda>e. en_id e = tgt) (db_entities d) then pg_error ''23503'' ''relation_target_entity_id_fkey''
     else Inr (r, d\<lparr>db_relations := db_relations d @ [r]\<rparr>))"

definition delete_relations :: "(relation_row \<Rightarrow> bool) \<Rightarrow> nat statement" where
  "delete_relations P = (\<lambda>q d.
     let hit = (\<lambda>r. visible q (rl_system r) \<and> P r)
     in Inr (length (filter hit (db_relations d)), d\<lparr>db_relations := filter (\<lambda>r. \<not> hit r) (db_relations d)\<rparr>))"

text \<open>
  \<open>DELETE FROM entity\<close>: identities, relations and overlays of the deleted entities go with them; a
  \<open>system_id\<close> that still points at one of them refuses the statement.
\<close>

definition cascade_delete :: "uuid list \<Rightarrow> database \<Rightarrow> database" where
  "cascade_delete ids d =
     d\<lparr>db_entities := filter (\<lambda>e. en_id e \<notin> set ids) (db_entities d),
       db_identities := filter (\<lambda>i. ei_entity_id i \<notin> set ids) (db_identities d),
       db_relations := filter (\<lambda>r. rl_subject r \<notin> set ids \<and> rl_target r \<notin> set ids) (db_relations d),
       db_overlays := filter (\<lambda>o'. ov_entity o' \<notin> set ids) (db_overlays d)\<rparr>"

definition system_references :: "uuid list \<Rightarrow> database \<Rightarrow> bool" where
  "system_references ids d \<longleftrightarrow>
     list_ex (\<lambda>e. \<exists>u \<in> set ids. en_system_id e = Some u) (db_entities d)
     \<or> list_ex (\<lambda>r. \<exists>u \<in> set ids. rl_system r = Some u) (db_relations d)
     \<or> list_ex (\<lambda>o'. ov_system o' \<in> set ids) (db_overlays d)
     \<or> list_ex (\<lambda>s. sc_system s \<in> set ids) (db_schemas d)
     \<or> list_ex (\<lambda>h. wh_system h \<in> set ids) (db_webhooks d)"

definition delete_entities :: "(database \<Rightarrow> entity_row \<Rightarrow> bool) \<Rightarrow> nat statement" where
  "delete_entities P = (\<lambda>q d.
     let ids = map en_id (filter (P d) (entities q d)); d' = cascade_delete ids d
     in if system_references ids d' then pg_error ''23503'' ''entity_system_id_fkey''
        else Inr (length ids, d'))"

text \<open>\<open>audit.Service.Write\<close> (\<open>internal/audit/audit.go\<close>).\<close>

record audit_entry =
  ae_actor :: string
  ae_operation :: string
  ae_resource_type :: string
  ae_resource_id :: uuid
  ae_before :: raw
  ae_after :: raw
  ae_system :: "uuid option"

definition audit_row_of :: "audit_entry \<Rightarrow> query_ctx \<Rightarrow> audit_row" where
  "audit_row_of a q = \<lparr>au_id = q_uuid q, au_actor = ae_actor a, au_operation = ae_operation a,
     au_resource_type = ae_resource_type a, au_resource_id = ae_resource_id a, au_before = ae_before a,
     au_after = ae_after a, au_system = ae_system a, au_time = q_now q\<rparr>"

definition insert_audit :: "audit_entry \<Rightarrow> unit statement" where
  "insert_audit a = (\<lambda>q d.
     if ae_operation a \<notin> {''create'', ''update'', ''delete''} then pg_error ''23514'' ''audit_log_operation_check''
     else if list_ex (\<lambda>r. au_id r = q_uuid q) (db_audit d) then pg_error ''23505'' ''audit_log_pkey''
     else Inr ((), d\<lparr>db_audit := db_audit d @ [audit_row_of a q]\<rparr>))"

definition OpCreate :: string where "OpCreate = ''create''"
definition OpUpdate :: string where "OpUpdate = ''update''"
definition OpDelete :: string where "OpDelete = ''delete''"

definition audit_Write :: "audit_entry \<Rightarrow> unit db" where
  "audit_Write a = wrap_err ''writing audit log'' (exec (insert_audit a))"

subsection \<open>Which tables a statement touches\<close>

lemma statement_audit [db_simps]:
  "insert_entity tid ext props sys q d = Inr (x1, d') \<Longrightarrow> db_audit d' = db_audit d"
  "insert_entity_of_type tname ext props q d = Inr (x2, d') \<Longrightarrow> db_audit d' = db_audit d"
  "update_entities P f q d = Inr (x3, d') \<Longrightarrow> db_audit d' = db_audit d"
  "insert_identity eid provider sub q d = Inr (x4, d') \<Longrightarrow> db_audit d' = db_audit d"
  "delete_identities Q q d = Inr (x5, d') \<Longrightarrow> db_audit d' = db_audit d"
  "insert_relation subj rtype tgt sys q d = Inr (x6, d') \<Longrightarrow> db_audit d' = db_audit d"
  "delete_relations R q d = Inr (x7, d') \<Longrightarrow> db_audit d' = db_audit d"
  "delete_entities S q d = Inr (x8, d') \<Longrightarrow> db_audit d' = db_audit d"
  by (auto simp: insert_entity_def insert_entity_of_type_def update_entities_def insert_identity_def
      delete_identities_def insert_relation_def delete_relations_def delete_entities_def pg_error_def
      cascade_delete_def Let_def split: if_splits option.splits sum.splits)

lemma preserving_statements [db_intros]:
  "preserving same_audit (exec (insert_entity tid ext props sys))"
  "preserving same_audit (exec (insert_entity_of_type tname ext props))"
  "preserving same_audit (exec (update_entities P f))"
  "preserving same_audit (exec (insert_identity eid provider sub))"
  "preserving same_audit (exec (delete_identities Q))"
  "preserving same_audit (exec (insert_relation subj rtype tgt sys))"
  "preserving same_audit (exec (delete_relations R))"
  "preserving same_audit (exec (delete_entities S))"
  by (rule preserving_exec; auto simp: same_audit_def db_simps intro: reflpI)+

lemma exec_Inr:
  assumes "exec f w s = (Inr x, s')"
  shows "\<exists>q. f q (s_db s) = Inr (x, s_db s') \<and> q_uuid q = w_uuid w (s_n s) \<and> q_bypass q = w_bypass_rls w
     \<and> (case s_tx s of None \<Rightarrow> q_now q = w_time w (s_n s) \<and> q_setting q = w_unset w (s_n s)
        | Some t \<Rightarrow> q_now q = tx_now t \<and> q_setting q = tx_setting t)
     \<and> s_n s' = Suc (s_n s) \<and> s_tx s' = s_tx s"
  using assms by (auto simp: exec_def Let_def split: option.splits sum.splits if_splits)

lemma keeps_snapshot_exec: "keeps_snapshot (exec f)"
  unfolding keeps_snapshot_def by (rule preserving_exec) (auto intro: reflpI)

lemma audits_Write:
  "audits (\<lambda>_ row. \<exists>q. row = audit_row_of a q) (audit_Write a)"
proof (rule auditsI)
  fix w s and x :: unit and s'
  assume "audit_Write a w s = (Inr x, s')"
  then have "exec (insert_audit a) w s = (Inr x, s')"
    by (auto simp: audit_Write_def wrap_err_def catch_Inr throw_def)
  from exec_Inr [OF this] obtain q where "insert_audit a q (s_db s) = Inr (x, s_db s')" by blast
  then have "s_db s' = (s_db s)\<lparr>db_audit := db_audit (s_db s) @ [audit_row_of a q]\<rparr>"
    by (auto simp: insert_audit_def pg_error_def split: if_splits)
  then show "\<exists>row. db_audit (s_db s') = db_audit (s_db s) @ [row] \<and> (\<exists>q. row = audit_row_of a q)"
    by (intro exI [of _ "audit_row_of a q"]) auto
qed

lemma keeps_snapshot_top [db_intros]:
  "keeps_snapshot m \<Longrightarrow> preserving (\<lambda>_ _. True) m"
  "reflp (\<lambda>_ _ :: database. True)" "transp (\<lambda>_ _ :: database. True)"
  by (auto simp: keeps_snapshot_def intro: reflpI transpI)

lemma keeps_snapshot_intros [db_intros]:
  "keeps_snapshot (audit_Write a)"
  unfolding audit_Write_def keeps_snapshot_def
  by (intro preserving_wrap keeps_snapshot_exec [unfolded keeps_snapshot_def]) (auto intro: reflpI transpI)

subsection \<open>Quiet worlds\<close>

text \<open>A quiet world: no statement fails, and the unset setting always reads the same.\<close>

definition quiet :: "world \<Rightarrow> setting \<Rightarrow> bool" where
  "quiet w v \<longleftrightarrow> (\<forall>n. w_fail w n = None) \<and> (\<forall>n. w_unset w n = v)"

definition view_ctx :: "world \<Rightarrow> setting \<Rightarrow> query_ctx" where
  "view_ctx w v = \<lparr>q_setting = v, q_now = 0, q_uuid = 0, q_bypass = w_bypass_rls w, q_render = w_render w\<rparr>"

end
