(* ===== verification/Scim_Store.thy ===== *)
theory Scim_Store
  imports Pg_Tables Scim_Sql "HOL-Library.Product_Lexorder"
begin

section \<open>The SCIM repositories (\<open>internal/scim/users/repository.go\<close>, \<open>groups/repository.go\<close>)\<close>

text \<open>
  Users and groups are stored alike: an entity of the built-in type and a link in
  \<open>entity_external_identity\<close> that says which provider owns it. The two repositories send the same
  statements with another type name, other sentinel errors and other words in the wrapped messages;
  \<open>resource_kind\<close> holds these, and the statements are written once. How PostgreSQL evaluates the
  \<open>WHERE\<close> fragment of a filter on a joined row is the parameter \<open>pg_where\<close> (it may raise an error).
\<close>

record resource_kind =
  rk_type :: string
  rk_noun :: string
  rk_NotFound :: goerr
  rk_AlreadyExists :: goerr

definition user_kind :: resource_kind where
  "user_kind = \<lparr>rk_type = ''User'', rk_noun = ''user'', rk_NotFound = UsersE Users_ErrNotFound,
     rk_AlreadyExists = UsersE Users_ErrAlreadyExists\<rparr>"

definition group_kind :: resource_kind where
  "group_kind = \<lparr>rk_type = ''Group'', rk_noun = ''group'', rk_NotFound = GroupsE Groups_ErrNotFound,
     rk_AlreadyExists = GroupsE Groups_ErrAlreadyExists\<rparr>"

lemmas kind_defs = user_kind_def group_kind_def

record stored_row =
  sr_EntityID :: uuid
  sr_Properties :: "props option"
  sr_ExternalSubject :: string
  sr_CreatedAt :: gotime
  sr_UpdatedAt :: gotime

definition makeEntityExternalID :: "string \<Rightarrow> string \<Rightarrow> string" where
  "makeEntityExternalID provider sub = ''scim:'' @ provider @ '':'' @ sub"

text \<open>\<open>json.Marshal\<close> of a map that may be nil, and \<open>json.Unmarshal\<close> of a stored document.\<close>

definition marshal_map :: "props option \<Rightarrow> json" where
  "marshal_map m = (case m of None \<Rightarrow> JNull | Some p \<Rightarrow> JObj p)"

definition unmarshal_props :: "string \<Rightarrow> json \<Rightarrow> props option res" where
  "unmarshal_props c j = (case unmarshal_map (Some j) of Inl e \<Rightarrow> Inl (Wrap c (JsonE e)) | Inr m \<Rightarrow> Inr m)"

text \<open>\<open>Create\<close>: the entity, then its link.\<close>

definition insert_failed :: "resource_kind \<Rightarrow> goerr \<Rightarrow> goerr" where
  "insert_failed k e =
     (if pg_code_is e ''23505'' then rk_AlreadyExists k
      else if is_no_rows e then Wrap (''built-in '' @ rk_type k @ '' type not seeded'') e
      else Wrap (''insert '' @ rk_noun k @ '' entity'') e)"

definition link_failed :: "resource_kind \<Rightarrow> goerr \<Rightarrow> goerr" where
  "link_failed k e =
     (if pg_code_is e ''23505'' then rk_AlreadyExists k else Wrap ''insert external identity'' e)"

definition store_Create :: "resource_kind \<Rightarrow> string \<Rightarrow> string \<Rightarrow> props \<Rightarrow> stored_row db" where
  "store_Create k provider sub props =
     bind (catch (scan_row (exec (insert_entity_of_type (rk_type k) (makeEntityExternalID provider sub)
             (marshal_props props)))) (\<lambda>e. throw (insert_failed k e))) (\<lambda>row.
     bind (catch (exec (insert_identity (en_id row) provider sub)) (\<lambda>e. throw (link_failed k e))) (\<lambda>_.
     ret \<lparr>sr_EntityID = en_id row, sr_Properties = Some props, sr_ExternalSubject = sub,
          sr_CreatedAt = en_created row, sr_UpdatedAt = en_updated row\<rparr>))"

text \<open>\<open>GetByEntityID\<close>: only through a link of the calling provider.\<close>

definition row_of :: "entity_row \<times> identity_row \<Rightarrow> props option \<Rightarrow> stored_row" where
  "row_of = (\<lambda>(e, i) m. \<lparr>sr_EntityID = en_id e, sr_Properties = m, sr_ExternalSubject = ei_subject i,
     sr_CreatedAt = en_created e, sr_UpdatedAt = en_updated e\<rparr>)"

definition decode_row :: "resource_kind \<Rightarrow> entity_row \<times> identity_row \<Rightarrow> stored_row res" where
  "decode_row k ei =
     (case unmarshal_props (''unmarshal '' @ rk_noun k @ '' properties'') (en_properties (fst ei)) of
        Inl e \<Rightarrow> Inl e | Inr m \<Rightarrow> Inr (row_of ei m))"

definition store_Get :: "resource_kind \<Rightarrow> string \<Rightarrow> uuid \<Rightarrow> stored_row db" where
  "store_Get k provider i =
     bind (catch (query_row (\<lambda>q d. filter (\<lambda>(e, _). en_id e = i) (linked_entities q (rk_type k) provider d)))
             (\<lambda>e. if is_no_rows e then throw (rk_NotFound k) else throw (Wrap (''query '' @ rk_noun k) e)))
       (\<lambda>ei. lift_res (decode_row k ei))"

text \<open>\<open>Delete\<close>: the provider's link, then the entity if no link is left.\<close>

definition store_Delete :: "resource_kind \<Rightarrow> string \<Rightarrow> uuid \<Rightarrow> unit db" where
  "store_Delete k provider i =
     bind (wrap_err ''delete external identity''
             (exec (delete_identities (\<lambda>r. ei_entity_id r = i \<and> ei_provider r = provider)))) (\<lambda>n.
     if n = 0 then throw (rk_NotFound k)
     else bind (wrap_err (''delete '' @ rk_noun k @ '' entity'')
                 (exec (delete_entities (\<lambda>d e. en_id e = i \<and> \<not> list_ex (\<lambda>r. ei_entity_id r = i) (db_identities d)))))
            (\<lambda>_. ret ()))"

text \<open>\<open>List\<close>: the count, then one page in the order of creation.\<close>

type_synonym 'f pg_where = "query_ctx \<Rightarrow> string \<Rightarrow> 'f Value list \<Rightarrow> entity_row \<times> identity_row \<Rightarrow> dberr + bool"

fun filter_res :: "('a \<Rightarrow> 'e + bool) \<Rightarrow> 'a list \<Rightarrow> 'e + 'a list" where
  "filter_res f [] = Inr []"
| "filter_res f (x # xs) =
     (case f x of
        Inl e \<Rightarrow> Inl e
      | Inr b \<Rightarrow> (case filter_res f xs of Inl e \<Rightarrow> Inl e | Inr ys \<Rightarrow> Inr (if b then x # ys else ys)))"

definition select_where ::
  "'f pg_where \<Rightarrow> resource_kind \<Rightarrow> string \<Rightarrow> string \<Rightarrow> 'f Value list \<Rightarrow> query_ctx \<Rightarrow> database
     \<Rightarrow> dberr + (entity_row \<times> identity_row) list" where
  "select_where pg_where k provider filterSQL filterArgs q d =
     (let rows = linked_entities q (rk_type k) provider d in
      if filterSQL = [] then Inr rows
      else filter_res (pg_where q (shiftPlaceholders filterSQL 1) (VString provider # filterArgs)) rows)"

definition page_rows :: "int \<Rightarrow> int \<Rightarrow> (entity_row \<times> identity_row) list \<Rightarrow> dberr + (entity_row \<times> identity_row) list" where
  "page_rows limit offset rows =
     (if offset < 0 then pg_error ''2201X'' []
      else if limit < 0 then pg_error ''2201W'' []
      else Inr (page limit offset (sort_key (\<lambda>(e, i). (en_created e, en_id e)) rows)))"

definition store_List ::
  "'f pg_where \<Rightarrow> resource_kind \<Rightarrow> string \<Rightarrow> string \<Rightarrow> 'f Value list \<Rightarrow> int \<Rightarrow> int \<Rightarrow> (stored_row list \<times> nat) db" where
  "store_List pg_where k provider filterSQL filterArgs offset limit =
     bind (wrap_err (''count '' @ rk_noun k @ ''s'')
            (exec (\<lambda>q d. case select_where pg_where k provider filterSQL filterArgs q d of
                Inl e \<Rightarrow> Inl e | Inr rows \<Rightarrow> Inr (length rows, d)))) (\<lambda>total.
     bind (wrap_err (''list '' @ rk_noun k @ ''s'')
            (exec (\<lambda>q d. case select_where pg_where k provider filterSQL filterArgs q d of
                Inl e \<Rightarrow> Inl e
              | Inr rows \<Rightarrow> (case page_rows limit offset rows of Inl e \<Rightarrow> Inl e | Inr p \<Rightarrow> Inr (p, d))))) (\<lambda>rows.
     bind (lift_res (map_res (decode_row k) rows)) (\<lambda>results. ret (results, total))))"

text \<open>The \<open>UPDATE\<close> of \<open>Replace\<close>; the row must belong to the provider.\<close>

definition store_Update :: "resource_kind \<Rightarrow> string \<Rightarrow> uuid \<Rightarrow> json \<Rightarrow> gotime db" where
  "store_Update k provider i props =
     catch (scan_row (bind (exec (update_entities
              (\<lambda>q d e. en_id e = i \<and> (case find_type d (rk_type k) of None \<Rightarrow> False | Some t \<Rightarrow> en_type_id e = ty_id t)
                 \<and> list_ex (\<lambda>r. ei_entity_id r = i \<and> ei_provider r = provider) (db_identities d))
              (\<lambda>e. e\<lparr>en_properties := props\<rparr>)))
            (\<lambda>rows. ret (case rows of [] \<Rightarrow> None | e # _ \<Rightarrow> Some (en_updated e)))))
       (\<lambda>e. if is_no_rows e then throw (rk_NotFound k) else throw (Wrap (''update '' @ rk_noun k @ '' entity'') e))"

text \<open>\<open>scimActor\<close> and the audit entry of a SCIM operation.\<close>

definition scimActor :: "string \<Rightarrow> string" where
  "scimActor provider = ''scim:'' @ provider"

definition scim_audit :: "resource_kind \<Rightarrow> string \<Rightarrow> string \<Rightarrow> uuid \<Rightarrow> raw \<Rightarrow> raw \<Rightarrow> audit_entry" where
  "scim_audit k provider op i before after =
     \<lparr>ae_actor = scimActor provider, ae_operation = op, ae_resource_type = rk_noun k, ae_resource_id = i,
      ae_before = before, ae_after = after, ae_system = None\<rparr>"

text \<open>The transaction around every mutation of the two services.\<close>

definition in_tx :: "'a db \<Rightarrow> 'a db" where
  "in_tx = tx_do ''begin tx'' (wrap_err ''commit'')"

text \<open>Parsing and translating the filter of a list request.\<close>

definition list_filter ::
  "(string \<Rightarrow> 'f option) \<Rightarrow> ('f Expr \<Rightarrow> translate_msg + string \<times> 'f Value list) \<Rightarrow> goerr \<Rightarrow> string
     \<Rightarrow> (string \<times> 'f Value list) res" where
  "list_filter pf to_sql invalid filterStr =
     (if filterStr = [] then Inr ([], [])
      else case Parse pf filterStr of
             Inl e \<Rightarrow> Inl (Detailed invalid (FilterE e))
           | Inr expr \<Rightarrow> (case to_sql expr of
                Inl e \<Rightarrow> Inl (Detailed invalid (TranslateE e)) | Inr r \<Rightarrow> Inr r))"

subsection \<open>Which tables the repositories change\<close>

lemma preserving_query_exec:
  "reflp R \<Longrightarrow> (\<And>q d x d'. f q d = Inr (x, d') \<Longrightarrow> d' = d) \<Longrightarrow> preserving R (exec f)"
  by (rule preserving_exec) (blast dest: reflpD)+

lemma preserving_Get [db_intros]: "reflp R \<Longrightarrow> transp R \<Longrightarrow> preserving R (store_Get k p i)"
  unfolding store_Get_def by (intro db_intros)

lemma preserving_List [db_intros]: "reflp R \<Longrightarrow> transp R \<Longrightarrow> preserving R (store_List w k p sql args off lim)"
  unfolding store_List_def
  by (intro db_intros preserving_query_exec) (auto split: sum.splits)

lemma store_audit [db_intros]:
  "preserving same_audit (store_Create k p sub props)"
  "preserving same_audit (store_Delete k p i)"
  "preserving same_audit (store_Update k p i j)"
  unfolding store_Create_def store_Delete_def store_Update_def
  by (intro db_intros)+

lemma keeps_snapshot_store [db_intros]:
  "keeps_snapshot (store_Create k p sub props)" "keeps_snapshot (store_Delete k p i)"
  "keeps_snapshot (store_Update k p i j)" "keeps_snapshot (store_Get k p i)"
  by (rule preserving_keeps_snapshot [where R = same_audit], intro db_intros)+

end
