(* ===== verification/Pg_Integrity.thy ===== *)
theory Pg_Integrity
  imports Pg_Tables
begin

section \<open>The integrity of the tables\<close>

text \<open>
  What the keys of the schema promise: unique type and entity identifiers, unique type names, unique (type, external id), unique
  (provider, subject), unique relations, and references that lead to entities. Every statement keeps
  it, so every service does, whatever fails in between.
\<close>

definition entity_ids :: "database \<Rightarrow> uuid set" where
  "entity_ids d = en_id ` set (db_entities d)"

definition relation_key :: "relation_row \<Rightarrow> uuid \<times> string \<times> uuid \<times> uuid option" where
  "relation_key r = (rl_subject r, rl_type r, rl_target r, rl_system r)"

definition db_ok :: "database \<Rightarrow> bool" where
  "db_ok d \<longleftrightarrow> distinct (map ty_id (db_types d)) \<and> distinct (map ty_name (db_types d))
     \<and> distinct (map en_id (db_entities d))
     \<and> distinct (map (\<lambda>e. (en_type_id e, en_external_id e)) (db_entities d))
     \<and> distinct (map (\<lambda>i. (ei_provider i, ei_subject i)) (db_identities d))
     \<and> distinct (map relation_key (db_relations d))
     \<and> (\<forall>i \<in> set (db_identities d). ei_entity_id i \<in> entity_ids d)
     \<and> (\<forall>r \<in> set (db_relations d). rl_subject r \<in> entity_ids d \<and> rl_target r \<in> entity_ids d)"

definition keeps_ok :: "database \<Rightarrow> database \<Rightarrow> bool" where
  "keeps_ok d d' \<longleftrightarrow> (db_ok d \<longrightarrow> db_ok d')"

lemma keeps_ok_props [db_intros]: "reflp keeps_ok" "transp keeps_ok"
  by (auto simp: keeps_ok_def intro!: reflpI transpI)

lemma distinct_map_filterI: "distinct (map f xs) \<Longrightarrow> distinct (map f (filter P xs))"
  by (induction xs) auto

lemma distinct_map_snoc: "distinct (map f (xs @ [x])) \<longleftrightarrow> distinct (map f xs) \<and> (\<forall>y \<in> set xs. f y \<noteq> f x)"
  by (simp, metis image_iff)

lemma db_ok_insert_entity: "insert_entity tid ext props sys q d = Inr (e, d') \<Longrightarrow> db_ok d \<Longrightarrow> db_ok d'"
  by (auto simp: insert_entity_def pg_error_def db_ok_def entity_ids_def list_ex_iff Let_def distinct_map_snoc
      simp del: map_append distinct_append split: if_splits)

lemma db_ok_insert_entity_of_type:
  "insert_entity_of_type tname ext props q d = Inr (e, d') \<Longrightarrow> db_ok d \<Longrightarrow> db_ok d'"
  by (auto simp: insert_entity_of_type_def split: option.splits sum.splits dest: db_ok_insert_entity)

lemma db_ok_insert_identity: "insert_identity eid p sub q d = Inr (x, d') \<Longrightarrow> db_ok d \<Longrightarrow> db_ok d'"
  by (auto simp: insert_identity_def pg_error_def db_ok_def entity_ids_def list_ex_iff Let_def distinct_map_snoc
      simp del: map_append distinct_append split: if_splits)

lemma db_ok_delete_identities: "delete_identities P q d = Inr (n, d') \<Longrightarrow> db_ok d \<Longrightarrow> db_ok d'"
  by (auto simp: delete_identities_def db_ok_def entity_ids_def intro: distinct_map_filterI)

lemma db_ok_insert_relation: "insert_relation s t g sys q d = Inr (x, d') \<Longrightarrow> db_ok d \<Longrightarrow> db_ok d'"
  by (auto simp: insert_relation_def pg_error_def db_ok_def entity_ids_def relation_key_def list_ex_iff Let_def
      distinct_map_snoc simp del: map_append distinct_append split: if_splits)

lemma db_ok_delete_relations: "delete_relations P q d = Inr (n, d') \<Longrightarrow> db_ok d \<Longrightarrow> db_ok d'"
  by (auto simp: delete_relations_def Let_def db_ok_def entity_ids_def intro: distinct_map_filterI)

lemma db_ok_cascade_delete: "db_ok d \<Longrightarrow> db_ok (cascade_delete ids d)"
  by (auto simp: cascade_delete_def db_ok_def entity_ids_def intro: distinct_map_filterI)

lemma db_ok_delete_entities: "delete_entities P q d = Inr (n, d') \<Longrightarrow> db_ok d \<Longrightarrow> db_ok d'"
  by (auto simp: delete_entities_def Let_def pg_error_def split: if_splits intro: db_ok_cascade_delete)

lemma map_cong_keys:
  "(\<And>e. en_id (f e) = en_id e \<and> en_type_id (f e) = en_type_id e \<and> en_external_id (f e) = en_external_id e) \<Longrightarrow>
   map en_id (map (\<lambda>e. if P e then (f e)\<lparr>en_updated := t\<rparr> else e) xs) = map en_id xs \<and>
   map (\<lambda>e. (en_type_id e, en_external_id e)) (map (\<lambda>e. if P e then (f e)\<lparr>en_updated := t\<rparr> else e) xs)
     = map (\<lambda>e. (en_type_id e, en_external_id e)) xs"
  by auto

lemma db_ok_update_entities:
  assumes "update_entities P f q d = Inr (x, d')" "db_ok d"
    and "\<And>e. en_id (f e) = en_id e \<and> en_type_id (f e) = en_type_id e \<and> en_external_id (f e) = en_external_id e"
  shows "db_ok d'"
proof -
  from assms(1) have d': "d' = d\<lparr>db_entities := map (\<lambda>e. if visible q (en_system_id e) \<and> P q d e
      then (f e)\<lparr>en_updated := q_now q\<rparr> else e) (db_entities d)\<rparr>"
    by (simp add: update_entities_def Let_def)
  have keys: "map en_id (db_entities d') = map en_id (db_entities d)"
    "map (\<lambda>e. (en_type_id e, en_external_id e)) (db_entities d') = map (\<lambda>e. (en_type_id e, en_external_id e)) (db_entities d)"
    using map_cong_keys [where f = f and P = "\<lambda>e. visible q (en_system_id e) \<and> P q d e"
      and t = "q_now q" and xs = "db_entities d", OF assms(3)] by (simp_all only: d') simp_all
  have rest: "db_types d' = db_types d" "db_identities d' = db_identities d" "db_relations d' = db_relations d" by (simp_all add: d')
  have "entity_ids d' = entity_ids d"
    using arg_cong [where f = set, OF keys(1)] by (simp add: entity_ids_def)
  with assms(2) show ?thesis unfolding db_ok_def keys rest by simp
qed

lemma keeps_ok_statements [db_intros]:
  "preserving keeps_ok (exec (insert_entity tid ext props sys))"
  "preserving keeps_ok (exec (insert_entity_of_type tname ext props))"
  "preserving keeps_ok (exec (insert_identity eid p sub))"
  "preserving keeps_ok (exec (delete_identities Q))"
  "preserving keeps_ok (exec (insert_relation subj rtype tgt sys))"
  "preserving keeps_ok (exec (delete_relations R))"
  "preserving keeps_ok (exec (delete_entities S))"
  by (rule preserving_exec; auto simp: keeps_ok_def intro: reflpI db_ok_insert_entity db_ok_insert_entity_of_type
      db_ok_insert_identity db_ok_delete_identities db_ok_insert_relation db_ok_delete_relations
      db_ok_delete_entities)+

lemma keeps_ok_update [db_intros]:
  "(\<And>e. en_id (f e) = en_id e \<and> en_type_id (f e) = en_type_id e \<and> en_external_id (f e) = en_external_id e) \<Longrightarrow>
   preserving keeps_ok (exec (update_entities P f))"
  by (rule preserving_exec) (auto simp: keeps_ok_def intro: reflpI db_ok_update_entities)

lemma keeps_ok_audit [db_intros]: "preserving keeps_ok (audit_Write a)"
  unfolding audit_Write_def
  by (intro db_intros preserving_exec)
    (auto simp: keeps_ok_def insert_audit_def pg_error_def db_ok_def entity_ids_def split: if_splits)

subsection \<open>A transaction keeps what its statements keep\<close>

lemma tx_do_preserves:
  assumes "tx_do c (wrap_err cc) m w s = (r, s')" "s_tx s = None" "preserving R m" "reflp R"
  shows "R (s_db s) (s_db s') \<and> s_tx s' = None"
proof -
  note at = tx_do_atomic [where wrap = "wrap_err cc", OF assms(1,2) preserving_keeps_snapshot [OF assms(3)] wrap_commit]
  have step: "R (s_db s1) (s_db s2)" if "m w s1 = (Inr x, s2)" for s1 x s2
    using preservingD(1) [OF assms(3) that] .
  show ?thesis
  proof (cases r)
    case (Inl e)
    with at step assms(4) show ?thesis by (auto simp: reflpD) (metis step)
  next
    case (Inr x)
    with at step show ?thesis by (auto) (metis step)
  qed
qed

end
