(* ===== verification/Db_Laws.thy ===== *)
theory Db_Laws
  imports Pg_Integrity
begin

section \<open>Laws of programs that talk to the database\<close>

text \<open>
  What a successful run did: rules that open a program at its statements (\<open>_Inr\<close>), the calculus
  \<open>ensures\<close> for successes, \<open>safe\<close> for whole requests outside a transaction and \<open>atomic\<close> for requests
  that change all or nothing. The services of all components are reasoned about with these.
\<close>

subsection \<open>Opening a run\<close>

lemma wrap_err_Inr [simp]: "wrap_err c m w s = (Inr x, s') \<longleftrightarrow> m w s = (Inr x, s')"
  by (simp add: wrap_err_def catch_Inr throw_def)

lemma catch_throw_Inr [simp]: "catch m (\<lambda>e. throw (h e)) w s = (Inr x, s') \<longleftrightarrow> m w s = (Inr x, s')"
  by (simp add: catch_Inr throw_def)

lemma catch_throw_if_Inr [simp]:
  "catch m (\<lambda>e. if P e then throw (h e) else throw (h' e)) w s = (Inr x, s') \<longleftrightarrow> m w s = (Inr x, s')"
  by (auto simp: catch_Inr throw_def split: if_splits)

lemma scan_row_Inr [simp]: "scan_row m w s = (Inr x, s') \<longleftrightarrow> m w s = (Inr (Some x), s')"
  by (auto simp: scan_row_def bind_Inr throw_def ret_def split: option.splits)

lemma ret_Inr [simp]: "ret x w s = (Inr y, s') \<longleftrightarrow> y = x \<and> s' = s"
  by (auto simp: ret_def)

lemma throw_Inr [simp]: "throw e w s = (Inr y, s') \<longleftrightarrow> False"
  by (simp add: throw_def)

lemma lift_res_Inr [simp]: "lift_res r w s = (Inr y, s') \<longleftrightarrow> r = Inr y \<and> s' = s"
  by (auto simp: lift_res_def throw_def ret_def split: sum.splits)

lemma audit_Write_Inr:
  assumes "audit_Write a w s = (Inr x, s')"
  shows "\<exists>row. s_db s' = (s_db s)\<lparr>db_audit := db_audit (s_db s) @ [row]\<rparr>"
proof -
  from assms have "exec (insert_audit a) w s = (Inr x, s')" by (simp add: audit_Write_def)
  from exec_Inr [OF this] obtain q where "insert_audit a q (s_db s) = Inr (x, s_db s')" by blast
  then have "s_db s' = (s_db s)\<lparr>db_audit := db_audit (s_db s) @ [audit_row_of a q]\<rparr>"
    by (auto simp: insert_audit_def pg_error_def split: if_splits)
  then show ?thesis by blast
qed

definition ctx_in :: "world \<Rightarrow> sess \<Rightarrow> query_ctx \<Rightarrow> bool" where
  "ctx_in w s q \<longleftrightarrow> q_bypass q = w_bypass_rls w
     \<and> (case s_tx s of None \<Rightarrow> q_setting q = w_unset w (s_n s) | Some t \<Rightarrow> q_setting q = tx_setting t)"

lemma exec_Inr_ctx:
  assumes "exec f w s = (Inr x, s')"
  obtains q where "f q (s_db s) = Inr (x, s_db s')" "ctx_in w s q" "s_tx s' = s_tx s"
  using exec_Inr [OF assms] by (auto simp: ctx_in_def split: option.splits)

lemma query_row_Inr:
  assumes "query_row f w s = (Inr x, s')"
  shows "\<exists>q ys. f q (s_db s) = x # ys \<and> s_db s' = s_db s \<and> ctx_in w s q \<and> s_tx s' = s_tx s"
proof -
  from assms have ex: "exec (\<lambda>q d. Inr (case f q d of [] \<Rightarrow> None | x # _ \<Rightarrow> Some x, d)) w s = (Inr (Some x), s')"
    by (simp add: query_row_def query_def)
  from exec_Inr_ctx [OF ex] obtain q where
    eq: "Inr (case f q (s_db s) of [] \<Rightarrow> None | x # _ \<Rightarrow> Some x, s_db s) = (Inr (Some x, s_db s') :: dberr + _)"
    and q: "ctx_in w s q" "s_tx s' = s_tx s" .
  from eq have db: "s_db s' = s_db s" by simp
  from eq obtain ys where "f q (s_db s) = x # ys" by (cases "f q (s_db s)") simp_all
  with q db show ?thesis by blast
qed

lemma query_Inr:
  assumes "query f w s = (Inr x, s')"
  shows "\<exists>q. x = f q (s_db s) \<and> s_db s' = s_db s"
proof -
  from exec_Inr_ctx [OF assms [unfolded query_def]] obtain q where "Inr (f q (s_db s), s_db s) = (Inr (x, s_db s') :: dberr + _)" .
  then show ?thesis by auto
qed

lemma exec_aborts:
  assumes "exec f w s = (Inl e, s')" "s_tx s = Some t"
  shows "\<exists>t'. s_tx s' = Some t' \<and> tx_aborted t'"
  using assms by (auto simp: exec_def Let_def split: if_splits option.splits sum.splits)

lemma exec_not_aborted: "exec f w s = (Inr x, s') \<Longrightarrow> s_tx s = Some t \<Longrightarrow> tx_aborted t \<Longrightarrow> False"
  by (simp add: exec_def Let_def)

subsection \<open>Effects of successful runs\<close>

text \<open>
  \<open>ensures R m\<close>: a success of \<open>m\<close> relates the tables by \<open>R\<close>. In a transaction nothing else counts.
\<close>

definition ensures :: "(database \<Rightarrow> database \<Rightarrow> bool) \<Rightarrow> 'a db \<Rightarrow> bool" where
  "ensures R m \<longleftrightarrow> (\<forall>w s x s'. m w s = (Inr x, s') \<longrightarrow> R (s_db s) (s_db s'))"

lemma ensuresI: "(\<And>w s x s'. m w s = (Inr x, s') \<Longrightarrow> R (s_db s) (s_db s')) \<Longrightarrow> ensures R m"
  unfolding ensures_def by blast

lemma ensuresD: "ensures R m \<Longrightarrow> m w s = (Inr x, s') \<Longrightarrow> R (s_db s) (s_db s')"
  unfolding ensures_def by blast

lemma ensures_bind [db_intros]:
  assumes "transp R" "ensures R m" "\<And>x. ensures R (f x)"
  shows "ensures R (bind m f)"
  by (rule ensuresI) (auto simp: bind_Inr dest!: ensuresD [OF assms(2)] ensuresD [OF assms(3)] elim: transpE [OF assms(1)])

lemma ensures_simple [db_intros]:
  "reflp R \<Longrightarrow> ensures R (ret x)" "ensures R (throw e)" "reflp R \<Longrightarrow> ensures R (lift_res r)"
  "ensures R m \<Longrightarrow> ensures R m' \<Longrightarrow> ensures R (if b then m else m')"
  "ensures R m \<Longrightarrow> ensures R (wrap_err c m)"
  by (auto simp: ensures_def reflpD)

lemma preserving_ensures: "preserving R m \<Longrightarrow> ensures R m"
  by (rule ensuresI) (rule preservingD(1))

lemma tx_do_ensures:
  assumes "tx_do c (wrap_err cc) m w s = (r, s')" "s_tx s = None" "keeps_snapshot m" "ensures R m" "reflp R"
  shows "R (s_db s) (s_db s') \<and> s_tx s' = None"
proof -
  note at = tx_do_atomic [where wrap = "wrap_err cc", OF assms(1-3) wrap_commit]
  show ?thesis
  proof (cases r)
    case (Inl e)
    with at have "s_db s' = s_db s \<or> (\<exists>x s1 s2. s_db s1 = s_db s \<and> m w s1 = (Inr x, s2) \<and> s_db s' = s_db s2)"
      and "s_tx s' = None" by auto
    with ensuresD [OF assms(4)] assms(5) show ?thesis by (metis reflpD)
  next
    case (Inr x)
    with at have "\<exists>s1 s2. s_db s1 = s_db s \<and> m w s1 = (Inr x, s2) \<and> s_db s' = s_db s2" "s_tx s' = None" by auto
    with ensuresD [OF assms(4)] show ?thesis by metis
  qed
qed

subsection \<open>Requests\<close>

definition quietly :: "'a db \<Rightarrow> unit db" where
  "quietly m = bind m (\<lambda>_. ret ())"

text \<open>What a request does to the tables outside its transaction: nothing, or what its body does.\<close>

definition safe :: "(database \<Rightarrow> database \<Rightarrow> bool) \<Rightarrow> 'a db \<Rightarrow> bool" where
  "safe R m \<longleftrightarrow> (\<forall>w (s :: sess). s_tx s = None \<longrightarrow> R (s_db s) (s_db (snd (m w s))) \<and> s_tx (snd (m w s)) = None)"

lemma safeD: "safe R m \<Longrightarrow> s_tx (s :: sess) = None \<Longrightarrow> R (s_db s) (s_db (snd (m w s))) \<and> s_tx (snd (m w s)) = None"
  unfolding safe_def by blast

lemma safe_bind:
  assumes "transp R" "safe R m" "\<And>x. safe R (f x)"
  shows "safe R (bind m f)"
  unfolding safe_def
proof (intro allI impI)
  fix w and s :: sess assume s: "s_tx s = None"
  obtain r s1 where m: "m w s = (r, s1)" by fastforce
  from safeD [OF assms(2) s, of w] m have 1: "R (s_db s) (s_db s1)" "s_tx s1 = None" by simp_all
  show "R (s_db s) (s_db (snd (bind m f w s))) \<and> s_tx (snd (bind m f w s)) = None"
    using 1 safeD [OF assms(3) 1(2)] transpD [OF assms(1) 1(1)] by (cases r) (auto simp: bind_def m)
qed

lemma safe_simple:
  "reflp R \<Longrightarrow> safe R (ret x)" "reflp R \<Longrightarrow> safe R (throw e)" "reflp R \<Longrightarrow> safe R (lift_res r)"
  "safe R m \<Longrightarrow> safe R m' \<Longrightarrow> safe R (if b then m else m')"
  by (auto simp: safe_def ret_def throw_def db_simps reflpD)

text \<open>All or nothing: the database as it was, or the change with its record.\<close>

definition atomic :: "world \<Rightarrow> (audit_row \<Rightarrow> bool) \<Rightarrow> 'a db \<Rightarrow> bool" where
  "atomic w P m \<longleftrightarrow> (\<forall>s :: sess. s_tx s = None \<longrightarrow>
     (case m w s of
        (Inl e, s') \<Rightarrow> s_db s' = s_db s
      | (Inr x, s') \<Rightarrow> \<exists>row. db_audit (s_db s') = db_audit (s_db s) @ [row] \<and> P row))"

lemma atomicD:
  "atomic w P m \<Longrightarrow> s_tx (s :: sess) = None \<Longrightarrow> m w s = (r, s') \<Longrightarrow>
     (case r of Inl e \<Rightarrow> s_db s' = s_db s | Inr x \<Rightarrow> \<exists>row. db_audit (s_db s') = db_audit (s_db s) @ [row] \<and> P row)"
  unfolding atomic_def by (drule spec [of _ s]) (simp split: sum.splits)

lemma atomicI:
  "(\<And>(s :: sess) r s'. s_tx s = None \<Longrightarrow> m w s = (r, s') \<Longrightarrow>
     case r of Inl e \<Rightarrow> s_db s' = s_db s | Inr x \<Rightarrow> \<exists>row. db_audit (s_db s') = db_audit (s_db s) @ [row] \<and> P row)
   \<Longrightarrow> atomic w P m"
  unfolding atomic_def by (auto split: prod.splits sum.splits)

lemma atomic_then: "atomic w P m \<Longrightarrow> atomic w P (bind m (\<lambda>x. ret (f x)))"
  by (rule atomicI) (auto simp: bind_def ret_def split: prod.splits sum.splits dest: atomicD)

lemma atomic_quietly: "atomic w P m \<Longrightarrow> atomic w P (quietly m)"
  unfolding quietly_def by (rule atomic_then)

lemma atomic_throw: "atomic w P (throw e)"
  by (simp add: atomic_def throw_def)

lemma atomic_if: "atomic w P m \<Longrightarrow> atomic w P m' \<Longrightarrow> atomic w P (if b then m else m')"
  by simp

lemma atomic_lift: "(\<And>x. atomic w P (f x)) \<Longrightarrow> atomic w P (bind (lift_res r) f)"
  unfolding atomic_def by (cases r) (simp_all add: bind_def lift_res_def throw_def ret_def)

lemma audits_weaken: "audits P m \<Longrightarrow> (\<And>x row. P x row \<Longrightarrow> Q x row) \<Longrightarrow> audits Q m"
  unfolding audits_def by blast

end
