(* ===== verification/Identity.thy ===== *)
theory Identity
  imports Go_Errors
begin

section \<open>Caller identities and roles (\<open>internal/auth\<close>, \<open>internal/api/middleware\<close>)\<close>

text \<open>
  The identity of a request, its role tests, the two authenticators that produce one (client
  certificates here, tokens as far as \<open>AuthenticateRaw\<close> goes) and the middlewares that decide on it.
  A middleware returns the error response it writes (\<open>Inl\<close>) or lets the request through (\<open>Inr\<close>).
  The JWT library is a record of functions, \<open>uuid.Parse\<close> and \<open>UUID.String\<close> are parameters.
\<close>

record identity =
  id_Subject :: string
  id_Provider :: string
  id_EntityID :: uuid
  id_Groups :: "string list"
  id_AllowedSystems :: "uuid list"
  id_IsPlatformAdmin :: bool
  id_IsSystemAdmin :: bool
  id_ActiveSystemID :: "uuid option"
  id_AuthMode :: string

definition hasGroup :: "identity \<Rightarrow> string \<Rightarrow> bool" where
  "hasGroup i externalID \<longleftrightarrow> externalID \<in> set (id_Groups i)"

definition HasRole :: "identity \<Rightarrow> string \<Rightarrow> bool" where
  "HasRole i role =
     (if role = ''admin'' then id_IsPlatformAdmin i
      else if role = ''system-admin'' then id_IsPlatformAdmin i \<or> id_IsSystemAdmin i
      else if role = ''editor'' then id_IsPlatformAdmin i \<or> id_IsSystemAdmin i \<or> hasGroup i ''oad:editor''
      else if role = ''viewer'' then
        id_IsPlatformAdmin i \<or> id_IsSystemAdmin i \<or> hasGroup i ''oad:editor'' \<or> hasGroup i ''oad:viewer''
      else False)"

definition HasAnyRole :: "identity \<Rightarrow> string list \<Rightarrow> bool" where
  "HasAnyRole i roles = list_ex (HasRole i) roles"

definition ActorString :: "(uuid \<Rightarrow> string) \<Rightarrow> identity \<Rightarrow> string" where
  "ActorString uuid_string i =
     (if id_EntityID i \<noteq> uuid_Nil then ''user:'' @ uuid_string (id_EntityID i) else id_Subject i)"

subsection \<open>The role hierarchy as an order\<close>

text \<open>
  The abstract contract of the role tests: every identity has one access level, levels are totally
  ordered, and a role is a demand for a level.
\<close>

datatype access = NoAccess | Viewer | Editor | SystemAdmin | PlatformAdmin

fun access_rank :: "access \<Rightarrow> nat" where
  "access_rank NoAccess = 0"
| "access_rank Viewer = 1"
| "access_rank Editor = 2"
| "access_rank SystemAdmin = 3"
| "access_rank PlatformAdmin = 4"

lemma access_rank_inj: "access_rank a = access_rank b \<Longrightarrow> a = b"
  by (cases a; cases b) auto

instantiation access :: linorder
begin

definition less_eq_access :: "access \<Rightarrow> access \<Rightarrow> bool" where
  "less_eq_access a b \<longleftrightarrow> access_rank a \<le> access_rank b"

definition less_access :: "access \<Rightarrow> access \<Rightarrow> bool" where
  "less_access a b \<longleftrightarrow> access_rank a < access_rank b"

instance
  by standard (auto simp: less_eq_access_def less_access_def access_rank_inj)

end

definition access_of :: "identity \<Rightarrow> access" where
  "access_of i =
     (if id_IsPlatformAdmin i then PlatformAdmin
      else if id_IsSystemAdmin i then SystemAdmin
      else if ''oad:editor'' \<in> set (id_Groups i) then Editor
      else if ''oad:viewer'' \<in> set (id_Groups i) then Viewer
      else NoAccess)"

definition role_level :: "string \<Rightarrow> access option" where
  "role_level = map_of [(''admin'', PlatformAdmin), (''system-admin'', SystemAdmin),
     (''editor'', Editor), (''viewer'', Viewer)]"

lemma HasRole_level:
  "HasRole i role \<longleftrightarrow> (case role_level role of None \<Rightarrow> False | Some lvl \<Rightarrow> lvl \<le> access_of i)"
  by (auto simp: HasRole_def role_level_def access_of_def hasGroup_def less_eq_access_def split: if_splits)

lemma HasAnyRole_level:
  "HasAnyRole i roles \<longleftrightarrow> (\<exists>role \<in> set roles. \<exists>lvl. role_level role = Some lvl \<and> lvl \<le> access_of i)"
  by (auto simp: HasAnyRole_def list_ex_iff HasRole_level split: option.splits)

subsection \<open>Client certificates (\<open>mtls.go\<close>)\<close>

record http_request =
  rq_peer_certs :: "(string \<times> string list) list"
  rq_header :: "string \<Rightarrow> string"
  rq_url_param :: "string \<Rightarrow> string"

definition new_identity :: "string \<Rightarrow> string \<Rightarrow> string \<Rightarrow> identity" where
  "new_identity sub provider auth_mode =
     \<lparr>id_Subject = sub, id_Provider = provider, id_EntityID = uuid_Nil, id_Groups = [],
      id_AllowedSystems = [], id_IsPlatformAdmin = False, id_IsSystemAdmin = False,
      id_ActiveSystemID = None, id_AuthMode = auth_mode\<rparr>"

definition apply_ou :: "string \<Rightarrow> identity \<Rightarrow> identity" where
  "apply_ou ou i =
     (if ou = ''admin'' then i\<lparr>id_IsPlatformAdmin := True\<rparr>
      else if ou = ''editor'' then i\<lparr>id_Groups := id_Groups i @ [''oad:editor'']\<rparr>
      else if ou = ''viewer'' then i\<lparr>id_Groups := id_Groups i @ [''oad:viewer'']\<rparr>
      else i)"

definition buildMTLSIdentity :: "string \<Rightarrow> string list \<Rightarrow> identity" where
  "buildMTLSIdentity cn ous = fold apply_ou ous (new_identity cn ''mtls'' ''mtls'')"

text \<open>The request's certificates are empty when the connection is not TLS.\<close>

definition mtls_Authenticate :: "string \<Rightarrow> http_request \<Rightarrow> identity res" where
  "mtls_Authenticate headerName r =
     (case rq_peer_certs r of
        (cn, ous) # _ \<Rightarrow> Inr (buildMTLSIdentity cn ous)
      | [] \<Rightarrow> (let cn = rq_header r headerName in
                if cn = [] then Inl (Text ''no client certificate presented'')
                else Inr (buildMTLSIdentity cn [])))"

lemma fold_apply_ou:
  "id_IsPlatformAdmin (fold apply_ou ous i) \<longleftrightarrow> id_IsPlatformAdmin i \<or> ''admin'' \<in> set ous"
  "id_IsSystemAdmin (fold apply_ou ous i) = id_IsSystemAdmin i"
  "set (id_Groups (fold apply_ou ous i)) = set (id_Groups i)
     \<union> (if ''editor'' \<in> set ous then {''oad:editor''} else {})
     \<union> (if ''viewer'' \<in> set ous then {''oad:viewer''} else {})"
  "id_Subject (fold apply_ou ous i) = id_Subject i"
  "id_AllowedSystems (fold apply_ou ous i) = id_AllowedSystems i"
  "id_EntityID (fold apply_ou ous i) = id_EntityID i"
  "id_ActiveSystemID (fold apply_ou ous i) = id_ActiveSystemID i"
  by (induction ous arbitrary: i) (auto simp: apply_ou_def)

lemma new_identity_simps [simp]:
  "id_IsPlatformAdmin (new_identity s p m) = False" "id_IsSystemAdmin (new_identity s p m) = False"
  "id_Groups (new_identity s p m) = []" "id_Subject (new_identity s p m) = s"
  "id_AllowedSystems (new_identity s p m) = []" "id_EntityID (new_identity s p m) = uuid_Nil"
  "id_ActiveSystemID (new_identity s p m) = None" "id_Provider (new_identity s p m) = p"
  by (simp_all add: new_identity_def)

lemma mtls_access:
  "access_of (buildMTLSIdentity cn ous) =
     (if ''admin'' \<in> set ous then PlatformAdmin else if ''editor'' \<in> set ous then Editor
      else if ''viewer'' \<in> set ous then Viewer else NoAccess)"
  by (simp add: buildMTLSIdentity_def access_of_def fold_apply_ou)

subsection \<open>Tokens (\<open>jwt.go\<close>)\<close>

record jwt_provider =
  pr_Name :: string
  pr_JWKSURL :: string
  pr_Issuer :: string
  pr_Audience :: string

datatype RawToken = RawToken (raw_Provider: string) (raw_Subject: string)

text \<open>
  The token library: \<open>jl_ParseInsecure\<close> reads the issuer without checking the signature,
  \<open>jl_Register\<close>, \<open>jl_Refresh\<close> and \<open>jl_Get\<close> are the key cache, \<open>jl_Parse\<close> checks signature, times,
  issuer and audience and returns the subject.
\<close>

record 'k jwt_lib =
  jl_ParseInsecure :: "string \<Rightarrow> string res"
  jl_Register :: "string \<Rightarrow> unit res"
  jl_Refresh :: "string \<Rightarrow> unit res"
  jl_Get :: "string \<Rightarrow> 'k res"
  jl_Parse :: "string \<Rightarrow> 'k \<Rightarrow> string \<Rightarrow> string \<Rightarrow> string res"

fun register_providers ::
  "'k jwt_lib \<Rightarrow> jwt_provider list \<Rightarrow> (string \<Rightarrow> jwt_provider option) \<Rightarrow> (string \<Rightarrow> jwt_provider option) res" where
  "register_providers lib [] byIssuer = Inr byIssuer"
| "register_providers lib (p # ps) byIssuer =
     (if pr_Name p = [] then Inl (Text ''provider has empty name'')
      else case jl_Register lib (pr_JWKSURL p) of
        Inl e \<Rightarrow> Inl (Wrap ''registering JWKS URL'' e)
      | Inr _ \<Rightarrow>
          (case jl_Refresh lib (pr_JWKSURL p) of
             Inl e \<Rightarrow> Inl (Wrap ''initial JWKS fetch'' e)
           | Inr _ \<Rightarrow> register_providers lib ps (byIssuer(pr_Issuer p \<mapsto> p))))"

definition NewJWTAuthenticator ::
  "'k jwt_lib \<Rightarrow> jwt_provider list \<Rightarrow> (string \<Rightarrow> jwt_provider option) res" where
  "NewJWTAuthenticator lib providers =
     (if providers = [] then Inl (Text ''at least one provider is required'')
      else register_providers lib providers (\<lambda>_. None))"

definition AuthenticateRaw ::
  "'k jwt_lib \<Rightarrow> (string \<Rightarrow> jwt_provider option) \<Rightarrow> string \<Rightarrow> RawToken res" where
  "AuthenticateRaw lib providers token =
     (case jl_ParseInsecure lib token of
        Inl e \<Rightarrow> Inl (Wrap ''malformed token'' e)
      | Inr issuer \<Rightarrow>
          (case providers issuer of
             None \<Rightarrow> Inl (Text ''untrusted token issuer'')
           | Some p \<Rightarrow>
               (case jl_Get lib (pr_JWKSURL p) of
                  Inl e \<Rightarrow> Inl (Wrap ''fetching JWKS'' e)
                | Inr keySet \<Rightarrow>
                    (case jl_Parse lib token keySet (pr_Issuer p) (pr_Audience p) of
                       Inl e \<Rightarrow> Inl (Wrap ''invalid token'' e)
                     | Inr sub \<Rightarrow>
                         if sub = [] then Inl (Text ''token missing required sub claim'')
                         else Inr (RawToken (pr_Name p) sub)))))"

text \<open>A raw token is only issued for a configured provider whose keys verified it.\<close>

lemma AuthenticateRaw_verified:
  assumes "AuthenticateRaw lib providers token = Inr (RawToken prov sub)"
  shows "\<exists>issuer p keys. providers issuer = Some p \<and> jl_Get lib (pr_JWKSURL p) = Inr keys
     \<and> jl_Parse lib token keys (pr_Issuer p) (pr_Audience p) = Inr sub
     \<and> prov = pr_Name p \<and> sub \<noteq> []"
  using assms by (auto simp: AuthenticateRaw_def split: sum.splits option.splits if_splits)

lemma register_providers_mem:
  assumes "register_providers lib ps m = Inr m'" "m' issuer = Some p"
  shows "m issuer = Some p \<or> (p \<in> set ps \<and> pr_Issuer p = issuer \<and> pr_Name p \<noteq> [])"
  using assms
proof (induction ps arbitrary: m)
  case (Cons q ps)
  from Cons.prems(1) have "register_providers lib ps (m(pr_Issuer q \<mapsto> q)) = Inr m'" and q: "pr_Name q \<noteq> []"
    by (auto split: if_splits sum.splits)
  from Cons.IH [OF this(1) Cons.prems(2)] q show ?case by (auto split: if_splits)
qed simp

lemma NewJWTAuthenticator_mem:
  "NewJWTAuthenticator lib ps = Inr m \<Longrightarrow> m issuer = Some p \<Longrightarrow>
     p \<in> set ps \<and> pr_Issuer p = issuer \<and> pr_Name p \<noteq> []"
  using register_providers_mem [of lib ps "\<lambda>_. None" m issuer p]
  by (auto simp: NewJWTAuthenticator_def split: if_splits)

subsection \<open>Authorization middlewares (\<open>authz.go\<close>)\<close>

type_synonym gate = "APIError + unit"

definition missing_identity :: APIError where
  "missing_identity = api_Unauthorized [Lit ''missing identity'']"

definition RequireRole :: "string \<Rightarrow> identity option \<Rightarrow> gate" where
  "RequireRole role ctx =
     (case ctx of
        None \<Rightarrow> Inl missing_identity
      | Some i \<Rightarrow>
          if \<not> HasRole i role then Inl (api_Forbidden [Lit (''role '' @ role @ '' required'')])
          else Inr ())"

definition RequireAnyRole :: "string list \<Rightarrow> identity option \<Rightarrow> gate" where
  "RequireAnyRole roles ctx =
     (case ctx of
        None \<Rightarrow> Inl missing_identity
      | Some i \<Rightarrow>
          if \<not> HasAnyRole i roles then Inl (api_Forbidden [Lit ''insufficient role'']) else Inr ())"

definition RequirePlatformAdmin :: "identity option \<Rightarrow> gate" where
  "RequirePlatformAdmin ctx =
     (case ctx of
        None \<Rightarrow> Inl missing_identity
      | Some i \<Rightarrow>
          if \<not> id_IsPlatformAdmin i then Inl (api_Forbidden [Lit ''platform admin required'']) else Inr ())"

definition RequirePathSystemInScope ::
  "(string \<Rightarrow> uuid option) \<Rightarrow> string \<Rightarrow> http_request \<Rightarrow> identity option \<Rightarrow> gate" where
  "RequirePathSystemInScope uuid_parse pathParam r ctx =
     (case ctx of
        None \<Rightarrow> Inl missing_identity
      | Some i \<Rightarrow>
          (let rawID = rq_url_param r pathParam in
           case uuid_parse rawID of
             None \<Rightarrow> Inl (api_BadRequest [Lit (pathParam @ '' must be a valid UUID'')])
           | Some systemID \<Rightarrow>
               if id_IsPlatformAdmin i then Inr ()
               else if systemID \<in> set (id_AllowedSystems i) then Inr ()
               else Inl (api_Forbidden [Lit (''access denied to system '' @ rawID)])))"

definition RequireSystemScope :: "identity option \<Rightarrow> gate" where
  "RequireSystemScope ctx =
     (case ctx of
        None \<Rightarrow> Inl missing_identity
      | Some i \<Rightarrow>
          if id_ActiveSystemID i = None
          then Inl (api_BadRequest [Lit ''X-OAD-System-Id header required for this endpoint''])
          else Inr ())"

text \<open>A gate opens exactly for the identities the contract names.\<close>

lemma gates_open:
  "RequireRole role ctx = Inr () \<longleftrightarrow> (\<exists>i lvl. ctx = Some i \<and> role_level role = Some lvl \<and> lvl \<le> access_of i)"
  "RequireAnyRole roles ctx = Inr () \<longleftrightarrow>
     (\<exists>i. ctx = Some i \<and> (\<exists>role \<in> set roles. \<exists>lvl. role_level role = Some lvl \<and> lvl \<le> access_of i))"
  "RequirePlatformAdmin ctx = Inr () \<longleftrightarrow> (\<exists>i. ctx = Some i \<and> access_of i = PlatformAdmin)"
  by (auto simp: RequireRole_def RequireAnyRole_def RequirePlatformAdmin_def HasRole_level
      HasAnyRole_level access_of_def split: option.splits)

lemma path_gate_open:
  "RequirePathSystemInScope up param r ctx = Inr () \<longleftrightarrow>
     (\<exists>i sys. ctx = Some i \<and> up (rq_url_param r param) = Some sys
        \<and> (id_IsPlatformAdmin i \<or> sys \<in> set (id_AllowedSystems i)))"
  by (auto simp: RequirePathSystemInScope_def Let_def split: option.splits)

subsection \<open>Properties\<close>

text \<open>
  The role tests and the gates built on them implement one total order of access levels: an
  identity has a role exactly when its level is at least the role's, an unknown role is never held,
  and each gate lets a request through exactly then (never without an identity).
\<close>

theorem role_gates_refine_levels:
  "(HasRole i role \<longleftrightarrow> (\<exists>lvl. role_level role = Some lvl \<and> lvl \<le> access_of i))
   \<and> (RequireRole role ctx = Inr () \<longleftrightarrow>
        (\<exists>j lvl. ctx = Some j \<and> role_level role = Some lvl \<and> lvl \<le> access_of j))
   \<and> (RequireAnyRole roles ctx = Inr () \<longleftrightarrow>
        (\<exists>j. ctx = Some j \<and> (\<exists>r \<in> set roles. \<exists>lvl. role_level r = Some lvl \<and> lvl \<le> access_of j)))
   \<and> (RequirePlatformAdmin ctx = Inr () \<longleftrightarrow> (\<exists>j. ctx = Some j \<and> access_of j = PlatformAdmin))"
  using HasRole_level [of i role] gates_open(1) [of role ctx] gates_open(2) [of roles ctx] gates_open(3) [of ctx]
  by (auto split: option.splits)

text \<open>
  A client certificate grants exactly the level its organizational units name, never more than
  platform administration through the unit \<open>admin\<close>; a certificate name taken from the header of a
  TLS-terminating proxy carries no level at all, and an empty header is refused.
\<close>

theorem mtls_levels:
  "(case mtls_Authenticate h r of
      Inl e \<Rightarrow> rq_peer_certs r = [] \<and> rq_header r h = []
    | Inr i \<Rightarrow> id_EntityID i = uuid_Nil \<and> id_AllowedSystems i = [] \<and> id_ActiveSystemID i = None \<and>
        access_of i = (case rq_peer_certs r of
            [] \<Rightarrow> NoAccess
          | (cn, ous) # _ \<Rightarrow> (if ''admin'' \<in> set ous then PlatformAdmin
               else if ''editor'' \<in> set ous then Editor
               else if ''viewer'' \<in> set ous then Viewer else NoAccess)))"
  by (cases "rq_peer_certs r")
     (auto simp: mtls_Authenticate_def Let_def mtls_access, auto simp: buildMTLSIdentity_def fold_apply_ou)

end
