(* ===== verification/Identity_Cache.thy ===== *)
theory Identity_Cache
  imports Identity
begin

section \<open>The identity cache (\<open>internal/auth/cache.go\<close>)\<close>

text \<open>
  The cache holds pointers to identities: requests of one caller share the identity they get from
  it, and a write through the pointer is seen by all of them. Identities live on a heap
  (a list, a pointer is an index), list elements have identifiers and an element store, the map
  \<open>items\<close> and the list \<open>lru\<close> (front first) hold element identifiers as the Go fields hold element
  pointers. The three critical sections of \<open>Resolve\<close> and \<open>Invalidate\<close> are operations of their own,
  because the lock is free while the resolver runs.
\<close>

type_synonym ptr = nat
type_synonym element = nat

datatype cachedEntry = CachedEntry (ce_key: string) (ce_identity: ptr) (ce_expiresAt: gotime)

record identity_cache =
  ca_capacity :: int
  ca_ttl :: duration
  ca_items :: "string \<Rightarrow> element option"
  ca_lru :: "element list"
  ca_value :: "element \<Rightarrow> cachedEntry"
  ca_next :: element

definition NewIdentityCache :: "int \<Rightarrow> duration \<Rightarrow> identity_cache" where
  "NewIdentityCache capacity ttl =
     \<lparr>ca_capacity = capacity, ca_ttl = ttl, ca_items = (\<lambda>_. None), ca_lru = [],
      ca_value = (\<lambda>_. CachedEntry [] 0 0), ca_next = 0\<rparr>"

definition cache_key :: "string \<Rightarrow> string \<Rightarrow> string" where
  "cache_key provider sub = provider @ '':'' @ sub"

definition remove_item :: "string \<Rightarrow> element \<Rightarrow> identity_cache \<Rightarrow> identity_cache" where
  "remove_item key el c =
     c\<lparr>ca_lru := remove1 el (ca_lru c), ca_items := (ca_items c)(key := None)\<rparr>"

text \<open>The first critical section of \<open>Resolve\<close>: a hit moves its element to the front.\<close>

definition cache_lookup :: "gotime \<Rightarrow> string \<Rightarrow> identity_cache \<Rightarrow> ptr option \<times> identity_cache" where
  "cache_lookup now key c =
     (case ca_items c key of
        None \<Rightarrow> (None, c)
      | Some el \<Rightarrow>
          (let entry = ca_value c el in
           if now < ce_expiresAt entry then
             (Some (ce_identity entry),
              if el \<in> set (ca_lru c) then c\<lparr>ca_lru := el # remove1 el (ca_lru c)\<rparr> else c)
           else (None, remove_item key el c)))"

text \<open>The eviction loop, and the second critical section of \<open>Resolve\<close>.\<close>

function evict :: "identity_cache \<Rightarrow> identity_cache" where
  "evict c =
     (if ca_capacity c \<le> int (length (ca_lru c)) \<and> ca_lru c \<noteq> [] then
        (let oldest = last (ca_lru c) in
         evict (c\<lparr>ca_lru := butlast (ca_lru c),
                 ca_items := (ca_items c)(ce_key (ca_value c oldest) := None)\<rparr>))
      else c)"
  by pat_completeness auto
termination by (relation "measure (\<lambda>c. length (ca_lru c))") auto

declare evict.simps [simp del]

definition cache_store :: "gotime \<Rightarrow> string \<Rightarrow> ptr \<Rightarrow> identity_cache \<Rightarrow> identity_cache" where
  "cache_store now key p c0 =
     (let c = evict c0; el = ca_next c in
      c\<lparr>ca_value := (ca_value c)(el := CachedEntry key p (now + ca_ttl c)),
        ca_lru := el # ca_lru c, ca_items := (ca_items c)(key \<mapsto> el), ca_next := el + 1\<rparr>)"

definition Invalidate_key :: "string \<Rightarrow> identity_cache \<Rightarrow> identity_cache" where
  "Invalidate_key key c = (case ca_items c key of None \<Rightarrow> c | Some el \<Rightarrow> remove_item key el c)"

definition Invalidate :: "string \<Rightarrow> string \<Rightarrow> identity_cache \<Rightarrow> identity_cache" where
  "Invalidate provider sub c = Invalidate_key (cache_key provider sub) c"

text \<open>
  \<open>Resolve\<close> of one request running alone: \<open>now1\<close> and \<open>now2\<close> are the two readings of the clock,
  \<open>resolver\<close> is the identity resolver, which runs on a state of its own (the database session).
\<close>

record auth_state =
  as_cache :: identity_cache
  as_heap :: "identity list"

definition alloc_identity :: "identity \<Rightarrow> auth_state \<Rightarrow> ptr \<times> auth_state" where
  "alloc_identity i st = (length (as_heap st), st\<lparr>as_heap := as_heap st @ [i]\<rparr>)"

definition cache_Resolve ::
  "(string \<Rightarrow> string \<Rightarrow> 's \<Rightarrow> identity res \<times> 's) \<Rightarrow> gotime \<Rightarrow> gotime \<Rightarrow> string \<Rightarrow> string
     \<Rightarrow> auth_state \<Rightarrow> 's \<Rightarrow> ptr res \<times> auth_state \<times> 's" where
  "cache_Resolve resolver now1 now2 provider sub st s =
     (let key = cache_key provider sub in
      case cache_lookup now1 key (as_cache st) of
        (Some p, c) \<Rightarrow> (Inr p, st\<lparr>as_cache := c\<rparr>, s)
      | (None, c) \<Rightarrow>
          (case resolver provider sub s of
             (Inl e, s') \<Rightarrow> (Inl e, st\<lparr>as_cache := c\<rparr>, s')
           | (Inr i, s') \<Rightarrow>
               (let (p, st') = alloc_identity i st in
                (Inr p, st'\<lparr>as_cache := cache_store now2 key p c\<rparr>, s'))))"

subsection \<open>Well-formed caches\<close>

definition cache_ok :: "identity_cache \<Rightarrow> bool" where
  "cache_ok c \<longleftrightarrow>
     (\<forall>k el. ca_items c k = Some el \<longrightarrow> el \<in> set (ca_lru c) \<and> ce_key (ca_value c el) = k)
     \<and> distinct (ca_lru c) \<and> (\<forall>el \<in> set (ca_lru c). el < ca_next c)"

definition cache_view :: "identity_cache \<Rightarrow> string \<Rightarrow> (ptr \<times> gotime) option" where
  "cache_view c k = (case ca_items c k of None \<Rightarrow> None
     | Some el \<Rightarrow> Some (ce_identity (ca_value c el), ce_expiresAt (ca_value c el)))"

lemma cache_okD:
  assumes "cache_ok c"
  shows "ca_items c k = Some el \<Longrightarrow> el \<in> set (ca_lru c)"
    and "ca_items c k = Some el \<Longrightarrow> ce_key (ca_value c el) = k"
    and "distinct (ca_lru c)" and "el \<in> set (ca_lru c) \<Longrightarrow> el < ca_next c"
  using assms by (auto simp: cache_ok_def)

lemma new_cache_ok: "cache_ok (NewIdentityCache capacity ttl)"
  by (simp add: cache_ok_def NewIdentityCache_def)

lemma remove_item_ok: "cache_ok c \<Longrightarrow> ca_items c k = Some el \<Longrightarrow> cache_ok (remove_item k el c)"
proof -
  assume ok: "cache_ok c" and k: "ca_items c k = Some el"
  have "ca_items c k' = Some el \<Longrightarrow> k' = k" for k' using ok k by (auto dest: cache_okD(2))
  with ok show ?thesis by (auto simp: cache_ok_def remove_item_def set_remove1_distinct)
qed

lemma remove_item_view: "cache_view (remove_item k el c) = (cache_view c)(k := None)"
  by (auto simp: cache_view_def remove_item_def fun_eq_iff split: option.split)

lemma lookup_ok: "cache_ok c \<Longrightarrow> cache_ok (snd (cache_lookup now k c))"
  by (auto simp: cache_lookup_def Let_def remove_item_ok split: option.splits)
     (auto simp: cache_ok_def set_remove1_distinct)

lemma lookup_result:
  "fst (cache_lookup now k c) = (case cache_view c k of None \<Rightarrow> None
     | Some (p, e) \<Rightarrow> if now < e then Some p else None)"
  by (auto simp: cache_lookup_def cache_view_def Let_def split: option.splits)

lemma lookup_view:
  "cache_view (snd (cache_lookup now k c)) k' =
     (if k' = k \<and> fst (cache_lookup now k c) = None then None else cache_view c k')"
  by (auto simp: cache_lookup_def Let_def remove_item_view split: option.splits)
     (auto simp: cache_view_def split: option.splits)

text \<open>The eviction loop keeps the invariant, leaves room, and only forgets.\<close>

lemma evict_step_ok:
  assumes "cache_ok c" "ca_lru c \<noteq> []"
  shows "cache_ok (c\<lparr>ca_lru := butlast (ca_lru c),
     ca_items := (ca_items c)(ce_key (ca_value c (last (ca_lru c))) := None)\<rparr>)"
proof -
  let ?l = "ca_lru c"
  have l: "?l = butlast ?l @ [last ?l]" using assms(2) by simp
  have d: "distinct (butlast ?l)" using assms by (simp add: cache_ok_def distinct_butlast)
  have s: "set ?l = insert (last ?l) (set (butlast ?l))" by (subst l) simp
  show ?thesis using assms(1) d s by (auto simp: cache_ok_def)
qed

lemma evict_props:
  "cache_ok c \<Longrightarrow> cache_ok (evict c)
     \<and> (int (length (ca_lru (evict c))) < ca_capacity c \<or> ca_lru (evict c) = [])
     \<and> ca_value (evict c) = ca_value c \<and> ca_next (evict c) = ca_next c
     \<and> ca_ttl (evict c) = ca_ttl c \<and> ca_capacity (evict c) = ca_capacity c
     \<and> set (ca_lru (evict c)) \<subseteq> set (ca_lru c)
     \<and> (\<forall>k. ca_items (evict c) k = None \<or> ca_items (evict c) k = ca_items c k)"
proof (induction c rule: evict.induct)
  case (1 c)
  show ?case
  proof (cases "ca_capacity c \<le> int (length (ca_lru c)) \<and> ca_lru c \<noteq> []")
    case True
    let ?c = "c\<lparr>ca_lru := butlast (ca_lru c),
       ca_items := (ca_items c)(ce_key (ca_value c (last (ca_lru c))) := None)\<rparr>"
    have e: "evict c = evict ?c" using True by (subst evict.simps) (simp add: Let_def)
    have "cache_ok ?c" using evict_step_ok 1(2) True by blast
    note IH = 1(1) [OF True refl this]
    have sub: "set (butlast (ca_lru c)) \<subseteq> set (ca_lru c)" by (auto dest: in_set_butlastD)
    show ?thesis unfolding e using IH sub by (auto split: if_splits)
  next
    case False
    have "evict c = c" by (subst evict.simps) (simp only: False if_False)
    with False 1(2) show ?thesis by auto
  qed
qed

lemma store_ok:
  assumes "cache_ok c"
  shows "cache_ok (cache_store now k p c)"
proof -
  from evict_props [OF assms] have e: "cache_ok (evict c)" by blast
  then have "ca_next (evict c) \<notin> set (ca_lru (evict c))" by (auto dest: cache_okD(4))
  with e show ?thesis
    by (auto simp: cache_ok_def cache_store_def Let_def less_Suc_eq split: if_splits)
qed

lemma store_size:
  assumes "cache_ok c"
  shows "int (length (ca_lru (cache_store now k p c))) \<le> max 1 (ca_capacity c)"
  using evict_props [OF assms] by (auto simp: cache_store_def Let_def)

lemma store_view:
  assumes "cache_ok c"
  shows "cache_view (cache_store now k p c) k = Some (p, now + ca_ttl c)"
    and "k' \<noteq> k \<Longrightarrow> cache_view (cache_store now k p c) k' \<in> {None, cache_view c k'}"
proof -
  note e = evict_props [OF assms]
  show "cache_view (cache_store now k p c) k = Some (p, now + ca_ttl c)"
    using e by (simp add: cache_view_def cache_store_def Let_def)
  assume n: "k' \<noteq> k"
  have new: "el \<noteq> ca_next (evict c)" if "ca_items (evict c) k' = Some el" for el
  proof -
    from e that have "el \<in> set (ca_lru (evict c))" by (blast dest: cache_okD(1))
    with e have "el < ca_next (evict c)" by (blast dest: cache_okD(4))
    then show ?thesis by simp
  qed
  have old: "ca_items c k' = Some el" if "ca_items (evict c) k' = Some el" for el
    using e that by (metis option.distinct(1))
  from e have v: "ca_value (evict c) = ca_value c" "ca_next (evict c) = ca_next c" by blast+
  with n new old show "cache_view (cache_store now k p c) k' \<in> {None, cache_view c k'}"
    by (auto simp: cache_view_def cache_store_def Let_def split: option.splits)
qed

lemma invalidate_ok: "cache_ok c \<Longrightarrow> cache_ok (Invalidate_key k c)"
  by (auto simp: Invalidate_key_def remove_item_ok split: option.splits)

lemma invalidate_view: "cache_view (Invalidate_key k c) = (cache_view c)(k := None)"
  by (auto simp: Invalidate_key_def remove_item_view split: option.splits)
     (auto simp: cache_view_def fun_eq_iff)

lemma ttl_capacity_kept [simp]:
  "ca_ttl (snd (cache_lookup now k c)) = ca_ttl c"
  "ca_ttl (Invalidate_key k c) = ca_ttl c"
  "ca_capacity (snd (cache_lookup now k c)) = ca_capacity c"
  "ca_capacity (Invalidate_key k c) = ca_capacity c"
  by (auto simp: cache_lookup_def Invalidate_key_def remove_item_def Let_def split: option.splits)

lemma store_kept:
  "cache_ok c \<Longrightarrow> ca_ttl (cache_store now k p c) = ca_ttl c"
  "cache_ok c \<Longrightarrow> ca_capacity (cache_store now k p c) = ca_capacity c"
  using evict_props [of c] by (auto simp: cache_store_def Let_def)

subsection \<open>The contract of a cache with expiry\<close>

text \<open>
  What a client of the cache relies on: a view from keys to values with an expiry time. Looking up
  reads the view and may only drop an expired entry; storing sets one entry and may evict others;
  forgetting removes one. Any cache that meets the laws keeps its promises over whole runs.
\<close>

datatype 'v cache_op = Look gotime string | Put gotime string 'v | Drop string

locale expiring_cache =
  fixes lookup :: "gotime \<Rightarrow> string \<Rightarrow> 'c \<Rightarrow> 'v option \<times> 'c"
    and store :: "gotime \<Rightarrow> string \<Rightarrow> 'v \<Rightarrow> 'c \<Rightarrow> 'c"
    and forget :: "string \<Rightarrow> 'c \<Rightarrow> 'c"
    and ok :: "'c \<Rightarrow> bool"
    and view :: "'c \<Rightarrow> string \<Rightarrow> ('v \<times> gotime) option"
    and lifetime :: "'c \<Rightarrow> duration"
  assumes ok_lookup: "ok c \<Longrightarrow> ok (snd (lookup t k c))"
    and ok_store: "ok c \<Longrightarrow> ok (store t k v c)"
    and ok_forget: "ok c \<Longrightarrow> ok (forget k c)"
    and lookup_fst: "ok c \<Longrightarrow> fst (lookup t k c)
      = (case view c k of None \<Rightarrow> None | Some (v, e) \<Rightarrow> if t < e then Some v else None)"
    and lookup_snd: "ok c \<Longrightarrow> view (snd (lookup t k c)) k' \<in> {None, view c k'}"
    and lookup_hit: "ok c \<Longrightarrow> fst (lookup t k c) \<noteq> None \<Longrightarrow> view (snd (lookup t k c)) k = view c k"
    and store_same: "ok c \<Longrightarrow> view (store t k v c) k = Some (v, t + lifetime c)"
    and store_other: "ok c \<Longrightarrow> k' \<noteq> k \<Longrightarrow> view (store t k v c) k' \<in> {None, view c k'}"
    and forget_view: "ok c \<Longrightarrow> view (forget k c) k' \<in> {None, view c k'} \<and> view (forget k c) k = None"
    and lifetime_kept: "ok c \<Longrightarrow> lifetime (snd (lookup t k c)) = lifetime c"
      "ok c \<Longrightarrow> lifetime (store t k v c) = lifetime c" "ok c \<Longrightarrow> lifetime (forget k c) = lifetime c"
begin

fun apply_op :: "'v cache_op \<Rightarrow> 'c \<Rightarrow> 'c" where
  "apply_op (Look t k) c = snd (lookup t k c)"
| "apply_op (Put t k v) c = store t k v c"
| "apply_op (Drop k) c = forget k c"

lemma op_ok: "ok c \<Longrightarrow> ok (apply_op oper c)"
  by (cases oper) (auto simp: ok_lookup ok_store ok_forget)

lemma ops_ok: "ok c \<Longrightarrow> ok (fold apply_op opers c)"
  by (induction opers arbitrary: c) (auto simp: op_ok)

lemma op_lifetime: "ok c \<Longrightarrow> lifetime (apply_op oper c) = lifetime c"
  by (cases oper) (auto simp: lifetime_kept)

lemma op_view:
  assumes "ok c"
  shows "view (apply_op oper c) k \<in> {None, view c k}
     \<or> (\<exists>t v. oper = Put t k v \<and> view (apply_op oper c) k = Some (v, t + lifetime c))"
proof (cases oper)
  case (Put t k' v)
  then show ?thesis using store_same [OF assms] store_other [OF assms, of k k' t v] by (cases "k' = k") auto
qed (use assms lookup_snd forget_view in auto)

text \<open>Whatever a run leaves in the cache was there before or was stored by the run.\<close>

lemma view_origin:
  "ok c \<Longrightarrow> view (fold apply_op opers c) k = Some (v, e) \<Longrightarrow>
     view c k = Some (v, e) \<or> (\<exists>t. Put t k v \<in> set opers \<and> e = t + lifetime c)"
proof (induction opers arbitrary: c)
  case (Cons oper opers)
  have "view (fold apply_op opers (apply_op oper c)) k = Some (v, e)" using Cons.prems(2) by simp
  from Cons.IH [OF op_ok [OF Cons.prems(1)] this] op_lifetime [OF Cons.prems(1)]
  consider "view (apply_op oper c) k = Some (v, e)" | t where "Put t k v \<in> set opers" "e = t + lifetime c"
    by auto
  then show ?case
  proof cases
    case 1
    with op_view [OF Cons.prems(1), of oper k] show ?thesis by auto
  qed auto
qed simp

text \<open>A forgotten key misses until it is stored again; a hit is younger than the lifetime.\<close>

lemma forgotten_misses:
  assumes "ok c" "\<And>t v. Put t k v \<notin> set opers"
  shows "fst (lookup t k (fold apply_op opers (forget k c))) = None"
proof -
  have ok: "ok (forget k c)" using assms(1) by (rule ok_forget)
  have "view (fold apply_op opers (forget k c)) k = None"
  proof (rule ccontr)
    assume "\<not> ?thesis"
    then obtain v e where "view (fold apply_op opers (forget k c)) k = Some (v, e)" by auto
    from view_origin [OF ok this] assms forget_view [OF assms(1), of k k] show False by auto
  qed
  with lookup_fst [OF ops_ok [OF ok]] show ?thesis by simp
qed

lemma hit_is_fresh:
  assumes "ok c" "\<And>k. view c k = None" "fst (lookup t k (fold apply_op opers c)) = Some v"
  shows "\<exists>t0. Put t0 k v \<in> set opers \<and> t < t0 + lifetime c"
proof -
  from assms(3) lookup_fst [OF ops_ok [OF assms(1)], of t k opers] obtain e where
    v: "view (fold apply_op opers c) k = Some (v, e)" and t: "t < e"
    by (auto split: option.splits if_splits)
  from view_origin [OF assms(1) v] assms(2) t show ?thesis by auto
qed

lemma store_then_lookup:
  "ok c \<Longrightarrow> t' < t + lifetime c \<Longrightarrow> fst (lookup t' k (store t k v c)) = Some v"
  "ok c \<Longrightarrow> t + lifetime c \<le> t' \<Longrightarrow> fst (lookup t' k (store t k v c)) = None"
  by (auto simp: lookup_fst ok_store store_same)

end

interpretation id_cache: expiring_cache cache_lookup cache_store Invalidate_key cache_ok cache_view ca_ttl
proof (unfold_locales, goal_cases)
  case (4 c t k)
  then show ?case by (simp add: lookup_result)
qed (auto simp: lookup_ok store_ok invalidate_ok lookup_view store_view invalidate_view store_kept
    split: if_splits dest: store_view(2))

subsection \<open>Concurrent requests\<close>

text \<open>
  Requests run interleaved. A request enters with a lookup (\<open>c_hit\<close> returns at once, \<open>c_miss\<close> leaves
  it waiting for the resolver with the lock released), and ends with \<open>c_store\<close> or \<open>c_err\<close>. Meanwhile
  other requests run, entries are invalidated, time passes, and the authentication middleware
  writes the active system into identities it holds (\<open>c_scope\<close>). \<open>resolved p s i\<close> says that the
  resolver may answer \<open>i\<close>; it can answer differently each time, since the database changes.
\<close>

record conc_state =
  cs_cache :: identity_cache
  cs_heap :: "identity list"
  cs_now :: gotime
  cs_pending :: "nat \<Rightarrow> (string \<times> string) option"

datatype conc_event = Returned nat string string ptr | Silent

inductive conc_step :: "string set \<Rightarrow> (string \<Rightarrow> string \<Rightarrow> identity \<Rightarrow> bool)
    \<Rightarrow> conc_state \<Rightarrow> conc_event \<Rightarrow> conc_state \<Rightarrow> bool" for provs resolved where
  c_hit: "\<lbrakk>cs_pending \<sigma> t = None; p \<in> provs;
      cache_lookup (cs_now \<sigma>) (cache_key p s) (cs_cache \<sigma>) = (Some q, c)\<rbrakk>
    \<Longrightarrow> conc_step provs resolved \<sigma> (Returned t p s q) (\<sigma>\<lparr>cs_cache := c\<rparr>)"
| c_miss: "\<lbrakk>cs_pending \<sigma> t = None; p \<in> provs;
      cache_lookup (cs_now \<sigma>) (cache_key p s) (cs_cache \<sigma>) = (None, c)\<rbrakk>
    \<Longrightarrow> conc_step provs resolved \<sigma> Silent
          (\<sigma>\<lparr>cs_cache := c, cs_pending := (cs_pending \<sigma>)(t \<mapsto> (p, s))\<rparr>)"
| c_err: "cs_pending \<sigma> t = Some (p, s)
    \<Longrightarrow> conc_step provs resolved \<sigma> Silent (\<sigma>\<lparr>cs_pending := (cs_pending \<sigma>)(t := None)\<rparr>)"
| c_store: "\<lbrakk>cs_pending \<sigma> t = Some (p, s); resolved p s i\<rbrakk>
    \<Longrightarrow> conc_step provs resolved \<sigma> (Returned t p s (length (cs_heap \<sigma>)))
          (\<sigma>\<lparr>cs_cache := cache_store (cs_now \<sigma>) (cache_key p s) (length (cs_heap \<sigma>)) (cs_cache \<sigma>),
             cs_heap := cs_heap \<sigma> @ [i], cs_pending := (cs_pending \<sigma>)(t := None)\<rparr>)"
| c_invalidate: "conc_step provs resolved \<sigma> Silent (\<sigma>\<lparr>cs_cache := Invalidate p s (cs_cache \<sigma>)\<rparr>)"
| c_tick: "0 \<le> d \<Longrightarrow> conc_step provs resolved \<sigma> Silent (\<sigma>\<lparr>cs_now := cs_now \<sigma> + d\<rparr>)"
| c_scope: "q < length (cs_heap \<sigma>) \<Longrightarrow> conc_step provs resolved \<sigma> Silent
    (\<sigma>\<lparr>cs_heap := (cs_heap \<sigma>)[q := (cs_heap \<sigma> ! q)\<lparr>id_ActiveSystemID := Some sys\<rparr>]\<rparr>)"

inductive_cases conc_stepE: "conc_step provs resolved \<sigma> ev \<sigma>'"

definition conc_init :: "int \<Rightarrow> duration \<Rightarrow> gotime \<Rightarrow> conc_state" where
  "conc_init capacity ttl now =
     \<lparr>cs_cache = NewIdentityCache capacity ttl, cs_heap = [], cs_now = now, cs_pending = (\<lambda>_. None)\<rparr>"

inductive conc_reach :: "string set \<Rightarrow> (string \<Rightarrow> string \<Rightarrow> identity \<Rightarrow> bool) \<Rightarrow> conc_state \<Rightarrow> conc_state \<Rightarrow> bool"
  for provs resolved \<sigma>0 where
  reach_init: "conc_reach provs resolved \<sigma>0 \<sigma>0"
| reach_step: "conc_reach provs resolved \<sigma>0 \<sigma> \<Longrightarrow> conc_step provs resolved \<sigma> ev \<sigma>'
    \<Longrightarrow> conc_reach provs resolved \<sigma>0 \<sigma>'"

text \<open>The entries of the list, and how the operations change them.\<close>

definition entries :: "identity_cache \<Rightarrow> cachedEntry set" where
  "entries c = ca_value c ` set (ca_lru c)"

lemma remove1_value: "x \<in> set (remove1 y xs) \<Longrightarrow> f x \<in> f ` set xs"
  by (meson imageI notin_set_remove1)

lemma lookup_entries: "entries (snd (cache_lookup now k c)) \<subseteq> entries c"
  by (auto simp: entries_def cache_lookup_def remove_item_def Let_def intro: remove1_value split: option.splits)

lemma invalidate_entries: "entries (Invalidate p s c) \<subseteq> entries c"
  by (auto simp: entries_def Invalidate_def Invalidate_key_def remove_item_def intro: remove1_value
      split: option.splits)

lemma store_entries:
  assumes "cache_ok c"
  shows "entries (cache_store now k p c) \<subseteq> insert (CachedEntry k p (now + ca_ttl c)) (entries c)"
  using evict_props [OF assms] by (auto simp: entries_def cache_store_def Let_def)

lemma lookup_size: "length (ca_lru (snd (cache_lookup now k c))) \<le> length (ca_lru c)"
proof -
  have "Suc (length (remove1 el xs)) = length xs" if "el \<in> set xs" for el and xs :: "element list"
    using that by (induction xs) auto
  then show ?thesis
    by (auto simp: cache_lookup_def remove_item_def Let_def length_remove1_le split: option.splits)
qed

lemma invalidate_size: "length (ca_lru (Invalidate p s c)) \<le> length (ca_lru c)"
  by (auto simp: Invalidate_def Invalidate_key_def remove_item_def length_remove1_le split: option.splits)

text \<open>The invariant of all interleavings.\<close>

definition owned :: "identity list \<Rightarrow> string \<Rightarrow> ptr \<Rightarrow> bool" where
  "owned heap k q \<longleftrightarrow> q < length heap \<and> cache_key (id_Provider (heap ! q)) (id_Subject (heap ! q)) = k"

definition conc_inv :: "string set \<Rightarrow> conc_state \<Rightarrow> bool" where
  "conc_inv provs \<sigma> \<longleftrightarrow>
     cache_ok (cs_cache \<sigma>)
     \<and> int (length (ca_lru (cs_cache \<sigma>))) \<le> max 1 (ca_capacity (cs_cache \<sigma>))
     \<and> (\<forall>e \<in> entries (cs_cache \<sigma>). owned (cs_heap \<sigma>) (ce_key e) (ce_identity e)
           \<and> id_Provider (cs_heap \<sigma> ! ce_identity e) \<in> provs
           \<and> ce_expiresAt e \<le> cs_now \<sigma> + ca_ttl (cs_cache \<sigma>))
     \<and> (\<forall>t p s. cs_pending \<sigma> t = Some (p, s) \<longrightarrow> p \<in> provs)"

lemma conc_init_inv: "conc_inv provs (conc_init capacity ttl now)"
  by (simp add: conc_inv_def conc_init_def new_cache_ok entries_def)
     (simp add: NewIdentityCache_def)

lemma lookup_hit_entry:
  assumes "cache_ok c" "cache_lookup now k c = (Some q, c')"
  shows "\<exists>e \<in> entries c. ce_key e = k \<and> ce_identity e = q \<and> now < ce_expiresAt e"
proof -
  from assms(2) obtain el where el: "ca_items c k = Some el" "ce_identity (ca_value c el) = q"
    "now < ce_expiresAt (ca_value c el)"
    by (auto simp: cache_lookup_def Let_def split: option.splits if_splits)
  from cache_okD(1,2) [OF assms(1) el(1)] el(2,3) show ?thesis by (auto simp: entries_def)
qed

lemma conc_inv_shrink:
  assumes "conc_inv provs \<sigma>" "cache_ok c" "entries c \<subseteq> entries (cs_cache \<sigma>)"
    "length (ca_lru c) \<le> length (ca_lru (cs_cache \<sigma>))"
    "ca_ttl c = ca_ttl (cs_cache \<sigma>)" "ca_capacity c = ca_capacity (cs_cache \<sigma>)"
    "\<And>t p s. f t = Some (p, s) \<Longrightarrow> p \<in> provs"
  shows "conc_inv provs (\<sigma>\<lparr>cs_cache := c, cs_pending := f\<rparr>)"
proof -
  have "int (length (ca_lru c)) \<le> max 1 (ca_capacity c)"
    using assms(1,4,6) unfolding conc_inv_def by (metis (no_types, lifting) of_nat_le_iff order_trans)
  moreover have "\<forall>e \<in> entries c. owned (cs_heap \<sigma>) (ce_key e) (ce_identity e)
      \<and> id_Provider (cs_heap \<sigma> ! ce_identity e) \<in> provs \<and> ce_expiresAt e \<le> cs_now \<sigma> + ca_ttl c"
    using assms(1,3,5) unfolding conc_inv_def by auto
  ultimately show ?thesis using assms(2,7) by (simp add: conc_inv_def)
qed

lemma conc_inv_store:
  assumes inv: "conc_inv provs \<sigma>" and p: "p \<in> provs" and i: "id_Provider i = p" "id_Subject i = s"
  shows "conc_inv provs (\<sigma>\<lparr>cs_cache := cache_store (cs_now \<sigma>) (cache_key p s) (length (cs_heap \<sigma>)) (cs_cache \<sigma>),
     cs_heap := cs_heap \<sigma> @ [i], cs_pending := (cs_pending \<sigma>)(t := None)\<rparr>)"
proof -
  let ?c = "cache_store (cs_now \<sigma>) (cache_key p s) (length (cs_heap \<sigma>)) (cs_cache \<sigma>)"
  have ok: "cache_ok (cs_cache \<sigma>)" using inv by (simp add: conc_inv_def)
  have kept: "owned (cs_heap \<sigma> @ [i]) (ce_key e) (ce_identity e)
      \<and> id_Provider ((cs_heap \<sigma> @ [i]) ! ce_identity e) \<in> provs \<and> ce_expiresAt e \<le> cs_now \<sigma> + ca_ttl ?c"
    if "e \<in> entries ?c" for e
  proof -
    from that store_entries [OF ok] consider
      "e = CachedEntry (cache_key p s) (length (cs_heap \<sigma>)) (cs_now \<sigma> + ca_ttl (cs_cache \<sigma>))"
      | "e \<in> entries (cs_cache \<sigma>)" by blast
    then show ?thesis
    proof cases
      case 1
      then show ?thesis using p i by (simp add: owned_def store_kept [OF ok])
    next
      case 2
      with inv show ?thesis by (auto simp: conc_inv_def owned_def nth_append store_kept [OF ok])
    qed
  qed
  have "\<forall>t' p s. ((cs_pending \<sigma>)(t := None)) t' = Some (p, s) \<longrightarrow> p \<in> provs"
    using inv by (auto simp: conc_inv_def)
  with kept store_ok [OF ok] store_size [OF ok] store_kept [OF ok] show ?thesis
    by (simp add: conc_inv_def)
qed

lemma conc_step_inv:
  assumes "conc_step provs resolved \<sigma> ev \<sigma>'" "conc_inv provs \<sigma>"
    and R: "\<And>p s i. resolved p s i \<Longrightarrow> id_Provider i = p \<and> id_Subject i = s"
  shows "conc_inv provs \<sigma>'"
proof -
  note inv = assms(2)
  have ok: "cache_ok (cs_cache \<sigma>)" and pend: "\<And>t p s. cs_pending \<sigma> t = Some (p, s) \<Longrightarrow> p \<in> provs"
    using inv by (auto simp: conc_inv_def)
  have look: "conc_inv provs (\<sigma>\<lparr>cs_cache := c, cs_pending := f\<rparr>)"
    if "cache_lookup n k (cs_cache \<sigma>) = (r, c)" "\<And>t p s. f t = Some (p, s) \<Longrightarrow> p \<in> provs" for n k r c f
  proof -
    have c: "c = snd (cache_lookup n k (cs_cache \<sigma>))" using that(1) by simp
    show ?thesis
      by (rule conc_inv_shrink [OF inv]) (simp_all add: c lookup_ok [OF ok] lookup_entries lookup_size that(2))
  qed
  from assms(1) show ?thesis
  proof cases
    case (c_hit t p s q c)
    then show ?thesis using look [OF c_hit(5), of "cs_pending \<sigma>"] pend by simp
  next
    case (c_miss t p s c)
    show ?thesis unfolding c_miss(2) by (rule look [OF c_miss(5)]) (use c_miss(4) pend in \<open>auto split: if_splits\<close>)
  next
    case (c_err t p s)
    have "conc_inv provs (\<sigma>\<lparr>cs_cache := cs_cache \<sigma>, cs_pending := (cs_pending \<sigma>)(t := None)\<rparr>)"
      by (rule conc_inv_shrink [OF inv ok]) (use pend in \<open>auto split: if_splits\<close>)
    with c_err show ?thesis by simp
  next
    case (c_store t p s i)
    show ?thesis unfolding c_store(2)
      by (rule conc_inv_store [OF inv pend [OF c_store(3)]]) (use R [OF c_store(4)] in auto)
  next
    case (c_invalidate p s)
    have "conc_inv provs (\<sigma>\<lparr>cs_cache := Invalidate p s (cs_cache \<sigma>), cs_pending := cs_pending \<sigma>\<rparr>)"
      by (rule conc_inv_shrink [OF inv])
        (use ok pend in \<open>simp_all add: Invalidate_def invalidate_ok invalidate_entries [unfolded Invalidate_def]
           invalidate_size [unfolded Invalidate_def]\<close>)
    with c_invalidate show ?thesis by simp
  next
    case (c_tick d)
    with inv show ?thesis unfolding c_tick(2) conc_inv_def by (simp, meson add_increasing order_trans add_le_cancel_right add_mono_thms_linordered_semiring(3) add_right_mono le_add_same_cancel1)
  next
    case (c_scope q sys)
    have "owned ((cs_heap \<sigma>)[q := (cs_heap \<sigma> ! q)\<lparr>id_ActiveSystemID := Some sys\<rparr>]) k r = owned (cs_heap \<sigma>) k r"
      "id_Provider ((cs_heap \<sigma>)[q := (cs_heap \<sigma> ! q)\<lparr>id_ActiveSystemID := Some sys\<rparr>] ! r) = id_Provider (cs_heap \<sigma> ! r)"
      for k r
      using c_scope by (auto simp: owned_def nth_list_update)
    with inv c_scope show ?thesis by (simp add: conc_inv_def)
  qed
qed

lemma conc_reach_inv:
  assumes "conc_reach provs resolved (conc_init capacity ttl now) \<sigma>"
    and "\<And>p s i. resolved p s i \<Longrightarrow> id_Provider i = p \<and> id_Subject i = s"
  shows "conc_inv provs \<sigma>"
  using assms(1) by induction (auto intro: conc_init_inv conc_step_inv [OF _ _ assms(2)])

lemma cache_key_inj:
  assumes "cache_key p s = cache_key p' s'" "CHR '':'' \<notin> set p" "CHR '':'' \<notin> set p'"
  shows "p = p' \<and> s = s'"
proof -
  have "length p = length p'"
    using IndexByte_append [OF assms(2), of s] IndexByte_append [OF assms(3), of s'] assms(1)
    by (simp add: cache_key_def)
  with assms(1) show ?thesis by (simp add: cache_key_def)
qed

text \<open>An answer of the cache belongs to the caller who asked for it.\<close>

lemma returned_identity_owned:
  assumes "conc_reach provs resolved (conc_init capacity ttl now) \<sigma>"
    and "conc_step provs resolved \<sigma> (Returned t p s q) \<sigma>'"
    and "\<And>p s i. resolved p s i \<Longrightarrow> id_Provider i = p \<and> id_Subject i = s"
    and "\<And>p. p \<in> provs \<Longrightarrow> CHR '':'' \<notin> set p"
  shows "q < length (cs_heap \<sigma>') \<and> id_Provider (cs_heap \<sigma>' ! q) = p \<and> id_Subject (cs_heap \<sigma>' ! q) = s
     \<and> int (length (ca_lru (cs_cache \<sigma>'))) \<le> max 1 (ca_capacity (cs_cache \<sigma>'))"
proof -
  have inv: "conc_inv provs \<sigma>" using assms(1,3) by (rule conc_reach_inv)
  have "conc_inv provs \<sigma>'" using assms(2) inv assms(3) by (rule conc_step_inv)
  then have size: "int (length (ca_lru (cs_cache \<sigma>'))) \<le> max 1 (ca_capacity (cs_cache \<sigma>'))"
    by (simp add: conc_inv_def)
  from assms(2) show ?thesis
  proof (cases rule: conc_step.cases)
    case (c_hit c)
    have ok: "cache_ok (cs_cache \<sigma>)" using inv by (simp add: conc_inv_def)
    from lookup_hit_entry [OF ok c_hit(4)] obtain e where
      e: "e \<in> entries (cs_cache \<sigma>)" "ce_key e = cache_key p s" "ce_identity e = q" by blast
    with inv have o: "owned (cs_heap \<sigma>) (cache_key p s) q" "id_Provider (cs_heap \<sigma> ! q) \<in> provs"
      by (auto simp: conc_inv_def)
    then have "id_Provider (cs_heap \<sigma> ! q) = p \<and> id_Subject (cs_heap \<sigma> ! q) = s"
      using cache_key_inj [of "id_Provider (cs_heap \<sigma> ! q)" "id_Subject (cs_heap \<sigma> ! q)" p s] assms(4) c_hit(3)
      by (auto simp: owned_def)
    with o c_hit size show ?thesis by (simp add: owned_def)
  next
    case (c_store i)
    with assms(3) [OF c_store(4)] size show ?thesis by simp
  qed
qed

subsection \<open>Properties\<close>

text \<open>
  C18. Over every interleaving of the critical sections of the cache, starting empty: a hit returns
  an identity that was stored under the same key less than the lifetime ago, and after an
  invalidation the key misses until an identity is stored under it again.
\<close>

theorem cache_fresh_and_invalidated:
  "(fst (cache_lookup t k (fold id_cache.apply_op ops (NewIdentityCache capacity ttl))) = Some q \<longrightarrow>
      (\<exists>t0. Put t0 k q \<in> set ops \<and> t < t0 + ttl))
   \<and> ((\<forall>t0 v. Put t0 k v \<notin> set later) \<longrightarrow>
      fst (cache_lookup t k (fold id_cache.apply_op later
        (Invalidate_key k (fold id_cache.apply_op ops (NewIdentityCache capacity ttl))))) = None)"
proof -
  let ?c = "NewIdentityCache capacity ttl"
  have ok: "cache_ok ?c" by (rule new_cache_ok)
  have empty: "cache_view ?c k' = None" for k' by (simp add: cache_view_def NewIdentityCache_def)
  have ttl: "ca_ttl ?c = ttl" by (simp add: NewIdentityCache_def)
  show ?thesis
    using id_cache.hit_is_fresh [OF ok empty, of t k ops q] ttl
      id_cache.forgotten_misses [OF id_cache.ops_ok [OF ok, of ops], of k later t] by auto
qed

theorem cache_fresh_and_invalidated_witness:
  "(\<exists>t0. Put t0 ''kc:7'' (3 :: nat) \<in> set [Put 10 ''kc:7'' 3, Look 12 ''kc:7''] \<and> 14 < t0 + 5)
   \<and> fst (cache_lookup 14 ''kc:7'' (fold id_cache.apply_op [Look 13 ''kc:7'']
        (Invalidate_key ''kc:7'' (fold id_cache.apply_op [Put 10 ''kc:7'' 3, Look 12 ''kc:7''] (NewIdentityCache 2 5))))) = None"
proof -
  have "fst (cache_lookup 14 ''kc:7'' (fold id_cache.apply_op [Put 10 ''kc:7'' 3, Look 12 ''kc:7'']
     (NewIdentityCache 2 5))) = Some 3"
    by (simp add: cache_lookup_def cache_store_def NewIdentityCache_def evict.simps)
  with cache_fresh_and_invalidated [of 14 "''kc:7''" "[Put 10 ''kc:7'' 3, Look 12 ''kc:7'']" 2 5 3
      "[Look 13 ''kc:7'']"]
  show ?thesis by auto
qed

end
