(* ===== verification/Resolver.thy ===== *)
theory Resolver
  imports Pg_Tables Identity_Cache
begin

section \<open>The identity resolver (\<open>internal/auth/resolver.go\<close>)\<close>

text \<open>
  \<open>ResolverRepository\<close> is an interface of the source; it is a record of operations here, and the
  locale \<open>resolver_repository\<close> states what its client \<open>Resolve\<close> relies on. The PostgreSQL
  implementation is interpreted as an instance. \<open>resolved_identity\<close> is the specification: the
  identity a caller has in given tables.
\<close>

record resolver_ops =
  ro_FindEntityID :: "string \<Rightarrow> string \<Rightarrow> uuid db"
  ro_IsActive :: "uuid \<Rightarrow> bool db"
  ro_Groups :: "uuid \<Rightarrow> string list db"
  ro_AllowedSystems :: "uuid \<Rightarrow> string list \<Rightarrow> uuid list db"

definition apply_group :: "string \<Rightarrow> identity \<Rightarrow> identity" where
  "apply_group g i =
     (if g = ''oad:admin'' then i\<lparr>id_IsPlatformAdmin := True\<rparr>
      else if g = ''oad:system-admin'' then i\<lparr>id_IsSystemAdmin := True\<rparr> else i)"

definition make_identity :: "string \<Rightarrow> string \<Rightarrow> uuid \<Rightarrow> string list \<Rightarrow> uuid list \<Rightarrow> identity" where
  "make_identity provider sub eid groups systems =
     fold apply_group groups
       ((new_identity sub provider ''jwt'')
          \<lparr>id_EntityID := eid, id_Groups := groups, id_AllowedSystems := systems\<rparr>)"

definition resolver_Resolve :: "resolver_ops \<Rightarrow> string \<Rightarrow> string \<Rightarrow> identity db" where
  "resolver_Resolve repo provider sub =
     bind (ro_FindEntityID repo provider sub) (\<lambda>entityID.
     bind (wrap_err ''checking active flag'' (ro_IsActive repo entityID)) (\<lambda>active.
     if \<not> active then throw (AuthE ErrDisabled)
     else
       bind (wrap_err ''resolving groups'' (ro_Groups repo entityID)) (\<lambda>groups.
       bind (wrap_err ''resolving allowed systems'' (ro_AllowedSystems repo entityID groups)) (\<lambda>systems.
       ret (make_identity provider sub entityID groups systems)))))"

subsection \<open>The PostgreSQL repository\<close>

definition no_rows_as :: "goerr \<Rightarrow> string \<Rightarrow> 'a db \<Rightarrow> 'a db" where
  "no_rows_as sentinel c m = catch m (\<lambda>e. if is_no_rows e then throw sentinel else throw (Wrap c e))"

definition pgx_FindEntityID :: "string \<Rightarrow> string \<Rightarrow> uuid db" where
  "pgx_FindEntityID provider sub =
     no_rows_as (AuthE ErrNotProvisioned) ''looking up entity''
       (query_row (\<lambda>q d. map ei_entity_id
          (filter (\<lambda>i. ei_provider i = provider \<and> ei_subject i = sub) (db_identities d))))"

definition active_flag :: "query_ctx \<Rightarrow> entity_row \<Rightarrow> dberr + bool" where
  "active_flag q e = (case jsonb_text q (en_properties e) ''active'' of
      None \<Rightarrow> Inr True | Some t \<Rightarrow> pg_bool t)"

definition select_active :: "uuid \<Rightarrow> bool option statement" where
  "select_active eid = (\<lambda>q d.
     case filter (\<lambda>e. en_id e = eid) (entities q d) of
       [] \<Rightarrow> Inr (None, d)
     | e # _ \<Rightarrow> (case active_flag q e of Inl err \<Rightarrow> Inl err | Inr b \<Rightarrow> Inr (Some b, d)))"

definition pgx_IsActive :: "uuid \<Rightarrow> bool db" where
  "pgx_IsActive eid =
     no_rows_as (AuthE ErrNotProvisioned) ''querying entity active flag''
       (scan_row (exec (select_active eid)))"

definition group_name :: "query_ctx \<Rightarrow> entity_row \<Rightarrow> string" where
  "group_name q e =
     (let scim = prefix ''scim:'' (en_external_id e);
          name = jsonb_text q (en_properties e) ''displayName''
      in if scim \<and> name = Some ''oad-admin'' then ''oad:admin''
         else if scim \<and> name = Some ''oad-system-admin'' then ''oad:system-admin''
         else if scim \<and> name = Some ''oad-editor'' then ''oad:editor''
         else if scim \<and> name = Some ''oad-viewer'' then ''oad:viewer''
         else en_external_id e)"

definition relation_targets ::
  "query_ctx \<Rightarrow> database \<Rightarrow> (uuid \<Rightarrow> bool) \<Rightarrow> string \<Rightarrow> string \<Rightarrow> entity_row list" where
  "relation_targets q d subj rtype tname =
     [e. r \<leftarrow> filter (\<lambda>r. subj (rl_subject r) \<and> rl_type r = rtype) (relations q d),
         e \<leftarrow> filter (\<lambda>e. en_id e = rl_target r \<and> has_type d tname e) (entities q d)]"

definition pgx_Groups :: "uuid \<Rightarrow> string list db" where
  "pgx_Groups eid =
     wrap_err ''querying group memberships''
       (query (\<lambda>q d. map (group_name q) (relation_targets q d (\<lambda>u. u = eid) ''member_of'' ''Group'')))"

definition pgx_AllowedSystems :: "uuid \<Rightarrow> string list \<Rightarrow> uuid list db" where
  "pgx_AllowedSystems eid groups =
     bind (if groups = [] then ret []
           else wrap_err ''resolving group entity IDs''
             (query (\<lambda>q d. map en_id (filter (\<lambda>e. en_external_id e \<in> set groups) (entities q d)))))
       (\<lambda>groupIDs.
         let subjectIDs = eid # groupIDs in
         wrap_err ''querying allowed systems''
           (query (\<lambda>q d. remdups (map en_id
              (relation_targets q d (\<lambda>u. u \<in> set subjectIDs) ''has_role_in'' ''System'')))))"

definition pgx_resolver :: resolver_ops where
  "pgx_resolver = \<lparr>ro_FindEntityID = pgx_FindEntityID, ro_IsActive = pgx_IsActive,
     ro_Groups = pgx_Groups, ro_AllowedSystems = pgx_AllowedSystems\<rparr>"

subsection \<open>What the resolver relies on\<close>

definition same_db :: "database \<Rightarrow> database \<Rightarrow> bool" where
  "same_db d d' \<longleftrightarrow> d' = d"

lemma same_db_props [db_intros]: "reflp same_db" "transp same_db"
  by (auto simp: same_db_def intro!: reflpI transpI)

lemma make_identity_simps:
  "id_Subject (make_identity p s e gs ss) = s"
  "id_Provider (make_identity p s e gs ss) = p"
  "id_EntityID (make_identity p s e gs ss) = e"
  "id_Groups (make_identity p s e gs ss) = gs"
  "id_AllowedSystems (make_identity p s e gs ss) = ss"
  "id_ActiveSystemID (make_identity p s e gs ss) = None"
  "id_IsPlatformAdmin (make_identity p s e gs ss) \<longleftrightarrow> ''oad:admin'' \<in> set gs"
  "id_IsSystemAdmin (make_identity p s e gs ss) \<longleftrightarrow> ''oad:system-admin'' \<in> set gs"
proof -
  have f: "id_Subject (fold apply_group gs i) = id_Subject i"
    "id_Provider (fold apply_group gs i) = id_Provider i"
    "id_EntityID (fold apply_group gs i) = id_EntityID i"
    "id_Groups (fold apply_group gs i) = id_Groups i"
    "id_AllowedSystems (fold apply_group gs i) = id_AllowedSystems i"
    "id_ActiveSystemID (fold apply_group gs i) = id_ActiveSystemID i"
    "id_IsPlatformAdmin (fold apply_group gs i) \<longleftrightarrow> id_IsPlatformAdmin i \<or> ''oad:admin'' \<in> set gs"
    "id_IsSystemAdmin (fold apply_group gs i) \<longleftrightarrow> id_IsSystemAdmin i \<or> ''oad:system-admin'' \<in> set gs" for i
    by (induction gs arbitrary: i) (auto simp: apply_group_def)
  show "id_Subject (make_identity p s e gs ss) = s" "id_Provider (make_identity p s e gs ss) = p"
    "id_EntityID (make_identity p s e gs ss) = e" "id_Groups (make_identity p s e gs ss) = gs"
    "id_AllowedSystems (make_identity p s e gs ss) = ss" "id_ActiveSystemID (make_identity p s e gs ss) = None"
    "id_IsPlatformAdmin (make_identity p s e gs ss) \<longleftrightarrow> ''oad:admin'' \<in> set gs"
    "id_IsSystemAdmin (make_identity p s e gs ss) \<longleftrightarrow> ''oad:system-admin'' \<in> set gs"
    by (simp_all add: make_identity_def f)
qed

locale resolver_repository =
  fixes repo :: resolver_ops
  assumes find_reads: "preserving same_db (ro_FindEntityID repo p s)"
    and active_reads: "preserving same_db (ro_IsActive repo u)"
    and groups_reads: "preserving same_db (ro_Groups repo u)"
    and systems_reads: "preserving same_db (ro_AllowedSystems repo u gs)"
begin

lemma resolve_reads: "preserving same_db (resolver_Resolve repo p s)"
  unfolding resolver_Resolve_def
  by (intro db_intros find_reads active_reads groups_reads systems_reads)

lemma resolve_identity:
  assumes "resolver_Resolve repo p s w st = (Inr i, st')"
  shows "id_Provider i = p \<and> id_Subject i = s \<and> id_ActiveSystemID i = None
     \<and> (id_IsPlatformAdmin i \<longleftrightarrow> ''oad:admin'' \<in> set (id_Groups i))
     \<and> (id_IsSystemAdmin i \<longleftrightarrow> ''oad:system-admin'' \<in> set (id_Groups i))"
  using assms
  by (auto simp: resolver_Resolve_def bind_Inr ret_def throw_def make_identity_simps split: if_splits)

lemma resolve_active:
  assumes "resolver_Resolve repo p s w st = (Inr i, st')"
  shows "\<exists>st1 st2. ro_FindEntityID repo p s w st = (Inr (id_EntityID i), st1)
     \<and> ro_IsActive repo (id_EntityID i) w st1 = (Inr True, st2)"
  using assms
  by (auto simp: resolver_Resolve_def bind_Inr ret_def throw_def make_identity_simps wrap_err_def
      catch_Inr split: if_splits)

end

lemma preserving_no_rows_as [db_intros]:
  "reflp R \<Longrightarrow> transp R \<Longrightarrow> preserving R m \<Longrightarrow> preserving R (no_rows_as e c m)"
  unfolding no_rows_as_def by (intro db_intros)

lemma preserving_select_active: "preserving same_db (exec (select_active eid))"
  by (rule preserving_exec)
     (auto simp: select_active_def same_db_def intro: reflpI split: list.splits sum.splits)

interpretation pgx: resolver_repository pgx_resolver
proof unfold_locales
  show "preserving same_db (ro_FindEntityID pgx_resolver p s)" for p s
    unfolding pgx_resolver_def pgx_FindEntityID_def by (simp, intro db_intros)
  show "preserving same_db (ro_IsActive pgx_resolver u)" for u
    unfolding pgx_resolver_def pgx_IsActive_def by (simp, intro db_intros preserving_select_active)
  show "preserving same_db (ro_Groups pgx_resolver u)" for u
    unfolding pgx_resolver_def pgx_Groups_def by (simp, intro db_intros)
  show "preserving same_db (ro_AllowedSystems pgx_resolver u gs)" for u gs
    unfolding pgx_resolver_def pgx_AllowedSystems_def Let_def by (simp, intro conjI impI db_intros)
qed

subsection \<open>The specification\<close>

definition member_groups :: "query_ctx \<Rightarrow> database \<Rightarrow> uuid \<Rightarrow> string set" where
  "member_groups q d u = {group_name q e | e r. r \<in> set (relations q d) \<and> rl_subject r = u
     \<and> rl_type r = ''member_of'' \<and> e \<in> set (entities q d) \<and> en_id e = rl_target r \<and> has_type d ''Group'' e}"

definition accessible_systems :: "query_ctx \<Rightarrow> database \<Rightarrow> uuid \<Rightarrow> uuid set" where
  "accessible_systems q d u = {en_id e | e r. r \<in> set (relations q d) \<and> rl_type r = ''has_role_in''
     \<and> (rl_subject r = u \<or> (\<exists>g \<in> set (entities q d). en_id g = rl_subject r
            \<and> en_external_id g \<in> member_groups q d u))
     \<and> e \<in> set (entities q d) \<and> en_id e = rl_target r \<and> has_type d ''System'' e}"

text \<open>The queries read the setting, the bypass flag and the rendering of a context only.\<close>

lemma ctx_irrelevant:
  assumes "q_setting q = q_setting q'" "q_bypass q = q_bypass q'" "q_render q = q_render q'"
  shows "entities q d = entities q' d" "relations q d = relations q' d" "group_name q = group_name q'"
    "active_flag q = active_flag q'"
proof -
  have v: "visible q sys = visible q' sys" for sys using assms by (simp add: visible_def)
  have t: "jsonb_text q j k = jsonb_text q' j k" for j k
    using assms by (simp add: jsonb_text_def split: option.split json.split)
  show "entities q d = entities q' d" "relations q d = relations q' d"
    by (simp_all add: entities_def relations_def v)
  show "group_name q = group_name q'" "active_flag q = active_flag q'"
    by (simp_all add: group_name_def active_flag_def t fun_eq_iff)
qed

definition ctx_at :: "world \<Rightarrow> setting \<Rightarrow> nat \<Rightarrow> query_ctx" where
  "ctx_at w v n = \<lparr>q_setting = v, q_now = w_time w n, q_uuid = w_uuid w n, q_bypass = w_bypass_rls w,
     q_render = w_render w\<rparr>"

lemma quiet_exec:
  assumes "quiet w v" "s_tx s = None"
  shows "exec f w s = (case f (ctx_at w v (s_n s)) (s_db s) of
      Inl e \<Rightarrow> (Inl (Db e), s\<lparr>s_n := Suc (s_n s)\<rparr>)
    | Inr (x, d) \<Rightarrow> (Inr x, s\<lparr>s_n := Suc (s_n s), s_db := d\<rparr>))"
  using assms by (simp add: exec_def quiet_def ctx_at_def Let_def)

lemma quiet_query:
  assumes "quiet w v" "s_tx s = None"
  shows "query f w s = (Inr (f (ctx_at w v (s_n s)) (s_db s)), s\<lparr>s_n := Suc (s_n s)\<rparr>)"
  by (simp add: query_def quiet_exec [OF assms])

lemma ctx_at_view [simp]:
  "entities (ctx_at w v n) d = entities (view_ctx w v) d"
  "relations (ctx_at w v n) d = relations (view_ctx w v) d"
  "group_name (ctx_at w v n) = group_name (view_ctx w v)"
  "active_flag (ctx_at w v n) = active_flag (view_ctx w v)"
  by (rule ctx_irrelevant; simp add: ctx_at_def view_ctx_def)+

lemma relation_targets_ctx [simp]:
  "relation_targets (ctx_at w v n) d subj rtype tname = relation_targets (view_ctx w v) d subj rtype tname"
  by (simp add: relation_targets_def)

lemma set_relation_targets:
  "set (relation_targets q d subj rtype tname) = {e. \<exists>r \<in> set (relations q d). subj (rl_subject r)
     \<and> rl_type r = rtype \<and> e \<in> set (entities q d) \<and> en_id e = rl_target r \<and> has_type d tname e}"
  by (auto simp: relation_targets_def)

lemma query_row_quiet:
  assumes "quiet w v" "s_tx s = None"
  shows "query_row f w s = (case f (ctx_at w v (s_n s)) (s_db s) of
      [] \<Rightarrow> (Inl (Db ErrNoRows), s\<lparr>s_n := Suc (s_n s)\<rparr>)
    | x # _ \<Rightarrow> (Inr x, s\<lparr>s_n := Suc (s_n s)\<rparr>))"
  by (simp add: query_row_def scan_row_def bind_def throw_def ret_def quiet_query [OF assms] split: list.splits)

definition linked :: "database \<Rightarrow> string \<Rightarrow> string \<Rightarrow> uuid option" where
  "linked d p s = map_option ei_entity_id
     (find (\<lambda>i. ei_provider i = p \<and> ei_subject i = s) (db_identities d))"

lemma filter_find: "(case filter P xs of [] \<Rightarrow> None | x # _ \<Rightarrow> Some x) = find P xs"
  by (induction xs) auto

lemma find_filter: "find P xs = None \<Longrightarrow> filter P xs = []" "find P xs = Some x \<Longrightarrow> \<exists>ys. filter P xs = x # ys"
  by (induction xs) (auto split: if_splits)

lemma FindEntityID_quiet:
  assumes "quiet w v" "s_tx st = None"
  shows "pgx_FindEntityID p s w st = (case linked (s_db st) p s of
      None \<Rightarrow> (Inl (AuthE ErrNotProvisioned), st\<lparr>s_n := Suc (s_n st)\<rparr>)
    | Some u \<Rightarrow> (Inr u, st\<lparr>s_n := Suc (s_n st)\<rparr>))"
proof (cases "find (\<lambda>i. ei_provider i = p \<and> ei_subject i = s) (db_identities (s_db st))")
  case None
  then show ?thesis
    using find_filter(1) [OF None]
    by (simp add: pgx_FindEntityID_def no_rows_as_def catch_def throw_def linked_def query_row_quiet [OF assms])
next
  case (Some i)
  from find_filter(2) [OF Some] obtain ys where
    "filter (\<lambda>i. ei_provider i = p \<and> ei_subject i = s) (db_identities (s_db st)) = i # ys" by blast
  then show ?thesis
    using Some
    by (simp add: pgx_FindEntityID_def no_rows_as_def catch_def throw_def linked_def query_row_quiet [OF assms])
qed

text \<open>The state of the active flag of an entity: unknown to the caller, unreadable, or a value.\<close>

definition active_state :: "query_ctx \<Rightarrow> database \<Rightarrow> uuid \<Rightarrow> (dberr + bool) option" where
  "active_state q d u = map_option (active_flag q) (find (\<lambda>e. en_id e = u) (entities q d))"

lemma IsActive_quiet:
  assumes "quiet w v" "s_tx st = None"
  shows "\<exists>st'. s_db st' = s_db st \<and> s_tx st' = None \<and> pgx_IsActive u w st =
     (case active_state (view_ctx w v) (s_db st) u of
        None \<Rightarrow> (Inl (AuthE ErrNotProvisioned), st')
      | Some (Inl e) \<Rightarrow> (Inl (if e = ErrNoRows then AuthE ErrNotProvisioned
                               else Wrap ''querying entity active flag'' (Db e)), st')
      | Some (Inr b) \<Rightarrow> (Inr b, st'))"
proof (cases "find (\<lambda>e. en_id e = u) (entities (view_ctx w v) (s_db st))")
  case None
  then show ?thesis
    using find_filter(1) [OF None] assms(2)
    by (intro exI [of _ "st\<lparr>s_n := Suc (s_n st)\<rparr>"])
      (simp add: pgx_IsActive_def no_rows_as_def catch_def throw_def scan_row_def bind_def
        quiet_exec [OF assms] select_active_def active_state_def)
next
  case (Some e)
  from find_filter(2) [OF Some] obtain ys where
    "filter (\<lambda>e. en_id e = u) (entities (view_ctx w v) (s_db st)) = e # ys" by blast
  then show ?thesis
    using Some assms(2)
    by (intro exI [of _ "st\<lparr>s_n := Suc (s_n st)\<rparr>"])
      (auto simp: pgx_IsActive_def no_rows_as_def catch_def throw_def ret_def scan_row_def bind_def
        quiet_exec [OF assms] select_active_def active_state_def split: sum.splits)
qed

lemma Groups_quiet:
  assumes "quiet w v" "s_tx st = None"
  shows "\<exists>st' gs. s_db st' = s_db st \<and> s_tx st' = None \<and> pgx_Groups u w st = (Inr gs, st')
     \<and> set gs = member_groups (view_ctx w v) (s_db st) u"
  by (intro exI [of _ "st\<lparr>s_n := Suc (s_n st)\<rparr>"]
      exI [of _ "map (group_name (view_ctx w v)) (relation_targets (view_ctx w v) (s_db st) (\<lambda>x. x = u) ''member_of'' ''Group'')"])
    (auto simp: pgx_Groups_def wrap_err_def catch_def quiet_query [OF assms] assms(2)
      set_relation_targets member_groups_def)

lemma AllowedSystems_quiet:
  assumes "quiet w v" "s_tx st = None" "set gs = member_groups (view_ctx w v) (s_db st) u"
  shows "\<exists>st' ss. s_db st' = s_db st \<and> s_tx st' = None \<and> pgx_AllowedSystems u gs w st = (Inr ss, st')
     \<and> distinct ss \<and> set ss = accessible_systems (view_ctx w v) (s_db st) u"
proof -
  let ?q = "view_ctx w v" and ?d = "s_db st"
  define st1 where "st1 = (if gs = [] then st else st\<lparr>s_n := Suc (s_n st)\<rparr>)"
  define gids where "gids = (if gs = [] then [] else map en_id (filter (\<lambda>e. en_external_id e \<in> set gs) (entities ?q ?d)))"
  have st1: "s_tx st1 = None" "s_db st1 = ?d" using assms(2) by (simp_all add: st1_def)
  have first: "(if gs = [] then ret [] else wrap_err ''resolving group entity IDs''
       (query (\<lambda>q d. map en_id (filter (\<lambda>e. en_external_id e \<in> set gs) (entities q d))))) w st = (Inr gids, st1)"
    by (simp add: st1_def gids_def ret_def wrap_err_def catch_def quiet_query [OF assms(1,2)])
  have gids: "u' \<in> set gids \<longleftrightarrow> (\<exists>g \<in> set (entities ?q ?d). en_id g = u' \<and> en_external_id g \<in> member_groups ?q ?d u)" for u'
    using assms(3) by (auto simp: gids_def)
  let ?ss = "remdups (map en_id (relation_targets ?q ?d (\<lambda>x. x \<in> set (u # gids)) ''has_role_in'' ''System''))"
  have "pgx_AllowedSystems u gs w st = (Inr ?ss, st1\<lparr>s_n := Suc (s_n st1)\<rparr>)"
    using first by (simp add: pgx_AllowedSystems_def bind_def Let_def wrap_err_def catch_def
        quiet_query [OF assms(1) st1(1)] st1(2))
  moreover have "set ?ss = accessible_systems ?q ?d u"
    unfolding accessible_systems_def set_remdups set_map set_relation_targets
    by (auto simp: gids)
  ultimately show ?thesis using st1 by (intro exI [of _ "st1\<lparr>s_n := Suc (s_n st1)\<rparr>"] exI [of _ ?ss]) simp
qed

text \<open>The outcome of a resolution as the tables determine it.\<close>

definition resolution_spec :: "query_ctx \<Rightarrow> database \<Rightarrow> string \<Rightarrow> string \<Rightarrow> identity res \<Rightarrow> bool" where
  "resolution_spec q d p s r \<longleftrightarrow>
     (case linked d p s of
        None \<Rightarrow> r = Inl (AuthE ErrNotProvisioned)
      | Some u \<Rightarrow>
          (case active_state q d u of
             None \<Rightarrow> r = Inl (Wrap ''checking active flag'' (AuthE ErrNotProvisioned))
           | Some (Inl e) \<Rightarrow> (\<exists>err. r = Inl err)
           | Some (Inr False) \<Rightarrow> r = Inl (AuthE ErrDisabled)
           | Some (Inr True) \<Rightarrow> (\<exists>i. r = Inr i \<and> id_Provider i = p \<and> id_Subject i = s \<and> id_EntityID i = u
                \<and> set (id_Groups i) = member_groups q d u
                \<and> set (id_AllowedSystems i) = accessible_systems q d u
                \<and> (id_IsPlatformAdmin i \<longleftrightarrow> ''oad:admin'' \<in> member_groups q d u)
                \<and> (id_IsSystemAdmin i \<longleftrightarrow> ''oad:system-admin'' \<in> member_groups q d u)
                \<and> id_ActiveSystemID i = None)))"

text \<open>Both sets as lists, for evaluation.\<close>

lemma member_groups_list:
  "member_groups q d u = set (map (group_name q) (relation_targets q d (\<lambda>x. x = u) ''member_of'' ''Group''))"
  by (auto simp: member_groups_def set_relation_targets)

lemma accessible_systems_list:
  "accessible_systems q d u = set (map en_id (relation_targets q d (\<lambda>x. x = u \<or>
     list_ex (\<lambda>g. en_id g = x \<and> en_external_id g \<in> member_groups q d u) (entities q d)) ''has_role_in'' ''System''))"
  by (auto simp: accessible_systems_def set_relation_targets list_ex_iff)

lemma resolution_correct:
  assumes "quiet w v" "s_tx st = None"
  shows "resolution_spec (view_ctx w v) (s_db st) p s (fst (resolver_Resolve pgx_resolver p s w st))
     \<and> s_db (snd (resolver_Resolve pgx_resolver p s w st)) = s_db st"
proof
  let ?q = "view_ctx w v" and ?d = "s_db st"
  show "s_db (snd (resolver_Resolve pgx_resolver p s w st)) = s_db st"
    using pgx.resolve_reads [of p s] unfolding preserving_def same_db_def by metis
  show "resolution_spec ?q ?d p s (fst (resolver_Resolve pgx_resolver p s w st))"
  proof (cases "linked ?d p s")
    case None
    then show ?thesis
      by (simp add: resolution_spec_def resolver_Resolve_def pgx_resolver_def bind_def FindEntityID_quiet [OF assms])
  next
    case (Some u)
    define st1 where "st1 = st\<lparr>s_n := Suc (s_n st)\<rparr>"
    have st1: "s_tx st1 = None" "s_db st1 = ?d" using assms by (simp_all add: st1_def)
    have f: "pgx_FindEntityID p s w st = (Inr u, st1)"
      using FindEntityID_quiet [OF assms] Some by (simp add: st1_def)
    from IsActive_quiet [OF assms(1) st1(1), of u] obtain st2 where
      st2: "s_db st2 = ?d" "s_tx st2 = None" and a: "pgx_IsActive u w st1 = (case active_state ?q ?d u of
        None \<Rightarrow> (Inl (AuthE ErrNotProvisioned), st2)
      | Some (Inl e) \<Rightarrow> (Inl (if e = ErrNoRows then AuthE ErrNotProvisioned
                               else Wrap ''querying entity active flag'' (Db e)), st2)
      | Some (Inr b) \<Rightarrow> (Inr b, st2))" unfolding st1(2) by blast
    from Groups_quiet [OF assms(1) st2(2), of u] obtain st3 gs where
      st3: "s_db st3 = ?d" "s_tx st3 = None" and g: "pgx_Groups u w st2 = (Inr gs, st3)"
        "set gs = member_groups ?q ?d u" unfolding st2(1) by blast
    from AllowedSystems_quiet [OF assms(1) st3(2), of gs u] g(2) obtain st4 ss where
      ss: "pgx_AllowedSystems u gs w st3 = (Inr ss, st4)" "set ss = accessible_systems ?q ?d u"
      unfolding st3(1) by blast
    show ?thesis
    proof (cases "active_state ?q ?d u")
      case None
      then show ?thesis using Some f a
        by (simp add: resolution_spec_def resolver_Resolve_def pgx_resolver_def bind_def wrap_err_def catch_def throw_def)
    next
      case (Some r)
      show ?thesis
      proof (cases r)
        case (Inl e)
        then show ?thesis using \<open>linked ?d p s = Some u\<close> Some f a
          by (simp add: resolution_spec_def resolver_Resolve_def pgx_resolver_def bind_def wrap_err_def catch_def throw_def)
      next
        case (Inr b)
        then show ?thesis using \<open>linked ?d p s = Some u\<close> Some f a g ss
          by (cases b) (simp_all add: resolution_spec_def resolver_Resolve_def pgx_resolver_def bind_def
              wrap_err_def catch_def throw_def ret_def make_identity_simps)
      qed
    qed
  qed
qed

subsection \<open>Properties\<close>

text \<open>
  C16. Resolving a caller gives exactly what the tables say: no link is "not provisioned", an
  inactive user is refused, and an active one gets the groups of its \<open>member_of\<close> relations (SCIM
  groups named after a role count as that role), the systems reachable by \<open>has_role_in\<close> directly or
  through a group, and administrator flags exactly from the two groups. The tables are not changed.
\<close>

theorem resolver_follows_tables:
  assumes "quiet w v" "s_tx st = None"
  shows "resolution_spec (view_ctx w v) (s_db st) p s (fst (resolver_Resolve pgx_resolver p s w st))
     \<and> s_db (snd (resolver_Resolve pgx_resolver p s w st)) = s_db st"
  by (rule resolution_correct [OF assms])

text \<open>A small installation: a user in the editors' group, which has a role in one system.\<close>

definition sample_type :: "uuid \<Rightarrow> string \<Rightarrow> type_row" where
  "sample_type u name = \<lparr>ty_id = u, ty_name = name, ty_allowed_properties = JObj [], ty_allowed_relations = JObj [],
     ty_scope = ''global'', ty_builtin = True, ty_created = 0, ty_updated = 0\<rparr>"

definition sample_entity :: "uuid \<Rightarrow> uuid \<Rightarrow> string \<Rightarrow> json \<Rightarrow> entity_row" where
  "sample_entity u t ext props = \<lparr>en_id = u, en_type_id = t, en_external_id = ext, en_properties = props,
     en_system_id = None, en_builtin = False, en_created = 0, en_updated = 0\<rparr>"

definition sample_relation :: "uuid \<Rightarrow> uuid \<Rightarrow> string \<Rightarrow> uuid \<Rightarrow> relation_row" where
  "sample_relation u subj rtype tgt = \<lparr>rl_id = u, rl_subject = subj, rl_type = rtype, rl_target = tgt,
     rl_system = None, rl_created = 0\<rparr>"

definition sample_db :: database where
  "sample_db = \<lparr>db_types = [sample_type 1 ''User'', sample_type 2 ''Group'', sample_type 3 ''System''],
     db_entities = [sample_entity 10 1 ''scim:kc:u1'' (JObj [(''userName'', JStr ''ann''), (''active'', JBool True)]),
                    sample_entity 11 2 ''oad:editor'' (JObj []), sample_entity 12 3 ''crm'' (JObj [])],
     db_identities = [\<lparr>ei_id = 20, ei_entity_id = 10, ei_provider = ''kc'', ei_subject = ''u1'',
                        ei_created = 0, ei_updated = 0\<rparr>],
     db_relations = [sample_relation 30 10 ''member_of'' 11, sample_relation 31 11 ''has_role_in'' 12],
     db_overlays = [], db_schemas = [], db_webhooks = [], db_audit = [],
     db_deliveries = [], db_retrievals = []\<rparr>"

definition sample_world :: world where
  "sample_world = \<lparr>w_fail = (\<lambda>_. None), w_uuid = (\<lambda>n. of_nat (100 + n)), w_time = (\<lambda>n. int n),
     w_unset = (\<lambda>_. SetEmpty), w_bypass_rls = False, w_render = (\<lambda>_. []), w_indoubt = (\<lambda>_. False)\<rparr>"

definition sample_sess :: sess where
  "sample_sess = \<lparr>s_db = sample_db, s_n = 0, s_tx = None\<rparr>"

lemmas sample_defs = sample_db_def sample_sess_def sample_world_def sample_type_def sample_entity_def
  sample_relation_def

lemma sample_quiet: "quiet sample_world SetEmpty" "s_tx sample_sess = None" "s_db sample_sess = sample_db"
  by (simp_all add: quiet_def sample_world_def sample_sess_def)

lemma sample_linked:
  "linked sample_db ''kc'' ''u1'' = Some 10" "linked sample_db ''kc'' ''u2'' = None"
  "active_state (view_ctx sample_world SetEmpty) sample_db 10 = Some (Inr True)"
proof -
  show "linked sample_db ''kc'' ''u1'' = Some 10" "linked sample_db ''kc'' ''u2'' = None"
    by (simp_all add: linked_def sample_defs)
  have "TrimSpace ''true'' = ''true''"
    by (rule TrimSpace_solid) (simp_all add: solid_def unicode_IsSpace_def)
  then have "pg_bool ''true'' = Inr True" by (simp add: pg_bool_def ToLower_def lower_char_def)
  then show "active_state (view_ctx sample_world SetEmpty) sample_db 10 = Some (Inr True)"
    by (simp add: active_state_def active_flag_def jsonb_text_def jsonb_get_def entities_def visible_def
        view_ctx_def sample_defs)
qed

lemma sample_spec:
  assumes "resolution_spec (view_ctx sample_world SetEmpty) (s_db sample_sess) ''kc'' ''u1'' r"
  shows "\<exists>i. r = Inr i \<and> set (id_Groups i) = {''oad:editor''} \<and> set (id_AllowedSystems i) = {12} \<and> access_of i = Editor"
proof -
  let ?q = "view_ctx sample_world SetEmpty"
  have g: "member_groups ?q sample_db 10 = {''oad:editor''}"
    by (simp add: member_groups_list relation_targets_def entities_def relations_def visible_def view_ctx_def
        has_type_def group_name_def sample_defs)
  have s: "accessible_systems ?q sample_db 10 = {12}"
    unfolding accessible_systems_list g
    by (simp add: relation_targets_def entities_def relations_def visible_def view_ctx_def has_type_def sample_defs)
  from assms g s sample_linked obtain i where i: "r = Inr i"
    "set (id_Groups i) = {''oad:editor''}" "set (id_AllowedSystems i) = {12}"
    "\<not> id_IsPlatformAdmin i" "\<not> id_IsSystemAdmin i"
    by (auto simp: resolution_spec_def sample_quiet(3))
  then have "access_of i = Editor" by (simp add: access_of_def)
  with i show ?thesis by blast
qed

theorem resolver_follows_tables_witness:
  "\<exists>i. fst (resolver_Resolve pgx_resolver ''kc'' ''u1'' sample_world sample_sess) = Inr i
     \<and> set (id_Groups i) = {''oad:editor''} \<and> set (id_AllowedSystems i) = {12} \<and> access_of i = Editor"
  using resolver_follows_tables [OF sample_quiet(1,2), of "''kc''" "''u1''"] by (intro sample_spec) blast

lemma sample_resolved:
  "\<exists>i. fst (resolver_Resolve pgx_resolver ''kc'' ''u1'' sample_world sample_sess) = Inr i
     \<and> set (id_Groups i) = {''oad:editor''} \<and> set (id_AllowedSystems i) = {12} \<and> access_of i = Editor"
  using resolution_correct [OF sample_quiet(1,2), of "''kc''" "''u1''"] by (intro sample_spec) blast



end
