(* ===== verification/Scim_Store_Laws.thy ===== *)
theory Scim_Store_Laws
  imports Scim_Store Db_Laws Resolver
begin

section \<open>Laws of the SCIM repositories\<close>

text \<open>
  What a successful repository operation did to the tables, that every operation keeps their
  integrity, and that the operations of one provider leave alone what is not linked to it.
\<close>

subsection \<open>What a success did\<close>

lemma store_Create_Inr:
  assumes "store_Create k p sub props w s = (Inr r, s')"
  obtains t e i where "find_type (s_db s) (rk_type k) = Some t"
    "s_db s' = (s_db s)\<lparr>db_entities := db_entities (s_db s) @ [e], db_identities := db_identities (s_db s) @ [i]\<rparr>"
    "en_id e = sr_EntityID r" "en_type_id e = ty_id t" "en_external_id e = makeEntityExternalID p sub"
    "en_properties e = JObj props" "en_system_id e = None" "en_created e = sr_CreatedAt r" "en_updated e = sr_UpdatedAt r"
    "ei_entity_id i = sr_EntityID r" "ei_provider i = p" "ei_subject i = sub"
    "sr_Properties r = Some props" "sr_ExternalSubject r = sub"
    "en_id e \<notin> entity_ids (s_db s)" "ei_entity_id i = en_id e"
    "\<forall>j \<in> set (db_identities (s_db s)). \<not> (ei_provider j = p \<and> ei_subject j = sub)"
proof -
  from assms obtain e s1 u where
    e: "exec (insert_entity_of_type (rk_type k) (makeEntityExternalID p sub) (marshal_props props)) w s = (Inr (Some e), s1)"
    and i: "exec (insert_identity (en_id e) p sub) w s1 = (Inr u, s')"
    and r: "r = \<lparr>sr_EntityID = en_id e, sr_Properties = Some props, sr_ExternalSubject = sub,
          sr_CreatedAt = en_created e, sr_UpdatedAt = en_updated e\<rparr>"
    by (auto simp: store_Create_def bind_Inr)
  from exec_Inr [OF e] obtain q where
    "insert_entity_of_type (rk_type k) (makeEntityExternalID p sub) (marshal_props props) q (s_db s) = Inr (Some e, s_db s1)"
    by blast
  then obtain t where t: "find_type (s_db s) (rk_type k) = Some t"
    and ins: "insert_entity (ty_id t) (makeEntityExternalID p sub) (marshal_props props) None q (s_db s) = Inr (e, s_db s1)"
    by (auto simp: insert_entity_of_type_def split: option.splits sum.splits)
  then have e': "en_type_id e = ty_id t" "en_external_id e = makeEntityExternalID p sub" "en_properties e = JObj props"
    "en_system_id e = None" "en_id e \<notin> entity_ids (s_db s)"
    "s_db s1 = (s_db s)\<lparr>db_entities := db_entities (s_db s) @ [e]\<rparr>"
    by (auto simp: insert_entity_def pg_error_def marshal_props_def entity_ids_def list_ex_iff Let_def split: if_splits)
  from exec_Inr [OF i] obtain q' where "insert_identity (en_id e) p sub q' (s_db s1) = Inr (u, s_db s')" by blast
  let ?j = "\<lparr>ei_id = q_uuid q', ei_entity_id = en_id e, ei_provider = p, ei_subject = sub,
      ei_created = q_now q', ei_updated = q_now q'\<rparr>"
  have j: "s_db s' = (s_db s1)\<lparr>db_identities := db_identities (s_db s1) @ [?j]\<rparr>"
    "\<forall>j \<in> set (db_identities (s_db s1)). \<not> (ei_provider j = p \<and> ei_subject j = sub)"
    using \<open>insert_identity (en_id e) p sub q' (s_db s1) = Inr (u, s_db s')\<close>
    by (auto simp: insert_identity_def pg_error_def list_ex_iff Let_def split: if_splits)
  show thesis by (rule that [where t = t and e = e and i = ?j]) (use t e' j r in simp_all)
qed

definition owned_by :: "string \<Rightarrow> uuid \<Rightarrow> database \<Rightarrow> bool" where
  "owned_by p i d \<longleftrightarrow> (\<exists>r \<in> set (db_identities d). ei_entity_id r = i \<and> ei_provider r = p)"

lemma store_Update_Inr:
  assumes "store_Update k p i props w s = (Inr t, s')"
  obtains q where "ctx_in w s q" "owned_by p i (s_db s)" "s_tx s' = s_tx s"
    "s_db s' = (s_db s)\<lparr>db_entities := map (\<lambda>e. if visible q (en_system_id e) \<and> en_id e = i
         \<and> (\<exists>ty. find_type (s_db s) (rk_type k) = Some ty \<and> en_type_id e = ty_id ty)
         then e\<lparr>en_properties := props, en_updated := t\<rparr> else e) (db_entities (s_db s))\<rparr>"
    "\<exists>e \<in> set (db_entities (s_db s)). visible q (en_system_id e) \<and> en_id e = i
         \<and> (\<exists>ty. find_type (s_db s) (rk_type k) = Some ty \<and> en_type_id e = ty_id ty)"
proof -
  let ?P = "\<lambda>q d e. en_id e = i \<and> (case find_type d (rk_type k) of None \<Rightarrow> False | Some t \<Rightarrow> en_type_id e = ty_id t)
                 \<and> list_ex (\<lambda>r. ei_entity_id r = i \<and> ei_provider r = p) (db_identities d)"
  from assms obtain rows where ex: "exec (update_entities ?P (\<lambda>e. e\<lparr>en_properties := props\<rparr>)) w s = (Inr rows, s')"
    and t: "(case rows of [] \<Rightarrow> None | e # _ \<Rightarrow> Some (en_updated e)) = Some t"
    by (auto simp: store_Update_def bind_Inr)
  from exec_Inr_ctx [OF ex] obtain q where
    up: "update_entities ?P (\<lambda>e. e\<lparr>en_properties := props\<rparr>) q (s_db s) = Inr (rows, s_db s')"
    and q: "ctx_in w s q" "s_tx s' = s_tx s" by blast
  let ?hit = "\<lambda>e. visible q (en_system_id e) \<and> ?P q (s_db s) e"
  from up have rows: "rows = map (\<lambda>e. e\<lparr>en_properties := props, en_updated := q_now q\<rparr>) (filter ?hit (db_entities (s_db s)))"
    and d': "s_db s' = (s_db s)\<lparr>db_entities := map (\<lambda>e. if ?hit e then e\<lparr>en_properties := props, en_updated := q_now q\<rparr> else e)
        (db_entities (s_db s))\<rparr>"
    by (simp_all add: update_entities_def Let_def)
  from t rows have now: "t = q_now q" by (auto split: list.splits)
  from t rows have "filter ?hit (db_entities (s_db s)) \<noteq> []" by auto
  then obtain e where "e \<in> set (filter ?hit (db_entities (s_db s)))"
    by (meson ex_in_conv set_empty)
  then have e: "e \<in> set (db_entities (s_db s))" "?hit e" by auto
  then have own: "owned_by p i (s_db s)" by (auto simp: owned_by_def list_ex_iff)
  then have hit: "?hit e' \<longleftrightarrow> visible q (en_system_id e') \<and> en_id e' = i
         \<and> (\<exists>ty. find_type (s_db s) (rk_type k) = Some ty \<and> en_type_id e' = ty_id ty)" for e'
    by (auto simp: owned_by_def list_ex_iff split: option.splits)
  show thesis
  proof (rule that [OF q(1) own q(2)])
    show "s_db s' = (s_db s)\<lparr>db_entities := map (\<lambda>e. if visible q (en_system_id e) \<and> en_id e = i
         \<and> (\<exists>ty. find_type (s_db s) (rk_type k) = Some ty \<and> en_type_id e = ty_id ty)
         then e\<lparr>en_properties := props, en_updated := t\<rparr> else e) (db_entities (s_db s))\<rparr>"
      unfolding d' now hit ..
    show "\<exists>e \<in> set (db_entities (s_db s)). visible q (en_system_id e) \<and> en_id e = i
         \<and> (\<exists>ty. find_type (s_db s) (rk_type k) = Some ty \<and> en_type_id e = ty_id ty)"
      using e unfolding hit by blast
  qed
qed

lemma set_linked_entities:
  "(e, i) \<in> set (linked_entities q tn p d) \<longleftrightarrow> e \<in> set (db_entities d) \<and> visible q (en_system_id e) \<and> has_type d tn e
     \<and> i \<in> set (db_identities d) \<and> ei_entity_id i = en_id e \<and> ei_provider i = p"
  by (auto simp: linked_entities_def entities_def)

text \<open>The row a provider reads for an identifier: the first linked one.\<close>

definition tenant_row :: "query_ctx \<Rightarrow> string \<Rightarrow> string \<Rightarrow> uuid \<Rightarrow> database \<Rightarrow> (entity_row \<times> identity_row) option" where
  "tenant_row q tn p i d = find (\<lambda>(e, _). en_id e = i) (linked_entities q tn p d)"

lemma filter_Cons_find: "filter P xs = x # ys \<Longrightarrow> find P xs = Some x"
  by (induction xs) (auto split: if_splits)

lemma find_append_None: "find P xs = None \<Longrightarrow> find P (xs @ ys) = find P ys"
  by (induction xs) (auto split: if_splits)

lemma find_SomeD: "find P xs = Some x \<Longrightarrow> x \<in> set xs \<and> P x"
  by (induction xs) (auto split: if_splits)

lemma tenant_row_Some:
  assumes "tenant_row q tn p i d = Some (e, j)"
  shows "e \<in> set (db_entities d)" "visible q (en_system_id e)" "has_type d tn e" "en_id e = i"
    "j \<in> set (db_identities d)" "ei_entity_id j = i" "ei_provider j = p"
  using find_SomeD [OF assms [unfolded tenant_row_def]] by (auto simp: set_linked_entities)

lemma store_Get_Inr:
  assumes "store_Get k p i w s = (Inr r, s')"
  obtains q e j where "ctx_in w s q" "tenant_row q (rk_type k) p i (s_db s) = Some (e, j)"
    "decode_row k (e, j) = Inr r" "s_db s' = s_db s" "s_tx s' = s_tx s"
proof -
  let ?f = "\<lambda>q d. filter (\<lambda>(e, _). en_id e = i) (linked_entities q (rk_type k) p d)"
  from assms obtain ej s1 where row: "query_row ?f w s = (Inr ej, s1)" and dec': "lift_res (decode_row k ej) w s1 = (Inr r, s')"
    unfolding store_Get_def bind_Inr catch_throw_if_Inr by (elim exE conjE)
  from dec' have dec: "decode_row k ej = Inr r" "s1 = s'" by simp_all
  from query_row_Inr [OF row] obtain q ys where
    q: "?f q (s_db s) = ej # ys" "s_db s1 = s_db s" "ctx_in w s q" "s_tx s1 = s_tx s" by (elim exE conjE)
  from filter_Cons_find [OF q(1)] have "tenant_row q (rk_type k) p i (s_db s) = Some ej" by (simp add: tenant_row_def)
  with that [of q "fst ej" "snd ej"] q dec show thesis by simp
qed

lemma store_Delete_Inr:
  assumes "store_Delete k p i w s = (Inr u, s')"
  obtains q where "owned_by p i (s_db s)" "s_tx s' = s_tx s"
    "let d1 = (s_db s)\<lparr>db_identities := filter (\<lambda>r. \<not> (ei_entity_id r = i \<and> ei_provider r = p)) (db_identities (s_db s))\<rparr>
     in s_db s' = cascade_delete (if \<exists>r \<in> set (db_identities d1). ei_entity_id r = i then []
          else map en_id (filter (\<lambda>e. visible q (en_system_id e) \<and> en_id e = i) (db_entities (s_db s)))) d1"
proof -
  let ?Q = "\<lambda>r. ei_entity_id r = i \<and> ei_provider r = p"
  let ?P = "\<lambda>d e. en_id e = i \<and> \<not> list_ex (\<lambda>r. ei_entity_id r = i) (db_identities d)"
  let ?d1 = "(s_db s)\<lparr>db_identities := filter (\<lambda>r. \<not> ?Q r) (db_identities (s_db s))\<rparr>"
  from assms obtain n s1 m where del: "exec (delete_identities ?Q) w s = (Inr n, s1)" "n \<noteq> 0"
    and ent: "exec (delete_entities ?P) w s1 = (Inr m, s')"
    by (auto simp: store_Delete_def bind_Inr split: if_splits)
  from exec_Inr_ctx [OF del(1)] obtain q where q: "delete_identities ?Q q (s_db s) = Inr (n, s_db s1)"
    "ctx_in w s q" "s_tx s1 = s_tx s" by blast
  then have d1: "s_db s1 = ?d1" and n: "n = length (filter ?Q (db_identities (s_db s)))"
    by (auto simp: delete_identities_def)
  from n del(2) have own: "owned_by p i (s_db s)"
    by (auto simp: owned_by_def filter_empty_conv)
  from exec_Inr_ctx [OF ent] obtain q' where q': "delete_entities ?P q' (s_db s1) = Inr (m, s_db s')"
    "ctx_in w s1 q'" "s_tx s' = s_tx s1" by blast
  from q'(1) have del2: "s_db s' = cascade_delete (map en_id (filter (?P (s_db s1)) (entities q' (s_db s1)))) (s_db s1)"
    by (auto simp: delete_entities_def pg_error_def Let_def split: if_splits)
  have ids: "map en_id (filter (?P ?d1) (entities q' ?d1))
      = (if \<exists>r \<in> set (db_identities ?d1). ei_entity_id r = i then []
         else map en_id (filter (\<lambda>e. visible q' (en_system_id e) \<and> en_id e = i) (db_entities (s_db s))))"
  proof (cases "list_ex (\<lambda>r. ei_entity_id r = i) (db_identities ?d1)")
    case True
    then have "\<exists>r \<in> set (db_identities ?d1). ei_entity_id r = i" by (simp only: list_ex_iff)
    with True show ?thesis by simp
  next
    case False
    then have no: "\<not> (\<exists>r \<in> set (db_identities ?d1). ei_entity_id r = i)" by (simp only: list_ex_iff not_False_eq_True)
    from False have peq: "?P ?d1 = (\<lambda>e. en_id e = i)" by (simp only: simp_thms)
    have "map en_id (filter (?P ?d1) (entities q' ?d1))
        = map en_id (filter (\<lambda>e. visible q' (en_system_id e) \<and> en_id e = i) (db_entities (s_db s)))"
      by (subst peq) (simp add: entities_def conj_commute)
    with no show ?thesis by (simp only: if_False)
  qed
  show thesis
    by (rule that [where q = q', OF own]) (simp_all only: q'(3) q(3) Let_def del2 d1 ids)
qed

subsection \<open>Tenant isolation\<close>

text \<open>
  \<open>keeps_tenant p e\<close>: an entity that is not linked to the provider \<open>p\<close> stays as it is and unlinked, and
  the links of all other providers stay.
\<close>

definition keeps_tenant :: "string \<Rightarrow> entity_row \<Rightarrow> database \<Rightarrow> database \<Rightarrow> bool" where
  "keeps_tenant p e d d' \<longleftrightarrow>
     (e \<in> set (db_entities d) \<and> \<not> owned_by p (en_id e) d \<longrightarrow> e \<in> set (db_entities d') \<and> \<not> owned_by p (en_id e) d')
     \<and> filter (\<lambda>i. ei_provider i \<noteq> p) (db_identities d') = filter (\<lambda>i. ei_provider i \<noteq> p) (db_identities d)"

lemma keeps_tenant_props [db_intros]: "reflp (keeps_tenant p e)" "transp (keeps_tenant p e)"
  by (auto simp: keeps_tenant_def intro!: reflpI transpI)

lemma tenant_Create [db_intros]: "ensures (keeps_tenant p e) (store_Create k p sub props)"
proof (rule ensuresI)
  fix w s r s'
  assume "store_Create k p sub props w s = (Inr r, s')"
  then obtain t e' i where d': "s_db s' = (s_db s)\<lparr>db_entities := db_entities (s_db s) @ [e'], db_identities := db_identities (s_db s) @ [i]\<rparr>"
    and e': "en_id e' \<notin> entity_ids (s_db s)" "ei_entity_id i = en_id e'" "ei_provider i = p"
    by (rule store_Create_Inr)
  show "keeps_tenant p e (s_db s) (s_db s')"
    using e' by (auto simp: keeps_tenant_def d' owned_by_def entity_ids_def)
qed

lemma tenant_Update [db_intros]: "ensures (keeps_tenant p e) (store_Update k p i props)"
proof (rule ensuresI)
  fix w s t s'
  assume "store_Update k p i props w s = (Inr t, s')"
  then obtain q where own: "owned_by p i (s_db s)"
    and d': "s_db s' = (s_db s)\<lparr>db_entities := map (\<lambda>e. if visible q (en_system_id e) \<and> en_id e = i
         \<and> (\<exists>ty. find_type (s_db s) (rk_type k) = Some ty \<and> en_type_id e = ty_id ty)
         then e\<lparr>en_properties := props, en_updated := t\<rparr> else e) (db_entities (s_db s))\<rparr>"
    by (rule store_Update_Inr)
  show "keeps_tenant p e (s_db s) (s_db s')"
    unfolding keeps_tenant_def d' using own by (force simp: owned_by_def image_iff)
qed

lemma tenant_Delete [db_intros]: "ensures (keeps_tenant p e) (store_Delete k p i)"
proof (rule ensuresI)
  fix w s u s'
  assume "store_Delete k p i w s = (Inr u, s')"
  then obtain q where own: "owned_by p i (s_db s)" and
    d: "let d1 = (s_db s)\<lparr>db_identities := filter (\<lambda>r. \<not> (ei_entity_id r = i \<and> ei_provider r = p)) (db_identities (s_db s))\<rparr>
     in s_db s' = cascade_delete (if \<exists>r \<in> set (db_identities d1). ei_entity_id r = i then []
          else map en_id (filter (\<lambda>e. visible q (en_system_id e) \<and> en_id e = i) (db_entities (s_db s)))) d1"
    by (rule store_Delete_Inr)
  let ?d1 = "(s_db s)\<lparr>db_identities := filter (\<lambda>r. \<not> (ei_entity_id r = i \<and> ei_provider r = p)) (db_identities (s_db s))\<rparr>"
  obtain ids where d': "s_db s' = cascade_delete ids ?d1" and ids: "set ids \<subseteq> {i}"
    and free: "ids = [] \<or> \<not> (\<exists>r \<in> set (db_identities ?d1). ei_entity_id r = i)"
  proof (cases "\<exists>r \<in> set (db_identities ?d1). ei_entity_id r = i")
    case True
    with d have "s_db s' = cascade_delete [] ?d1" by (simp only: Let_def if_True)
    then show thesis using that [of "[]"] by simp
  next
    case False
    with d have "s_db s' = cascade_delete (map en_id (filter (\<lambda>e. visible q (en_system_id e) \<and> en_id e = i) (db_entities (s_db s)))) ?d1"
      by (simp only: Let_def if_False)
    then show thesis by (rule that) (use False in auto)
  qed
  have keep: "ei_entity_id r \<notin> set ids" if "r \<in> set (db_identities (s_db s))" "ei_provider r \<noteq> p" for r
    using free ids that by auto
  have "filter (\<lambda>i. ei_provider i \<noteq> p) (db_identities (s_db s')) = filter (\<lambda>i. ei_provider i \<noteq> p) (db_identities (s_db s))"
    unfolding d' cascade_delete_def using keep by (auto intro!: filter_cong)
  moreover have "e \<in> set (db_entities (s_db s')) \<and> \<not> owned_by p (en_id e) (s_db s')"
    if "e \<in> set (db_entities (s_db s))" "\<not> owned_by p (en_id e) (s_db s)"
  proof -
    from that own have "en_id e \<noteq> i" by (auto simp: owned_by_def)
    with ids have "en_id e \<notin> set ids" by blast
    with that show ?thesis by (auto simp: d' cascade_delete_def owned_by_def)
  qed
  ultimately show "keeps_tenant p e (s_db s) (s_db s')" by (simp add: keeps_tenant_def)
qed

lemma tenant_Get [db_intros]: "ensures (keeps_tenant p e) (store_Get k p' i)"
  by (intro preserving_ensures db_intros)

lemma tenant_audit [db_intros]: "ensures (keeps_tenant p e) (audit_Write a)"
  by (rule ensuresI) (auto simp: keeps_tenant_def owned_by_def dest!: audit_Write_Inr)

lemma keeps_ok_store [db_intros]:
  "preserving keeps_ok (store_Create k p sub props)" "preserving keeps_ok (store_Delete k p i)"
  "preserving keeps_ok (store_Update k p i j)"
  unfolding store_Create_def store_Delete_def store_Update_def by (intro db_intros; simp)+

subsection \<open>Inside a transaction\<close>

lemma in_tx_Inr:
  assumes "in_tx m w s = (Inr x, s')" "s_tx s = None" "keeps_snapshot m"
  obtains s1 t s2 where "s_db s1 = s_db s" "s_tx s1 = Some t" "tx_setting t = w_unset w (s_n s)"
    "m w s1 = (Inr x, s2)" "s_db s' = s_db s2" "s_tx s' = None"
proof -
  obtain rb s1 where b: "begin_tx w s = (rb, s1)" by fastforce
  with assms(1) obtain x' where rb: "rb = Inr ()"
    by (cases rb) (simp_all add: in_tx_def tx_do_def with_tx_def)
  from b rb obtain t where t: "s_db s1 = s_db s" "s_tx s1 = Some t" "tx_setting t = w_unset w (s_n s)"
    by (auto simp: begin_tx_def Let_def split: option.splits)
  from assms(1) b rb obtain s2 where body: "bind m (\<lambda>x. bind (wrap_err ''commit'' commit_tx) (\<lambda>_. ret x)) w s1 = (Inr x, s2)"
    and s': "s' = rollback s2"
    by (auto simp: in_tx_def tx_do_def with_tx_def split: prod.splits)
  then obtain s3 u where m: "m w s1 = (Inr x, s3)" and c: "commit_tx w s3 = (Inr u, s2)"
    by (auto simp: bind_Inr)
  from keeps_snapshotD [OF assms(3) m t(2)] obtain t3 where t3: "s_tx s3 = Some t3" by blast
  from commit_tx_cases [OF c t3] have "s_db s2 = s_db s3" "s_tx s2 = None" by auto
  with s' have "s_db s' = s_db s3" "s_tx s' = None" by (simp_all add: rollback_def)
  with that [OF t m] show thesis by blast
qed

text \<open>In a quiet world every statement sees the same rows.\<close>

lemma quiet_ctx:
  assumes "quiet w v" "ctx_in w s q" "case s_tx s of None \<Rightarrow> True | Some t \<Rightarrow> tx_setting t = v"
  shows "visible q = visible (view_ctx w v)"
  using assms by (auto simp: ctx_in_def quiet_def visible_def view_ctx_def fun_eq_iff split: option.splits)

lemma linked_entities_visible:
  "visible q = visible q' \<Longrightarrow> linked_entities q tn p d = linked_entities q' tn p d"
  by (simp add: linked_entities_def entities_def)

lemma distinct_key_inj:
  "distinct (map f xs) \<Longrightarrow> x \<in> set xs \<Longrightarrow> y \<in> set xs \<Longrightarrow> f x = f y \<Longrightarrow> x = y"
  by (metis distinct_map inj_onD)

lemma find_unique:
  assumes "distinct (map f xs)" "x \<in> set xs" "\<And>y. P y \<longleftrightarrow> f y = f x"
  shows "find P xs = Some x"
  using assms
proof (induction xs)
  case (Cons a xs)
  then show ?case by (cases "a = x") (force simp: image_iff)+
qed simp

lemma tenant_row_visible: "visible q = visible q' \<Longrightarrow> tenant_row q tn p i d = tenant_row q' tn p i d"
  unfolding tenant_row_def by (simp only: linked_entities_visible [of q q' tn p d])

lemma store_Get_quiet:
  assumes "quiet w v" "s_tx s = None"
  shows "store_Get k p i w s =
    (case tenant_row (view_ctx w v) (rk_type k) p i (s_db s) of
       None \<Rightarrow> (Inl (rk_NotFound k), s\<lparr>s_n := Suc (s_n s)\<rparr>)
     | Some ej \<Rightarrow> (decode_row k ej, s\<lparr>s_n := Suc (s_n s)\<rparr>))"
proof -
  let ?q = "\<lparr>q_setting = v, q_now = w_time w (s_n s), q_uuid = w_uuid w (s_n s),
      q_bypass = w_bypass_rls w, q_render = w_render w\<rparr>"
  define P where "P = (\<lambda>(e :: entity_row, _ :: identity_row). en_id e = i)"
  define L where "L = linked_entities (view_ctx w v) (rk_type k) p (s_db s)"
  have vis: "visible ?q = visible (view_ctx w v)" by (simp add: visible_def view_ctx_def fun_eq_iff)
  have L: "linked_entities ?q (rk_type k) p (s_db s) = L" by (simp add: L_def linked_entities_visible [OF vis])
  have run: "query_row (\<lambda>q d. filter P (linked_entities q (rk_type k) p d)) w s =
    (case filter P L of [] \<Rightarrow> (Inl (Db ErrNoRows), s\<lparr>s_n := Suc (s_n s)\<rparr>) | x # _ \<Rightarrow> (Inr x, s\<lparr>s_n := Suc (s_n s)\<rparr>))"
    using assms
    by (cases "filter P L") (simp_all add: query_row_def scan_row_def query_def exec_def Let_def quiet_def bind_def throw_def ret_def L)
  have Get: "store_Get k p i w s = bind (catch (query_row (\<lambda>q d. filter P (linked_entities q (rk_type k) p d)))
             (\<lambda>e. if is_no_rows e then throw (rk_NotFound k) else throw (Wrap (''query '' @ rk_noun k) e)))
       (\<lambda>ei. lift_res (decode_row k ei)) w s"
    by (simp add: store_Get_def P_def)
  have row: "tenant_row (view_ctx w v) (rk_type k) p i (s_db s) = find P L"
    by (simp add: tenant_row_def P_def L_def)
  show ?thesis
  proof (cases "filter P L")
    case Nil
    then have "find P L = None" by (auto simp: find_None_iff filter_empty_conv)
    with Nil show ?thesis by (simp add: Get row bind_def catch_def throw_def run)
  next
    case (Cons x xs)
    from filter_Cons_find [OF Cons] Cons show ?thesis
      by (cases "decode_row k x") (simp_all add: Get row bind_def catch_def run lift_res_def throw_def ret_def)
  qed
qed

lemma find_type_has_type:
  "db_ok d \<Longrightarrow> find_type d tn = Some ty \<Longrightarrow> has_type d tn e \<longleftrightarrow> en_type_id e = ty_id ty"
  by (auto simp: find_type_def has_type_def list_ex_iff db_ok_def dest!: find_SomeD dest: distinct_key_inj)

text \<open>An update of properties maps the rows of every query.\<close>

lemma filter_map_id:
  "(\<And>x. P (f x) = P x) \<Longrightarrow> filter P (map f xs) = map f (filter P xs)"
  by (induction xs) auto

lemma find_map_same: "(\<And>x. P (f x) = P x) \<Longrightarrow> find P (map f xs) = map_option f (find P xs)"
  by (induction xs) auto

lemma rows_after_update:
  assumes f: "\<And>e. en_id (f e) = en_id e" "\<And>e. en_type_id (f e) = en_type_id e" "\<And>e. en_system_id (f e) = en_system_id e"
    and d': "db_entities d' = map f (db_entities d)" "db_identities d' = db_identities d" "db_types d' = db_types d"
  shows "entities q d' = map f (entities q d)"
    and "tenant_row q tn p i d' = map_option (\<lambda>(e, j). (f e, j)) (tenant_row q tn p i d)"
proof -
  show ents: "entities q d' = map f (entities q d)"
    unfolding entities_def d' by (rule filter_map_id) (simp add: f)
  have ht: "has_type d' tn (f e) = has_type d tn e" for e by (simp add: has_type_def d' f)
  have "filter (has_type d' tn) (entities q d') = map f (filter (has_type d tn) (entities q d))"
    unfolding ents by (induction "entities q d") (simp_all add: filter_map o_def ht)
  then have "linked_entities q tn p d' = map (\<lambda>(e, j). (f e, j)) (linked_entities q tn p d)"
    by (simp add: linked_entities_def d' map_concat o_def f)
  then show "tenant_row q tn p i d' = map_option (\<lambda>(e, j). (f e, j)) (tenant_row q tn p i d)"
    unfolding tenant_row_def by (simp add: find_map_same f split_beta)
qed

lemma entities_find_unique:
  assumes "db_ok d" "e \<in> set (db_entities d)" "visible q (en_system_id e)"
  shows "find (\<lambda>x. en_id x = en_id e) (entities q d) = Some e"
proof -
  from assms(1) have "distinct (map en_id (entities q d))"
    by (simp add: db_ok_def entities_def distinct_map_filterI)
  from find_unique [OF this, of e] assms(2,3) show ?thesis by (simp add: entities_def)
qed

lemma linked_unique:
  assumes "db_ok d" "j \<in> set (db_identities d)"
  shows "linked d (ei_provider j) (ei_subject j) = Some (ei_entity_id j)"
proof -
  from assms(1) have "distinct (map (\<lambda>i. (ei_provider i, ei_subject i)) (db_identities d))" by (simp add: db_ok_def)
  from find_unique [OF this assms(2), of "\<lambda>i. ei_provider i = ei_provider j \<and> ei_subject i = ei_subject j"]
  show ?thesis by (simp add: linked_def)
qed

end
