(* ===== verification/Scim_Users_Svc.thy ===== *)
theory Scim_Users_Svc
  imports Scim_Users Scim_Store_Laws
begin

section \<open>The SCIM user service (\<open>internal/scim/users/service.go\<close>)\<close>

text \<open>
  Each mutation is one transaction: the repository's statements and the audit record. After the
  commit the service tells the identity cache which key to drop; the second component of a result
  lists these keys in order. \<open>drop_keys\<close> is the loop of \<open>Invalidate\<close> calls on a cache.
\<close>

definition user_of_row :: "stored_row \<Rightarrow> stored_user" where
  "user_of_row r = \<lparr>su_EntityID = sr_EntityID r, su_Properties = sr_Properties r,
     su_ExternalSubject = sr_ExternalSubject r, su_CreatedAt = sr_CreatedAt r, su_UpdatedAt = sr_UpdatedAt r\<rparr>"

type_synonym keys = "(string \<times> string) list"

definition drop_keys :: "keys \<Rightarrow> identity_cache \<Rightarrow> identity_cache" where
  "drop_keys ks c = fold (\<lambda>(p, s). Invalidate p s) ks c"

definition Users_create_body :: "string \<Rightarrow> scim_user \<Rightarrow> stored_row db" where
  "Users_create_body provider u =
     (let props = Users_ToProperties u in
      bind (store_Create user_kind provider (us_ExternalID u) props) (\<lambda>stored.
      bind (audit_Write (scim_audit user_kind provider OpCreate (sr_EntityID stored) None (Some (marshal_props props))))
        (\<lambda>_. ret stored)))"

definition Users_Create :: "render_env \<Rightarrow> string \<Rightarrow> scim_user \<Rightarrow> (scim_user \<times> keys) db" where
  "Users_Create env provider u =
     (if us_UserName u = [] then throw (UsersE Users_ErrUserNameRequired)
      else if us_ExternalID u = [] then throw (UsersE Users_ErrExternalIDRequired)
      else bind (in_tx (Users_create_body provider u)) (\<lambda>s. ret (Users_FromStored env (user_of_row s), [])))"

definition Users_GetByEntityID :: "render_env \<Rightarrow> string \<Rightarrow> uuid \<Rightarrow> scim_user db" where
  "Users_GetByEntityID env provider i =
     bind (store_Get user_kind provider i) (\<lambda>s. ret (Users_FromStored env (user_of_row s)))"

definition Users_List ::
  "'f pg_where \<Rightarrow> (string \<Rightarrow> 'f option) \<Rightarrow> render_env \<Rightarrow> string \<Rightarrow> string \<Rightarrow> int \<Rightarrow> int \<Rightarrow> (scim_user list \<times> nat) db" where
  "Users_List pg_where pf env provider filterStr offset limit =
     bind (lift_res (list_filter pf Users_FilterToSQL (UsersE Users_ErrInvalidFilter) filterStr)) (\<lambda>(sql, args).
     bind (store_List pg_where user_kind provider sql args offset limit) (\<lambda>(stored, total).
     ret (map (\<lambda>s. Users_FromStored env (user_of_row s)) stored, total)))"

text \<open>The part \<open>Replace\<close> and \<open>Patch\<close> share: write the properties, then the audit record.\<close>

definition not_found_again :: "goerr \<Rightarrow> 'a db \<Rightarrow> 'a db" where
  "not_found_again sentinel m = catch m (\<lambda>e. if errors_Is e sentinel then throw sentinel else throw e)"

definition Users_write_body :: "string \<Rightarrow> uuid \<Rightarrow> stored_row \<Rightarrow> props \<Rightarrow> stored_row db" where
  "Users_write_body provider i before newProps =
     bind (not_found_again (UsersE Users_ErrNotFound) (store_Update user_kind provider i (marshal_props newProps))) (\<lambda>updatedAt.
     bind (audit_Write (scim_audit user_kind provider OpUpdate i (Some (marshal_map (sr_Properties before)))
             (Some (marshal_props newProps)))) (\<lambda>_.
     ret \<lparr>sr_EntityID = i, sr_Properties = Some newProps, sr_ExternalSubject = sr_ExternalSubject before,
          sr_CreatedAt = sr_CreatedAt before, sr_UpdatedAt = updatedAt\<rparr>))"

definition Users_replace_body :: "string \<Rightarrow> uuid \<Rightarrow> scim_user \<Rightarrow> stored_row db" where
  "Users_replace_body provider i u =
     bind (store_Get user_kind provider i) (\<lambda>before. Users_write_body provider i before (Users_ToProperties u))"

definition Users_Replace :: "render_env \<Rightarrow> string \<Rightarrow> uuid \<Rightarrow> scim_user \<Rightarrow> (scim_user \<times> keys) db" where
  "Users_Replace env provider i u =
     (if us_UserName u = [] then throw (UsersE Users_ErrUserNameRequired)
      else bind (in_tx (Users_replace_body provider i u)) (\<lambda>s.
           ret (Users_FromStored env (user_of_row s), [(provider, sr_ExternalSubject s)])))"

definition Users_patch_body :: "(string \<Rightarrow> 'f option) \<Rightarrow> string \<Rightarrow> uuid \<Rightarrow> patch_op list \<Rightarrow> stored_row db" where
  "Users_patch_body pf provider i ops =
     bind (store_Get user_kind provider i) (\<lambda>before.
     bind (lift_res (Users_ApplyPatch pf (sr_Properties before) ops)) (\<lambda>newProps.
     if as_string (props_get newProps PropertyKeyUserName) = None then throw (UsersE Users_ErrUserNameRequired)
     else Users_write_body provider i before newProps))"

definition Users_Patch ::
  "(string \<Rightarrow> 'f option) \<Rightarrow> render_env \<Rightarrow> string \<Rightarrow> uuid \<Rightarrow> patch_op list \<Rightarrow> (scim_user \<times> keys) db" where
  "Users_Patch pf env provider i ops =
     (if ops = [] then bind (Users_GetByEntityID env provider i) (\<lambda>u. ret (u, []))
      else bind (in_tx (Users_patch_body pf provider i ops)) (\<lambda>s.
           ret (Users_FromStored env (user_of_row s), [(provider, sr_ExternalSubject s)])))"

definition Users_delete_body :: "string \<Rightarrow> uuid \<Rightarrow> stored_row db" where
  "Users_delete_body provider i =
     bind (store_Get user_kind provider i) (\<lambda>before.
     bind (store_Delete user_kind provider i) (\<lambda>_.
     bind (audit_Write (scim_audit user_kind provider OpDelete i (Some (marshal_map (sr_Properties before))) None)) (\<lambda>_.
     ret before)))"

definition Users_Delete :: "string \<Rightarrow> uuid \<Rightarrow> (unit \<times> keys) db" where
  "Users_Delete provider i =
     bind (in_tx (Users_delete_body provider i)) (\<lambda>s. ret ((), [(provider, sr_ExternalSubject s)]))"

lemmas users_bodies = Users_create_body_def Users_write_body_def Users_replace_body_def Users_patch_body_def
  Users_delete_body_def not_found_again_def Let_def

subsection \<open>The bodies meet the contract of an audited mutation\<close>

lemma keeps_snapshot_bind:
  "keeps_snapshot m \<Longrightarrow> (\<And>x. keeps_snapshot (f x)) \<Longrightarrow> keeps_snapshot (bind m f)"
  unfolding keeps_snapshot_def by (intro preserving_bind keeps_snapshot_top(2,3))

lemma keeps_snapshot_basic:
  "keeps_snapshot (ret x)" "keeps_snapshot (throw e)" "keeps_snapshot (lift_res r)"
  "keeps_snapshot m \<Longrightarrow> keeps_snapshot m' \<Longrightarrow> keeps_snapshot (if b then m else m')"
  unfolding keeps_snapshot_def
  by (auto intro: preserving_ret preserving_throw preserving_lift_res keeps_snapshot_top)

lemma keeps_snapshot_again: "keeps_snapshot m \<Longrightarrow> keeps_snapshot (not_found_again e m)"
  unfolding keeps_snapshot_def not_found_again_def
  by (intro preserving_catch keeps_snapshot_top(2,3)) (auto intro: preserving_throw keeps_snapshot_top(2,3))

lemma users_keep_snapshot [db_intros]:
  "keeps_snapshot (Users_create_body p u)" "keeps_snapshot (Users_write_body p i b props)"
  "keeps_snapshot (Users_replace_body p i u)" "keeps_snapshot (Users_patch_body pf p i ops)"
  "keeps_snapshot (Users_delete_body p i)"
  unfolding Users_create_body_def Users_replace_body_def Users_patch_body_def Users_delete_body_def
    Users_write_body_def Let_def
  by (intro keeps_snapshot_bind keeps_snapshot_basic keeps_snapshot_again keeps_snapshot_store keeps_snapshot_intros)+

text \<open>The audit record a mutation leaves: who, what, on which resource, and the documents.\<close>

definition scim_logged :: "resource_kind \<Rightarrow> string \<Rightarrow> string \<Rightarrow> uuid \<Rightarrow> raw \<Rightarrow> audit_row \<Rightarrow> bool" where
  "scim_logged k provider op i after row \<longleftrightarrow>
     au_actor row = ''scim:'' @ provider \<and> au_operation row = op \<and> au_resource_type row = rk_noun k
     \<and> au_resource_id row = i \<and> au_after row = after \<and> (au_before row = None \<longleftrightarrow> op = OpCreate) \<and> au_system row = None"

lemma audits_scim:
  "(before = None \<longleftrightarrow> op = OpCreate) \<Longrightarrow>
   audits (\<lambda>_. scim_logged k p op i after) (audit_Write (scim_audit k p op i before after))"
  using audits_Write [of "scim_audit k p op i before after"]
  by (fastforce simp: audits_def scim_logged_def audit_row_of_def scim_audit_def scimActor_def)

lemma op_neq: "OpUpdate \<noteq> OpCreate" "OpDelete \<noteq> OpCreate"
  by (simp_all add: OpCreate_def OpUpdate_def OpDelete_def)

lemma audits_then_ret:
  "audits (\<lambda>_. P) m \<Longrightarrow> (\<And>row. P row \<Longrightarrow> Q y row) \<Longrightarrow> audits Q (bind m (\<lambda>_. ret y))"
  by (rule audits_bind_left [where P = "\<lambda>_. P"]) (auto intro: db_intros)

lemma audits_if: "audits P m \<Longrightarrow> audits P m' \<Longrightarrow> audits P (if b then m else m')"
  by simp

lemma audits_throw: "audits P (throw e)"
  by (simp add: audits_def throw_def)

lemma preserving_again [db_intros]:
  "reflp R \<Longrightarrow> transp R \<Longrightarrow> preserving R m \<Longrightarrow> preserving R (not_found_again e m)"
  unfolding not_found_again_def by (intro db_intros)

lemma users_create_audits:
  "audits (\<lambda>s. scim_logged user_kind p OpCreate (sr_EntityID s) (Some (marshal_props (Users_ToProperties u))))
     (Users_create_body p u)"
  unfolding Users_create_body_def Let_def
  by (intro audits_bind_right audits_then_ret [OF audits_scim] db_intros) auto

lemma users_write_audits:
  "audits (\<lambda>s. scim_logged user_kind p OpUpdate i (Some (marshal_map (sr_Properties s)))) (Users_write_body p i b props)"
  unfolding Users_write_body_def
  by (intro audits_bind_right audits_then_ret [OF audits_scim] db_intros) (auto simp: op_neq marshal_map_def marshal_props_def)

lemma users_replace_audits:
  "audits (\<lambda>s. scim_logged user_kind p OpUpdate i (Some (marshal_map (sr_Properties s)))) (Users_replace_body p i u)"
  unfolding Users_replace_body_def by (intro audits_bind_right users_write_audits db_intros)

lemma users_patch_audits:
  "audits (\<lambda>s. scim_logged user_kind p OpUpdate i (Some (marshal_map (sr_Properties s)))) (Users_patch_body pf p i ops)"
  unfolding Users_patch_body_def by (intro audits_bind_right audits_if audits_throw users_write_audits db_intros)

lemma users_delete_audits:
  "audits (\<lambda>_. scim_logged user_kind p OpDelete i None) (Users_delete_body p i)"
  unfolding Users_delete_body_def
  by (intro audits_bind_right audits_then_ret [OF audits_scim] db_intros) (auto simp: op_neq)

interpretation user_create: audited "Users_create_body p u"
    "\<lambda>s. scim_logged user_kind p OpCreate (sr_EntityID s) (Some (marshal_props (Users_ToProperties u)))" for p u
  by unfold_locales (rule users_keep_snapshot users_create_audits)+

interpretation user_replace: audited "Users_replace_body p i u"
    "\<lambda>s. scim_logged user_kind p OpUpdate i (Some (marshal_map (sr_Properties s)))" for p i u
  by unfold_locales (rule users_keep_snapshot users_replace_audits)+

interpretation user_patch_tx: audited "Users_patch_body pf p i ops"
    "\<lambda>s. scim_logged user_kind p OpUpdate i (Some (marshal_map (sr_Properties s)))" for pf :: "string \<Rightarrow> 'f option" and p i ops
  by unfold_locales (rule users_keep_snapshot users_patch_audits)+

interpretation user_delete: audited "Users_delete_body p i" "\<lambda>_. scim_logged user_kind p OpDelete i None" for p i
  by unfold_locales (rule users_keep_snapshot users_delete_audits)+

subsection \<open>Writing a user\<close>

text \<open>A transaction of \<open>Replace\<close> or \<open>Patch\<close> that succeeded, in a quiet world.\<close>

definition user_written :: "query_ctx \<Rightarrow> string \<Rightarrow> uuid \<Rightarrow> (props option \<Rightarrow> props \<Rightarrow> bool) \<Rightarrow> database \<Rightarrow> stored_row \<Rightarrow> database \<Rightarrow> bool" where
  "user_written q p i change d r d' \<longleftrightarrow>
     (\<exists>e j before newProps row ty.
        tenant_row q ''User'' p i d = Some (e, j)
        \<and> unmarshal_map (Some (en_properties e)) = Inr before \<and> change before newProps
        \<and> find_type d ''User'' = Some ty
        \<and> r = \<lparr>sr_EntityID = i, sr_Properties = Some newProps, sr_ExternalSubject = ei_subject j,
                sr_CreatedAt = en_created e, sr_UpdatedAt = sr_UpdatedAt r\<rparr>
        \<and> d' = d\<lparr>db_entities := map (\<lambda>x. if visible q (en_system_id x) \<and> en_id x = i \<and> en_type_id x = ty_id ty
                     then x\<lparr>en_properties := JObj newProps, en_updated := sr_UpdatedAt r\<rparr> else x) (db_entities d),
                   db_audit := db_audit d @ [row]\<rparr>
        \<and> scim_logged user_kind p OpUpdate i (Some (JObj newProps)) row \<and> au_before row = Some (marshal_map before))"

lemma not_found_again_Inr [simp]: "not_found_again e m w s = (Inr x, s') \<longleftrightarrow> m w s = (Inr x, s')"
  by (simp add: not_found_again_def)

lemma audit_Write_row:
  assumes "audit_Write (scim_audit k p op i before after) w s = (Inr x, s')" "before = None \<longleftrightarrow> op = OpCreate"
  shows "\<exists>row. s_db s' = (s_db s)\<lparr>db_audit := db_audit (s_db s) @ [row]\<rparr> \<and> scim_logged k p op i after row \<and> au_before row = before"
proof -
  from assms(1) have "exec (insert_audit (scim_audit k p op i before after)) w s = (Inr x, s')" by (simp add: audit_Write_def)
  from exec_Inr [OF this] obtain q where "insert_audit (scim_audit k p op i before after) q (s_db s) = Inr (x, s_db s')" by blast
  then have "s_db s' = (s_db s)\<lparr>db_audit := db_audit (s_db s) @ [audit_row_of (scim_audit k p op i before after) q]\<rparr>"
    by (auto simp: insert_audit_def pg_error_def split: if_splits)
  then show ?thesis using assms(2)
    by (intro exI [of _ "audit_row_of (scim_audit k p op i before after) q"])
      (simp add: scim_logged_def audit_row_of_def scim_audit_def scimActor_def)
qed

lemma decode_row_Inr:
  "decode_row k (e, j) = Inr r \<longleftrightarrow> (\<exists>m. unmarshal_map (Some (en_properties e)) = Inr m \<and> r = row_of (e, j) m)"
  by (auto simp: decode_row_def unmarshal_props_def split: sum.splits)

lemma user_write_written:
  assumes get: "store_Get user_kind p i w s = (Inr before, s1)"
    and change: "change (sr_Properties before) newProps"
    and wr: "Users_write_body p i before newProps w s1 = (Inr r, s')"
    and quiet: "quiet w v" "s_tx s = Some t" "tx_setting t = v"
  shows "user_written (view_ctx w v) p i change (s_db s) r (s_db s')"
proof -
  let ?q = "view_ctx w v"
  from get obtain q e j where q: "ctx_in w s q" and ej: "tenant_row q ''User'' p i (s_db s) = Some (e, j)"
    and dec: "decode_row user_kind (e, j) = Inr before" and s1: "s_db s1 = s_db s" "s_tx s1 = s_tx s"
    by (rule store_Get_Inr) (simp add: user_kind_def)
  from dec obtain m where m: "unmarshal_map (Some (en_properties e)) = Inr m" "before = row_of (e, j) m"
    by (auto simp: decode_row_Inr)
  from wr obtain t2 s2 s3 u where up: "store_Update user_kind p i (marshal_props newProps) w s1 = (Inr t2, s2)"
    and au: "audit_Write (scim_audit user_kind p OpUpdate i (Some (marshal_map (sr_Properties before)))
         (Some (marshal_props newProps))) w s2 = (Inr u, s3)"
    and r: "r = \<lparr>sr_EntityID = i, sr_Properties = Some newProps, sr_ExternalSubject = sr_ExternalSubject before,
          sr_CreatedAt = sr_CreatedAt before, sr_UpdatedAt = t2\<rparr>" and s3: "s3 = s'"
    by (auto simp: Users_write_body_def bind_Inr)
  from up obtain q2 where q2: "ctx_in w s1 q2" and s2: "s_db s2 = (s_db s1)\<lparr>db_entities := map (\<lambda>e. if visible q2 (en_system_id e) \<and> en_id e = i
         \<and> (\<exists>ty. find_type (s_db s1) (rk_type user_kind) = Some ty \<and> en_type_id e = ty_id ty)
         then e\<lparr>en_properties := marshal_props newProps, en_updated := t2\<rparr> else e) (db_entities (s_db s1))\<rparr>"
    and ex: "\<exists>e \<in> set (db_entities (s_db s1)). visible q2 (en_system_id e) \<and> en_id e = i
         \<and> (\<exists>ty. find_type (s_db s1) (rk_type user_kind) = Some ty \<and> en_type_id e = ty_id ty)"
    by (rule store_Update_Inr)
  from ex obtain ty where ty: "find_type (s_db s) ''User'' = Some ty" by (auto simp: s1 user_kind_def)
  have vis: "visible q = visible ?q" "visible q2 = visible ?q"
    using quiet s1 by (auto intro: quiet_ctx [OF _ q] quiet_ctx [OF _ q2])
  from audit_Write_row [OF au] obtain row where row: "s_db s' = (s_db s2)\<lparr>db_audit := db_audit (s_db s2) @ [row]\<rparr>"
    "scim_logged user_kind p OpUpdate i (Some (JObj newProps)) row" "au_before row = Some (marshal_map (sr_Properties before))"
    using s3 by (auto simp: op_neq marshal_props_def)
  have d': "s_db s' = (s_db s)\<lparr>db_entities := map (\<lambda>x. if visible ?q (en_system_id x) \<and> en_id x = i \<and> en_type_id x = ty_id ty
                     then x\<lparr>en_properties := JObj newProps, en_updated := t2\<rparr> else x) (db_entities (s_db s)),
                   db_audit := db_audit (s_db s) @ [row]\<rparr>"
    using ty by (simp add: row(1) s2 s1 vis marshal_props_def user_kind_def)
  show ?thesis unfolding user_written_def
    by (rule exI [of _ e], rule exI [of _ j], rule exI [of _ m], rule exI [of _ newProps], rule exI [of _ row], rule exI [of _ ty])
      (use ej tenant_row_Some(4) [OF ej] m change ty r row(2,3) d' tenant_row_visible [OF vis(1)] in \<open>simp add: row_of_def\<close>)
qed

text \<open>What is read afterwards: by the provider, by the resolver's look-up of the link and of the row.\<close>

lemma user_written_read:
  assumes wr: "user_written q p i change d r d'" and ok: "db_ok d"
  obtains e j n before where "tenant_row q ''User'' p i d' = Some (e, j)" "en_properties e = JObj n"
    "en_created e = sr_CreatedAt r" "en_updated e = sr_UpdatedAt r" "ei_subject j = sr_ExternalSubject r"
    "sr_EntityID r = i" "sr_Properties r = Some n" "change before n" "distinct (map fst (map_entries before))"
    "linked d' p (sr_ExternalSubject r) = Some i" "find (\<lambda>x. en_id x = i) (entities q d') = Some e"
proof -
  from wr obtain e j before n row ty where
    row: "tenant_row q ''User'' p i d = Some (e, j)" and before: "unmarshal_map (Some (en_properties e)) = Inr before"
    and change: "change before n" and ty: "find_type d ''User'' = Some ty"
    and r: "r = \<lparr>sr_EntityID = i, sr_Properties = Some n, sr_ExternalSubject = ei_subject j,
                sr_CreatedAt = en_created e, sr_UpdatedAt = sr_UpdatedAt r\<rparr>"
    and d': "d' = d\<lparr>db_entities := map (\<lambda>x. if visible q (en_system_id x) \<and> en_id x = i \<and> en_type_id x = ty_id ty
                     then x\<lparr>en_properties := JObj n, en_updated := sr_UpdatedAt r\<rparr> else x) (db_entities d),
                   db_audit := db_audit d @ [row]\<rparr>"
    unfolding user_written_def by blast
  define f :: "entity_row \<Rightarrow> entity_row" where "f = (\<lambda>x. if visible q (en_system_id x) \<and> en_id x = i \<and> en_type_id x = ty_id ty
                     then x\<lparr>en_properties := JObj n, en_updated := sr_UpdatedAt r\<rparr> else x)"
  have f: "en_id (f x) = en_id x" "en_type_id (f x) = en_type_id x" "en_system_id (f x) = en_system_id x" for x
    by (simp_all add: f_def)
  have ents: "db_entities d' = map f (db_entities d)" and same: "db_identities d' = db_identities d" "db_types d' = db_types d"
    by (simp_all add: d' f_def)
  note e = tenant_row_Some [OF row]
  have fe: "f e = e\<lparr>en_properties := JObj n, en_updated := sr_UpdatedAt r\<rparr>"
    using e(2-4) find_type_has_type [OF ok ty] by (simp add: f_def)
  have after: "tenant_row q ''User'' p i d' = Some (f e, j)"
    using rows_after_update(2) [where f = f, OF f ents same] row by simp
  have found: "find (\<lambda>x. en_id x = i) (entities q d') = Some (f e)"
    using rows_after_update(1) [where f = f, OF f ents same] entities_find_unique [OF ok e(1,2)] e(4)
    by (simp add: find_map_same f)
  have "linked d' p (ei_subject j) = Some i"
    using linked_unique [OF ok e(5)] e(6,7) by (simp add: linked_def same)
  then have link: "linked d' p (sr_ExternalSubject r) = Some i" by (subst r) simp
  have rp: "sr_EntityID r = i" "sr_Properties r = Some n" "sr_ExternalSubject r = ei_subject j" "sr_CreatedAt r = en_created e"
    by (subst r, simp)+
  show thesis
    by (rule that [OF after _ _ _ _ rp(1,2) change distinct_unmarshal_map [OF before] link found]) (simp_all add: fe rp)
qed

lemma Users_Patch_written:
  assumes "Users_Patch pf env p i ops w s = (Inr (u, ks), s')" "ops \<noteq> []" "quiet w v" "s_tx s = None"
  shows "\<exists>r. user_written (view_ctx w v) p i (\<lambda>b n. Users_ApplyPatch pf b ops = Inr n) (s_db s) r (s_db s')
     \<and> u = Users_FromStored env (user_of_row r) \<and> ks = [(p, sr_ExternalSubject r)] \<and> s_tx s' = None"
proof -
  from assms(1,2) obtain r where tx: "in_tx (Users_patch_body pf p i ops) w s = (Inr r, s')"
    and out: "u = Users_FromStored env (user_of_row r)" "ks = [(p, sr_ExternalSubject r)]"
    by (auto simp: Users_Patch_def bind_Inr)
  from tx assms(4) users_keep_snapshot(4) obtain s1 t s2 where s1: "s_db s1 = s_db s" "s_tx s1 = Some t"
    "tx_setting t = w_unset w (s_n s)" and body: "Users_patch_body pf p i ops w s1 = (Inr r, s2)"
    and s2: "s_db s' = s_db s2" "s_tx s' = None"
    by (rule in_tx_Inr)
  from body obtain before s3 n where get: "store_Get user_kind p i w s1 = (Inr before, s3)"
    and n: "Users_ApplyPatch pf (sr_Properties before) ops = Inr n"
    and wr: "Users_write_body p i before n w s3 = (Inr r, s2)"
    by (auto simp: Users_patch_body_def bind_Inr split: if_splits)
  have v: "tx_setting t = v" using s1(3) assms(3) by (simp add: quiet_def)
  from user_write_written [where change = "\<lambda>b n. Users_ApplyPatch pf b ops = Inr n", OF get n wr assms(3) s1(2) v] out s1(1) s2
  show ?thesis by auto
qed

lemma Users_Replace_written:
  assumes "Users_Replace env p i u0 w s = (Inr (u, ks), s')" "quiet w v" "s_tx s = None"
  shows "\<exists>r. user_written (view_ctx w v) p i (\<lambda>b n. n = Users_ToProperties u0) (s_db s) r (s_db s')
     \<and> u = Users_FromStored env (user_of_row r) \<and> ks = [(p, sr_ExternalSubject r)] \<and> s_tx s' = None"
proof -
  from assms(1) obtain r where tx: "in_tx (Users_replace_body p i u0) w s = (Inr r, s')"
    and out: "u = Users_FromStored env (user_of_row r)" "ks = [(p, sr_ExternalSubject r)]"
    by (auto simp: Users_Replace_def bind_Inr split: if_splits)
  from tx assms(3) users_keep_snapshot(3) obtain s1 t s2 where s1: "s_db s1 = s_db s" "s_tx s1 = Some t"
    "tx_setting t = w_unset w (s_n s)" and body: "Users_replace_body p i u0 w s1 = (Inr r, s2)"
    and s2: "s_db s' = s_db s2" "s_tx s' = None"
    by (rule in_tx_Inr)
  from body obtain before s3 where get: "store_Get user_kind p i w s1 = (Inr before, s3)"
    and wr: "Users_write_body p i before (Users_ToProperties u0) w s3 = (Inr r, s2)"
    by (auto simp: Users_replace_body_def bind_Inr)
  have v: "tx_setting t = v" using s1(3) assms(2) by (simp add: quiet_def)
  from user_write_written [where change = "\<lambda>b n. n = Users_ToProperties u0", OF get refl wr assms(2) s1(2) v] out s1(1) s2
  show ?thesis by auto
qed

lemma FromStored_decode:
  assumes "distinct (map fst n)"
  shows "Users_FromStored env (user_of_row (r\<lparr>sr_Properties := Some (decode_members n)\<rparr>))
     = Users_FromStored env (user_of_row (r\<lparr>sr_Properties := Some n\<rparr>))"
  using decode_members_distinct_map_of [OF assms]
  by (simp add: Users_FromStored_def user_of_row_def map_entries_def props_get_def Let_def)

lemma active_flag_props:
  assumes "en_properties e = JObj n" "distinct (map fst n)" "props_get n ''active'' = Some (JBool b)"
  shows "active_flag q e = Inr b"
  using assms map_of_rev_distinct [OF assms(2)]
  by (cases b) (simp_all add: active_flag_def jsonb_text_def jsonb_get_def props_get_def pg_bool_texts)

lemma drop_keys_miss: "fst (cache_lookup t (cache_key p s) (drop_keys [(p, s)] c)) = None"
  by (simp add: drop_keys_def Invalidate_def Invalidate_key_def cache_lookup_def remove_item_def split: option.splits)

lemma cache_miss_error:
  assumes "fst (cache_lookup now1 (cache_key p s) (as_cache st)) = None" "fst (resolver p s x) = Inl e"
  shows "fst (cache_Resolve resolver now1 now2 p s st x) = Inl e"
  using assms by (auto simp: cache_Resolve_def Let_def split: prod.splits option.splits)

lemma user_read_back:
  assumes "quiet w v" "s_tx s' = None" "tenant_row (view_ctx w v) ''User'' p i (s_db s') = Some (e, j)"
    and "en_properties e = JObj n" "distinct (map fst n)"
    and "en_created e = sr_CreatedAt r" "en_updated e = sr_UpdatedAt r" "ei_subject j = sr_ExternalSubject r"
      "sr_EntityID r = i" "sr_Properties r = Some n"
  shows "fst (Users_GetByEntityID env p i w s') = Inr (Users_FromStored env (user_of_row r))"
proof -
  have "row_of (e, j) (Some (decode_members n)) = r\<lparr>sr_Properties := Some (decode_members n)\<rparr>"
    using assms(6-) tenant_row_Some(4) [OF assms(3)] by (simp add: row_of_def)
  then have "decode_row user_kind (e, j) = Inr (r\<lparr>sr_Properties := Some (decode_members n)\<rparr>)"
    by (simp add: decode_row_Inr assms(4))
  then have "fst (Users_GetByEntityID env p i w s')
     = Inr (Users_FromStored env (user_of_row (r\<lparr>sr_Properties := Some (decode_members n)\<rparr>)))"
    using assms(3) by (simp add: Users_GetByEntityID_def bind_def store_Get_quiet [OF assms(1,2)] ret_def user_kind_def)
  also have "\<dots> = Inr (Users_FromStored env (user_of_row r))"
    unfolding FromStored_decode [OF assms(5)]
    using assms(10) by (metis stored_row.surjective stored_row.update_convs(2))
  finally show ?thesis .
qed

lemma user_written_effect:
  assumes wr: "user_written (view_ctx w v) p i change (s_db s) r (s_db s')" and ok: "db_ok (s_db s)"
    and quiet: "quiet w v" "s_tx s' = None"
    and dist: "\<And>b n. distinct (map fst (map_entries b)) \<Longrightarrow> change b n \<Longrightarrow> distinct (map fst n)"
    and u: "u = Users_FromStored env (user_of_row r)"
  shows "fst (Users_GetByEntityID env p i w s') = Inr u"
    and "us_Active u = Some False \<Longrightarrow>
      fst (resolver_Resolve pgx_resolver p (sr_ExternalSubject r) w s') = Inl (AuthE ErrDisabled)"
proof -
  from wr ok obtain e j n b where row: "tenant_row (view_ctx w v) ''User'' p i (s_db s') = Some (e, j)" "en_properties e = JObj n"
    "en_created e = sr_CreatedAt r" "en_updated e = sr_UpdatedAt r" "ei_subject j = sr_ExternalSubject r"
    and r: "sr_EntityID r = i" "sr_Properties r = Some n" and change: "change b n" "distinct (map fst (map_entries b))"
    and link: "linked (s_db s') p (sr_ExternalSubject r) = Some i"
    and found: "find (\<lambda>x. en_id x = i) (entities (view_ctx w v) (s_db s')) = Some e"
    by (rule user_written_read)
  have n: "distinct (map fst n)" using dist change by blast
  show "fst (Users_GetByEntityID env p i w s') = Inr u"
    unfolding u by (rule user_read_back [OF quiet row(1,2) n row(3-5) r])
  show "fst (resolver_Resolve pgx_resolver p (sr_ExternalSubject r) w s') = Inl (AuthE ErrDisabled)"
    if "us_Active u = Some False"
  proof -
    have "as_bool (props_get n PropertyKeyActive) = Some False"
      using that r(2) by (simp add: u Users_FromStored_def user_of_row_def map_entries_def Let_def)
    then have "props_get n ''active'' = Some (JBool False)"
      by (auto simp: as_bool_def PropertyKeyActive_def split: option.splits json.splits)
    from active_flag_props [OF row(2) n this] found
    have "active_state (view_ctx w v) (s_db s') i = Some (Inr False)" by (simp add: active_state_def)
    with resolution_correct [OF quiet, of p "sr_ExternalSubject r"] link show ?thesis
      by (simp add: resolution_spec_def)
  qed
qed

subsection \<open>Properties\<close>

text \<open>
  A PUT or PATCH takes effect at once: what the provider reads next is exactly the user the call
  returned, and if that user is inactive, authentication of its subject fails with "disabled" from the
  next request on, even when the identity was cached, because the call invalidated its key.
\<close>

theorem user_write_takes_effect:
  assumes "quiet w v" "s_tx s = None" "db_ok (s_db s)"
    and "(\<exists>ops. ops \<noteq> [] \<and> Users_Patch pf env p i ops w s = (Inr (u, ks), s'))
       \<or> (\<exists>u0. Users_Replace env p i u0 w s = (Inr (u, ks), s'))"
  shows "fst (Users_GetByEntityID env p i w s') = Inr u
     \<and> (us_Active u = Some False \<longrightarrow>
          fst (cache_Resolve (\<lambda>p s x. resolver_Resolve pgx_resolver p s w x) now later p (us_ExternalID u)
             (st\<lparr>as_cache := drop_keys ks (as_cache st)\<rparr>) s') = Inl (AuthE ErrDisabled))"
proof -
  from assms(4) obtain r change where wr: "user_written (view_ctx w v) p i change (s_db s) r (s_db s')"
    and out: "u = Users_FromStored env (user_of_row r)" "ks = [(p, sr_ExternalSubject r)]" "s_tx s' = None"
    and dist: "\<And>b n. distinct (map fst (map_entries b)) \<Longrightarrow> change b n \<Longrightarrow> distinct (map fst n)"
  proof (elim disjE exE conjE)
    fix ops
    assume a: "ops \<noteq> []" "Users_Patch pf env p i ops w s = (Inr (u, ks), s')"
    from Users_Patch_written [OF a(2,1) assms(1,2)] that [of "\<lambda>b n. Users_ApplyPatch pf b ops = Inr n"]
    show thesis by (blast intro: Users_ApplyPatch_distinct)
  next
    fix u0
    assume a: "Users_Replace env p i u0 w s = (Inr (u, ks), s')"
    from Users_Replace_written [OF a assms(1,2)] that [of "\<lambda>b n. n = Users_ToProperties u0"]
    show thesis using Users_ToProperties_distinct by blast
  qed
  note eff = user_written_effect [OF wr assms(3,1) out(3) dist out(1)]
  have "us_ExternalID u = sr_ExternalSubject r"
    by (simp add: out(1) Users_FromStored_def user_of_row_def Let_def)
  with eff show ?thesis
    by (auto simp: out(2) intro!: cache_miss_error drop_keys_miss)
qed

text \<open>The request that deactivates the user of the sample installation.\<close>

definition deactivate :: "patch_op list" where
  "deactivate = [\<lparr>op_Op = ''Replace'', op_Path = ''active'', op_Value = Some (JBool False)\<rparr>]"

lemma deactivate_patch:
  "Users_ApplyPatch pf (Some [(''active'', JBool True), (''userName'', JStr ''ann'')]) deactivate
     = Inr [(''active'', JBool False), (''userName'', JStr ''ann'')]"
proof -
  have low: "ToLower ''Replace'' = ''replace''" "ToLower ''active'' = ''active''" by code_simp+
  show ?thesis
    by (simp add: deactivate_def Users_ApplyPatch_def Users_applyOne_def patch_one_def ParsePath_word ident_word_def
        isIdentChar_def low Users_applyReplace_def patch_value.simps users_replace_leaf_def setBoolProp_def
        map_entries_def user_keys props_set_def)
qed

lemma sample_ok: "db_ok sample_db"
  by (simp add: db_ok_def entity_ids_def relation_key_def sample_defs)

lemma deactivate_run:
  "\<exists>u s'. Users_Patch pf env ''kc'' 10 deactivate sample_world sample_sess = (Inr (u, [(''kc'', ''u1'')]), s')
     \<and> us_Active u = Some False \<and> us_ExternalID u = ''u1''"
proof -
  have ne: "deactivate \<noteq> []" by (simp add: deactivate_def)
  have dec: "unmarshal_map (Some (JObj [(''userName'', JStr ''ann''), (''active'', JBool True)]))
     = Inr (Some [(''active'', JBool True), (''userName'', JStr ''ann'')])"
    by (simp add: decode_members_def)
  show ?thesis
    using ne
    by (simp add: Users_Patch_def Users_patch_body_def Users_write_body_def in_tx_def tx_do_def with_tx_def begin_tx_def
        commit_tx_def rollback_def wrap_err_def not_found_again_def store_Get_def store_Update_def query_row_def
        scan_row_def query_def exec_def audit_Write_def insert_audit_def update_entities_def bind_def catch_def ret_def throw_def
        lift_res_def Let_def linked_entities_def entities_def visible_def has_type_def find_type_def user_kind_def
        decode_row_def unmarshal_props_def row_of_def sample_defs dec deactivate_patch
        Users_FromStored_def user_of_row_def scim_audit_def OpUpdate_def map_entries_def user_keys go_simps
        del: unmarshal_map.simps)
qed

definition sample_render :: render_env where
  "sample_render = \<lparr>re_uuid = (\<lambda>_. ''id''), re_sha256 = (\<lambda>s. s), re_time = (\<lambda>_. []), re_url = (\<lambda>_. None)\<rparr>"

theorem user_write_takes_effect_witness:
  "\<exists>u s'. Users_Patch (\<lambda>_. None :: nat option) sample_render ''kc'' 10 deactivate sample_world sample_sess
         = (Inr (u, [(''kc'', ''u1'')]), s')
     \<and> fst (Users_GetByEntityID sample_render ''kc'' 10 sample_world s') = Inr u
     \<and> fst (cache_Resolve (\<lambda>p s x. resolver_Resolve pgx_resolver p s sample_world x) 5 6 ''kc'' ''u1''
          \<lparr>as_cache = drop_keys [(''kc'', ''u1'')] (cache_store 4 ''kc:u1'' 0 (NewIdentityCache 10 90)), as_heap = []\<rparr> s')
        = Inl (AuthE ErrDisabled)"
proof -
  from deactivate_run [of "\<lambda>_. None :: nat option" sample_render] obtain u s' where
    run: "Users_Patch (\<lambda>_. None :: nat option) sample_render ''kc'' 10 deactivate sample_world sample_sess
         = (Inr (u, [(''kc'', ''u1'')]), s')" and u: "us_Active u = Some False" "us_ExternalID u = ''u1''" by blast
  let ?st = "\<lparr>as_cache = cache_store 4 ''kc:u1'' 0 (NewIdentityCache 10 90), as_heap = []\<rparr> :: auth_state"
  have "deactivate \<noteq> []" by (simp add: deactivate_def)
  with user_write_takes_effect [where pf = "\<lambda>_. None :: nat option" and env = sample_render and p = "''kc''" and i = 10
      and u = u and ks = "[(''kc'', ''u1'')]" and s' = s' and now = 5 and later = 6 and st = ?st,
      OF sample_quiet(1,2)] run sample_ok
  have "fst (Users_GetByEntityID sample_render ''kc'' 10 sample_world s') = Inr u
     \<and> (us_Active u = Some False \<longrightarrow>
          fst (cache_Resolve (\<lambda>p s x. resolver_Resolve pgx_resolver p s sample_world x) 5 6 ''kc'' (us_ExternalID u)
             (?st\<lparr>as_cache := drop_keys [(''kc'', ''u1'')] (as_cache ?st)\<rparr>) s') = Inl (AuthE ErrDisabled))"
    unfolding sample_quiet(3) by blast
  with run u show ?thesis by auto
qed

text \<open>
  Provisioning grants nothing: a user created through SCIM can be read back as returned, and
  authenticating as the new subject gives an identity without groups, systems or administrator
  flags, or the error "disabled" if it was created inactive.
\<close>

theorem user_create_grants_nothing:
  assumes "quiet w v" "s_tx s = None" "db_ok (s_db s)" "Users_Create env p u w s = (Inr (u', ks), s')"
  shows "\<exists>i. us_ID u' = re_uuid env i \<and> fst (Users_GetByEntityID env p i w s') = Inr u'
     \<and> (case fst (resolver_Resolve pgx_resolver p (us_ExternalID u) w s') of
          Inr idn \<Rightarrow> us_Active u \<noteq> Some False \<and> id_EntityID idn = i \<and> id_Groups idn = [] \<and> id_AllowedSystems idn = []
                     \<and> \<not> id_IsPlatformAdmin idn \<and> \<not> id_IsSystemAdmin idn
        | Inl e \<Rightarrow> us_Active u = Some False \<and> e = AuthE ErrDisabled)"
proof -
  let ?q = "view_ctx w v" and ?props = "Users_ToProperties u"
  from assms(4) obtain r where tx: "in_tx (Users_create_body p u) w s = (Inr r, s')"
    and u': "u' = Users_FromStored env (user_of_row r)"
    by (auto simp: Users_Create_def bind_Inr split: if_splits)
  from tx assms(2) users_keep_snapshot(1) obtain s1 t s2 where s1: "s_db s1 = s_db s" "s_tx s1 = Some t"
    and body: "Users_create_body p u w s1 = (Inr r, s2)" and s': "s_db s' = s_db s2" "s_tx s' = None"
    by (rule in_tx_Inr)
  from body obtain s3 x where cr: "store_Create user_kind p (us_ExternalID u) ?props w s1 = (Inr r, s3)"
    and au: "audit_Write (scim_audit user_kind p OpCreate (sr_EntityID r) None (Some (marshal_props ?props))) w s3 = (Inr x, s2)"
    by (auto simp: Users_create_body_def bind_Inr Let_def)
  from audit_Write_row [OF au] obtain row where d2: "s_db s2 = (s_db s3)\<lparr>db_audit := db_audit (s_db s3) @ [row]\<rparr>" by auto
  from cr obtain ty e i where ty: "find_type (s_db s1) (rk_type user_kind) = Some ty"
    and d3: "s_db s3 = (s_db s1)\<lparr>db_entities := db_entities (s_db s1) @ [e], db_identities := db_identities (s_db s1) @ [i]\<rparr>"
    and e: "en_id e = sr_EntityID r" "en_type_id e = ty_id ty" "en_properties e = JObj ?props" "en_system_id e = None"
      "en_created e = sr_CreatedAt r" "en_updated e = sr_UpdatedAt r"
    and i: "ei_entity_id i = sr_EntityID r" "ei_provider i = p" "ei_subject i = us_ExternalID u"
    and r: "sr_Properties r = Some ?props" "sr_ExternalSubject r = us_ExternalID u"
    and fresh: "en_id e \<notin> entity_ids (s_db s1)"
    by (rule store_Create_Inr) blast
  have ok': "db_ok (s_db s')"
  proof -
    have "keeps_ok (s_db s1) (s_db s2)"
      using preservingD(1) [where R = keeps_ok, OF keeps_ok_store(1) cr] preservingD(1) [where R = keeps_ok, OF keeps_ok_audit au]
      by (auto simp: keeps_ok_def)
    with assms(3) show ?thesis by (simp add: keeps_ok_def s1 s')
  qed
  have d': "s_db s' = (s_db s)\<lparr>db_entities := db_entities (s_db s) @ [e], db_identities := db_identities (s_db s) @ [i],
      db_audit := db_audit (s_db s) @ [row]\<rparr>"
    by (simp add: s' d2 d3 s1)
  have mem: "e \<in> set (db_entities (s_db s'))" "visible ?q (en_system_id e)" "i \<in> set (db_identities (s_db s'))"
    by (simp_all add: d' visible_def e)
  have ht: "has_type (s_db s') ''User'' e"
    using ty e by (auto simp: has_type_def find_type_def list_ex_iff d' s1 user_kind_def dest!: find_SomeD)
  have none: "ei_entity_id j \<noteq> en_id e" if "j \<in> set (db_identities (s_db s))" for j
    using that fresh assms(3) by (auto simp: db_ok_def s1)
  have fresh': "en_id x \<noteq> en_id e" if "x \<in> set (db_entities (s_db s))" for x
    using fresh that by (metis entity_ids_def imageI s1(1))
  have row': "tenant_row ?q ''User'' p (en_id e) (s_db s') = Some (e, i)"
  proof -
    have "linked_entities ?q ''User'' p (s_db s') = [(x, j). x \<leftarrow> filter (has_type (s_db s') ''User'') (entities ?q (s_db s)),
            j \<leftarrow> filter (\<lambda>j. ei_entity_id j = en_id x \<and> ei_provider j = p) (db_identities (s_db s'))] @ [(e, i)]"
      using ht none e i mem(2) by (simp add: linked_entities_def entities_def d' filter_empty_conv)
    moreover have "find (\<lambda>(x, _). en_id x = en_id e) [(x, j). x \<leftarrow> filter (has_type (s_db s') ''User'') (entities ?q (s_db s)),
            j \<leftarrow> filter (\<lambda>j. ei_entity_id j = en_id x \<and> ei_provider j = p) (db_identities (s_db s'))] = None"
      using fresh' by (auto simp: find_None_iff entities_def)
    ultimately show ?thesis by (simp add: tenant_row_def find_append_None)
  qed
  have get: "fst (Users_GetByEntityID env p (sr_EntityID r) w s') = Inr u'"
    unfolding u' using row' e(1)
    by (intro user_read_back [where j = i, OF assms(1) s'(2) _ e(3) Users_ToProperties_distinct e(5,6) _ refl r(1)])
      (simp_all only: i(3) r(2))
  have link: "linked (s_db s') p (us_ExternalID u) = Some (en_id e)"
    using linked_unique [OF ok' mem(3)] i e by simp
  have "props_get ?props ''active'' = Some (JBool (derefBoolDefault (us_Active u) True))"
    using Users_ToProperties_get(2) [of u] by (simp add: PropertyKeyActive_def)
  from active_flag_props [OF e(3) Users_ToProperties_distinct this] entities_find_unique [OF ok' mem(1,2)]
  have active: "active_state ?q (s_db s') (en_id e) = Some (Inr (derefBoolDefault (us_Active u) True))"
    by (simp add: active_state_def)
  have rel: "rl_subject x \<noteq> en_id e" if "x \<in> set (relations ?q (s_db s'))" for x
    using that assms(3) fresh by (auto simp: relations_def d' db_ok_def s1)
  have mg: "member_groups ?q (s_db s') (en_id e) = {}" using rel by (auto simp: member_groups_def)
  then have sys: "accessible_systems ?q (s_db s') (en_id e) = {}" using rel by (auto simp: accessible_systems_def)
  show ?thesis
  proof (intro exI [of _ "sr_EntityID r"] conjI)
    show "us_ID u' = re_uuid env (sr_EntityID r)" by (simp add: u' Users_FromStored_def user_of_row_def Let_def)
    show "fst (Users_GetByEntityID env p (sr_EntityID r) w s') = Inr u'" by (rule get)
    show "case fst (resolver_Resolve pgx_resolver p (us_ExternalID u) w s') of
          Inr idn \<Rightarrow> us_Active u \<noteq> Some False \<and> id_EntityID idn = sr_EntityID r \<and> id_Groups idn = [] \<and> id_AllowedSystems idn = []
                     \<and> \<not> id_IsPlatformAdmin idn \<and> \<not> id_IsSystemAdmin idn
        | Inl e \<Rightarrow> us_Active u = Some False \<and> e = AuthE ErrDisabled"
      using resolution_correct [OF assms(1) s'(2), of p "us_ExternalID u"]
      by (cases "us_Active u = Some False") (auto simp: resolution_spec_def link [unfolded e(1)] active [unfolded e(1)]
          mg [unfolded e(1)] sys [unfolded e(1)] derefBoolDefault_def split: option.splits bool.splits)
  qed
qed

definition bob :: scim_user where
  "bob = \<lparr>us_Schemas = [], us_ID = [], us_ExternalID = ''u2'', us_UserName = ''bob'', us_DisplayName = [], us_Name = None,
     us_Emails = [], us_Active = None, us_Meta = None\<rparr>"

lemma bob_run:
  "\<exists>u' s'. Users_Create sample_render ''kc'' bob sample_world sample_sess = (Inr (u', []), s')"
  by (simp add: bob_def Users_Create_def Users_create_body_def in_tx_def tx_do_def with_tx_def begin_tx_def commit_tx_def
      rollback_def wrap_err_def store_Create_def scan_row_def exec_def audit_Write_def insert_audit_def
      insert_entity_of_type_def insert_entity_def insert_identity_def bind_def catch_def ret_def throw_def Let_def
      visible_def find_type_def user_kind_def sample_defs scim_audit_def OpCreate_def makeEntityExternalID_def
      system_check_def)

theorem user_create_grants_nothing_witness:
  "\<exists>u' s' idn. Users_Create sample_render ''kc'' bob sample_world sample_sess = (Inr (u', []), s')
     \<and> fst (resolver_Resolve pgx_resolver ''kc'' ''u2'' sample_world s') = Inr idn \<and> id_Groups idn = []"
proof -
  from bob_run obtain u' s' where run: "Users_Create sample_render ''kc'' bob sample_world sample_sess = (Inr (u', []), s')"
    by blast
  have ok: "db_ok (s_db sample_sess)" by (simp add: sample_quiet(3) sample_ok)
  from user_create_grants_nothing [OF sample_quiet(1,2) ok run] obtain idn where
    "fst (resolver_Resolve pgx_resolver ''kc'' ''u2'' sample_world s') = Inr idn" "id_Groups idn = []"
    by (cases "fst (resolver_Resolve pgx_resolver ''kc'' ''u2'' sample_world s')") (auto simp: bob_def)
  with run show ?thesis by blast
qed

text \<open>
  C15. A deleted user is gone for the provider and for authentication: reading it gives "not found",
  its subject resolves to "not provisioned", and the cached identity of the subject is dropped.
\<close>

theorem user_delete_revokes:
  assumes "quiet w v" "s_tx s = None" "db_ok (s_db s)" "Users_Delete p i w s = (Inr (x, ks), s')"
  shows "fst (Users_GetByEntityID env p i w s') = Inl (UsersE Users_ErrNotFound)
     \<and> (\<exists>sub. ks = [(p, sub)] \<and> linked (s_db s) p sub = Some i \<and>
          fst (cache_Resolve (\<lambda>p s x. resolver_Resolve pgx_resolver p s w x) now later p sub
             (st\<lparr>as_cache := drop_keys ks (as_cache st)\<rparr>) s') = Inl (AuthE ErrNotProvisioned))"
proof -
  let ?q = "view_ctx w v"
  from assms(4) obtain r where tx: "in_tx (Users_delete_body p i) w s = (Inr r, s')" and ks: "ks = [(p, sr_ExternalSubject r)]"
    by (auto simp: Users_Delete_def bind_Inr)
  from tx assms(2) users_keep_snapshot(5) obtain s1 t s2 where s1: "s_db s1 = s_db s" "s_tx s1 = Some t"
    and body: "Users_delete_body p i w s1 = (Inr r, s2)" and s': "s_db s' = s_db s2" "s_tx s' = None"
    by (rule in_tx_Inr)
  from body obtain s3 s4 y z where get: "store_Get user_kind p i w s1 = (Inr r, s3)"
    and del: "store_Delete user_kind p i w s3 = (Inr y, s4)"
    and au: "audit_Write (scim_audit user_kind p OpDelete i (Some (marshal_map (sr_Properties r))) None) w s4 = (Inr z, s2)"
    by (auto simp: Users_delete_body_def bind_Inr)
  from get obtain q e j where row: "tenant_row q (rk_type user_kind) p i (s_db s1) = Some (e, j)"
    and dec: "decode_row user_kind (e, j) = Inr r" and s3: "s_db s3 = s_db s1"
    by (rule store_Get_Inr)
  note ej = tenant_row_Some [OF row]
  have sub: "sr_ExternalSubject r = ei_subject j" using dec by (auto simp: decode_row_Inr row_of_def)
  from del obtain ids where ids: "s_db s4 = cascade_delete ids ((s_db s3)\<lparr>db_identities :=
      filter (\<lambda>r. \<not> (ei_entity_id r = i \<and> ei_provider r = p)) (db_identities (s_db s3))\<rparr>)"
    by (rule store_Delete_Inr) (simp only: Let_def)
  from audit_Write_row [OF au] obtain row where d2: "s_db s2 = (s_db s4)\<lparr>db_audit := db_audit (s_db s4) @ [row]\<rparr>"
    by (auto simp: op_neq)
  have gone: "\<not> (ei_entity_id k = i \<and> ei_provider k = p)" and old: "k \<in> set (db_identities (s_db s))"
    if "k \<in> set (db_identities (s_db s'))" for k
    using that by (auto simp: s' d2 ids cascade_delete_def s3 s1)
  have link: "linked (s_db s) p (sr_ExternalSubject r) = Some i"
    using linked_unique [OF assms(3)] ej s1(1) sub by auto
  have "linked (s_db s') p (sr_ExternalSubject r) = None"
  proof (rule ccontr)
    assume "linked (s_db s') p (sr_ExternalSubject r) \<noteq> None"
    then obtain k where k: "k \<in> set (db_identities (s_db s'))" "ei_provider k = p" "ei_subject k = sr_ExternalSubject r"
      by (auto simp: linked_def find_None_iff)
    from linked_unique [OF assms(3) old [OF k(1)]] k link have "ei_entity_id k = i" by simp
    with gone [OF k(1)] k show False by blast
  qed
  then have "fst (resolver_Resolve pgx_resolver p (sr_ExternalSubject r) w s') = Inl (AuthE ErrNotProvisioned)"
    using resolution_correct [OF assms(1) s'(2), of p "sr_ExternalSubject r"] by (simp add: resolution_spec_def)
  moreover have "tenant_row ?q ''User'' p i (s_db s') = None"
  proof (rule ccontr)
    assume "tenant_row ?q ''User'' p i (s_db s') \<noteq> None"
    then obtain e' k where "tenant_row ?q ''User'' p i (s_db s') = Some (e', k)" by fast
    from tenant_row_Some [OF this] gone show False by blast
  qed
  then have "fst (Users_GetByEntityID env p i w s') = Inl (UsersE Users_ErrNotFound)"
    by (simp add: Users_GetByEntityID_def bind_def store_Get_quiet [OF assms(1) s'(2)] user_kind_def)
  ultimately show ?thesis using link by (auto simp: ks intro!: cache_miss_error drop_keys_miss)
qed

lemma delete_run:
  "\<exists>x s'. Users_Delete ''kc'' 10 sample_world sample_sess = (Inr (x, [(''kc'', ''u1'')]), s')"
proof -
  have dec: "unmarshal_map (Some (JObj [(''userName'', JStr ''ann''), (''active'', JBool True)]))
     = Inr (Some [(''active'', JBool True), (''userName'', JStr ''ann'')])"
    by (simp add: decode_members_def)
  show ?thesis
    by (simp add: Users_Delete_def Users_delete_body_def in_tx_def tx_do_def with_tx_def begin_tx_def
        commit_tx_def rollback_def wrap_err_def store_Get_def store_Delete_def query_row_def
        scan_row_def query_def exec_def audit_Write_def insert_audit_def delete_identities_def delete_entities_def
        cascade_delete_def system_references_def bind_def catch_def ret_def throw_def
        lift_res_def Let_def linked_entities_def entities_def visible_def has_type_def find_type_def user_kind_def
        decode_row_def unmarshal_props_def row_of_def sample_defs dec scim_audit_def OpDelete_def
        del: unmarshal_map.simps)
qed

theorem user_delete_revokes_witness:
  "\<exists>x s'. Users_Delete ''kc'' 10 sample_world sample_sess = (Inr (x, [(''kc'', ''u1'')]), s')
     \<and> fst (Users_GetByEntityID sample_render ''kc'' 10 sample_world s') = Inl (UsersE Users_ErrNotFound)"
proof -
  from delete_run obtain x s' where run: "Users_Delete ''kc'' 10 sample_world sample_sess = (Inr (x, [(''kc'', ''u1'')]), s')"
    by blast
  have ok: "db_ok (s_db sample_sess)" by (simp add: sample_quiet(3) sample_ok)
  from user_delete_revokes [OF sample_quiet(1,2) ok run, of sample_render] run show ?thesis by blast
qed

end
