(* ===== verification/Scim_Groups_Svc.thy ===== *)
theory Scim_Groups_Svc
  imports Scim_Groups Scim_Users_Svc
begin

section \<open>SCIM groups: repository and service (\<open>internal/scim/groups\<close>)\<close>

text \<open>
  A group is stored like a user (\<open>store_Create\<close> and the other operations with \<open>group_kind\<close>); its
  members are the global relations of type \<open>member_of\<close> that point at it. \<open>reconcileMembers\<close> turns
  the stored members into the wanted ones. Every mutation is one transaction with its audit record;
  the service leaves the identity cache alone. A Go map is iterated in the order in which the query
  delivered its keys.
\<close>

subsection \<open>Repository\<close>

text \<open>The check that precedes every change: a failing look-up counts as "not built in".\<close>

definition group_is_builtin :: "uuid \<Rightarrow> bool db" where
  "group_is_builtin i =
     catch (query_row (\<lambda>q d. map en_builtin (filter (\<lambda>e. en_id e = i
              \<and> (case find_type d ''Group'' of None \<Rightarrow> False | Some t \<Rightarrow> en_type_id e = ty_id t)) (entities q d))))
       (\<lambda>_. ret False)"

definition member_relation :: "uuid \<Rightarrow> relation_row \<Rightarrow> bool" where
  "member_relation g r \<longleftrightarrow> rl_target r = g \<and> rl_type r = ''member_of'' \<and> rl_system r = None"

definition fetch_rows :: "query_ctx \<Rightarrow> database \<Rightarrow> uuid \<Rightarrow> (relation_row \<times> entity_row \<times> type_row) list" where
  "fetch_rows q d g = [(r, e, t). r \<leftarrow> filter (member_relation g) (relations q d),
      e \<leftarrow> filter (\<lambda>e. en_id e = rl_subject r) (entities q d), t \<leftarrow> filter (\<lambda>t. ty_id t = en_type_id e) (db_types d)]"

definition fetchMembers :: "uuid \<Rightarrow> member_entity list db" where
  "fetchMembers g =
     wrap_err ''fetch members'' (query (\<lambda>q d.
       map (\<lambda>(r, e, t). \<lparr>mb_EntityID = en_id e, mb_Type = ty_name t,
              mb_Display = (case jsonb_text q (en_properties e) ''displayName'' of None \<Rightarrow> [] | Some s \<Rightarrow> s)\<rparr>)
         (sort_key (\<lambda>(r, e, t). (rl_created r, en_id e)) (fetch_rows q d g))))"

definition group_of_row :: "stored_row \<Rightarrow> member_entity list \<Rightarrow> stored_group" where
  "group_of_row r ms = \<lparr>sg_EntityID = sr_EntityID r, sg_Properties = sr_Properties r,
     sg_ExternalSubject = sr_ExternalSubject r, sg_Members = ms, sg_CreatedAt = sr_CreatedAt r, sg_UpdatedAt = sr_UpdatedAt r\<rparr>"

definition insert_member :: "string \<Rightarrow> uuid \<Rightarrow> uuid \<Rightarrow> unit db" where
  "insert_member c g m = wrap_err c (bind (exec (insert_relation m ''member_of'' g None)) (\<lambda>_. ret ()))"

definition Groups_repo_Create :: "string \<Rightarrow> string \<Rightarrow> props \<Rightarrow> uuid list \<Rightarrow> stored_group db" where
  "Groups_repo_Create provider sub props memberIDs =
     bind (store_Create group_kind provider sub props) (\<lambda>row.
     bind (for_each memberIDs (insert_member ''insert member relation'' (sr_EntityID row))) (\<lambda>_.
     bind (if memberIDs \<noteq> [] then fetchMembers (sr_EntityID row) else ret []) (\<lambda>ms.
     ret (group_of_row row ms))))"

definition Groups_repo_Get :: "string \<Rightarrow> uuid \<Rightarrow> stored_group db" where
  "Groups_repo_Get provider i =
     bind (store_Get group_kind provider i) (\<lambda>row. bind (fetchMembers i) (\<lambda>ms. ret (group_of_row row ms)))"

definition Groups_repo_Delete :: "string \<Rightarrow> uuid \<Rightarrow> unit db" where
  "Groups_repo_Delete provider i =
     bind (group_is_builtin i) (\<lambda>b.
     if b then throw (GroupsE Groups_ErrBuiltinGroup) else store_Delete group_kind provider i)"

definition ValidateMembers :: "string \<Rightarrow> uuid list \<Rightarrow> uuid list db" where
  "ValidateMembers provider ids =
     (if ids = [] then ret []
      else wrap_err ''validate members'' (query (\<lambda>q d.
        remdups (map (\<lambda>(e, _). en_id e) (filter (\<lambda>(e, _). en_id e \<in> set ids)
          (linked_entities q ''User'' provider d @ linked_entities q ''Group'' provider d))))))"

definition Groups_repo_List ::
  "'f pg_where \<Rightarrow> string \<Rightarrow> string \<Rightarrow> 'f Value list \<Rightarrow> int \<Rightarrow> int \<Rightarrow> (stored_group list \<times> nat) db" where
  "Groups_repo_List pg_where provider filterSQL filterArgs offset limit =
     bind (store_List pg_where group_kind provider filterSQL filterArgs offset limit)
       (\<lambda>(rows, total). ret (map (\<lambda>r. group_of_row r []) rows, total))"

definition reconcileMembers :: "uuid \<Rightarrow> uuid list \<Rightarrow> unit db" where
  "reconcileMembers g wanted =
     bind (wrap_err ''read existing members'' (query (\<lambda>q d. map rl_subject (filter (member_relation g) (relations q d))))) (\<lambda>rows.
     let current = remdups rows in
     bind (for_each (filter (\<lambda>m. m \<notin> set wanted) current)
       (\<lambda>m. wrap_err ''delete obsolete member relation''
              (bind (exec (delete_relations (\<lambda>r. rl_subject r = m \<and> member_relation g r))) (\<lambda>_. ret ())))) (\<lambda>_.
     for_each (filter (\<lambda>m. m \<notin> set current) wanted) (insert_member ''insert new member relation'' g)))"

definition group_metadata :: "string \<Rightarrow> uuid \<Rightarrow> (gotime \<times> string) db" where
  "group_metadata provider i =
     wrap_err ''read group metadata after replace'' (query_row (\<lambda>q d.
       [(en_created e, ei_subject j). e \<leftarrow> filter (\<lambda>e. en_id e = i) (entities q d),
          j \<leftarrow> filter (\<lambda>j. ei_entity_id j = en_id e \<and> ei_provider j = provider) (db_identities d)]))"

definition Groups_repo_Replace :: "string \<Rightarrow> uuid \<Rightarrow> props \<Rightarrow> uuid list \<Rightarrow> stored_group db" where
  "Groups_repo_Replace provider i props newMemberIDs =
     bind (group_is_builtin i) (\<lambda>b.
     if b then throw (GroupsE Groups_ErrBuiltinGroup)
     else
       bind (store_Update group_kind provider i (marshal_props props)) (\<lambda>updatedAt.
       bind (group_metadata provider i) (\<lambda>(createdAt, sub).
       bind (reconcileMembers i newMemberIDs) (\<lambda>_.
       bind (fetchMembers i) (\<lambda>ms.
       ret \<lparr>sg_EntityID = i, sg_Properties = Some props, sg_ExternalSubject = sub, sg_Members = ms,
            sg_CreatedAt = createdAt, sg_UpdatedAt = updatedAt\<rparr>)))))"

subsection \<open>Service\<close>

fun parse_member_loop :: "(string \<Rightarrow> uuid option) \<Rightarrow> uuid list \<Rightarrow> group_member list \<Rightarrow> goerr + uuid list" where
  "parse_member_loop up ids [] = Inr ids"
| "parse_member_loop up ids (m # ms) =
     (case up (gm_Value m) of
        None \<Rightarrow> Inl (Detailed (GroupsE Groups_ErrInvalidMember) (Text ''member value is not a UUID''))
      | Some i \<Rightarrow>
          if i \<in> set ids then Inl (Detailed (GroupsE Groups_ErrInvalidMember) (Text ''duplicate member''))
          else parse_member_loop up (ids @ [i]) ms)"

definition parseMemberIDs :: "(string \<Rightarrow> uuid option) \<Rightarrow> group_member list \<Rightarrow> goerr + uuid list" where
  "parseMemberIDs up ms = parse_member_loop up [] ms"

definition memberEntityIDs :: "member_entity list \<Rightarrow> uuid list" where
  "memberEntityIDs ms = map mb_EntityID ms"

text \<open>The block that precedes a write of members: every reference must be in the provider's tenant.\<close>

definition check_members :: "string \<Rightarrow> uuid list \<Rightarrow> unit db" where
  "check_members provider ids =
     (if ids = [] then ret ()
      else bind (ValidateMembers provider ids) (\<lambda>resolved.
        if length resolved \<noteq> length ids
        then throw (Detailed (GroupsE Groups_ErrInvalidMember)
                (Text ''one or more member references not found in provider tenant''))
        else ret ()))"

definition Groups_create_body :: "string \<Rightarrow> scim_group \<Rightarrow> uuid list \<Rightarrow> stored_group db" where
  "Groups_create_body provider g memberIDs =
     (let props = Groups_ToProperties g in
      bind (check_members provider memberIDs) (\<lambda>_.
      bind (Groups_repo_Create provider (gr_ExternalID g) props memberIDs) (\<lambda>stored.
      bind (audit_Write (scim_audit group_kind provider OpCreate (sg_EntityID stored) None (Some (marshal_props props))))
        (\<lambda>_. ret stored))))"

definition Groups_Create :: "(string \<Rightarrow> uuid option) \<Rightarrow> render_env \<Rightarrow> string \<Rightarrow> scim_group \<Rightarrow> scim_group db" where
  "Groups_Create up env provider g =
     (if gr_DisplayName g = [] then throw (GroupsE Groups_ErrDisplayNameRequired)
      else if gr_ExternalID g = [] then throw (GroupsE Groups_ErrExternalIDRequired)
      else bind (lift_res (parseMemberIDs up (gr_Members g))) (\<lambda>memberIDs.
           bind (in_tx (Groups_create_body provider g memberIDs)) (\<lambda>s. ret (Groups_FromStored env s))))"

definition Groups_GetByEntityID :: "render_env \<Rightarrow> string \<Rightarrow> uuid \<Rightarrow> scim_group db" where
  "Groups_GetByEntityID env provider i = bind (Groups_repo_Get provider i) (\<lambda>s. ret (Groups_FromStored env s))"

definition Groups_delete_body :: "string \<Rightarrow> uuid \<Rightarrow> unit db" where
  "Groups_delete_body provider i =
     bind (Groups_repo_Get provider i) (\<lambda>before.
     bind (Groups_repo_Delete provider i) (\<lambda>_.
     bind (audit_Write (scim_audit group_kind provider OpDelete i (Some (marshal_map (sg_Properties before))) None))
       (\<lambda>_. ret ())))"

definition Groups_Delete :: "string \<Rightarrow> uuid \<Rightarrow> unit db" where
  "Groups_Delete provider i = in_tx (Groups_delete_body provider i)"

definition Groups_List ::
  "'f pg_where \<Rightarrow> (string \<Rightarrow> 'f option) \<Rightarrow> render_env \<Rightarrow> string \<Rightarrow> string \<Rightarrow> int \<Rightarrow> int \<Rightarrow> (scim_group list \<times> nat) db" where
  "Groups_List pg_where pf env provider filterStr offset limit =
     bind (lift_res (list_filter pf Groups_FilterToSQL (GroupsE Groups_ErrInvalidFilter) filterStr)) (\<lambda>(sql, args).
     bind (Groups_repo_List pg_where provider sql args offset limit) (\<lambda>(stored, total).
     ret (map (Groups_FromStored env) stored, total)))"

text \<open>The part \<open>Replace\<close> and \<open>Patch\<close> share, after the group has been read.\<close>

definition Groups_write_body :: "string \<Rightarrow> uuid \<Rightarrow> stored_group \<Rightarrow> props \<Rightarrow> uuid list \<Rightarrow> stored_group db" where
  "Groups_write_body provider i before newProps memberIDs =
     bind (check_members provider memberIDs) (\<lambda>_.
     bind (not_found_again (GroupsE Groups_ErrNotFound) (Groups_repo_Replace provider i newProps memberIDs)) (\<lambda>stored.
     bind (audit_Write (scim_audit group_kind provider OpUpdate i (Some (marshal_map (sg_Properties before)))
             (Some (marshal_props newProps)))) (\<lambda>_.
     ret stored)))"

definition Groups_replace_body :: "string \<Rightarrow> uuid \<Rightarrow> scim_group \<Rightarrow> uuid list \<Rightarrow> stored_group db" where
  "Groups_replace_body provider i g memberIDs =
     bind (Groups_repo_Get provider i) (\<lambda>before.
     Groups_write_body provider i before (Groups_ToProperties g) memberIDs)"

definition Groups_Replace ::
  "(string \<Rightarrow> uuid option) \<Rightarrow> render_env \<Rightarrow> string \<Rightarrow> uuid \<Rightarrow> scim_group \<Rightarrow> scim_group db" where
  "Groups_Replace up env provider i g =
     (if gr_DisplayName g = [] then throw (GroupsE Groups_ErrDisplayNameRequired)
      else bind (lift_res (parseMemberIDs up (gr_Members g))) (\<lambda>memberIDs.
           bind (in_tx (Groups_replace_body provider i g memberIDs)) (\<lambda>s. ret (Groups_FromStored env s))))"

definition Groups_patch_body ::
  "(string \<Rightarrow> 'f option) \<Rightarrow> (string \<Rightarrow> uuid option) \<Rightarrow> string \<Rightarrow> uuid \<Rightarrow> patch_op list \<Rightarrow> stored_group db" where
  "Groups_patch_body pf up provider i ops =
     bind (Groups_repo_Get provider i) (\<lambda>before.
     bind (lift_res (Groups_ApplyPatch pf up (sg_Properties before) (memberEntityIDs (sg_Members before)) ops)) (\<lambda>next.
     if asString (props_get (ps_Properties next) PropertyKeyDisplayName) = []
     then throw (GroupsE Groups_ErrDisplayNameRequired)
     else Groups_write_body provider i before (ps_Properties next) (ps_MemberIDs next)))"

definition Groups_Patch ::
  "(string \<Rightarrow> 'f option) \<Rightarrow> (string \<Rightarrow> uuid option) \<Rightarrow> render_env \<Rightarrow> string \<Rightarrow> uuid \<Rightarrow> patch_op list \<Rightarrow> scim_group db" where
  "Groups_Patch pf up env provider i ops =
     (if ops = [] then Groups_GetByEntityID env provider i
      else bind (in_tx (Groups_patch_body pf up provider i ops)) (\<lambda>s. ret (Groups_FromStored env s)))"

subsection \<open>What the relation statements leave alone\<close>

lemma visible_global [simp]: "visible q None"
  by (simp add: visible_def)

text \<open>Entities, types and links as they were.\<close>

definition same_rows :: "database \<Rightarrow> database \<Rightarrow> bool" where
  "same_rows d d' \<longleftrightarrow> db_types d' = db_types d \<and> db_entities d' = db_entities d \<and> db_identities d' = db_identities d
     \<and> db_audit d' = db_audit d"

lemma same_rows_props [db_intros]: "reflp same_rows" "transp same_rows"
  by (auto simp: same_rows_def intro!: reflpI transpI)

lemma same_rows_exec [db_intros]:
  "preserving same_rows (exec (insert_relation a t b sys))" "preserving same_rows (exec (delete_relations P))"
  by (rule preserving_exec;
      auto simp: same_rows_def insert_relation_def delete_relations_def pg_error_def Let_def intro: reflpI split: if_splits)+

lemma reads_preserve [db_intros]:
  "reflp R \<Longrightarrow> transp R \<Longrightarrow> preserving R (group_is_builtin i)"
  "reflp R \<Longrightarrow> transp R \<Longrightarrow> preserving R (fetchMembers g)"
  "reflp R \<Longrightarrow> transp R \<Longrightarrow> preserving R (ValidateMembers p ids)"
  "reflp R \<Longrightarrow> transp R \<Longrightarrow> preserving R (check_members p ids)"
  "reflp R \<Longrightarrow> transp R \<Longrightarrow> preserving R (group_metadata p i)"
  "reflp R \<Longrightarrow> transp R \<Longrightarrow> preserving R (Groups_repo_Get p i)"
  unfolding group_is_builtin_def fetchMembers_def ValidateMembers_def check_members_def group_metadata_def Groups_repo_Get_def
  by (intro db_intros; simp)+

lemma reconcile_rows [db_intros]: "preserving same_rows (reconcileMembers g ids)"
  unfolding reconcileMembers_def insert_member_def Let_def by (intro db_intros)

lemma same_rows_weaken:
  "preserving same_rows m \<Longrightarrow> (\<And>d d'. same_rows d d' \<Longrightarrow> R d d') \<Longrightarrow> preserving R m"
  unfolding preserving_def by blast

lemma same_rows_tenant: "same_rows d d' \<Longrightarrow> keeps_tenant p e d d'"
  by (simp add: same_rows_def keeps_tenant_def owned_by_def)

lemma relations_tenant [db_intros]:
  "preserving same_audit (reconcileMembers g ids)" "preserving (keeps_tenant p e) (reconcileMembers g ids)"
  "preserving same_audit (insert_member c g m)" "preserving (keeps_tenant p e) (insert_member c g m)"
proof -
  have i: "preserving same_rows (insert_member c g m)" unfolding insert_member_def by (intro db_intros)
  show "preserving same_audit (reconcileMembers g ids)" "preserving same_audit (insert_member c g m)"
    by (rule same_rows_weaken [OF reconcile_rows] same_rows_weaken [OF i]; simp add: same_rows_def same_audit_def)+
  show "preserving (keeps_tenant p e) (reconcileMembers g ids)" "preserving (keeps_tenant p e) (insert_member c g m)"
    by (rule same_rows_weaken [OF reconcile_rows] same_rows_weaken [OF i]; simp add: same_rows_tenant)+
qed

lemma relations_ok [db_intros]:
  "preserving keeps_ok (reconcileMembers g ids)" "preserving keeps_ok (insert_member c g m)"
  unfolding reconcileMembers_def insert_member_def Let_def by (intro db_intros)+

lemma group_repo_audit [db_intros]:
  "preserving same_audit (Groups_repo_Create p sub props ids)" "preserving same_audit (Groups_repo_Delete p i)"
  "preserving same_audit (Groups_repo_Replace p i props ids)"
  unfolding Groups_repo_Create_def Groups_repo_Delete_def Groups_repo_Replace_def split_def
  by (intro db_intros)+

lemma group_repo_ok [db_intros]:
  "preserving keeps_ok (Groups_repo_Create p sub props ids)" "preserving keeps_ok (Groups_repo_Delete p i)"
  "preserving keeps_ok (Groups_repo_Replace p i props ids)"
  unfolding Groups_repo_Create_def Groups_repo_Delete_def Groups_repo_Replace_def split_def
  by (intro db_intros)+

lemma ensures_again [db_intros]: "ensures R m \<Longrightarrow> ensures R (not_found_again e m)"
  by (auto simp: ensures_def)

lemma group_repo_tenant [db_intros]:
  "ensures (keeps_tenant p e) (Groups_repo_Create p sub props ids)" "ensures (keeps_tenant p e) (Groups_repo_Delete p i)"
  "ensures (keeps_tenant p e) (Groups_repo_Replace p i props ids)"
  unfolding Groups_repo_Create_def Groups_repo_Delete_def Groups_repo_Replace_def split_def
  by (intro db_intros preserving_ensures [where m = "for_each _ _"] preserving_ensures [where m = "fetchMembers _"]
      preserving_ensures [where m = "group_is_builtin _"] preserving_ensures [where m = "group_metadata _ _"]
      preserving_ensures [where m = "reconcileMembers _ _"])+

subsection \<open>The bodies meet the contract of an audited mutation\<close>

lemma groups_keep_snapshot [db_intros]:
  "keeps_snapshot (Groups_create_body p g ids)" "keeps_snapshot (Groups_write_body p i b props ids)"
  "keeps_snapshot (Groups_replace_body p i g ids)" "keeps_snapshot (Groups_patch_body pf up p i ops)"
  "keeps_snapshot (Groups_delete_body p i)"
proof -
  have r: "keeps_snapshot (check_members p ids)" "keeps_snapshot (Groups_repo_Get p i)"
    "keeps_snapshot (Groups_repo_Create p sub props ids)" "keeps_snapshot (Groups_repo_Delete p i)"
    "keeps_snapshot (Groups_repo_Replace p i props ids)" for p ids i sub props
    by (rule preserving_keeps_snapshot [where R = same_audit], intro db_intros)+
  show "keeps_snapshot (Groups_create_body p g ids)" "keeps_snapshot (Groups_write_body p i b props ids)"
    "keeps_snapshot (Groups_replace_body p i g ids)" "keeps_snapshot (Groups_patch_body pf up p i ops)"
    "keeps_snapshot (Groups_delete_body p i)"
    unfolding Groups_create_body_def Groups_replace_body_def Groups_patch_body_def Groups_delete_body_def
      Groups_write_body_def Let_def
    by (intro keeps_snapshot_bind keeps_snapshot_basic keeps_snapshot_again r keeps_snapshot_intros)+
qed

lemma groups_create_audits:
  "audits (\<lambda>s. scim_logged group_kind p OpCreate (sg_EntityID s) (Some (marshal_props (Groups_ToProperties g))))
     (Groups_create_body p g ids)"
  unfolding Groups_create_body_def Let_def
  by (intro audits_bind_right audits_then_ret [OF audits_scim] db_intros) auto

lemma groups_write_audits:
  "audits (\<lambda>_. scim_logged group_kind p OpUpdate i (Some (marshal_props props))) (Groups_write_body p i b props ids)"
  unfolding Groups_write_body_def
  by (intro audits_bind_right audits_then_ret [OF audits_scim] db_intros) (auto simp: op_neq)

lemma groups_replace_audits:
  "audits (\<lambda>_. scim_logged group_kind p OpUpdate i (Some (marshal_props (Groups_ToProperties g)))) (Groups_replace_body p i g ids)"
  unfolding Groups_replace_body_def by (intro audits_bind_right groups_write_audits db_intros)

lemma groups_patch_audits:
  "audits (\<lambda>_ row. \<exists>n. scim_logged group_kind p OpUpdate i (Some (marshal_props n)) row) (Groups_patch_body pf up p i ops)"
  unfolding Groups_patch_body_def
  by (intro audits_bind_right audits_if audits_throw audits_weaken [OF groups_write_audits] db_intros) blast

lemma groups_delete_audits:
  "audits (\<lambda>_. scim_logged group_kind p OpDelete i None) (Groups_delete_body p i)"
  unfolding Groups_delete_body_def
  by (intro audits_bind_right audits_then_ret [OF audits_scim] db_intros) (auto simp: op_neq)

interpretation group_create: audited "Groups_create_body p g ids"
    "\<lambda>s. scim_logged group_kind p OpCreate (sg_EntityID s) (Some (marshal_props (Groups_ToProperties g)))" for p g ids
  by unfold_locales (rule groups_keep_snapshot groups_create_audits)+

interpretation group_replace: audited "Groups_replace_body p i g ids"
    "\<lambda>_. scim_logged group_kind p OpUpdate i (Some (marshal_props (Groups_ToProperties g)))" for p i g ids
  by unfold_locales (rule groups_keep_snapshot groups_replace_audits)+

interpretation group_patch_tx: audited "Groups_patch_body pf up p i ops"
    "\<lambda>_ row. \<exists>n. scim_logged group_kind p OpUpdate i (Some (marshal_props n)) row"
    for pf :: "string \<Rightarrow> 'f option" and up p i ops
  by unfold_locales (rule groups_keep_snapshot groups_patch_audits)+

interpretation group_delete: audited "Groups_delete_body p i" "\<lambda>_. scim_logged group_kind p OpDelete i None" for p i
  by unfold_locales (rule groups_keep_snapshot groups_delete_audits)+

subsection \<open>Membership\<close>

definition members_of :: "database \<Rightarrow> uuid \<Rightarrow> uuid set" where
  "members_of d g = rl_subject ` {r \<in> set (db_relations d). member_relation g r}"

definition other_relations :: "database \<Rightarrow> uuid \<Rightarrow> relation_row list" where
  "other_relations d g = filter (\<lambda>r. \<not> member_relation g r) (db_relations d)"

lemma delete_member_Inr:
  assumes "exec (delete_relations (\<lambda>r. rl_subject r = m \<and> member_relation g r)) w s = (Inr n, s')"
  shows "members_of (s_db s') g = members_of (s_db s) g - {m} \<and> other_relations (s_db s') g = other_relations (s_db s) g"
proof -
  have vis: "visible q (rl_system r)" if "member_relation g r" for q r
    using that by (simp add: member_relation_def)
  from exec_Inr [OF assms] obtain q where "delete_relations (\<lambda>r. rl_subject r = m \<and> member_relation g r) q (s_db s) = Inr (n, s_db s')"
    by blast
  then have "s_db s' = (s_db s)\<lparr>db_relations := filter (\<lambda>r. \<not> (visible q (rl_system r) \<and> rl_subject r = m \<and> member_relation g r))
      (db_relations (s_db s))\<rparr>"
    by (simp add: delete_relations_def Let_def)
  then have d': "db_relations (s_db s') = filter (\<lambda>r. \<not> (rl_subject r = m \<and> member_relation g r)) (db_relations (s_db s))"
    using vis by (auto intro!: filter_cong)
  show ?thesis
    unfolding members_of_def other_relations_def d'
    by (auto simp: image_iff intro!: filter_cong)
qed

lemma insert_member_Inr:
  assumes "insert_member c g m w s = (Inr u, s')"
  shows "members_of (s_db s') g = insert m (members_of (s_db s) g) \<and> other_relations (s_db s') g = other_relations (s_db s) g"
proof -
  from assms obtain x where ex: "exec (insert_relation m ''member_of'' g None) w s = (Inr x, s')"
    by (auto simp: insert_member_def bind_Inr)
  from exec_Inr [OF ex] obtain q where "insert_relation m ''member_of'' g None q (s_db s) = Inr (x, s_db s')" by blast
  then have "s_db s' = (s_db s)\<lparr>db_relations := db_relations (s_db s) @ [x]\<rparr> \<and> member_relation g x \<and> rl_subject x = m"
    by (auto simp: insert_relation_def pg_error_def Let_def member_relation_def split: if_splits)
  then show ?thesis by (auto simp: members_of_def other_relations_def)
qed

lemma for_each_effect:
  assumes step: "\<And>x s u s'. f x w s = (Inr u, s') \<Longrightarrow> members_of (s_db s') g = op x (members_of (s_db s) g)
       \<and> other_relations (s_db s') g = other_relations (s_db s) g"
  shows "for_each xs f w s = (Inr u, s') \<Longrightarrow> members_of (s_db s') g = fold op xs (members_of (s_db s) g)
       \<and> other_relations (s_db s') g = other_relations (s_db s) g"
  by (induction xs arbitrary: s u) (auto simp: bind_Inr dest!: step)

lemma fold_remove: "fold (\<lambda>x A. A - {x}) xs A = A - set xs"
  by (induction xs arbitrary: A) auto

lemma fold_insert: "fold insert xs A = A \<union> set xs"
  by (induction xs arbitrary: A) auto

lemma reconcile_Inr:
  assumes "reconcileMembers g wanted w s = (Inr u, s')"
  shows "members_of (s_db s') g = set wanted \<and> other_relations (s_db s') g = other_relations (s_db s) g"
proof -
  define Q :: "uuid list db" where "Q = query (\<lambda>q d. map rl_subject (filter (member_relation g) (relations q d)))"
  define D where "D rows = for_each (filter (\<lambda>m. m \<notin> set wanted) (remdups rows)) (\<lambda>m. wrap_err ''delete obsolete member relation''
              (bind (exec (delete_relations (\<lambda>r. rl_subject r = m \<and> member_relation g r))) (\<lambda>_. ret ())))" for rows
  define I where "I rows = for_each (filter (\<lambda>m. m \<notin> set (remdups rows)) wanted) (insert_member ''insert new member relation'' g)" for rows
  have "reconcileMembers g wanted = bind (wrap_err ''read existing members'' Q) (\<lambda>rows. bind (D rows) (\<lambda>_. I rows))"
    by (simp only: reconcileMembers_def Let_def Q_def D_def I_def)
  with assms obtain rows s1 s2 u1 where q': "Q w s = (Inr rows, s1)" and del': "D rows w s1 = (Inr u1, s2)"
    and ins': "I rows w s2 = (Inr u, s')"
    by (auto simp: bind_Inr)
  note q = q' [unfolded Q_def] and del = del' [unfolded D_def] and ins = ins' [unfolded I_def]
  from query_Inr [OF q] obtain qc where
    rows: "rows = map rl_subject (filter (member_relation g) (relations qc (s_db s)))" and s1: "s_db s1 = s_db s"
    by (elim exE conjE)
  have cur: "set rows = members_of (s_db s) g"
    by (auto simp: rows members_of_def relations_def member_relation_def)
  have d: "members_of (s_db s2) g = fold (\<lambda>x A. A - {x}) (filter (\<lambda>m. m \<notin> set wanted) (remdups rows)) (members_of (s_db s1) g)
       \<and> other_relations (s_db s2) g = other_relations (s_db s1) g"
    by (rule for_each_effect [OF _ del]) (simp add: bind_Inr, elim exE, rule delete_member_Inr)
  have i: "members_of (s_db s') g = fold insert (filter (\<lambda>m. m \<notin> set (remdups rows)) wanted) (members_of (s_db s2) g)
       \<and> other_relations (s_db s') g = other_relations (s_db s2) g"
    by (rule for_each_effect [OF _ ins]) (rule insert_member_Inr)
  have "set (filter (\<lambda>m. m \<notin> set (remdups rows)) wanted) = set wanted - set rows"
    "set (filter (\<lambda>m. m \<notin> set wanted) (remdups rows)) = set rows - set wanted" by auto
  with d i have "members_of (s_db s') g = (set rows - (set rows - set wanted)) \<union> (set wanted - set rows)"
    "other_relations (s_db s') g = other_relations (s_db s) g"
    by (simp_all only: fold_remove fold_insert s1 cur [symmetric])
  then show ?thesis by blast
qed

lemma same_rel_members: "db_relations d' = db_relations d \<Longrightarrow> members_of d' g = members_of d g \<and> other_relations d' g = other_relations d g"
  by (simp add: members_of_def other_relations_def)

lemma query_row_same: "query_row f w s = (Inr x, s') \<Longrightarrow> s_db s' = s_db s"
  by (drule query_row_Inr) blast

lemma reads_same_db:
  "fetchMembers g w s = (r, s') \<Longrightarrow> s_db s' = s_db s" "group_is_builtin g w s = (b, s') \<Longrightarrow> s_db s' = s_db s"
  "group_metadata p g w s = (m, s') \<Longrightarrow> s_db s' = s_db s" "Groups_repo_Get p g w s = (st, s') \<Longrightarrow> s_db s' = s_db s"
proof -
  have r: "reflp same_db" "transp same_db" by (rule same_db_props)+
  show "fetchMembers g w s = (r, s') \<Longrightarrow> s_db s' = s_db s" "group_is_builtin g w s = (b, s') \<Longrightarrow> s_db s' = s_db s"
    "group_metadata p g w s = (m, s') \<Longrightarrow> s_db s' = s_db s" "Groups_repo_Get p g w s = (st, s') \<Longrightarrow> s_db s' = s_db s"
    by (drule preservingD(1) [where R = same_db, rotated], rule reads_preserve [OF r], simp add: same_db_def)+
qed

text \<open>Passing the member check: the identifiers are distinct and belong to the provider.\<close>

definition tenant_member :: "string \<Rightarrow> database \<Rightarrow> uuid \<Rightarrow> bool" where
  "tenant_member p d m \<longleftrightarrow> owned_by p m d
     \<and> (\<exists>e \<in> set (db_entities d). en_id e = m \<and> (has_type d ''User'' e \<or> has_type d ''Group'' e))"

lemma check_members_Inr:
  assumes "check_members p ids w s = (Inr u, s')"
  shows "s_db s' = s_db s \<and> distinct ids \<and> (\<forall>m \<in> set ids. tenant_member p (s_db s) m)"
proof (cases "ids = []")
  case True
  with assms show ?thesis by (simp add: check_members_def)
next
  case False
  define F where "F q d = remdups (map (\<lambda>(e, _). en_id e) (filter (\<lambda>(e, _). en_id e \<in> set ids)
          (linked_entities q ''User'' p d @ linked_entities q ''Group'' p d)))" for q d
  have V: "ValidateMembers p ids = wrap_err ''validate members'' (query F)"
    using False unfolding ValidateMembers_def F_def by simp
  from assms False obtain res where q: "query F w s = (Inr res, s')" and len: "length res = length ids"
    unfolding check_members_def V by (auto simp: bind_Inr split: if_splits)
  from query_Inr [OF q] obtain qc where res: "res = F qc (s_db s)" and s': "s_db s' = s_db s" by blast
  have m: "m \<in> set ids \<and> tenant_member p (s_db s) m" if "m \<in> set res" for m
    using that by (force simp: res F_def set_linked_entities tenant_member_def owned_by_def)
  have "distinct res" by (simp add: res F_def)
  then have "card (set res) = length ids" by (simp add: distinct_card len)
  moreover have "set res \<subseteq> set ids" using m by blast
  moreover have "card (set ids) \<le> length ids" by (rule card_length)
  ultimately have "set res = set ids" "card (set ids) = length ids"
    by (metis card_mono card_subset_eq finite_set le_antisym)+
  with m s' show ?thesis by (auto intro: card_distinct)
qed

lemma Groups_repo_Replace_Inr:
  assumes "Groups_repo_Replace p i props ids w s = (Inr st, s')"
  shows "members_of (s_db s') i = set ids \<and> other_relations (s_db s') i = other_relations (s_db s) i"
proof -
  from assms obtain b s1 where b: "group_is_builtin i w s = (Inr b, s1)" and "\<not> b"
    and "bind (store_Update group_kind p i (marshal_props props)) (\<lambda>updatedAt.
       bind (group_metadata p i) (\<lambda>(createdAt, sub).
       bind (reconcileMembers i ids) (\<lambda>_.
       bind (fetchMembers i) (\<lambda>ms.
       ret \<lparr>sg_EntityID = i, sg_Properties = Some props, sg_ExternalSubject = sub, sg_Members = ms,
            sg_CreatedAt = createdAt, sg_UpdatedAt = updatedAt\<rparr>)))) w s1 = (Inr st, s')"
    unfolding Groups_repo_Replace_def by (auto simp: bind_Inr [of "group_is_builtin i"] split: if_splits)
  then obtain t s2 m s3 s4 u ms s5 where up: "store_Update group_kind p i (marshal_props props) w s1 = (Inr t, s2)"
    and md: "group_metadata p i w s2 = (Inr m, s3)" and rc: "reconcileMembers i ids w s3 = (Inr u, s4)"
    and fm: "fetchMembers i w s4 = (Inr ms, s5)" and s': "s' = s5"
    by (auto simp: bind_Inr split: prod.splits)
  from up have rel: "db_relations (s_db s2) = db_relations (s_db s1)" by (rule store_Update_Inr) simp
  have "s_db s' = s_db s4" "s_db s3 = s_db s2" "s_db s1 = s_db s"
    using reads_same_db(1) [OF fm] reads_same_db(3) [OF md] reads_same_db(2) [OF b] s' by simp_all
  with reconcile_Inr [OF rc] same_rel_members [OF rel] show ?thesis by simp
qed

lemma Groups_write_Inr:
  assumes "Groups_write_body p i before props ids w s = (Inr st, s')"
  shows "members_of (s_db s') i = set ids \<and> other_relations (s_db s') i = other_relations (s_db s) i
     \<and> distinct ids \<and> (\<forall>m \<in> set ids. tenant_member p (s_db s) m)"
proof -
  from assms obtain u s1 s2 v where c: "check_members p ids w s = (Inr u, s1)"
    and r: "Groups_repo_Replace p i props ids w s1 = (Inr st, s2)"
    and a: "audit_Write (scim_audit group_kind p OpUpdate i (Some (marshal_map (sg_Properties before)))
             (Some (marshal_props props))) w s2 = (Inr v, s')"
    by (auto simp: Groups_write_body_def bind_Inr)
  from audit_Write_Inr [OF a] have "db_relations (s_db s') = db_relations (s_db s2)" by auto
  with check_members_Inr [OF c] Groups_repo_Replace_Inr [OF r] same_rel_members show ?thesis by metis
qed

end
