(* ===== verification/Core_Base.thy ===== *)
theory Core_Base
  imports Db_Laws Resolver
begin

section \<open>The frame of the management services\<close>

text \<open>
  What the services of entity types, entities, systems, relations and overlays share: the identity in
  the request's context, the transaction scoped to its active system (\<open>internal/db/scope.go\<close>), the audit
  record taken from it (\<open>internal/audit\<close>), the conversion of errors, and the validation against a JSON
  Schema (\<open>internal/validation\<close>). The JSON Schema library is a record of functions.
\<close>

subsection \<open>Context, transactions and audit\<close>

type_synonym request_context = "identity option"

definition MustIdentity :: "request_context \<Rightarrow> identity db" where
  "MustIdentity ctx = (case ctx of None \<Rightarrow> throw (Panic ''auth: identity not found in context'') | Some i \<Rightarrow> ret i)"

definition WithAuthScope :: "request_context \<Rightarrow> 'a db \<Rightarrow> 'a db" where
  "WithAuthScope ctx fn = bind (MustIdentity ctx) (\<lambda>i. WithSystemScope (id_ActiveSystemID i) fn)"

definition WriteFromContext :: "render_env \<Rightarrow> request_context \<Rightarrow> audit_entry \<Rightarrow> unit db" where
  "WriteFromContext env ctx entry =
     bind (MustIdentity ctx) (\<lambda>i. audit_Write (entry\<lparr>ae_actor := ActorString (re_uuid env) i,
       ae_system := (case id_ActiveSystemID i of None \<Rightarrow> ae_system entry | Some u \<Rightarrow> Some u)\<rparr>))"

text \<open>An entry as the services build it: the actor and the system are filled in by \<open>WriteFromContext\<close>.\<close>

definition entry_of :: "string \<Rightarrow> string \<Rightarrow> uuid \<Rightarrow> raw \<Rightarrow> raw \<Rightarrow> audit_entry" where
  "entry_of op rtype rid before after = \<lparr>ae_actor = [], ae_operation = op, ae_resource_type = rtype,
     ae_resource_id = rid, ae_before = before, ae_after = after, ae_system = None\<rparr>"

text \<open>The frame of every \<open>toAPIError\<close>: a structured error passes, the package's sentinels become one.\<close>

definition api_error :: "(goerr \<times> APIError) list \<Rightarrow> goerr \<Rightarrow> goerr" where
  "api_error table e =
     (case errors_As_API e of
        Some a \<Rightarrow> ApiE a
      | None \<Rightarrow> (case find (\<lambda>(t, _). errors_Is e t) table of Some (_, a) \<Rightarrow> ApiE a | None \<Rightarrow> e))"

definition map_err :: "(goerr \<Rightarrow> goerr) \<Rightarrow> 'a db \<Rightarrow> 'a db" where
  "map_err f m = catch m (\<lambda>e. throw (f e))"

definition reject :: "APIError \<Rightarrow> 'a db" where
  "reject a = throw (ApiE a)"

definition check :: "APIError option \<Rightarrow> unit db" where
  "check r = (case r of None \<Rightarrow> ret () | Some a \<Rightarrow> reject a)"

text \<open>A \<open>NOT NULL\<close> column takes no nil \<open>json.RawMessage\<close>; \<open>json.Marshal\<close> writes it as null.\<close>

definition not_null :: "raw \<Rightarrow> (json \<Rightarrow> 'a statement) \<Rightarrow> 'a statement" where
  "not_null r f = (\<lambda>q d. case r of None \<Rightarrow> pg_error ''23502'' [] | Some j \<Rightarrow> f j q d)"

definition raw_json :: "raw \<Rightarrow> json" where
  "raw_json r = (case r of None \<Rightarrow> JNull | Some j \<Rightarrow> j)"

text \<open>\<open>LIMIT\<close> and \<open>OFFSET\<close> with their error cases, and the bounds a service puts on the page size.\<close>

definition limit_offset :: "int \<Rightarrow> int \<Rightarrow> 'a list \<Rightarrow> dberr + 'a list" where
  "limit_offset limit offset xs =
     (if offset < 0 then pg_error ''2201X'' []
      else if limit < 0 then pg_error ''2201W'' []
      else Inr (page limit offset xs))"

definition query_page :: "int \<Rightarrow> int \<Rightarrow> (query_ctx \<Rightarrow> database \<Rightarrow> 'a list) \<Rightarrow> 'a list db" where
  "query_page limit offset f = exec (\<lambda>q d. case limit_offset limit offset (f q d) of Inl e \<Rightarrow> Inl e | Inr p \<Rightarrow> Inr (p, d))"

definition clamp_limit :: "int \<Rightarrow> int \<Rightarrow> int \<Rightarrow> int" where
  "clamp_limit dflt most l = (let l' = (if l \<le> 0 then dflt else l) in if most < l' then most else l')"

lemma clamp_limit_bounds: "0 < dflt \<Longrightarrow> dflt \<le> most \<Longrightarrow> 0 < clamp_limit dflt most l \<and> clamp_limit dflt most l \<le> most"
  by (simp add: clamp_limit_def Let_def)

subsection \<open>JSON Schema validation (\<open>internal/validation\<close>)\<close>

datatype verr = VErr string "verr list"

record 's schema_lib =
  js_AddResource :: "string \<Rightarrow> json \<Rightarrow> string option"
  js_Compile :: "string \<Rightarrow> json \<Rightarrow> string + 's"
  js_Validate :: "'s \<Rightarrow> json \<Rightarrow> (string + verr) option"

fun collectErrors :: "verr \<Rightarrow> msg list list \<Rightarrow> msg list list" where
  "collectErrors (VErr m causes) details =
     (if causes = [] then (if m \<noteq> [] then details @ [[Lit m]] else details)
      else fold collectErrors causes details)"

definition flattenValidationErrors :: "verr \<Rightarrow> msg list list" where
  "flattenValidationErrors e = collectErrors e []"

definition compile_schema :: "'s schema_lib \<Rightarrow> string \<Rightarrow> raw \<Rightarrow> 's res" where
  "compile_schema lib uri schema =
     (case schema of
        None \<Rightarrow> Inl (Wrap ''invalid JSON in schema'' (JsonE JsonUnexpectedEnd))
      | Some doc \<Rightarrow>
          (case js_AddResource lib uri doc of
             Some e \<Rightarrow> Inl (Wrap ''adding schema resource'' (Text e))
           | None \<Rightarrow> (case js_Compile lib uri doc of
               Inl e \<Rightarrow> Inl (Wrap ''compiling schema'' (Text e)) | Inr c \<Rightarrow> Inr c)))"

definition validate_instance :: "'s schema_lib \<Rightarrow> 's \<Rightarrow> json \<Rightarrow> APIError option" where
  "validate_instance lib v inst =
     (case js_Validate lib v inst of
        None \<Rightarrow> None
      | Some (Inl e) \<Rightarrow> Some (api_BadRequest [Lit ''schema validation failed: '', Lit e])
      | Some (Inr e) \<Rightarrow> Some (api_ValidationFailed (flattenValidationErrors e)))"

definition ValidateRaw :: "'s schema_lib \<Rightarrow> 's \<Rightarrow> raw \<Rightarrow> APIError option" where
  "ValidateRaw lib v data =
     (case data of
        None \<Rightarrow> Some (api_BadRequest [Lit ''invalid JSON: '', ErrText (JsonE JsonUnexpectedEnd)])
      | Some inst \<Rightarrow> validate_instance lib v inst)"

definition ValidateIsJSONSchema :: "'s schema_lib \<Rightarrow> raw \<Rightarrow> APIError option" where
  "ValidateIsJSONSchema lib schema =
     (case schema of
        None \<Rightarrow> Some (api_BadRequest [Lit ''invalid JSON: '', ErrText (JsonE JsonUnexpectedEnd)])
      | Some doc \<Rightarrow>
          (case js_AddResource lib ''validate://input'' doc of
             Some e \<Rightarrow> Some (api_ValidationFailed [[Lit ''invalid JSON Schema: '', Lit e]])
           | None \<Rightarrow> (case js_Compile lib ''validate://input'' doc of
               Inl e \<Rightarrow> Some (api_ValidationFailed [[Lit ''invalid JSON Schema: '', Lit e]]) | Inr _ \<Rightarrow> None)))"

text \<open>Both properties checks of the services: compile the stored schema, validate the document.\<close>

definition against_schema :: "'s schema_lib \<Rightarrow> string \<Rightarrow> string \<Rightarrow> raw \<Rightarrow> raw \<Rightarrow> APIError option" where
  "against_schema lib uri failure props schema =
     (case compile_schema lib uri schema of
        Inl _ \<Rightarrow> Some (api_Internal [Lit failure])
      | Inr v \<Rightarrow> ValidateRaw lib v props)"

definition conforms :: "'s schema_lib \<Rightarrow> string \<Rightarrow> json \<Rightarrow> json \<Rightarrow> bool" where
  "conforms lib uri schema inst \<longleftrightarrow> js_AddResource lib uri schema = None
     \<and> (\<exists>v. js_Compile lib uri schema = Inr v \<and> js_Validate lib v inst = None)"

lemma against_schema_None:
  "against_schema lib uri failure (Some inst) (Some schema) = None \<longleftrightarrow> conforms lib uri schema inst"
  by (auto simp: against_schema_def compile_schema_def conforms_def ValidateRaw_def validate_instance_def
      split: option.splits sum.splits)

subsection \<open>Laws of the frame\<close>

lemma map_err_Inr [simp]: "map_err f m w s = (Inr x, s') \<longleftrightarrow> m w s = (Inr x, s')"
  by (simp add: map_err_def)

lemma reject_Inr [simp]: "reject a w s = (Inr x, s') \<longleftrightarrow> False"
  by (simp add: reject_def)

lemma check_Inr [simp]: "check r w s = (Inr x, s') \<longleftrightarrow> r = None \<and> s' = s"
  by (auto simp: check_def split: option.splits)

lemma MustIdentity_Inr [simp]: "MustIdentity ctx w s = (Inr i, s') \<longleftrightarrow> ctx = Some i \<and> s' = s"
  by (auto simp: MustIdentity_def split: option.splits)

lemma preserving_frame [db_intros]:
  "reflp R \<Longrightarrow> preserving R (reject a)" "reflp R \<Longrightarrow> preserving R (check r)" "reflp R \<Longrightarrow> preserving R (MustIdentity ctx)"
  "transp R \<Longrightarrow> reflp R \<Longrightarrow> preserving R m \<Longrightarrow> preserving R (map_err f m)"
  unfolding reject_def check_def MustIdentity_def map_err_def by (auto split: option.splits intro!: db_intros)

lemma preserving_page [db_intros]: "reflp R \<Longrightarrow> preserving R (query_page limit offset f)"
  unfolding query_page_def by (rule preserving_exec) (auto simp: reflpD split: sum.splits)

definition set_scope :: "uuid option \<Rightarrow> unit db" where
  "set_scope sys = (case sys of None \<Rightarrow> ret () | Some u \<Rightarrow> wrap_err ''setting system scope'' (set_system u))"

lemma preserving_set_scope: "reflp R \<Longrightarrow> transp R \<Longrightarrow> preserving R (set_scope sys)"
proof -
  assume R: "reflp R" "transp R"
  have "preserving R (set_system u)" for u
  proof (rule preservingI)
    fix w s r s' assume a: "set_system u w s = (r, s')"
    obtain x s1 where q: "query (\<lambda>q d. ()) w s = (x, s1)" by fastforce
    from preservingD [OF preserving_query [OF R(1)] q] a q
    show "R (s_db s) (s_db s') \<and> map_option tx_snapshot (s_tx s') = map_option tx_snapshot (s_tx s)"
      by (cases x) (auto simp: set_system_def bind_def split: option.splits)
  qed
  with R show ?thesis unfolding set_scope_def by (auto split: option.splits intro!: db_intros)
qed

lemma bind_assoc: "bind (bind m f) g = bind m (\<lambda>x. bind (f x) g)"
  by (auto simp: bind_def fun_eq_iff split: prod.splits sum.splits)

lemma WithSystemScope_tx: "WithSystemScope sys fn = tx_do ''begin transaction'' (\<lambda>m. m) (bind (set_scope sys) (\<lambda>_. fn))"
  by (simp add: WithSystemScope_def tx_do_def set_scope_def bind_assoc cong: option.case_cong)

lemma set_system_Inr:
  assumes "set_system u w s = (Inr v, s')"
  shows "s_db s' = s_db s \<and> s_tx s' = map_option (\<lambda>t. t\<lparr>tx_setting := SetSystem u\<rparr>) (s_tx s)"
proof -
  obtain y s1 where q: "query (\<lambda>q d. ()) w s = (y, s1)" by fastforce
  show ?thesis
  proof (cases y)
    case (Inl e)
    with assms q show ?thesis by (simp add: set_system_def bind_def)
  next
    case (Inr z)
    from exec_Inr [OF q [unfolded query_def Inr]] have "s_tx s1 = s_tx s" "s_db s1 = s_db s" by (elim exE conjE, simp)+
    with assms q Inr show ?thesis by (auto simp: set_system_def bind_def split: option.splits)
  qed
qed

text \<open>A request that is one scoped transaction.\<close>

lemma scoped_body_snapshot: "keeps_snapshot fn \<Longrightarrow> keeps_snapshot (bind (set_scope sys) (\<lambda>_. fn))"
  unfolding keeps_snapshot_def
  by (intro preserving_bind preserving_set_scope keeps_snapshot_top(2,3))

lemma scope_outcome:
  assumes "WithAuthScope ctx fn w s = (r, s')" "s_tx s = None" "keeps_snapshot fn"
  obtains "s_db s' = s_db s" "s_tx s' = None" "isl r"
    | i n x s1 t s2 where "ctx = Some i" "s_db s1 = s_db s" "s_tx s1 = Some t"
      "tx_setting t = (case id_ActiveSystemID i of None \<Rightarrow> w_unset w n | Some u \<Rightarrow> SetSystem u)"
      "fn w s1 = (Inr x, s2)" "s_db s' = s_db s2" "s_tx s' = None" "isl r \<or> r = Inr x"
      "isl r \<longrightarrow> (\<exists>n. w_indoubt w n)"
proof (cases ctx)
  case None
  with assms(1,2) that(1) show thesis by (auto simp: WithAuthScope_def MustIdentity_def bind_def throw_def)
next
  case (Some i)
  let ?body = "bind (set_scope (id_ActiveSystemID i)) (\<lambda>_. fn)"
  from assms(1) Some have run: "tx_do ''begin transaction'' (\<lambda>m. m) ?body w s = (r, s')"
    by (simp add: WithAuthScope_def MustIdentity_def bind_def ret_def WithSystemScope_tx)
  obtain rb s1 where b: "begin_tx w s = (rb, s1)" by fastforce
  from b show thesis
  proof (cases rule: begin_tx_cases)
    case (1 e)
    with run b assms(2) have "isl r" "s_db s' = s_db s" "s_tx s' = None" by (auto simp: tx_do_def with_tx_def)
    with that(1) show thesis by blast
  next
    case (2 t)
    have ts: "tx_setting t = w_unset w (s_n s)"
      using b 2 by (auto simp: begin_tx_def Let_def split: option.splits)
    obtain rm s2 where m: "?body w s1 = (rm, s2)" by fastforce
    from keeps_snapshotD [OF scoped_body_snapshot [OF assms(3)] m 2(3)] obtain t2 where t2: "s_tx s2 = Some t2" "tx_snapshot t2 = s_db s"
      using 2(4) by auto
    show thesis
    proof (cases rm)
      case (Inl e)
      with run b 2 m t2 have "isl r" "s_db s' = s_db s" "s_tx s' = None"
        by (auto simp: tx_do_def with_tx_def bind_def rollback_def)
      with that(1) show thesis by blast
    next
      case (Inr x)
      from m Inr obtain v s4 where sc: "set_scope (id_ActiveSystemID i) w s1 = (Inr v, s4)" and fn: "fn w s4 = (Inr x, s2)"
        by (auto simp: bind_Inr)
      have s4: "s_db s4 = s_db s1 \<and> (\<exists>t4. s_tx s4 = Some t4
          \<and> tx_setting t4 = (case id_ActiveSystemID i of None \<Rightarrow> w_unset w (s_n s) | Some u \<Rightarrow> SetSystem u))"
        using sc 2(3) ts by (cases "id_ActiveSystemID i") (auto simp: set_scope_def dest!: set_system_Inr)
      then obtain t4 where t4: "s_tx s4 = Some t4"
        "tx_setting t4 = (case id_ActiveSystemID i of None \<Rightarrow> w_unset w (s_n s) | Some u \<Rightarrow> SetSystem u)" by blast
      obtain rc s3 where c: "commit_tx w s2 = (rc, s3)" by fastforce
      have r: "r = (case rc of Inl e \<Rightarrow> Inl e | Inr _ \<Rightarrow> Inr x) \<and> s' = rollback s3"
        using run b 2(1) m Inr c
        by (cases rc) (simp_all add: tx_do_def with_tx_def bind_def ret_def)
      have db1: "s_db s4 = s_db s" using s4 2(2) by simp
      from c t2(1) show thesis
        by (cases rule: commit_tx_cases)
          (use r t2 that(1) that(2) [OF Some db1 t4 fn] in \<open>auto simp: rollback_def\<close>)
    qed
  qed
qed

lemma with_scope_Inr:
  assumes "WithAuthScope ctx fn w s = (Inr x, s')" "s_tx s = None" "keeps_snapshot fn"
  obtains i n s1 t s2 where "ctx = Some i" "s_db s1 = s_db s" "s_tx s1 = Some t"
    "tx_setting t = (case id_ActiveSystemID i of None \<Rightarrow> w_unset w n | Some u \<Rightarrow> SetSystem u)"
    "fn w s1 = (Inr x, s2)" "s_db s' = s_db s2" "s_tx s' = None"
  using assms by (rule scope_outcome) auto

lemma atomic_scope:
  assumes "keeps_snapshot fn" "audits Q fn" "\<And>n. \<not> w_indoubt w n" "\<And>x row. Q x row \<Longrightarrow> P row"
  shows "atomic w P (WithAuthScope ctx fn)"
proof (rule atomicI)
  fix s :: sess and r s'
  assume "s_tx s = None" "WithAuthScope ctx fn w s = (r, s')"
  from this(2,1) assms(1)
  show "case r of Inl e \<Rightarrow> s_db s' = s_db s | Inr x \<Rightarrow> \<exists>row. db_audit (s_db s') = db_audit (s_db s) @ [row] \<and> P row"
  proof (rule scope_outcome)
    assume "s_db s' = s_db s" "isl r"
    then show ?thesis by (cases r) simp_all
  next
    fix x s1 s2
    assume "s_db s1 = s_db s" "fn w s1 = (Inr x, s2)" "s_db s' = s_db s2" "isl r \<longrightarrow> (\<exists>n. w_indoubt w n)"
    with auditsD [OF assms(2)] assms(3,4) show ?thesis by (cases r) fastforce+
  qed
qed

lemma safe_scope:
  assumes "keeps_snapshot fn" "ensures R fn" "reflp R"
  shows "safe R (WithAuthScope ctx fn)"
  unfolding safe_def
proof (intro allI impI)
  fix w and s :: sess assume s: "s_tx s = None"
  obtain r s' where run: "WithAuthScope ctx fn w s = (r, s')" by fastforce
  from run s assms(1) have "R (s_db s) (s_db s') \<and> s_tx s' = None"
  proof (rule scope_outcome)
    assume "s_db s' = s_db s" "s_tx s' = None"
    with assms(3) show ?thesis by (simp add: reflpD)
  next
    fix x s1 s2
    assume "s_db s1 = s_db s" "fn w s1 = (Inr x, s2)" "s_db s' = s_db s2" "s_tx s' = None"
    with ensuresD [OF assms(2)] show ?thesis by metis
  qed
  with run show "R (s_db s) (s_db (snd (WithAuthScope ctx fn w s))) \<and> s_tx (snd (WithAuthScope ctx fn w s)) = None" by simp
qed

lemma keeps_no_tx: "preserving R m \<Longrightarrow> m w s = (r, s') \<Longrightarrow> s_tx s = None \<Longrightarrow> s_tx s' = None"
  by (drule (1) preservingD(2)) simp

lemma atomic_read:
  assumes "preserving same_db m" "\<And>x. atomic w P (f x)"
  shows "atomic w P (bind m f)"
proof (rule atomicI)
  fix s :: sess and r s'
  assume s: "s_tx s = None" and run: "bind m f w s = (r, s')"
  obtain x s1 where m: "m w s = (x, s1)" by fastforce
  from preservingD(1) [OF assms(1) m] keeps_no_tx [OF assms(1) m s] have 1: "s_db s1 = s_db s" "s_tx s1 = None"
    by (simp_all add: same_db_def)
  show "case r of Inl e \<Rightarrow> s_db s' = s_db s | Inr x \<Rightarrow> \<exists>row. db_audit (s_db s') = db_audit (s_db s) @ [row] \<and> P row"
  proof (cases x)
    case (Inl e)
    with run m 1 show ?thesis by (auto simp: bind_def)
  next
    case (Inr y)
    with run m have "f y w s1 = (r, s')" by (simp add: bind_def)
    from atomicD [OF assms(2) 1(2) this] show ?thesis unfolding 1 .
  qed
qed

lemma atomic_map_err: "atomic w P m \<Longrightarrow> atomic w P (map_err g m)"
  by (rule atomicI) (auto simp: map_err_def catch_def throw_def split: prod.splits sum.splits dest: atomicD)

lemma atomic_reject: "atomic w P (reject a)"
  unfolding reject_def by (rule atomic_throw)

lemma safe_read:
  assumes "\<And>R. reflp R \<Longrightarrow> transp R \<Longrightarrow> preserving R m" "reflp R"
  shows "safe R m"
proof -
  have p: "preserving same_db m" by (rule assms(1) [OF same_db_props])
  show ?thesis unfolding safe_def
  proof (intro allI impI)
    fix w and s :: sess assume "s_tx s = None"
    with preservingD [OF p, of w s] assms(2)
    show "R (s_db s) (s_db (snd (m w s))) \<and> s_tx (snd (m w s)) = None"
      by (cases "m w s") (simp add: same_db_def reflpD)
  qed
qed

lemma safe_map_err: "reflp R \<Longrightarrow> safe R m \<Longrightarrow> safe R (map_err g m)"
  by (auto simp: safe_def map_err_def catch_def throw_def split: prod.splits sum.splits) (metis snd_conv)+

subsection \<open>The audit record of a management request\<close>

definition core_logged :: "render_env \<Rightarrow> request_context \<Rightarrow> audit_entry \<Rightarrow> audit_row \<Rightarrow> bool" where
  "core_logged env ctx entry row \<longleftrightarrow> (\<exists>i. ctx = Some i \<and> au_actor row = ActorString (re_uuid env) i
     \<and> au_operation row = ae_operation entry \<and> au_resource_type row = ae_resource_type entry
     \<and> au_resource_id row = ae_resource_id entry \<and> au_before row = ae_before entry \<and> au_after row = ae_after entry
     \<and> au_system row = id_ActiveSystemID i)"

lemma keeps_snapshot_context: "keeps_snapshot (WriteFromContext env ctx entry)"
proof -
  have "preserving (\<lambda>_ _. True) (audit_Write a)" for a using keeps_snapshot_intros [unfolded keeps_snapshot_def] .
  then show ?thesis unfolding WriteFromContext_def keeps_snapshot_def
    by (intro preserving_bind preserving_frame keeps_snapshot_top(2,3))
qed

lemma audits_context:
  "ae_system entry = None \<Longrightarrow> audits (\<lambda>_. core_logged env ctx entry) (WriteFromContext env ctx entry)"
proof (rule auditsI)
  fix w s and x :: unit and s'
  assume n: "ae_system entry = None" and "WriteFromContext env ctx entry w s = (Inr x, s')"
  then obtain i where i: "ctx = Some i"
    and wr: "audit_Write (entry\<lparr>ae_actor := ActorString (re_uuid env) i,
       ae_system := (case id_ActiveSystemID i of None \<Rightarrow> ae_system entry | Some u \<Rightarrow> Some u)\<rparr>) w s = (Inr x, s')"
    by (auto simp: WriteFromContext_def bind_Inr)
  from auditsD [OF audits_Write wr] obtain row q where
    "db_audit (s_db s') = db_audit (s_db s) @ [row]" "row = audit_row_of (entry\<lparr>ae_actor := ActorString (re_uuid env) i,
       ae_system := (case id_ActiveSystemID i of None \<Rightarrow> ae_system entry | Some u \<Rightarrow> Some u)\<rparr>) q" by blast
  then show "\<exists>row. db_audit (s_db s') = db_audit (s_db s) @ [row] \<and> core_logged env ctx entry row"
    using n i by (intro exI [of _ row]) (auto simp: core_logged_def audit_row_of_def split: option.splits)
qed

lemma entry_of_simps [simp]:
  "ae_operation (entry_of op ty i b a) = op" "ae_resource_type (entry_of op ty i b a) = ty"
  "ae_resource_id (entry_of op ty i b a) = i" "ae_before (entry_of op ty i b a) = b" "ae_after (entry_of op ty i b a) = a"
  "ae_system (entry_of op ty i b a) = None"
  by (simp_all add: entry_of_def)

lemma WriteFromContext_Inr:
  "WriteFromContext env ctx entry w s = (Inr x, s') \<Longrightarrow> \<exists>row. s_db s' = (s_db s)\<lparr>db_audit := db_audit (s_db s) @ [row]\<rparr>"
  by (auto simp: WriteFromContext_def bind_Inr dest: audit_Write_Inr)

lemma preserving_context [db_intros]: "preserving keeps_ok (WriteFromContext env ctx entry)"
  unfolding WriteFromContext_def by (intro db_intros)

lemma audits_context_ret:
  "ae_system entry = None \<Longrightarrow> (\<And>row. core_logged env ctx entry row \<Longrightarrow> Q y row) \<Longrightarrow>
   audits Q (bind (WriteFromContext env ctx entry) (\<lambda>_. ret y))"
  by (rule audits_bind_left [where P = "\<lambda>_. core_logged env ctx entry"]) (auto intro: db_intros audits_context)

lemma preserving_not_null [db_intros]:
  assumes "\<And>j. preserving R (exec (f j))"
  shows "preserving R (exec (not_null r f))"
proof (cases r)
  case None
  have "R (s_db s) (s_db s)" for s :: sess
  proof -
    have "exec (f JNull) \<lparr>w_fail = (\<lambda>_. Some ConnError), w_uuid = (\<lambda>_. 0), w_time = (\<lambda>_. 0), w_unset = (\<lambda>_. SetEmpty),
        w_bypass_rls = True, w_render = (\<lambda>_. []), w_indoubt = (\<lambda>_. False)\<rparr> (s\<lparr>s_tx := None\<rparr>)
      = (Inl (Db ConnError), (s\<lparr>s_tx := None\<rparr>)\<lparr>s_n := Suc (s_n s)\<rparr>)" by (simp add: exec_def)
    from preservingD(1) [OF assms this] show ?thesis by simp
  qed
  then have refl: "R d d" for d by (metis sess.select_convs(1))
  then have "reflp R" by (rule reflpI)
  then show ?thesis by (rule preserving_exec) (simp add: not_null_def None pg_error_def)
next
  case (Some j)
  then have "not_null r f = f j" by (simp add: not_null_def fun_eq_iff)
  with assms show ?thesis by simp
qed

lemma query_page_Inr:
  assumes "query_page limit offset f w s = (Inr x, s')"
  shows "\<exists>q. x = page limit offset (f q (s_db s)) \<and> 0 \<le> offset \<and> 0 \<le> limit \<and> s_db s' = s_db s \<and> s_tx s' = s_tx s"
proof -
  from exec_Inr [OF assms [unfolded query_page_def]] obtain q where
    "(case limit_offset limit offset (f q (s_db s)) of Inl e \<Rightarrow> Inl e | Inr p \<Rightarrow> Inr (p, s_db s)) = Inr (x, s_db s')" "s_tx s' = s_tx s"
    by blast
  then show ?thesis by (auto simp: limit_offset_def pg_error_def split: if_splits)
qed

end
