(* ===== verification/Scim_Tenant.thy ===== *)
theory Scim_Tenant
  imports Scim_Groups_Svc Core_Base
begin

section \<open>The SCIM services as a whole\<close>

text \<open>
  Properties of the user and group services together: membership after a write, the reserved groups,
  one audit record per change, and what the requests of one provider can reach.
\<close>

subsection \<open>Membership after a write\<close>

lemma Groups_Replace_Inr:
  assumes "Groups_Replace up env p i g w s = (Inr g', s')" "s_tx s = None"
  obtains ids where "parseMemberIDs up (gr_Members g) = Inr ids" "members_of (s_db s') i = set ids"
    "other_relations (s_db s') i = other_relations (s_db s) i" "\<forall>m \<in> set ids. tenant_member p (s_db s) m"
proof -
  from assms(1) obtain ids st where ids: "parseMemberIDs up (gr_Members g) = Inr ids"
    and tx: "in_tx (Groups_replace_body p i g ids) w s = (Inr st, s')"
    by (auto simp: Groups_Replace_def bind_Inr split: if_splits)
  from tx assms(2) groups_keep_snapshot(3) obtain s1 t s2 where s1: "s_db s1 = s_db s"
    and body: "Groups_replace_body p i g ids w s1 = (Inr st, s2)" and s2: "s_db s' = s_db s2"
    by (rule in_tx_Inr)
  from body obtain b s3 where get: "Groups_repo_Get p i w s1 = (Inr b, s3)"
    and wr: "Groups_write_body p i b (Groups_ToProperties g) ids w s3 = (Inr st, s2)"
    by (auto simp: Groups_replace_body_def bind_Inr)
  from that [OF ids] Groups_write_Inr [OF wr] reads_same_db(4) [OF get] s1 s2 show thesis by simp
qed

lemma fetchMembers_ids:
  assumes "fetchMembers g w s = (Inr ms, s')"
  shows "set (memberEntityIDs ms) \<subseteq> members_of (s_db s) g"
proof -
  define F where "F q d = map (\<lambda>(r, e, t). \<lparr>mb_EntityID = en_id e, mb_Type = ty_name t,
              mb_Display = (case jsonb_text q (en_properties e) ''displayName'' of None \<Rightarrow> [] | Some s \<Rightarrow> s)\<rparr>)
         (sort_key (\<lambda>(r, e, t). (rl_created r, en_id e)) (fetch_rows q d g))" for q d
  have "fetchMembers g = wrap_err ''fetch members'' (query F)" unfolding fetchMembers_def F_def by (rule refl)
  with assms have "query F w s = (Inr ms, s')" by simp
  from query_Inr [OF this] obtain q where ms: "ms = F q (s_db s)" by blast
  show ?thesis
    by (auto simp: ms F_def memberEntityIDs_def members_of_def fetch_rows_def relations_def)
qed

lemma Groups_Patch_Inr:
  assumes "Groups_Patch pf up env p i ops w s = (Inr g', s')" "s_tx s = None" "ops \<noteq> []"
  obtains inp cur nxt where "Groups_ApplyPatch pf up inp cur ops = Inr nxt" "set cur \<subseteq> members_of (s_db s) i"
    "members_of (s_db s') i = set (ps_MemberIDs nxt)"
    "other_relations (s_db s') i = other_relations (s_db s) i" "\<forall>m \<in> set (ps_MemberIDs nxt). tenant_member p (s_db s) m"
proof -
  from assms(1,3) obtain st where tx: "in_tx (Groups_patch_body pf up p i ops) w s = (Inr st, s')"
    by (auto simp: Groups_Patch_def bind_Inr)
  from tx assms(2) groups_keep_snapshot(4) obtain s1 t s2 where s1: "s_db s1 = s_db s"
    and body: "Groups_patch_body pf up p i ops w s1 = (Inr st, s2)" and s2: "s_db s' = s_db s2"
    by (rule in_tx_Inr)
  from body obtain b s3 nxt where get: "Groups_repo_Get p i w s1 = (Inr b, s3)"
    and pt: "Groups_ApplyPatch pf up (sg_Properties b) (memberEntityIDs (sg_Members b)) ops = Inr nxt"
    and wr: "Groups_write_body p i b (ps_Properties nxt) (ps_MemberIDs nxt) w s3 = (Inr st, s2)"
    by (auto simp: Groups_patch_body_def bind_Inr split: if_splits)
  from get obtain r s4 ms where g: "store_Get group_kind p i w s1 = (Inr r, s4)" and f: "fetchMembers i w s4 = (Inr ms, s3)"
    and b: "sg_Members b = ms" by (auto simp: Groups_repo_Get_def bind_Inr group_of_row_def)
  from g have "s_db s4 = s_db s1" by (rule store_Get_Inr)
  with fetchMembers_ids [OF f] b have cur: "set (memberEntityIDs (sg_Members b)) \<subseteq> members_of (s_db s1) i" by simp
  from that [OF pt] cur Groups_write_Inr [OF wr] reads_same_db(4) [OF get] s1 s2 show thesis by simp
qed


subsection \<open>Reserved groups\<close>

text \<open>The check of the repository swallows a failing look-up; the aborted transaction then refuses the write.\<close>

definition reserved :: "entity_row \<Rightarrow> database \<Rightarrow> bool" where
  "reserved e d \<longleftrightarrow> e \<in> set (db_entities d) \<and> en_builtin e \<and> en_system_id e = None
     \<and> (\<exists>t. find_type d ''Group'' = Some t \<and> en_type_id e = ty_id t) \<and> db_ok d"

lemma builtin_check:
  assumes "group_is_builtin i w s = (Inr False, s1)" "s_tx s = Some t"
  shows "(\<exists>t1. s_tx s1 = Some t1 \<and> tx_aborted t1) \<or> (\<forall>e. reserved e (s_db s) \<longrightarrow> en_id e \<noteq> i)"
proof -
  define F where "F q d = map en_builtin (filter (\<lambda>e. en_id e = i
              \<and> (case find_type d ''Group'' of None \<Rightarrow> False | Some t \<Rightarrow> en_type_id e = ty_id t)) (entities q d))" for q d
  define G where "G q d = (Inr (case F q d of [] \<Rightarrow> None | x # _ \<Rightarrow> Some x, d) :: dberr + _)" for q d
  have gb: "group_is_builtin i = catch (scan_row (exec G)) (\<lambda>_. ret False)"
    unfolding group_is_builtin_def query_row_def query_def F_def G_def by (rule refl)
  obtain r s2 where ex: "exec G w s = (r, s2)" by fastforce
  show ?thesis
  proof (cases r)
    case (Inl e)
    with assms(1) ex have "s1 = s2" by (simp add: gb catch_def scan_row_def bind_def ret_def)
    with exec_aborts [OF ex [unfolded Inl] assms(2)] show ?thesis by blast
  next
    case (Inr x)
    from exec_Inr [OF ex [unfolded Inr]] obtain q where "G q (s_db s) = Inr (x, s_db s2)" by blast
    then have x: "x = (case F q (s_db s) of [] \<Rightarrow> None | x # _ \<Rightarrow> Some x)"
      unfolding G_def by (elim Inr_inject [elim_format] Pair_inject) (rule sym)
    have "en_id e \<noteq> i" if e: "reserved e (s_db s)" for e
    proof
      assume i: "en_id e = i"
      from e have mem: "e \<in> set (entities q (s_db s))" by (simp add: reserved_def entities_def)
      have only: "y = e" if "y \<in> set (entities q (s_db s))" "en_id y = i" for y
        using that e i distinct_key_inj [of en_id "db_entities (s_db s)" y e]
        by (simp add: reserved_def entities_def db_ok_def)
      have "F q (s_db s) \<noteq> []" using mem i e by (auto simp: F_def filter_empty_conv reserved_def)
      moreover have "\<forall>b \<in> set (F q (s_db s)). b" using only e by (auto simp: F_def reserved_def)
      ultimately have "x = Some True" unfolding x by (cases "F q (s_db s)") auto
      with assms(1) ex Inr show False by (simp add: gb catch_def scan_row_def bind_def ret_def)
    qed
    then show ?thesis by blast
  qed
qed

lemma tx_body:
  assumes "in_tx m w s = (r, s')" "s_tx s = None" "keeps_snapshot m"
  obtains "s_db s' = s_db s" "isl r"
    | x s1 t s2 where "s_db s1 = s_db s" "s_tx s1 = Some t" "m w s1 = (Inr x, s2)" "s_db s' = s_db s2" "isl r \<or> r = Inr x"
proof -
  obtain rb s1 where b: "begin_tx w s = (rb, s1)" by fastforce
  from b show thesis
  proof (cases rule: begin_tx_cases)
    case (1 e)
    with assms(1) b have "isl r" "s_db s' = s_db s" by (auto simp: in_tx_def tx_do_def with_tx_def)
    with that(1) show thesis by blast
  next
    case (2 t)
    obtain rm s2 where m: "m w s1 = (rm, s2)" by fastforce
    from keeps_snapshotD [OF assms(3) m 2(3)] obtain t2 where t2: "s_tx s2 = Some t2" "tx_snapshot t2 = s_db s"
      using 2(4) by auto
    show thesis
    proof (cases rm)
      case (Inl e)
      with assms(1) b 2 m t2 have "isl r" "s_db s' = s_db s"
        by (auto simp: in_tx_def tx_do_def with_tx_def bind_def rollback_def)
      with that(1) show thesis by blast
    next
      case (Inr x)
      obtain rc s3 where c: "commit_tx w s2 = (rc, s3)" by fastforce
      have run: "r = (case rc of Inl e \<Rightarrow> Inl (Wrap ''commit'' e) | Inr _ \<Rightarrow> Inr x) \<and> s' = rollback s3"
        using assms(1) b 2(1) m Inr c
        by (cases rc) (simp_all add: in_tx_def tx_do_def with_tx_def bind_def wrap_err_def catch_def throw_def ret_def)
      from c t2(1) show thesis
        by (cases rule: commit_tx_cases)
          (use run t2 that(1) that(2) [OF 2(2,3) m [unfolded Inr]] in \<open>simp_all add: rollback_def\<close>)
    qed
  qed
qed

text \<open>The reserved group stays, and nobody joins it.\<close>

definition guards :: "entity_row \<Rightarrow> database \<Rightarrow> database \<Rightarrow> bool" where
  "guards e d d' \<longleftrightarrow> (reserved e d \<longrightarrow> reserved e d' \<and> members_of d' (en_id e) \<subseteq> members_of d (en_id e))"

lemma guards_props: "reflp (guards e)" "transp (guards e)"
  unfolding guards_def by (rule reflpI, blast, rule transpI, blast)

lemma guardsI:
  assumes "keeps_ok d d'" "db_types d' = db_types d"
    "e \<in> set (db_entities d) \<Longrightarrow> e \<in> set (db_entities d')" "members_of d' (en_id e) \<subseteq> members_of d (en_id e)"
  shows "guards e d d'"
  using assms by (simp add: guards_def reserved_def keeps_ok_def find_type_def)

lemma guards_reads: "s_db s' = s_db s \<Longrightarrow> guards e (s_db s) (s_db s')"
  by (simp add: reflpD [OF guards_props(1)])

lemma guards_Delete:
  assumes "store_Delete k p i w s = (Inr u, s')" "en_id e \<noteq> i"
  shows "guards e (s_db s) (s_db s')"
proof -
  from assms(1) obtain q where "let d1 = (s_db s)\<lparr>db_identities := filter (\<lambda>r. \<not> (ei_entity_id r = i \<and> ei_provider r = p)) (db_identities (s_db s))\<rparr>
     in s_db s' = cascade_delete (if \<exists>r \<in> set (db_identities d1). ei_entity_id r = i then []
          else map en_id (filter (\<lambda>e. visible q (en_system_id e) \<and> en_id e = i) (db_entities (s_db s)))) d1"
    by (rule store_Delete_Inr)
  then obtain ids where d': "s_db s' = cascade_delete ids ((s_db s)\<lparr>db_identities :=
      filter (\<lambda>r. \<not> (ei_entity_id r = i \<and> ei_provider r = p)) (db_identities (s_db s))\<rparr>)" and ids: "set ids \<subseteq> {i}"
    unfolding Let_def by (rule that) (auto split: if_splits)
  show ?thesis
    by (rule guardsI [OF preservingD(1) [OF keeps_ok_store(2) assms(1)]])
      (use ids assms(2) in \<open>auto simp: d' cascade_delete_def members_of_def\<close>)
qed

lemma guards_Update:
  assumes "store_Update k p i props w s = (Inr u, s')" "en_id e \<noteq> i"
  shows "guards e (s_db s) (s_db s')"
proof -
  from assms(1) obtain q where d': "s_db s' = (s_db s)\<lparr>db_entities := map (\<lambda>e. if visible q (en_system_id e) \<and> en_id e = i
         \<and> (\<exists>ty. find_type (s_db s) (rk_type k) = Some ty \<and> en_type_id e = ty_id ty)
         then e\<lparr>en_properties := props, en_updated := u\<rparr> else e) (db_entities (s_db s))\<rparr>"
    by (rule store_Update_Inr)
  show ?thesis
    by (rule guardsI [OF preservingD(1) [OF keeps_ok_store(3) assms(1)]])
      (use assms(2) in \<open>force simp: d' members_of_def\<close>)+
qed

lemma other_members:
  assumes "other_relations d' i = other_relations d i" "g \<noteq> i"
  shows "members_of d' g = members_of d g"
proof -
  have "members_of x g = rl_subject ` {r \<in> set (other_relations x i). member_relation g r}" for x
    using assms(2) by (auto simp: members_of_def other_relations_def member_relation_def)
  with assms(1) show ?thesis by simp
qed

lemma guards_reconcile:
  assumes "reconcileMembers i ids w s = (Inr u, s')" "en_id e \<noteq> i"
  shows "guards e (s_db s) (s_db s')"
proof (rule guardsI [OF preservingD(1) [OF relations_ok(1) assms(1)]])
  have "same_rows (s_db s) (s_db s')" by (rule preservingD(1) [OF reconcile_rows assms(1)])
  then show "db_types (s_db s') = db_types (s_db s)" "e \<in> set (db_entities (s_db s)) \<Longrightarrow> e \<in> set (db_entities (s_db s'))"
    by (simp_all add: same_rows_def)
  show "members_of (s_db s') (en_id e) \<subseteq> members_of (s_db s) (en_id e)"
    using other_members [OF _ assms(2)] reconcile_Inr [OF assms(1)] by blast
qed

lemma guards_audit: "audit_Write a w s = (Inr u, s') \<Longrightarrow> guards e (s_db s) (s_db s')"
  by (rule guardsI [OF preservingD(1) [OF keeps_ok_audit]], assumption) (auto simp: members_of_def dest!: audit_Write_Inr)

lemma check_passed:
  assumes "group_is_builtin i w s = (Inr b, s1)" "s_tx s = Some t" "\<not> b"
    and "\<And>t1. s_tx s1 = Some t1 \<Longrightarrow> tx_aborted t1 \<Longrightarrow> False"
  shows "reserved e (s_db s) \<Longrightarrow> en_id e \<noteq> i"
  using builtin_check [of i w s s1 t] assms by auto

lemma repo_Delete_guards:
  assumes "Groups_repo_Delete p i w s = (Inr u, s')" "s_tx s = Some t"
  shows "guards e (s_db s) (s_db s') \<and> (reserved e (s_db s) \<longrightarrow> en_id e \<noteq> i)"
proof -
  from assms(1) obtain b s1 where b: "group_is_builtin i w s = (Inr b, s1)" "\<not> b"
    and d: "store_Delete group_kind p i w s1 = (Inr u, s')"
    by (auto simp: Groups_repo_Delete_def bind_Inr split: if_splits)
  have "\<not> tx_aborted t1" if "s_tx s1 = Some t1" for t1
    using that d by (auto simp: store_Delete_def bind_Inr dest: exec_not_aborted)
  with check_passed [OF b(1) assms(2) b(2)] have "reserved e (s_db s) \<longrightarrow> en_id e \<noteq> i" by blast
  moreover have "s_db s1 = s_db s" by (rule reads_same_db(2) [OF b(1)])
  ultimately show ?thesis using guards_Delete [OF d, of e] by (auto simp: guards_def)
qed

lemma repo_Replace_guards:
  assumes "Groups_repo_Replace p i props ids w s = (Inr st, s')" "s_tx s = Some t"
  shows "guards e (s_db s) (s_db s') \<and> (reserved e (s_db s) \<longrightarrow> en_id e \<noteq> i)"
proof -
  from assms(1) obtain b s1 where b: "group_is_builtin i w s = (Inr b, s1)" and nb: "\<not> b"
    and "bind (store_Update group_kind p i (marshal_props props)) (\<lambda>updatedAt.
       bind (group_metadata p i) (\<lambda>(createdAt, sub).
       bind (reconcileMembers i ids) (\<lambda>_.
       bind (fetchMembers i) (\<lambda>ms.
       ret \<lparr>sg_EntityID = i, sg_Properties = Some props, sg_ExternalSubject = sub, sg_Members = ms,
            sg_CreatedAt = createdAt, sg_UpdatedAt = updatedAt\<rparr>)))) w s1 = (Inr st, s')"
    unfolding Groups_repo_Replace_def by (auto simp: bind_Inr [of "group_is_builtin i"] split: if_splits)
  then obtain t' s2 m s3 s4 u ms s5 where up: "store_Update group_kind p i (marshal_props props) w s1 = (Inr t', s2)"
    and md: "group_metadata p i w s2 = (Inr m, s3)" and rc: "reconcileMembers i ids w s3 = (Inr u, s4)"
    and fm: "fetchMembers i w s4 = (Inr ms, s5)" and s': "s' = s5"
    by (auto simp: bind_Inr split: prod.splits)
  have "\<not> tx_aborted t1" if "s_tx s1 = Some t1" for t1
    using that up by (auto simp: store_Update_def bind_Inr dest: exec_not_aborted)
  with check_passed [OF b assms(2) nb] have ne: "reserved e (s_db s) \<longrightarrow> en_id e \<noteq> i" by blast
  have dbs: "s_db s' = s_db s4" "s_db s3 = s_db s2" "s_db s1 = s_db s"
    using reads_same_db(1) [OF fm] reads_same_db(3) [OF md] reads_same_db(2) [OF b] s' by simp_all
  have "guards e (s_db s) (s_db s')" if "en_id e \<noteq> i"
    using transpD [OF guards_props(2) guards_Update [OF up that], of "s_db s4"] guards_reconcile [OF rc that]
    by (simp add: dbs)
  with ne show ?thesis by (auto simp: guards_def)
qed

lemma write_body_guards:
  assumes "Groups_write_body p i before props ids w s = (Inr st, s')" "s_tx s = Some t"
  shows "guards e (s_db s) (s_db s') \<and> (reserved e (s_db s) \<longrightarrow> en_id e \<noteq> i)"
proof -
  from assms(1) obtain u s1 s2 v where c: "check_members p ids w s = (Inr u, s1)"
    and r: "Groups_repo_Replace p i props ids w s1 = (Inr st, s2)"
    and a: "audit_Write (scim_audit group_kind p OpUpdate i (Some (marshal_map (sg_Properties before)))
             (Some (marshal_props props))) w s2 = (Inr v, s')"
    by (auto simp: Groups_write_body_def bind_Inr)
  have "preserving same_db (check_members p ids)" by (intro reads_preserve same_db_props)
  from preservingD [OF this c] assms(2) obtain t1 where s1: "s_db s1 = s_db s" "s_tx s1 = Some t1" by (auto simp: same_db_def)
  from repo_Replace_guards [OF r s1(2), of e] transpD [OF guards_props(2) _ guards_audit [OF a, of e]] s1(1)
  show ?thesis by auto
qed

lemma Get_in_tx:
  assumes "Groups_repo_Get p i w s = (Inr b, s1)" "s_tx s = Some t"
  obtains t1 where "s_db s1 = s_db s" "s_tx s1 = Some t1"
proof -
  have "preserving same_db (Groups_repo_Get p i)" by (intro reads_preserve same_db_props)
  from preservingD [OF this assms(1)] assms(2) that show thesis by (auto simp: same_db_def)
qed

lemma group_bodies_guard:
  assumes "s_tx s = Some t"
    and "Groups_replace_body p i g ids w s = (Inr st, s') \<or> Groups_patch_body pf up p i ops w s = (Inr st, s')
       \<or> (\<exists>u. Groups_delete_body p i w s = (Inr u, s'))"
  shows "guards e (s_db s) (s_db s') \<and> (reserved e (s_db s) \<longrightarrow> en_id e \<noteq> i)"
  using assms(2)
proof (elim disjE exE)
  assume "Groups_replace_body p i g ids w s = (Inr st, s')"
  then obtain b s1 where get: "Groups_repo_Get p i w s = (Inr b, s1)"
    and wr: "Groups_write_body p i b (Groups_ToProperties g) ids w s1 = (Inr st, s')"
    by (auto simp: Groups_replace_body_def bind_Inr)
  from get assms(1) obtain t1 where "s_db s1 = s_db s" "s_tx s1 = Some t1" by (rule Get_in_tx)
  with write_body_guards [OF wr, of t1 e] show ?thesis by simp
next
  assume "Groups_patch_body pf up p i ops w s = (Inr st, s')"
  then obtain b s1 n ids' where get: "Groups_repo_Get p i w s = (Inr b, s1)"
    and wr: "Groups_write_body p i b n ids' w s1 = (Inr st, s')"
    by (auto simp: Groups_patch_body_def bind_Inr split: if_splits)
  from get assms(1) obtain t1 where "s_db s1 = s_db s" "s_tx s1 = Some t1" by (rule Get_in_tx)
  with write_body_guards [OF wr, of t1 e] show ?thesis by simp
next
  fix u assume "Groups_delete_body p i w s = (Inr u, s')"
  then obtain b s1 u1 s2 u2 where get: "Groups_repo_Get p i w s = (Inr b, s1)"
    and del: "Groups_repo_Delete p i w s1 = (Inr u1, s2)"
    and a: "audit_Write (scim_audit group_kind p OpDelete i (Some (marshal_map (sg_Properties b))) None) w s2 = (Inr u2, s')"
    by (auto simp: Groups_delete_body_def bind_Inr)
  from get assms(1) obtain t1 where s1: "s_db s1 = s_db s" "s_tx s1 = Some t1" by (rule Get_in_tx)
  from repo_Delete_guards [OF del s1(2), of e] transpD [OF guards_props(2) _ guards_audit [OF a, of e]] s1(1)
  show ?thesis by auto
qed

text \<open>
  C25. C. The reserved groups seeded by the migration cannot be taken over through SCIM: whatever a provider
  asks, and whatever fails on the way, the row of a built-in group stays as it is and gains no member.
  A request that names the group itself is refused.
\<close>

theorem reserved_group_protected:
  assumes "s_tx s = None" "reserved e (s_db s)"
    and "(\<exists>g. Groups_Replace up env p i g w s = (r, s')) \<or> (\<exists>ops. ops \<noteq> [] \<and> Groups_Patch pf up env p i ops w s = (r, s'))
       \<or> (\<exists>r0. Groups_Delete p i w s = (r0, s') \<and> isl r = isl r0)"
  shows "e \<in> set (db_entities (s_db s')) \<and> members_of (s_db s') (en_id e) \<subseteq> members_of (s_db s) (en_id e)
     \<and> (i = en_id e \<longrightarrow> isl r)"
proof -
  have tx: "guards e (s_db s) (s_db s1) \<and> (i = en_id e \<longrightarrow> isl r1)"
    if run: "in_tx m w s = (r1, s1)" and keep: "keeps_snapshot m"
      and body: "\<And>x s2 t s3. s_tx s2 = Some t \<Longrightarrow> m w s2 = (Inr x, s3) \<Longrightarrow>
        guards e (s_db s2) (s_db s3) \<and> (reserved e (s_db s2) \<longrightarrow> en_id e \<noteq> i)"
    for m :: "'x db" and r1 s1
    using run assms(1) keep
  proof (rule tx_body)
    assume "s_db s1 = s_db s" "isl r1"
    then show ?thesis by (simp add: guards_reads)
  next
    fix x s2 t s3
    assume "s_db s2 = s_db s" "s_tx s2 = Some t" "m w s2 = (Inr x, s3)" "s_db s1 = s_db s3" "isl r1 \<or> r1 = Inr x"
    with body [of s2 t x s3] assms(2) show ?thesis by auto
  qed
  have "guards e (s_db s) (s_db s') \<and> (i = en_id e \<longrightarrow> isl r)"
    using assms(3)
  proof (elim disjE exE conjE)
    fix g assume a: "Groups_Replace up env p i g w s = (r, s')"
    show ?thesis
    proof (cases "s' = s \<and> isl r")
      case False
      with a obtain ids r1 where "in_tx (Groups_replace_body p i g ids) w s = (r1, s')" "isl r = isl r1"
        by (auto simp: Groups_Replace_def bind_def throw_def lift_res_def ret_def split: if_splits sum.splits prod.splits)
      with tx [OF _ groups_keep_snapshot(3)] group_bodies_guard show ?thesis by metis
    qed (auto simp: guards_reads)
  next
    fix ops assume a: "ops \<noteq> []" "Groups_Patch pf up env p i ops w s = (r, s')"
    then obtain r1 where "in_tx (Groups_patch_body pf up p i ops) w s = (r1, s')" "isl r = isl r1"
      by (auto simp: Groups_Patch_def bind_def throw_def ret_def split: sum.splits prod.splits)
    with tx [OF _ groups_keep_snapshot(4)] group_bodies_guard show ?thesis by metis
  next
    fix r0 assume a: "Groups_Delete p i w s = (r0, s')" "isl r = isl r0"
    with tx [OF a(1) [unfolded Groups_Delete_def] groups_keep_snapshot(5)] group_bodies_guard show ?thesis by metis
  qed
  with assms(2) show ?thesis by (auto simp: guards_def reserved_def)
qed

text \<open>An installation with a user, a group of the provider \<open>kc\<close> and a built-in group linked to it.\<close>

definition ann_row :: entity_row where
  "ann_row = sample_entity 10 1 ''scim:kc:u1'' (JObj [(''userName'', JStr ''ann'')])"
definition team_row :: entity_row where
  "team_row = sample_entity 11 2 ''scim:kc:g1'' (JObj [(''displayName'', JStr ''team'')])"
definition editor_row :: entity_row where
  "editor_row = (sample_entity 12 2 ''oad:editor'' (JObj []))\<lparr>en_builtin := True\<rparr>"

definition kc_link :: "uuid \<Rightarrow> uuid \<Rightarrow> string \<Rightarrow> identity_row" where
  "kc_link u e sub = \<lparr>ei_id = u, ei_entity_id = e, ei_provider = ''kc'', ei_subject = sub, ei_created = 0, ei_updated = 0\<rparr>"

definition team_db :: database where
  "team_db = \<lparr>db_types = [sample_type 1 ''User'', sample_type 2 ''Group'', sample_type 3 ''System''],
     db_entities = [ann_row, team_row, editor_row],
     db_identities = [kc_link 20 10 ''u1'', kc_link 21 11 ''g1'', kc_link 22 12 ''g2''],
     db_relations = [], db_overlays = [], db_schemas = [], db_webhooks = [], db_audit = [],
     db_deliveries = [], db_retrievals = []\<rparr>"

definition team_sess :: sess where
  "team_sess = \<lparr>s_db = team_db, s_n = 0, s_tx = None\<rparr>"

lemma team_rows [simp]:
  "en_id ann_row = 10" "en_id team_row = 11" "en_id editor_row = 12"
  "en_type_id ann_row = 1" "en_type_id team_row = 2" "en_type_id editor_row = 2"
  "en_properties ann_row = JObj [(''userName'', JStr ''ann'')]" "en_properties team_row = JObj [(''displayName'', JStr ''team'')]"
  "en_properties editor_row = JObj []" "en_builtin ann_row = False" "en_builtin team_row = False" "en_builtin editor_row"
  "en_external_id ann_row = ''scim:kc:u1''" "en_external_id team_row = ''scim:kc:g1''" "en_external_id editor_row = ''oad:editor''"
  "en_system_id ann_row = None" "en_system_id team_row = None" "en_system_id editor_row = None"
  "en_created ann_row = 0" "en_created team_row = 0" "en_created editor_row = 0" "en_updated editor_row = 0" "en_updated team_row = 0"
  by (simp_all add: ann_row_def team_row_def editor_row_def sample_entity_def)

lemma kc_link_simps [simp]:
  "ei_id (kc_link u e sub) = u" "ei_entity_id (kc_link u e sub) = e" "ei_provider (kc_link u e sub) = ''kc''" "ei_subject (kc_link u e sub) = sub"
  by (simp_all add: kc_link_def)

lemma sample_type_simps [simp]: "ty_id (sample_type u n) = u" "ty_name (sample_type u n) = n"
  by (simp_all add: sample_type_def)

lemma team_tables:
  "db_types team_db = [sample_type 1 ''User'', sample_type 2 ''Group'', sample_type 3 ''System'']"
  "db_entities team_db = [ann_row, team_row, editor_row]"
  "db_identities team_db = [kc_link 20 10 ''u1'', kc_link 21 11 ''g1'', kc_link 22 12 ''g2'']"
  "db_relations team_db = []" "db_audit team_db = []"
  by (simp_all add: team_db_def)

lemma team_ok: "db_ok team_db"
  by (simp add: db_ok_def entity_ids_def relation_key_def team_tables)

text \<open>The run of a request on it, statement by statement, inside the transaction.\<close>

definition team_tx :: "database \<Rightarrow> nat \<Rightarrow> sess" where
  "team_tx d n = \<lparr>s_db = d, s_n = n, s_tx = Some \<lparr>tx_snapshot = team_db, tx_now = 0, tx_setting = SetEmpty, tx_aborted = False\<rparr>\<rparr>"

definition team_ctx :: "nat \<Rightarrow> query_ctx" where
  "team_ctx n = \<lparr>q_setting = SetEmpty, q_now = 0, q_uuid = of_nat (100 + n), q_bypass = False, q_render = (\<lambda>_. [])\<rparr>"

lemma team_exec:
  "exec f sample_world (team_tx d n) =
     (case f (team_ctx n) d of
        Inl e \<Rightarrow> (Inl (Db e), (team_tx d (Suc n))\<lparr>s_tx := Some \<lparr>tx_snapshot = team_db, tx_now = 0, tx_setting = SetEmpty, tx_aborted = True\<rparr>\<rparr>)
      | Inr (x, d') \<Rightarrow> (Inr x, team_tx d' (Suc n)))"
  by (simp add: exec_def team_tx_def team_ctx_def sample_world_def split: sum.splits)

lemma team_visible [simp]: "visible (team_ctx n) sys"
  by (simp add: visible_def team_ctx_def)

lemma team_entities [simp]: "entities (team_ctx n) d = db_entities d" "relations (team_ctx n) d = db_relations d"
  by (simp_all add: entities_def relations_def team_visible)

lemma team_in_tx:
  "in_tx m sample_world team_sess =
     (case m sample_world (team_tx team_db 1) of
        (Inl e, s') \<Rightarrow> (Inl e, rollback s')
      | (Inr x, s') \<Rightarrow> (case commit_tx sample_world s' of
            (Inl e, s'') \<Rightarrow> (Inl (Wrap ''commit'' e), rollback s'') | (Inr _, s'') \<Rightarrow> (Inr x, rollback s'')))"
  by (simp add: in_tx_def tx_do_def with_tx_def begin_tx_def db_simps wrap_err_def team_sess_def team_tx_def sample_world_def
      split: sum.splits prod.splits)

lemma team_linked:
  "linked_entities (team_ctx n) ''User'' ''kc'' team_db = [(ann_row, kc_link 20 10 ''u1'')]"
  "linked_entities (team_ctx n) ''Group'' ''kc'' team_db = [(team_row, kc_link 21 11 ''g1''), (editor_row, kc_link 22 12 ''g2'')]"
  "find_type team_db ''Group'' = Some (sample_type 2 ''Group'')"
  by (simp_all add: linked_entities_def has_type_def find_type_def team_tables)

lemma team_get:
  "Groups_repo_Get ''kc'' 12 sample_world (team_tx team_db n) =
     (Inr \<lparr>sg_EntityID = 12, sg_Properties = Some [], sg_ExternalSubject = ''g2'', sg_Members = [], sg_CreatedAt = 0, sg_UpdatedAt = 0\<rparr>,
      team_tx team_db (Suc (Suc n)))"
  by (simp add: Groups_repo_Get_def store_Get_def query_row_def scan_row_def query_def db_simps team_exec group_kind_def team_linked
      decode_row_def unmarshal_props_def row_of_def fetchMembers_def fetch_rows_def wrap_err_def group_of_row_def team_tables decode_members_def)

lemma team_builtin:
  "group_is_builtin 12 sample_world (team_tx team_db n) = (Inr True, team_tx team_db (Suc n))"
  by (simp add: group_is_builtin_def query_row_def scan_row_def query_def db_simps team_exec team_linked team_tables)

lemma reserved_delete_run:
  "\<exists>s'. Groups_Delete ''kc'' 12 sample_world team_sess = (Inl (GroupsE Groups_ErrBuiltinGroup), s')"
  by (simp add: Groups_Delete_def team_in_tx team_get Groups_delete_body_def Groups_repo_Delete_def team_builtin db_simps)

theorem reserved_group_protected_witness:
  "\<exists>s' e. Groups_Delete ''kc'' 12 sample_world team_sess = (Inl (GroupsE Groups_ErrBuiltinGroup), s')
     \<and> en_id e = 12 \<and> en_builtin e \<and> e \<in> set (db_entities (s_db s'))"
proof -
  from reserved_delete_run obtain s' where run: "Groups_Delete ''kc'' 12 sample_world team_sess = (Inl (GroupsE Groups_ErrBuiltinGroup), s')"
    by blast
  have tx: "s_tx team_sess = None" by (simp add: team_sess_def)
  have res: "reserved editor_row (s_db team_sess)" using team_ok by (simp add: reserved_def team_linked team_tables team_sess_def)
  have "isl (Inl (GroupsE Groups_ErrBuiltinGroup) :: scim_group res) = isl (Inl (GroupsE Groups_ErrBuiltinGroup) :: unit res)" by simp
  with run have "\<exists>r0. Groups_Delete ''kc'' 12 sample_world team_sess = (r0, s')
     \<and> isl (Inl (GroupsE Groups_ErrBuiltinGroup) :: scim_group res) = isl r0" by (intro exI conjI)
  note rule = reserved_group_protected [where up = "\<lambda>_. None" and env = sample_render and pf = "\<lambda>_. None :: nat option",
      OF tx res disjI2 [OF disjI2 [OF this]]]
  have "editor_row \<in> set (db_entities (s_db s'))" by (rule rule [THEN conjunct1])
  with run show ?thesis by (intro exI [of _ s'] exI [of _ editor_row]) simp
qed

text \<open>A PUT that names the user as the only member of the group.\<close>

definition squad :: scim_group where
  "squad = \<lparr>gr_Schemas = [], gr_ID = [], gr_ExternalID = [], gr_DisplayName = ''squad'',
     gr_Members = [\<lparr>gm_Value = ''ann'', gm_Ref = [], gm_Type = [], gm_Display = []\<rparr>], gr_Meta = None\<rparr>"

abbreviation squad_up :: "string \<Rightarrow> uuid option" where
  "squad_up \<equiv> (\<lambda>_. Some 10)"

definition squad_row :: entity_row where
  "squad_row = team_row\<lparr>en_properties := JObj (Groups_ToProperties squad)\<rparr>"

definition squad_db :: "relation_row list \<Rightarrow> database" where
  "squad_db rs = team_db\<lparr>db_entities := [ann_row, squad_row, editor_row], db_relations := rs\<rparr>"

definition squad_member :: "nat \<Rightarrow> relation_row" where
  "squad_member n = \<lparr>rl_id = of_nat (100 + n), rl_subject = 10, rl_type = ''member_of'', rl_target = 11, rl_system = None, rl_created = 0\<rparr>"

lemma squad_tables:
  "db_types (squad_db rs) = db_types team_db" "db_entities (squad_db rs) = [ann_row, squad_row, editor_row]"
  "db_identities (squad_db rs) = db_identities team_db" "db_relations (squad_db rs) = rs"
  "en_id squad_row = 11" "en_created squad_row = 0" "en_type_id squad_row = 2"
  "(squad_db rs)\<lparr>db_relations := rs'\<rparr> = squad_db rs'" "db_audit (squad_db rs) = []" "find_type (squad_db rs) ''Group'' = Some (sample_type 2 ''Group'')"
  by (simp_all add: squad_db_def squad_row_def find_type_def team_tables)

lemma squad_get:
  "\<exists>b. Groups_repo_Get ''kc'' 11 sample_world (team_tx team_db n) = (Inr b, team_tx team_db (Suc (Suc n)))"
  by (simp add: Groups_repo_Get_def store_Get_def query_row_def scan_row_def query_def db_simps team_exec group_kind_def team_linked
      decode_row_def unmarshal_props_def row_of_def fetchMembers_def fetch_rows_def wrap_err_def group_of_row_def team_tables decode_members_def)

lemma squad_check:
  "check_members ''kc'' [10] sample_world (team_tx team_db n) = (Inr (), team_tx team_db (Suc n))"
  "group_is_builtin 11 sample_world (team_tx team_db n) = (Inr False, team_tx team_db (Suc n))"
  by (simp_all add: check_members_def ValidateMembers_def wrap_err_def query_def db_simps team_exec team_linked
      group_is_builtin_def query_row_def scan_row_def team_tables)

lemma squad_update:
  "store_Update group_kind ''kc'' 11 (marshal_props (Groups_ToProperties squad)) sample_world (team_tx team_db n)
     = (Inr 0, team_tx (squad_db []) (Suc n))"
proof -
  have "team_db\<lparr>db_entities := [ann_row, team_row\<lparr>en_properties := JObj (Groups_ToProperties squad), en_updated := 0\<rparr>, editor_row]\<rparr> = squad_db []"
    by (simp add: squad_db_def squad_row_def team_row_def sample_entity_def team_db_def)
  then show ?thesis
    by (simp add: store_Update_def scan_row_def db_simps team_exec update_entities_def Let_def group_kind_def team_linked team_tables marshal_props_def)
      (simp add: team_ctx_def)
qed

lemma squad_rest:
  "group_metadata ''kc'' 11 sample_world (team_tx (squad_db []) n) = (Inr (0, ''g1''), team_tx (squad_db []) (Suc n))"
  "reconcileMembers 11 [10] sample_world (team_tx (squad_db []) n) = (Inr (), team_tx (squad_db [squad_member (Suc n)]) (Suc (Suc n)))"
  "fetchMembers 11 sample_world (team_tx (squad_db [squad_member m]) n)
     = (Inr [\<lparr>mb_EntityID = 10, mb_Type = ''User'', mb_Display = []\<rparr>], team_tx (squad_db [squad_member m]) (Suc n))"
  "audit_Write (scim_audit group_kind p OpUpdate i b a) sample_world (team_tx (squad_db [r]) n)
     = (Inr (), team_tx ((squad_db [r])\<lparr>db_audit := [audit_row_of (scim_audit group_kind p OpUpdate i b a) (team_ctx n)]\<rparr>) (Suc n))"
  by (simp_all add: group_metadata_def reconcileMembers_def insert_member_def insert_relation_def wrap_err_def query_def query_row_def
      scan_row_def db_simps team_exec squad_tables team_tables Let_def system_check_def squad_member_def fetchMembers_def
      audit_Write_def insert_audit_def scim_audit_def OpUpdate_def fetch_rows_def member_relation_def jsonb_text_def jsonb_get_def)
    (simp_all add: team_ctx_def)

lemma squad_run:
  "\<exists>g s'. Groups_Replace squad_up sample_render ''kc'' 11 squad sample_world team_sess = (Inr g, s')"
proof -
  from squad_get [of "Suc 0"] obtain b where b: "Groups_repo_Get ''kc'' 11 sample_world (team_tx team_db (Suc 0)) = (Inr b, team_tx team_db (Suc (Suc (Suc 0))))" ..
  have "\<exists>st d n. Groups_replace_body ''kc'' 11 squad [10] sample_world (team_tx team_db (Suc 0)) = (Inr st, team_tx d n)"
    by (simp add: Groups_replace_body_def Groups_write_body_def Groups_repo_Replace_def not_found_again_def db_simps b squad_check squad_update squad_rest) blast
  then obtain st d n where "Groups_replace_body ''kc'' 11 squad [10] sample_world (team_tx team_db (Suc 0)) = (Inr st, team_tx d n)" by blast
  moreover have "commit_tx sample_world (team_tx d n) = (Inr (), (team_tx d (Suc n))\<lparr>s_tx := None\<rparr>)"
    by (simp add: commit_tx_def team_tx_def sample_world_def)
  ultimately show ?thesis
    by (simp add: Groups_Replace_def squad_def parseMemberIDs_def db_simps team_in_tx)
qed


subsection \<open>Requests of a provider\<close>

text \<open>One value for each endpoint under \<open>/scim/v2\<close> that reaches a service.\<close>

datatype scim_request =
    UserCreate scim_user | UserReplace uuid scim_user | UserPatch uuid "patch_op list" | UserDelete uuid
  | UserGet uuid | UserList string int int
  | GroupCreate scim_group | GroupReplace uuid scim_group | GroupPatch uuid "patch_op list" | GroupDelete uuid
  | GroupGet uuid | GroupList string int int

record 'f scim_env =
  sv_where :: "'f pg_where"
  sv_float :: "string \<Rightarrow> 'f option"
  sv_uuid :: "string \<Rightarrow> uuid option"
  sv_render :: render_env

fun scim_serve :: "'f scim_env \<Rightarrow> string \<Rightarrow> scim_request \<Rightarrow> unit db" where
  "scim_serve v p (UserCreate u) = quietly (Users_Create (sv_render v) p u)"
| "scim_serve v p (UserReplace i u) = quietly (Users_Replace (sv_render v) p i u)"
| "scim_serve v p (UserPatch i ops) = quietly (Users_Patch (sv_float v) (sv_render v) p i ops)"
| "scim_serve v p (UserDelete i) = quietly (Users_Delete p i)"
| "scim_serve v p (UserGet i) = quietly (Users_GetByEntityID (sv_render v) p i)"
| "scim_serve v p (UserList f off lim) = quietly (Users_List (sv_where v) (sv_float v) (sv_render v) p f off lim)"
| "scim_serve v p (GroupCreate g) = quietly (Groups_Create (sv_uuid v) (sv_render v) p g)"
| "scim_serve v p (GroupReplace i g) = quietly (Groups_Replace (sv_uuid v) (sv_render v) p i g)"
| "scim_serve v p (GroupPatch i ops) = quietly (Groups_Patch (sv_float v) (sv_uuid v) (sv_render v) p i ops)"
| "scim_serve v p (GroupDelete i) = quietly (Groups_Delete p i)"
| "scim_serve v p (GroupGet i) = quietly (Groups_GetByEntityID (sv_render v) p i)"
| "scim_serve v p (GroupList f off lim) = quietly (Groups_List (sv_where v) (sv_float v) (sv_render v) p f off lim)"

text \<open>A run of requests; a failing one does not stop the others.\<close>

fun scim_run :: "'f scim_env \<Rightarrow> string \<Rightarrow> scim_request list \<Rightarrow> world \<Rightarrow> sess \<Rightarrow> sess" where
  "scim_run v p [] w s = s"
| "scim_run v p (r # rs) w s = scim_run v p rs w (snd (scim_serve v p r w s))"

lemma safe_tx: "keeps_snapshot m \<Longrightarrow> ensures R m \<Longrightarrow> reflp R \<Longrightarrow> safe R (in_tx m)"
  unfolding safe_def in_tx_def using tx_do_ensures by (metis prod.collapse)

lemma bodies_tenant:
  "ensures (keeps_tenant p e) (Users_create_body p u)" "ensures (keeps_tenant p e) (Users_write_body p i b props)"
  "ensures (keeps_tenant p e) (Users_delete_body p i)" "ensures (keeps_tenant p e) (Groups_create_body p g ids)"
  "ensures (keeps_tenant p e) (Groups_write_body p i gb props ids)" "ensures (keeps_tenant p e) (Groups_delete_body p i)"
  unfolding users_bodies Groups_create_body_def Groups_write_body_def Groups_delete_body_def Let_def
  by (intro db_intros preserving_ensures [where m = "check_members _ _"] preserving_ensures [where m = "Groups_repo_Get _ _"]
      ensures_again [unfolded not_found_again_def])+

lemma serve_safe:
  fixes v :: "'f scim_env"
  assumes R: "reflp R" "transp R"
    and u: "\<And>u. ensures R (Users_create_body p u)" "\<And>i b n. ensures R (Users_write_body p i b n)" "\<And>i. ensures R (Users_delete_body p i)"
    and g: "\<And>g ids. ensures R (Groups_create_body p g ids)" "\<And>i b n ids. ensures R (Groups_write_body p i b n ids)"
      "\<And>i. ensures R (Groups_delete_body p i)"
  shows "safe R (scim_serve v p r)"
proof -
  have reads: "ensures R (store_Get k p i)" "ensures R (Groups_repo_Get p i)" for k i
    by (rule preserving_ensures, rule preserving_Get reads_preserve, rule R, rule R)+
  have w: "ensures R (Users_replace_body p i n)" "ensures R (Users_patch_body pf p i ops)"
    "ensures R (Groups_replace_body p i gr ids)" "ensures R (Groups_patch_body pf up p i ops)"
    for i n gr ids ops and pf :: "string \<Rightarrow> 'f option" and up
    unfolding Users_replace_body_def Users_patch_body_def Groups_replace_body_def Groups_patch_body_def
    by (intro ensures_bind R reads ensures_simple u g)+
  note tx = safe_tx [OF users_keep_snapshot(1) u(1) R(1)] safe_tx [OF users_keep_snapshot(3) w(1) R(1)]
    safe_tx [OF users_keep_snapshot(4) w(2) R(1)] safe_tx [OF users_keep_snapshot(5) u(3) R(1)]
    safe_tx [OF groups_keep_snapshot(1) g(1) R(1)] safe_tx [OF groups_keep_snapshot(3) w(3) R(1)]
    safe_tx [OF groups_keep_snapshot(4) w(4) R(1)] safe_tx [OF groups_keep_snapshot(5) g(3) R(1)]
  have get: "safe R (store_Get k p i)" "safe R (Groups_repo_Get p i)" "safe R (store_List pw k p sql args off lim)"
    for k i sql args off lim and pw :: "'f pg_where"
    by (rule safe_read [OF _ R(1)], intro db_intros reads_preserve; assumption)+
  show ?thesis
    by (cases r; simp only: scim_serve.simps quietly_def Users_Create_def Users_Replace_def Users_Patch_def Users_Delete_def
        Users_GetByEntityID_def Users_List_def Groups_Create_def Groups_Replace_def Groups_Patch_def Groups_Delete_def
        Groups_GetByEntityID_def Groups_List_def Groups_repo_List_def split_def)
      (intro safe_bind R safe_simple tx get)+
qed

lemma bodies_ok:
  "ensures keeps_ok (Users_create_body p u)" "ensures keeps_ok (Users_write_body p i b props)"
  "ensures keeps_ok (Users_delete_body p i)" "ensures keeps_ok (Groups_create_body p g ids)"
  "ensures keeps_ok (Groups_write_body p i gb props ids)" "ensures keeps_ok (Groups_delete_body p i)"
  unfolding users_bodies Groups_create_body_def Groups_write_body_def Groups_delete_body_def Let_def
  by (rule preserving_ensures; intro db_intros)+

definition same_types :: "database \<Rightarrow> database \<Rightarrow> bool" where
  "same_types d d' \<longleftrightarrow> db_types d' = db_types d"

lemma same_types_props [db_intros]: "reflp same_types" "transp same_types"
  by (auto simp: same_types_def intro!: reflpI transpI)

lemma same_types_statements [db_intros]:
  "preserving same_types (exec (insert_entity_of_type tname ext props))" "preserving same_types (exec (update_entities P f))"
  "preserving same_types (exec (insert_identity eid provider sub))" "preserving same_types (exec (delete_identities Q))"
  "preserving same_types (exec (insert_relation subj rtype tgt sys))" "preserving same_types (exec (delete_relations L))"
  "preserving same_types (exec (delete_entities S))" "preserving same_types (exec (insert_audit a))"
  by (rule preserving_exec; auto simp: same_types_def insert_entity_def insert_entity_of_type_def update_entities_def insert_identity_def
      delete_identities_def insert_relation_def delete_relations_def delete_entities_def insert_audit_def pg_error_def
      cascade_delete_def Let_def intro: reflpI split: if_splits option.splits sum.splits)+

lemma bodies_types:
  "ensures same_types (Users_create_body p u)" "ensures same_types (Users_write_body p i b props)"
  "ensures same_types (Users_delete_body p i)" "ensures same_types (Groups_create_body p g ids)"
  "ensures same_types (Groups_write_body p i gb props ids)" "ensures same_types (Groups_delete_body p i)"
  unfolding users_bodies Groups_create_body_def Groups_write_body_def Groups_delete_body_def Groups_repo_Create_def
    Groups_repo_Delete_def Groups_repo_Replace_def reconcileMembers_def insert_member_def store_Create_def store_Update_def
    store_Delete_def audit_Write_def Let_def split_def
  by (rule preserving_ensures; intro db_intros)+

lemmas serve_keeps = serve_safe [OF keeps_tenant_props bodies_tenant] serve_safe [OF keeps_ok_props bodies_ok]
  serve_safe [OF same_types_props bodies_types]

lemma run_keeps:
  assumes "s_tx s = None"
  shows "s_tx (scim_run v p rs w s) = None \<and> keeps_tenant p e (s_db s) (s_db (scim_run v p rs w s))
     \<and> keeps_ok (s_db s) (s_db (scim_run v p rs w s)) \<and> same_types (s_db s) (s_db (scim_run v p rs w s))"
  using assms
proof (induction rs arbitrary: s)
  case Nil
  then show ?case
    by (simp add: reflpD [OF keeps_tenant_props(1)] reflpD [OF keeps_ok_props(1)] reflpD [OF same_types_props(1)])
next
  case (Cons r rs)
  let ?s = "snd (scim_serve v p r w s)"
  have 1: "s_tx ?s = None" "keeps_tenant p e (s_db s) (s_db ?s)" "keeps_ok (s_db s) (s_db ?s)" "same_types (s_db s) (s_db ?s)"
    using safeD [OF serve_keeps(1) Cons.prems] safeD [OF serve_keeps(2) Cons.prems] safeD [OF serve_keeps(3) Cons.prems] by blast+
  from Cons.IH [OF 1(1)] 1 show ?case
    by (auto elim: transpE [OF keeps_tenant_props(2)] transpE [OF keeps_ok_props(2)] transpE [OF same_types_props(2)])
qed

text \<open>What a provider reads depends on its own links and on the entities they lead to.\<close>

lemma tenant_row_first:
  assumes "distinct (map en_id (db_entities d))"
  shows "tenant_row q tn p i d =
    (case find (\<lambda>e. en_id e = i) (db_entities d) of
       None \<Rightarrow> None
     | Some e \<Rightarrow> if visible q (en_system_id e) \<and> has_type d tn e
               then map_option (Pair e) (find (\<lambda>j. ei_entity_id j = i \<and> ei_provider j = p) (db_identities d)) else None)"
proof -
  have gen: "find (\<lambda>(e, _). en_id e = i) (concat (map (\<lambda>e. map (Pair e) (filter (\<lambda>j. ei_entity_id j = en_id e \<and> ei_provider j = p) js)) (filter P es)))
    = (case find (\<lambda>e. en_id e = i) es of None \<Rightarrow> None
       | Some e \<Rightarrow> if P e then map_option (Pair e) (find (\<lambda>j. ei_entity_id j = i \<and> ei_provider j = p) js) else None)"
    if "distinct (map en_id es)" for es and P :: "entity_row \<Rightarrow> bool" and js :: "identity_row list"
    using that
  proof (induction es)
    case (Cons a es)
    have skip: "find (\<lambda>(e, _). en_id e = i) (map (Pair a) xs @ ys) = find (\<lambda>(e, _). en_id e = i) ys" if "en_id a \<noteq> i"
      for xs :: "identity_row list" and ys
      using that by (induction xs) auto
    have first: "find (\<lambda>(e, _). en_id e = i) (map (Pair a) (filter Q js) @ ys) = map_option (Pair a) (find Q js)"
      if "en_id a = i" "find (\<lambda>(e, _). en_id e = i) ys = None" for Q ys
      using that by (induction js) auto
    have none: "find (\<lambda>(e, _). en_id e = en_id a) (concat (map (\<lambda>e. map (Pair e) (filter (\<lambda>j. ei_entity_id j = en_id e \<and> ei_provider j = p) js)) (filter P es))) = None"
      using Cons.prems by (auto simp: find_None_iff) (metis imageI)
    show ?case
      using Cons skip first none by (cases "en_id a = i") auto
  qed simp
  have "linked_entities q tn p d = concat (map (\<lambda>e. map (Pair e) (filter (\<lambda>j. ei_entity_id j = en_id e \<and> ei_provider j = p) (db_identities d)))
      (filter (\<lambda>e. visible q (en_system_id e) \<and> has_type d tn e) (db_entities d)))"
    by (simp add: linked_entities_def entities_def conj_commute)
  with gen [OF assms] show ?thesis by (simp only: tenant_row_def)
qed

lemma find_filter_same:
  "filter Q xs = filter Q ys \<Longrightarrow> (\<And>x. P x \<Longrightarrow> Q x) \<Longrightarrow> find P xs = find P ys"
proof -
  have "find P zs = find P (filter Q zs)" if "\<And>x. P x \<Longrightarrow> Q x" for zs
    using that by (induction zs) auto
  then show "filter Q xs = filter Q ys \<Longrightarrow> (\<And>x. P x \<Longrightarrow> Q x) \<Longrightarrow> find P xs = find P ys" by metis
qed

lemma tenant_row_other:
  assumes k: "\<And>e. keeps_tenant p e d d'" and ok: "db_ok d" "db_ok d'" and types: "db_types d' = db_types d"
    and i: "\<not> owned_by p i d" "q' \<noteq> p"
  shows "tenant_row q tn q' i d' = tenant_row q tn q' i d"
proof -
  have dist: "distinct (map en_id (db_entities x))" if "db_ok x" for x using that by (simp add: db_ok_def)
  have links: "find (\<lambda>j. ei_entity_id j = i \<and> ei_provider j = q') (db_identities d')
      = find (\<lambda>j. ei_entity_id j = i \<and> ei_provider j = q') (db_identities d)"
    using k i(2) by (intro find_filter_same [where Q = "\<lambda>j. ei_provider j \<noteq> p"]) (auto simp: keeps_tenant_def)
  have ht: "has_type d' tn = has_type d tn" by (simp add: has_type_def types fun_eq_iff)
  show ?thesis
  proof (cases "find (\<lambda>j. ei_entity_id j = i \<and> ei_provider j = q') (db_identities d)")
    case None
    then show ?thesis by (simp add: tenant_row_first dist ok links split: option.splits)
  next
    case (Some j)
    then have "j \<in> set (db_identities d)" "ei_entity_id j = i" by (auto dest: find_SomeD)
    with ok(1) have "i \<in> entity_ids d" by (auto simp: db_ok_def)
    then obtain e where e: "e \<in> set (db_entities d)" "en_id e = i" by (auto simp: entity_ids_def)
    with k [of e] i(1) have e': "e \<in> set (db_entities d')" by (simp add: keeps_tenant_def)
    have "find (\<lambda>x. en_id x = i) (db_entities d) = Some e" "find (\<lambda>x. en_id x = i) (db_entities d') = Some e"
      using find_unique [OF dist [OF ok(1)] e(1), of "\<lambda>x. en_id x = i"] find_unique [OF dist [OF ok(2)] e', of "\<lambda>x. en_id x = i"] e(2)
      by simp_all
    then show ?thesis by (simp add: tenant_row_first dist ok links ht)
  qed
qed


text \<open>The user of the sample, linked to another provider.\<close>

definition shared_sess :: sess where
  "shared_sess = \<lparr>s_db = team_db\<lparr>db_identities := [kc_link 21 11 ''g1'', (kc_link 20 10 ''u1'')\<lparr>ei_provider := ''ad''\<rparr>]\<rparr>, s_n = 0, s_tx = None\<rparr>"

definition sample_env :: "nat scim_env" where
  "sample_env = \<lparr>sv_where = (\<lambda>_ _ _ _. Inr True), sv_float = (\<lambda>_. None), sv_uuid = (\<lambda>_. None), sv_render = sample_render\<rparr>"


subsection \<open>One audit record per change\<close>

text \<open>What a request does to the log: the operation, the kind of resource and the resource it names.\<close>

fun request_log :: "scim_request \<Rightarrow> (string \<times> string \<times> uuid option) option" where
  "request_log (UserCreate u) = Some (OpCreate, ''user'', None)"
| "request_log (UserReplace i u) = Some (OpUpdate, ''user'', Some i)"
| "request_log (UserPatch i ops) = (if ops = [] then None else Some (OpUpdate, ''user'', Some i))"
| "request_log (UserDelete i) = Some (OpDelete, ''user'', Some i)"
| "request_log (GroupCreate g) = Some (OpCreate, ''group'', None)"
| "request_log (GroupReplace i g) = Some (OpUpdate, ''group'', Some i)"
| "request_log (GroupPatch i ops) = (if ops = [] then None else Some (OpUpdate, ''group'', Some i))"
| "request_log (GroupDelete i) = Some (OpDelete, ''group'', Some i)"
| "request_log _ = None"

definition logged :: "string \<Rightarrow> string \<times> string \<times> uuid option \<Rightarrow> audit_row \<Rightarrow> bool" where
  "logged p l row \<longleftrightarrow> (case l of (op, noun, i) \<Rightarrow>
     au_actor row = ''scim:'' @ p \<and> au_operation row = op \<and> au_resource_type row = noun \<and> (\<forall>j. i = Some j \<longrightarrow> au_resource_id row = j)
     \<and> au_system row = None \<and> (au_before row = None \<longleftrightarrow> op = OpCreate) \<and> (au_after row = None \<longleftrightarrow> op = OpDelete))"

lemma atomic_tx:
  assumes "keeps_snapshot m" "audits Q m" "\<And>n. \<not> w_indoubt w n" "\<And>x row. Q x row \<Longrightarrow> P row"
  shows "atomic w P (in_tx m)"
proof -
  have a: "audited m Q" by unfold_locales (rule assms)+
  show ?thesis unfolding atomic_def
  proof (intro allI impI)
    fix s :: sess assume s: "s_tx s = None"
    obtain r s' where run: "in_tx m w s = (r, s')" by fastforce
    note aon = audited.all_or_nothing [OF a run [unfolded in_tx_def] s]
    show "case in_tx m w s of (Inl e, s') \<Rightarrow> s_db s' = s_db s
      | (Inr x, s') \<Rightarrow> \<exists>row. db_audit (s_db s') = db_audit (s_db s) @ [row] \<and> P row"
      using aon(1,2) assms(3,4) by (cases r) (fastforce simp: run)+
  qed
qed

lemma serve_atomic:
  assumes "request_log r = Some l" "\<And>n. \<not> w_indoubt w n"
  shows "atomic w (logged p l) (scim_serve v p r)"
proof -
  note logs = scim_logged_def logged_def user_kind_def group_kind_def op_neq OpCreate_def OpUpdate_def OpDelete_def
  note tx = atomic_tx [OF users_keep_snapshot(1) users_create_audits assms(2)] atomic_tx [OF users_keep_snapshot(3) users_replace_audits assms(2)]
    atomic_tx [OF users_keep_snapshot(4) users_patch_audits assms(2)] atomic_tx [OF users_keep_snapshot(5) users_delete_audits assms(2)]
    atomic_tx [OF groups_keep_snapshot(1) groups_create_audits assms(2)] atomic_tx [OF groups_keep_snapshot(3) groups_replace_audits assms(2)]
    atomic_tx [OF groups_keep_snapshot(4) groups_patch_audits assms(2)] atomic_tx [OF groups_keep_snapshot(5) groups_delete_audits assms(2)]
  note rules = atomic_if atomic_throw atomic_then atomic_lift tx
  have "atomic w (logged p (OpCreate, ''user'', None)) (Users_Create (sv_render v) p u)" for u
    unfolding Users_Create_def by (intro rules) (auto simp: logs)
  moreover have "atomic w (logged p (OpUpdate, ''user'', Some i)) (Users_Replace (sv_render v) p i u)" for i u
    unfolding Users_Replace_def by (intro rules) (auto simp: logs)
  moreover have "atomic w (logged p (OpUpdate, ''user'', Some i)) (Users_Patch (sv_float v) (sv_render v) p i ops)" if "ops \<noteq> []" for i ops
    unfolding Users_Patch_def if_not_P [OF that] by (intro rules) (auto simp: logs)
  moreover have "atomic w (logged p (OpDelete, ''user'', Some i)) (Users_Delete p i)" for i
    unfolding Users_Delete_def by (intro rules) (auto simp: logs)
  moreover have "atomic w (logged p (OpCreate, ''group'', None)) (Groups_Create (sv_uuid v) (sv_render v) p g)" for g
    unfolding Groups_Create_def by (intro rules) (auto simp: logs)
  moreover have "atomic w (logged p (OpUpdate, ''group'', Some i)) (Groups_Replace (sv_uuid v) (sv_render v) p i g)" for i g
    unfolding Groups_Replace_def by (intro rules) (auto simp: logs)
  moreover have "atomic w (logged p (OpUpdate, ''group'', Some i)) (Groups_Patch (sv_float v) (sv_uuid v) (sv_render v) p i ops)"
    if "ops \<noteq> []" for i ops
    unfolding Groups_Patch_def if_not_P [OF that] by (intro rules) (auto simp: logs)
  moreover have "atomic w (logged p (OpDelete, ''group'', Some i)) (Groups_Delete p i)" for i
    unfolding Groups_Delete_def by (intro rules) (auto simp: logs)
  ultimately show ?thesis
    using assms(1) by (cases r) (auto intro: atomic_quietly split: if_splits)
qed

lemma serve_reads:
  assumes "request_log r = None"
  shows "preserving same_db (scim_serve v p r)"
proof -
  have get: "preserving same_db (store_Get k p i)" "preserving same_db (Groups_repo_Get p i)"
    "preserving same_db (store_List pw k p sql args off lim)"
    for k i sql args off lim and pw :: "'a pg_where"
    by (intro db_intros reads_preserve same_db_props)+
  show ?thesis
    using assms
    by (cases r; simp add: quietly_def Users_Patch_def Groups_Patch_def split: if_splits;
        simp only: Users_GetByEntityID_def Users_List_def Groups_GetByEntityID_def Groups_List_def Groups_repo_List_def split_def)
      (intro db_intros same_db_props get)+
qed

lemma scim_effect:
  assumes "s_tx s = None" "\<And>n. \<not> w_indoubt w n" "scim_serve v p r w s = (out, s')" "s_db s' \<noteq> s_db s"
  shows "\<exists>row l. out = Inr () \<and> db_audit (s_db s') = db_audit (s_db s) @ [row] \<and> logged p l row"
proof (cases "request_log r")
  case None
  from preservingD(1) [OF serve_reads [OF None] assms(3)] assms(4) show ?thesis by (simp add: same_db_def)
next
  case (Some l)
  from atomicD [OF serve_atomic [OF this assms(2)] assms(1,3)] assms(4) show ?thesis
    by (cases out) (auto simp del: split_paired_Ex)
qed



end
