(* ===== verification/Config.thy ===== *)
theory Config
  imports Go_Json
begin

section \<open>The configuration (\<open>internal/config\<close>)\<close>

text \<open>
  What the server runs with, from the command line, the environment, the configuration file and built-in
  defaults, in this order of precedence. The environment is the map \<open>os.Getenv\<close> reads, where an unset
  variable is empty; \<open>time.ParseDuration\<close> and what the YAML library reads from a file are parameters.
  \<open>/config.json\<close>, which shows a part of the configuration to the browser, is at the end.
\<close>

subsection \<open>The records\<close>

record provider_backend =
  pb_JWKSURL :: string
  pb_Issuer :: string
  pb_Audience :: string

record provider_webui =
  pw_Authority :: string
  pw_ClientID :: string
  pw_Scope :: string

record provider_scim =
  ps_Enabled :: bool
  ps_Token :: string

record provider_config =
  pc_Name :: string
  pc_DisplayName :: string
  pc_Backend :: provider_backend
  pc_WebUI :: provider_webui
  pc_SCIM :: provider_scim

record bootstrap_admin =
  ba_Provider :: string
  ba_Subject :: string

record server_config =
  srv_Addr :: string
  srv_ShutdownTimeout :: duration

record database_config =
  dbc_URL :: string
  dbc_MaxConns :: int
  dbc_MinConns :: int

record auth_config =
  acf_Mode :: string
  acf_MTLSHeader :: string
  acf_Providers :: "provider_config list"
  acf_BootstrapAdmins :: "bootstrap_admin list"
  acf_IdentityCacheTTL :: duration
  acf_IdentityCacheSize :: int

record webui_config =
  wc_RedirectURI :: string
  wc_PostLogoutURI :: string

record log_config =
  lg_Level :: string
  lg_Format :: string

record config =
  cf_Server :: server_config
  cf_Database :: database_config
  cf_Auth :: auth_config
  cf_WebUI :: webui_config
  cf_Log :: log_config

record cli_options =
  cl_ConfigFile :: string
  cl_Database :: string
  cl_Addr :: string
  cl_AuthMode :: string
  cl_ShutdownTimeout :: string
  cl_LogLevel :: string
  cl_LogFormat :: string

text \<open>The configuration file as the YAML library decodes it; absent members are zero.\<close>

record claims_mapping =
  cm_RolesClaim :: string
  cm_SystemIDClaim :: string
  cm_DefaultRoles :: "string list"

record file_provider =
  fp_Name :: string
  fp_DisplayName :: string
  fp_Backend :: provider_backend
  fp_ClaimsMapping :: claims_mapping
  fp_WebUI :: provider_webui
  fp_SCIM :: provider_scim

record file_config =
  fc_Server :: server_config
  fc_Database :: database_config
  fc_Mode :: string
  fc_MTLSHeader :: string
  fc_Providers :: "file_provider list"
  fc_BootstrapAdmins :: "bootstrap_admin list"
  fc_WebUI :: webui_config
  fc_Log :: log_config

subsection \<open>The environment\<close>

type_synonym os_env = "string \<Rightarrow> string"

definition copyLegacyEnv :: "string \<Rightarrow> string \<Rightarrow> os_env \<Rightarrow> os_env" where
  "copyLegacyEnv oldName newName env =
     (if env oldName \<noteq> [] \<and> env newName = [] then env(newName := env oldName) else env)"

definition copyLegacyEnvComma :: "string \<Rightarrow> string \<Rightarrow> os_env \<Rightarrow> os_env" where
  "copyLegacyEnvComma oldName newName env =
     (if env oldName \<noteq> [] \<and> env newName = []
      then env(newName := TrimSpace (takeWhile (\<lambda>c. c \<noteq> CHR '','') (env oldName))) else env)"

definition legacy_addr :: "os_env \<Rightarrow> os_env" where
  "legacy_addr env =
     (let host = env ''SERVER_HOST''; port = env ''SERVER_PORT'' in
      if env ''OAD_ADDR'' = [] \<and> (host \<noteq> [] \<or> port \<noteq> [])
      then env(''OAD_ADDR'' := (if host = [] then ''0.0.0.0'' else host) @ '':'' @ (if port = [] then ''8080'' else port))
      else env)"

definition warnDeprecated :: "os_env \<Rightarrow> os_env" where
  "warnDeprecated = copyLegacyEnv ''JWT_AUDIENCE'' ''OAD_JWT_AUDIENCE''
     \<circ> copyLegacyEnvComma ''JWT_ISSUER'' ''OAD_JWT_ISSUER'' \<circ> copyLegacyEnvComma ''JWKS_URL'' ''OAD_JWKS_URL''
     \<circ> legacy_addr
     \<circ> copyLegacyEnv ''DB_MIN_CONNS'' ''OAD_DB_MIN_CONNS'' \<circ> copyLegacyEnv ''DB_MAX_CONNS'' ''OAD_DB_MAX_CONNS''
     \<circ> copyLegacyEnv ''SERVER_SHUTDOWN_TIMEOUT'' ''OAD_SHUTDOWN_TIMEOUT'' \<circ> copyLegacyEnv ''MTLS_HEADER'' ''OAD_MTLS_HEADER''
     \<circ> copyLegacyEnv ''AUTH_MODE'' ''OAD_AUTH_MODE'' \<circ> copyLegacyEnv ''DATABASE_URL'' ''OAD_DATABASE''"

definition resolveSecretRef :: "os_env \<Rightarrow> string \<Rightarrow> string" where
  "resolveSecretRef env raw = (case CutPrefix raw ''env:'' of Some name \<Rightarrow> env name | None \<Rightarrow> raw)"

subsection \<open>Setting a member\<close>

definition setIfNonEmpty :: "((string \<Rightarrow> string) \<Rightarrow> 'c \<Rightarrow> 'c) \<Rightarrow> string \<Rightarrow> 'c \<Rightarrow> 'c" where
  "setIfNonEmpty dst val c = (if val \<noteq> [] then dst (\<lambda>_. val) c else c)"

definition set_if_nonzero :: "((int \<Rightarrow> int) \<Rightarrow> 'c \<Rightarrow> 'c) \<Rightarrow> int \<Rightarrow> 'c \<Rightarrow> 'c" where
  "set_if_nonzero dst val c = (if val \<noteq> 0 then dst (\<lambda>_. val) c else c)"

definition set_if_parsed :: "((int \<Rightarrow> int) \<Rightarrow> 'c \<Rightarrow> 'c) \<Rightarrow> (string \<Rightarrow> int option) \<Rightarrow> string \<Rightarrow> 'c \<Rightarrow> 'c" where
  "set_if_parsed dst parse val c =
     (if val \<noteq> [] then (case parse val of None \<Rightarrow> c | Some x \<Rightarrow> dst (\<lambda>_. x) c) else c)"

text \<open>\<open>strconv.ParseInt(v, 10, 32)\<close>, and \<open>strconv.Atoi\<close> where the code also asks for a positive number.\<close>

definition ParseInt32 :: "string \<Rightarrow> int option" where
  "ParseInt32 s = (case Atoi s of None \<Rightarrow> None | Some n \<Rightarrow> if - (2 ^ 31) \<le> n \<and> n < 2 ^ 31 then Some n else None)"

definition positive_Atoi :: "string \<Rightarrow> int option" where
  "positive_Atoi s = (case Atoi s of None \<Rightarrow> None | Some n \<Rightarrow> if 0 < n then Some n else None)"

subsection \<open>The layers\<close>

definition empty_provider :: "string \<Rightarrow> provider_config" where
  "empty_provider name = \<lparr>pc_Name = name, pc_DisplayName = [], pc_Backend = \<lparr>pb_JWKSURL = [], pb_Issuer = [], pb_Audience = []\<rparr>,
     pc_WebUI = \<lparr>pw_Authority = [], pw_ClientID = [], pw_Scope = []\<rparr>, pc_SCIM = \<lparr>ps_Enabled = False, ps_Token = []\<rparr>\<rparr>"

definition applyDefaults :: config where
  "applyDefaults =
     \<lparr>cf_Server = \<lparr>srv_Addr = '':8080'', srv_ShutdownTimeout = 30 * second\<rparr>,
      cf_Database = \<lparr>dbc_URL = [], dbc_MaxConns = 25, dbc_MinConns = 5\<rparr>,
      cf_Auth = \<lparr>acf_Mode = ''jwt'', acf_MTLSHeader = ''X-Client-Cert'', acf_Providers = [], acf_BootstrapAdmins = [],
        acf_IdentityCacheTTL = 30 * second, acf_IdentityCacheSize = 10000\<rparr>,
      cf_WebUI = \<lparr>wc_RedirectURI = [], wc_PostLogoutURI = []\<rparr>,
      cf_Log = \<lparr>lg_Level = ''info'', lg_Format = ''json''\<rparr>\<rparr>"

definition obsolete_claims :: "file_provider \<Rightarrow> bool" where
  "obsolete_claims fp \<longleftrightarrow> cm_RolesClaim (fp_ClaimsMapping fp) \<noteq> [] \<or> cm_SystemIDClaim (fp_ClaimsMapping fp) \<noteq> []
     \<or> cm_DefaultRoles (fp_ClaimsMapping fp) \<noteq> []"

definition obsolete_error :: "nat \<Rightarrow> string \<Rightarrow> goerr" where
  "obsolete_error i name = Text (''provider['' @ show_nat i @ ''] '' @ Quote name @ '': '' @ squoted ''claims_mapping''
     @ '' is obsolete '' @ [CHR 0xE2, CHR 0x80, CHR 0x94] @ '' roles and system access are resolved ''
     @ ''from the entity/relation graph. Remove '' @ squoted ''claims_mapping'' @ '' from your config'')"

definition provider_of_file :: "os_env \<Rightarrow> file_provider \<Rightarrow> provider_config" where
  "provider_of_file env fp = \<lparr>pc_Name = fp_Name fp, pc_DisplayName = fp_DisplayName fp, pc_Backend = fp_Backend fp,
     pc_WebUI = fp_WebUI fp,
     pc_SCIM = \<lparr>ps_Enabled = ps_Enabled (fp_SCIM fp), ps_Token = resolveSecretRef env (ps_Token (fp_SCIM fp))\<rparr>\<rparr>"

fun applyFileProviders :: "os_env \<Rightarrow> nat \<Rightarrow> file_provider list \<Rightarrow> config \<Rightarrow> config res" where
  "applyFileProviders env i [] cfg = Inr cfg"
| "applyFileProviders env i (fp # fps) cfg =
     (if obsolete_claims fp then Inl (obsolete_error i (fp_Name fp))
      else applyFileProviders env (Suc i) fps
        ((cf_Auth_update \<circ> acf_Providers_update) (\<lambda>ps. ps @ [provider_of_file env fp]) cfg))"

definition applyFile :: "os_env \<Rightarrow> file_config \<Rightarrow> config \<Rightarrow> config res" where
  "applyFile env fc cfg0 =
     (let cfg1 = setIfNonEmpty (cf_Server_update \<circ> srv_Addr_update) (srv_Addr (fc_Server fc)) cfg0;
          cfg2 = set_if_nonzero (cf_Server_update \<circ> srv_ShutdownTimeout_update) (srv_ShutdownTimeout (fc_Server fc)) cfg1;
          cfg3 = setIfNonEmpty (cf_Database_update \<circ> dbc_URL_update) (dbc_URL (fc_Database fc)) cfg2;
          cfg4 = set_if_nonzero (cf_Database_update \<circ> dbc_MaxConns_update) (dbc_MaxConns (fc_Database fc)) cfg3;
          cfg5 = set_if_nonzero (cf_Database_update \<circ> dbc_MinConns_update) (dbc_MinConns (fc_Database fc)) cfg4;
          cfg6 = setIfNonEmpty (cf_Auth_update \<circ> acf_Mode_update) (fc_Mode fc) cfg5;
          cfg7 = setIfNonEmpty (cf_Auth_update \<circ> acf_MTLSHeader_update) (fc_MTLSHeader fc) cfg6
      in case applyFileProviders env 0 (fc_Providers fc) cfg7 of
        Inl e \<Rightarrow> Inl e
      | Inr cfg8 \<Rightarrow>
         (let cfg9 = (cf_Auth_update \<circ> acf_BootstrapAdmins_update) (\<lambda>bs. bs @ fc_BootstrapAdmins fc) cfg8;
              cfg10 = setIfNonEmpty (cf_WebUI_update \<circ> wc_RedirectURI_update) (wc_RedirectURI (fc_WebUI fc)) cfg9;
              cfg11 = setIfNonEmpty (cf_WebUI_update \<circ> wc_PostLogoutURI_update) (wc_PostLogoutURI (fc_WebUI fc)) cfg10;
              cfg12 = setIfNonEmpty (cf_Log_update \<circ> lg_Level_update) (lg_Level (fc_Log fc)) cfg11
          in Inr (setIfNonEmpty (cf_Log_update \<circ> lg_Format_update) (lg_Format (fc_Log fc)) cfg12)))"

definition applyServerEnv :: "(string \<Rightarrow> duration option) \<Rightarrow> os_env \<Rightarrow> config \<Rightarrow> config" where
  "applyServerEnv pd env =
     set_if_parsed (cf_Server_update \<circ> srv_ShutdownTimeout_update) pd (env ''OAD_SHUTDOWN_TIMEOUT'')
     \<circ> setIfNonEmpty (cf_Server_update \<circ> srv_Addr_update) (env ''OAD_ADDR'')"

definition applyDatabaseEnv :: "os_env \<Rightarrow> config \<Rightarrow> config" where
  "applyDatabaseEnv env =
     set_if_parsed (cf_Database_update \<circ> dbc_MinConns_update) ParseInt32 (env ''OAD_DB_MIN_CONNS'')
     \<circ> set_if_parsed (cf_Database_update \<circ> dbc_MaxConns_update) ParseInt32 (env ''OAD_DB_MAX_CONNS'')
     \<circ> setIfNonEmpty (cf_Database_update \<circ> dbc_URL_update) (env ''OAD_DATABASE'')"

definition applyAuthEnv :: "(string \<Rightarrow> duration option) \<Rightarrow> os_env \<Rightarrow> config \<Rightarrow> config" where
  "applyAuthEnv pd env =
     set_if_parsed (cf_Auth_update \<circ> acf_IdentityCacheSize_update) positive_Atoi (env ''OAD_IDENTITY_CACHE_SIZE'')
     \<circ> set_if_parsed (cf_Auth_update \<circ> acf_IdentityCacheTTL_update) pd (env ''OAD_IDENTITY_CACHE_TTL'')
     \<circ> setIfNonEmpty (cf_Auth_update \<circ> acf_MTLSHeader_update) (env ''OAD_MTLS_HEADER'')
     \<circ> setIfNonEmpty (cf_Auth_update \<circ> acf_Mode_update) (env ''OAD_AUTH_MODE'')"

definition applyLogEnv :: "os_env \<Rightarrow> config \<Rightarrow> config" where
  "applyLogEnv env =
     setIfNonEmpty (cf_Log_update \<circ> lg_Format_update) (env ''OAD_LOG_FORMAT'')
     \<circ> setIfNonEmpty (cf_Log_update \<circ> lg_Level_update) (env ''OAD_LOG_LEVEL'')"

definition anyNonEmpty :: "string list \<Rightarrow> bool" where
  "anyNonEmpty values = list_ex (\<lambda>v. v \<noteq> []) values"

definition flat_provider :: "os_env \<Rightarrow> provider_config \<Rightarrow> provider_config" where
  "flat_provider env =
     setIfNonEmpty (pc_WebUI_update \<circ> pw_Scope_update) (env ''OAD_PROVIDER_SCOPE'')
     \<circ> setIfNonEmpty (pc_WebUI_update \<circ> pw_ClientID_update) (env ''OAD_PROVIDER_CLIENT_ID'')
     \<circ> setIfNonEmpty (pc_WebUI_update \<circ> pw_Authority_update) (env ''OAD_PROVIDER_AUTHORITY'')
     \<circ> setIfNonEmpty (pc_Backend_update \<circ> pb_Audience_update) (env ''OAD_JWT_AUDIENCE'')
     \<circ> setIfNonEmpty (pc_Backend_update \<circ> pb_Issuer_update) (env ''OAD_JWT_ISSUER'')
     \<circ> setIfNonEmpty (pc_Backend_update \<circ> pb_JWKSURL_update) (env ''OAD_JWKS_URL'')
     \<circ> setIfNonEmpty pc_DisplayName_update (env ''OAD_PROVIDER_DISPLAY_NAME'')
     \<circ> setIfNonEmpty pc_Name_update (env ''OAD_PROVIDER_NAME'')"

definition flat_names :: "string list" where
  "flat_names = [''OAD_PROVIDER_NAME'', ''OAD_PROVIDER_DISPLAY_NAME'', ''OAD_JWKS_URL'', ''OAD_JWT_ISSUER'', ''OAD_JWT_AUDIENCE'',
     ''OAD_PROVIDER_AUTHORITY'', ''OAD_PROVIDER_CLIENT_ID'', ''OAD_PROVIDER_SCOPE'']"

definition applyFlatProviderEnv :: "os_env \<Rightarrow> config \<Rightarrow> config" where
  "applyFlatProviderEnv env cfg =
     (if \<not> anyNonEmpty (map env flat_names) then cfg
      else case acf_Providers (cf_Auth cfg) of
        [] \<Rightarrow> (cf_Auth_update \<circ> acf_Providers_update) (\<lambda>_. [flat_provider env (empty_provider ''default'')]) cfg
      | p # ps \<Rightarrow> (cf_Auth_update \<circ> acf_Providers_update) (\<lambda>_. flat_provider env p # ps) cfg)"

definition applyWebUIEnv :: "os_env \<Rightarrow> config \<Rightarrow> config" where
  "applyWebUIEnv env =
     setIfNonEmpty (cf_WebUI_update \<circ> wc_PostLogoutURI_update) (env ''OAD_WEBUI_POST_LOGOUT_URI'')
     \<circ> setIfNonEmpty (cf_WebUI_update \<circ> wc_RedirectURI_update) (env ''OAD_WEBUI_REDIRECT_URI'')"

definition applyEnv :: "(string \<Rightarrow> duration option) \<Rightarrow> os_env \<Rightarrow> config \<Rightarrow> config" where
  "applyEnv pd env = applyWebUIEnv env \<circ> applyFlatProviderEnv env \<circ> applyLogEnv env \<circ> applyAuthEnv pd env
     \<circ> applyDatabaseEnv env \<circ> applyServerEnv pd env"

definition applyFlags :: "(string \<Rightarrow> duration option) \<Rightarrow> cli_options \<Rightarrow> config \<Rightarrow> config" where
  "applyFlags pd opts =
     setIfNonEmpty (cf_Log_update \<circ> lg_Format_update) (cl_LogFormat opts)
     \<circ> setIfNonEmpty (cf_Log_update \<circ> lg_Level_update) (cl_LogLevel opts)
     \<circ> set_if_parsed (cf_Server_update \<circ> srv_ShutdownTimeout_update) pd (cl_ShutdownTimeout opts)
     \<circ> setIfNonEmpty (cf_Auth_update \<circ> acf_Mode_update) (cl_AuthMode opts)
     \<circ> setIfNonEmpty (cf_Server_update \<circ> srv_Addr_update) (cl_Addr opts)
     \<circ> setIfNonEmpty (cf_Database_update \<circ> dbc_URL_update) (cl_Database opts)"

subsection \<open>Validation\<close>

definition provider_error :: "nat \<Rightarrow> provider_config \<Rightarrow> string \<Rightarrow> goerr" where
  "provider_error i p member = Text (''provider['' @ show_nat i @ ''] '' @ Quote (pc_Name p) @ '': backend.'' @ member @ '' is required'')"

fun validate_providers :: "nat \<Rightarrow> provider_config list \<Rightarrow> goerr option" where
  "validate_providers i [] = None"
| "validate_providers i (p # ps) =
     (if pb_JWKSURL (pc_Backend p) = [] then Some (provider_error i p ''jwks_url'')
      else if pb_Issuer (pc_Backend p) = [] then Some (provider_error i p ''issuer'')
      else if pb_Audience (pc_Backend p) = [] then Some (provider_error i p ''audience'')
      else validate_providers (Suc i) ps)"

definition validate_log :: "config \<Rightarrow> goerr option" where
  "validate_log cfg =
     (let logFormat = lg_Format (cf_Log cfg) in
      if logFormat \<noteq> ''json'' \<and> logFormat \<noteq> ''text''
      then Some (Text (''invalid log format '' @ Quote logFormat @ '': must be json or text'')) else None)"

definition validate :: "config \<Rightarrow> goerr option" where
  "validate cfg =
     (let mode = acf_Mode (cf_Auth cfg); providers = acf_Providers (cf_Auth cfg) in
      if dbc_URL (cf_Database cfg) = []
      then Some (Text ''database DSN is required (--database, OAD_DATABASE, or database.dsn in config file)'')
      else if mode \<noteq> ''jwt'' \<and> mode \<noteq> ''mtls'' \<and> mode \<noteq> ''both'' \<and> mode \<noteq> ''none''
      then Some (Text (''invalid auth mode '' @ Quote mode @ '': must be jwt, mtls, both, or none''))
      else if mode = ''jwt'' \<or> mode = ''both'' then
        (if providers = []
         then Some (Text (''auth mode '' @ Quote mode
                @ '' requires at least one provider (configure via YAML auth.providers or OAD_JWKS_URL/OAD_JWT_ISSUER/OAD_JWT_AUDIENCE)''))
         else case validate_providers 0 providers of Some e \<Rightarrow> Some e | None \<Rightarrow> validate_log cfg)
      else validate_log cfg)"

text \<open>
  \<open>Load\<close> for a file reader \<open>loadFile\<close>. The code returns the configuration beside the error of
  \<open>validate\<close>; its callers look at the error first. The environment changes for the whole process.
\<close>

definition load_with :: "(string \<Rightarrow> duration option) \<Rightarrow> cli_options \<Rightarrow> os_env \<Rightarrow> config \<Rightarrow> config res" where
  "load_with pd opts env cfg =
     (let cfg' = applyFlags pd opts (applyEnv pd env cfg) in case validate cfg' of None \<Rightarrow> Inr cfg' | Some e \<Rightarrow> Inl e)"

definition load :: "(string \<Rightarrow> duration option) \<Rightarrow> (string \<Rightarrow> file_config res) \<Rightarrow> cli_options \<Rightarrow> os_env \<Rightarrow> config res \<times> os_env" where
  "load pd loadFile opts env =
     (case (if cl_ConfigFile opts \<noteq> [] then map_sum id Some (loadFile (cl_ConfigFile opts)) else Inr None) of
        Inl e \<Rightarrow> (Inl e, env)
      | Inr file \<Rightarrow>
         (let env' = warnDeprecated env in
          ((case file of
              None \<Rightarrow> load_with pd opts env' applyDefaults
            | Some fc \<Rightarrow> (case applyFile env' fc applyDefaults of Inl e \<Rightarrow> Inl e | Inr cfg \<Rightarrow> load_with pd opts env' cfg)), env')))"

subsection \<open>\<open>/config.json\<close> (\<open>internal/api/handler/configjson.go\<close>)\<close>

definition provider_json :: "provider_config \<Rightarrow> json" where
  "provider_json p = JObj [(''name'', JStr (pc_Name p)), (''display_name'', JStr (pc_DisplayName p)),
     (''authority'', JStr (pw_Authority (pc_WebUI p))), (''client_id'', JStr (pw_ClientID (pc_WebUI p))),
     (''scope'', JStr (pw_Scope (pc_WebUI p)))]"

definition config_json :: "config \<Rightarrow> json" where
  "config_json cfg = JObj [(''providers'', JArr (map provider_json (acf_Providers (cf_Auth cfg)))),
     (''redirect_uri'', JStr (wc_RedirectURI (cf_WebUI cfg))), (''post_logout_uri'', JStr (wc_PostLogoutURI (cf_WebUI cfg)))]"

end
