(* ===== verification/Scim_Auth.thy ===== *)
theory Scim_Auth
  imports Config Identity
begin

section \<open>The tenants of the SCIM endpoints (\<open>internal/scim/auth\<close>)\<close>

text \<open>
  Each provider with SCIM enabled has a bearer token. The registry holds the provider and the SHA-256 of
  the token; the middleware admits a request whose token has a registered hash and gives the handlers the
  provider's name. The registry is built at the start from the configuration (\<open>cmd/oad/cmd/run.go\<close>).
  SHA-256 is a parameter. The comparison in constant time is an equality.
\<close>

record tenant =
  tn_provider :: string
  tn_hash :: string

type_synonym registry = "tenant list"

definition Register :: "(string \<Rightarrow> string) \<Rightarrow> string \<Rightarrow> string \<Rightarrow> registry \<Rightarrow> registry res" where
  "Register sha provider token reg =
     (if provider = [] then Inl (ScimAuthE ErrEmptyProvider)
      else if token = [] then Inl (ScimAuthE ErrEmptyToken)
      else if list_ex (\<lambda>e. sha token = tn_hash e) reg then Inl (ScimAuthE ErrDuplicateToken)
      else Inr (reg @ [\<lparr>tn_provider = provider, tn_hash = sha token\<rparr>]))"

definition Lookup_token :: "(string \<Rightarrow> string) \<Rightarrow> string \<Rightarrow> registry \<Rightarrow> string option" where
  "Lookup_token sha token reg =
     (if token = [] then None else map_option tn_provider (find (\<lambda>e. sha token = tn_hash e) reg))"

definition registers :: "provider_config \<Rightarrow> bool" where
  "registers p \<longleftrightarrow> ps_Enabled (pc_SCIM p) \<and> ps_Token (pc_SCIM p) \<noteq> []"

fun register_tenants :: "(string \<Rightarrow> string) \<Rightarrow> provider_config list \<Rightarrow> registry \<Rightarrow> registry res" where
  "register_tenants sha [] reg = Inr reg"
| "register_tenants sha (p # ps) reg =
     (if \<not> ps_Enabled (pc_SCIM p) then register_tenants sha ps reg
      else if ps_Token (pc_SCIM p) = [] then register_tenants sha ps reg
      else case Register sha (pc_Name p) (ps_Token (pc_SCIM p)) reg of
        Inl e \<Rightarrow> Inl (Wrap (''registering SCIM token for provider '' @ Quote (pc_Name p)) e)
      | Inr reg' \<Rightarrow> register_tenants sha ps reg')"

definition buildSCIMRegistry :: "(string \<Rightarrow> string) \<Rightarrow> provider_config list \<Rightarrow> registry res" where
  "buildSCIMRegistry sha providers = register_tenants sha providers []"

subsection \<open>Responses\<close>

text \<open>An error response of the SCIM endpoints: the status, the type of the error and its text.\<close>

datatype scim_error = ScimError (scim_status: int) (scim_type: string) (scim_detail: "msg list")

definition invalidAuth :: "string \<Rightarrow> scim_error" where
  "invalidAuth detail = ScimError 401 ''invalidAuth'' [Lit detail]"

definition scim_Authenticate :: "(string \<Rightarrow> string) \<Rightarrow> registry \<Rightarrow> string \<Rightarrow> scim_error + string" where
  "scim_Authenticate sha reg authHeader =
     (case CutPrefix authHeader ''Bearer '' of
        None \<Rightarrow> Inl (invalidAuth (''missing or malformed Authorization header; expected '' @ squoted ''Bearer <token>''))
      | Some token \<Rightarrow>
          (case Lookup_token sha token reg of
             None \<Rightarrow> Inl (invalidAuth ''bearer token not recognized'')
           | Some provider \<Rightarrow> Inr provider))"

text \<open>\<open>ProviderFromContext\<close>: an empty name counts as none.\<close>

definition ProviderFromContext :: "string option \<Rightarrow> string option" where
  "ProviderFromContext ctx = (case ctx of None \<Rightarrow> None | Some v \<Rightarrow> if v \<noteq> [] then Some v else None)"

subsection \<open>The registry holds the tenants of the configuration\<close>

definition tenant_of :: "(string \<Rightarrow> string) \<Rightarrow> provider_config \<Rightarrow> tenant" where
  "tenant_of sha p = \<lparr>tn_provider = pc_Name p, tn_hash = sha (ps_Token (pc_SCIM p))\<rparr>"

lemma register_tenants_Inr:
  "register_tenants sha ps reg = Inr reg' \<Longrightarrow> distinct (map tn_hash reg) \<Longrightarrow>
     reg' = reg @ map (tenant_of sha) (filter registers ps) \<and> distinct (map tn_hash reg')
     \<and> list_all (\<lambda>p. pc_Name p \<noteq> []) (filter registers ps)"
proof (induction ps arbitrary: reg)
  case (Cons p ps)
  show ?case
  proof (cases "registers p")
    case False
    with Cons show ?thesis by (simp add: registers_def split: if_splits)
  next
    case True
    then obtain reg1 where r: "Register sha (pc_Name p) (ps_Token (pc_SCIM p)) reg = Inr reg1"
      and rest: "register_tenants sha ps reg1 = Inr reg'"
      using Cons.prems(1) by (auto simp: registers_def split: sum.splits)
    from r have reg1: "reg1 = reg @ [tenant_of sha p]" "pc_Name p \<noteq> []" "\<not> list_ex (\<lambda>e. sha (ps_Token (pc_SCIM p)) = tn_hash e) reg"
      by (auto simp: Register_def tenant_of_def split: if_splits)
    with Cons.prems(2) have "distinct (map tn_hash reg1)" by (auto simp: tenant_of_def list_ex_iff)
    note IH = Cons.IH [OF rest this]
    show ?thesis
    proof (intro conjI)
      show "reg' = reg @ map (tenant_of sha) (filter registers (p # ps))" using IH True reg1 by simp
      show "distinct (map tn_hash reg')" using IH by blast
      show "list_all (\<lambda>p. pc_Name p \<noteq> []) (filter registers (p # ps))" using IH reg1 by simp
    qed
  qed
qed simp

lemma Lookup_token_Some:
  "distinct (map tn_hash reg) \<Longrightarrow>
   Lookup_token sha token reg = Some name \<longleftrightarrow> token \<noteq> [] \<and> (\<exists>e \<in> set reg. tn_hash e = sha token \<and> tn_provider e = name)"
proof (induction reg)
  case (Cons e reg)
  then show ?case by (auto simp: Lookup_token_def split: if_splits) (metis image_eqI)+
qed (simp add: Lookup_token_def)

lemma admission:
  assumes "buildSCIMRegistry sha ps = Inr reg"
  shows "(scim_Authenticate sha reg header = Inr name \<longleftrightarrow>
      (\<exists>token p. header = ''Bearer '' @ token \<and> token \<noteq> [] \<and> p \<in> set (filter registers ps)
         \<and> sha (ps_Token (pc_SCIM p)) = sha token \<and> pc_Name p = name))
    \<and> list_all (\<lambda>p. pc_Name p \<noteq> []) (filter registers ps)
    \<and> distinct (map (\<lambda>p. sha (ps_Token (pc_SCIM p))) (filter registers ps))"
proof -
  have "distinct (map tn_hash [])" by simp
  note r = register_tenants_Inr [OF assms [unfolded buildSCIMRegistry_def] this]
  then have reg: "reg = map (tenant_of sha) (filter registers ps)" and n: "list_all (\<lambda>p. pc_Name p \<noteq> []) (filter registers ps)"
    by simp_all
  from r have d: "distinct (map tn_hash reg)" by blast
  have "map tn_hash reg = map (\<lambda>p. sha (ps_Token (pc_SCIM p))) (filter registers ps)" by (simp add: reg tenant_of_def)
  moreover have "scim_Authenticate sha reg header = Inr name \<longleftrightarrow>
      (\<exists>token. header = ''Bearer '' @ token \<and> Lookup_token sha token reg = Some name)"
  proof (cases "CutPrefix header ''Bearer ''")
    case None
    then have "header \<noteq> ''Bearer '' @ token" for token by (metis CutPrefix_append option.distinct(1))
    with None show ?thesis by (simp add: scim_Authenticate_def)
  next
    case (Some t)
    then have "header = ''Bearer '' @ t" by (simp only: CutPrefix_Some)
    with Some show ?thesis by (auto simp: scim_Authenticate_def split: option.splits)
  qed
  moreover have "Lookup_token sha token reg = Some name \<longleftrightarrow>
      token \<noteq> [] \<and> (\<exists>p \<in> set (filter registers ps). sha (ps_Token (pc_SCIM p)) = sha token \<and> pc_Name p = name)" for token
    unfolding Lookup_token_Some [OF d] by (auto simp: reg tenant_of_def)
  ultimately show ?thesis using d n by auto
qed

lemma scim_tenant_registered:
  assumes "buildSCIMRegistry sha ps = Inr reg" "scim_Authenticate sha reg header = Inr name"
  shows "\<exists>token p. header = ''Bearer '' @ token \<and> token \<noteq> [] \<and> p \<in> set (filter registers ps)
    \<and> sha (ps_Token (pc_SCIM p)) = sha token \<and> pc_Name p = name \<and> name \<noteq> []"
proof -
  from admission [OF assms(1)] assms(2) obtain token p where t: "header = ''Bearer '' @ token" "token \<noteq> []"
    "p \<in> set (filter registers ps)" "sha (ps_Token (pc_SCIM p)) = sha token" "pc_Name p = name" by blast
  moreover from admission [OF assms(1)] t(3) have "pc_Name p \<noteq> []" by (simp add: list_all_iff)
  ultimately show ?thesis by blast
qed

text \<open>
  C37. The middleware admits exactly the tenants. With a registry built from the configured providers, a
  request gets the name of a provider exactly if its header is a bearer token, not empty, whose SHA-256 is
  that of the token of this enabled provider; the name is not empty, and no two enabled providers share a
  hash, so that a token stands for one of them.
\<close>

theorem scim_tenant_admission:
  assumes "buildSCIMRegistry sha ps = Inr reg"
  shows "(scim_Authenticate sha reg header = Inr name \<longleftrightarrow>
      (\<exists>token p. header = ''Bearer '' @ token \<and> token \<noteq> [] \<and> p \<in> set (filter registers ps)
         \<and> sha (ps_Token (pc_SCIM p)) = sha token \<and> pc_Name p = name))
    \<and> list_all (\<lambda>p. pc_Name p \<noteq> []) (filter registers ps)
    \<and> distinct (map (\<lambda>p. sha (ps_Token (pc_SCIM p))) (filter registers ps))"
  by (rule admission [OF assms])

definition two_tenants :: "provider_config list" where
  "two_tenants = [(empty_provider ''kc'')\<lparr>pc_SCIM := \<lparr>ps_Enabled = True, ps_Token = ''t1''\<rparr>\<rparr>,
     (empty_provider ''old'')\<lparr>pc_SCIM := \<lparr>ps_Enabled = False, ps_Token = ''t1''\<rparr>\<rparr>,
     (empty_provider ''okta'')\<lparr>pc_SCIM := \<lparr>ps_Enabled = True, ps_Token = ''t2''\<rparr>\<rparr>]"

theorem scim_tenant_admission_witness:
  "\<exists>reg. buildSCIMRegistry id two_tenants = Inr reg \<and> scim_Authenticate id reg ''Bearer t2'' = Inr ''okta''"
proof -
  have "buildSCIMRegistry id two_tenants = Inr [\<lparr>tn_provider = ''kc'', tn_hash = ''t1''\<rparr>, \<lparr>tn_provider = ''okta'', tn_hash = ''t2''\<rparr>]"
    by (simp add: buildSCIMRegistry_def two_tenants_def Register_def empty_provider_def)
  then obtain reg where reg: "buildSCIMRegistry id two_tenants = Inr reg" by blast
  have "scim_Authenticate id reg ''Bearer t2'' = Inr ''okta''"
    by (intro scim_tenant_admission [OF reg, THEN conjunct1, THEN iffD2] exI [of _ "''t2''"]
        exI [of _ "(empty_provider ''okta'')\<lparr>pc_SCIM := \<lparr>ps_Enabled = True, ps_Token = ''t2''\<rparr>\<rparr>"])
      (simp add: two_tenants_def registers_def empty_provider_def)
  with reg show ?thesis by blast
qed

end
