(* ===== verification/Scim_Discovery.thy ===== *)
theory Scim_Discovery
  imports Scim_Groups
begin

section \<open>The discovery documents of the SCIM endpoints\<close>

text \<open>
  What a client may ask before it sends requests (\<open>internal/scim/schema\<close> and the handlers of
  \<open>internal/scim/handler/discovery.go\<close>): the capabilities of the provider, the attributes of users and
  groups, and the endpoints of the two resources. At the end, the JSON object of a user and of a group, by
  the tags of their structs.
\<close>

subsection \<open>Schemas and resource types\<close>

datatype attribute = Attribute (at_Name: string) (at_Type: string) (at_MultiValued: bool) (at_Required: bool)
  (at_CaseExact: bool) (at_Mutability: string) (at_Returned: string) (at_Uniqueness: string) (at_Description: string)
  (at_SubAttributes: "attribute list")

record resource_meta =
  rm_ResourceType :: string
  rm_Location :: string

record scim_schema =
  sx_Schemas :: "string list"
  sx_ID :: string
  sx_Name :: string
  sx_Description :: string
  sx_Attributes :: "attribute list"
  sx_Meta :: resource_meta

record resource_type =
  rt_Schemas :: "string list"
  rt_ID :: string
  rt_Name :: string
  rt_Endpoint :: string
  rt_Description :: string
  rt_Schema :: string
  rt_Meta :: resource_meta

definition SchemaURN :: string where "SchemaURN = ''urn:ietf:params:scim:schemas:core:2.0:Schema''"
definition ResourceTypeURN :: string where "ResourceTypeURN = ''urn:ietf:params:scim:schemas:core:2.0:ResourceType''"

definition User_schema :: scim_schema where
  "User_schema =
     \<lparr>sx_Schemas = [SchemaURN], sx_ID = UserSchemaURN, sx_Name = ''User'', sx_Description = ''User Account'',
      sx_Attributes =
        [Attribute ''userName'' ''string'' False True False ''readWrite'' ''default'' ''server''
           ''Unique identifier for the user, typically an email address or login name.'' [],
         Attribute ''displayName'' ''string'' False False False ''readWrite'' ''default'' ''none''
           ''Human-readable display name.'' [],
         Attribute ''active'' ''boolean'' False False False ''readWrite'' ''default'' []
           ''Whether the user is active. Inactive users are denied authentication.'' [],
         Attribute ''emails'' ''complex'' True False False ''readWrite'' ''default'' []
           ''Email addresses for the user. The first entry with primary=true is persisted.''
           [Attribute ''value'' ''string'' False False False ''readWrite'' ''default'' ''none'' [] [],
            Attribute ''primary'' ''boolean'' False False False ''readWrite'' ''default'' [] [] []]],
      sx_Meta = \<lparr>rm_ResourceType = ''Schema'', rm_Location = ''/scim/v2/Schemas/'' @ UserSchemaURN\<rparr>\<rparr>"

definition UserResourceType :: resource_type where
  "UserResourceType =
     \<lparr>rt_Schemas = [ResourceTypeURN], rt_ID = ''User'', rt_Name = ''User'', rt_Endpoint = ''/Users'',
      rt_Description = ''User Account'', rt_Schema = UserSchemaURN,
      rt_Meta = \<lparr>rm_ResourceType = ''ResourceType'', rm_Location = ''/scim/v2/ResourceTypes/User''\<rparr>\<rparr>"

definition Group_schema :: scim_schema where
  "Group_schema =
     \<lparr>sx_Schemas = [SchemaURN], sx_ID = GroupSchemaURN, sx_Name = ''Group'', sx_Description = ''Group'',
      sx_Attributes =
        [Attribute ''displayName'' ''string'' False True False ''readWrite'' ''default'' ''none''
           ''Human-readable name for the Group.'' [],
         Attribute ''members'' ''complex'' True False False ''readWrite'' ''default'' []
           ''Members of the Group. value is the SCIM id of an existing User or Group resource provisioned by the same provider.''
           [Attribute ''value'' ''string'' False True True ''immutable'' ''default'' ''none'' [] [],
            Attribute ''$ref'' ''reference'' False False True ''readOnly'' ''default'' [] [] [],
            Attribute ''type'' ''string'' False False False ''readOnly'' ''default'' []
              ''Type of the member. Either User or Group.'' [],
            Attribute ''display'' ''string'' False False False ''readOnly'' ''default'' [] [] []]],
      sx_Meta = \<lparr>rm_ResourceType = ''Schema'', rm_Location = ''/scim/v2/Schemas/'' @ GroupSchemaURN\<rparr>\<rparr>"

definition GroupResourceType :: resource_type where
  "GroupResourceType =
     \<lparr>rt_Schemas = [ResourceTypeURN], rt_ID = ''Group'', rt_Name = ''Group'', rt_Endpoint = ''/Groups'',
      rt_Description = ''Group'', rt_Schema = GroupSchemaURN,
      rt_Meta = \<lparr>rm_ResourceType = ''ResourceType'', rm_Location = ''/scim/v2/ResourceTypes/Group''\<rparr>\<rparr>"

subsection \<open>The capabilities\<close>

definition scimMaxFilterResults :: int where "scimMaxFilterResults = 200"

record filter_capability =
  fl_Supported :: bool
  fl_MaxResults :: int

record bulk_capability =
  bk_Supported :: bool
  bk_MaxOperations :: int
  bk_MaxPayloadSize :: int

record auth_scheme =
  sm_Type :: string
  sm_Name :: string
  sm_Description :: string
  sm_Primary :: bool

record service_provider_config =
  spc_Schemas :: "string list"
  spc_Patch :: bool
  spc_Bulk :: bulk_capability
  spc_Filter :: filter_capability
  spc_ChangePassword :: bool
  spc_Sort :: bool
  spc_ETag :: bool
  spc_AuthenticationSchemes :: "auth_scheme list"
  spc_Meta :: resource_meta

definition provider_capabilities :: service_provider_config where
  "provider_capabilities =
     \<lparr>spc_Schemas = [''urn:ietf:params:scim:schemas:core:2.0:ServiceProviderConfig''], spc_Patch = True,
      spc_Bulk = \<lparr>bk_Supported = False, bk_MaxOperations = 0, bk_MaxPayloadSize = 0\<rparr>,
      spc_Filter = \<lparr>fl_Supported = True, fl_MaxResults = scimMaxFilterResults\<rparr>,
      spc_ChangePassword = False, spc_Sort = False, spc_ETag = True,
      spc_AuthenticationSchemes = [\<lparr>sm_Type = ''oauthbearertoken'', sm_Name = ''OAuth Bearer Token'',
        sm_Description = ''Per-provider SCIM tenant token configured via auth.providers[].scim.token'', sm_Primary = True\<rparr>],
      spc_Meta = \<lparr>rm_ResourceType = ''ServiceProviderConfig'', rm_Location = ''/scim/v2/ServiceProviderConfig''\<rparr>\<rparr>"

text \<open>The documents of the other two endpoints: the list and its length.\<close>

definition schemas_document :: "scim_schema list \<times> nat" where
  "schemas_document = (let resources = [User_schema, Group_schema] in (resources, length resources))"

definition resource_types_document :: "resource_type list \<times> nat" where
  "resource_types_document = (let resources = [UserResourceType, GroupResourceType] in (resources, length resources))"

subsection \<open>The JSON of a resource\<close>

text \<open>A member with \<open>omitempty\<close> is left out when it is empty.\<close>

definition omit_string :: "string \<Rightarrow> string \<Rightarrow> (string \<times> json) list" where
  "omit_string k s = (if s = [] then [] else [(k, JStr s)])"

definition omit_list :: "string \<Rightarrow> json list \<Rightarrow> (string \<times> json) list" where
  "omit_list k js = (if js = [] then [] else [(k, JArr js)])"

definition omit_ptr :: "string \<Rightarrow> ('a \<Rightarrow> json) \<Rightarrow> 'a option \<Rightarrow> (string \<times> json) list" where
  "omit_ptr k f p = (case p of None \<Rightarrow> [] | Some x \<Rightarrow> [(k, f x)])"

definition meta_json :: "render_env \<Rightarrow> scim_meta \<Rightarrow> json" where
  "meta_json env m = JObj ([(''resourceType'', JStr (me_ResourceType m)), (''created'', JStr (re_time env (me_Created m))),
     (''lastModified'', JStr (re_time env (me_LastModified m))), (''location'', JStr (me_Location m))]
     @ omit_string ''version'' (me_Version m))"

definition name_json :: "scim_name \<Rightarrow> json" where
  "name_json n = JObj (omit_string ''formatted'' (nm_Formatted n) @ omit_string ''familyName'' (nm_FamilyName n)
     @ omit_string ''givenName'' (nm_GivenName n))"

definition email_members :: "scim_email \<Rightarrow> (string \<times> json) list" where
  "email_members e = (''value'', JStr (em_Value e)) # omit_string ''type'' (em_Type e)
     @ (if em_Primary e then [(''primary'', JBool True)] else [])"

definition user_members :: "render_env \<Rightarrow> scim_user \<Rightarrow> (string \<times> json) list" where
  "user_members env u = omit_list ''schemas'' (map JStr (us_Schemas u)) @ omit_string ''id'' (us_ID u)
     @ omit_string ''externalId'' (us_ExternalID u) @ [(''userName'', JStr (us_UserName u))]
     @ omit_string ''displayName'' (us_DisplayName u) @ omit_ptr ''name'' name_json (us_Name u)
     @ omit_list ''emails'' (map (\<lambda>e. JObj (email_members e)) (us_Emails u)) @ omit_ptr ''active'' JBool (us_Active u)
     @ omit_ptr ''meta'' (meta_json env) (us_Meta u)"

definition member_members :: "group_member \<Rightarrow> (string \<times> json) list" where
  "member_members m = (''value'', JStr (gm_Value m)) # omit_string ''$ref'' (gm_Ref m) @ omit_string ''type'' (gm_Type m)
     @ omit_string ''display'' (gm_Display m)"

definition group_members :: "render_env \<Rightarrow> scim_group \<Rightarrow> (string \<times> json) list" where
  "group_members env g = omit_list ''schemas'' (map JStr (gr_Schemas g)) @ omit_string ''id'' (gr_ID g)
     @ omit_string ''externalId'' (gr_ExternalID g) @ [(''displayName'', JStr (gr_DisplayName g))]
     @ omit_list ''members'' (map (\<lambda>m. JObj (member_members m)) (gr_Members g)) @ omit_ptr ''meta'' (meta_json env) (gr_Meta g)"

end
