(* ===== verification/Go_Decode.thy ===== *)
theory Go_Decode
  imports Go_Json
begin

section \<open>Decoding a request body\<close>

text \<open>
  \<open>json.NewDecoder(r.Body).Decode(&dst)\<close> reads the first JSON value of the body and stores it into a
  struct. A decoder takes the value that is there and the JSON value, and is \<open>None\<close> where the decoder of
  the library reports an error (it reports a member of the wrong type after the whole document; either way
  the handlers answer 400). \<open>null\<close> leaves everything but a pointer, a slice and a raw message as it is, a
  member given twice is decoded over the first one, and members that the struct does not have are skipped.
\<close>

type_synonym 'a decoder = "'a \<Rightarrow> json \<Rightarrow> 'a option"

definition dec_string :: "string decoder" where
  "dec_string acc j = (case j of JStr s \<Rightarrow> Some s | JNull \<Rightarrow> Some acc | _ \<Rightarrow> None)"

definition dec_bool :: "bool decoder" where
  "dec_bool acc j = (case j of JBool b \<Rightarrow> Some b | JNull \<Rightarrow> Some acc | _ \<Rightarrow> None)"

text \<open>A type with \<open>UnmarshalText\<close>, like \<open>uuid.UUID\<close>, or, for instants, with \<open>UnmarshalJSON\<close>.\<close>

definition dec_text :: "(string \<Rightarrow> 'a option) \<Rightarrow> 'a decoder" where
  "dec_text parse acc j = (case j of JStr s \<Rightarrow> parse s | JNull \<Rightarrow> Some acc | _ \<Rightarrow> None)"

definition dec_raw :: "raw decoder" where
  "dec_raw acc j = Some (Some j)"

definition dec_ptr :: "'a \<Rightarrow> 'a decoder \<Rightarrow> 'a option decoder" where
  "dec_ptr zero d acc j =
     (case j of JNull \<Rightarrow> Some None | _ \<Rightarrow> map_option Some (d (case acc of None \<Rightarrow> zero | Some x \<Rightarrow> x) j))"

fun dec_elements :: "'a \<Rightarrow> 'a decoder \<Rightarrow> 'a list \<Rightarrow> json list \<Rightarrow> 'a list option" where
  "dec_elements zero d olds [] = Some []"
| "dec_elements zero d olds (j # js) =
     (case d (case olds of [] \<Rightarrow> zero | x # _ \<Rightarrow> x) j of
        None \<Rightarrow> None
      | Some x \<Rightarrow> map_option ((#) x) (dec_elements zero d (tl olds) js))"

definition dec_slice :: "'a \<Rightarrow> 'a decoder \<Rightarrow> 'a list decoder" where
  "dec_slice zero d acc j = (case j of JArr js \<Rightarrow> dec_elements zero d acc js | JNull \<Rightarrow> Some [] | _ \<Rightarrow> None)"

text \<open>A struct: the fields by their tags. A name that is equal to a tag goes before one equal up to case.\<close>

definition find_field :: "(string \<times> 'a decoder) list \<Rightarrow> string \<Rightarrow> 'a decoder option" where
  "find_field fs k =
     (case map_of fs k of
        Some d \<Rightarrow> Some d
      | None \<Rightarrow> map_option snd (find (\<lambda>(tag, d). field_matches tag k) fs))"

fun dec_members :: "(string \<times> 'a decoder) list \<Rightarrow> 'a \<Rightarrow> (string \<times> json) list \<Rightarrow> 'a option" where
  "dec_members fs acc [] = Some acc"
| "dec_members fs acc ((k, v) # kvs) =
     (case find_field fs k of
        None \<Rightarrow> dec_members fs acc kvs
      | Some d \<Rightarrow> (case d acc v of None \<Rightarrow> None | Some acc' \<Rightarrow> dec_members fs acc' kvs))"

definition dec_struct :: "(string \<times> 'a decoder) list \<Rightarrow> 'a decoder" where
  "dec_struct fs acc j = (case j of JObj kvs \<Rightarrow> dec_members fs acc kvs | JNull \<Rightarrow> Some acc | _ \<Rightarrow> None)"

definition field :: "('a \<Rightarrow> 'b) \<Rightarrow> (('b \<Rightarrow> 'b) \<Rightarrow> 'a \<Rightarrow> 'a) \<Rightarrow> 'b decoder \<Rightarrow> 'a decoder" where
  "field sel upd d acc j = map_option (\<lambda>x. upd (\<lambda>_. x) acc) (d (sel acc) j)"

text \<open>The body of a request: its first value, or none where its text is not JSON.\<close>

definition decode_body :: "'a decoder \<Rightarrow> 'a \<Rightarrow> json option \<Rightarrow> 'a option" where
  "decode_body d zero body = (case body of None \<Rightarrow> None | Some j \<Rightarrow> d zero j)"

text \<open>Evaluation, and the fields that are not in the document.\<close>

lemmas decoder_defs = dec_string_def dec_bool_def dec_text_def dec_raw_def dec_ptr_def dec_slice_def dec_struct_def
  field_def find_field_def decode_body_def

lemma field_matches_refl [simp]: "field_matches tag tag"
  by (simp add: field_matches_def)

lemma find_field_tag: "(tag, d) \<in> set fs \<Longrightarrow> distinct (map fst fs) \<Longrightarrow> find_field fs tag = Some d"
  by (simp add: find_field_def)

end
