(* ===== verification/Http_Routes.thy ===== *)
theory Http_Routes
  imports Go_Decode
begin

section \<open>Routes\<close>

text \<open>
  The part of the router library \<open>chi\<close> that the two route tables use. A path is the list of the texts
  between its slashes. A pattern matches segment by segment; a parameter takes any text but an empty last
  one. Among the routes that match path and method the first one wins: the tables have a literal segment
  before a parameter in its place. A path that only other methods have is answered 405, an unknown one 404.
\<close>

datatype segment = Seg string | Param string

type_synonym path_params = "(string \<times> string) list"

fun match_path :: "segment list \<Rightarrow> string list \<Rightarrow> path_params option" where
  "match_path [] [] = Some []"
| "match_path (Seg t # ps) (x # xs) = (if x = t then match_path ps xs else None)"
| "match_path (Param n # ps) (x # xs) =
     (if x = [] \<and> xs = [] then None else map_option ((#) (n, x)) (match_path ps xs))"
| "match_path _ _ = None"

datatype 'e found = NotFound | MethodNotAllowed | Found 'e path_params

type_synonym 'e route = "string \<times> segment list \<times> 'e"

fun find_route :: "'e route list \<Rightarrow> string \<Rightarrow> string list \<Rightarrow> 'e found" where
  "find_route [] m xs = NotFound"
| "find_route ((rm, pat, e) # rs) m xs =
     (case match_path pat xs of
        None \<Rightarrow> find_route rs m xs
      | Some ps \<Rightarrow> if rm = m then Found e ps
                   else (case find_route rs m xs of NotFound \<Rightarrow> MethodNotAllowed | r \<Rightarrow> r))"

definition param :: "path_params \<Rightarrow> string \<Rightarrow> string" where
  "param ps n = (case map_of ps n of None \<Rightarrow> [] | Some x \<Rightarrow> x)"

lemma find_route_Found: "find_route rs m xs = Found e ps \<Longrightarrow> \<exists>pat. (m, pat, e) \<in> set rs \<and> match_path pat xs = Some ps"
  by (induction rs m xs rule: find_route.induct) (auto split: option.splits if_splits found.splits)

text \<open>An error that is a panic of the code below, which no handler sees.\<close>

fun panics :: "goerr \<Rightarrow> bool" where
  "panics (Panic p) = True"
| "panics (Wrap c e) = panics e"
| "panics e = False"

end
