(* ===== verification/Scim_Http.thy ===== *)
theory Scim_Http
  imports Scim_Tenant Scim_Auth Scim_Discovery Http_Routes
begin

section \<open>The SCIM endpoints (\<open>internal/scim/handler\<close>)\<close>

text \<open>
  From a request below \<open>/scim/v2\<close> to its response: the routes, the middleware of the tenant tokens, the
  handlers of users and groups with the decoding of their bodies, and the mapping of service errors to
  SCIM errors. The text of a decoding error is left out of its response.
\<close>

subsection \<open>Requests and responses\<close>

record scim_call =
  sq_method :: string
  sq_path :: "string list"
  sq_authorization :: string
  sq_query :: "string \<Rightarrow> string"
  sq_body :: "json option"

datatype scim_body = NoContent | ErrorDoc scim_error | RecoveredDoc APIError | PlainDoc string
  | UserDoc scim_user | GroupDoc scim_group | UserListDoc "scim_user list" nat int | GroupListDoc "scim_group list" nat int
  | CapabilitiesDoc service_provider_config | SchemasDoc "scim_schema list" nat | ResourceTypesDoc "resource_type list" nat

record scim_response =
  sp_Status :: int
  sp_Location :: "string option"
  sp_ETag :: "string option"
  sp_Body :: scim_body
  sp_Dropped :: keys

definition WriteJSON :: "int \<Rightarrow> scim_body \<Rightarrow> scim_response" where
  "WriteJSON status body = \<lparr>sp_Status = status, sp_Location = None, sp_ETag = None, sp_Body = body, sp_Dropped = []\<rparr>"

definition WriteError :: "scim_error \<Rightarrow> scim_response" where
  "WriteError e = WriteJSON (scim_status e) (ErrorDoc e)"

subsection \<open>Bodies\<close>

definition name_decoder :: "scim_name decoder" where
  "name_decoder = dec_struct [(''formatted'', field nm_Formatted nm_Formatted_update dec_string),
     (''familyName'', field nm_FamilyName nm_FamilyName_update dec_string),
     (''givenName'', field nm_GivenName nm_GivenName_update dec_string)]"

definition email_decoder :: "scim_email decoder" where
  "email_decoder = dec_struct [(''value'', field em_Value em_Value_update dec_string),
     (''type'', field em_Type em_Type_update dec_string), (''primary'', field em_Primary em_Primary_update dec_bool)]"

definition meta_decoder :: "(string \<Rightarrow> gotime option) \<Rightarrow> scim_meta decoder" where
  "meta_decoder pt = dec_struct [(''resourceType'', field me_ResourceType me_ResourceType_update dec_string),
     (''created'', field me_Created me_Created_update (dec_text pt)),
     (''lastModified'', field me_LastModified me_LastModified_update (dec_text pt)),
     (''location'', field me_Location me_Location_update dec_string), (''version'', field me_Version me_Version_update dec_string)]"

definition member_decoder :: "group_member decoder" where
  "member_decoder = dec_struct [(''value'', field gm_Value gm_Value_update dec_string), (''$ref'', field gm_Ref gm_Ref_update dec_string),
     (''type'', field gm_Type gm_Type_update dec_string), (''display'', field gm_Display gm_Display_update dec_string)]"

definition zero_meta :: scim_meta where
  "zero_meta = \<lparr>me_ResourceType = [], me_Created = 0, me_LastModified = 0, me_Location = [], me_Version = []\<rparr>"

definition zero_user :: scim_user where
  "zero_user = \<lparr>us_Schemas = [], us_ID = [], us_ExternalID = [], us_UserName = [], us_DisplayName = [], us_Name = None,
     us_Emails = [], us_Active = None, us_Meta = None\<rparr>"

definition user_decoder :: "(string \<Rightarrow> gotime option) \<Rightarrow> scim_user decoder" where
  "user_decoder pt = dec_struct [(''schemas'', field us_Schemas us_Schemas_update (dec_slice [] dec_string)),
     (''id'', field us_ID us_ID_update dec_string), (''externalId'', field us_ExternalID us_ExternalID_update dec_string),
     (''userName'', field us_UserName us_UserName_update dec_string),
     (''displayName'', field us_DisplayName us_DisplayName_update dec_string),
     (''name'', field us_Name us_Name_update (dec_ptr \<lparr>nm_Formatted = [], nm_FamilyName = [], nm_GivenName = []\<rparr> name_decoder)),
     (''emails'', field us_Emails us_Emails_update (dec_slice \<lparr>em_Value = [], em_Type = [], em_Primary = False\<rparr> email_decoder)),
     (''active'', field us_Active us_Active_update (dec_ptr False dec_bool)),
     (''meta'', field us_Meta us_Meta_update (dec_ptr zero_meta (meta_decoder pt)))]"

definition zero_group :: scim_group where
  "zero_group = \<lparr>gr_Schemas = [], gr_ID = [], gr_ExternalID = [], gr_DisplayName = [], gr_Members = [], gr_Meta = None\<rparr>"

definition group_decoder :: "(string \<Rightarrow> gotime option) \<Rightarrow> scim_group decoder" where
  "group_decoder pt = dec_struct [(''schemas'', field gr_Schemas gr_Schemas_update (dec_slice [] dec_string)),
     (''id'', field gr_ID gr_ID_update dec_string), (''externalId'', field gr_ExternalID gr_ExternalID_update dec_string),
     (''displayName'', field gr_DisplayName gr_DisplayName_update dec_string),
     (''members'', field gr_Members gr_Members_update
        (dec_slice \<lparr>gm_Value = [], gm_Ref = [], gm_Type = [], gm_Display = []\<rparr> member_decoder)),
     (''meta'', field gr_Meta gr_Meta_update (dec_ptr zero_meta (meta_decoder pt)))]"

record patch_request =
  pq_Schemas :: "string list"
  pq_Operations :: "patch_op list"

definition patch_op_decoder :: "patch_op decoder" where
  "patch_op_decoder = dec_struct [(''op'', field op_Op op_Op_update dec_string), (''path'', field op_Path op_Path_update dec_string),
     (''value'', field op_Value op_Value_update dec_raw)]"

definition patch_decoder :: "patch_request decoder" where
  "patch_decoder = dec_struct [(''schemas'', field pq_Schemas pq_Schemas_update (dec_slice [] dec_string)),
     (''Operations'', field pq_Operations pq_Operations_update
        (dec_slice \<lparr>op_Op = [], op_Path = [], op_Value = None\<rparr> patch_op_decoder))]"

subsection \<open>Errors\<close>

definition error_text :: "goerr \<Rightarrow> msg list" where
  "error_text e = [ErrText e]"

definition writeUserError :: "goerr \<Rightarrow> scim_error" where
  "writeUserError e =
     (if errors_Is e (UsersE Users_ErrNotFound) then ScimError 404 [] [Lit ''user not found'']
      else if errors_Is e (UsersE Users_ErrAlreadyExists)
      then ScimError 409 ''uniqueness'' [Lit ''externalId already provisioned for this provider'']
      else if errors_Is e (UsersE Users_ErrUserNameRequired) then ScimError 400 ''invalidValue'' [Lit ''userName is required'']
      else if errors_Is e (UsersE Users_ErrExternalIDRequired)
      then ScimError 400 ''invalidValue'' [Lit ''externalId is required on create'']
      else if errors_Is e (UsersE Users_ErrInvalidFilter) then ScimError 400 ''invalidFilter'' (error_text e)
      else if errors_Is e (UsersE Users_ErrPatchNoTarget) then ScimError 400 ''noTarget'' (error_text e)
      else if errors_Is e (UsersE Users_ErrPatchInvalidValue) then ScimError 400 ''invalidValue'' (error_text e)
      else ScimError 500 [] (error_text e))"

definition writeGroupError :: "goerr \<Rightarrow> scim_error" where
  "writeGroupError e =
     (if errors_Is e (GroupsE Groups_ErrNotFound) then ScimError 404 [] [Lit ''group not found'']
      else if errors_Is e (GroupsE Groups_ErrAlreadyExists)
      then ScimError 409 ''uniqueness'' [Lit ''externalId already provisioned for this provider'']
      else if errors_Is e (GroupsE Groups_ErrDisplayNameRequired) then ScimError 400 ''invalidValue'' [Lit ''displayName is required'']
      else if errors_Is e (GroupsE Groups_ErrExternalIDRequired)
      then ScimError 400 ''invalidValue'' [Lit ''externalId is required on create'']
      else if errors_Is e (GroupsE Groups_ErrInvalidMember) then ScimError 400 ''invalidValue'' (error_text e)
      else if errors_Is e (GroupsE Groups_ErrInvalidFilter) then ScimError 400 ''invalidFilter'' (error_text e)
      else if errors_Is e (GroupsE Groups_ErrPatchNoTarget) then ScimError 400 ''noTarget'' (error_text e)
      else if errors_Is e (GroupsE Groups_ErrPatchInvalidValue) then ScimError 400 ''invalidValue'' (error_text e)
      else if errors_Is e (GroupsE Groups_ErrBuiltinGroup)
      then ScimError 403 ''mutability'' [Lit ''built-in group cannot be modified via SCIM'']
      else ScimError 500 [] (error_text e))"

text \<open>A service call and what its handler writes. A panic passes by.\<close>

definition scim_respond :: "(goerr \<Rightarrow> scim_error) \<Rightarrow> ('a \<Rightarrow> scim_response db) \<Rightarrow> 'a db \<Rightarrow> scim_response db" where
  "scim_respond write_error ok m = (\<lambda>w s.
     case m w s of
       (Inr x, s') \<Rightarrow> ok x w s'
     | (Inl e, s') \<Rightarrow> if panics e then (Inl e, s') else (Inr (WriteError (write_error e)), s'))"

definition deref :: "'a option \<Rightarrow> 'a db" where
  "deref p = (case p of None \<Rightarrow> throw (Panic ''nil pointer dereference'') | Some x \<Rightarrow> ret x)"

definition created_response :: "scim_meta option \<Rightarrow> scim_body \<Rightarrow> scim_response db" where
  "created_response m body = bind (deref m) (\<lambda>meta.
     ret \<lparr>sp_Status = 201, sp_Location = Some (me_Location meta), sp_ETag = Some (me_Version meta), sp_Body = body, sp_Dropped = []\<rparr>)"

definition ok_response :: "scim_meta option \<Rightarrow> scim_body \<Rightarrow> scim_response db" where
  "ok_response m body = bind (deref m) (\<lambda>meta.
     ret \<lparr>sp_Status = 200, sp_Location = None, sp_ETag = Some (me_Version meta), sp_Body = body, sp_Dropped = []\<rparr>)"

text \<open>The services drop identities from the cache on their way; the response carries their keys for the server.\<close>

definition dropping :: "keys \<Rightarrow> scim_response db \<Rightarrow> scim_response db" where
  "dropping ks m = bind m (\<lambda>r. ret (r\<lparr>sp_Dropped := ks\<rparr>))"

subsection \<open>Handlers\<close>

text \<open>The steps that the handlers begin with.\<close>

definition with_provider :: "string option \<Rightarrow> (string \<Rightarrow> scim_response db) \<Rightarrow> scim_response db" where
  "with_provider ctx f =
     (case ProviderFromContext ctx of
        None \<Rightarrow> ret (WriteError (invalidAuth ''no SCIM provider in context''))
      | Some provider \<Rightarrow> f provider)"

definition with_id :: "(string \<Rightarrow> uuid option) \<Rightarrow> string \<Rightarrow> (uuid \<Rightarrow> scim_response db) \<Rightarrow> scim_response db" where
  "with_id up raw f =
     (case up raw of None \<Rightarrow> ret (WriteError (ScimError 400 ''invalidValue'' [Lit ''id must be a UUID''])) | Some i \<Rightarrow> f i)"

definition with_json :: "'a decoder \<Rightarrow> 'a \<Rightarrow> json option \<Rightarrow> ('a \<Rightarrow> scim_response db) \<Rightarrow> scim_response db" where
  "with_json d zero body f =
     (case decode_body d zero body of
        None \<Rightarrow> ret (WriteError (ScimError 400 ''invalidSyntax'' [Lit ''malformed JSON: '']))
      | Some x \<Rightarrow> f x)"

definition defaultListCount :: int where "defaultListCount = 50"
definition maxListCount :: int where "maxListCount = 200"

definition parseQueryInt :: "string \<Rightarrow> int \<Rightarrow> int" where
  "parseQueryInt raw d = (if raw = [] then d else case Atoi raw of None \<Rightarrow> d | Some n \<Rightarrow> n)"

definition list_start :: "scim_call \<Rightarrow> int" where
  "list_start q = max (parseQueryInt (sq_query q ''startIndex'') 1) 1"

definition list_count :: "scim_call \<Rightarrow> int" where
  "list_count q = min (max (parseQueryInt (sq_query q ''count'') defaultListCount) 0) maxListCount"

definition UsersHandler_Create :: "'f scim_env \<Rightarrow> (string \<Rightarrow> gotime option) \<Rightarrow> string option \<Rightarrow> scim_call \<Rightarrow> scim_response db" where
  "UsersHandler_Create v pt ctx q = with_provider ctx (\<lambda>provider. with_json (user_decoder pt) zero_user (sq_body q) (\<lambda>u.
     scim_respond writeUserError (\<lambda>(created, _). created_response (us_Meta created) (UserDoc created))
       (Users_Create (sv_render v) provider u)))"

definition UsersHandler_GetByID :: "'f scim_env \<Rightarrow> string option \<Rightarrow> string \<Rightarrow> scim_response db" where
  "UsersHandler_GetByID v ctx raw = with_provider ctx (\<lambda>provider. with_id (sv_uuid v) raw (\<lambda>i.
     scim_respond writeUserError (\<lambda>got. ok_response (us_Meta got) (UserDoc got)) (Users_GetByEntityID (sv_render v) provider i)))"

definition UsersHandler_List :: "'f scim_env \<Rightarrow> string option \<Rightarrow> scim_call \<Rightarrow> scim_response db" where
  "UsersHandler_List v ctx q = with_provider ctx (\<lambda>provider.
     scim_respond writeUserError (\<lambda>(us, total). ret (WriteJSON 200 (UserListDoc us total (list_start q))))
       (Users_List (sv_where v) (sv_float v) (sv_render v) provider (sq_query q ''filter'') (list_start q - 1) (list_count q)))"

definition UsersHandler_Replace ::
  "'f scim_env \<Rightarrow> (string \<Rightarrow> gotime option) \<Rightarrow> string option \<Rightarrow> string \<Rightarrow> scim_call \<Rightarrow> scim_response db" where
  "UsersHandler_Replace v pt ctx raw q = with_provider ctx (\<lambda>provider. with_id (sv_uuid v) raw (\<lambda>i.
     with_json (user_decoder pt) zero_user (sq_body q) (\<lambda>u.
     scim_respond writeUserError (\<lambda>(updated, ks). dropping ks (ok_response (us_Meta updated) (UserDoc updated)))
       (Users_Replace (sv_render v) provider i u))))"

definition UsersHandler_Patch :: "'f scim_env \<Rightarrow> string option \<Rightarrow> string \<Rightarrow> scim_call \<Rightarrow> scim_response db" where
  "UsersHandler_Patch v ctx raw q = with_provider ctx (\<lambda>provider. with_id (sv_uuid v) raw (\<lambda>i.
     with_json patch_decoder \<lparr>pq_Schemas = [], pq_Operations = []\<rparr> (sq_body q) (\<lambda>req.
     scim_respond writeUserError (\<lambda>(updated, ks). dropping ks (ok_response (us_Meta updated) (UserDoc updated)))
       (Users_Patch (sv_float v) (sv_render v) provider i (pq_Operations req)))))"

definition UsersHandler_Delete :: "'f scim_env \<Rightarrow> string option \<Rightarrow> string \<Rightarrow> scim_response db" where
  "UsersHandler_Delete v ctx raw = with_provider ctx (\<lambda>provider. with_id (sv_uuid v) raw (\<lambda>i.
     scim_respond writeUserError (\<lambda>(_, ks). dropping ks (ret (WriteJSON 204 NoContent))) (Users_Delete provider i)))"

definition GroupsHandler_Create :: "'f scim_env \<Rightarrow> (string \<Rightarrow> gotime option) \<Rightarrow> string option \<Rightarrow> scim_call \<Rightarrow> scim_response db" where
  "GroupsHandler_Create v pt ctx q = with_provider ctx (\<lambda>provider. with_json (group_decoder pt) zero_group (sq_body q) (\<lambda>g.
     scim_respond writeGroupError (\<lambda>created. created_response (gr_Meta created) (GroupDoc created))
       (Groups_Create (sv_uuid v) (sv_render v) provider g)))"

definition GroupsHandler_GetByID :: "'f scim_env \<Rightarrow> string option \<Rightarrow> string \<Rightarrow> scim_response db" where
  "GroupsHandler_GetByID v ctx raw = with_provider ctx (\<lambda>provider. with_id (sv_uuid v) raw (\<lambda>i.
     scim_respond writeGroupError (\<lambda>got. ok_response (gr_Meta got) (GroupDoc got)) (Groups_GetByEntityID (sv_render v) provider i)))"

definition GroupsHandler_List :: "'f scim_env \<Rightarrow> string option \<Rightarrow> scim_call \<Rightarrow> scim_response db" where
  "GroupsHandler_List v ctx q = with_provider ctx (\<lambda>provider.
     scim_respond writeGroupError (\<lambda>(gs, total). ret (WriteJSON 200 (GroupListDoc gs total (list_start q))))
       (Groups_List (sv_where v) (sv_float v) (sv_render v) provider (sq_query q ''filter'') (list_start q - 1) (list_count q)))"

definition GroupsHandler_Replace ::
  "'f scim_env \<Rightarrow> (string \<Rightarrow> gotime option) \<Rightarrow> string option \<Rightarrow> string \<Rightarrow> scim_call \<Rightarrow> scim_response db" where
  "GroupsHandler_Replace v pt ctx raw q = with_provider ctx (\<lambda>provider. with_id (sv_uuid v) raw (\<lambda>i.
     with_json (group_decoder pt) zero_group (sq_body q) (\<lambda>g.
     scim_respond writeGroupError (\<lambda>updated. ok_response (gr_Meta updated) (GroupDoc updated))
       (Groups_Replace (sv_uuid v) (sv_render v) provider i g))))"

definition GroupsHandler_Patch :: "'f scim_env \<Rightarrow> string option \<Rightarrow> string \<Rightarrow> scim_call \<Rightarrow> scim_response db" where
  "GroupsHandler_Patch v ctx raw q = with_provider ctx (\<lambda>provider. with_id (sv_uuid v) raw (\<lambda>i.
     with_json patch_decoder \<lparr>pq_Schemas = [], pq_Operations = []\<rparr> (sq_body q) (\<lambda>req.
     scim_respond writeGroupError (\<lambda>updated. ok_response (gr_Meta updated) (GroupDoc updated))
       (Groups_Patch (sv_float v) (sv_uuid v) (sv_render v) provider i (pq_Operations req)))))"

definition GroupsHandler_Delete :: "'f scim_env \<Rightarrow> string option \<Rightarrow> string \<Rightarrow> scim_response db" where
  "GroupsHandler_Delete v ctx raw = with_provider ctx (\<lambda>provider. with_id (sv_uuid v) raw (\<lambda>i.
     scim_respond writeGroupError (\<lambda>_. ret (WriteJSON 204 NoContent)) (Groups_Delete provider i)))"

subsection \<open>Routes\<close>

datatype scim_endpoint = ServiceProviderConfig | Schemas | ResourceTypes
  | Users_list | Users_create | Users_get | Users_replace | Users_patch | Users_delete
  | Groups_list | Groups_create | Groups_get | Groups_replace | Groups_patch | Groups_delete

definition scim_routes :: "scim_endpoint route list" where
  "scim_routes =
     [(''GET'', [Seg ''ServiceProviderConfig''], ServiceProviderConfig), (''GET'', [Seg ''Schemas''], Schemas),
      (''GET'', [Seg ''ResourceTypes''], ResourceTypes),
      (''GET'', [Seg ''Users''], Users_list), (''POST'', [Seg ''Users''], Users_create),
      (''GET'', [Seg ''Users'', Param ''id''], Users_get), (''PUT'', [Seg ''Users'', Param ''id''], Users_replace),
      (''PATCH'', [Seg ''Users'', Param ''id''], Users_patch), (''DELETE'', [Seg ''Users'', Param ''id''], Users_delete),
      (''GET'', [Seg ''Groups''], Groups_list), (''POST'', [Seg ''Groups''], Groups_create),
      (''GET'', [Seg ''Groups'', Param ''id''], Groups_get), (''PUT'', [Seg ''Groups'', Param ''id''], Groups_replace),
      (''PATCH'', [Seg ''Groups'', Param ''id''], Groups_patch), (''DELETE'', [Seg ''Groups'', Param ''id''], Groups_delete)]"

text \<open>The endpoints inside the group with the middleware; \<open>ctx\<close> is the provider it stored.\<close>

fun scim_handler :: "'f scim_env \<Rightarrow> (string \<Rightarrow> gotime option) \<Rightarrow> scim_endpoint \<Rightarrow> string option \<Rightarrow> string \<Rightarrow> scim_call \<Rightarrow> scim_response db" where
  "scim_handler v pt Users_list ctx i q = UsersHandler_List v ctx q"
| "scim_handler v pt Users_create ctx i q = UsersHandler_Create v pt ctx q"
| "scim_handler v pt Users_get ctx i q = UsersHandler_GetByID v ctx i"
| "scim_handler v pt Users_replace ctx i q = UsersHandler_Replace v pt ctx i q"
| "scim_handler v pt Users_patch ctx i q = UsersHandler_Patch v ctx i q"
| "scim_handler v pt Users_delete ctx i q = UsersHandler_Delete v ctx i"
| "scim_handler v pt Groups_list ctx i q = GroupsHandler_List v ctx q"
| "scim_handler v pt Groups_create ctx i q = GroupsHandler_Create v pt ctx q"
| "scim_handler v pt Groups_get ctx i q = GroupsHandler_GetByID v ctx i"
| "scim_handler v pt Groups_replace ctx i q = GroupsHandler_Replace v pt ctx i q"
| "scim_handler v pt Groups_patch ctx i q = GroupsHandler_Patch v ctx i q"
| "scim_handler v pt Groups_delete ctx i q = GroupsHandler_Delete v ctx i"
| "scim_handler v pt ServiceProviderConfig ctx i q = ret (WriteJSON 200 (CapabilitiesDoc provider_capabilities))"
| "scim_handler v pt Schemas ctx i q = ret (WriteJSON 200 (case schemas_document of (xs, n) \<Rightarrow> SchemasDoc xs n))"
| "scim_handler v pt ResourceTypes ctx i q = ret (WriteJSON 200 (case resource_types_document of (xs, n) \<Rightarrow> ResourceTypesDoc xs n))"

definition discovery :: "scim_endpoint \<Rightarrow> bool" where
  "discovery e \<longleftrightarrow> e \<in> {ServiceProviderConfig, Schemas, ResourceTypes}"

definition scim_mount ::
  "'f scim_env \<Rightarrow> (string \<Rightarrow> gotime option) \<Rightarrow> (string \<Rightarrow> string) \<Rightarrow> registry \<Rightarrow> scim_call \<Rightarrow> scim_response db" where
  "scim_mount v pt sha reg q =
     (case find_route scim_routes (sq_method q) (sq_path q) of
        NotFound \<Rightarrow> ret (WriteJSON 404 (PlainDoc ''404 page not found''))
      | MethodNotAllowed \<Rightarrow> ret (WriteJSON 405 NoContent)
      | Found e ps \<Rightarrow>
          if discovery e then scim_handler v pt e None (param ps ''id'') q
          else case scim_Authenticate sha reg (sq_authorization q) of
            Inl er \<Rightarrow> ret (WriteError er)
          | Inr provider \<Rightarrow> scim_handler v pt e (Some provider) (param ps ''id'') q)"

text \<open>The middleware \<open>Recovery\<close> around everything.\<close>

definition scim_http ::
  "'f scim_env \<Rightarrow> (string \<Rightarrow> gotime option) \<Rightarrow> (string \<Rightarrow> string) \<Rightarrow> registry \<Rightarrow> scim_call \<Rightarrow> scim_response db" where
  "scim_http v pt sha reg q = catch (scim_mount v pt sha reg q)
     (\<lambda>_. ret (WriteJSON 500 (RecoveredDoc (api_Internal [Lit ''an unexpected error occurred'']))))"

end
