(* ===== verification/Scim_Discovery_Rules.thy ===== *)
theory Scim_Discovery_Rules
  imports Scim_Http
begin

section \<open>What the discovery documents promise\<close>

text \<open>
  The schemas against the code behind the endpoints: what is rendered, what a filter may name, what a patch
  changes, what a creation demands, and how long a list may be.
\<close>

definition common_attributes :: "string list" where
  "common_attributes = [''schemas'', ''id'', ''externalId'', ''meta'']"

definition attribute_names :: "attribute list \<Rightarrow> string list" where
  "attribute_names as = map at_Name as"

definition sub_attributes :: "scim_schema \<Rightarrow> string \<Rightarrow> attribute list" where
  "sub_attributes x a = concat (map at_SubAttributes (filter (\<lambda>y. at_Name y = a) (sx_Attributes x)))"

definition attribute_paths :: "scim_schema \<Rightarrow> string list" where
  "attribute_paths x = concat (map (\<lambda>a. at_Name a # map (\<lambda>b. at_Name a @ ''.'' @ at_Name b) (at_SubAttributes a)) (sx_Attributes x))"

definition advertised :: "scim_schema \<Rightarrow> (string \<times> json) list \<Rightarrow> bool" where
  "advertised x members \<longleftrightarrow> list_all (\<lambda>(k, v). k \<in> set (common_attributes @ attribute_names (sx_Attributes x))) members"

definition lacks_required :: "scim_schema \<Rightarrow> (string \<times> json) list \<Rightarrow> bool" where
  "lacks_required x members \<longleftrightarrow>
     list_ex (\<lambda>a. at_Required a \<and> map_of members (at_Name a) \<in> {None, Some (JStr [])}) (sx_Attributes x)"

lemma advertised_simps [simp]:
  "advertised x []" "advertised x (ms @ ns) \<longleftrightarrow> advertised x ms \<and> advertised x ns"
  "advertised x ((k, v) # ms) \<longleftrightarrow> k \<in> set (common_attributes @ attribute_names (sx_Attributes x)) \<and> advertised x ms"
  by (simp_all add: advertised_def)

lemma advertised_omit:
  "k \<in> set (common_attributes @ attribute_names (sx_Attributes x)) \<Longrightarrow> advertised x (omit_string k s)"
  "k \<in> set (common_attributes @ attribute_names (sx_Attributes x)) \<Longrightarrow> advertised x (omit_list k js)"
  "k \<in> set (common_attributes @ attribute_names (sx_Attributes x)) \<Longrightarrow> advertised x (omit_ptr k f p)"
  by (simp_all add: omit_string_def omit_list_def omit_ptr_def split: option.splits)

lemma omit_nothing [simp]: "omit_ptr k f None = []"
  by (simp add: omit_ptr_def)

lemma schema_names:
  "attribute_names (sx_Attributes User_schema) = [''userName'', ''displayName'', ''active'', ''emails'']"
  "attribute_names (sx_Attributes Group_schema) = [''displayName'', ''members'']"
  "attribute_names (sub_attributes User_schema ''emails'') = [''value'', ''primary'']"
  "attribute_names (sub_attributes Group_schema ''members'') = [''value'', ''$ref'', ''type'', ''display'']"
  "attribute_paths User_schema = [''userName'', ''displayName'', ''active'', ''emails'', ''emails.value'', ''emails.primary'']"
  "attribute_paths Group_schema = [''displayName'', ''members'', ''members.value'', ''members.$ref'', ''members.type'', ''members.display'']"
  by (simp_all add: attribute_names_def sub_attributes_def attribute_paths_def User_schema_def Group_schema_def)

lemma rendered_members:
  "advertised User_schema (user_members env (Users_FromStored env s))"
  "advertised Group_schema (group_members env (Groups_FromStored env g))"
  by (auto simp: user_members_def group_members_def Users_FromStored_def Groups_FromStored_def Let_def schema_names
      common_attributes_def intro!: advertised_omit)

lemma rendered_sub_members:
  "list_all (\<lambda>e. list_all (\<lambda>(k, v). k \<in> set (attribute_names (sub_attributes User_schema ''emails''))) (email_members e))
     (us_Emails (Users_FromStored env s))"
  "list_all (\<lambda>(k, v). k \<in> set (attribute_names (sub_attributes Group_schema ''members''))) (member_members m)"
  by (simp_all add: Users_FromStored_def Let_def email_members_def member_members_def omit_string_def schema_names)

text \<open>In lower case, as filters and paths name them.\<close>

definition lower_names :: "scim_schema \<Rightarrow> string set" where
  "lower_names x = set (map ToLower (attribute_names (sx_Attributes x)))"

definition lower_paths :: "scim_schema \<Rightarrow> string set" where
  "lower_paths x = set (map ToLower (common_attributes @ attribute_paths x))"

lemma lowered:
  "map ToLower (attribute_names (sx_Attributes User_schema)) = [''username'', ''displayname'', ''active'', ''emails'']"
  "map ToLower (attribute_names (sx_Attributes Group_schema)) = [''displayname'', ''members'']"
  "map ToLower (common_attributes @ attribute_paths User_schema) = [''schemas'', ''id'', ''externalid'', ''meta'',
     ''username'', ''displayname'', ''active'', ''emails'', ''emails.value'', ''emails.primary'']"
  "map ToLower (common_attributes @ attribute_paths Group_schema) = [''schemas'', ''id'', ''externalid'', ''meta'',
     ''displayname'', ''members'', ''members.value'', ''members.$ref'', ''members.type'', ''members.display'']"
  unfolding schema_names common_attributes_def by code_simp+

lemma filter_attributes:
  "userAttrs a \<noteq> None \<Longrightarrow> a \<in> lower_paths User_schema" "groupAttrs a \<noteq> None \<Longrightarrow> a \<in> lower_paths Group_schema"
  unfolding lower_paths_def lowered by (auto simp: userAttrs_def groupAttrs_def split: if_splits)

lemma patch_attributes:
  "users_add_leaf ps p raw = Inr ps' \<or> users_replace_leaf ps p raw = Inr ps' \<or> Users_applyRemove ps p = Inr ps' \<Longrightarrow>
     Path_Attr p \<in> lower_names User_schema"
  "groups_add_leaf up st p raw = Inr st' \<or> groups_replace_leaf up st p raw = Inr st' \<or> Groups_applyRemove up st p = Inr st' \<Longrightarrow>
     Path_Attr p \<in> lower_names Group_schema"
  unfolding lower_names_def lowered
  by (auto simp: users_add_leaf_def users_replace_leaf_def Users_applyRemove_def groups_add_leaf_def groups_replace_leaf_def
      Groups_applyRemove_def split: if_splits)

lemma omit_lookup:
  "map_of (omit_string k s) a = (if a = k \<and> s \<noteq> [] then Some (JStr s) else None)"
  "map_of (omit_list k js) a = (if a = k \<and> js \<noteq> [] then Some (JArr js) else None)"
  "map_of (omit_ptr k f p) a = (if a = k then map_option f p else None)"
  by (simp_all add: omit_string_def omit_list_def omit_ptr_def split: option.splits)

lemma lacking_user: "lacks_required User_schema (user_members env u) \<longleftrightarrow> us_UserName u = []"
  by (simp add: lacks_required_def User_schema_def user_members_def map_add_def omit_lookup)

lemma lacking_group: "lacks_required Group_schema (group_members env g) \<longleftrightarrow> gr_DisplayName g = []"
  by (simp add: lacks_required_def Group_schema_def group_members_def map_add_def omit_lookup)

lemma list_pages:
  assumes "store_List pg_where k provider sql args offset limit w s = (Inr (rows, n), s')"
  shows "length rows \<le> nat limit"
proof -
  from assms obtain raw x where "page_rows limit offset x = Inr raw" "map_res (decode_row k) raw = Inr rows"
    by (auto simp: store_List_def bind_Inr elim!: exec_Inr_ctx split: sum.splits)
  then have "length rows = length raw" "length raw \<le> nat limit"
    by (auto simp: page_rows_def pg_error_def map_res_Inr length_page split: if_splits dest: list_all2_lengthD)
  then show ?thesis by simp
qed

text \<open>The length of the list in a response.\<close>

fun listed :: "scim_body \<Rightarrow> nat" where
  "listed (UserListDoc us n i) = length us"
| "listed (GroupListDoc gs n i) = length gs"
| "listed _ = 0"

lemma list_count_max: "list_count q \<le> fl_MaxResults (spc_Filter provider_capabilities)"
  by (simp add: list_count_def maxListCount_def provider_capabilities_def scimMaxFilterResults_def)

lemma responses_bounded:
  "UsersHandler_List v ctx q w s = (Inr resp, s') \<Longrightarrow> listed (sp_Body resp) \<le> nat (list_count q)"
  "GroupsHandler_List v ctx q w s = (Inr resp, s') \<Longrightarrow> listed (sp_Body resp) \<le> nat (list_count q)"
  by (auto simp: UsersHandler_List_def GroupsHandler_List_def Users_List_def Groups_List_def Groups_repo_List_def with_provider_def
      scim_respond_def bind_Inr WriteJSON_def WriteError_def dest!: list_pages split: option.splits prod.splits sum.splits if_splits)

lemma lacking_refused:
  "lacks_required User_schema (user_members env u) \<Longrightarrow> Users_Create env provider u w s = (Inl (UsersE Users_ErrUserNameRequired), s)"
  "lacks_required Group_schema (group_members env g) \<Longrightarrow>
     Groups_Create up env provider g w s = (Inl (GroupsE Groups_ErrDisplayNameRequired), s)"
  by (simp_all add: lacking_user lacking_group Users_Create_def Groups_Create_def throw_def)

subsection \<open>The property\<close>

text \<open>
  C40. The discovery documents tell a client the truth about the endpoints. A rendered user or group has no
  member beside the advertised and the common attributes, nor have its emails and members; what a filter
  accepts is an advertised path or a common attribute; what an operation of a patch changes is an advertised
  attribute; a resource without an attribute that is advertised as required is refused and nothing happens;
  and no list is longer than the advertised maximum.
\<close>

theorem discovery_truthful:
  "advertised User_schema (user_members env (Users_FromStored env su))
   \<and> advertised Group_schema (group_members env (Groups_FromStored env sg))
   \<and> list_all (\<lambda>e. list_all (\<lambda>(k, v). k \<in> set (attribute_names (sub_attributes User_schema ''emails''))) (email_members e))
       (us_Emails (Users_FromStored env su))
   \<and> list_all (\<lambda>(k, v). k \<in> set (attribute_names (sub_attributes Group_schema ''members''))) (member_members m)
   \<and> (userAttrs a \<noteq> None \<longrightarrow> a \<in> lower_paths User_schema) \<and> (groupAttrs a \<noteq> None \<longrightarrow> a \<in> lower_paths Group_schema)
   \<and> (users_add_leaf ps p raw = Inr ps' \<or> users_replace_leaf ps p raw = Inr ps' \<or> Users_applyRemove ps p = Inr ps'
        \<longrightarrow> Path_Attr p \<in> lower_names User_schema)
   \<and> (groups_add_leaf up st p raw = Inr st' \<or> groups_replace_leaf up st p raw = Inr st' \<or> Groups_applyRemove up st p = Inr st'
        \<longrightarrow> Path_Attr p \<in> lower_names Group_schema)
   \<and> (lacks_required User_schema (user_members env u)
        \<longrightarrow> Users_Create env provider u w s = (Inl (UsersE Users_ErrUserNameRequired), s))
   \<and> (lacks_required Group_schema (group_members env g)
        \<longrightarrow> Groups_Create up env provider g w s = (Inl (GroupsE Groups_ErrDisplayNameRequired), s))
   \<and> (UsersHandler_List v ctx q w s = (Inr resp, s') \<or> GroupsHandler_List v ctx q w s = (Inr resp, s')
        \<longrightarrow> int (listed (sp_Body resp)) \<le> fl_MaxResults (spc_Filter provider_capabilities))"
proof -
  have bound: "int (listed (sp_Body resp)) \<le> fl_MaxResults (spc_Filter provider_capabilities)"
    if "UsersHandler_List v ctx q w s = (Inr resp, s') \<or> GroupsHandler_List v ctx q w s = (Inr resp, s')"
  proof -
    have "listed (sp_Body resp) \<le> nat (list_count q)" using that responses_bounded by metis
    moreover have "0 \<le> list_count q" by (simp add: list_count_def maxListCount_def)
    ultimately show ?thesis using list_count_max [of q] by linarith
  qed
  show ?thesis
    by (intro conjI impI rendered_members rendered_sub_members filter_attributes patch_attributes lacking_refused bound)
qed

definition nameless_user :: scim_user where
  "nameless_user = zero_user\<lparr>us_ExternalID := ''x''\<rparr>"

theorem discovery_truthful_witness:
  "lacks_required User_schema (user_members sample_render nameless_user)
   \<and> Users_Create sample_render ''kc'' nameless_user sample_world sample_sess = (Inl (UsersE Users_ErrUserNameRequired), sample_sess)
   \<and> ''emails.value'' \<in> lower_paths User_schema"
proof -
  have l: "lacks_required User_schema (user_members sample_render nameless_user)"
    by (simp add: lacking_user nameless_user_def zero_user_def)
  have e: "userAttrs ''emails.value'' \<noteq> None" by (simp add: userAttrs_def)
  from discovery_truthful [where env = sample_render and u = nameless_user and provider = "''kc''" and w = sample_world
      and s = sample_sess and a = "''emails.value''"] l e show ?thesis by blast
qed

text \<open>
  The schema advertises \<open>userName\<close> as unique at the server; the provider may create two users of one name.
\<close>

definition two_anns :: "bool" where
  "two_anns = (let u1 = zero_user\<lparr>us_ExternalID := ''x1'', us_UserName := ''ann''\<rparr>; u2 = u1\<lparr>us_ExternalID := ''x2''\<rparr> in
     case Users_Create sample_render ''kc'' u1 sample_world sample_sess of
       (Inl _, _) \<Rightarrow> False
     | (Inr (r1, _), s1) \<Rightarrow> (case Users_Create sample_render ''kc'' u2 sample_world s1 of
         (Inl _, _) \<Rightarrow> False
       | (Inr (r2, _), _) \<Rightarrow> us_UserName r1 = us_UserName r2))"

lemma user_name_not_unique: "two_anns"
  by code_simp

end
