(* ===== verification/Bootstrap.thy ===== *)
theory Bootstrap
  imports Config Resolver Db_Laws
begin

section \<open>The first administrators (\<open>internal/auth/bootstrap.go\<close>)\<close>

text \<open>
  At every start the configured administrators get an entity, an external identity and the membership in
  \<open>oad:admin\<close>, where they lack it. The interface \<open>BootstrapRepository\<close> has one implementation, which is
  modelled directly. \<open>rid\<close> gives the identifiers of the further rows of a statement that inserts several.
\<close>

record bootstrap_entry =
  be_Provider :: string
  be_Subject :: string

definition boot_FindEntityID :: "string \<Rightarrow> string \<Rightarrow> uuid db" where
  "boot_FindEntityID provider sub =
     no_rows_as (AuthE ErrNotProvisioned)
       (''looking up bootstrap entity for provider '' @ Quote provider @ '' subject '' @ Quote sub)
       (query_row (\<lambda>q d. map ei_entity_id
          (filter (\<lambda>i. ei_provider i = provider \<and> ei_subject i = sub) (db_identities d))))"

definition writeBootstrapAudit :: "string \<Rightarrow> string \<Rightarrow> uuid \<Rightarrow> unit db" where
  "writeBootstrapAudit op resourceType resourceID = wrap_err ''bootstrap audit log''
     (exec (insert_audit \<lparr>ae_actor = ''system:bootstrap'', ae_operation = op, ae_resource_type = resourceType,
        ae_resource_id = resourceID, ae_before = None, ae_after = None, ae_system = None\<rparr>))"

definition bootstrap_props :: json where
  "bootstrap_props = JObj [(''active'', JBool True), (''bootstrap'', JBool True), (''displayName'', JStr ''<bootstrap>'')]"

definition create_user_body :: "string \<Rightarrow> string \<Rightarrow> uuid db" where
  "create_user_body provider sub =
     bind (wrap_err ''insert bootstrap user entity'' (scan_row (exec (insert_entity_of_type ''User''
             (''bootstrap:'' @ provider @ '':'' @ sub) bootstrap_props)))) (\<lambda>e.
     bind (wrap_err ''insert external identity'' (exec (insert_identity (en_id e) provider sub))) (\<lambda>_.
     bind (writeBootstrapAudit ''create'' ''entity'' (en_id e)) (\<lambda>_. ret (en_id e))))"

definition CreateBootstrapUser :: "string \<Rightarrow> string \<Rightarrow> uuid db" where
  "CreateBootstrapUser provider sub = tx_do ''begin tx'' (\<lambda>c. c) (create_user_body provider sub)"

definition HasAdminRelation :: "uuid \<Rightarrow> bool db" where
  "HasAdminRelation entityID = query (\<lambda>q d.
     list_ex (\<lambda>r. rl_subject r = entityID \<and> rl_type r = ''member_of''
       \<and> list_ex (\<lambda>g. en_id g = rl_target r \<and> en_external_id g = ''oad:admin'') (entities q d)) (relations q d))"

text \<open>\<open>INSERT ... SELECT\<close>: one row for each entity with the external identifier \<open>oad:admin\<close>.\<close>

fun insert_relation_rows :: "uuid \<Rightarrow> string \<Rightarrow> (uuid \<times> uuid) list \<Rightarrow> relation_row list statement" where
  "insert_relation_rows subj rtype [] q d = Inr ([], d)"
| "insert_relation_rows subj rtype ((i, tgt) # rows) q d =
     (case insert_relation subj rtype tgt None (q\<lparr>q_uuid := i\<rparr>) d of
        Inl e \<Rightarrow> Inl e
      | Inr (r, d1) \<Rightarrow> (case insert_relation_rows subj rtype rows q d1 of
          Inl e \<Rightarrow> Inl e
        | Inr (rs, d2) \<Rightarrow> Inr (r # rs, d2)))"

definition admin_groups :: "(uuid \<Rightarrow> nat \<Rightarrow> uuid) \<Rightarrow> query_ctx \<Rightarrow> database \<Rightarrow> (uuid \<times> uuid) list" where
  "admin_groups rid q d =
     (let groups = map en_id (filter (\<lambda>g. en_external_id g = ''oad:admin'') (entities q d))
      in zip (q_uuid q # map (rid (q_uuid q)) [1..<length groups]) groups)"

definition insert_admin_relations :: "(uuid \<Rightarrow> nat \<Rightarrow> uuid) \<Rightarrow> uuid \<Rightarrow> uuid option statement" where
  "insert_admin_relations rid entityID = (\<lambda>q d.
     case insert_relation_rows entityID ''member_of'' (admin_groups rid q d) q d of
       Inl e \<Rightarrow> Inl e
     | Inr (rs, d') \<Rightarrow> Inr (case rs of [] \<Rightarrow> None | r # _ \<Rightarrow> Some (rl_id r), d'))"

definition create_relation_body :: "(uuid \<Rightarrow> nat \<Rightarrow> uuid) \<Rightarrow> uuid \<Rightarrow> unit db" where
  "create_relation_body rid entityID =
     bind (wrap_err ''insert oad:admin relation'' (scan_row (exec (insert_admin_relations rid entityID)))) (\<lambda>relationID.
     writeBootstrapAudit ''create'' ''relation'' relationID)"

definition CreateAdminRelation :: "(uuid \<Rightarrow> nat \<Rightarrow> uuid) \<Rightarrow> uuid \<Rightarrow> unit db" where
  "CreateAdminRelation rid entityID = tx_do ''begin tx'' (\<lambda>c. c) (create_relation_body rid entityID)"

definition find_or_create :: "bootstrap_entry \<Rightarrow> uuid db" where
  "find_or_create e = catch (boot_FindEntityID (be_Provider e) (be_Subject e)) (\<lambda>err.
     if errors_Is err (AuthE ErrNotProvisioned)
     then wrap_err ''create bootstrap user'' (CreateBootstrapUser (be_Provider e) (be_Subject e))
     else throw (Wrap ''lookup external identity'' err))"

definition applyOne :: "(uuid \<Rightarrow> nat \<Rightarrow> uuid) \<Rightarrow> bootstrap_entry \<Rightarrow> unit db" where
  "applyOne rid e =
     bind (find_or_create e) (\<lambda>entityID.
     bind (wrap_err ''check admin relation'' (HasAdminRelation entityID)) (\<lambda>hasAdmin.
     if hasAdmin then ret () else wrap_err ''create admin relation'' (CreateAdminRelation rid entityID)))"

definition bootstrap_Apply :: "(uuid \<Rightarrow> nat \<Rightarrow> uuid) \<Rightarrow> bootstrap_entry list \<Rightarrow> unit db" where
  "bootstrap_Apply rid es =
     for_each es (\<lambda>e. wrap_err (''bootstrap '' @ be_Provider e @ '':'' @ be_Subject e) (applyOne rid e))"

text \<open>\<open>applyBootstrapAdmins\<close> (\<open>cmd/oad/cmd/run.go\<close>).\<close>

definition entry_of_admin :: "bootstrap_admin \<Rightarrow> bootstrap_entry" where
  "entry_of_admin ba = \<lparr>be_Provider = ba_Provider ba, be_Subject = ba_Subject ba\<rparr>"

definition applyBootstrapAdmins :: "(uuid \<Rightarrow> nat \<Rightarrow> uuid) \<Rightarrow> bootstrap_admin list \<Rightarrow> unit db" where
  "applyBootstrapAdmins rid admins =
     (if admins = [] then ret ()
      else wrap_err ''bootstrap admins''
        (bootstrap_Apply rid (map entry_of_admin admins)))"

subsection \<open>What is to be reached\<close>

definition is_admin :: "database \<Rightarrow> uuid \<Rightarrow> bool" where
  "is_admin d u \<longleftrightarrow> (\<exists>r \<in> set (db_relations d). rl_subject r = u \<and> rl_type r = ''member_of''
     \<and> (\<exists>g \<in> set (db_entities d). en_id g = rl_target r \<and> en_external_id g = ''oad:admin''))"

definition names :: "database \<Rightarrow> bootstrap_entry \<Rightarrow> uuid \<Rightarrow> bool" where
  "names d e u \<longleftrightarrow> (\<exists>i \<in> set (db_identities d). ei_provider i = be_Provider e \<and> ei_subject i = be_Subject e \<and> ei_entity_id i = u)"

definition active_user :: "database \<Rightarrow> uuid \<Rightarrow> bool" where
  "active_user d u \<longleftrightarrow> (\<exists>e \<in> set (db_entities d). en_id e = u \<and> en_system_id e = None
     \<and> jsonb_get (en_properties e) ''active'' = Some (JBool True))"

text \<open>
  Tables after a bootstrap: the old rows in their place, new ones behind them; a new relation is the
  membership in \<open>oad:admin\<close> of an entity that an entry names, a new identity leads to an active
  user, a new entity is named as the bootstrap names them.
\<close>

definition granted :: "bootstrap_entry list \<Rightarrow> database \<Rightarrow> relation_row \<Rightarrow> bool" where
  "granted es d r \<longleftrightarrow> rl_type r = ''member_of'' \<and> rl_system r = None \<and> (\<exists>e \<in> set es. names d e (rl_subject r))
     \<and> (\<exists>g \<in> set (db_entities d). en_id g = rl_target r \<and> en_external_id g = ''oad:admin'')"

definition grows :: "bootstrap_entry list \<Rightarrow> database \<Rightarrow> database \<Rightarrow> bool" where
  "grows es d d' \<longleftrightarrow> (\<exists>ents ids rels log.
     d' = d\<lparr>db_entities := db_entities d @ ents, db_identities := db_identities d @ ids,
            db_relations := db_relations d @ rels, db_audit := db_audit d @ log\<rparr>
     \<and> list_all (granted es d') rels \<and> list_all (\<lambda>i. active_user d' (ei_entity_id i)) ids
     \<and> list_all (\<lambda>e. prefix ''bootstrap:'' (en_external_id e)) ents)"

lemma grows_sub:
  assumes "grows es d d'"
  shows "set (db_entities d) \<subseteq> set (db_entities d')" "set (db_identities d) \<subseteq> set (db_identities d')"
    "set (db_relations d) \<subseteq> set (db_relations d')" "db_types d' = db_types d"
  using assms by (auto simp: grows_def)

lemma names_mono: "grows es d d' \<Longrightarrow> names d e u \<Longrightarrow> names d' e u"
  unfolding names_def by (blast dest: grows_sub(2))

lemma is_admin_mono: "grows es d d' \<Longrightarrow> is_admin d u \<Longrightarrow> is_admin d' u"
  unfolding is_admin_def by (blast dest: grows_sub(1,3))

lemma active_user_mono: "grows es d d' \<Longrightarrow> active_user d u \<Longrightarrow> active_user d' u"
  unfolding active_user_def by (blast dest: grows_sub(1))

lemma granted_mono: "grows es d d' \<Longrightarrow> granted es' d r \<Longrightarrow> granted es' d' r"
  unfolding granted_def by (blast dest: grows_sub(1) names_mono)

lemma grows_refl: "grows es d d"
  unfolding grows_def by (intro exI [of _ "[]"]) simp

lemma grows_trans:
  assumes "grows es d d1" "grows es d1 d2"
  shows "grows es d d2"
proof -
  from assms(1) obtain n1 i1 r1 l1 where 1: "d1 = d\<lparr>db_entities := db_entities d @ n1, db_identities := db_identities d @ i1,
      db_relations := db_relations d @ r1, db_audit := db_audit d @ l1\<rparr>" "list_all (granted es d1) r1"
    "list_all (\<lambda>i. active_user d1 (ei_entity_id i)) i1" "list_all (\<lambda>e. prefix ''bootstrap:'' (en_external_id e)) n1"
    unfolding grows_def by blast
  from assms(2) obtain n2 i2 r2 l2 where 2: "d2 = d1\<lparr>db_entities := db_entities d1 @ n2, db_identities := db_identities d1 @ i2,
      db_relations := db_relations d1 @ r2, db_audit := db_audit d1 @ l2\<rparr>" "list_all (granted es d2) r2"
    "list_all (\<lambda>i. active_user d2 (ei_entity_id i)) i2" "list_all (\<lambda>e. prefix ''bootstrap:'' (en_external_id e)) n2"
    unfolding grows_def by blast
  from 1(2) granted_mono [OF assms(2)] have "list_all (granted es d2) r1" by (simp add: list_all_iff)
  moreover from 1(3) active_user_mono [OF assms(2)] have "list_all (\<lambda>i. active_user d2 (ei_entity_id i)) i1" by (simp add: list_all_iff)
  ultimately show ?thesis using 1(1,4) 2 unfolding grows_def
    by (intro exI [of _ "n1 @ n2"] exI [of _ "i1 @ i2"] exI [of _ "r1 @ r2"] exI [of _ "l1 @ l2"]) simp
qed

lemma granted_wider: "granted es d r \<Longrightarrow> set es \<subseteq> set es' \<Longrightarrow> granted es' d r"
  by (auto simp: granted_def)

lemma grows_wider:
  assumes "grows es d d'" "set es \<subseteq> set es'"
  shows "grows es' d d'"
proof -
  from assms(1) obtain ents ids rels log where g: "d' = d\<lparr>db_entities := db_entities d @ ents,
      db_identities := db_identities d @ ids, db_relations := db_relations d @ rels, db_audit := db_audit d @ log\<rparr>"
    "list_all (granted es d') rels" "list_all (\<lambda>i. active_user d' (ei_entity_id i)) ids"
    "list_all (\<lambda>e. prefix ''bootstrap:'' (en_external_id e)) ents"
    unfolding grows_def by blast
  from g(2) granted_wider [OF _ assms(2)] have "list_all (granted es' d') rels" by (simp add: list_all_iff)
  with g show ?thesis unfolding grows_def by blast
qed

subsection \<open>The statements\<close>

lemma insert_relation_rows_Inr:
  "insert_relation_rows subj rtype rows q d = Inr (rs, d') \<Longrightarrow>
     d' = d\<lparr>db_relations := db_relations d @ rs\<rparr> \<and> length rs = length rows
     \<and> (\<forall>r \<in> set rs. rl_subject r = subj \<and> rl_type r = rtype \<and> rl_system r = None \<and> rl_target r \<in> snd ` set rows)"
proof (induction rows arbitrary: d rs d')
  case (Cons row rows)
  obtain i tgt where row: "row = (i, tgt)" by fastforce
  from Cons.prems obtain r d1 rs1 where 1: "insert_relation subj rtype tgt None (q\<lparr>q_uuid := i\<rparr>) d = Inr (r, d1)"
    "insert_relation_rows subj rtype rows q d1 = Inr (rs1, d')" "rs = r # rs1"
    by (auto simp: row split: sum.splits)
  from 1(1) have r: "d1 = d\<lparr>db_relations := db_relations d @ [r]\<rparr>" "rl_subject r = subj" "rl_type r = rtype" "rl_target r = tgt"
    "rl_system r = None"
    by (auto simp: insert_relation_def Let_def pg_error_def split: if_splits)
  from Cons.IH [OF 1(2)] r 1(3) show ?case by (auto simp: row)
qed simp

lemma insert_relation_rows_ok: "insert_relation_rows subj rtype rows q d = Inr (rs, d') \<Longrightarrow> db_ok d \<Longrightarrow> db_ok d'"
proof (induction rows arbitrary: d rs d')
  case (Cons row rows)
  obtain i tgt where row: "row = (i, tgt)" by fastforce
  from Cons.prems(1) obtain r d1 rs1 where "insert_relation subj rtype tgt None (q\<lparr>q_uuid := i\<rparr>) d = Inr (r, d1)"
    "insert_relation_rows subj rtype rows q d1 = Inr (rs1, d')"
    by (auto simp: row split: sum.splits)
  with Cons.IH db_ok_insert_relation Cons.prems(2) show ?case by blast
qed simp

definition admin_row :: "uuid \<Rightarrow> database \<Rightarrow> relation_row \<Rightarrow> bool" where
  "admin_row u d r \<longleftrightarrow> rl_subject r = u \<and> rl_type r = ''member_of'' \<and> rl_system r = None
     \<and> (\<exists>g \<in> set (db_entities d). en_id g = rl_target r \<and> en_external_id g = ''oad:admin'')"

lemma insert_identity_Inr:
  "insert_identity u p s q d = Inr (x, d') \<Longrightarrow>
     \<exists>i. d' = d\<lparr>db_identities := db_identities d @ [i]\<rparr> \<and> ei_provider i = p \<and> ei_subject i = s \<and> ei_entity_id i = u"
  by (auto simp: insert_identity_def Let_def pg_error_def split: if_splits)

lemma insert_admin_relations_Inr:
  assumes "insert_admin_relations rid u q d = Inr (Some i, d')"
  obtains rs where "d' = d\<lparr>db_relations := db_relations d @ rs\<rparr>" "rs \<noteq> []" "\<forall>r \<in> set rs. admin_row u d r"
proof -
  from assms obtain rs where rows: "insert_relation_rows u ''member_of'' (admin_groups rid q d) q d = Inr (rs, d')" and ne: "rs \<noteq> []"
    unfolding insert_admin_relations_def by (cases "insert_relation_rows u ''member_of'' (admin_groups rid q d) q d")
      (simp_all split: prod.splits list.splits)
  have "snd ` set (zip xs ys) \<subseteq> set ys" for xs ys :: "uuid list" by (auto dest: set_zip_rightD)
  then have "snd ` set (admin_groups rid q d) \<subseteq> en_id ` {g \<in> set (db_entities d). en_external_id g = ''oad:admin''}"
    unfolding admin_groups_def Let_def by (rule order_trans) (auto simp: entities_def)
  note groups = subsetD [OF this]
  have g: "\<exists>g \<in> set (db_entities d). en_id g = x \<and> en_external_id g = ''oad:admin''" if "x \<in> snd ` set (admin_groups rid q d)" for x
    using groups [OF that] by auto
  note r = insert_relation_rows_Inr [OF rows]
  show thesis
  proof (rule that [OF _ ne])
    show "d' = d\<lparr>db_relations := db_relations d @ rs\<rparr>" using r by blast
    show "\<forall>x \<in> set rs. admin_row u d x" unfolding admin_row_def using r g by blast
  qed
qed

lemma boot_statements [db_intros]:
  "preserving keeps_ok (exec (insert_admin_relations rid u))" "preserving keeps_ok (writeBootstrapAudit op t i)"
  unfolding writeBootstrapAudit_def
  by (intro preserving_exec db_intros; auto simp: keeps_ok_def insert_admin_relations_def insert_audit_def pg_error_def
      db_ok_def entity_ids_def intro: reflpI dest: insert_relation_rows_ok split: sum.splits if_splits)+

subsection \<open>The transactions\<close>

lemma tx_do_result:
  assumes "tx_do c (\<lambda>c. c) m w s = (r, s')" "s_tx s = None" "keeps_snapshot m"
    "\<And>s1 x s2. s_db s1 = s_db s \<Longrightarrow> m w s1 = (Inr x, s2) \<Longrightarrow> P x (s_db s2)"
  shows "s_tx s' = None \<and> (case r of Inr x \<Rightarrow> P x (s_db s') | Inl e \<Rightarrow> s_db s' = s_db s \<or> (\<exists>x. P x (s_db s')))"
proof -
  note at = tx_do_atomic [where wrap = "\<lambda>c. c", OF assms(1-3) disjI2, OF refl]
  show ?thesis
  proof (cases r)
    case (Inl e)
    with at assms(4) show ?thesis by simp metis
  next
    case (Inr x)
    with at assms(4) show ?thesis by simp metis
  qed
qed

lemma insert_audit_Inr: "insert_audit a q d = Inr (x, d') \<Longrightarrow> \<exists>row. d' = d\<lparr>db_audit := db_audit d @ [row]\<rparr>"
  by (auto simp: insert_audit_def pg_error_def split: if_splits)

lemma writeBootstrapAudit_Inr:
  "writeBootstrapAudit op t i w s = (Inr x, s') \<Longrightarrow> \<exists>row. s_db s' = (s_db s)\<lparr>db_audit := db_audit (s_db s) @ [row]\<rparr>"
  unfolding writeBootstrapAudit_def wrap_err_Inr by (drule exec_Inr) (blast dest: insert_audit_Inr)

definition boot_step :: "bootstrap_entry \<Rightarrow> (database \<Rightarrow> bool) \<Rightarrow> database \<Rightarrow> database \<Rightarrow> bool" where
  "boot_step e P d d' \<longleftrightarrow> grows [e] d d' \<and> keeps_ok d d' \<and> P d'"

lemma boot_bodies_ok:
  "preserving keeps_ok (create_user_body p n)" "preserving keeps_ok (create_relation_body rid u)"
  unfolding create_user_body_def create_relation_body_def by (intro db_intros)+

lemmas boot_bodies = boot_bodies_ok [THEN preserving_keeps_snapshot]

lemma create_user_step:
  assumes "create_user_body (be_Provider e) (be_Subject e) w s = (Inr u, s')"
  shows "boot_step e (\<lambda>d'. names d' e u) (s_db s) (s_db s')"
proof -
  from assms obtain row s1 s2 where 1: "exec (insert_entity_of_type ''User'' (''bootstrap:'' @ be_Provider e @ '':'' @ be_Subject e)
      bootstrap_props) w s = (Inr (Some row), s1)"
    and 2: "exec (insert_identity (en_id row) (be_Provider e) (be_Subject e)) w s1 = (Inr (), s2)"
    and 3: "writeBootstrapAudit ''create'' ''entity'' (en_id row) w s2 = (Inr (), s')" and u: "u = en_id row"
    by (auto simp: create_user_body_def bind_Inr)
  from exec_Inr [OF 1] have db1: "s_db s1 = (s_db s)\<lparr>db_entities := db_entities (s_db s) @ [row]\<rparr>"
    "en_properties row = bootstrap_props" "en_system_id row = None" "en_external_id row = ''bootstrap:'' @ be_Provider e @ '':'' @ be_Subject e"
    by (auto simp: insert_entity_of_type_def insert_entity_def Let_def pg_error_def split: option.splits if_splits sum.splits)
  from exec_Inr [OF 2] insert_identity_Inr obtain i where db2: "s_db s2 = (s_db s1)\<lparr>db_identities := db_identities (s_db s1) @ [i]\<rparr>"
    "ei_provider i = be_Provider e" "ei_subject i = be_Subject e" "ei_entity_id i = u"
    unfolding u by blast
  from writeBootstrapAudit_Inr [OF 3] obtain a where db3: "s_db s' = (s_db s2)\<lparr>db_audit := db_audit (s_db s2) @ [a]\<rparr>" by blast
  have a: "active_user (s_db s') u" by (auto simp: active_user_def db1 db2 db3 u bootstrap_props_def jsonb_get_def)
  then have "grows [e] (s_db s) (s_db s')" unfolding grows_def
    by (intro exI [of _ "[row]"] exI [of _ "[i]"] exI [of _ "[]"] exI [of _ "[a]"]) (simp add: db1(1,4) db2(1,4) db3)
  moreover have "names (s_db s') e u" by (auto simp: names_def db1 db2 db3)
  moreover have "keeps_ok (s_db s) (s_db s')" by (rule preservingD(1) [OF boot_bodies_ok(1) assms])
  ultimately show ?thesis by (simp add: boot_step_def)
qed

lemma create_relation_step:
  assumes "create_relation_body rid u w s = (Inr x, s')" "names (s_db s) e u"
  shows "boot_step e (\<lambda>d'. is_admin d' u) (s_db s) (s_db s')"
proof -
  from assms(1) obtain i s1 where 1: "exec (insert_admin_relations rid u) w s = (Inr (Some i), s1)"
    and 2: "writeBootstrapAudit ''create'' ''relation'' i w s1 = (Inr (), s')"
    by (auto simp: create_relation_body_def bind_Inr)
  from exec_Inr [OF 1] obtain q where "insert_admin_relations rid u q (s_db s) = Inr (Some i, s_db s1)" by blast
  then obtain rs where db1: "s_db s1 = (s_db s)\<lparr>db_relations := db_relations (s_db s) @ rs\<rparr>" "rs \<noteq> []"
    "\<forall>r \<in> set rs. admin_row u (s_db s) r"
    by (rule insert_admin_relations_Inr)
  from writeBootstrapAudit_Inr [OF 2] obtain a where db2: "s_db s' = (s_db s1)\<lparr>db_audit := db_audit (s_db s1) @ [a]\<rparr>" by blast
  have n: "names (s_db s') e u" using assms(2) by (simp add: names_def db1 db2)
  have ents: "db_entities (s_db s') = db_entities (s_db s)" by (simp add: db1(1) db2)
  have "list_all (granted [e] (s_db s')) rs"
    using db1(3) n by (simp add: list_all_iff granted_def admin_row_def ents)
  then have "grows [e] (s_db s) (s_db s')" unfolding grows_def
    by (intro exI [of _ "[]"] exI [of _ rs] exI [of _ "[a]"]) (simp add: db1(1) db2)
  moreover have "is_admin (s_db s') u"
  proof -
    from db1(2) have "hd rs \<in> set rs" by simp
    with db1(3) show ?thesis unfolding is_admin_def ents by (intro bexI [of _ "hd rs"]) (simp_all add: admin_row_def db1(1) db2)
  qed
  moreover have "keeps_ok (s_db s) (s_db s')" by (rule preservingD(1) [OF boot_bodies_ok(2) assms(1)])
  ultimately show ?thesis by (simp add: boot_step_def)
qed

subsection \<open>One entry\<close>

lemma outside_tx: "preserving R m \<Longrightarrow> m w s = (r, s') \<Longrightarrow> s_tx s = None \<Longrightarrow> s_tx s' = None"
  using preservingD(2) by fastforce

lemma FindEntityID_result:
  assumes "boot_FindEntityID (be_Provider e) (be_Subject e) w s = (r, s')" "s_tx s = None"
  shows "s_db s' = s_db s \<and> s_tx s' = None \<and> (\<forall>u. r = Inr u \<longrightarrow> names (s_db s) e u)"
proof -
  have p: "preserving same_db (boot_FindEntityID (be_Provider e) (be_Subject e))"
    unfolding boot_FindEntityID_def by (intro db_intros)
  have "names (s_db s) e u" if "r = Inr u" for u
  proof -
    from assms(1) that have "query_row (\<lambda>q d. map ei_entity_id
        (filter (\<lambda>i. ei_provider i = be_Provider e \<and> ei_subject i = be_Subject e) (db_identities d))) w s = (Inr u, s')"
      by (simp add: boot_FindEntityID_def no_rows_as_def)
    from query_row_Inr [OF this] have "\<exists>ys. map ei_entity_id (filter (\<lambda>i. ei_provider i = be_Provider e \<and> ei_subject i = be_Subject e)
        (db_identities (s_db s))) = u # ys"
      by (elim exE conjE) (rule exI)
    then have "u \<in> set (map ei_entity_id (filter (\<lambda>i. ei_provider i = be_Provider e \<and> ei_subject i = be_Subject e)
        (db_identities (s_db s))))" by (elim exE) simp
    then show ?thesis by (auto simp: names_def)
  qed
  with preservingD(1) [OF p assms(1)] outside_tx [OF p assms] show ?thesis by (simp add: same_db_def)
qed

definition boot_result :: "bootstrap_entry \<Rightarrow> (database \<Rightarrow> bool) \<Rightarrow> sess \<Rightarrow> sess \<Rightarrow> bool \<Rightarrow> bool" where
  "boot_result e P s s' ok \<longleftrightarrow> s_tx s' = None \<and> boot_step e (\<lambda>_. True) (s_db s) (s_db s') \<and> (ok \<longrightarrow> P (s_db s'))"

lemma boot_result_same: "s_tx s' = None \<Longrightarrow> s_db s' = s_db s \<Longrightarrow> ok \<longrightarrow> P (s_db s) \<Longrightarrow> boot_result e P s s' ok"
  by (simp add: boot_result_def boot_step_def grows_refl keeps_ok_def)

lemma boot_result_tx:
  assumes "tx_do c (\<lambda>c. c) m w s = (r, s')" "s_tx s = None" "keeps_snapshot m"
    "\<And>s1 x s2. s_db s1 = s_db s \<Longrightarrow> m w s1 = (Inr x, s2) \<Longrightarrow> boot_step e (P x) (s_db s1) (s_db s2)"
  shows "boot_result e (\<lambda>d. \<forall>x. r = Inr x \<longrightarrow> P x d) s s' True"
proof -
  have "s_tx s' = None \<and> (case r of Inr x \<Rightarrow> boot_step e (P x) (s_db s) (s_db s')
      | Inl e' \<Rightarrow> s_db s' = s_db s \<or> (\<exists>x. boot_step e (P x) (s_db s) (s_db s')))"
    by (rule tx_do_result [OF assms(1-3)]) (use assms(4) in metis)
  then show ?thesis
    by (cases r) (auto simp: boot_result_def boot_step_def grows_refl keeps_ok_def)
qed

lemma find_or_create_step:
  assumes "find_or_create e w s = (r, s')" "s_tx s = None"
  shows "boot_result e (\<lambda>d. \<forall>u. r = Inr u \<longrightarrow> names d e u) s s' True"
proof -
  obtain r1 s1 where f: "boot_FindEntityID (be_Provider e) (be_Subject e) w s = (r1, s1)" by fastforce
  note fr = FindEntityID_result [OF f assms(2)]
  show ?thesis
  proof (cases "\<exists>err. r1 = Inl err \<and> errors_Is err (AuthE ErrNotProvisioned)")
    case True
    let ?create = "CreateBootstrapUser (be_Provider e) (be_Subject e)"
    obtain r2 s2 where c2: "?create w s1 = (r2, s2)" by fastforce
    from True obtain err where err: "r1 = Inl err" "errors_Is err (AuthE ErrNotProvisioned)" by blast
    have "wrap_err ''create bootstrap user'' ?create w s1 = (r, s')"
      using assms(1) by (simp add: find_or_create_def catch_def f err)
    with c2 have "s2 = s' \<and> (\<forall>u. r = Inr u \<longrightarrow> r2 = Inr u)"
      by (cases r2) (auto simp: wrap_err_def catch_def throw_def)
    then have r: "\<forall>u. r = Inr u \<longrightarrow> r2 = Inr u" and c: "?create w s1 = (r2, s')" using c2 by simp_all
    have "s_tx s1 = None" "s_db s1 = s_db s" using fr by simp_all
    have "boot_result e (\<lambda>d. \<forall>u. r2 = Inr u \<longrightarrow> names d e u) s1 s' True"
      by (rule boot_result_tx [where P = "\<lambda>u d. names d e u", OF c [unfolded CreateBootstrapUser_def]
            \<open>s_tx s1 = None\<close> boot_bodies(1)])
        (rule create_user_step)
    with r show ?thesis unfolding boot_result_def \<open>s_db s1 = s_db s\<close> by blast
  next
    case False
    have 1: "s' = s1 \<and> (\<forall>u. r = Inr u \<longrightarrow> r1 = Inr u)"
    proof (cases r1)
      case (Inl err)
      with False have "\<not> errors_Is err (AuthE ErrNotProvisioned)" by blast
      with assms(1) Inl show ?thesis by (auto simp: find_or_create_def catch_def throw_def f)
    qed (use assms(1) in \<open>simp add: find_or_create_def catch_def f\<close>)
    then have "s' = s1" by (rule conjunct1)
    with fr have "s_tx s' = None" "s_db s' = s_db s" by simp_all
    then show ?thesis by (rule boot_result_same) (use fr 1 in blast)
  qed
qed

lemma HasAdminRelation_result:
  assumes "HasAdminRelation u w s = (r, s')" "s_tx s = None"
  shows "s_db s' = s_db s \<and> s_tx s' = None \<and> (r = Inr True \<longrightarrow> is_admin (s_db s) u)"
proof -
  have p: "preserving same_db (HasAdminRelation u)" unfolding HasAdminRelation_def by (intro db_intros)
  have "is_admin (s_db s) u" if "r = Inr True"
    using query_Inr [OF assms(1) [unfolded HasAdminRelation_def that]]
    by (auto simp: is_admin_def list_ex_iff relations_def entities_def)
  with preservingD(1) [OF p assms(1)] outside_tx [OF p assms] show ?thesis by (simp add: same_db_def)
qed

definition provided :: "bootstrap_entry \<Rightarrow> database \<Rightarrow> bool" where
  "provided e d \<longleftrightarrow> (\<exists>u. names d e u \<and> is_admin d u)"

lemma provided_mono: "grows es d d' \<Longrightarrow> provided e d \<Longrightarrow> provided e d'"
  unfolding provided_def by (blast intro: names_mono is_admin_mono)

lemma boot_step_trans: "boot_step e P d d1 \<Longrightarrow> boot_step e Q d1 d2 \<Longrightarrow> boot_step e Q d d2"
  by (auto simp: boot_step_def keeps_ok_def intro: grows_trans)

lemma applyOne_step:
  assumes "applyOne rid e w s = (r, s')" "s_tx s = None"
  shows "boot_result e (provided e) s s' (r = Inr ())"
proof -
  obtain r1 s1 where f: "find_or_create e w s = (r1, s1)" by fastforce
  note fr = find_or_create_step [OF f assms(2)]
  show ?thesis
  proof (cases r1)
    case (Inl err)
    with f assms(1) have "r = Inl err" "s' = s1" by (simp_all add: applyOne_def bind_def)
    with fr show ?thesis by (simp add: boot_result_def)
  next
    case (Inr u)
    with fr have s1: "s_tx s1 = None" "boot_step e (\<lambda>_. True) (s_db s) (s_db s1)"
      and u: "names (s_db s1) e u"
      by (simp_all add: boot_result_def)
    obtain r2 s2 where h: "HasAdminRelation u w s1 = (r2, s2)" by fastforce
    note hr = HasAdminRelation_result [OF h s1(1)]
    obtain r3 s3 where c: "CreateAdminRelation rid u w s2 = (r3, s3)" by fastforce
    have "boot_result e (\<lambda>d. \<forall>x. r3 = Inr x \<longrightarrow> is_admin d u) s2 s3 True"
      by (rule boot_result_tx [OF c [unfolded CreateAdminRelation_def] _ boot_bodies(2)])
        (use hr u in simp, erule create_relation_step, use hr u in simp)
    then have cr: "s_tx s3 = None" "boot_step e (\<lambda>_. True) (s_db s1) (s_db s3)" "\<forall>x. r3 = Inr x \<longrightarrow> is_admin (s_db s3) u"
      using hr by (simp_all add: boot_result_def)
    have g: "grows [e] (s_db s1) (s_db s3)" using cr(2) by (simp add: boot_step_def)
    have "r3 = Inr () \<longrightarrow> provided e (s_db s3)" unfolding provided_def using cr(3) names_mono [OF g u] by blast
    then have sum: "boot_result e (provided e) s s3 (r3 = Inr ())"
      using cr(1) boot_step_trans [OF s1(2) cr(2)] by (simp add: boot_result_def)
    from f Inr h c assms(1) consider (idle) "s' = s2" "r = Inr () \<longrightarrow> r2 = Inr True"
      | (made) "s' = s3" "r = Inr () \<longleftrightarrow> r3 = Inr ()"
      by (cases r2; cases r3) (auto simp: applyOne_def bind_def wrap_err_def catch_def throw_def ret_def split: if_splits)
    then show ?thesis
    proof cases
      case idle
      with hr s1 u show ?thesis by (auto simp: boot_result_def provided_def)
    next
      case made
      with sum show ?thesis by simp
    qed
  qed
qed

subsection \<open>All entries\<close>

lemma bootstrap_Apply_step:
  "bootstrap_Apply rid es w s = (r, s') \<Longrightarrow> s_tx s = None \<Longrightarrow>
     s_tx s' = None \<and> grows es (s_db s) (s_db s') \<and> keeps_ok (s_db s) (s_db s')
     \<and> (r = Inr () \<longrightarrow> (\<forall>e \<in> set es. provided e (s_db s')))"
proof (induction es arbitrary: s)
  case Nil
  then show ?case by (simp add: bootstrap_Apply_def ret_def grows_refl keeps_ok_def)
next
  case (Cons e es)
  obtain r1 s1 where a: "applyOne rid e w s = (r1, s1)" by fastforce
  from applyOne_step [OF a Cons.prems(2)] have s1: "s_tx s1 = None" "grows [e] (s_db s) (s_db s1)" "keeps_ok (s_db s) (s_db s1)"
    "r1 = Inr () \<longrightarrow> provided e (s_db s1)"
    by (simp_all add: boot_result_def boot_step_def)
  have g1: "grows (e # es) (s_db s) (s_db s1)" by (rule grows_wider [OF s1(2)]) simp
  show ?case
  proof (cases r1)
    case (Inl err)
    with a Cons.prems(1) have "s' = s1" "r \<noteq> Inr ()"
      by (auto simp: bootstrap_Apply_def bind_def wrap_err_def catch_def throw_def)
    with s1 g1 show ?thesis by simp
  next
    case (Inr x)
    with a Cons.prems(1) have "bootstrap_Apply rid es w s1 = (r, s')"
      by (simp add: bootstrap_Apply_def bind_def wrap_err_def catch_def)
    note IH = Cons.IH [OF this s1(1)]
    then have g2: "grows (e # es) (s_db s1) (s_db s')" by (auto elim: grows_wider)
    show ?thesis
      using IH s1(3,4) Inr grows_trans [OF g1 g2] provided_mono [OF g2]
      by (simp add: keeps_ok_def)
  qed
qed

lemma applyBootstrapAdmins_wrap:
  "applyBootstrapAdmins rid admins = wrap_err ''bootstrap admins'' (bootstrap_Apply rid (map entry_of_admin admins))"
  by (simp add: applyBootstrapAdmins_def bootstrap_Apply_def wrap_err_def catch_def ret_def)

lemma applyBootstrapAdmins_step:
  assumes "applyBootstrapAdmins rid admins w s = (r, s')" "s_tx s = None"
  shows "s_tx s' = None \<and> grows (map entry_of_admin admins) (s_db s) (s_db s') \<and> keeps_ok (s_db s) (s_db s')
     \<and> (r = Inr () \<longrightarrow> (\<forall>ba \<in> set admins. provided (entry_of_admin ba) (s_db s')))"
proof -
  obtain r1 s1 where a: "bootstrap_Apply rid (map entry_of_admin admins) w s = (r1, s1)" by fastforce
  with assms(1) have "s' = s1 \<and> (r = Inr () \<longrightarrow> r1 = Inr ())"
    by (cases r1) (auto simp: applyBootstrapAdmins_wrap wrap_err_def catch_def throw_def)
  with bootstrap_Apply_step [OF a assms(2)] show ?thesis by simp
qed

subsection \<open>Once provided\<close>

lemma linked_names:
  assumes "db_ok d" "names d e u"
  shows "linked d (be_Provider e) (be_Subject e) = Some u"
proof -
  let ?P = "\<lambda>i. ei_provider i = be_Provider e \<and> ei_subject i = be_Subject e"
  from assms(2) obtain i where i: "i \<in> set (db_identities d)" "?P i" "ei_entity_id i = u" by (auto simp: names_def)
  from i(1,2) obtain j where f: "find ?P (db_identities d) = Some j"
    by (cases "find ?P (db_identities d)") (auto simp: find_None_iff)
  then have j: "j \<in> set (db_identities d)" "?P j" by (auto simp: find_Some_iff)
  from assms(1) have "distinct (map (\<lambda>i. (ei_provider i, ei_subject i)) (db_identities d))" by (simp add: db_ok_def)
  with i j have "j = i" by (auto simp: distinct_map inj_on_def)
  with f i(3) show ?thesis by (simp add: linked_def)
qed

lemma boot_FindEntityID_linked:
  assumes "quiet w v" "s_tx s = None" "linked (s_db s) p n = Some u"
  shows "boot_FindEntityID p n w s = (Inr u, s\<lparr>s_n := Suc (s_n s)\<rparr>)"
proof -
  from assms(3) obtain i where i: "find (\<lambda>i. ei_provider i = p \<and> ei_subject i = n) (db_identities (s_db s)) = Some i" "ei_entity_id i = u"
    by (auto simp: linked_def)
  from find_filter(2) [OF i(1)] obtain ys where
    "filter (\<lambda>i. ei_provider i = p \<and> ei_subject i = n) (db_identities (s_db s)) = i # ys" by blast
  with i(2) show ?thesis
    by (simp add: boot_FindEntityID_def no_rows_as_def catch_def query_row_quiet [OF assms(1,2)])
qed

lemma visible_empty: "entities (view_ctx w SetEmpty) d = db_entities d" "relations (view_ctx w SetEmpty) d = db_relations d"
  by (simp_all add: entities_def relations_def visible_def view_ctx_def)

lemma HasAdminRelation_quiet:
  assumes "quiet w SetEmpty" "s_tx s = None" "is_admin (s_db s) u"
  shows "HasAdminRelation u w s = (Inr True, s\<lparr>s_n := Suc (s_n s)\<rparr>)"
  using assms(3) by (auto simp: HasAdminRelation_def quiet_query [OF assms(1,2)] visible_empty is_admin_def list_ex_iff)

lemma applyOne_idle:
  assumes "quiet w SetEmpty" "s_tx s = None" "db_ok (s_db s)" "provided e (s_db s)"
  shows "\<exists>n. applyOne rid e w s = (Inr (), s\<lparr>s_n := n\<rparr>)"
proof -
  from assms(4) obtain u where u: "names (s_db s) e u" "is_admin (s_db s) u" by (auto simp: provided_def)
  let ?s = "s\<lparr>s_n := Suc (s_n s)\<rparr>"
  from boot_FindEntityID_linked [OF assms(1,2) linked_names [OF assms(3) u(1)]]
  have "find_or_create e w s = (Inr u, ?s)" by (simp add: find_or_create_def catch_def)
  moreover have "HasAdminRelation u w ?s = (Inr True, ?s\<lparr>s_n := Suc (s_n ?s)\<rparr>)"
    by (rule HasAdminRelation_quiet [OF assms(1)]) (simp_all add: assms(2) u(2))
  ultimately show ?thesis by (simp add: applyOne_def bind_def wrap_err_def catch_def ret_def) blast
qed

lemma bootstrap_Apply_idle:
  "quiet w SetEmpty \<Longrightarrow> s_tx s = None \<Longrightarrow> db_ok (s_db s) \<Longrightarrow> \<forall>e \<in> set es. provided e (s_db s) \<Longrightarrow>
     \<exists>n. bootstrap_Apply rid es w s = (Inr (), s\<lparr>s_n := n\<rparr>)"
proof (induction es arbitrary: s)
  case Nil
  show ?case by (rule exI [of _ "s_n s"]) (simp add: bootstrap_Apply_def ret_def)
next
  case (Cons e es)
  then have "provided e (s_db s)" by simp
  from applyOne_idle [OF Cons.prems(1-3) this] obtain n where n: "applyOne rid e w s = (Inr (), s\<lparr>s_n := n\<rparr>)" by blast
  have "\<exists>m. bootstrap_Apply rid es w (s\<lparr>s_n := n\<rparr>) = (Inr (), s\<lparr>s_n := n\<rparr>\<lparr>s_n := m\<rparr>)"
    by (rule Cons.IH) (use Cons.prems in simp_all)
  with n show ?case by (simp add: bootstrap_Apply_def bind_def wrap_err_def catch_def)
qed

subsection \<open>Properties\<close>

text \<open>
  C38. What a start may do to the tables, whatever fails in between: old rows stay, new entities are the ones
  the bootstrap names, new identities lead to active users, and every new relation is the membership of an
  entity that a configured entry names in a group \<open>oad:admin\<close>. Keys and references stay intact. After a
  success every configured administrator is linked to an entity that is a member of \<open>oad:admin\<close>.
\<close>

theorem bootstrap_grants_only_admin:
  assumes "applyBootstrapAdmins rid admins w s = (r, s')" "s_tx s = None"
  shows "grows (map entry_of_admin admins) (s_db s) (s_db s') \<and> (db_ok (s_db s) \<longrightarrow> db_ok (s_db s')) \<and> s_tx s' = None
     \<and> (r = Inr () \<longrightarrow> (\<forall>ba \<in> set admins. provided (entry_of_admin ba) (s_db s')))"
  using applyBootstrapAdmins_step [OF assms] by (simp add: keeps_ok_def)


lemma active_user_state:
  assumes "db_ok d" "active_user d u"
  shows "active_state (view_ctx w SetEmpty) d u = Some (Inr True)"
proof -
  from assms(2) obtain e where e: "e \<in> set (db_entities d)" "en_id e = u" "jsonb_get (en_properties e) ''active'' = Some (JBool True)"
    by (auto simp: active_user_def)
  then obtain e' where f: "find (\<lambda>e. en_id e = u) (db_entities d) = Some e'"
    by (cases "find (\<lambda>e. en_id e = u) (db_entities d)") (auto simp: find_None_iff)
  then have "e' \<in> set (db_entities d)" "en_id e' = u" by (auto simp: find_Some_iff)
  with e assms(1) have "e' = e" by (auto simp: db_ok_def distinct_map inj_on_def)
  with f e(3) show ?thesis
    by (simp add: active_state_def visible_empty active_flag_def jsonb_text_def pg_bool_texts)
qed

lemma admin_group:
  assumes "grows es d d'" "\<forall>g \<in> set (db_entities d). en_external_id g = ''oad:admin'' \<longrightarrow> has_type d ''Group'' g" "is_admin d' u"
  shows "''oad:admin'' \<in> member_groups (view_ctx w SetEmpty) d' u"
proof -
  from assms(3) obtain r g where r: "r \<in> set (db_relations d')" "rl_subject r = u" "rl_type r = ''member_of''"
    and g: "g \<in> set (db_entities d')" "en_id g = rl_target r" "en_external_id g = ''oad:admin''"
    by (auto simp: is_admin_def)
  from assms(1) obtain ents where ents: "db_entities d' = db_entities d @ ents" "list_all (\<lambda>e. prefix ''bootstrap:'' (en_external_id e)) ents"
    by (auto simp: grows_def)
  from ents(2) g(3) have "g \<notin> set ents" by (auto simp: list_all_iff)
  with g(1) ents(1) have "g \<in> set (db_entities d)" by simp
  with assms(2) g(3) grows_sub(4) [OF assms(1)] have "has_type d' ''Group'' g" by (simp add: has_type_def)
  moreover have "group_name (view_ctx w SetEmpty) g = ''oad:admin''" by (simp add: group_name_def g(3))
  ultimately show ?thesis using r g unfolding member_groups_def visible_empty mem_Collect_eq
    by (intro exI [of _ g] exI [of _ r] conjI) simp_all
qed

text \<open>
  The administrators of the configuration can log in as such. After a successful bootstrap (and where only
  groups had the external identifier \<open>oad:admin\<close>) the resolver finds each of them, and resolves an active
  one to an identity that is a platform administrator; one that had no link before is active.
\<close>

theorem bootstrap_admins_administer:
  assumes "applyBootstrapAdmins rid admins w s = (Inr (), s')" "s_tx s = None" "db_ok (s_db s)"
    "\<forall>g \<in> set (db_entities (s_db s)). en_external_id g = ''oad:admin'' \<longrightarrow> has_type (s_db s) ''Group'' g"
    "ba \<in> set admins" "quiet w' SetEmpty"
  shows "\<exists>u. linked (s_db s') (ba_Provider ba) (ba_Subject ba) = Some u
     \<and> (linked (s_db s) (ba_Provider ba) (ba_Subject ba) = None \<longrightarrow> active_state (view_ctx w' SetEmpty) (s_db s') u = Some (Inr True))
     \<and> (active_state (view_ctx w' SetEmpty) (s_db s') u = Some (Inr True) \<longrightarrow>
        (\<exists>i. fst (resolver_Resolve pgx_resolver (ba_Provider ba) (ba_Subject ba) w' s') = Inr i
           \<and> id_EntityID i = u \<and> id_IsPlatformAdmin i))"
proof -
  let ?e = "entry_of_admin ba"
  have e: "be_Provider ?e = ba_Provider ba" "be_Subject ?e = ba_Subject ba" by (simp_all add: entry_of_admin_def)
  note step = applyBootstrapAdmins_step [OF assms(1,2)]
  with assms(3) have ok: "db_ok (s_db s')" "s_tx s' = None" and g: "grows (map entry_of_admin admins) (s_db s) (s_db s')"
    by (simp_all add: keeps_ok_def)
  from step assms(5) obtain u where u: "names (s_db s') ?e u" "is_admin (s_db s') u" by (auto simp: provided_def)
  note l = linked_names [OF ok(1) u(1), unfolded e]
  note m = admin_group [OF g assms(4) u(2)]
  have fresh: "active_user (s_db s') u" if "linked (s_db s) (ba_Provider ba) (ba_Subject ba) = None"
  proof -
    from g obtain ids where ids: "db_identities (s_db s') = db_identities (s_db s) @ ids"
      "list_all (\<lambda>i. active_user (s_db s') (ei_entity_id i)) ids" by (auto simp: grows_def)
    from u(1) obtain i where i: "i \<in> set (db_identities (s_db s'))" "ei_provider i = ba_Provider ba" "ei_subject i = ba_Subject ba"
      "ei_entity_id i = u" by (auto simp: names_def e)
    with that have "i \<notin> set (db_identities (s_db s))" by (auto simp: linked_def find_None_iff)
    with i ids show ?thesis by (auto simp: list_all_iff)
  qed
  from resolution_correct [OF assms(6) ok(2), of "ba_Provider ba" "ba_Subject ba"] l m
  have "active_state (view_ctx w' SetEmpty) (s_db s') u = Some (Inr True) \<longrightarrow>
        (\<exists>i. fst (resolver_Resolve pgx_resolver (ba_Provider ba) (ba_Subject ba) w' s') = Inr i
           \<and> id_EntityID i = u \<and> id_IsPlatformAdmin i)"
    by (auto simp: resolution_spec_def)
  moreover have "linked (s_db s) (ba_Provider ba) (ba_Subject ba) = None \<longrightarrow> active_state (view_ctx w' SetEmpty) (s_db s') u = Some (Inr True)"
    using fresh active_user_state [OF ok(1)] by blast
  ultimately show ?thesis using l by (intro exI [of _ u] conjI)
qed

subsection \<open>A first start\<close>

definition fresh_sess :: sess where
  "fresh_sess = \<lparr>s_db = sample_db\<lparr>db_entities := [sample_entity 11 2 ''oad:admin'' (JObj [])], db_identities := [], db_relations := []\<rparr>,
     s_n = 0, s_tx = None\<rparr>"

definition root_admin :: bootstrap_admin where
  "root_admin = \<lparr>ba_Provider = ''kc'', ba_Subject = ''root''\<rparr>"

lemma fresh_run: "fst (applyBootstrapAdmins (\<lambda>u n. u + of_nat n) [root_admin] sample_world fresh_sess) = Inr ()"
  by code_simp

lemma fresh_result:
  obtains s' where "applyBootstrapAdmins (\<lambda>u n. u + of_nat n) [root_admin] sample_world fresh_sess = (Inr (), s')"
  using fresh_run by (metis prod.collapse)

lemma fresh_tables: "db_ok (s_db fresh_sess)" "s_tx fresh_sess = None" "linked (s_db fresh_sess) ''kc'' ''root'' = None"
  "\<forall>g \<in> set (db_entities (s_db fresh_sess)). en_external_id g = ''oad:admin'' \<longrightarrow> has_type (s_db fresh_sess) ''Group'' g"
  by (simp_all add: fresh_sess_def db_ok_def sample_db_def sample_entity_def sample_type_def linked_def has_type_def)

theorem bootstrap_grants_only_admin_witness:
  "\<exists>s'. applyBootstrapAdmins (\<lambda>u n. u + of_nat n) [root_admin] sample_world fresh_sess = (Inr (), s')
     \<and> provided (entry_of_admin root_admin) (s_db s') \<and> db_ok (s_db s')"
proof -
  obtain s' where run: "applyBootstrapAdmins (\<lambda>u n. u + of_nat n) [root_admin] sample_world fresh_sess = (Inr (), s')"
    by (rule fresh_result)
  with bootstrap_grants_only_admin [OF run fresh_tables(2)] fresh_tables(1) show ?thesis by auto
qed


theorem bootstrap_admins_administer_witness:
  "\<exists>s' i. applyBootstrapAdmins (\<lambda>u n. u + of_nat n) [root_admin] sample_world fresh_sess = (Inr (), s')
     \<and> fst (resolver_Resolve pgx_resolver ''kc'' ''root'' sample_world s') = Inr i \<and> id_IsPlatformAdmin i"
proof -
  obtain s' where run: "applyBootstrapAdmins (\<lambda>u n. u + of_nat n) [root_admin] sample_world fresh_sess = (Inr (), s')"
    by (rule fresh_result)
  have "root_admin \<in> set [root_admin]" by simp
  note admin = bootstrap_admins_administer [OF run fresh_tables(2,1,4) this sample_quiet(1)]
  have ba: "ba_Provider root_admin = ''kc''" "ba_Subject root_admin = ''root''" by (simp_all add: root_admin_def)
  from admin fresh_tables(3) obtain i where
    "fst (resolver_Resolve pgx_resolver ''kc'' ''root'' sample_world s') = Inr i" "id_IsPlatformAdmin i"
    unfolding ba by blast
  with run show ?thesis by blast
qed

end
