(* ===== verification/Authn.thy ===== *)
theory Authn
  imports Resolver
begin

section \<open>The authentication middleware (\<open>internal/api/middleware/auth.go\<close>)\<close>

text \<open>
  \<open>Authentication\<close> finds the identity of a request (through the cache for tokens, from the
  certificate otherwise), checks the \<open>X-OAD-System-Id\<close> header against it, writes the active system
  into the identity the pointer refers to, and hands the pointer to the next handler.
\<close>

record 'k authn_config =
  ac_mode :: string
  ac_jwt :: "'k jwt_lib"
  ac_providers :: "string \<Rightarrow> jwt_provider option"
  ac_mtls :: "string option"
  ac_uuid_parse :: "string \<Rightarrow> uuid option"

text \<open>What a request reads besides its own bytes: two clock readings and the resolver.\<close>

record 's authn_env =
  ae_now1 :: gotime
  ae_now2 :: gotime
  ae_resolver :: "string \<Rightarrow> string \<Rightarrow> 's \<Rightarrow> identity res \<times> 's"

definition resolveJWT ::
  "'k authn_config \<Rightarrow> 's authn_env \<Rightarrow> http_request \<Rightarrow> auth_state \<Rightarrow> 's \<Rightarrow> ptr res \<times> auth_state \<times> 's" where
  "resolveJWT cfg env r st s =
     (let header = rq_header r ''Authorization'' in
      if header = [] then (Inl (AuthE ErrMissingAuth), st, s)
      else case CutPrefix header ''Bearer '' of
        None \<Rightarrow> (Inl (AuthE ErrMissingAuth), st, s)
      | Some token \<Rightarrow>
          (case AuthenticateRaw (ac_jwt cfg) (ac_providers cfg) token of
             Inl e \<Rightarrow> (Inl e, st, s)
           | Inr raw \<Rightarrow> cache_Resolve (ae_resolver env) (ae_now1 env) (ae_now2 env)
                           (raw_Provider raw) (raw_Subject raw) st s))"

definition resolveMTLS :: "string \<Rightarrow> http_request \<Rightarrow> auth_state \<Rightarrow> 's \<Rightarrow> ptr res \<times> auth_state \<times> 's" where
  "resolveMTLS headerName r st s =
     (case mtls_Authenticate headerName r of
        Inl e \<Rightarrow> (Inl e, st, s)
      | Inr i \<Rightarrow> (let (p, st') = alloc_identity i st in (Inr p, st', s)))"

definition systemInAllowed :: "uuid \<Rightarrow> uuid list \<Rightarrow> bool" where
  "systemInAllowed u allowed = list_ex (\<lambda>a. a = u) allowed"

definition authn_error :: "goerr \<Rightarrow> APIError" where
  "authn_error e =
     (if errors_Is e (AuthE ErrNotProvisioned)
        then api_ServiceUnavailable [Lit (''account not yet provisioned '' @ [CHR 0xE2, CHR 0x80, CHR 0x94] @ '' try again in a moment'')]
      else if errors_Is e (AuthE ErrDisabled) then api_Forbidden [Lit ''account is disabled'']
      else api_Unauthorized [Lit ''authentication failed''])"

definition set_active_system :: "ptr \<Rightarrow> uuid \<Rightarrow> auth_state \<Rightarrow> auth_state" where
  "set_active_system p u st =
     st\<lparr>as_heap := (as_heap st)[p := (as_heap st ! p)\<lparr>id_ActiveSystemID := Some u\<rparr>]\<rparr>"

text \<open>The header check, for the identity behind \<open>p\<close>.\<close>

definition apply_system_header ::
  "(string \<Rightarrow> uuid option) \<Rightarrow> http_request \<Rightarrow> ptr \<Rightarrow> auth_state \<Rightarrow> (APIError + ptr) \<times> auth_state" where
  "apply_system_header uuid_parse r p st =
     (let headerVal = rq_header r ''X-OAD-System-Id'' in
      if headerVal = [] then (Inr p, st)
      else case uuid_parse headerVal of
        None \<Rightarrow> (Inl (api_BadRequest [Lit ''X-OAD-System-Id must be a valid UUID'']), st)
      | Some systemID \<Rightarrow>
          (let identity = as_heap st ! p in
           if \<not> id_IsPlatformAdmin identity \<and> \<not> systemInAllowed systemID (id_AllowedSystems identity)
           then (Inl (api_Forbidden [Lit ''X-OAD-System-Id not in allowed systems'']), st)
           else (Inr p, set_active_system p systemID st)))"

text \<open>The credentials of the configured mode; the first component is \<open>None\<close> for an unsupported mode.\<close>

definition credentials ::
  "'k authn_config \<Rightarrow> 's authn_env \<Rightarrow> http_request \<Rightarrow> auth_state \<Rightarrow> 's \<Rightarrow> ptr res option \<times> auth_state \<times> 's" where
  "credentials cfg env r st s =
     (if ac_mode cfg = ''jwt'' then (case resolveJWT cfg env r st s of (x, t) \<Rightarrow> (Some x, t))
      else if ac_mode cfg = ''mtls'' then
        (case resolveMTLS (case ac_mtls cfg of None \<Rightarrow> [] | Some h \<Rightarrow> h) r st s of (x, t) \<Rightarrow> (Some x, t))
      else if ac_mode cfg = ''both'' then
        (case resolveJWT cfg env r st s of
           (Inr p, t) \<Rightarrow> (Some (Inr p), t)
         | (Inl e, st', s') \<Rightarrow>
             (case ac_mtls cfg of
                None \<Rightarrow> (Some (Inl e), st', s')
              | Some h \<Rightarrow> (case resolveMTLS h r st' s' of (x, t) \<Rightarrow> (Some x, t))))
      else (None, st, s))"

definition Authentication ::
  "'k authn_config \<Rightarrow> 's authn_env \<Rightarrow> http_request \<Rightarrow> auth_state \<Rightarrow> 's \<Rightarrow> (APIError + ptr) \<times> auth_state \<times> 's" where
  "Authentication cfg env r st s =
     (case credentials cfg env r st s of
        (None, t) \<Rightarrow> (Inl (api_Internal [Lit (''unsupported auth mode: '' @ ac_mode cfg)]), t)
      | (Some (Inl e), t) \<Rightarrow> (Inl (authn_error e), t)
      | (Some (Inr p), st', s') \<Rightarrow>
          (case apply_system_header (ac_uuid_parse cfg) r p st' of (x, st'') \<Rightarrow> (x, st'', s')))"

subsection \<open>Requests running alone\<close>

text \<open>The cache of a state holds pointers into its heap, each to an identity of its key.\<close>

definition auth_ok :: "auth_state \<Rightarrow> bool" where
  "auth_ok st \<longleftrightarrow> cache_ok (as_cache st)
     \<and> (\<forall>e \<in> entries (as_cache st). owned (as_heap st) (ce_key e) (ce_identity e))"

text \<open>A resolver answers with an identity of the caller asked for.\<close>

locale identity_source =
  fixes resolver :: "string \<Rightarrow> string \<Rightarrow> 's \<Rightarrow> identity res \<times> 's"
  assumes source_owner: "resolver p s x = (Inr i, x') \<Longrightarrow> id_Provider i = p \<and> id_Subject i = s"
    and source_scope: "resolver p s x = (Inr i, x') \<Longrightarrow> id_ActiveSystemID i = None"
begin

lemma cache_Resolve_ok:
  assumes "cache_Resolve resolver n1 n2 p s st x = (r, st', x')" "auth_ok st"
  shows "auth_ok st' \<and> (\<exists>new. as_heap st' = as_heap st @ new)
     \<and> (\<forall>q. r = Inr q \<longrightarrow> owned (as_heap st') (cache_key p s) q)"
proof -
  let ?k = "cache_key p s"
  have ok: "cache_ok (as_cache st)" using assms(2) by (simp add: auth_ok_def)
  obtain h c where l: "cache_lookup n1 ?k (as_cache st) = (h, c)" by fastforce
  then have c: "c = snd (cache_lookup n1 ?k (as_cache st))" by simp
  have cok: "cache_ok c" unfolding c by (rule lookup_ok [OF ok])
  have ent: "entries c \<subseteq> entries (as_cache st)" unfolding c by (rule lookup_entries)
  show ?thesis
  proof (cases h)
    case (Some q)
    from lookup_hit_entry [OF ok l [unfolded Some]] assms(2) have "owned (as_heap st) ?k q"
      by (auto simp: auth_ok_def)
    with assms l Some cok ent show ?thesis by (auto simp: cache_Resolve_def auth_ok_def)
  next
    case None
    show ?thesis
    proof (cases "fst (resolver p s x)")
      case (Inl e)
      with assms l None cok ent show ?thesis
        by (cases "resolver p s x") (auto simp: cache_Resolve_def auth_ok_def)
    next
      case (Inr i)
      then obtain x1 where rs: "resolver p s x = (Inr i, x1)" by (cases "resolver p s x") auto
      let ?q = "length (as_heap st)"
      have res: "r = Inr ?q" "as_heap st' = as_heap st @ [i]" "as_cache st' = cache_store n2 ?k ?q c"
        using assms(1) l None rs by (auto simp: cache_Resolve_def alloc_identity_def)
      have own: "owned (as_heap st @ [i]) ?k ?q" using source_owner [OF rs] by (simp add: owned_def)
      have old: "owned (as_heap st @ [i]) (ce_key e) (ce_identity e)" if "e \<in> entries c" for e
        using that ent assms(2) by (auto simp: auth_ok_def owned_def nth_append)
      have "owned (as_heap st @ [i]) (ce_key e) (ce_identity e)" if "e \<in> entries (cache_store n2 ?k ?q c)" for e
        using store_entries [OF cok, of n2 ?k ?q] that own old by auto
      with res own store_ok [OF cok] show ?thesis by (simp add: auth_ok_def)
    qed
  qed
qed

text \<open>A hit within the lifetime returns the same identity without asking the source again.\<close>

lemma cached_until_expiry:
  assumes "cache_Resolve resolver n1 n2 p s st x = (Inr q, st1, x1)" "auth_ok st"
    "fst (cache_lookup n1 (cache_key p s) (as_cache st)) = None" "n3 < n2 + ca_ttl (as_cache st)"
  shows "\<exists>st2. cache_Resolve other n3 n4 p s st1 y = (Inr q, st2, y) \<and> as_heap st2 = as_heap st1"
proof -
  let ?k = "cache_key p s"
  have ok: "cache_ok (as_cache st)" using assms(2) by (simp add: auth_ok_def)
  obtain c where l: "cache_lookup n1 ?k (as_cache st) = (None, c)"
    using assms(3) by (cases "cache_lookup n1 ?k (as_cache st)") auto
  then have cok: "cache_ok c" "ca_ttl c = ca_ttl (as_cache st)"
    using lookup_ok [OF ok, of n1 ?k] ttl_capacity_kept(1) [of n1 ?k "as_cache st"] by simp_all
  from assms(1) l have "as_cache st1 = cache_store n2 ?k q c"
    by (auto simp: cache_Resolve_def alloc_identity_def Let_def split: prod.splits sum.splits)
  with id_cache.store_then_lookup(1) [OF cok(1), of n3 n2 ?k q] assms(4) cok(2)
  obtain c' where "cache_lookup n3 ?k (as_cache st1) = (Some q, c')"
    by (cases "cache_lookup n3 ?k (as_cache st1)") auto
  then show ?thesis by (simp add: cache_Resolve_def)
qed

text \<open>A failure is not cached.\<close>

lemma failure_not_cached:
  assumes "cache_Resolve resolver n1 n2 p s st x = (Inl e, st1, x1)" "auth_ok st"
  shows "fst (cache_lookup n3 (cache_key p s) (as_cache st1)) = None"
proof -
  let ?k = "cache_key p s"
  from assms(1) obtain c where l: "cache_lookup n1 ?k (as_cache st) = (None, c)" "as_cache st1 = c"
    by (auto simp: cache_Resolve_def alloc_identity_def Let_def split: prod.splits sum.splits option.splits)
  then have "cache_view c ?k = None" using lookup_view [of n1 ?k "as_cache st" ?k] by simp
  then show ?thesis using lookup_result [of n3 ?k c] l(2) by simp
qed

end

definition pgx_source :: "world \<Rightarrow> string \<Rightarrow> string \<Rightarrow> sess \<Rightarrow> identity res \<times> sess" where
  "pgx_source w p s st = resolver_Resolve pgx_resolver p s w st"

interpretation db_source: identity_source "pgx_source w" for w
  by unfold_locales (auto simp: pgx_source_def dest: pgx.resolve_identity)

text \<open>What a pass of the middleware guarantees.\<close>

lemma resolveJWT_pass:
  assumes "resolveJWT cfg env r st s = (Inr q, st', s')" "ae_resolver env = pgx_source w" "auth_ok st"
  shows "\<exists>token prov sub issuer p keys.
     rq_header r ''Authorization'' = ''Bearer '' @ token
     \<and> ac_providers cfg issuer = Some p \<and> jl_Get (ac_jwt cfg) (pr_JWKSURL p) = Inr keys
     \<and> jl_Parse (ac_jwt cfg) token keys (pr_Issuer p) (pr_Audience p) = Inr sub \<and> prov = pr_Name p \<and> sub \<noteq> []
     \<and> owned (as_heap st') (cache_key prov sub) q \<and> auth_ok st'"
proof -
  from assms(1) obtain token raw where t: "CutPrefix (rq_header r ''Authorization'') ''Bearer '' = Some token"
    and a: "AuthenticateRaw (ac_jwt cfg) (ac_providers cfg) token = Inr raw"
    and c: "cache_Resolve (ae_resolver env) (ae_now1 env) (ae_now2 env) (raw_Provider raw) (raw_Subject raw) st s
       = (Inr q, st', s')"
    by (auto simp: resolveJWT_def Let_def split: if_splits option.splits sum.splits)
  obtain prov sub where raw: "raw = RawToken prov sub" by (cases raw)
  from AuthenticateRaw_verified [OF a [unfolded raw]] obtain issuer p keys where
    "ac_providers cfg issuer = Some p" "jl_Get (ac_jwt cfg) (pr_JWKSURL p) = Inr keys"
    "jl_Parse (ac_jwt cfg) token keys (pr_Issuer p) (pr_Audience p) = Inr sub" "prov = pr_Name p" "sub \<noteq> []"
    by blast
  moreover have "owned (as_heap st') (cache_key prov sub) q \<and> auth_ok st'"
    using db_source.cache_Resolve_ok [OF c [unfolded assms(2)] assms(3)] raw by simp
  moreover have "rq_header r ''Authorization'' = ''Bearer '' @ token" using t by (simp only: CutPrefix_Some)
  ultimately show ?thesis by blast
qed

lemma header_pass:
  assumes "apply_system_header up r p st = (Inr q, st')" "p < length (as_heap st)"
  shows "q = p \<and> as_cache st' = as_cache st \<and> length (as_heap st') = length (as_heap st)
     \<and> (\<forall>k o'. owned (as_heap st') k o' = owned (as_heap st) k o')
     \<and> (case rq_header r ''X-OAD-System-Id'' of
          [] \<Rightarrow> st' = st
        | _ \<Rightarrow> \<exists>sys. up (rq_header r ''X-OAD-System-Id'') = Some sys
             \<and> id_ActiveSystemID (as_heap st' ! q) = Some sys
             \<and> (id_IsPlatformAdmin (as_heap st' ! q) \<or> sys \<in> set (id_AllowedSystems (as_heap st' ! q))))"
  using assms
  by (auto simp: apply_system_header_def set_active_system_def systemInAllowed_def list_ex_iff owned_def
      nth_list_update Let_def split: if_splits option.splits list.splits)

subsection \<open>Properties\<close>


definition sample_lib :: "nat jwt_lib" where
  "sample_lib = \<lparr>jl_ParseInsecure = (\<lambda>t. Inr ''iss''), jl_Register = (\<lambda>_. Inr ()), jl_Refresh = (\<lambda>_. Inr ()),
     jl_Get = (\<lambda>_. Inr 1), jl_Parse = (\<lambda>t k i a. if t = ''tok'' then Inr ''u1'' else Inl (Text ''bad''))\<rparr>"

definition sample_provider :: jwt_provider where
  "sample_provider = \<lparr>pr_Name = ''kc'', pr_JWKSURL = ''url'', pr_Issuer = ''iss'', pr_Audience = ''aud''\<rparr>"

definition sample_config :: "nat authn_config" where
  "sample_config = \<lparr>ac_mode = ''jwt'', ac_jwt = sample_lib, ac_providers = [''iss'' \<mapsto> sample_provider],
     ac_mtls = None, ac_uuid_parse = (\<lambda>t. if t = ''s12'' then Some 12 else None)\<rparr>"

definition sample_env :: "sess authn_env" where
  "sample_env = \<lparr>ae_now1 = 0, ae_now2 = 0, ae_resolver = pgx_source sample_world\<rparr>"

definition sample_request :: "string \<Rightarrow> http_request" where
  "sample_request sys = \<lparr>rq_peer_certs = [],
     rq_header = (\<lambda>h. if h = ''Authorization'' then ''Bearer tok'' else if h = ''X-OAD-System-Id'' then sys else []),
     rq_url_param = (\<lambda>_. [])\<rparr>"

definition sample_auth :: auth_state where
  "sample_auth = \<lparr>as_cache = NewIdentityCache 10 (30 * second), as_heap = []\<rparr>"

lemma sample_pass:
  "\<exists>i x. Authentication sample_config sample_env (sample_request ''s12'') sample_auth sample_sess
     = (Inr 0, \<lparr>as_cache = cache_store 0 ''kc:u1'' 0 (NewIdentityCache 10 (30 * second)),
          as_heap = [i\<lparr>id_ActiveSystemID := Some 12\<rparr>]\<rparr>, x)"
proof -
  from sample_resolved obtain i where
    i: "fst (resolver_Resolve pgx_resolver ''kc'' ''u1'' sample_world sample_sess) = Inr i"
      "set (id_AllowedSystems i) = {12}" by blast
  obtain x where r: "pgx_source sample_world ''kc'' ''u1'' sample_sess = (Inr i, x)"
    using i(1) by (cases "resolver_Resolve pgx_resolver ''kc'' ''u1'' sample_world sample_sess")
      (simp add: pgx_source_def)
  have cut: "CutPrefix ''Bearer tok'' ''Bearer '' = Some ''tok''" by (simp add: CutPrefix_def)
  have "AuthenticateRaw sample_lib [''iss'' \<mapsto> sample_provider] ''tok'' = Inr (RawToken ''kc'' ''u1'')"
    by (simp add: AuthenticateRaw_def sample_lib_def sample_provider_def)
  moreover have "cache_lookup 0 ''kc:u1'' (NewIdentityCache 10 (30 * second)) = (None, NewIdentityCache 10 (30 * second))"
    by (simp add: cache_lookup_def NewIdentityCache_def)
  ultimately have "Authentication sample_config sample_env (sample_request ''s12'') sample_auth sample_sess
     = (Inr 0, \<lparr>as_cache = cache_store 0 ''kc:u1'' 0 (NewIdentityCache 10 (30 * second)),
          as_heap = [i\<lparr>id_ActiveSystemID := Some 12\<rparr>]\<rparr>, x)"
    using r i(2) cut
    by (simp add: Authentication_def credentials_def resolveJWT_def cache_Resolve_def alloc_identity_def
        apply_system_header_def systemInAllowed_def set_active_system_def list_ex_iff sample_config_def
        sample_env_def sample_request_def sample_auth_def cache_key_def)
  then show ?thesis by blast
qed


text \<open>
  C22. The active system outlives the request that named it: while the cached identity lives, a later
  request of the same caller that names no system gets the identity with that system still active,
  and passes the gate that demands the header.
\<close>

theorem header_scope_persists:
  assumes "cache_lookup (ae_now1 env) (cache_key (raw_Provider raw) (raw_Subject raw)) (as_cache st) = (Some q, c)"
    and "id_ActiveSystemID (as_heap st ! q) = Some sys"
    and "ac_mode cfg = ''jwt''" "rq_header r ''Authorization'' = ''Bearer '' @ token"
    and "AuthenticateRaw (ac_jwt cfg) (ac_providers cfg) token = Inr raw"
    and "rq_header r ''X-OAD-System-Id'' = []"
  shows "\<exists>st'. Authentication cfg env r st s = (Inr q, st', s)
     \<and> id_ActiveSystemID (as_heap st' ! q) = Some sys
     \<and> RequireSystemScope (Some (as_heap st' ! q)) = Inr ()"
proof -
  have c: "CutPrefix (rq_header r ''Authorization'') ''Bearer '' = Some token"
    unfolding assms(4) by (rule CutPrefix_append)
  have "rq_header r ''Authorization'' \<noteq> []" unfolding assms(4) by simp
  with c have "Authentication cfg env r st s = (Inr q, st\<lparr>as_cache := c\<rparr>, s)" if "cache_lookup (ae_now1 env) (cache_key (raw_Provider raw) (raw_Subject raw)) (as_cache st) = (Some q, c)" for c
    using that assms(3,5,6)
    by (simp add: Authentication_def credentials_def resolveJWT_def cache_Resolve_def apply_system_header_def Let_def)
  from this [OF assms(1)] assms(2) show ?thesis by (simp add: RequireSystemScope_def)
qed

theorem header_scope_persists_witness:
  "\<exists>st1 x1 st2. Authentication sample_config sample_env (sample_request ''s12'') sample_auth sample_sess = (Inr 0, st1, x1)
     \<and> Authentication sample_config sample_env (sample_request []) st1 x1 = (Inr 0, st2, x1)
     \<and> id_ActiveSystemID (as_heap st2 ! 0) = Some 12"
proof -
  from sample_pass obtain i x where
    a: "Authentication sample_config sample_env (sample_request ''s12'') sample_auth sample_sess
     = (Inr 0, \<lparr>as_cache = cache_store 0 ''kc:u1'' 0 (NewIdentityCache 10 (30 * second)),
          as_heap = [i\<lparr>id_ActiveSystemID := Some 12\<rparr>]\<rparr>, x)" by blast
  let ?st = "\<lparr>as_cache = cache_store 0 ''kc:u1'' 0 (NewIdentityCache 10 (30 * second)),
          as_heap = [i\<lparr>id_ActiveSystemID := Some 12\<rparr>]\<rparr>"
  have "fst (cache_lookup 0 ''kc:u1'' (as_cache ?st)) = Some 0"
    using id_cache.store_then_lookup(1) [OF new_cache_ok, of 0 0 10 "30 * second" "''kc:u1''" 0]
    by (simp add: NewIdentityCache_def second_def)
  then obtain c where c: "cache_lookup 0 ''kc:u1'' (as_cache ?st) = (Some 0, c)"
    by (cases "cache_lookup 0 ''kc:u1'' (as_cache ?st)") auto
  have "\<exists>st'. Authentication sample_config sample_env (sample_request []) ?st x = (Inr 0, st', x)
     \<and> id_ActiveSystemID (as_heap st' ! 0) = Some 12
     \<and> RequireSystemScope (Some (as_heap st' ! 0)) = Inr ()"
    by (rule header_scope_persists [where raw = "RawToken ''kc'' ''u1''" and c = c and token = "''tok''"])
      (use c in \<open>simp_all add: sample_config_def sample_env_def sample_request_def cache_key_def
        AuthenticateRaw_def sample_lib_def sample_provider_def\<close>)
  with a show ?thesis by blast
qed

end
