(* ===== verification/Config_Rules.thy ===== *)
theory Config_Rules
  imports Config
begin

section \<open>What configuration a server gets\<close>

text \<open>
  The layers of \<open>Config\<close>, applied one over the other, against a definition that reads every setting off
  the list of its sources in the order the package documents. The layers are first brought into the form
  of record updates, so that each setting can be looked at alone.
\<close>

subsection \<open>The reference\<close>

fun first_set :: "string list \<Rightarrow> string" where
  "first_set [] = []"
| "first_set (x # xs) = (if x \<noteq> [] then x else first_set xs)"

fun first_num :: "int option list \<Rightarrow> int \<Rightarrow> int" where
  "first_num [] d = d"
| "first_num (x # xs) d = (case x of Some n \<Rightarrow> n | None \<Rightarrow> first_num xs d)"

definition parsed :: "(string \<Rightarrow> int option) \<Rightarrow> string \<Rightarrow> int option" where
  "parsed parse s = (if s = [] then None else parse s)"

definition nonzero :: "int \<Rightarrow> int option" where
  "nonzero n = (if n = 0 then None else Some n)"

text \<open>The variables of earlier versions, for the settings whose own variable is not set.\<close>

definition old_addr :: "os_env \<Rightarrow> string" where
  "old_addr env = (if env ''SERVER_HOST'' = [] \<and> env ''SERVER_PORT'' = [] then []
     else first_set [env ''SERVER_HOST'', ''0.0.0.0''] @ '':'' @ first_set [env ''SERVER_PORT'', ''8080''])"

definition first_entry :: "string \<Rightarrow> string" where
  "first_entry s = TrimSpace (takeWhile (\<lambda>c. c \<noteq> CHR '','') s)"

definition getenv :: "os_env \<Rightarrow> string \<Rightarrow> string" where
  "getenv env x =
     (case map_of [(''OAD_DATABASE'', env ''DATABASE_URL''), (''OAD_AUTH_MODE'', env ''AUTH_MODE''),
         (''OAD_MTLS_HEADER'', env ''MTLS_HEADER''), (''OAD_SHUTDOWN_TIMEOUT'', env ''SERVER_SHUTDOWN_TIMEOUT''),
         (''OAD_DB_MAX_CONNS'', env ''DB_MAX_CONNS''), (''OAD_DB_MIN_CONNS'', env ''DB_MIN_CONNS''),
         (''OAD_ADDR'', old_addr env), (''OAD_JWKS_URL'', first_entry (env ''JWKS_URL'')),
         (''OAD_JWT_ISSUER'', first_entry (env ''JWT_ISSUER'')), (''OAD_JWT_AUDIENCE'', env ''JWT_AUDIENCE'')] x of
        None \<Rightarrow> env x
      | Some old \<Rightarrow> first_set [env x, old])"

definition merged_provider :: "os_env \<Rightarrow> provider_config \<Rightarrow> provider_config" where
  "merged_provider env p =
     \<lparr>pc_Name = first_set [getenv env ''OAD_PROVIDER_NAME'', pc_Name p],
      pc_DisplayName = first_set [getenv env ''OAD_PROVIDER_DISPLAY_NAME'', pc_DisplayName p],
      pc_Backend = \<lparr>pb_JWKSURL = first_set [getenv env ''OAD_JWKS_URL'', pb_JWKSURL (pc_Backend p)],
        pb_Issuer = first_set [getenv env ''OAD_JWT_ISSUER'', pb_Issuer (pc_Backend p)],
        pb_Audience = first_set [getenv env ''OAD_JWT_AUDIENCE'', pb_Audience (pc_Backend p)]\<rparr>,
      pc_WebUI = \<lparr>pw_Authority = first_set [getenv env ''OAD_PROVIDER_AUTHORITY'', pw_Authority (pc_WebUI p)],
        pw_ClientID = first_set [getenv env ''OAD_PROVIDER_CLIENT_ID'', pw_ClientID (pc_WebUI p)],
        pw_Scope = first_set [getenv env ''OAD_PROVIDER_SCOPE'', pw_Scope (pc_WebUI p)]\<rparr>,
      pc_SCIM = pc_SCIM p\<rparr>"

definition resolved_providers :: "os_env \<Rightarrow> file_config \<Rightarrow> provider_config list" where
  "resolved_providers env fc =
     (let ps = map (provider_of_file (getenv env)) (fc_Providers fc) in
      if \<not> list_ex (\<lambda>x. getenv env x \<noteq> []) flat_names then ps
      else case ps of [] \<Rightarrow> [merged_provider env (empty_provider ''default'')] | p # ps' \<Rightarrow> merged_provider env p # ps')"

definition resolved :: "(string \<Rightarrow> duration option) \<Rightarrow> cli_options \<Rightarrow> os_env \<Rightarrow> file_config \<Rightarrow> config" where
  "resolved pd opts env fc =
     \<lparr>cf_Server =
        \<lparr>srv_Addr = first_set [cl_Addr opts, getenv env ''OAD_ADDR'', srv_Addr (fc_Server fc), '':8080''],
         srv_ShutdownTimeout = first_num [parsed pd (cl_ShutdownTimeout opts), parsed pd (getenv env ''OAD_SHUTDOWN_TIMEOUT''),
           nonzero (srv_ShutdownTimeout (fc_Server fc))] (30 * second)\<rparr>,
      cf_Database =
        \<lparr>dbc_URL = first_set [cl_Database opts, getenv env ''OAD_DATABASE'', dbc_URL (fc_Database fc)],
         dbc_MaxConns = first_num [parsed ParseInt32 (getenv env ''OAD_DB_MAX_CONNS''), nonzero (dbc_MaxConns (fc_Database fc))] 25,
         dbc_MinConns = first_num [parsed ParseInt32 (getenv env ''OAD_DB_MIN_CONNS''), nonzero (dbc_MinConns (fc_Database fc))] 5\<rparr>,
      cf_Auth =
        \<lparr>acf_Mode = first_set [cl_AuthMode opts, getenv env ''OAD_AUTH_MODE'', fc_Mode fc, ''jwt''],
         acf_MTLSHeader = first_set [getenv env ''OAD_MTLS_HEADER'', fc_MTLSHeader fc, ''X-Client-Cert''],
         acf_Providers = resolved_providers env fc,
         acf_BootstrapAdmins = fc_BootstrapAdmins fc,
         acf_IdentityCacheTTL = first_num [parsed pd (getenv env ''OAD_IDENTITY_CACHE_TTL'')] (30 * second),
         acf_IdentityCacheSize = first_num [parsed positive_Atoi (getenv env ''OAD_IDENTITY_CACHE_SIZE'')] 10000\<rparr>,
      cf_WebUI =
        \<lparr>wc_RedirectURI = first_set [getenv env ''OAD_WEBUI_REDIRECT_URI'', wc_RedirectURI (fc_WebUI fc)],
         wc_PostLogoutURI = first_set [getenv env ''OAD_WEBUI_POST_LOGOUT_URI'', wc_PostLogoutURI (fc_WebUI fc)]\<rparr>,
      cf_Log =
        \<lparr>lg_Level = first_set [cl_LogLevel opts, getenv env ''OAD_LOG_LEVEL'', lg_Level (fc_Log fc), ''info''],
         lg_Format = first_set [cl_LogFormat opts, getenv env ''OAD_LOG_FORMAT'', lg_Format (fc_Log fc), ''json'']\<rparr>\<rparr>"

definition provider_complete :: "provider_config \<Rightarrow> bool" where
  "provider_complete p \<longleftrightarrow> pb_JWKSURL (pc_Backend p) \<noteq> [] \<and> pb_Issuer (pc_Backend p) \<noteq> [] \<and> pb_Audience (pc_Backend p) \<noteq> []"

definition config_valid :: "config \<Rightarrow> bool" where
  "config_valid cfg \<longleftrightarrow> dbc_URL (cf_Database cfg) \<noteq> [] \<and> acf_Mode (cf_Auth cfg) \<in> {''jwt'', ''mtls'', ''both'', ''none''}
     \<and> (acf_Mode (cf_Auth cfg) \<in> {''jwt'', ''both''} \<longrightarrow>
          acf_Providers (cf_Auth cfg) \<noteq> [] \<and> list_all provider_complete (acf_Providers (cf_Auth cfg)))
     \<and> lg_Format (cf_Log cfg) \<in> {''json'', ''text''}"

text \<open>Without a file every member of it is absent.\<close>

definition no_file :: file_config where
  "no_file = \<lparr>fc_Server = \<lparr>srv_Addr = [], srv_ShutdownTimeout = 0\<rparr>, fc_Database = \<lparr>dbc_URL = [], dbc_MaxConns = 0, dbc_MinConns = 0\<rparr>,
     fc_Mode = [], fc_MTLSHeader = [], fc_Providers = [], fc_BootstrapAdmins = [],
     fc_WebUI = \<lparr>wc_RedirectURI = [], wc_PostLogoutURI = []\<rparr>, fc_Log = \<lparr>lg_Level = [], lg_Format = []\<rparr>\<rparr>"

definition config_file :: "(string \<Rightarrow> file_config res) \<Rightarrow> cli_options \<Rightarrow> file_config res" where
  "config_file loadFile opts = (if cl_ConfigFile opts = [] then Inr no_file else loadFile (cl_ConfigFile opts))"

subsection \<open>The environment\<close>

lemma legacy_env:
  "copyLegacyEnv old new env x = (if x = new then first_set [env new, env old] else env x)"
  "copyLegacyEnvComma old new env x = (if x = new then first_set [env new, first_entry (env old)] else env x)"
  "legacy_addr env x = (if x = ''OAD_ADDR'' then first_set [env ''OAD_ADDR'', old_addr env] else env x)"
  by (auto simp: copyLegacyEnv_def copyLegacyEnvComma_def legacy_addr_def old_addr_def first_entry_def Let_def)

lemma warnDeprecated_getenv: "warnDeprecated env = getenv env"
proof
  fix x
  show "warnDeprecated env x = getenv env x"
    unfolding warnDeprecated_def getenv_def by (simp add: legacy_env old_addr_def)
qed

subsection \<open>Layers as record updates\<close>

definition override :: "string \<Rightarrow> string \<Rightarrow> string" where
  "override v a = (if v \<noteq> [] then v else a)"

definition override_num :: "int option \<Rightarrow> int \<Rightarrow> int" where
  "override_num v a = (case v of None \<Rightarrow> a | Some n \<Rightarrow> n)"

lemma lifted:
  "setIfNonEmpty (cf_Server_update \<circ> su) v = cf_Server_update (setIfNonEmpty su v)"
  "setIfNonEmpty (cf_Database_update \<circ> du) v = cf_Database_update (setIfNonEmpty du v)"
  "setIfNonEmpty (cf_Auth_update \<circ> au) v = cf_Auth_update (setIfNonEmpty au v)"
  "setIfNonEmpty (cf_WebUI_update \<circ> wu) v = cf_WebUI_update (setIfNonEmpty wu v)"
  "setIfNonEmpty (cf_Log_update \<circ> lu) v = cf_Log_update (setIfNonEmpty lu v)"
  "setIfNonEmpty (pc_Backend_update \<circ> bu) v = pc_Backend_update (setIfNonEmpty bu v)"
  "setIfNonEmpty (pc_WebUI_update \<circ> pu) v = pc_WebUI_update (setIfNonEmpty pu v)"
  "set_if_nonzero (cf_Server_update \<circ> sn) n = cf_Server_update (set_if_nonzero sn n)"
  "set_if_nonzero (cf_Database_update \<circ> dn) n = cf_Database_update (set_if_nonzero dn n)"
  "set_if_parsed (cf_Server_update \<circ> sn) parse v = cf_Server_update (set_if_parsed sn parse v)"
  "set_if_parsed (cf_Database_update \<circ> dn) parse v = cf_Database_update (set_if_parsed dn parse v)"
  "set_if_parsed (cf_Auth_update \<circ> an) parse v = cf_Auth_update (set_if_parsed an parse v)"
  by (auto simp: fun_eq_iff setIfNonEmpty_def set_if_nonzero_def set_if_parsed_def split: option.splits)

lemma member_updates:
  "setIfNonEmpty srv_Addr_update v = srv_Addr_update (override v)"
  "setIfNonEmpty dbc_URL_update v = dbc_URL_update (override v)"
  "setIfNonEmpty acf_Mode_update v = acf_Mode_update (override v)"
  "setIfNonEmpty acf_MTLSHeader_update v = acf_MTLSHeader_update (override v)"
  "setIfNonEmpty wc_RedirectURI_update v = wc_RedirectURI_update (override v)"
  "setIfNonEmpty wc_PostLogoutURI_update v = wc_PostLogoutURI_update (override v)"
  "setIfNonEmpty lg_Level_update v = lg_Level_update (override v)"
  "setIfNonEmpty lg_Format_update v = lg_Format_update (override v)"
  "setIfNonEmpty pc_Name_update v = pc_Name_update (override v)"
  "setIfNonEmpty pc_DisplayName_update v = pc_DisplayName_update (override v)"
  "setIfNonEmpty pb_JWKSURL_update v = pb_JWKSURL_update (override v)"
  "setIfNonEmpty pb_Issuer_update v = pb_Issuer_update (override v)"
  "setIfNonEmpty pb_Audience_update v = pb_Audience_update (override v)"
  "setIfNonEmpty pw_Authority_update v = pw_Authority_update (override v)"
  "setIfNonEmpty pw_ClientID_update v = pw_ClientID_update (override v)"
  "setIfNonEmpty pw_Scope_update v = pw_Scope_update (override v)"
  by (auto simp: fun_eq_iff setIfNonEmpty_def override_def)

lemma number_updates:
  "set_if_nonzero srv_ShutdownTimeout_update n = srv_ShutdownTimeout_update (override_num (nonzero n))"
  "set_if_nonzero dbc_MaxConns_update n = dbc_MaxConns_update (override_num (nonzero n))"
  "set_if_nonzero dbc_MinConns_update n = dbc_MinConns_update (override_num (nonzero n))"
  "set_if_parsed srv_ShutdownTimeout_update parse v = srv_ShutdownTimeout_update (override_num (parsed parse v))"
  "set_if_parsed dbc_MaxConns_update parse v = dbc_MaxConns_update (override_num (parsed parse v))"
  "set_if_parsed dbc_MinConns_update parse v = dbc_MinConns_update (override_num (parsed parse v))"
  "set_if_parsed acf_IdentityCacheTTL_update parse v = acf_IdentityCacheTTL_update (override_num (parsed parse v))"
  "set_if_parsed acf_IdentityCacheSize_update parse v = acf_IdentityCacheSize_update (override_num (parsed parse v))"
  by (auto simp: fun_eq_iff set_if_nonzero_def set_if_parsed_def override_num_def parsed_def nonzero_def split: option.splits)

lemma first_overrides:
  "override v (first_set xs) = first_set (v # xs)" "override_num x (first_num ns d) = first_num (x # ns) d"
  "a \<noteq> [] \<Longrightarrow> override v a = first_set [v, a]" "override v [] = first_set [v]" "override_num x d = first_num [x] d"
  by (auto simp: override_def override_num_def split: option.splits)

lemmas layer_updates = lifted member_updates number_updates

lemma flat_provider_merged: "flat_provider (getenv env) p = merged_provider env p"
  by (simp add: flat_provider_def layer_updates merged_provider_def override_def)

lemma applyFlatProviderEnv_resolved:
  "applyFlatProviderEnv (getenv env) cfg = (cf_Auth_update \<circ> acf_Providers_update) (\<lambda>ps.
     if \<not> list_ex (\<lambda>x. getenv env x \<noteq> []) flat_names then ps
     else case ps of [] \<Rightarrow> [merged_provider env (empty_provider ''default'')] | p # ps' \<Rightarrow> merged_provider env p # ps') cfg"
proof (cases "list_ex (\<lambda>x. getenv env x \<noteq> []) flat_names")
  case True
  then show ?thesis
    by (cases "acf_Providers (cf_Auth cfg)")
      (simp_all add: applyFlatProviderEnv_def anyNonEmpty_def flat_names_def flat_provider_merged)
next
  case False
  then have "\<not> anyNonEmpty (map (getenv env) flat_names)" by (simp add: anyNonEmpty_def flat_names_def)
  with False show ?thesis by (simp add: applyFlatProviderEnv_def)
qed

lemma applyFileProviders_all:
  "applyFileProviders env i fps cfg = Inr cfg' \<longleftrightarrow> list_all (\<lambda>fp. \<not> obsolete_claims fp) fps
     \<and> cfg' = (cf_Auth_update \<circ> acf_Providers_update) (\<lambda>ps. ps @ map (provider_of_file env) fps) cfg"
  by (induction fps arbitrary: i cfg) (auto simp: o_def)

definition file_layer :: "os_env \<Rightarrow> file_config \<Rightarrow> config \<Rightarrow> config" where
  "file_layer env fc = cf_Server_update (srv_Addr_update (override (srv_Addr (fc_Server fc)))
       \<circ> srv_ShutdownTimeout_update (override_num (nonzero (srv_ShutdownTimeout (fc_Server fc)))))
     \<circ> cf_Database_update (dbc_URL_update (override (dbc_URL (fc_Database fc)))
       \<circ> dbc_MaxConns_update (override_num (nonzero (dbc_MaxConns (fc_Database fc))))
       \<circ> dbc_MinConns_update (override_num (nonzero (dbc_MinConns (fc_Database fc)))))
     \<circ> cf_Auth_update (acf_Mode_update (override (fc_Mode fc)) \<circ> acf_MTLSHeader_update (override (fc_MTLSHeader fc))
       \<circ> acf_Providers_update (\<lambda>ps. ps @ map (provider_of_file env) (fc_Providers fc))
       \<circ> acf_BootstrapAdmins_update (\<lambda>bs. bs @ fc_BootstrapAdmins fc))
     \<circ> cf_WebUI_update (wc_RedirectURI_update (override (wc_RedirectURI (fc_WebUI fc)))
       \<circ> wc_PostLogoutURI_update (override (wc_PostLogoutURI (fc_WebUI fc))))
     \<circ> cf_Log_update (lg_Level_update (override (lg_Level (fc_Log fc))) \<circ> lg_Format_update (override (lg_Format (fc_Log fc))))"

lemma applyFile_Inr:
  "applyFile env fc cfg = Inr cfg' \<longleftrightarrow> list_all (\<lambda>fp. \<not> obsolete_claims fp) (fc_Providers fc) \<and> cfg' = file_layer env fc cfg"
proof (cases "list_all (\<lambda>fp. \<not> obsolete_claims fp) (fc_Providers fc)")
  case True
  have p: "applyFileProviders env 0 (fc_Providers fc) c
      = Inr ((cf_Auth_update \<circ> acf_Providers_update) (\<lambda>ps. ps @ map (provider_of_file env) (fc_Providers fc)) c)" for c
    using True applyFileProviders_all by blast
  have "applyFile env fc cfg = Inr (file_layer env fc cfg)"
    unfolding applyFile_def Let_def p sum.case sum.inject file_layer_def
    by (rule config.equality) (simp_all add: layer_updates)
  with True show ?thesis by auto
next
  case False
  then have "\<exists>e. applyFileProviders env 0 (fc_Providers fc) c = Inl e" for c
    using applyFileProviders_all [of env 0 "fc_Providers fc" c] by (cases "applyFileProviders env 0 (fc_Providers fc) c") auto
  then have "\<exists>e. applyFile env fc cfg = Inl e"
    unfolding applyFile_def Let_def by (metis sum.case(1))
  with False show ?thesis by auto
qed

lemma first_set_override:
  "first_set (v # xs) = override v (first_set xs)" "first_set [] = []" "override v [] = v" "override (c # cs) a = c # cs"
  "first_num (x # ns) d = override_num x (first_num ns d)" "first_num [] d = d"
  by (auto simp: override_def override_num_def split: option.splits)

lemma layers_resolved:
  "applyFlags pd opts (applyEnv pd (getenv env) (file_layer (getenv env) fc applyDefaults)) = resolved pd opts env fc"
    (is "?l = _")
proof (rule config.equality)
  note simps = applyFlags_def applyEnv_def applyServerEnv_def applyDatabaseEnv_def applyAuthEnv_def applyLogEnv_def applyWebUIEnv_def
    applyFlatProviderEnv_resolved layer_updates file_layer_def
  show "cf_Server ?l = cf_Server (resolved pd opts env fc)"
    by (simp add: simps resolved_def applyDefaults_def first_set_override del: first_set.simps(2) first_num.simps(2))
  show "cf_Database ?l = cf_Database (resolved pd opts env fc)"
    by (simp add: simps resolved_def applyDefaults_def first_set_override del: first_set.simps(2) first_num.simps(2))
  show "cf_Auth ?l = cf_Auth (resolved pd opts env fc)"
    by (simp add: simps resolved_def resolved_providers_def Let_def applyDefaults_def first_set_override del: first_set.simps(2) first_num.simps(2))
  show "cf_WebUI ?l = cf_WebUI (resolved pd opts env fc)"
    by (simp add: simps resolved_def applyDefaults_def first_set_override del: first_set.simps(2) first_num.simps(2))
  show "cf_Log ?l = cf_Log (resolved pd opts env fc)"
    by (simp add: simps resolved_def applyDefaults_def first_set_override del: first_set.simps(2) first_num.simps(2))
qed simp

lemma validate_providers_None: "validate_providers i ps = None \<longleftrightarrow> list_all provider_complete ps"
  by (induction ps arbitrary: i) (auto simp: provider_complete_def)

lemma validate_None: "validate cfg = None \<longleftrightarrow> config_valid cfg"
proof (cases "validate_providers 0 (acf_Providers (cf_Auth cfg))")
  case None
  then have "list_all provider_complete (acf_Providers (cf_Auth cfg))" by (simp add: validate_providers_None)
  with None show ?thesis by (simp add: validate_def config_valid_def validate_log_def Let_def)
next
  case (Some e)
  then have "\<not> list_all provider_complete (acf_Providers (cf_Auth cfg))" using validate_providers_None by (metis option.distinct(1))
  with Some show ?thesis by (auto simp: validate_def config_valid_def validate_log_def Let_def split: if_splits)
qed

lemma load_valid: "fst (load pd loadFile opts env) = Inr cfg \<Longrightarrow> config_valid cfg"
  by (auto simp: load_def load_with_def Let_def validate_None [symmetric] split: sum.splits option.splits if_splits)

lemma no_file_layer: "applyFile env no_file applyDefaults = Inr applyDefaults"
  unfolding applyFile_Inr
  by (simp add: file_layer_def no_file_def override_def override_num_def nonzero_def applyDefaults_def)

text \<open>
  C10. The configuration of a server is the documented one. \<open>Load\<close> succeeds exactly when the file can be read,
  no provider of it has a claims mapping, and the resolved settings are coherent; each setting of the
  result comes from the first of flag, variable, variable of an earlier version, file and default that is
  given, the first provider's members from the provider variables before the file, and secrets from the
  variables they refer to.
\<close>

theorem config_load_resolves:
  "fst (load pd loadFile opts env) = Inr cfg \<longleftrightarrow>
     (\<exists>fc. config_file loadFile opts = Inr fc \<and> list_all (\<lambda>fp. \<not> obsolete_claims fp) (fc_Providers fc)
        \<and> cfg = resolved pd opts env fc \<and> config_valid cfg)"
proof -
  have layers: "(case applyFile (getenv env) fc applyDefaults of Inl e \<Rightarrow> Inl e | Inr c \<Rightarrow> load_with pd opts (getenv env) c) = Inr cfg
      \<longleftrightarrow> list_all (\<lambda>fp. \<not> obsolete_claims fp) (fc_Providers fc) \<and> cfg = resolved pd opts env fc \<and> config_valid cfg" for fc
  proof (cases "applyFile (getenv env) fc applyDefaults")
    case (Inl e)
    then show ?thesis using applyFile_Inr [of "getenv env" fc applyDefaults] by auto
  next
    case (Inr c)
    then have "list_all (\<lambda>fp. \<not> obsolete_claims fp) (fc_Providers fc)" "c = file_layer (getenv env) fc applyDefaults"
      by (simp_all add: applyFile_Inr)
    with Inr show ?thesis
      by (auto simp: load_with_def Let_def layers_resolved validate_None [symmetric] split: option.splits)
  qed
  have none: "load_with pd opts (getenv env) applyDefaults
      = (case applyFile (getenv env) no_file applyDefaults of Inl e \<Rightarrow> Inl e | Inr c \<Rightarrow> load_with pd opts (getenv env) c)"
    by (simp add: no_file_layer)
  show ?thesis
  proof (cases "cl_ConfigFile opts = []")
    case True
    with layers [of no_file] show ?thesis by (simp add: load_def Let_def warnDeprecated_getenv config_file_def none)
  next
    case False
    then show ?thesis using layers
      by (cases "loadFile (cl_ConfigFile opts)") (simp_all add: load_def Let_def warnDeprecated_getenv config_file_def)
  qed
qed

end
