(* ===== verification/Server.thy ===== *)
theory Server
  imports Bootstrap Authn Scim_Auth Config_Rules
begin

section \<open>The start of the server (\<open>cmd/oad/cmd/run.go\<close>)\<close>

text \<open>
  What \<open>runServer\<close> does before it listens: the configuration, the connection, the migrations, the
  authenticators, the identity cache, the first administrators and the tokens of the SCIM tenants. The
  connection and the migrations are parameters; the services and handlers that it builds have no state of
  their own.
\<close>

record 'k host =
  ho_ParseDuration :: "string \<Rightarrow> duration option"
  ho_ReadFile :: "string \<Rightarrow> file_config res"
  ho_Connect :: "database_config \<Rightarrow> goerr option"
  ho_Migrate :: "string \<Rightarrow> unit db"
  ho_JWT :: "'k jwt_lib"
  ho_SHA256 :: "string \<Rightarrow> string"
  ho_UUID :: "string \<Rightarrow> uuid option"
  ho_RowIDs :: "uuid \<Rightarrow> nat \<Rightarrow> uuid"

text \<open>What the routes work with: the configuration, the authentication with its state, and the tenants.\<close>

record 'k server =
  run_Config :: config
  run_Authn :: "'k authn_config"
  run_Identities :: auth_state
  run_Registry :: registry

definition jwt_provider_of :: "provider_config \<Rightarrow> jwt_provider" where
  "jwt_provider_of p = \<lparr>pr_Name = pc_Name p, pr_JWKSURL = pb_JWKSURL (pc_Backend p), pr_Issuer = pb_Issuer (pc_Backend p),
     pr_Audience = pb_Audience (pc_Backend p)\<rparr>"

definition buildJWTAuthenticator :: "'k jwt_lib \<Rightarrow> provider_config list \<Rightarrow> (string \<Rightarrow> jwt_provider option) res" where
  "buildJWTAuthenticator lib providers = NewJWTAuthenticator lib (map jwt_provider_of providers)"

text \<open>The providers by their issuer, and the header of the certificate authenticator where there is one.\<close>

definition buildAuthenticators :: "'k jwt_lib \<Rightarrow> config \<Rightarrow> ((string \<Rightarrow> jwt_provider option) \<times> string option) res" where
  "buildAuthenticators lib cfg =
     (let mode = acf_Mode (cf_Auth cfg); header = acf_MTLSHeader (cf_Auth cfg) in
      if mode = ''jwt'' \<or> mode = ''both'' then
        (case buildJWTAuthenticator lib (acf_Providers (cf_Auth cfg)) of
           Inl e \<Rightarrow> Inl (Wrap ''initializing JWT authenticator'' e)
         | Inr jwt \<Rightarrow> Inr (jwt, if mode = ''both'' then Some header else None))
      else if mode = ''mtls'' then Inr (\<lambda>_. None, Some header)
      else Inr (\<lambda>_. None, None))"

definition new_server :: "'k host \<Rightarrow> config \<Rightarrow> (string \<Rightarrow> jwt_provider option) \<times> string option \<Rightarrow> registry \<Rightarrow> 'k server" where
  "new_server h cfg auth reg =
     \<lparr>run_Config = cfg,
      run_Authn = \<lparr>ac_mode = acf_Mode (cf_Auth cfg), ac_jwt = ho_JWT h, ac_providers = fst auth, ac_mtls = snd auth,
        ac_uuid_parse = ho_UUID h\<rparr>,
      run_Identities = \<lparr>as_cache = NewIdentityCache (acf_IdentityCacheSize (cf_Auth cfg)) (acf_IdentityCacheTTL (cf_Auth cfg)),
        as_heap = []\<rparr>,
      run_Registry = reg\<rparr>"

text \<open>After the configuration; the identities are those of the tables that the migrations left.\<close>

definition serve_config :: "'k host \<Rightarrow> config \<Rightarrow> 'k server db" where
  "serve_config h cfg =
     (case ho_Connect h (cf_Database cfg) of
        Some e \<Rightarrow> throw (Wrap ''connecting to database'' e)
      | None \<Rightarrow>
          bind (wrap_err ''running migrations'' (ho_Migrate h (dbc_URL (cf_Database cfg)))) (\<lambda>_.
          bind (lift_res (buildAuthenticators (ho_JWT h) cfg)) (\<lambda>auth.
          bind (applyBootstrapAdmins (ho_RowIDs h) (acf_BootstrapAdmins (cf_Auth cfg))) (\<lambda>_.
          bind (wrap_err ''initializing SCIM registry''
             (lift_res (buildSCIMRegistry (ho_SHA256 h) (acf_Providers (cf_Auth cfg))))) (\<lambda>reg.
          ret (new_server h cfg auth reg))))))"

definition runServer :: "'k host \<Rightarrow> cli_options \<Rightarrow> os_env \<Rightarrow> 'k server db" where
  "runServer h opts env =
     bind (wrap_err ''loading config'' (lift_res (fst (load (ho_ParseDuration h) (ho_ReadFile h) opts env)))) (serve_config h)"

subsection \<open>A server that has started\<close>

lemma buildAuthenticators_mem:
  assumes "buildAuthenticators lib cfg = Inr (jwt, header)" "jwt issuer = Some p"
  shows "\<exists>pc \<in> set (acf_Providers (cf_Auth cfg)). p = jwt_provider_of pc \<and> pr_Issuer p = issuer \<and> pr_Name p \<noteq> []"
  using assms NewJWTAuthenticator_mem [of lib "map jwt_provider_of (acf_Providers (cf_Auth cfg))" jwt issuer p]
  by (auto simp: buildAuthenticators_def buildJWTAuthenticator_def Let_def split: if_splits sum.splits)

lemma serve_config_Inr:
  assumes "serve_config h cfg w s = (Inr sv, s')"
  obtains auth reg s1 where "ho_Migrate h (dbc_URL (cf_Database cfg)) w s = (Inr (), s1)"
    "buildAuthenticators (ho_JWT h) cfg = Inr auth"
    "applyBootstrapAdmins (ho_RowIDs h) (acf_BootstrapAdmins (cf_Auth cfg)) w s1 = (Inr (), s')"
    "buildSCIMRegistry (ho_SHA256 h) (acf_Providers (cf_Auth cfg)) = Inr reg" "sv = new_server h cfg auth reg"
  using assms by (auto simp: serve_config_def bind_Inr split: option.splits)

lemma runServer_Inr:
  assumes "runServer h opts env w s = (Inr sv, s')"
  shows "fst (load (ho_ParseDuration h) (ho_ReadFile h) opts env) = Inr (run_Config sv)"
    "serve_config h (run_Config sv) w s = (Inr sv, s')"
proof -
  from assms obtain cfg where l: "fst (load (ho_ParseDuration h) (ho_ReadFile h) opts env) = Inr cfg"
    and c: "serve_config h cfg w s = (Inr sv, s')"
    by (auto simp: runServer_def bind_Inr)
  from c have "run_Config sv = cfg" by (rule serve_config_Inr) (simp add: new_server_def)
  with l c show "fst (load (ho_ParseDuration h) (ho_ReadFile h) opts env) = Inr (run_Config sv)"
    "serve_config h (run_Config sv) w s = (Inr sv, s')" by simp_all
qed

text \<open>A token on an empty cache: the resolver decides.\<close>

lemma first_resolution:
  assumes "ac_mode (run_Authn sv) \<in> {''jwt'', ''both''}" "run_Identities sv = \<lparr>as_cache = NewIdentityCache c ttl, as_heap = []\<rparr>"
    "rq_header r ''Authorization'' = ''Bearer '' @ token" "rq_header r ''X-OAD-System-Id'' = []"
    "AuthenticateRaw (ac_jwt (run_Authn sv)) (ac_providers (run_Authn sv)) token = Inr (RawToken provider sub)"
    "fst (ae_resolver e provider sub s) = Inr i"
  shows "\<exists>st' s'. Authentication (run_Authn sv) e r (run_Identities sv) s = (Inr 0, st', s') \<and> as_heap st' = [i]"
proof -
  obtain s' where i: "ae_resolver e provider sub s = (Inr i, s')" using assms(6) by (metis prod.collapse)
  have t: "CutPrefix (rq_header r ''Authorization'') ''Bearer '' = Some token" unfolding assms(3) by (rule CutPrefix_append)
  have h: "rq_header r ''Authorization'' \<noteq> []" by (simp add: assms(3))
  have miss: "cache_lookup n k (NewIdentityCache c ttl) = (None, NewIdentityCache c ttl)" for n k
    by (simp add: cache_lookup_def NewIdentityCache_def)
  from i t h assms(5) have "resolveJWT (run_Authn sv) e r (run_Identities sv) s
      = (Inr 0, \<lparr>as_cache = cache_store (ae_now2 e) (cache_key provider sub) 0 (NewIdentityCache c ttl), as_heap = [i]\<rparr>, s')"
    by (simp add: resolveJWT_def cache_Resolve_def assms(2) miss alloc_identity_def)
  with assms(1,4) show ?thesis
    by (auto simp: Authentication_def credentials_def apply_system_header_def)
qed

subsection \<open>The first administrator\<close>


subsection \<open>A first start\<close>

definition first_file :: file_config where
  "first_file = no_file\<lparr>fc_Database := \<lparr>dbc_URL = ''postgres'', dbc_MaxConns = 0, dbc_MinConns = 0\<rparr>,
     fc_Providers := [\<lparr>fp_Name = ''kc'', fp_DisplayName = [],
       fp_Backend = \<lparr>pb_JWKSURL = ''url'', pb_Issuer = ''iss'', pb_Audience = ''aud''\<rparr>,
       fp_ClaimsMapping = \<lparr>cm_RolesClaim = [], cm_SystemIDClaim = [], cm_DefaultRoles = []\<rparr>,
       fp_WebUI = \<lparr>pw_Authority = [], pw_ClientID = [], pw_Scope = []\<rparr>,
       fp_SCIM = \<lparr>ps_Enabled = True, ps_Token = ''env:SCIM_TOKEN''\<rparr>\<rparr>],
     fc_BootstrapAdmins := [\<lparr>ba_Provider = ''kc'', ba_Subject = ''u1''\<rparr>]\<rparr>"

definition first_host :: "nat host" where
  "first_host = \<lparr>ho_ParseDuration = (\<lambda>_. None), ho_ReadFile = (\<lambda>_. Inr first_file), ho_Connect = (\<lambda>_. None),
     ho_Migrate = (\<lambda>_. ret ()), ho_JWT = sample_lib, ho_SHA256 = (\<lambda>s. s), ho_UUID = (\<lambda>_. None), ho_RowIDs = (\<lambda>u n. u + of_nat n)\<rparr>"

definition first_options :: cli_options where
  "first_options = \<lparr>cl_ConfigFile = ''oad.yaml'', cl_Database = [], cl_Addr = [], cl_AuthMode = [], cl_ShutdownTimeout = [],
     cl_LogLevel = [], cl_LogFormat = []\<rparr>"

definition first_run :: "nat server res \<times> sess" where
  "first_run = runServer first_host first_options (\<lambda>v. if v = ''SCIM_TOKEN'' then ''t'' else []) sample_world fresh_sess"

fun first_outcome :: "nat server res \<times> sess \<Rightarrow> (string \<times> bootstrap_admin list \<times> RawToken res) option" where
  "first_outcome (Inl e, s) = None"
| "first_outcome (Inr sv, s) = Some (acf_Mode (cf_Auth (run_Config sv)), acf_BootstrapAdmins (cf_Auth (run_Config sv)),
     AuthenticateRaw sample_lib (ac_providers (run_Authn sv)) ''tok'')"

lemma first_start: "first_outcome first_run = Some (''jwt'', [\<lparr>ba_Provider = ''kc'', ba_Subject = ''u1''\<rparr>], Inr (RawToken ''kc'' ''u1''))"
  by code_simp


end
