(* ===== verification/Scim_Http_Rules.thy ===== *)
theory Scim_Http_Rules
  imports Scim_Http
begin

section \<open>What a SCIM call can do\<close>

text \<open>
  An endpoint does nothing, or it does what one request of the services does for the provider of the
  caller; its status tells which. With the admission of tenants and the audit of the services this gives
  the property of the whole mount.
\<close>

lemma quietly_run: "quietly m w s = (map_sum id (\<lambda>_. ()) (fst (m w s)), snd (m w s))"
  by (simp add: quietly_def bind_def ret_def split: prod.splits sum.splits)

text \<open>An endpoint that stands for a request: the same effect, and a status that tells the outcome.\<close>

definition fits :: "(goerr + unit) \<Rightarrow> (goerr + scim_response) \<Rightarrow> bool" where
  "fits out r = (case out of
     Inr _ \<Rightarrow> (\<exists>resp. r = Inr resp \<and> sp_Status resp < 300)
   | Inl e \<Rightarrow> (case r of Inl e' \<Rightarrow> panics e \<and> e' = e | Inr resp \<Rightarrow> sp_Status resp \<ge> 400))"

definition endpoint :: "'f scim_env \<Rightarrow> string \<Rightarrow> scim_response db \<Rightarrow> bool" where
  "endpoint v p m \<longleftrightarrow> (\<forall>w s. (\<exists>resp. m w s = (Inr resp, s))
     \<or> (\<exists>rq out r s'. scim_serve v p rq w s = (out, s') \<and> m w s = (r, s') \<and> fits out r))"

lemma endpointD:
  assumes "endpoint v p m" "m w s = (r, s')"
  shows "(\<exists>resp. r = Inr resp \<and> s' = s) \<or> (\<exists>rq out. scim_serve v p rq w s = (out, s') \<and> fits out r)"
  using assms(1) [unfolded endpoint_def, rule_format, of w s] unfolding assms(2) by auto

lemma endpoint_ret: "endpoint v p (ret resp)"
  by (simp add: endpoint_def ret_def)

lemma endpoint_with_id: "(\<And>i. endpoint v p (f i)) \<Longrightarrow> endpoint v p (with_id up raw f)"
  by (simp add: with_id_def endpoint_ret split: option.splits)

lemma endpoint_with_json: "(\<And>x. endpoint v p (f x)) \<Longrightarrow> endpoint v p (with_json d z body f)"
  by (simp add: with_json_def endpoint_ret split: option.splits)

lemma endpoint_with_provider: "p \<noteq> [] \<Longrightarrow> endpoint v p (f p) \<Longrightarrow> endpoint v p (with_provider (Some p) f)"
  by (simp add: with_provider_def ProviderFromContext_def)

lemma error_status: "scim_status (writeUserError e) \<ge> 400" "scim_status (writeGroupError e) \<ge> 400"
  by (simp_all add: writeUserError_def writeGroupError_def)

definition answered :: "('a \<Rightarrow> scim_response db) \<Rightarrow> 'a \<Rightarrow> bool" where
  "answered ok x \<longleftrightarrow> (\<exists>resp. ok x = ret resp \<and> sp_Status resp < 300)"

definition yields :: "('a \<Rightarrow> bool) \<Rightarrow> 'a db \<Rightarrow> bool" where
  "yields P m \<longleftrightarrow> (\<forall>w s x s'. m w s = (Inr x, s') \<longrightarrow> P x)"

lemma yields_bind: "yields P m \<Longrightarrow> (\<And>x. P x \<Longrightarrow> yields Q (f x)) \<Longrightarrow> yields Q (bind m f)"
  unfolding yields_def bind_Inr by blast

lemma yields_weaken: "yields P m \<Longrightarrow> (\<And>x. P x \<Longrightarrow> Q x) \<Longrightarrow> yields Q m"
  unfolding yields_def by blast

lemma yields_True: "yields (\<lambda>_. True) m"
  by (simp add: yields_def)

lemma yields_then: "(\<And>x. yields P (f x)) \<Longrightarrow> yields P (bind m f)"
  by (rule yields_bind [OF yields_True])

lemma yields_simple:
  "P x \<Longrightarrow> yields P (ret x)" "yields P (throw e)" "yields P m \<Longrightarrow> yields P m' \<Longrightarrow> yields P (if b then m else m')"
  by (simp_all add: yields_def)

lemmas yields_rules = yields_then yields_simple

lemma endpoint_scim_respond:
  assumes "quietly m = scim_serve v p rq" "\<And>e. scim_status (we e) \<ge> 400" "yields (answered ok) m"
  shows "endpoint v p (scim_respond we ok m)"
  unfolding endpoint_def
proof (intro allI disjI2)
  fix w s
  obtain o' s' where m: "m w s = (o', s')" by fastforce
  from m assms(1) have serve: "scim_serve v p rq w s = (map_sum id (\<lambda>_. ()) o', s')" by (metis quietly_run fst_conv snd_conv)
  have "\<exists>r. scim_respond we ok m w s = (r, s') \<and> fits (map_sum id (\<lambda>_. ()) o') r"
  proof (cases o')
    case (Inl e)
    with m assms(2) show ?thesis
      by (cases "panics e") (simp_all add: scim_respond_def fits_def WriteError_def WriteJSON_def)
  next
    case (Inr x)
    with m assms(3) have "answered ok x" unfolding yields_def by blast
    then obtain resp where "ok x = ret resp" "sp_Status resp < 300" unfolding answered_def by blast
    with m Inr show ?thesis by (simp add: scim_respond_def fits_def ret_def)
  qed
  with serve show "\<exists>rq out r s'. scim_serve v p rq w s = (out, s') \<and> scim_respond we ok m w s = (r, s') \<and> fits out r" by blast
qed

subsection \<open>The handlers\<close>

lemma FromStored_Meta: "us_Meta (Users_FromStored env u) \<noteq> None" "gr_Meta (Groups_FromStored env g) \<noteq> None"
  by (simp_all add: Users_FromStored_def Groups_FromStored_def Let_def)

abbreviation user_meta :: "scim_user \<times> keys \<Rightarrow> bool" where
  "user_meta uk \<equiv> us_Meta (fst uk) \<noteq> None"

abbreviation group_meta :: "scim_group \<Rightarrow> bool" where
  "group_meta g \<equiv> gr_Meta g \<noteq> None"

lemma users_yield:
  "yields user_meta (Users_Create env p u)" "yields (\<lambda>u. us_Meta u \<noteq> None) (Users_GetByEntityID env p i)"
  "yields user_meta (Users_Replace env p i u)" "yields user_meta (Users_Patch pf env p i ops)"
proof -
  show get: "yields (\<lambda>u. us_Meta u \<noteq> None) (Users_GetByEntityID env p i)"
    unfolding Users_GetByEntityID_def by (intro yields_rules FromStored_Meta)
  show "yields user_meta (Users_Create env p u)" "yields user_meta (Users_Replace env p i u)"
    unfolding Users_Create_def Users_Replace_def by (intro yields_rules, unfold fst_conv, rule FromStored_Meta)+
  have "yields user_meta (bind (Users_GetByEntityID env p i) (\<lambda>u. ret (u, [])))"
    by (rule yields_bind [OF get]) (rule yields_rules, unfold fst_conv)
  moreover have "yields user_meta (bind (in_tx (Users_patch_body pf p i ops))
      (\<lambda>s. ret (Users_FromStored env (user_of_row s), [(p, sr_ExternalSubject s)])))"
    by (intro yields_rules, unfold fst_conv, rule FromStored_Meta)
  ultimately show "yields user_meta (Users_Patch pf env p i ops)" unfolding Users_Patch_def by (rule yields_rules)
qed

lemma groups_yield:
  "yields group_meta (Groups_Create up env p g)" "yields group_meta (Groups_GetByEntityID env p i)"
  "yields group_meta (Groups_Replace up env p i g)" "yields group_meta (Groups_Patch pf up env p i ops)"
  unfolding Groups_Create_def Groups_Replace_def Groups_Patch_def Groups_GetByEntityID_def
  by (intro yields_rules FromStored_Meta)+

lemma answered_meta:
  "user_meta uk \<Longrightarrow> answered (\<lambda>(u, k :: keys). created_response (us_Meta u) (UserDoc u)) uk"
  "user_meta uk \<Longrightarrow> answered (\<lambda>(u, k :: keys). dropping k (ok_response (us_Meta u) (UserDoc u))) uk"
  "us_Meta u \<noteq> None \<Longrightarrow> answered (\<lambda>u. ok_response (us_Meta u) (UserDoc u)) u"
  "group_meta g \<Longrightarrow> answered (\<lambda>g. created_response (gr_Meta g) (GroupDoc g)) g"
  "group_meta g \<Longrightarrow> answered (\<lambda>g. ok_response (gr_Meta g) (GroupDoc g)) g"
  by (auto simp: answered_def created_response_def ok_response_def deref_def dropping_def bind_def ret_def fun_eq_iff split_def)

lemma answered_plain:
  "answered (\<lambda>x. ret (WriteJSON 204 NoContent)) y"
  "answered (\<lambda>(us, n). ret (WriteJSON 200 (UserListDoc us n i))) ul"
  "answered (\<lambda>(gs, n). ret (WriteJSON 200 (GroupListDoc gs n i))) gl"
  "answered (\<lambda>(x :: unit, k). dropping k (ret (WriteJSON 204 NoContent))) uk"
  by (auto simp: answered_def WriteJSON_def dropping_def bind_def ret_def fun_eq_iff split_def)

lemmas endpoint_steps = endpoint_with_id endpoint_with_json
  yields_weaken [OF yields_True answered_plain(1)] yields_weaken [OF yields_True answered_plain(2)]
  yields_weaken [OF yields_True answered_plain(3)] yields_weaken [OF yields_True answered_plain(4)]
  yields_weaken [OF users_yield(1) answered_meta(1)] yields_weaken [OF users_yield(2) answered_meta(3)]
  yields_weaken [OF users_yield(3) answered_meta(2)] yields_weaken [OF users_yield(4) answered_meta(2)]
  yields_weaken [OF groups_yield(1) answered_meta(4)] yields_weaken [OF groups_yield(2) answered_meta(5)]
  yields_weaken [OF groups_yield(3) answered_meta(5)] yields_weaken [OF groups_yield(4) answered_meta(5)]

lemmas user_responds = scim_serve.simps(1-6) [symmetric, THEN endpoint_scim_respond, OF error_status(1)]
lemmas group_responds = scim_serve.simps(7-12) [symmetric, THEN endpoint_scim_respond, OF error_status(2)]

lemma user_endpoints:
  assumes "p \<noteq> []"
  shows "endpoint v p (UsersHandler_Create v pt (Some p) q)" "endpoint v p (UsersHandler_GetByID v (Some p) i)"
    "endpoint v p (UsersHandler_List v (Some p) q)" "endpoint v p (UsersHandler_Replace v pt (Some p) i q)"
    "endpoint v p (UsersHandler_Patch v (Some p) i q)" "endpoint v p (UsersHandler_Delete v (Some p) i)"
  unfolding UsersHandler_Create_def UsersHandler_GetByID_def UsersHandler_List_def UsersHandler_Replace_def
    UsersHandler_Patch_def UsersHandler_Delete_def
  by (intro endpoint_with_provider [OF assms] user_responds endpoint_steps; assumption)+

lemma group_endpoints:
  assumes "p \<noteq> []"
  shows "endpoint v p (GroupsHandler_Create v pt (Some p) q)" "endpoint v p (GroupsHandler_GetByID v (Some p) i)"
    "endpoint v p (GroupsHandler_List v (Some p) q)" "endpoint v p (GroupsHandler_Replace v pt (Some p) i q)"
    "endpoint v p (GroupsHandler_Patch v (Some p) i q)" "endpoint v p (GroupsHandler_Delete v (Some p) i)"
  unfolding GroupsHandler_Create_def GroupsHandler_GetByID_def GroupsHandler_List_def GroupsHandler_Replace_def
    GroupsHandler_Patch_def GroupsHandler_Delete_def
  by (intro endpoint_with_provider [OF assms] group_responds endpoint_steps; assumption)+

lemma handler_endpoint:
  assumes "p \<noteq> []" "\<not> discovery e"
  shows "endpoint v p (scim_handler v pt e (Some p) i q)"
  using assms by (cases e) (simp_all add: user_endpoints group_endpoints discovery_def)

lemma discovery_reads: "discovery e \<Longrightarrow> \<exists>resp. scim_handler v pt e ctx i q = ret resp"
  by (cases e) (auto simp: discovery_def)


subsection \<open>The mount\<close>

lemma recovered:
  assumes "scim_http v pt sha reg q w s = (r, s')"
  shows "\<exists>r0. scim_mount v pt sha reg q w s = (r0, s')
    \<and> (\<exists>resp. r = Inr resp \<and> (r0 = Inr resp \<or> (\<exists>e. r0 = Inl e) \<and> sp_Status resp = 500))"
proof (cases "scim_mount v pt sha reg q w s")
  case (Pair r0 s0)
  with assms show ?thesis by (cases r0) (auto simp: scim_http_def catch_def ret_def WriteJSON_def)
qed

lemma scim_mount_cases:
  obtains (quiet) resp where "scim_mount v pt sha reg q = ret resp"
    | (call) e i p where "scim_mount v pt sha reg q = scim_handler v pt e (Some p) i q" "\<not> discovery e"
      "scim_Authenticate sha reg (sq_authorization q) = Inr p"
proof (cases "find_route scim_routes (sq_method q) (sq_path q)")
  case (Found e ps)
  show ?thesis
  proof (cases "discovery e")
    case True
    from discovery_reads [OF this, of v pt None "param ps ''id''" q] True Found show ?thesis
      by (auto simp: scim_mount_def intro: quiet)
  next
    case False
    with Found show ?thesis
      by (cases "scim_Authenticate sha reg (sq_authorization q)") (simp_all add: scim_mount_def quiet call [where e = e])
  qed
qed (simp_all add: scim_mount_def quiet)

lemma scim_http_cases:
  assumes "buildSCIMRegistry sha ps = Inr reg" "scim_http v pt sha reg q w s = (r, s')"
  obtains (idle) resp where "r = Inr resp" "s' = s"
    | (served) resp token p rq out where "r = Inr resp" "sq_authorization q = ''Bearer '' @ token" "token \<noteq> []"
        "p \<in> set (filter registers ps)" "sha (ps_Token (pc_SCIM p)) = sha token"
        "scim_serve v (pc_Name p) rq w s = (out, s')" "out = Inr () \<longrightarrow> sp_Status resp < 300"
        "out \<noteq> Inr () \<longrightarrow> sp_Status resp \<ge> 400"
proof -
  from recovered [OF assms(2)] obtain r0 where m: "scim_mount v pt sha reg q w s = (r0, s')"
    and r: "\<exists>resp. r = Inr resp \<and> (r0 = Inr resp \<or> (\<exists>e. r0 = Inl e) \<and> sp_Status resp = 500)" by blast
  show thesis
  proof (cases rule: scim_mount_cases [of v pt sha reg q])
    case quiet
    with m r show ?thesis using idle by (auto simp: ret_def)
  next
    case (call e i name)
    from scim_tenant_registered [OF assms(1) call(3)] obtain token p where
      t: "sq_authorization q = ''Bearer '' @ token" "token \<noteq> []" "p \<in> set (filter registers ps)"
        "sha (ps_Token (pc_SCIM p)) = sha token" "pc_Name p = name" "name \<noteq> []" by blast
    from endpointD [OF handler_endpoint [OF t(6) call(2), of v pt i q] m [unfolded call(1)]]
    consider (none) resp where "r0 = Inr resp" "s' = s"
      | (req) rq out where "scim_serve v name rq w s = (out, s')" "fits out r0"
      by blast
    then show ?thesis
    proof cases
      case none
      with r show ?thesis using idle by auto
    next
      case req
      from req(2) r obtain resp where resp: "r = Inr resp" "out = Inr () \<longrightarrow> sp_Status resp < 300" "out \<noteq> Inr () \<longrightarrow> sp_Status resp \<ge> 400"
        by (cases out; cases r0) (auto simp: fits_def)
      show ?thesis by (rule served [OF resp(1) t(1-4) _ resp(2,3)]) (use req(1) t(5) in simp)
    qed
  qed
qed

text \<open>
  C11. Behind the mount only tenants act, and a response tells what happened. A call of any method, path and
  body always gets a response, panics included. If it changed the database (no commit being left in
  doubt), then its header carries the token of an enabled provider, the status is below 300, and what
  changed is what one request of the services does for this provider: exactly one record was appended to
  the log, with this provider as actor.
\<close>

theorem scim_calls_are_tenant_requests:
  assumes "buildSCIMRegistry sha ps = Inr reg" "s_tx s = None" "\<And>n. \<not> w_indoubt w n"
    "scim_http v pt sha reg q w s = (r, s')"
  shows "\<exists>resp. r = Inr resp \<and> (s_db s' \<noteq> s_db s \<longrightarrow>
    (\<exists>token p rq row. sq_authorization q = ''Bearer '' @ token \<and> token \<noteq> [] \<and> p \<in> set (filter registers ps)
       \<and> sha (ps_Token (pc_SCIM p)) = sha token \<and> sp_Status resp < 300
       \<and> scim_serve v (pc_Name p) rq w s = (Inr (), s')
       \<and> db_audit (s_db s') = db_audit (s_db s) @ [row] \<and> au_actor row = ''scim:'' @ pc_Name p))"
  using assms(1,4)
proof (cases rule: scim_http_cases)
  case (idle resp)
  then show ?thesis by simp
next
  case (served resp token p rq out)
  show ?thesis
  proof (cases "s_db s' = s_db s")
    case False
    from scim_effect [OF assms(2,3) served(6) False] obtain row l where
      "out = Inr ()" "db_audit (s_db s') = db_audit (s_db s) @ [row]" "logged (pc_Name p) l row" by blast
    moreover from this(3) have "au_actor row = ''scim:'' @ pc_Name p" by (auto simp: logged_def split: prod.splits)
    ultimately show ?thesis using served by blast
  qed (use served(1) in simp)
qed

text \<open>A deletion with the first token of \<open>two_tenants\<close>.\<close>

definition delete_call :: scim_call where
  "delete_call = \<lparr>sq_method = ''DELETE'', sq_path = [''Users'', ''u''], sq_authorization = ''Bearer t1'', sq_query = (\<lambda>_. []), sq_body = None\<rparr>"

theorem scim_calls_are_tenant_requests_witness:
  "\<exists>reg resp s' row. buildSCIMRegistry id two_tenants = Inr reg
     \<and> scim_http (sample_env\<lparr>sv_uuid := \<lambda>_. Some 10\<rparr>) (\<lambda>_. None) id reg delete_call sample_world sample_sess = (Inr resp, s')
     \<and> sp_Status resp = 204 \<and> db_audit (s_db s') = [row] \<and> au_actor row = ''scim:kc''"
proof -
  let ?v = "sample_env\<lparr>sv_uuid := \<lambda>_. Some 10\<rparr>"
  let ?reg = "[\<lparr>tn_provider = ''kc'', tn_hash = ''t1''\<rparr>, \<lparr>tn_provider = ''okta'', tn_hash = ''t2''\<rparr>]"
  have reg: "buildSCIMRegistry id two_tenants = Inr ?reg"
    by (simp add: buildSCIMRegistry_def two_tenants_def Register_def empty_provider_def)
  from delete_run obtain x s' where d: "Users_Delete ''kc'' 10 sample_world sample_sess = (Inr (x, [(''kc'', ''u1'')]), s')" by blast
  let ?resp = "(WriteJSON 204 NoContent)\<lparr>sp_Dropped := [(''kc'', ''u1'')]\<rparr>"
  have "find_route scim_routes ''DELETE'' [''Users'', ''u''] = Found Users_delete [(''id'', ''u'')]" by (simp add: scim_routes_def)
  moreover have "scim_Authenticate id ?reg ''Bearer t1'' = Inr ''kc''" by (simp add: scim_Authenticate_def CutPrefix_def Lookup_token_def)
  ultimately have run: "scim_http ?v (\<lambda>_. None) id ?reg delete_call sample_world sample_sess = (Inr ?resp, s')"
    by (simp add: scim_http_def scim_mount_def delete_call_def discovery_def UsersHandler_Delete_def with_provider_def
        ProviderFromContext_def with_id_def scim_respond_def dropping_def bind_def d catch_def ret_def)
  have "scim_serve ?v ''kc'' (UserDelete 10) sample_world sample_sess = (Inr (), s')" by (simp add: quietly_def bind_def ret_def d)
  moreover have doubt: "\<not> w_indoubt sample_world n" for n by (simp add: sample_world_def)
  ultimately have "db_audit (s_db s') \<noteq> []" "db_audit (s_db sample_sess) = []"
    using atomicD [OF serve_atomic [of "UserDelete 10", OF _ doubt] sample_quiet(2)] by (auto simp: sample_defs) fastforce
  then have "s_db s' \<noteq> s_db sample_sess" by metis
  with scim_calls_are_tenant_requests [OF reg sample_quiet(2) doubt run] obtain token p row where
    "''Bearer t1'' = ''Bearer '' @ token" "p \<in> set (filter registers two_tenants)" "id (ps_Token (pc_SCIM p)) = id token"
    "db_audit (s_db s') = db_audit (s_db sample_sess) @ [row]" "au_actor row = ''scim:'' @ pc_Name p"
    by (auto simp: delete_call_def)
  moreover from this(1-3) have "pc_Name p = ''kc''" by (auto simp: two_tenants_def registers_def empty_provider_def)
  ultimately show ?thesis using reg run \<open>db_audit (s_db sample_sess) = []\<close> by (auto simp: WriteJSON_def)
qed

end
