(* ===== verification/Core_Tables.thy ===== *)
theory Core_Tables
  imports Core_Base
begin

section \<open>Statements of the management repositories\<close>

text \<open>
  The statements on types, systems, overlays, overlay schemas and webhooks, with the constraints of
  \<open>migrations/000001_initial_schema.up.sql\<close>, and the integrity of these tables. Row level security
  covers entities, relations, overlays and webhooks; types and overlay schemas have none.
\<close>

subsection \<open>Types\<close>

definition insert_type :: "string \<Rightarrow> json \<Rightarrow> json \<Rightarrow> string \<Rightarrow> type_row statement" where
  "insert_type name props rels scope = (\<lambda>q d.
     let t = \<lparr>ty_id = q_uuid q, ty_name = name, ty_allowed_properties = props, ty_allowed_relations = rels,
              ty_scope = scope, ty_builtin = False, ty_created = q_now q, ty_updated = q_now q\<rparr> in
     if scope \<notin> {''global'', ''system_scoped''} then pg_error ''23514'' ''entity_type_definition_scope_check''
     else if list_ex (\<lambda>t'. ty_id t' = ty_id t) (db_types d) then pg_error ''23505'' ''entity_type_definition_pkey''
     else if list_ex (\<lambda>t'. ty_name t' = name) (db_types d) then pg_error ''23505'' ''entity_type_definition_type_name_key''
     else Inr (t, d\<lparr>db_types := db_types d @ [t]\<rparr>))"

definition update_types :: "(type_row \<Rightarrow> bool) \<Rightarrow> (type_row \<Rightarrow> type_row) \<Rightarrow> type_row list statement" where
  "update_types P f = (\<lambda>q d.
     let upd = (\<lambda>t. (f t)\<lparr>ty_updated := q_now q\<rparr>)
     in Inr (map upd (filter P (db_types d)), d\<lparr>db_types := map (\<lambda>t. if P t then upd t else t) (db_types d)\<rparr>))"

definition delete_type :: "uuid \<Rightarrow> nat statement" where
  "delete_type i = (\<lambda>q d.
     let hit = filter (\<lambda>t. ty_id t = i) (db_types d) in
     if hit \<noteq> [] \<and> list_ex (\<lambda>e. en_type_id e = i) (db_entities d) then pg_error ''23503'' ''entity_type_id_fkey''
     else if hit \<noteq> [] \<and> list_ex (\<lambda>s. sc_type s = i) (db_schemas d)
       then pg_error ''23503'' ''system_overlay_schema_entity_type_id_fkey''
     else Inr (length hit, d\<lparr>db_types := filter (\<lambda>t. ty_id t \<noteq> i) (db_types d)\<rparr>))"

subsection \<open>Entities whose key changes\<close>

definition update_entities_key ::
  "(query_ctx \<Rightarrow> database \<Rightarrow> entity_row \<Rightarrow> bool) \<Rightarrow> (entity_row \<Rightarrow> entity_row) \<Rightarrow> entity_row list statement" where
  "update_entities_key P f = (\<lambda>q d.
     case update_entities P f q d of
       Inl e \<Rightarrow> Inl e
     | Inr (rows, d') \<Rightarrow>
         if distinct (map (\<lambda>e. (en_type_id e, en_external_id e)) (db_entities d')) then Inr (rows, d')
         else pg_error ''23505'' ''entity_type_id_external_id_key'')"

subsection \<open>Overlays and overlay schemas\<close>

definition overlays :: "query_ctx \<Rightarrow> database \<Rightarrow> overlay_row list" where
  "overlays q d = filter (\<lambda>r. visible q (Some (ov_system r))) (db_overlays d)"

definition insert_overlay :: "uuid \<Rightarrow> uuid \<Rightarrow> json \<Rightarrow> overlay_row statement" where
  "insert_overlay ent sys props = (\<lambda>q d.
     let r = \<lparr>ov_id = q_uuid q, ov_entity = ent, ov_system = sys, ov_properties = props,
              ov_created = q_now q, ov_updated = q_now q\<rparr> in
     if \<not> system_check q d (Some sys) then pg_error ''P0001'' []
     else if \<not> visible q (Some sys) then pg_error ''42501'' []
     else if list_ex (\<lambda>r'. ov_id r' = ov_id r) (db_overlays d) then pg_error ''23505'' ''property_overlay_pkey''
     else if list_ex (\<lambda>r'. ov_entity r' = ent \<and> ov_system r' = sys) (db_overlays d)
       then pg_error ''23505'' ''property_overlay_entity_id_system_id_key''
     else if \<not> list_ex (\<lambda>e. en_id e = ent) (db_entities d) then pg_error ''23503'' ''property_overlay_entity_id_fkey''
     else Inr (r, d\<lparr>db_overlays := db_overlays d @ [r]\<rparr>))"

definition update_overlays :: "(overlay_row \<Rightarrow> bool) \<Rightarrow> (overlay_row \<Rightarrow> overlay_row) \<Rightarrow> overlay_row list statement" where
  "update_overlays P f = (\<lambda>q d.
     let hit = (\<lambda>r. visible q (Some (ov_system r)) \<and> P r); upd = (\<lambda>r. (f r)\<lparr>ov_updated := q_now q\<rparr>)
     in Inr (map upd (filter hit (db_overlays d)), d\<lparr>db_overlays := map (\<lambda>r. if hit r then upd r else r) (db_overlays d)\<rparr>))"

definition delete_overlays :: "(overlay_row \<Rightarrow> bool) \<Rightarrow> nat statement" where
  "delete_overlays P = (\<lambda>q d.
     let hit = (\<lambda>r. visible q (Some (ov_system r)) \<and> P r)
     in Inr (length (filter hit (db_overlays d)), d\<lparr>db_overlays := filter (\<lambda>r. \<not> hit r) (db_overlays d)\<rparr>))"

definition insert_schema :: "uuid \<Rightarrow> uuid \<Rightarrow> json \<Rightarrow> schema_row statement" where
  "insert_schema sys tid allowed = (\<lambda>q d.
     let r = \<lparr>sc_id = q_uuid q, sc_system = sys, sc_type = tid, sc_allowed = allowed,
              sc_created = q_now q, sc_updated = q_now q\<rparr> in
     if \<not> system_check q d (Some sys) then pg_error ''P0001'' []
     else if list_ex (\<lambda>r'. sc_id r' = sc_id r) (db_schemas d) then pg_error ''23505'' ''system_overlay_schema_pkey''
     else if list_ex (\<lambda>r'. sc_system r' = sys \<and> sc_type r' = tid) (db_schemas d)
       then pg_error ''23505'' ''system_overlay_schema_system_id_entity_type_id_key''
     else if \<not> list_ex (\<lambda>t. ty_id t = tid) (db_types d)
       then pg_error ''23503'' ''system_overlay_schema_entity_type_id_fkey''
     else Inr (r, d\<lparr>db_schemas := db_schemas d @ [r]\<rparr>))"

definition update_schemas :: "(schema_row \<Rightarrow> bool) \<Rightarrow> (schema_row \<Rightarrow> schema_row) \<Rightarrow> schema_row list statement" where
  "update_schemas P f = (\<lambda>q d.
     let upd = (\<lambda>r. (f r)\<lparr>sc_updated := q_now q\<rparr>)
     in Inr (map upd (filter P (db_schemas d)), d\<lparr>db_schemas := map (\<lambda>r. if P r then upd r else r) (db_schemas d)\<rparr>))"

definition delete_schemas :: "(schema_row \<Rightarrow> bool) \<Rightarrow> nat statement" where
  "delete_schemas P = (\<lambda>q d.
     Inr (length (filter P (db_schemas d)), d\<lparr>db_schemas := filter (\<lambda>r. \<not> P r) (db_schemas d)\<rparr>))"

subsection \<open>Integrity\<close>

text \<open>
  \<open>core_ok\<close> adds to \<open>db_ok\<close>: every entity has its type, an overlay its entity and at most one per
  system, an overlay schema its type and at most one per system and type.
\<close>

definition type_ids :: "database \<Rightarrow> uuid set" where
  "type_ids d = ty_id ` set (db_types d)"

definition core_ok :: "database \<Rightarrow> bool" where
  "core_ok d \<longleftrightarrow> db_ok d
     \<and> (\<forall>e \<in> set (db_entities d). en_type_id e \<in> type_ids d)
     \<and> (\<forall>r \<in> set (db_overlays d). ov_entity r \<in> entity_ids d)
     \<and> distinct (map (\<lambda>r. (ov_entity r, ov_system r)) (db_overlays d))
     \<and> (\<forall>r \<in> set (db_schemas d). sc_type r \<in> type_ids d)
     \<and> distinct (map (\<lambda>r. (sc_system r, sc_type r)) (db_schemas d))"

definition keeps_core :: "database \<Rightarrow> database \<Rightarrow> bool" where
  "keeps_core d d' \<longleftrightarrow> (core_ok d \<longrightarrow> core_ok d')"

lemma keeps_core_props [db_intros]: "reflp keeps_core" "transp keeps_core"
  by (auto simp: keeps_core_def intro!: reflpI transpI)

text \<open>Statements that leave types, overlays and schemas alone and no entity without its type.\<close>

lemma core_ok_frame:
  assumes "core_ok d" "db_ok d'" "db_types d' = db_types d" "db_schemas d' = db_schemas d"
    and "\<And>e. e \<in> set (db_entities d') \<Longrightarrow> \<exists>e0 \<in> set (db_entities d). en_type_id e0 = en_type_id e"
    and "db_overlays d' = filter (\<lambda>r. ov_entity r \<in> entity_ids d') (db_overlays d)"
  shows "core_ok d'"
proof -
  have t: "type_ids d' = type_ids d" by (simp add: type_ids_def assms(3))
  have e: "en_type_id e \<in> type_ids d" if "e \<in> set (db_entities d')" for e
    using assms(5) [OF that] assms(1) by (auto simp: core_ok_def)
  have o1: "ov_entity r \<in> entity_ids d'" if "r \<in> set (db_overlays d')" for r
    using that by (subst (asm) assms(6)) simp
  have o2: "distinct (map (\<lambda>r. (ov_entity r, ov_system r)) (db_overlays d'))"
    by (subst assms(6)) (use assms(1) in \<open>simp add: core_ok_def distinct_map_filterI\<close>)
  show ?thesis using assms(1,2) e o1 o2 by (simp add: core_ok_def t assms(4))
qed

lemma core_ok_insert_entity:
  assumes "insert_entity tid ext props sys q d = Inr (e, d')" "core_ok d"
  shows "core_ok d'"
proof -
  from assms(2) have "db_ok d" by (simp add: core_ok_def)
  with assms(1) have "db_ok d'" by (rule db_ok_insert_entity)
  moreover from assms(1) have "d' = d\<lparr>db_entities := db_entities d @ [e]\<rparr> \<and> en_type_id e \<in> type_ids d"
    by (auto simp: insert_entity_def pg_error_def Let_def list_ex_iff type_ids_def split: if_splits)
  ultimately show ?thesis using assms(2) by (auto simp: core_ok_def type_ids_def entity_ids_def)
qed

lemma core_ok_same_rows:
  assumes "core_ok d" "db_ok d'" "db_types d' = db_types d" "db_schemas d' = db_schemas d" "db_overlays d' = db_overlays d"
    "map en_id (db_entities d') = map en_id (db_entities d)" "map en_type_id (db_entities d') = map en_type_id (db_entities d)"
  shows "core_ok d'"
proof -
  have "entity_ids d' = entity_ids d" using arg_cong [where f = set, OF assms(6)] by (simp add: entity_ids_def)
  moreover have "en_type_id ` set (db_entities d') = en_type_id ` set (db_entities d)"
    using arg_cong [where f = set, OF assms(7)] by simp
  ultimately show ?thesis using assms(1-5) by (fastforce simp: core_ok_def type_ids_def)
qed

lemma update_entities_keys:
  assumes "update_entities P f q d = Inr (x, d')"
    and "\<And>e. en_id (f e) = en_id e \<and> en_type_id (f e) = en_type_id e"
  shows "map en_id (db_entities d') = map en_id (db_entities d)" "map en_type_id (db_entities d') = map en_type_id (db_entities d)"
    "db_types d' = db_types d" "db_schemas d' = db_schemas d" "db_overlays d' = db_overlays d"
    "db_identities d' = db_identities d" "db_relations d' = db_relations d"
  using assms by (auto simp: update_entities_def Let_def)

lemma core_ok_update_entities:
  assumes "update_entities P f q d = Inr (x, d')" "core_ok d"
    and "\<And>e. en_id (f e) = en_id e \<and> en_type_id (f e) = en_type_id e \<and> en_external_id (f e) = en_external_id e"
  shows "core_ok d'"
proof -
  from assms(2) have "db_ok d" by (simp add: core_ok_def)
  from db_ok_update_entities [OF assms(1) this assms(3)] have ok: "db_ok d'" .
  note k = update_entities_keys [OF assms(1)]
  show ?thesis by (rule core_ok_same_rows [OF assms(2) ok]) (rule k, use assms(3) in blast)+
qed

lemma core_ok_update_entities_key:
  assumes "update_entities_key P f q d = Inr (x, d')" "core_ok d"
    and f: "\<And>e. en_id (f e) = en_id e \<and> en_type_id (f e) = en_type_id e"
  shows "core_ok d'"
proof -
  from assms(1) have up: "update_entities P f q d = Inr (x, d')"
    and dist: "distinct (map (\<lambda>e. (en_type_id e, en_external_id e)) (db_entities d'))"
    by (auto simp: update_entities_key_def pg_error_def split: sum.splits if_splits)
  note k = update_entities_keys [OF up f]
  have "entity_ids d' = entity_ids d" using arg_cong [where f = set, OF k(1)] by (simp add: entity_ids_def)
  with assms(2) dist k(1,3,6,7) have "db_ok d'" by (simp add: core_ok_def db_ok_def)
  from core_ok_same_rows [OF assms(2) this k(3-5,1,2)] show ?thesis .
qed

lemma core_ok_cascade:
  assumes "core_ok d"
  shows "core_ok (cascade_delete ids d)"
proof -
  have "db_ok (cascade_delete ids d)" using assms by (simp add: core_ok_def db_ok_cascade_delete)
  moreover have "entity_ids (cascade_delete ids d) = entity_ids d - set ids"
    by (auto simp: cascade_delete_def entity_ids_def)
  ultimately show ?thesis
    using assms by (intro core_ok_frame [OF assms]) (auto simp: cascade_delete_def core_ok_def intro!: filter_cong)
qed

lemma core_ok_delete_entities: "delete_entities P q d = Inr (n, d') \<Longrightarrow> core_ok d \<Longrightarrow> core_ok d'"
  by (auto simp: delete_entities_def Let_def pg_error_def split: if_splits intro: core_ok_cascade)

lemma core_ok_only_db:
  assumes "core_ok d" "db_ok d'" "db_types d' = db_types d" "db_schemas d' = db_schemas d" "db_overlays d' = db_overlays d"
    "db_entities d' = db_entities d"
  shows "core_ok d'"
  by (rule core_ok_same_rows [OF assms(1-5)]) (simp_all add: assms(6))

lemma core_ok_identity_relation:
  "insert_identity eid p sub q d = Inr (u, d') \<Longrightarrow> core_ok d \<Longrightarrow> core_ok d'"
  "delete_identities Q q d = Inr (n, d') \<Longrightarrow> core_ok d \<Longrightarrow> core_ok d'"
  "insert_relation subj rt tgt sys q d = Inr (r, d') \<Longrightarrow> core_ok d \<Longrightarrow> core_ok d'"
  "delete_relations R q d = Inr (m, d') \<Longrightarrow> core_ok d \<Longrightarrow> core_ok d'"
proof -
  have frame: "core_ok d'" if "core_ok d" "db_ok d'"
    "db_types d' = db_types d \<and> db_schemas d' = db_schemas d \<and> db_overlays d' = db_overlays d \<and> db_entities d' = db_entities d"
    by (rule core_ok_only_db [OF that(1,2)]) (use that(3) in simp_all)
  have ok: "core_ok d \<Longrightarrow> db_ok d" by (simp add: core_ok_def)
  show "core_ok d'" if a: "insert_identity eid p sub q d = Inr (u, d')" and c: "core_ok d"
    by (rule frame [OF c db_ok_insert_identity [OF a ok [OF c]]])
      (use a in \<open>auto simp: insert_identity_def pg_error_def Let_def split: if_splits\<close>)
  show "core_ok d'" if a: "delete_identities Q q d = Inr (n, d')" and c: "core_ok d"
    by (rule frame [OF c db_ok_delete_identities [OF a ok [OF c]]]) (use a in \<open>auto simp: delete_identities_def\<close>)
  show "core_ok d'" if a: "insert_relation subj rt tgt sys q d = Inr (r, d')" and c: "core_ok d"
    by (rule frame [OF c db_ok_insert_relation [OF a ok [OF c]]])
      (use a in \<open>auto simp: insert_relation_def pg_error_def Let_def split: if_splits\<close>)
  show "core_ok d'" if a: "delete_relations R q d = Inr (m, d')" and c: "core_ok d"
    by (rule frame [OF c db_ok_delete_relations [OF a ok [OF c]]]) (use a in \<open>auto simp: delete_relations_def Let_def\<close>)
qed

lemma db_ok_types:
  "db_ok d \<Longrightarrow> distinct (map ty_id ts) \<Longrightarrow> distinct (map ty_name ts) \<Longrightarrow> db_ok (d\<lparr>db_types := ts\<rparr>)"
  by (simp add: db_ok_def entity_ids_def)

lemma core_ok_insert_type: "insert_type name props rels scope q d = Inr (t, d') \<Longrightarrow> core_ok d \<Longrightarrow> core_ok d'"
  by (auto simp: insert_type_def pg_error_def core_ok_def db_ok_def entity_ids_def type_ids_def list_ex_iff Let_def
      distinct_map_snoc simp del: map_append distinct_append split: if_splits)

lemma core_ok_update_types:
  assumes "update_types P f q d = Inr (x, d')" "core_ok d" and f: "\<And>t. ty_id (f t) = ty_id t \<and> ty_name (f t) = ty_name t"
  shows "core_ok d'"
proof -
  define g where "g = (\<lambda>t. if P t then (f t)\<lparr>ty_updated := q_now q\<rparr> else t)"
  from assms(1) have d': "d' = d\<lparr>db_types := map g (db_types d)\<rparr>" by (simp add: update_types_def g_def)
  have g: "ty_id (g t) = ty_id t" "ty_name (g t) = ty_name t" for t by (simp_all add: g_def f)
  then have "map ty_id (map g ts) = map ty_id ts" "map ty_name (map g ts) = map ty_name ts" for ts by simp_all
  then have "type_ids d' = type_ids d" "db_ok d'"
    using assms(2) by (auto simp: d' type_ids_def core_ok_def g image_image intro!: db_ok_types) (auto simp: db_ok_def o_def g)
  with assms(2) show ?thesis by (simp add: core_ok_def d' entity_ids_def)
qed

lemma core_ok_delete_type:
  assumes "delete_type i q d = Inr (n, d')" "core_ok d"
  shows "core_ok d'"
proof -
  let ?ts = "filter (\<lambda>t. ty_id t \<noteq> i) (db_types d)"
  from assms(1) have d': "d' = d\<lparr>db_types := ?ts\<rparr>"
    and free: "i \<in> type_ids d \<Longrightarrow> (\<forall>e \<in> set (db_entities d). en_type_id e \<noteq> i) \<and> (\<forall>s \<in> set (db_schemas d). sc_type s \<noteq> i)"
    by (auto simp: delete_type_def pg_error_def Let_def list_ex_iff filter_empty_conv type_ids_def split: if_splits)
  have ids: "type_ids d' = type_ids d - {i}" by (auto simp: d' type_ids_def)
  from assms(2) have "db_ok d'" by (simp add: d' core_ok_def db_ok_types db_ok_def distinct_map_filterI entity_ids_def)
  with assms(2) free ids show ?thesis by (auto simp: core_ok_def entity_ids_def d')
qed

lemma db_ok_rest: "db_ok (d\<lparr>db_overlays := os\<rparr>) = db_ok d" "db_ok (d\<lparr>db_schemas := ss\<rparr>) = db_ok d" "db_ok (d\<lparr>db_audit := as\<rparr>) = db_ok d"
  by (simp_all add: db_ok_def entity_ids_def)

lemma core_ok_overlays:
  "insert_overlay ent sys props q d = Inr (r, d') \<Longrightarrow> core_ok d \<Longrightarrow> core_ok d'"
  "delete_overlays D q d = Inr (n, d') \<Longrightarrow> core_ok d \<Longrightarrow> core_ok d'"
  by (auto simp: insert_overlay_def delete_overlays_def pg_error_def core_ok_def db_ok_rest entity_ids_def type_ids_def list_ex_iff Let_def
      distinct_map_snoc simp del: map_append distinct_append intro: distinct_map_filterI split: if_splits)

lemma core_ok_schemas:
  "insert_schema sys tid allowed q d = Inr (r, d') \<Longrightarrow> core_ok d \<Longrightarrow> core_ok d'"
  "delete_schemas S q d = Inr (n, d') \<Longrightarrow> core_ok d \<Longrightarrow> core_ok d'"
  by (auto simp: insert_schema_def delete_schemas_def pg_error_def core_ok_def db_ok_rest entity_ids_def type_ids_def list_ex_iff Let_def
      distinct_map_snoc simp del: map_append distinct_append intro: distinct_map_filterI split: if_splits)

lemma core_ok_update_overlays:
  assumes "update_overlays P f q d = Inr (x, d')" "core_ok d" and f: "\<And>r. ov_entity (f r) = ov_entity r \<and> ov_system (f r) = ov_system r"
  shows "core_ok d'"
proof -
  define g where "g = (\<lambda>r. if visible q (Some (ov_system r)) \<and> P r then (f r)\<lparr>ov_updated := q_now q\<rparr> else r)"
  from assms(1) have d': "d' = d\<lparr>db_overlays := map g (db_overlays d)\<rparr>" by (simp add: update_overlays_def g_def)
  have g: "ov_entity (g r) = ov_entity r" "ov_system (g r) = ov_system r" for r by (simp_all add: g_def f)
  from assms(2) show ?thesis by (simp add: core_ok_def d' db_ok_rest entity_ids_def type_ids_def o_def g)
qed

lemma core_ok_update_schemas:
  assumes "update_schemas P f q d = Inr (x, d')" "core_ok d" and f: "\<And>r. sc_type (f r) = sc_type r \<and> sc_system (f r) = sc_system r"
  shows "core_ok d'"
proof -
  define g where "g = (\<lambda>r. if P r then (f r)\<lparr>sc_updated := q_now q\<rparr> else r)"
  from assms(1) have d': "d' = d\<lparr>db_schemas := map g (db_schemas d)\<rparr>" by (simp add: update_schemas_def g_def)
  have g: "sc_type (g r) = sc_type r" "sc_system (g r) = sc_system r" for r by (simp_all add: g_def f)
  from assms(2) show ?thesis by (simp add: core_ok_def d' db_ok_rest entity_ids_def type_ids_def o_def g)
qed

lemma keeps_core_statements [db_intros]:
  "preserving keeps_core (exec (insert_entity tid ext props sys))"
  "preserving keeps_core (exec (delete_entities S))"
  "preserving keeps_core (exec (insert_identity eid p sub))" "preserving keeps_core (exec (delete_identities Q))"
  "preserving keeps_core (exec (insert_relation subj rt tgt sys))" "preserving keeps_core (exec (delete_relations R))"
  "preserving keeps_core (exec (insert_type name props rels scope))" "preserving keeps_core (exec (delete_type i))"
  "preserving keeps_core (exec (insert_overlay ent osys props))" "preserving keeps_core (exec (delete_overlays D))"
  "preserving keeps_core (exec (insert_schema osys tid allowed))" "preserving keeps_core (exec (delete_schemas U))"
  by (rule preserving_exec; auto simp: keeps_core_def intro: reflpI core_ok_insert_entity core_ok_delete_entities
      core_ok_identity_relation core_ok_insert_type core_ok_delete_type core_ok_overlays core_ok_schemas)+

lemma keeps_core_insert_of_type [db_intros]: "preserving keeps_core (exec (insert_entity_of_type tname ext props))"
  by (rule preserving_exec) (auto simp: keeps_core_def insert_entity_of_type_def split: option.splits sum.splits
      intro: reflpI dest: core_ok_insert_entity)

lemma keeps_core_updates [db_intros]:
  "(\<And>e. en_id (f e) = en_id e \<and> en_type_id (f e) = en_type_id e \<and> en_external_id (f e) = en_external_id e) \<Longrightarrow>
     preserving keeps_core (exec (update_entities P f))"
  "(\<And>e. en_id (f e) = en_id e \<and> en_type_id (f e) = en_type_id e) \<Longrightarrow> preserving keeps_core (exec (update_entities_key P f))"
  "(\<And>t. ty_id (g t) = ty_id t \<and> ty_name (g t) = ty_name t) \<Longrightarrow> preserving keeps_core (exec (update_types T g))"
  "(\<And>r. ov_entity (h r) = ov_entity r \<and> ov_system (h r) = ov_system r) \<Longrightarrow> preserving keeps_core (exec (update_overlays W h))"
  "(\<And>r. sc_type (k r) = sc_type r \<and> sc_system (k r) = sc_system r) \<Longrightarrow> preserving keeps_core (exec (update_schemas S k))"
proof -
  have x: "preserving keeps_core (exec F)" if "\<And>q d x d'. F q d = Inr (x, d') \<Longrightarrow> core_ok d \<Longrightarrow> core_ok d'" for F :: "'x statement"
    by (rule preserving_exec, rule keeps_core_props) (use that in \<open>auto simp: keeps_core_def\<close>)
  show "preserving keeps_core (exec (update_entities P f))"
    if "\<And>e. en_id (f e) = en_id e \<and> en_type_id (f e) = en_type_id e \<and> en_external_id (f e) = en_external_id e"
    by (rule x) (rule core_ok_update_entities [OF _ _ that])
  show "preserving keeps_core (exec (update_entities_key P f))" if "\<And>e. en_id (f e) = en_id e \<and> en_type_id (f e) = en_type_id e"
    by (rule x) (rule core_ok_update_entities_key [OF _ _ that])
  show "preserving keeps_core (exec (update_types T g))" if "\<And>t. ty_id (g t) = ty_id t \<and> ty_name (g t) = ty_name t"
    by (rule x) (rule core_ok_update_types [OF _ _ that])
  show "preserving keeps_core (exec (update_overlays W h))" if "\<And>r. ov_entity (h r) = ov_entity r \<and> ov_system (h r) = ov_system r"
    by (rule x) (rule core_ok_update_overlays [OF _ _ that])
  show "preserving keeps_core (exec (update_schemas S k))" if "\<And>r. sc_type (k r) = sc_type r \<and> sc_system (k r) = sc_system r"
    by (rule x) (rule core_ok_update_schemas [OF _ _ that])
qed

lemma keeps_core_audit [db_intros]: "preserving keeps_core (audit_Write a)" "preserving keeps_core (WriteFromContext env ctx entry)"
proof -
  show a: "preserving keeps_core (audit_Write a)" for a
    unfolding audit_Write_def
    by (intro db_intros preserving_exec)
      (auto simp: keeps_core_def insert_audit_def pg_error_def core_ok_def db_ok_rest entity_ids_def type_ids_def split: if_splits)
  show "preserving keeps_core (WriteFromContext env ctx entry)"
    unfolding WriteFromContext_def by (intro db_intros a)
qed

text \<open>None of them touches the audit log.\<close>

lemma core_statements_audit [db_intros]:
  "preserving same_audit (exec (insert_type name props rels scope))" "preserving same_audit (exec (update_types T g))"
  "preserving same_audit (exec (delete_type i))" "preserving same_audit (exec (update_entities_key P f))"
  "preserving same_audit (exec (insert_overlay ent osys oprops))" "preserving same_audit (exec (update_overlays W h))"
  "preserving same_audit (exec (delete_overlays D))" "preserving same_audit (exec (insert_schema ssys tid allowed))"
  "preserving same_audit (exec (update_schemas S k))" "preserving same_audit (exec (delete_schemas U))"
  by (rule preserving_exec; auto simp: same_audit_def insert_type_def update_types_def delete_type_def update_entities_key_def
      update_entities_def insert_overlay_def update_overlays_def delete_overlays_def insert_schema_def update_schemas_def
      delete_schemas_def pg_error_def Let_def intro: reflpI split: if_splits sum.splits)+

end
