(* ===== verification/Entity_Types.thy ===== *)
theory Entity_Types
  imports Core_Tables
begin

section \<open>Entity type definitions (\<open>internal/entitytype\<close>)\<close>

text \<open>
  The schema registry: the definition of a type (\<open>model.go\<close>), its repository and its service. A type of
  scope \<open>global\<close> is managed by platform administrators only. \<open>coll\<close> is the rank of a text in the
  collation of the database.
\<close>

record entity_type_definition =
  et_ID :: uuid
  et_TypeName :: string
  et_AllowedProperties :: raw
  et_AllowedRelations :: raw
  et_Scope :: string
  et_CreatedAt :: gotime
  et_UpdatedAt :: gotime

record et_create_request =
  ec_TypeName :: string
  ec_AllowedProperties :: raw
  ec_AllowedRelations :: raw
  ec_Scope :: string

record et_update_request =
  eu_AllowedProperties :: raw
  eu_AllowedRelations :: raw

definition ScopeGlobal :: string where "ScopeGlobal = ''global''"
definition ScopeSystemScoped :: string where "ScopeSystemScoped = ''system_scoped''"

definition et_json :: "render_env \<Rightarrow> entity_type_definition \<Rightarrow> json" where
  "et_json env t = JObj [(''id'', JStr (re_uuid env (et_ID t))), (''type_name'', JStr (et_TypeName t)),
     (''allowed_properties'', raw_json (et_AllowedProperties t)), (''allowed_relations'', raw_json (et_AllowedRelations t)),
     (''scope'', JStr (et_Scope t)), (''created_at'', JStr (re_time env (et_CreatedAt t))),
     (''updated_at'', JStr (re_time env (et_UpdatedAt t)))]"

definition et_of_row :: "type_row \<Rightarrow> entity_type_definition" where
  "et_of_row t = \<lparr>et_ID = ty_id t, et_TypeName = ty_name t, et_AllowedProperties = Some (ty_allowed_properties t),
     et_AllowedRelations = Some (ty_allowed_relations t), et_Scope = ty_scope t, et_CreatedAt = ty_created t,
     et_UpdatedAt = ty_updated t\<rparr>"

subsection \<open>Repository\<close>

definition ET_repo_Create :: "entity_type_definition \<Rightarrow> entity_type_definition db" where
  "ET_repo_Create etd =
     bind (catch (exec (not_null (et_AllowedProperties etd) (\<lambda>p. not_null (et_AllowedRelations etd) (\<lambda>r.
                   insert_type (et_TypeName etd) p r (et_Scope etd)))))
             (\<lambda>e. if pg_code_is e ''23505'' then throw (EntityTypeE EntityType_ErrDuplicateTypeName)
                  else throw (Wrap ''inserting entity type definition'' e)))
       (\<lambda>row. ret (etd\<lparr>et_ID := ty_id row, et_CreatedAt := ty_created row, et_UpdatedAt := ty_updated row\<rparr>))"

definition ET_repo_GetByID :: "uuid \<Rightarrow> entity_type_definition db" where
  "ET_repo_GetByID i =
     catch (bind (query_row (\<lambda>q d. filter (\<lambda>t. ty_id t = i) (db_types d))) (\<lambda>t. ret (et_of_row t)))
       (\<lambda>e. if is_no_rows e then throw (EntityTypeE EntityType_ErrNotFound)
            else throw (Wrap ''querying entity type definition'' e))"

definition ET_repo_List :: "(string \<Rightarrow> nat) \<Rightarrow> entity_type_definition list db" where
  "ET_repo_List coll =
     wrap_err ''querying entity type definitions''
       (query (\<lambda>q d. map et_of_row (sort_key (\<lambda>t. coll (ty_name t)) (db_types d))))"

definition ET_repo_Update :: "entity_type_definition \<Rightarrow> entity_type_definition db" where
  "ET_repo_Update etd =
     bind (catch (scan_row (bind (exec (not_null (et_AllowedProperties etd) (\<lambda>p. not_null (et_AllowedRelations etd) (\<lambda>r.
                   update_types (\<lambda>t. ty_id t = et_ID etd)
                     (\<lambda>t. t\<lparr>ty_allowed_properties := p, ty_allowed_relations := r\<rparr>)))))
                 (\<lambda>rows. ret (case rows of [] \<Rightarrow> None | t # _ \<Rightarrow> Some (ty_updated t)))))
             (\<lambda>e. if is_no_rows e then throw (EntityTypeE EntityType_ErrNotFound)
                  else throw (Wrap ''updating entity type definition'' e)))
       (\<lambda>t. ret (etd\<lparr>et_UpdatedAt := t\<rparr>))"

definition ET_repo_Delete :: "uuid \<Rightarrow> unit db" where
  "ET_repo_Delete i =
     bind (catch (exec (delete_type i))
             (\<lambda>e. if pg_code_is e ''23503'' then throw (EntityTypeE EntityType_ErrHasEntities)
                  else throw (Wrap ''deleting entity type definition'' e)))
       (\<lambda>n. if n = 0 then throw (EntityTypeE EntityType_ErrNotFound) else ret ())"

definition ET_repo_HasEntities :: "uuid \<Rightarrow> bool db" where
  "ET_repo_HasEntities i =
     wrap_err ''counting entities for type''
       (query (\<lambda>q d. 0 < length (filter (\<lambda>e. en_type_id e = i) (entities q d))))"

subsection \<open>Service\<close>

definition requirePlatformAdminForGlobal :: "request_context \<Rightarrow> string \<Rightarrow> APIError option" where
  "requirePlatformAdminForGlobal ctx scope =
     (if scope \<noteq> ScopeGlobal then None
      else case ctx of
             None \<Rightarrow> Some (api_Unauthorized [Lit ''missing identity''])
           | Some i \<Rightarrow>
               if \<not> id_IsPlatformAdmin i
               then Some (api_Forbidden [Lit ''only platform admins may manage global entity types'']) else None)"

definition validateRelationsJSON :: "raw \<Rightarrow> APIError option" where
  "validateRelationsJSON data =
     (case unmarshal_map data of
        Inl e \<Rightarrow> Some (api_BadRequest [Lit ''allowed_relations must be a JSON object: '', ErrText (JsonE e)])
      | Inr _ \<Rightarrow> None)"

text \<open>The checks that \<open>validateCreate\<close> and \<open>validateUpdate\<close> share.\<close>

definition validateUpdate :: "'s schema_lib \<Rightarrow> et_update_request \<Rightarrow> APIError option" where
  "validateUpdate lib req =
     (if eu_AllowedProperties req = None then Some (api_BadRequest [Lit ''allowed_properties is required''])
      else if eu_AllowedRelations req = None then Some (api_BadRequest [Lit ''allowed_relations is required''])
      else case ValidateIsJSONSchema lib (eu_AllowedProperties req) of
             Some a \<Rightarrow> Some (api_ValidationFailed ([Lit ''allowed_properties: invalid JSON Schema''] # Details a))
           | None \<Rightarrow> validateRelationsJSON (eu_AllowedRelations req))"

definition validateCreate :: "'s schema_lib \<Rightarrow> et_create_request \<Rightarrow> APIError option" where
  "validateCreate lib req =
     (if ec_TypeName req = [] then Some (api_BadRequest [Lit ''type_name is required''])
      else if ec_Scope req \<noteq> ScopeGlobal \<and> ec_Scope req \<noteq> ScopeSystemScoped
        then Some (api_BadRequest [Lit (''scope must be '' @ squoted ''global'' @ '' or '' @ squoted ''system_scoped'')])
      else validateUpdate lib \<lparr>eu_AllowedProperties = ec_AllowedProperties req, eu_AllowedRelations = ec_AllowedRelations req\<rparr>)"

definition ET_toAPIError :: "goerr \<Rightarrow> goerr" where
  "ET_toAPIError = api_error
     [(EntityTypeE EntityType_ErrNotFound, api_NotFound ''entity type definition''),
      (EntityTypeE EntityType_ErrDuplicateTypeName, api_Conflict [Lit ''entity type name already exists'']),
      (EntityTypeE EntityType_ErrHasEntities,
         api_BadRequest [Lit ''entity type definition has associated entities and cannot be deleted''])]"

definition et_entry :: "render_env \<Rightarrow> string \<Rightarrow> uuid \<Rightarrow> entity_type_definition option \<Rightarrow> entity_type_definition option \<Rightarrow> audit_entry" where
  "et_entry env op i before after =
     entry_of op ''entity_type_definition'' i (map_option (et_json env) before) (map_option (et_json env) after)"

definition ET_create_body :: "render_env \<Rightarrow> request_context \<Rightarrow> entity_type_definition \<Rightarrow> entity_type_definition db" where
  "ET_create_body env ctx etd =
     bind (ET_repo_Create etd) (\<lambda>etd'.
     bind (WriteFromContext env ctx (et_entry env OpCreate (et_ID etd') None (Some etd'))) (\<lambda>_. ret etd'))"

definition ET_Create ::
  "'s schema_lib \<Rightarrow> render_env \<Rightarrow> request_context \<Rightarrow> et_create_request \<Rightarrow> entity_type_definition db" where
  "ET_Create lib env ctx req =
     bind (check (validateCreate lib req)) (\<lambda>_.
     bind (check (requirePlatformAdminForGlobal ctx (ec_Scope req))) (\<lambda>_.
     map_err ET_toAPIError (WithAuthScope ctx (ET_create_body env ctx
       \<lparr>et_ID = uuid_Nil, et_TypeName = ec_TypeName req, et_AllowedProperties = ec_AllowedProperties req,
        et_AllowedRelations = ec_AllowedRelations req, et_Scope = ec_Scope req, et_CreatedAt = 0, et_UpdatedAt = 0\<rparr>))))"

definition ET_GetByID :: "uuid \<Rightarrow> entity_type_definition db" where
  "ET_GetByID i = map_err ET_toAPIError (ET_repo_GetByID i)"

definition ET_List :: "(string \<Rightarrow> nat) \<Rightarrow> entity_type_definition list db" where
  "ET_List coll = wrap_err ''listing entity type definitions'' (ET_repo_List coll)"

definition ET_update_body ::
  "render_env \<Rightarrow> request_context \<Rightarrow> uuid \<Rightarrow> et_update_request \<Rightarrow> entity_type_definition db" where
  "ET_update_body env ctx i req =
     bind (ET_repo_GetByID i) (\<lambda>existing.
     bind (check (requirePlatformAdminForGlobal ctx (et_Scope existing))) (\<lambda>_.
     bind (ET_repo_Update (existing\<lparr>et_AllowedProperties := eu_AllowedProperties req,
             et_AllowedRelations := eu_AllowedRelations req\<rparr>)) (\<lambda>updated.
     bind (WriteFromContext env ctx (et_entry env OpUpdate (et_ID updated) (Some existing) (Some updated))) (\<lambda>_.
     ret updated))))"

definition ET_Update ::
  "'s schema_lib \<Rightarrow> render_env \<Rightarrow> request_context \<Rightarrow> uuid \<Rightarrow> et_update_request \<Rightarrow> entity_type_definition db" where
  "ET_Update lib env ctx i req =
     bind (check (validateUpdate lib req)) (\<lambda>_.
     map_err ET_toAPIError (WithAuthScope ctx (ET_update_body env ctx i req)))"

definition ET_delete_body :: "render_env \<Rightarrow> request_context \<Rightarrow> uuid \<Rightarrow> unit db" where
  "ET_delete_body env ctx i =
     bind (ET_repo_GetByID i) (\<lambda>existing.
     bind (ET_repo_Delete i) (\<lambda>_.
     WriteFromContext env ctx (et_entry env OpDelete i (Some existing) None)))"

definition ET_Delete :: "render_env \<Rightarrow> request_context \<Rightarrow> uuid \<Rightarrow> unit db" where
  "ET_Delete env ctx i =
     bind (map_err ET_toAPIError (ET_repo_GetByID i)) (\<lambda>existing.
     bind (check (requirePlatformAdminForGlobal ctx (et_Scope existing))) (\<lambda>_.
     bind (wrap_err ''checking entities for type'' (ET_repo_HasEntities i)) (\<lambda>hasEntities.
     if hasEntities then reject (api_BadRequest [Lit ''entity type definition has associated entities and cannot be deleted''])
     else map_err ET_toAPIError (WithAuthScope ctx (ET_delete_body env ctx i)))))"

subsection \<open>Laws\<close>

lemma et_repo_ok [db_intros]:
  "preserving keeps_core (ET_repo_Create etd)" "preserving keeps_core (ET_repo_Update etd)" "preserving keeps_core (ET_repo_Delete i)"
  unfolding ET_repo_Create_def ET_repo_Update_def ET_repo_Delete_def by (intro db_intros; simp)+

lemma et_repo_audit [db_intros]:
  "preserving same_audit (ET_repo_Create etd)" "preserving same_audit (ET_repo_Update etd)" "preserving same_audit (ET_repo_Delete i)"
  unfolding ET_repo_Create_def ET_repo_Update_def ET_repo_Delete_def by (intro db_intros)+

lemma et_repo_reads [db_intros]:
  "reflp R \<Longrightarrow> transp R \<Longrightarrow> preserving R (ET_repo_GetByID i)" "reflp R \<Longrightarrow> transp R \<Longrightarrow> preserving R (ET_repo_List coll)"
  "reflp R \<Longrightarrow> transp R \<Longrightarrow> preserving R (ET_repo_HasEntities i)"
  unfolding ET_repo_GetByID_def ET_repo_List_def ET_repo_HasEntities_def by (intro db_intros; simp)+

lemma et_bodies_ok [db_intros]:
  "preserving keeps_core (ET_create_body env ctx etd)" "preserving keeps_core (ET_update_body env ctx i ureq)"
  "preserving keeps_core (ET_delete_body env ctx i)"
  unfolding ET_create_body_def ET_update_body_def ET_delete_body_def by (intro db_intros)+

definition et_logged :: "render_env \<Rightarrow> request_context \<Rightarrow> string \<Rightarrow> audit_row \<Rightarrow> bool" where
  "et_logged env ctx op row \<longleftrightarrow> (\<exists>i before after. core_logged env ctx (et_entry env op i before after) row
     \<and> (before = None \<longleftrightarrow> op = OpCreate) \<and> (after = None \<longleftrightarrow> op = OpDelete))"

lemma et_create_audits:
  "audits (\<lambda>etd'. core_logged env ctx (et_entry env OpCreate (et_ID etd') None (Some etd'))) (ET_create_body env ctx etd)"
  unfolding ET_create_body_def
  by (intro audits_bind_right audits_context_ret db_intros) (simp_all add: et_entry_def)

lemma et_update_audits:
  "audits (\<lambda>etd' row. \<exists>before. core_logged env ctx (et_entry env OpUpdate (et_ID etd') (Some before) (Some etd')) row)
     (ET_update_body env ctx i req)"
  unfolding ET_update_body_def
  by (intro audits_bind_right audits_context_ret db_intros) (auto simp: et_entry_def)

lemma et_delete_audits:
  "audits (\<lambda>_ row. \<exists>before. core_logged env ctx (et_entry env OpDelete i (Some before) None) row) (ET_delete_body env ctx i)"
  unfolding ET_delete_body_def
  by (intro audits_bind_right db_intros audits_weaken [OF audits_context]) (auto simp: et_entry_def)

end
