(* ===== verification/Entities.thy ===== *)
theory Entities
  imports Entity_Types
begin

section \<open>Entities (\<open>internal/entity\<close>)\<close>

text \<open>
  The nodes of the authorization graph: model, repository and service. The properties of an entity are
  validated against the JSON Schema of its type at every write; the scope of the type decides whether
  it must or must not belong to a system. Rows with equal creation times come in table order.
\<close>

record entity =
  ent_ID :: uuid
  ent_TypeID :: uuid
  ent_Type :: string
  ent_ExternalID :: string
  ent_Properties :: raw
  ent_SystemID :: "uuid option"
  ent_CreatedAt :: gotime
  ent_UpdatedAt :: gotime

record ent_create_request =
  cr_Type :: string
  cr_ExternalID :: string
  cr_Properties :: raw
  cr_SystemID :: "uuid option"

record ent_list_result =
  lr_Items :: "entity list"
  lr_Total :: nat
  lr_Limit :: int
  lr_Offset :: int

record bulk_result =
  bk_Total :: nat
  bk_Created :: nat
  bk_Updated :: nat
  bk_Errors :: "(nat \<times> goerr) list"

definition ent_json :: "render_env \<Rightarrow> entity \<Rightarrow> json" where
  "ent_json env e = JObj ([(''id'', JStr (re_uuid env (ent_ID e))), (''type_id'', JStr (re_uuid env (ent_TypeID e))),
     (''type'', JStr (ent_Type e)), (''external_id'', JStr (ent_ExternalID e)), (''properties'', raw_json (ent_Properties e))]
     @ (case ent_SystemID e of None \<Rightarrow> [] | Some u \<Rightarrow> [(''system_id'', JStr (re_uuid env u))])
     @ [(''created_at'', JStr (re_time env (ent_CreatedAt e))), (''updated_at'', JStr (re_time env (ent_UpdatedAt e)))])"

subsection \<open>Repository\<close>

text \<open>The join of the visible entities with their types; the columns every query of the repository selects.\<close>

definition typed_entities :: "query_ctx \<Rightarrow> database \<Rightarrow> (entity_row \<times> type_row) list" where
  "typed_entities q d = [(e, t). e \<leftarrow> entities q d, t \<leftarrow> filter (\<lambda>t. ty_id t = en_type_id e) (db_types d)]"

definition ent_of_row :: "entity_row \<times> type_row \<Rightarrow> entity" where
  "ent_of_row = (\<lambda>(e, t). \<lparr>ent_ID = en_id e, ent_TypeID = en_type_id e, ent_Type = ty_name t,
     ent_ExternalID = en_external_id e, ent_Properties = Some (en_properties e), ent_SystemID = en_system_id e,
     ent_CreatedAt = en_created e, ent_UpdatedAt = en_updated e\<rparr>)"

definition scanEntity :: "(query_ctx \<Rightarrow> database \<Rightarrow> (entity_row \<times> type_row) list) \<Rightarrow> entity db" where
  "scanEntity f =
     catch (bind (query_row f) (\<lambda>et. ret (ent_of_row et)))
       (\<lambda>e. if is_no_rows e then throw (EntityE Entity_ErrNotFound) else throw (Wrap ''scanning entity'' e))"

definition Ent_repo_Create :: "entity \<Rightarrow> entity db" where
  "Ent_repo_Create e =
     bind (catch (exec (not_null (ent_Properties e) (\<lambda>p.
                   insert_entity (ent_TypeID e) (ent_ExternalID e) p (ent_SystemID e))))
             (\<lambda>err. if pg_code_is err ''23505'' then throw (EntityE Entity_ErrDuplicateExternalID)
                    else throw (Wrap ''inserting entity'' err)))
       (\<lambda>row. ret (e\<lparr>ent_ID := en_id row, ent_CreatedAt := en_created row, ent_UpdatedAt := en_updated row\<rparr>))"

definition Ent_repo_GetByID :: "uuid \<Rightarrow> entity db" where
  "Ent_repo_GetByID i = scanEntity (\<lambda>q d. filter (\<lambda>(e, t). en_id e = i) (typed_entities q d))"

definition Ent_repo_GetByTypeAndExternalID :: "uuid \<Rightarrow> string \<Rightarrow> entity db" where
  "Ent_repo_GetByTypeAndExternalID tid ext =
     scanEntity (\<lambda>q d. filter (\<lambda>(e, t). en_type_id e = tid \<and> en_external_id e = ext) (typed_entities q d))"

text \<open>The rows of a list: the type filter is only a condition when it is given.\<close>

definition ent_list_rows :: "string \<Rightarrow> query_ctx \<Rightarrow> database \<Rightarrow> (entity_row \<times> type_row) list" where
  "ent_list_rows typeName q d = filter (\<lambda>(e, t). typeName = [] \<or> ty_name t = typeName) (typed_entities q d)"

definition Ent_repo_List :: "string \<Rightarrow> int \<Rightarrow> int \<Rightarrow> (entity list \<times> nat) db" where
  "Ent_repo_List typeName limit offset =
     bind (wrap_err ''counting entities'' (query (\<lambda>q d. length (ent_list_rows typeName q d)))) (\<lambda>total.
     bind (wrap_err ''querying entities'' (query_page limit offset
            (\<lambda>q d. sort_key (\<lambda>(e, t). - en_created e) (ent_list_rows typeName q d)))) (\<lambda>rows.
     ret (map ent_of_row rows, total)))"

definition Ent_repo_Update :: "entity \<Rightarrow> entity db" where
  "Ent_repo_Update e =
     bind (catch (scan_row (bind (exec (not_null (ent_Properties e) (\<lambda>p.
                   update_entities (\<lambda>q d x. en_id x = ent_ID e) (\<lambda>x. x\<lparr>en_properties := p\<rparr>))))
                 (\<lambda>rows. ret (case rows of [] \<Rightarrow> None | x # _ \<Rightarrow> Some (en_updated x)))))
             (\<lambda>err. if is_no_rows err then throw (EntityE Entity_ErrNotFound) else throw (Wrap ''updating entity'' err)))
       (\<lambda>t. ret (e\<lparr>ent_UpdatedAt := t\<rparr>))"

definition Ent_repo_Delete :: "uuid \<Rightarrow> unit db" where
  "Ent_repo_Delete i =
     bind (wrap_err ''deleting entity'' (exec (delete_entities (\<lambda>d e. en_id e = i))))
       (\<lambda>n. if n = 0 then throw (EntityE Entity_ErrNotFound) else ret ())"

subsection \<open>Service: the checks\<close>

definition resolveType :: "string \<Rightarrow> type_row db" where
  "resolveType typeName =
     catch (query_row (\<lambda>q d. filter (\<lambda>t. ty_name t = typeName) (db_types d)))
       (\<lambda>e. if is_no_rows e then reject (api_BadRequest [Lit (''entity type '' @ squoted typeName @ '' does not exist'')])
            else reject (api_Internal [Lit ''failed to resolve entity type'']))"

definition validateCreateRequest :: "ent_create_request \<Rightarrow> APIError option" where
  "validateCreateRequest req =
     (if cr_Type req = [] then Some (api_BadRequest [Lit ''type is required''])
      else if cr_ExternalID req = [] then Some (api_BadRequest [Lit ''external_id is required''])
      else None)"

definition resolveEffectiveSystemID :: "request_context \<Rightarrow> uuid option \<Rightarrow> APIError + uuid option" where
  "resolveEffectiveSystemID ctx reqSystemID =
     (case ctx of
        None \<Rightarrow> Inr reqSystemID
      | Some i \<Rightarrow>
          (case id_ActiveSystemID i of
             None \<Rightarrow> Inr reqSystemID
           | Some callerSys \<Rightarrow>
               if reqSystemID \<noteq> None \<and> reqSystemID \<noteq> Some callerSys
               then Inl (api_Forbidden [Lit ''cannot target a system outside caller scope''])
               else Inr (Some callerSys)))"

definition validateScopeConstraints :: "type_row \<Rightarrow> uuid option \<Rightarrow> APIError option" where
  "validateScopeConstraints t systemID =
     (if ty_scope t = ''system_scoped'' \<and> systemID = None
      then Some (api_BadRequest [Lit (''system_id is required for system-scoped entity type '' @ squoted (ty_name t))])
      else if ty_scope t = ''global'' \<and> systemID \<noteq> None
      then Some (api_BadRequest [Lit (''system_id must not be set for global entity type '' @ squoted (ty_name t))])
      else None)"

definition validateProperties :: "'s schema_lib \<Rightarrow> raw \<Rightarrow> json \<Rightarrow> APIError option" where
  "validateProperties lib props schemaDoc =
     against_schema lib ''oad://entity/properties'' ''failed to compile property schema'' props (Some schemaDoc)"

definition lift_api :: "APIError + 'a \<Rightarrow> 'a db" where
  "lift_api r = (case r of Inl a \<Rightarrow> reject a | Inr x \<Rightarrow> ret x)"

definition default_props :: "raw \<Rightarrow> raw" where
  "default_props p = (case p of None \<Rightarrow> Some (JObj []) | Some j \<Rightarrow> Some j)"

definition Ent_toAPIError :: "goerr \<Rightarrow> goerr" where
  "Ent_toAPIError = api_error
     [(EntityE Entity_ErrNotFound, api_NotFound ''entity''),
      (EntityE Entity_ErrDuplicateExternalID, api_Conflict [Lit ''entity with this type and external_id already exists''])]"

definition ent_entry :: "render_env \<Rightarrow> string \<Rightarrow> uuid \<Rightarrow> entity option \<Rightarrow> entity option \<Rightarrow> audit_entry" where
  "ent_entry env op i before after =
     entry_of op ''entity'' i (map_option (ent_json env) before) (map_option (ent_json env) after)"

subsection \<open>Service: the operations\<close>

definition Ent_create_body :: "render_env \<Rightarrow> request_context \<Rightarrow> entity \<Rightarrow> entity db" where
  "Ent_create_body env ctx e =
     bind (Ent_repo_Create e) (\<lambda>e'.
     bind (WriteFromContext env ctx (ent_entry env OpCreate (ent_ID e') None (Some e'))) (\<lambda>_. ret e'))"

text \<open>The checks that \<open>Create\<close> and \<open>createOrUpdate\<close> make: the type, the system and the properties to store.\<close>

definition Ent_checked :: "'s schema_lib \<Rightarrow> request_context \<Rightarrow> ent_create_request \<Rightarrow> (type_row \<times> uuid option \<times> raw) db" where
  "Ent_checked lib ctx req =
     bind (check (validateCreateRequest req)) (\<lambda>_.
     bind (resolveType (cr_Type req)) (\<lambda>typeDef.
     bind (lift_api (resolveEffectiveSystemID ctx (cr_SystemID req))) (\<lambda>sys.
     bind (check (validateScopeConstraints typeDef sys)) (\<lambda>_.
     let props = default_props (cr_Properties req) in
     bind (check (validateProperties lib props (ty_allowed_properties typeDef))) (\<lambda>_.
     ret (typeDef, sys, props))))))"

definition Ent_Create :: "'s schema_lib \<Rightarrow> render_env \<Rightarrow> request_context \<Rightarrow> ent_create_request \<Rightarrow> entity db" where
  "Ent_Create lib env ctx req =
     bind (Ent_checked lib ctx req) (\<lambda>(typeDef, sys, props).
     map_err Ent_toAPIError (WithAuthScope ctx (Ent_create_body env ctx
       \<lparr>ent_ID = uuid_Nil, ent_TypeID = ty_id typeDef, ent_Type = ty_name typeDef, ent_ExternalID = cr_ExternalID req,
        ent_Properties = props, ent_SystemID = sys, ent_CreatedAt = 0, ent_UpdatedAt = 0\<rparr>)))"

definition Ent_GetByID :: "uuid \<Rightarrow> entity db" where
  "Ent_GetByID i = map_err Ent_toAPIError (Ent_repo_GetByID i)"

definition Ent_GetByTypeAndExternalID :: "string \<Rightarrow> string \<Rightarrow> entity db" where
  "Ent_GetByTypeAndExternalID typeName ext =
     bind (resolveType typeName) (\<lambda>t. map_err Ent_toAPIError (Ent_repo_GetByTypeAndExternalID (ty_id t) ext))"

definition Ent_List :: "string \<Rightarrow> int \<Rightarrow> int \<Rightarrow> ent_list_result db" where
  "Ent_List typeName limit offset =
     (let limit' = clamp_limit 25 100 limit in
      bind (wrap_err ''listing entities'' (Ent_repo_List typeName limit' offset)) (\<lambda>(items, total).
      ret \<lparr>lr_Items = items, lr_Total = total, lr_Limit = limit', lr_Offset = offset\<rparr>))"

definition Ent_update_body ::
  "'s schema_lib \<Rightarrow> render_env \<Rightarrow> request_context \<Rightarrow> uuid \<Rightarrow> raw \<Rightarrow> entity db" where
  "Ent_update_body lib env ctx i props =
     bind (Ent_repo_GetByID i) (\<lambda>existing.
     bind (resolveType (ent_Type existing)) (\<lambda>typeDef.
     bind (check (validateProperties lib props (ty_allowed_properties typeDef))) (\<lambda>_.
     bind (Ent_repo_Update (existing\<lparr>ent_Properties := props\<rparr>)) (\<lambda>updated.
     bind (WriteFromContext env ctx (ent_entry env OpUpdate (ent_ID updated) (Some existing) (Some updated))) (\<lambda>_.
     ret updated)))))"

definition Ent_Update :: "'s schema_lib \<Rightarrow> render_env \<Rightarrow> request_context \<Rightarrow> uuid \<Rightarrow> raw \<Rightarrow> entity db" where
  "Ent_Update lib env ctx i props =
     (if props = None then reject (api_BadRequest [Lit ''properties is required''])
      else map_err Ent_toAPIError (WithAuthScope ctx (Ent_update_body lib env ctx i props)))"

definition Ent_delete_body :: "render_env \<Rightarrow> request_context \<Rightarrow> uuid \<Rightarrow> unit db" where
  "Ent_delete_body env ctx i =
     bind (Ent_repo_GetByID i) (\<lambda>existing.
     bind (Ent_repo_Delete i) (\<lambda>_.
     WriteFromContext env ctx (ent_entry env OpDelete i (Some existing) None)))"

definition Ent_Delete :: "render_env \<Rightarrow> request_context \<Rightarrow> uuid \<Rightarrow> unit db" where
  "Ent_Delete env ctx i = map_err Ent_toAPIError (WithAuthScope ctx (Ent_delete_body env ctx i))"

text \<open>\<open>createOrUpdate\<close> tells whether it created; an upsert ignores the system of a present entity.\<close>

definition find_existing :: "uuid \<Rightarrow> string \<Rightarrow> entity option db" where
  "find_existing tid ext =
     catch (bind (Ent_repo_GetByTypeAndExternalID tid ext) (\<lambda>e. ret (Some e)))
       (\<lambda>e. if errors_Is e (EntityE Entity_ErrNotFound) then ret None else throw (Wrap ''checking existing entity'' e))"

definition createOrUpdate :: "'s schema_lib \<Rightarrow> render_env \<Rightarrow> request_context \<Rightarrow> ent_create_request \<Rightarrow> bool db" where
  "createOrUpdate lib env ctx req =
     bind (Ent_checked lib ctx req) (\<lambda>(typeDef, sys, props).
     bind (find_existing (ty_id typeDef) (cr_ExternalID req)) (\<lambda>existing.
     case existing of
       Some e \<Rightarrow> bind (Ent_Update lib env ctx (ent_ID e) props) (\<lambda>_. ret False)
     | None \<Rightarrow> bind (Ent_Create lib env ctx (req\<lparr>cr_SystemID := sys\<rparr>)) (\<lambda>_. ret True)))"

text \<open>One item of a bulk request: created, updated, or its error with its index.\<close>

definition bulk_item ::
  "'s schema_lib \<Rightarrow> render_env \<Rightarrow> request_context \<Rightarrow> string \<Rightarrow> nat \<Rightarrow> ent_create_request \<Rightarrow> bulk_result \<Rightarrow> bulk_result db" where
  "bulk_item lib env ctx mode i item acc =
     catch (if mode = ''upsert''
            then bind (createOrUpdate lib env ctx item) (\<lambda>created.
                   ret (if created then acc\<lparr>bk_Created := Suc (bk_Created acc)\<rparr> else acc\<lparr>bk_Updated := Suc (bk_Updated acc)\<rparr>))
            else bind (Ent_Create lib env ctx item) (\<lambda>_. ret (acc\<lparr>bk_Created := Suc (bk_Created acc)\<rparr>)))
       (\<lambda>e. case e of Panic _ \<Rightarrow> throw e | _ \<Rightarrow> ret (acc\<lparr>bk_Errors := bk_Errors acc @ [(i, e)]\<rparr>))"

fun bulk_loop ::
  "'s schema_lib \<Rightarrow> render_env \<Rightarrow> request_context \<Rightarrow> string \<Rightarrow> nat \<Rightarrow> ent_create_request list \<Rightarrow> bulk_result \<Rightarrow> bulk_result db" where
  "bulk_loop lib env ctx mode i [] acc = ret acc"
| "bulk_loop lib env ctx mode i (item # items) acc =
     bind (bulk_item lib env ctx mode i item acc) (bulk_loop lib env ctx mode (Suc i) items)"

definition BulkCreate ::
  "'s schema_lib \<Rightarrow> render_env \<Rightarrow> request_context \<Rightarrow> ent_create_request list \<Rightarrow> string \<Rightarrow> bulk_result db" where
  "BulkCreate lib env ctx items mode =
     (if items = [] then reject (api_BadRequest [Lit ''entities list must not be empty''])
      else let m = (if mode = [] then ''create'' else mode) in
        if m \<noteq> ''create'' \<and> m \<noteq> ''upsert''
        then reject (api_BadRequest [Lit (''mode must be '' @ squoted ''create'' @ '' or '' @ squoted ''upsert'')])
        else bulk_loop lib env ctx m 0 items \<lparr>bk_Total = length items, bk_Created = 0, bk_Updated = 0, bk_Errors = []\<rparr>)"

subsection \<open>Laws\<close>

lemma lift_api_Inr [simp]: "lift_api r w s = (Inr x, s') \<longleftrightarrow> r = Inr x \<and> s' = s"
  by (auto simp: lift_api_def split: sum.splits)

lemma ent_reads [db_intros]:
  assumes "reflp R" "transp R"
  shows "preserving R (scanEntity f)" "preserving R (Ent_repo_GetByID i)" "preserving R (Ent_repo_GetByTypeAndExternalID tid ext)"
    "preserving R (Ent_repo_List tn lim off)" "preserving R (resolveType tn)" "preserving R (lift_api r)"
    "preserving R (find_existing tid ext)" "preserving R (Ent_checked lib ctx req)"
proof -
  show s: "preserving R (scanEntity f)" for f unfolding scanEntity_def by (intro db_intros assms)
  show g: "preserving R (Ent_repo_GetByID i)" "preserving R (Ent_repo_GetByTypeAndExternalID tid ext)" for i tid ext
    unfolding Ent_repo_GetByID_def Ent_repo_GetByTypeAndExternalID_def by (intro s)+
  show "preserving R (Ent_repo_List tn lim off)" unfolding Ent_repo_List_def by (intro db_intros assms)
  show t: "preserving R (resolveType tn)" for tn unfolding resolveType_def by (intro db_intros assms)
  show l: "preserving R (lift_api r)" for r :: "APIError + 'y" unfolding lift_api_def by (auto split: sum.splits intro!: db_intros assms)
  show "preserving R (find_existing tid ext)" unfolding find_existing_def by (intro db_intros assms g)
  show "preserving R (Ent_checked lib ctx req)" unfolding Ent_checked_def Let_def by (intro db_intros assms t l)
qed

lemma ent_repo_ok [db_intros]:
  "preserving keeps_core (Ent_repo_Create e)" "preserving keeps_core (Ent_repo_Update e)" "preserving keeps_core (Ent_repo_Delete i)"
  unfolding Ent_repo_Create_def Ent_repo_Update_def Ent_repo_Delete_def by (intro db_intros; simp)+

lemma ent_repo_audit [db_intros]:
  "preserving same_audit (Ent_repo_Create e)" "preserving same_audit (Ent_repo_Update e)" "preserving same_audit (Ent_repo_Delete i)"
  unfolding Ent_repo_Create_def Ent_repo_Update_def Ent_repo_Delete_def by (intro db_intros)+

lemma ent_bodies_ok [db_intros]:
  "preserving keeps_core (Ent_create_body env ctx e)" "preserving keeps_core (Ent_update_body lib env ctx i props)"
  "preserving keeps_core (Ent_delete_body env ctx i)"
  unfolding Ent_create_body_def Ent_update_body_def Ent_delete_body_def by (intro db_intros)+

lemma ent_create_audits:
  "audits (\<lambda>e' row. core_logged env ctx (ent_entry env OpCreate (ent_ID e') None (Some e')) row) (Ent_create_body env ctx e)"
  unfolding Ent_create_body_def
  by (intro audits_bind_right audits_context_ret db_intros) (simp_all add: ent_entry_def)

lemma ent_update_audits:
  "audits (\<lambda>e' row. \<exists>before. core_logged env ctx (ent_entry env OpUpdate (ent_ID e') (Some before) (Some e')) row)
     (Ent_update_body lib env ctx i props)"
  unfolding Ent_update_body_def
  by (intro audits_bind_right audits_context_ret db_intros) (auto simp: ent_entry_def)

lemma ent_delete_audits:
  "audits (\<lambda>_ row. \<exists>before. core_logged env ctx (ent_entry env OpDelete i (Some before) None) row) (Ent_delete_body env ctx i)"
  unfolding Ent_delete_body_def
  by (intro audits_bind_right db_intros audits_weaken [OF audits_context]) (auto simp: ent_entry_def)

end
