(* ===== verification/Systems.thy ===== *)
theory Systems
  imports Entities
begin

section \<open>Systems (\<open>internal/system\<close>)\<close>

text \<open>
  The registered applications. A system is an entity of the built-in type System: its name is the
  external id, and name, description and active flag are its properties. The model, the repository and
  the service with the rule who may patch what.
\<close>

record system =
  sy_ID :: uuid
  sy_Name :: string
  sy_Description :: string
  sy_Active :: bool
  sy_CreatedAt :: gotime
  sy_UpdatedAt :: gotime

record sys_create_request =
  sr_Name :: string
  sr_Description :: string

record sys_patch_request =
  sp_Name :: "string option"
  sp_Description :: "string option"
  sp_Active :: "bool option"

definition omit_empty :: "string \<Rightarrow> string \<Rightarrow> (string \<times> json) list" where
  "omit_empty k s = (if s = [] then [] else [(k, JStr s)])"

definition sys_json :: "render_env \<Rightarrow> system \<Rightarrow> json" where
  "sys_json env s = JObj ([(''id'', JStr (re_uuid env (sy_ID s))), (''name'', JStr (sy_Name s))]
     @ omit_empty ''description'' (sy_Description s)
     @ [(''active'', JBool (sy_Active s)), (''created_at'', JStr (re_time env (sy_CreatedAt s))),
        (''updated_at'', JStr (re_time env (sy_UpdatedAt s)))])"

subsection \<open>Repository\<close>

definition systemTypeName :: string where "systemTypeName = ''System''"

definition systemProperties :: "system \<Rightarrow> json" where
  "systemProperties s = JObj ([(''name'', JStr (sy_Name s))] @ omit_empty ''description'' (sy_Description s)
     @ [(''active'', JBool (sy_Active s))])"

definition text_or_empty :: "query_ctx \<Rightarrow> json \<Rightarrow> string \<Rightarrow> string" where
  "text_or_empty q j k = (case jsonb_text q j k of None \<Rightarrow> [] | Some s \<Rightarrow> s)"

text \<open>The columns of a system; the cast of the active flag may fail.\<close>

definition system_of_row :: "query_ctx \<Rightarrow> entity_row \<Rightarrow> dberr + system" where
  "system_of_row q e =
     (case active_flag q e of
        Inl err \<Rightarrow> Inl err
      | Inr b \<Rightarrow> Inr \<lparr>sy_ID = en_id e, sy_Name = text_or_empty q (en_properties e) ''name'',
                     sy_Description = text_or_empty q (en_properties e) ''description'', sy_Active = b,
                     sy_CreatedAt = en_created e, sy_UpdatedAt = en_updated e\<rparr>)"

definition system_rows :: "query_ctx \<Rightarrow> database \<Rightarrow> entity_row list" where
  "system_rows q d = filter (has_type d systemTypeName) (entities q d)"

definition Sys_repo_Create :: "system \<Rightarrow> system db" where
  "Sys_repo_Create s0 =
     (let s = s0\<lparr>sy_Active := True\<rparr> in
      bind (catch (scan_row (exec (insert_entity_of_type systemTypeName (sy_Name s) (systemProperties s))))
              (\<lambda>e. if pg_code_is e ''23505'' then throw (SystemE System_ErrDuplicateName)
                   else if is_no_rows e then throw (Wrap ''built-in System type not seeded'' e)
                   else throw (Wrap ''inserting system entity'' e)))
        (\<lambda>row. ret (s\<lparr>sy_ID := en_id row, sy_CreatedAt := en_created row, sy_UpdatedAt := en_updated row\<rparr>)))"

definition select_system :: "uuid \<Rightarrow> system option statement" where
  "select_system i = (\<lambda>q d.
     case filter (\<lambda>e. en_id e = i) (system_rows q d) of
       [] \<Rightarrow> Inr (None, d)
     | e # _ \<Rightarrow> (case system_of_row q e of Inl err \<Rightarrow> Inl err | Inr s \<Rightarrow> Inr (Some s, d)))"

definition Sys_repo_GetByID :: "uuid \<Rightarrow> system db" where
  "Sys_repo_GetByID i =
     catch (scan_row (exec (select_system i)))
       (\<lambda>e. if is_no_rows e then throw (SystemE System_ErrNotFound) else throw (Wrap ''querying system'' e))"

text \<open>\<open>ORDER BY properties->>'name'\<close>: nulls come last.\<close>

definition by_name :: "(string \<Rightarrow> nat) \<Rightarrow> query_ctx \<Rightarrow> entity_row list \<Rightarrow> entity_row list" where
  "by_name coll q es =
     (let name = (\<lambda>e. jsonb_text q (en_properties e) ''name'')
      in sort_key (\<lambda>e. coll (the (name e))) (filter (\<lambda>e. name e \<noteq> None) es) @ filter (\<lambda>e. name e = None) es)"

definition select_systems :: "(string \<Rightarrow> nat) \<Rightarrow> (uuid \<Rightarrow> bool) \<Rightarrow> system list statement" where
  "select_systems coll P = (\<lambda>q d.
     case map_res (system_of_row q) (by_name coll q (filter (\<lambda>e. P (en_id e)) (system_rows q d))) of
       Inl err \<Rightarrow> Inl err | Inr ss \<Rightarrow> Inr (ss, d))"

definition Sys_repo_List :: "(string \<Rightarrow> nat) \<Rightarrow> uuid list option \<Rightarrow> system list db" where
  "Sys_repo_List coll allowedIDs =
     (if allowedIDs = Some [] then ret []
      else wrap_err ''querying systems'' (exec (select_systems coll
             (\<lambda>u. case allowedIDs of None \<Rightarrow> True | Some ids \<Rightarrow> u \<in> set ids))))"

definition Sys_repo_Update :: "system \<Rightarrow> system db" where
  "Sys_repo_Update s =
     bind (catch (scan_row (bind (exec (update_entities_key
                     (\<lambda>q d e. en_id e = sy_ID s \<and> map_option ty_id (find_type d systemTypeName) = Some (en_type_id e))
                     (\<lambda>e. e\<lparr>en_external_id := sy_Name s, en_properties := systemProperties s\<rparr>)))
                   (\<lambda>rows. ret (case rows of [] \<Rightarrow> None | e # _ \<Rightarrow> Some (en_updated e)))))
             (\<lambda>e. if is_no_rows e then throw (SystemE System_ErrNotFound)
                  else if pg_code_is e ''23505'' then throw (SystemE System_ErrDuplicateName)
                  else throw (Wrap ''updating system'' e)))
       (\<lambda>t. ret (s\<lparr>sy_UpdatedAt := t\<rparr>))"

subsection \<open>Service\<close>

definition Sys_toAPIError :: "goerr \<Rightarrow> goerr" where
  "Sys_toAPIError = api_error
     [(SystemE System_ErrNotFound, api_NotFound ''system''),
      (SystemE System_ErrDuplicateName, api_Conflict [Lit ''system name already exists''])]"

definition sys_entry :: "render_env \<Rightarrow> string \<Rightarrow> uuid \<Rightarrow> system option \<Rightarrow> system option \<Rightarrow> audit_entry" where
  "sys_entry env op i before after =
     entry_of op ''system'' i (map_option (sys_json env) before) (map_option (sys_json env) after)"

definition Sys_create_body :: "render_env \<Rightarrow> request_context \<Rightarrow> system \<Rightarrow> system db" where
  "Sys_create_body env ctx s =
     bind (Sys_repo_Create s) (\<lambda>s'.
     bind (WriteFromContext env ctx (sys_entry env OpCreate (sy_ID s') None (Some s'))) (\<lambda>_. ret s'))"

definition Sys_Create :: "render_env \<Rightarrow> request_context \<Rightarrow> sys_create_request \<Rightarrow> system db" where
  "Sys_Create env ctx req =
     (if sr_Name req = [] then reject (api_BadRequest [Lit ''name is required''])
      else map_err Sys_toAPIError (WithAuthScope ctx (Sys_create_body env ctx
             \<lparr>sy_ID = uuid_Nil, sy_Name = sr_Name req, sy_Description = sr_Description req, sy_Active = False,
              sy_CreatedAt = 0, sy_UpdatedAt = 0\<rparr>)))"

definition Sys_GetByID :: "uuid \<Rightarrow> system db" where
  "Sys_GetByID i = map_err Sys_toAPIError (Sys_repo_GetByID i)"

definition allowed_ids :: "request_context \<Rightarrow> uuid list option" where
  "allowed_ids ctx =
     (case ctx of
        None \<Rightarrow> None
      | Some i \<Rightarrow> if id_IsPlatformAdmin i then None else Some (id_AllowedSystems i))"

definition Sys_List :: "(string \<Rightarrow> nat) \<Rightarrow> request_context \<Rightarrow> system list db" where
  "Sys_List coll ctx = wrap_err ''listing systems'' (Sys_repo_List coll (allowed_ids ctx))"

text \<open>Platform administrators change any field; others only the description of their own active system.\<close>

definition patch_allowed :: "render_env \<Rightarrow> request_context \<Rightarrow> uuid \<Rightarrow> sys_patch_request \<Rightarrow> APIError option" where
  "patch_allowed env ctx i req =
     (case ctx of
        None \<Rightarrow> None
      | Some caller \<Rightarrow>
          if id_IsPlatformAdmin caller then None
          else if id_ActiveSystemID caller \<noteq> Some i
          then Some (api_Forbidden [Lit (''access denied to system '' @ re_uuid env i)])
          else if sp_Name req \<noteq> None \<or> sp_Active req \<noteq> None
          then Some (api_Forbidden [Lit ''only platform admins may change name or active state''])
          else None)"

definition apply_patch :: "sys_patch_request \<Rightarrow> system \<Rightarrow> system" where
  "apply_patch req s = s\<lparr>sy_Name := (case sp_Name req of None \<Rightarrow> sy_Name s | Some n \<Rightarrow> n),
     sy_Description := (case sp_Description req of None \<Rightarrow> sy_Description s | Some x \<Rightarrow> x),
     sy_Active := (case sp_Active req of None \<Rightarrow> sy_Active s | Some b \<Rightarrow> b)\<rparr>"

definition Sys_patch_body :: "render_env \<Rightarrow> request_context \<Rightarrow> uuid \<Rightarrow> sys_patch_request \<Rightarrow> system db" where
  "Sys_patch_body env ctx i req =
     bind (Sys_repo_GetByID i) (\<lambda>existing.
     bind (Sys_repo_Update (apply_patch req existing)) (\<lambda>updated.
     bind (WriteFromContext env ctx (sys_entry env OpUpdate (sy_ID updated) (Some existing) (Some updated))) (\<lambda>_.
     ret updated)))"

definition Sys_Patch :: "render_env \<Rightarrow> request_context \<Rightarrow> uuid \<Rightarrow> sys_patch_request \<Rightarrow> system db" where
  "Sys_Patch env ctx i req =
     (if sp_Name req = Some [] then reject (api_BadRequest [Lit ''name cannot be empty''])
      else bind (check (patch_allowed env ctx i req)) (\<lambda>_.
        map_err Sys_toAPIError (WithAuthScope ctx (Sys_patch_body env ctx i req))))"

subsection \<open>Laws\<close>

lemma sys_reads [db_intros]:
  assumes "reflp R" "transp R"
  shows "preserving R (Sys_repo_GetByID i)" "preserving R (Sys_repo_List coll ids)"
proof -
  show "preserving R (Sys_repo_GetByID i)"
    unfolding Sys_repo_GetByID_def
    by (intro db_intros assms preserving_exec)
      (use assms(1) in \<open>auto simp: select_system_def reflpD split: list.splits sum.splits\<close>)
  show "preserving R (Sys_repo_List coll ids)"
    unfolding Sys_repo_List_def
    by (intro db_intros assms preserving_exec)
      (use assms(1) in \<open>auto simp: select_systems_def reflpD split: sum.splits\<close>)
qed

lemma sys_repo_ok [db_intros]: "preserving keeps_core (Sys_repo_Create s)" "preserving keeps_core (Sys_repo_Update s)"
  unfolding Sys_repo_Create_def Sys_repo_Update_def Let_def by (intro db_intros; simp)+

lemma sys_repo_audit [db_intros]: "preserving same_audit (Sys_repo_Create s)" "preserving same_audit (Sys_repo_Update s)"
  unfolding Sys_repo_Create_def Sys_repo_Update_def Let_def by (intro db_intros)+

lemma sys_bodies_ok [db_intros]:
  "preserving keeps_core (Sys_create_body env ctx s)" "preserving keeps_core (Sys_patch_body env ctx i preq)"
  unfolding Sys_create_body_def Sys_patch_body_def by (intro db_intros)+

lemma sys_create_audits:
  "audits (\<lambda>s' row. core_logged env ctx (sys_entry env OpCreate (sy_ID s') None (Some s')) row) (Sys_create_body env ctx s)"
  unfolding Sys_create_body_def
  by (intro audits_bind_right audits_context_ret db_intros) (simp_all add: sys_entry_def)

lemma sys_patch_audits:
  "audits (\<lambda>s' row. \<exists>before. core_logged env ctx (sys_entry env OpUpdate (sy_ID s') (Some before) (Some s')) row)
     (Sys_patch_body env ctx i req)"
  unfolding Sys_patch_body_def
  by (intro audits_bind_right audits_context_ret db_intros) (auto simp: sys_entry_def)

text \<open>Reading back what was stored.\<close>

lemma active_flag_stored: "active_flag q (e\<lparr>en_properties := systemProperties s\<rparr>) = Inr (sy_Active s)"
  by (auto simp: systemProperties_def active_flag_def jsonb_text_def jsonb_get_def omit_empty_def pg_bool_texts)

lemma system_of_row_properties:
  "system_of_row q (e\<lparr>en_properties := systemProperties s\<rparr>)
     = Inr \<lparr>sy_ID = en_id e, sy_Name = sy_Name s, sy_Description = sy_Description s, sy_Active = sy_Active s,
            sy_CreatedAt = en_created e, sy_UpdatedAt = en_updated e\<rparr>"
  unfolding system_of_row_def active_flag_stored
  by (auto simp: systemProperties_def text_or_empty_def jsonb_text_def jsonb_get_def omit_empty_def)

end
