(* ===== verification/Relations.thy ===== *)
theory Relations
  imports Entities
begin

section \<open>Relations (\<open>internal/relation\<close>)\<close>

text \<open>
  The edges of the authorization graph. A new edge must be declared by the type of its subject, for
  the type of its target, in \<open>allowed_relations\<close>. Model, repository and service.
\<close>

record relation =
  rel_ID :: uuid
  rel_SubjectEntityID :: uuid
  rel_RelationType :: string
  rel_TargetEntityID :: uuid
  rel_SystemID :: "uuid option"
  rel_CreatedAt :: gotime

record rel_create_request =
  rc_SubjectEntityID :: uuid
  rc_RelationType :: string
  rc_TargetEntityID :: uuid
  rc_SystemID :: "uuid option"

record rel_list_params =
  rp_RelationType :: string
  rp_SystemID :: "uuid option"
  rp_Limit :: int
  rp_Offset :: int

record rel_list_result =
  rr_Items :: "relation list"
  rr_Total :: nat
  rr_Limit :: int
  rr_Offset :: int

definition rel_json :: "render_env \<Rightarrow> relation \<Rightarrow> json" where
  "rel_json env r = JObj ([(''id'', JStr (re_uuid env (rel_ID r))),
     (''subject_entity_id'', JStr (re_uuid env (rel_SubjectEntityID r))), (''relation_type'', JStr (rel_RelationType r)),
     (''target_entity_id'', JStr (re_uuid env (rel_TargetEntityID r)))]
     @ (case rel_SystemID r of None \<Rightarrow> [] | Some u \<Rightarrow> [(''system_id'', JStr (re_uuid env u))])
     @ [(''created_at'', JStr (re_time env (rel_CreatedAt r)))])"

definition rel_of_row :: "relation_row \<Rightarrow> relation" where
  "rel_of_row r = \<lparr>rel_ID = rl_id r, rel_SubjectEntityID = rl_subject r, rel_RelationType = rl_type r,
     rel_TargetEntityID = rl_target r, rel_SystemID = rl_system r, rel_CreatedAt = rl_created r\<rparr>"

subsection \<open>Repository\<close>

definition Rel_repo_Create :: "relation \<Rightarrow> relation db" where
  "Rel_repo_Create r =
     bind (catch (exec (insert_relation (rel_SubjectEntityID r) (rel_RelationType r) (rel_TargetEntityID r) (rel_SystemID r)))
             (\<lambda>e. if pg_code_is e ''23505'' then throw (RelationE Relation_ErrDuplicate)
                  else throw (Wrap ''inserting relation'' e)))
       (\<lambda>row. ret (r\<lparr>rel_ID := rl_id row, rel_CreatedAt := rl_created row\<rparr>))"

definition Rel_repo_GetByID :: "uuid \<Rightarrow> relation db" where
  "Rel_repo_GetByID i =
     catch (bind (query_row (\<lambda>q d. filter (\<lambda>r. rl_id r = i) (relations q d))) (\<lambda>r. ret (rel_of_row r)))
       (\<lambda>e. if is_no_rows e then throw (RelationE Relation_ErrNotFound) else throw (Wrap ''scanning relation'' e))"

definition rel_list_rows :: "uuid \<Rightarrow> rel_list_params \<Rightarrow> query_ctx \<Rightarrow> database \<Rightarrow> relation_row list" where
  "rel_list_rows entityID p q d =
     filter (\<lambda>r. rl_subject r = entityID \<and> (rp_RelationType p = [] \<or> rl_type r = rp_RelationType p)
        \<and> (rp_SystemID p = None \<or> rl_system r = rp_SystemID p)) (relations q d)"

definition Rel_repo_ListByEntity :: "uuid \<Rightarrow> rel_list_params \<Rightarrow> (relation list \<times> nat) db" where
  "Rel_repo_ListByEntity entityID p =
     bind (wrap_err ''counting relations'' (query (\<lambda>q d. length (rel_list_rows entityID p q d)))) (\<lambda>total.
     bind (wrap_err ''querying relations'' (query_page (rp_Limit p) (rp_Offset p)
            (\<lambda>q d. sort_key (\<lambda>r. - rl_created r) (rel_list_rows entityID p q d)))) (\<lambda>rows.
     ret (map rel_of_row rows, total)))"

definition Rel_repo_Delete :: "uuid \<Rightarrow> unit db" where
  "Rel_repo_Delete i =
     bind (wrap_err ''deleting relation'' (exec (delete_relations (\<lambda>r. rl_id r = i))))
       (\<lambda>n. if n = 0 then throw (RelationE Relation_ErrNotFound) else ret ())"

subsection \<open>Service: the declared relations of a type\<close>

text \<open>
  Decoding \<open>allowed_relations\<close> into \<open>map[string]allowedRelationEntry\<close>. A null leaves what is there: no
  target types, or the empty name for a new element.
\<close>

fun decode_strings :: "string list \<Rightarrow> json list \<Rightarrow> string list" where
  "decode_strings old [] = []"
| "decode_strings old (v # vs) =
     (case v of JStr s \<Rightarrow> s | _ \<Rightarrow> (case old of [] \<Rightarrow> [] | s # _ \<Rightarrow> s)) # decode_strings (tl old) vs"

definition strings_ok :: "json \<Rightarrow> bool" where
  "strings_ok v = (case v of
     JNull \<Rightarrow> True
   | JArr vs \<Rightarrow> list_all (\<lambda>x. case x of JStr _ \<Rightarrow> True | JNull \<Rightarrow> True | _ \<Rightarrow> False) vs
   | _ \<Rightarrow> False)"

fun decode_targets :: "string list \<Rightarrow> (string \<times> json) list \<Rightarrow> string list" where
  "decode_targets acc [] = acc"
| "decode_targets acc ((k, v) # kvs) =
     decode_targets (if field_matches ''target_types'' k
       then (case v of JArr vs \<Rightarrow> decode_strings acc vs | JNull \<Rightarrow> [] | _ \<Rightarrow> acc) else acc) kvs"

definition allowedRelationEntry :: "json \<Rightarrow> json_error + string list" where
  "allowedRelationEntry v =
     (case v of
        JNull \<Rightarrow> Inr []
      | JObj kvs \<Rightarrow>
          if list_all (\<lambda>(k, x). field_matches ''target_types'' k \<longrightarrow> strings_ok x) kvs
          then Inr (decode_targets [] kvs) else Inl JsonTypeMismatch
      | _ \<Rightarrow> Inl JsonTypeMismatch)"

definition relation_entries :: "json \<Rightarrow> json_error + string list gomap" where
  "relation_entries allowed =
     (case unmarshal_map (Some allowed) of
        Inl e \<Rightarrow> Inl e
      | Inr m \<Rightarrow> map_res (\<lambda>(k, v). case allowedRelationEntry v of Inl e \<Rightarrow> Inl e | Inr ts \<Rightarrow> Inr (k, ts)) (map_entries m))"

definition extractRelationEntry :: "type_row \<Rightarrow> string \<Rightarrow> APIError + string list" where
  "extractRelationEntry subject relationType =
     (case relation_entries (ty_allowed_relations subject) of
        Inl e \<Rightarrow> Inl (api_Internal [Lit ''failed to parse allowed_relations''])
      | Inr es \<Rightarrow>
          (case map_of es relationType of
             None \<Rightarrow> Inl (api_BadRequest [Lit (''relation_type '' @ squoted relationType
                       @ '' is not declared for entity type '' @ squoted (ty_name subject))])
           | Some targets \<Rightarrow> Inr targets))"

definition typed_entity :: "string \<Rightarrow> uuid \<Rightarrow> type_row db" where
  "typed_entity what i =
     catch (bind (query_row (\<lambda>q d. filter (\<lambda>(e, t). en_id e = i) (typed_entities q d))) (\<lambda>(e, t). ret t))
       (\<lambda>e. if is_no_rows e then reject (api_NotFound (what @ '' entity''))
            else reject (api_Internal [Lit (''failed to resolve '' @ what @ '' entity'')]))"

definition getSubjectInfo :: "uuid \<Rightarrow> type_row db" where
  "getSubjectInfo i = typed_entity ''subject'' i"

definition getTargetTypeName :: "uuid \<Rightarrow> string db" where
  "getTargetTypeName i = bind (typed_entity ''target'' i) (\<lambda>t. ret (ty_name t))"

subsection \<open>Service: the operations\<close>

definition Rel_validateCreateRequest :: "rel_create_request \<Rightarrow> APIError option" where
  "Rel_validateCreateRequest req =
     (if rc_SubjectEntityID req = uuid_Nil then Some (api_BadRequest [Lit ''subject_entity_id is required''])
      else if rc_RelationType req = [] then Some (api_BadRequest [Lit ''relation_type is required''])
      else if rc_TargetEntityID req = uuid_Nil then Some (api_BadRequest [Lit ''target_entity_id is required''])
      else if rc_SubjectEntityID req = rc_TargetEntityID req
        then Some (api_BadRequest [Lit ''subject_entity_id and target_entity_id must be different''])
      else None)"

definition Rel_toAPIError :: "goerr \<Rightarrow> goerr" where
  "Rel_toAPIError = api_error
     [(RelationE Relation_ErrNotFound, api_NotFound ''relation''),
      (RelationE Relation_ErrDuplicate, api_Conflict [Lit ''relation already exists''])]"

definition rel_entry :: "render_env \<Rightarrow> string \<Rightarrow> uuid \<Rightarrow> relation option \<Rightarrow> relation option \<Rightarrow> audit_entry" where
  "rel_entry env op i before after =
     entry_of op ''relation'' i (map_option (rel_json env) before) (map_option (rel_json env) after)"

definition check_target :: "type_row \<Rightarrow> string \<Rightarrow> string list \<Rightarrow> string \<Rightarrow> APIError option" where
  "check_target subject relationType targets targetType =
     (if targetType \<in> set targets then None
      else Some (api_BadRequest [Lit (''entity type '' @ squoted targetType @ '' is not a valid target for relation_type ''
             @ squoted relationType @ '' on type '' @ squoted (ty_name subject))]))"

definition Rel_create_body :: "render_env \<Rightarrow> request_context \<Rightarrow> rel_create_request \<Rightarrow> relation db" where
  "Rel_create_body env ctx req =
     bind (getSubjectInfo (rc_SubjectEntityID req)) (\<lambda>subject.
     bind (lift_api (extractRelationEntry subject (rc_RelationType req))) (\<lambda>targets.
     bind (getTargetTypeName (rc_TargetEntityID req)) (\<lambda>targetType.
     bind (check (check_target subject (rc_RelationType req) targets targetType)) (\<lambda>_.
     bind (Rel_repo_Create \<lparr>rel_ID = uuid_Nil, rel_SubjectEntityID = rc_SubjectEntityID req,
             rel_RelationType = rc_RelationType req, rel_TargetEntityID = rc_TargetEntityID req,
             rel_SystemID = rc_SystemID req, rel_CreatedAt = 0\<rparr>) (\<lambda>r.
     bind (WriteFromContext env ctx (rel_entry env OpCreate (rel_ID r) None (Some r))) (\<lambda>_. ret r))))))"

definition Rel_Create :: "render_env \<Rightarrow> request_context \<Rightarrow> rel_create_request \<Rightarrow> relation db" where
  "Rel_Create env ctx req =
     bind (check (Rel_validateCreateRequest req)) (\<lambda>_.
     map_err Rel_toAPIError (WithAuthScope ctx (Rel_create_body env ctx req)))"

definition Rel_GetByID :: "uuid \<Rightarrow> relation db" where
  "Rel_GetByID i = map_err Rel_toAPIError (Rel_repo_GetByID i)"

definition Rel_ListByEntity :: "uuid \<Rightarrow> rel_list_params \<Rightarrow> rel_list_result db" where
  "Rel_ListByEntity entityID p0 =
     (let p = p0\<lparr>rp_Limit := clamp_limit 25 100 (rp_Limit p0)\<rparr> in
      bind (wrap_err ''listing relations'' (Rel_repo_ListByEntity entityID p)) (\<lambda>(items, total).
      ret \<lparr>rr_Items = items, rr_Total = total, rr_Limit = rp_Limit p, rr_Offset = rp_Offset p\<rparr>))"

definition Rel_delete_body :: "render_env \<Rightarrow> request_context \<Rightarrow> uuid \<Rightarrow> unit db" where
  "Rel_delete_body env ctx i =
     bind (Rel_repo_GetByID i) (\<lambda>existing.
     bind (Rel_repo_Delete i) (\<lambda>_.
     WriteFromContext env ctx (rel_entry env OpDelete i (Some existing) None)))"

definition Rel_Delete :: "render_env \<Rightarrow> request_context \<Rightarrow> uuid \<Rightarrow> unit db" where
  "Rel_Delete env ctx i = map_err Rel_toAPIError (WithAuthScope ctx (Rel_delete_body env ctx i))"

subsection \<open>Laws\<close>

lemma rel_reads [db_intros]:
  assumes "reflp R" "transp R"
  shows "preserving R (Rel_repo_GetByID i)" "preserving R (Rel_repo_ListByEntity i p)" "preserving R (typed_entity what i)"
    "preserving R (getSubjectInfo i)" "preserving R (getTargetTypeName i)"
proof -
  show t: "preserving R (typed_entity what i)" for what i
    unfolding typed_entity_def by (intro db_intros assms) (auto split: prod.splits intro!: db_intros assms)
  show "preserving R (Rel_repo_GetByID i)" "preserving R (Rel_repo_ListByEntity i p)"
    unfolding Rel_repo_GetByID_def Rel_repo_ListByEntity_def by (intro db_intros assms)+
  show "preserving R (getSubjectInfo i)" "preserving R (getTargetTypeName i)"
    unfolding getSubjectInfo_def getTargetTypeName_def by (intro t db_intros assms)+
qed

lemma rel_repo_ok [db_intros]: "preserving keeps_core (Rel_repo_Create r)" "preserving keeps_core (Rel_repo_Delete i)"
  unfolding Rel_repo_Create_def Rel_repo_Delete_def by (intro db_intros)+

lemma rel_repo_audit [db_intros]: "preserving same_audit (Rel_repo_Create r)" "preserving same_audit (Rel_repo_Delete i)"
  unfolding Rel_repo_Create_def Rel_repo_Delete_def by (intro db_intros)+

lemma rel_bodies_ok [db_intros]:
  "preserving keeps_core (Rel_create_body env ctx req)" "preserving keeps_core (Rel_delete_body env ctx i)"
  unfolding Rel_create_body_def Rel_delete_body_def by (intro db_intros)+

lemma rel_create_audits:
  "audits (\<lambda>r row. core_logged env ctx (rel_entry env OpCreate (rel_ID r) None (Some r)) row) (Rel_create_body env ctx req)"
  unfolding Rel_create_body_def
  by (intro audits_bind_right audits_context_ret db_intros) (simp_all add: rel_entry_def)

lemma rel_delete_audits:
  "audits (\<lambda>_ row. \<exists>before. core_logged env ctx (rel_entry env OpDelete i (Some before) None) row) (Rel_delete_body env ctx i)"
  unfolding Rel_delete_body_def
  by (intro audits_bind_right db_intros audits_weaken [OF audits_context]) (auto simp: rel_entry_def)

end
