(* ===== verification/Overlay_Schemas.thy ===== *)
theory Overlay_Schemas
  imports Entities "HOL-Library.List_Lexorder" "HOL-Library.Char_ord"
begin

section \<open>Overlay schemas (\<open>internal/overlayschema\<close>)\<close>

text \<open>
  What a system may attach to the entities of a type: a JSON Schema whose property keys all begin with
  the name of the system and a dot. Model, repository and service.
\<close>

record overlay_schema =
  os_ID :: uuid
  os_SystemID :: uuid
  os_EntityTypeID :: uuid
  os_AllowedOverlayProperties :: raw
  os_CreatedAt :: gotime
  os_UpdatedAt :: gotime

record os_create_request =
  oc_EntityTypeID :: uuid
  oc_AllowedOverlayProperties :: raw

definition os_json :: "render_env \<Rightarrow> overlay_schema \<Rightarrow> json" where
  "os_json env s = JObj [(''id'', JStr (re_uuid env (os_ID s))), (''system_id'', JStr (re_uuid env (os_SystemID s))),
     (''entity_type_id'', JStr (re_uuid env (os_EntityTypeID s))),
     (''allowed_overlay_properties'', raw_json (os_AllowedOverlayProperties s)),
     (''created_at'', JStr (re_time env (os_CreatedAt s))), (''updated_at'', JStr (re_time env (os_UpdatedAt s)))]"

definition os_of_row :: "schema_row \<Rightarrow> overlay_schema" where
  "os_of_row r = \<lparr>os_ID = sc_id r, os_SystemID = sc_system r, os_EntityTypeID = sc_type r,
     os_AllowedOverlayProperties = Some (sc_allowed r), os_CreatedAt = sc_created r, os_UpdatedAt = sc_updated r\<rparr>"

subsection \<open>Namespaces\<close>

text \<open>The check of the prefix that schemas and overlays share: the offending keys, quoted and sorted.\<close>

definition namespace_check :: "string \<Rightarrow> string \<Rightarrow> string list \<Rightarrow> APIError option" where
  "namespace_check what systemName keys =
     (let pre = systemName @ ''.''; bad = filter (\<lambda>k. \<not> prefix pre k) keys in
      if bad = [] then None
      else Some (api_ValidationFailed [[Lit (what @ '' must be prefixed with '' @ Quote pre @ '': ''
                   @ Join (sort (map squoted bad)) '', '')]]))"

lemma namespace_check_None:
  "namespace_check what name keys = None \<longleftrightarrow> (\<forall>k \<in> set keys. prefix (name @ ''.'') k)"
  by (auto simp: namespace_check_def Let_def filter_empty_conv)

text \<open>The keys under \<open>properties\<close>: a member that repeats the field adds to the map, null empties it.\<close>

fun declared_keys :: "string list \<Rightarrow> (string \<times> json) list \<Rightarrow> string list" where
  "declared_keys acc [] = acc"
| "declared_keys acc ((k, v) # kvs) =
     declared_keys (if field_matches ''properties'' k
       then (case v of JObj ms \<Rightarrow> remdups (acc @ map fst ms) | JNull \<Rightarrow> [] | _ \<Rightarrow> acc) else acc) kvs"

definition properties_ok :: "(string \<times> json) list \<Rightarrow> bool" where
  "properties_ok kvs \<longleftrightarrow> list_all (\<lambda>(k, v). field_matches ''properties'' k \<longrightarrow>
     (case v of JObj _ \<Rightarrow> True | JNull \<Rightarrow> True | _ \<Rightarrow> False)) kvs"

definition schema_keys :: "raw \<Rightarrow> json_error + string list" where
  "schema_keys schema =
     (case schema of
        None \<Rightarrow> Inl JsonUnexpectedEnd
      | Some JNull \<Rightarrow> Inr []
      | Some (JObj kvs) \<Rightarrow> if properties_ok kvs then Inr (declared_keys [] kvs) else Inl JsonTypeMismatch
      | Some _ \<Rightarrow> Inl JsonTypeMismatch)"

definition OS_validateNamespacePrefix :: "raw \<Rightarrow> string \<Rightarrow> APIError option" where
  "OS_validateNamespacePrefix schema systemName =
     (case schema_keys schema of
        Inl e \<Rightarrow> Some (api_BadRequest [Lit ''invalid JSON in allowed_overlay_properties: '', ErrText (JsonE e)])
      | Inr keys \<Rightarrow> namespace_check ''property keys'' systemName keys)"

definition validateSchema :: "'s schema_lib \<Rightarrow> raw \<Rightarrow> string \<Rightarrow> APIError option" where
  "validateSchema lib schema systemName =
     (case ValidateIsJSONSchema lib schema of
        Some a \<Rightarrow> Some (api_ValidationFailed ([Lit ''allowed_overlay_properties: invalid JSON Schema''] # Details a))
      | None \<Rightarrow> OS_validateNamespacePrefix schema systemName)"

subsection \<open>Repository\<close>

definition OS_repo_Create :: "overlay_schema \<Rightarrow> overlay_schema db" where
  "OS_repo_Create s =
     bind (catch (exec (not_null (os_AllowedOverlayProperties s) (insert_schema (os_SystemID s) (os_EntityTypeID s))))
             (\<lambda>e. if pg_code_is e ''23505'' then throw (OverlaySchemaE OverlaySchema_ErrDuplicate)
                  else if pg_code_is e ''23503''
                  then (if map_option snd (errors_As_Pg e) = Some ''system_overlay_schema_system_id_fkey''
                        then throw (OverlaySchemaE OverlaySchema_ErrSystemNotFound)
                        else throw (OverlaySchemaE OverlaySchema_ErrEntityTypeNotFound))
                  else throw (Wrap ''inserting system overlay schema'' e)))
       (\<lambda>row. ret (s\<lparr>os_ID := sc_id row, os_CreatedAt := sc_created row, os_UpdatedAt := sc_updated row\<rparr>))"

definition OS_repo_GetByID :: "uuid \<Rightarrow> overlay_schema db" where
  "OS_repo_GetByID i =
     catch (bind (query_row (\<lambda>q d. filter (\<lambda>r. sc_id r = i) (db_schemas d))) (\<lambda>r. ret (os_of_row r)))
       (\<lambda>e. if is_no_rows e then throw (OverlaySchemaE OverlaySchema_ErrNotFound)
            else throw (Wrap ''querying system overlay schema'' e))"

definition OS_repo_ListBySystem :: "uuid \<Rightarrow> overlay_schema list db" where
  "OS_repo_ListBySystem sysID =
     wrap_err ''querying system overlay schemas''
       (query (\<lambda>q d. map os_of_row (sort_key sc_type (filter (\<lambda>r. sc_system r = sysID) (db_schemas d)))))"

definition OS_repo_Update :: "overlay_schema \<Rightarrow> overlay_schema db" where
  "OS_repo_Update s =
     bind (catch (scan_row (bind (exec (not_null (os_AllowedOverlayProperties s) (\<lambda>p.
                   update_schemas (\<lambda>r. sc_id r = os_ID s) (\<lambda>r. r\<lparr>sc_allowed := p\<rparr>))))
                 (\<lambda>rows. ret (case rows of [] \<Rightarrow> None | r # _ \<Rightarrow> Some (sc_updated r)))))
             (\<lambda>e. if is_no_rows e then throw (OverlaySchemaE OverlaySchema_ErrNotFound)
                  else throw (Wrap ''updating system overlay schema'' e)))
       (\<lambda>t. ret (s\<lparr>os_UpdatedAt := t\<rparr>))"

definition OS_repo_Delete :: "uuid \<Rightarrow> unit db" where
  "OS_repo_Delete i =
     bind (catch (exec (delete_schemas (\<lambda>r. sc_id r = i)))
             (\<lambda>e. if pg_code_is e ''23503'' then throw (OverlaySchemaE OverlaySchema_ErrHasOverlays)
                  else throw (Wrap ''deleting system overlay schema'' e)))
       (\<lambda>n. if n = 0 then throw (OverlaySchemaE OverlaySchema_ErrNotFound) else ret ())"

text \<open>The overlays a schema governs: those of its system on entities of its type.\<close>

definition governed :: "query_ctx \<Rightarrow> database \<Rightarrow> uuid \<Rightarrow> overlay_row list" where
  "governed q d i =
     [o'. o' \<leftarrow> overlays q d, e \<leftarrow> filter (\<lambda>e. en_id e = ov_entity o') (entities q d),
          s \<leftarrow> filter (\<lambda>s. sc_id s = i \<and> sc_system s = ov_system o' \<and> sc_type s = en_type_id e) (db_schemas d)]"

definition HasOverlays :: "uuid \<Rightarrow> bool db" where
  "HasOverlays i = wrap_err ''counting overlays for schema'' (query (\<lambda>q d. 0 < length (governed q d i)))"

subsection \<open>Service\<close>

definition OS_toAPIError :: "goerr \<Rightarrow> goerr" where
  "OS_toAPIError = api_error
     [(OverlaySchemaE OverlaySchema_ErrNotFound, api_NotFound ''system overlay schema''),
      (OverlaySchemaE OverlaySchema_ErrDuplicate,
         api_Conflict [Lit ''system overlay schema already exists for this system and entity type'']),
      (OverlaySchemaE OverlaySchema_ErrSystemNotFound, api_NotFound ''system''),
      (OverlaySchemaE OverlaySchema_ErrEntityTypeNotFound, api_NotFound ''entity type definition''),
      (OverlaySchemaE OverlaySchema_ErrHasOverlays,
         api_BadRequest [Lit ''system overlay schema has associated property overlays and cannot be deleted''])]"

definition os_entry :: "render_env \<Rightarrow> string \<Rightarrow> uuid \<Rightarrow> overlay_schema option \<Rightarrow> overlay_schema option \<Rightarrow> audit_entry" where
  "os_entry env op i before after =
     entry_of op ''system_overlay_schema'' i (map_option (os_json env) before) (map_option (os_json env) after)"

text \<open>A null column does not scan into a Go string.\<close>

definition scan_text :: "string option db \<Rightarrow> string db" where
  "scan_text m = bind m (\<lambda>r. case r of None \<Rightarrow> throw (Text ''cannot scan NULL into *string'') | Some s \<Rightarrow> ret s)"

definition resolveSystemName :: "uuid \<Rightarrow> string db" where
  "resolveSystemName i =
     catch (scan_text (query_row (\<lambda>q d. map (\<lambda>e. jsonb_text q (en_properties e) ''name'')
             (filter (\<lambda>e. en_id e = i \<and> has_type d ''System'' e) (entities q d)))))
       (\<lambda>e. if is_no_rows e then reject (api_NotFound ''system'') else reject (api_Internal [Lit ''failed to resolve system'']))"

definition OS_create_body :: "render_env \<Rightarrow> request_context \<Rightarrow> overlay_schema \<Rightarrow> overlay_schema db" where
  "OS_create_body env ctx s =
     bind (OS_repo_Create s) (\<lambda>s'.
     bind (WriteFromContext env ctx (os_entry env OpCreate (os_ID s') None (Some s'))) (\<lambda>_. ret s'))"

definition OS_Create ::
  "'s schema_lib \<Rightarrow> render_env \<Rightarrow> request_context \<Rightarrow> uuid \<Rightarrow> os_create_request \<Rightarrow> overlay_schema db" where
  "OS_Create lib env ctx systemID req =
     (if oc_EntityTypeID req = uuid_Nil then reject (api_BadRequest [Lit ''entity_type_id is required''])
      else if oc_AllowedOverlayProperties req = None
      then reject (api_BadRequest [Lit ''allowed_overlay_properties is required''])
      else bind (resolveSystemName systemID) (\<lambda>systemName.
        bind (check (validateSchema lib (oc_AllowedOverlayProperties req) systemName)) (\<lambda>_.
        map_err OS_toAPIError (WithAuthScope ctx (OS_create_body env ctx
          \<lparr>os_ID = uuid_Nil, os_SystemID = systemID, os_EntityTypeID = oc_EntityTypeID req,
           os_AllowedOverlayProperties = oc_AllowedOverlayProperties req, os_CreatedAt = 0, os_UpdatedAt = 0\<rparr>)))))"

definition OS_GetByID :: "uuid \<Rightarrow> uuid \<Rightarrow> overlay_schema db" where
  "OS_GetByID systemID schemaID =
     bind (map_err OS_toAPIError (OS_repo_GetByID schemaID)) (\<lambda>s.
     if os_SystemID s \<noteq> systemID then reject (api_NotFound ''system overlay schema'') else ret s)"

definition OS_ListBySystem :: "uuid \<Rightarrow> overlay_schema list db" where
  "OS_ListBySystem systemID = wrap_err ''listing system overlay schemas'' (OS_repo_ListBySystem systemID)"

definition own_schema :: "uuid \<Rightarrow> uuid \<Rightarrow> overlay_schema db" where
  "own_schema systemID schemaID =
     bind (OS_repo_GetByID schemaID) (\<lambda>existing.
     if os_SystemID existing \<noteq> systemID then throw (OverlaySchemaE OverlaySchema_ErrNotFound) else ret existing)"

definition OS_update_body :: "render_env \<Rightarrow> request_context \<Rightarrow> uuid \<Rightarrow> uuid \<Rightarrow> raw \<Rightarrow> overlay_schema db" where
  "OS_update_body env ctx systemID schemaID props =
     bind (own_schema systemID schemaID) (\<lambda>existing.
     bind (OS_repo_Update (existing\<lparr>os_AllowedOverlayProperties := props\<rparr>)) (\<lambda>updated.
     bind (WriteFromContext env ctx (os_entry env OpUpdate (os_ID updated) (Some existing) (Some updated))) (\<lambda>_.
     ret updated)))"

definition OS_Update ::
  "'s schema_lib \<Rightarrow> render_env \<Rightarrow> request_context \<Rightarrow> uuid \<Rightarrow> uuid \<Rightarrow> raw \<Rightarrow> overlay_schema db" where
  "OS_Update lib env ctx systemID schemaID props =
     (if props = None then reject (api_BadRequest [Lit ''allowed_overlay_properties is required''])
      else bind (resolveSystemName systemID) (\<lambda>systemName.
        bind (check (validateSchema lib props systemName)) (\<lambda>_.
        map_err OS_toAPIError (WithAuthScope ctx (OS_update_body env ctx systemID schemaID props)))))"

definition OS_delete_body :: "render_env \<Rightarrow> request_context \<Rightarrow> uuid \<Rightarrow> uuid \<Rightarrow> unit db" where
  "OS_delete_body env ctx systemID schemaID =
     bind (own_schema systemID schemaID) (\<lambda>existing.
     bind (OS_repo_Delete schemaID) (\<lambda>_.
     WriteFromContext env ctx (os_entry env OpDelete schemaID (Some existing) None)))"

definition OS_Delete :: "render_env \<Rightarrow> request_context \<Rightarrow> uuid \<Rightarrow> uuid \<Rightarrow> unit db" where
  "OS_Delete env ctx systemID schemaID =
     bind (wrap_err (''checking overlays for schema '' @ re_uuid env schemaID) (HasOverlays schemaID)) (\<lambda>hasOverlays.
     if hasOverlays
     then reject (api_BadRequest [Lit ''system overlay schema has associated property overlays and cannot be deleted''])
     else map_err OS_toAPIError (WithAuthScope ctx (OS_delete_body env ctx systemID schemaID)))"

subsection \<open>Laws\<close>

lemma preserving_scan_text [db_intros]:
  "reflp R \<Longrightarrow> transp R \<Longrightarrow> preserving R m \<Longrightarrow> preserving R (scan_text m)"
  unfolding scan_text_def by (intro db_intros) (auto split: option.splits intro: db_intros)

lemma os_reads [db_intros]:
  assumes "reflp R" "transp R"
  shows "preserving R (OS_repo_GetByID i)" "preserving R (OS_repo_ListBySystem i)" "preserving R (HasOverlays i)"
    "preserving R (resolveSystemName i)" "preserving R (own_schema i j)"
proof -
  show g: "preserving R (OS_repo_GetByID i)" for i unfolding OS_repo_GetByID_def by (intro db_intros assms)
  show "preserving R (OS_repo_ListBySystem i)" "preserving R (HasOverlays i)" "preserving R (resolveSystemName i)"
    unfolding OS_repo_ListBySystem_def HasOverlays_def resolveSystemName_def by (intro db_intros assms)+
  show "preserving R (own_schema i j)" unfolding own_schema_def by (intro db_intros assms g)
qed

lemma os_repo_ok [db_intros]:
  "preserving keeps_core (OS_repo_Create s)" "preserving keeps_core (OS_repo_Update s)" "preserving keeps_core (OS_repo_Delete i)"
  unfolding OS_repo_Create_def OS_repo_Update_def OS_repo_Delete_def by (intro db_intros; simp)+

lemma os_repo_audit [db_intros]:
  "preserving same_audit (OS_repo_Create s)" "preserving same_audit (OS_repo_Update s)" "preserving same_audit (OS_repo_Delete i)"
  unfolding OS_repo_Create_def OS_repo_Update_def OS_repo_Delete_def by (intro db_intros)+

lemma os_bodies_ok [db_intros]:
  "preserving keeps_core (OS_create_body env ctx s)" "preserving keeps_core (OS_update_body env ctx sid i props)"
  "preserving keeps_core (OS_delete_body env ctx sid i)"
  unfolding OS_create_body_def OS_update_body_def OS_delete_body_def by (intro db_intros)+

lemma os_create_audits:
  "audits (\<lambda>s' row. core_logged env ctx (os_entry env OpCreate (os_ID s') None (Some s')) row) (OS_create_body env ctx s)"
  unfolding OS_create_body_def
  by (intro audits_bind_right audits_context_ret db_intros) (simp_all add: os_entry_def)

lemma os_update_audits:
  "audits (\<lambda>s' row. \<exists>before. core_logged env ctx (os_entry env OpUpdate (os_ID s') (Some before) (Some s')) row)
     (OS_update_body env ctx sid i props)"
  unfolding OS_update_body_def
  by (intro audits_bind_right audits_context_ret db_intros) (auto simp: os_entry_def)

lemma os_delete_audits:
  "audits (\<lambda>_ row. \<exists>before. core_logged env ctx (os_entry env OpDelete i (Some before) None) row) (OS_delete_body env ctx sid i)"
  unfolding OS_delete_body_def
  by (intro audits_bind_right db_intros audits_weaken [OF audits_context]) (auto simp: os_entry_def)

end
