(* ===== verification/Overlays.thy ===== *)
theory Overlays
  imports Overlay_Schemas
begin

section \<open>Property overlays (\<open>internal/overlay\<close>)\<close>

text \<open>
  What a system attaches to an entity. An overlay is written by a caller with an active system, for
  that system; its keys carry the system's name and it conforms to the schema the system declared for
  the entity's type. Model, repository and service.
\<close>

record property_overlay =
  po_ID :: uuid
  po_EntityID :: uuid
  po_SystemID :: uuid
  po_Properties :: raw
  po_CreatedAt :: gotime
  po_UpdatedAt :: gotime

record po_list_result =
  pl_Items :: "property_overlay list"
  pl_Total :: nat
  pl_Limit :: int
  pl_Offset :: int

definition po_json :: "render_env \<Rightarrow> property_overlay \<Rightarrow> json" where
  "po_json env x = JObj [(''id'', JStr (re_uuid env (po_ID x))), (''entity_id'', JStr (re_uuid env (po_EntityID x))),
     (''system_id'', JStr (re_uuid env (po_SystemID x))), (''properties'', raw_json (po_Properties x)),
     (''created_at'', JStr (re_time env (po_CreatedAt x))), (''updated_at'', JStr (re_time env (po_UpdatedAt x)))]"

definition po_of_row :: "overlay_row \<Rightarrow> property_overlay" where
  "po_of_row r = \<lparr>po_ID = ov_id r, po_EntityID = ov_entity r, po_SystemID = ov_system r,
     po_Properties = Some (ov_properties r), po_CreatedAt = ov_created r, po_UpdatedAt = ov_updated r\<rparr>"

subsection \<open>Repository\<close>

definition PO_repo_Create :: "property_overlay \<Rightarrow> property_overlay db" where
  "PO_repo_Create x =
     bind (catch (exec (not_null (po_Properties x) (insert_overlay (po_EntityID x) (po_SystemID x))))
             (\<lambda>e. if pg_code_is e ''23505'' then throw (OverlayE Overlay_ErrDuplicate)
                  else if pg_code_is e ''23503'' then throw (OverlayE Overlay_ErrEntityNotFound)
                  else throw (Wrap ''inserting property overlay'' e)))
       (\<lambda>row. ret (x\<lparr>po_ID := ov_id row, po_CreatedAt := ov_created row, po_UpdatedAt := ov_updated row\<rparr>))"

definition scanOverlay :: "(query_ctx \<Rightarrow> database \<Rightarrow> overlay_row list) \<Rightarrow> property_overlay db" where
  "scanOverlay f =
     catch (bind (query_row f) (\<lambda>r. ret (po_of_row r)))
       (\<lambda>e. if is_no_rows e then throw (OverlayE Overlay_ErrNotFound) else throw (Wrap ''scanning property overlay'' e))"

definition PO_repo_GetByID :: "uuid \<Rightarrow> property_overlay db" where
  "PO_repo_GetByID i = scanOverlay (\<lambda>q d. filter (\<lambda>r. ov_id r = i) (overlays q d))"

definition PO_repo_GetByEntityAndSystem :: "uuid \<Rightarrow> uuid \<Rightarrow> property_overlay db" where
  "PO_repo_GetByEntityAndSystem ent sys =
     scanOverlay (\<lambda>q d. filter (\<lambda>r. ov_entity r = ent \<and> ov_system r = sys) (overlays q d))"

definition entity_overlays :: "uuid \<Rightarrow> query_ctx \<Rightarrow> database \<Rightarrow> overlay_row list" where
  "entity_overlays ent q d = filter (\<lambda>r. ov_entity r = ent) (overlays q d)"

definition PO_repo_ListByEntity :: "uuid \<Rightarrow> int \<Rightarrow> int \<Rightarrow> (property_overlay list \<times> nat) db" where
  "PO_repo_ListByEntity ent limit offset =
     bind (wrap_err ''counting property overlays'' (query (\<lambda>q d. length (entity_overlays ent q d)))) (\<lambda>total.
     bind (wrap_err ''querying property overlays'' (query_page limit offset
            (\<lambda>q d. sort_key ov_system (entity_overlays ent q d)))) (\<lambda>rows.
     ret (map po_of_row rows, total)))"

definition PO_repo_Update :: "property_overlay \<Rightarrow> property_overlay db" where
  "PO_repo_Update x =
     bind (catch (scan_row (bind (exec (not_null (po_Properties x) (\<lambda>p.
                   update_overlays (\<lambda>r. ov_id r = po_ID x) (\<lambda>r. r\<lparr>ov_properties := p\<rparr>))))
                 (\<lambda>rows. ret (case rows of [] \<Rightarrow> None | r # _ \<Rightarrow> Some (ov_updated r)))))
             (\<lambda>e. if is_no_rows e then throw (OverlayE Overlay_ErrNotFound)
                  else throw (Wrap ''updating property overlay'' e)))
       (\<lambda>t. ret (x\<lparr>po_UpdatedAt := t\<rparr>))"

definition PO_repo_Delete :: "uuid \<Rightarrow> unit db" where
  "PO_repo_Delete i =
     bind (wrap_err ''deleting property overlay'' (exec (delete_overlays (\<lambda>r. ov_id r = i))))
       (\<lambda>n. if n = 0 then throw (OverlayE Overlay_ErrNotFound) else ret ())"

subsection \<open>Service: the checks\<close>

definition PO_toAPIError :: "goerr \<Rightarrow> goerr" where
  "PO_toAPIError = api_error
     [(OverlayE Overlay_ErrNotFound, api_NotFound ''property overlay''),
      (OverlayE Overlay_ErrDuplicate, api_Conflict [Lit ''property overlay already exists for this entity and system'']),
      (OverlayE Overlay_ErrEntityNotFound, api_NotFound ''entity''),
      (OverlayE Overlay_ErrNoSchema,
         api_UnprocessableEntity [Lit ''no system overlay schema declared for this system and entity type'']),
      (OverlayE Overlay_ErrNoSystemScope, api_Forbidden [Lit ''a system scope is required to manage property overlays''])]"

definition po_entry :: "render_env \<Rightarrow> string \<Rightarrow> uuid \<Rightarrow> property_overlay option \<Rightarrow> property_overlay option \<Rightarrow> audit_entry" where
  "po_entry env op i before after =
     entry_of op ''property_overlay'' i (map_option (po_json env) before) (map_option (po_json env) after)"

text \<open>The name of an active system; the cast of its flag may fail.\<close>

definition select_active_system :: "uuid \<Rightarrow> string option option statement" where
  "select_active_system i = (\<lambda>q d.
     case filter (\<lambda>e. en_id e = i \<and> has_type d ''System'' e) (entities q d) of
       [] \<Rightarrow> Inr (None, d)
     | e # _ \<Rightarrow> (case active_flag q e of
           Inl err \<Rightarrow> Inl err
         | Inr active \<Rightarrow> Inr (if active then Some (jsonb_text q (en_properties e) ''name'') else None, d)))"

definition resolveCallerSystem :: "request_context \<Rightarrow> (uuid \<times> string) db" where
  "resolveCallerSystem ctx =
     bind (MustIdentity ctx) (\<lambda>i.
     case id_ActiveSystemID i of
       None \<Rightarrow> reject (api_Forbidden [Lit ''a system scope is required to manage property overlays''])
     | Some u \<Rightarrow>
         bind (catch (scan_text (scan_row (exec (select_active_system u))))
                 (\<lambda>e. if is_no_rows e then reject (api_Forbidden [Lit ''system not found or inactive''])
                      else reject (api_Internal [Lit ''failed to resolve system''])))
           (\<lambda>name. ret (u, name)))"

definition resolveEntity :: "uuid \<Rightarrow> uuid db" where
  "resolveEntity i =
     catch (query_row (\<lambda>q d. map en_type_id (filter (\<lambda>e. en_id e = i) (entities q d))))
       (\<lambda>e. if is_no_rows e then reject (api_NotFound ''entity'') else reject (api_Internal [Lit ''failed to resolve entity'']))"

definition resolveOverlaySchema :: "uuid \<Rightarrow> uuid \<Rightarrow> json db" where
  "resolveOverlaySchema sys tid =
     catch (query_row (\<lambda>q d. map sc_allowed (filter (\<lambda>s. sc_system s = sys \<and> sc_type s = tid) (db_schemas d))))
       (\<lambda>e. if is_no_rows e
            then reject (api_UnprocessableEntity [Lit (''no system overlay schema declared for this system and entity type; ''
                   @ ''create one at POST /api/v1/systems/{system_id}/overlay-schemas'')])
            else reject (api_Internal [Lit ''failed to resolve overlay schema'']))"

definition assertSystemAccess :: "request_context \<Rightarrow> uuid \<Rightarrow> unit db" where
  "assertSystemAccess ctx sys =
     bind (MustIdentity ctx) (\<lambda>i.
     if id_IsPlatformAdmin i then ret ()
     else if id_ActiveSystemID i \<noteq> Some sys then reject (api_NotFound ''property overlay'') else ret ())"

definition PO_validateNamespacePrefix :: "raw \<Rightarrow> string \<Rightarrow> APIError option" where
  "PO_validateNamespacePrefix props systemName =
     (case unmarshal_map props of
        Inl e \<Rightarrow> Some (api_BadRequest [Lit ''invalid JSON in properties: '', ErrText (JsonE e)])
      | Inr m \<Rightarrow> namespace_check ''all property keys'' systemName (map fst (map_entries m)))"

definition validateOverlayProperties :: "'s schema_lib \<Rightarrow> raw \<Rightarrow> string \<Rightarrow> json \<Rightarrow> APIError option" where
  "validateOverlayProperties lib props systemName schemaDoc =
     (case PO_validateNamespacePrefix props systemName of
        Some a \<Rightarrow> Some a
      | None \<Rightarrow> against_schema lib ''oad://overlay/properties'' ''failed to compile overlay schema'' props (Some schemaDoc))"

text \<open>What \<open>Create\<close> and \<open>Update\<close> check before their transaction: the caller's system.\<close>

definition PO_checked :: "'s schema_lib \<Rightarrow> request_context \<Rightarrow> uuid \<Rightarrow> raw \<Rightarrow> uuid db" where
  "PO_checked lib ctx entityID props =
     bind (check (if props = None then Some (api_BadRequest [Lit ''properties is required'']) else None)) (\<lambda>_.
     bind (resolveCallerSystem ctx) (\<lambda>(systemID, systemName).
     bind (resolveEntity entityID) (\<lambda>typeID.
     bind (resolveOverlaySchema systemID typeID) (\<lambda>schema.
     bind (check (validateOverlayProperties lib props systemName schema)) (\<lambda>_. ret systemID)))))"

subsection \<open>Service: the operations\<close>

definition PO_create_body :: "render_env \<Rightarrow> request_context \<Rightarrow> property_overlay \<Rightarrow> property_overlay db" where
  "PO_create_body env ctx x =
     bind (PO_repo_Create x) (\<lambda>x'.
     bind (WriteFromContext env ctx (po_entry env OpCreate (po_ID x') None (Some x'))) (\<lambda>_. ret x'))"

definition PO_Create :: "'s schema_lib \<Rightarrow> render_env \<Rightarrow> request_context \<Rightarrow> uuid \<Rightarrow> raw \<Rightarrow> property_overlay db" where
  "PO_Create lib env ctx entityID props =
     bind (PO_checked lib ctx entityID props) (\<lambda>systemID.
     map_err PO_toAPIError (WithAuthScope ctx (PO_create_body env ctx
       \<lparr>po_ID = uuid_Nil, po_EntityID = entityID, po_SystemID = systemID, po_Properties = props,
        po_CreatedAt = 0, po_UpdatedAt = 0\<rparr>)))"

definition PO_GetByID :: "request_context \<Rightarrow> uuid \<Rightarrow> uuid \<Rightarrow> property_overlay db" where
  "PO_GetByID ctx entityID overlayID =
     bind (map_err PO_toAPIError (PO_repo_GetByID overlayID)) (\<lambda>x.
     if po_EntityID x \<noteq> entityID then reject (api_NotFound ''property overlay'')
     else bind (assertSystemAccess ctx (po_SystemID x)) (\<lambda>_. ret x))"

definition PO_ListByEntity :: "request_context \<Rightarrow> uuid \<Rightarrow> int \<Rightarrow> int \<Rightarrow> po_list_result db" where
  "PO_ListByEntity ctx entityID limit0 offset =
     (let limit = clamp_limit 25 100 limit0 in
      bind (resolveEntity entityID) (\<lambda>_.
      bind (MustIdentity ctx) (\<lambda>i.
      case id_ActiveSystemID i of
        Some u \<Rightarrow>
          bind (wrap_err ''listing property overlays'' (PO_repo_ListByEntity entityID 2 0)) (\<lambda>(items, _).
          let filtered = filter (\<lambda>x. po_SystemID x = u) items in
          ret \<lparr>pl_Items = filtered, pl_Total = length filtered, pl_Limit = limit, pl_Offset = offset\<rparr>)
      | None \<Rightarrow>
          bind (wrap_err ''listing property overlays'' (PO_repo_ListByEntity entityID limit offset)) (\<lambda>(items, total).
          ret \<lparr>pl_Items = items, pl_Total = total, pl_Limit = limit, pl_Offset = offset\<rparr>))))"

text \<open>Only the overlay of this entity and of the caller's system.\<close>

definition own_overlay :: "uuid \<Rightarrow> uuid \<Rightarrow> uuid \<Rightarrow> property_overlay db" where
  "own_overlay entityID systemID overlayID =
     bind (PO_repo_GetByID overlayID) (\<lambda>existing.
     if po_EntityID existing \<noteq> entityID \<or> po_SystemID existing \<noteq> systemID
     then throw (OverlayE Overlay_ErrNotFound) else ret existing)"

definition PO_update_body ::
  "render_env \<Rightarrow> request_context \<Rightarrow> uuid \<Rightarrow> uuid \<Rightarrow> uuid \<Rightarrow> raw \<Rightarrow> property_overlay db" where
  "PO_update_body env ctx entityID systemID overlayID props =
     bind (own_overlay entityID systemID overlayID) (\<lambda>existing.
     bind (PO_repo_Update (existing\<lparr>po_Properties := props\<rparr>)) (\<lambda>updated.
     bind (WriteFromContext env ctx (po_entry env OpUpdate (po_ID updated) (Some existing) (Some updated))) (\<lambda>_.
     ret updated)))"

definition PO_Update :: "'s schema_lib \<Rightarrow> render_env \<Rightarrow> request_context \<Rightarrow> uuid \<Rightarrow> uuid \<Rightarrow> raw \<Rightarrow> property_overlay db" where
  "PO_Update lib env ctx entityID overlayID props =
     bind (PO_checked lib ctx entityID props) (\<lambda>systemID.
     map_err PO_toAPIError (WithAuthScope ctx (PO_update_body env ctx entityID systemID overlayID props)))"

definition PO_delete_body :: "render_env \<Rightarrow> request_context \<Rightarrow> uuid \<Rightarrow> uuid \<Rightarrow> uuid \<Rightarrow> unit db" where
  "PO_delete_body env ctx entityID systemID overlayID =
     bind (own_overlay entityID systemID overlayID) (\<lambda>existing.
     bind (PO_repo_Delete overlayID) (\<lambda>_.
     WriteFromContext env ctx (po_entry env OpDelete overlayID (Some existing) None)))"

definition PO_Delete :: "render_env \<Rightarrow> request_context \<Rightarrow> uuid \<Rightarrow> uuid \<Rightarrow> unit db" where
  "PO_Delete env ctx entityID overlayID =
     bind (resolveCallerSystem ctx) (\<lambda>(systemID, _).
     map_err PO_toAPIError (WithAuthScope ctx (PO_delete_body env ctx entityID systemID overlayID)))"

subsection \<open>Laws\<close>

lemma po_reads [db_intros]:
  assumes R: "reflp R" "transp R"
  shows "preserving R (PO_repo_GetByID i)" "preserving R (PO_repo_GetByEntityAndSystem i j)"
    "preserving R (PO_repo_ListByEntity i lim off)" "preserving R (resolveCallerSystem ctx)" "preserving R (resolveEntity i)"
    "preserving R (resolveOverlaySchema i j)" "preserving R (assertSystemAccess ctx i)" "preserving R (own_overlay i j k)"
    "preserving R (PO_checked lib ctx i props)"
proof -
  have s: "preserving R (scanOverlay f)" for f unfolding scanOverlay_def by (intro db_intros R)
  show g: "preserving R (PO_repo_GetByID i)" for i unfolding PO_repo_GetByID_def by (rule s)
  show "preserving R (PO_repo_GetByEntityAndSystem i j)" unfolding PO_repo_GetByEntityAndSystem_def by (rule s)
  show "preserving R (PO_repo_ListByEntity i lim off)" "preserving R (assertSystemAccess ctx i)"
    unfolding PO_repo_ListByEntity_def assertSystemAccess_def by (intro db_intros R)+
  have x: "preserving R (exec (select_active_system u))" for u
    by (rule preserving_exec [OF R(1)])
      (use R(1) in \<open>auto simp: select_active_system_def reflpD split: list.splits sum.splits\<close>)
  show c: "preserving R (resolveCallerSystem ctx)"
    unfolding resolveCallerSystem_def
    by (intro db_intros R) (auto split: option.splits intro!: db_intros R x)
  show e: "preserving R (resolveEntity i)" "preserving R (resolveOverlaySchema i j)" for i j
    unfolding resolveEntity_def resolveOverlaySchema_def by (intro db_intros R)+
  show "preserving R (own_overlay i j k)" unfolding own_overlay_def by (intro db_intros R g)
  show "preserving R (PO_checked lib ctx i props)"
    unfolding PO_checked_def case_prod_beta by (intro db_intros R c e)
qed

lemma po_repo_ok [db_intros]:
  "preserving keeps_core (PO_repo_Create x)" "preserving keeps_core (PO_repo_Update x)" "preserving keeps_core (PO_repo_Delete i)"
  unfolding PO_repo_Create_def PO_repo_Update_def PO_repo_Delete_def by (intro db_intros; simp)+

lemma po_repo_audit [db_intros]:
  "preserving same_audit (PO_repo_Create x)" "preserving same_audit (PO_repo_Update x)" "preserving same_audit (PO_repo_Delete i)"
  unfolding PO_repo_Create_def PO_repo_Update_def PO_repo_Delete_def by (intro db_intros)+

lemma po_bodies_ok [db_intros]:
  "preserving keeps_core (PO_create_body env ctx x)" "preserving keeps_core (PO_update_body env ctx ent sid i props)"
  "preserving keeps_core (PO_delete_body env ctx ent sid i)"
  unfolding PO_create_body_def PO_update_body_def PO_delete_body_def by (intro db_intros)+

lemma po_create_audits:
  "audits (\<lambda>x' row. core_logged env ctx (po_entry env OpCreate (po_ID x') None (Some x')) row) (PO_create_body env ctx x)"
  unfolding PO_create_body_def
  by (intro audits_bind_right audits_context_ret db_intros) (simp_all add: po_entry_def)

lemma po_update_audits:
  "audits (\<lambda>x' row. \<exists>before. core_logged env ctx (po_entry env OpUpdate (po_ID x') (Some before) (Some x')) row)
     (PO_update_body env ctx ent sid i props)"
  unfolding PO_update_body_def
  by (intro audits_bind_right audits_context_ret db_intros) (auto simp: po_entry_def)

lemma po_delete_audits:
  "audits (\<lambda>_ row. \<exists>before. core_logged env ctx (po_entry env OpDelete i (Some before) None) row) (PO_delete_body env ctx ent sid i)"
  unfolding PO_delete_body_def
  by (intro audits_bind_right db_intros audits_weaken [OF audits_context]) (auto simp: po_entry_def)

end
