(* ===== verification/Webhooks.thy ===== *)
theory Webhooks
  imports Core_Tables
begin

section \<open>Webhook subscriptions (\<open>internal/webhook\<close>)\<close>

text \<open>
  A subscription binds a system to the URL its events are posted to. Model, repository and service of
  the subscriptions; the deliveries are in \<open>Dispatcher\<close>. What \<open>url.ParseRequestURI\<close> says of a URL is
  \<open>re_url\<close> of the environment.
\<close>

record subscription =
  su_ID :: uuid
  su_SystemID :: uuid
  su_CallbackURL :: string
  su_Active :: bool
  su_CreatedAt :: gotime
  su_UpdatedAt :: gotime

record hook_create_request =
  hc_CallbackURL :: string
  hc_Secret :: string

record hook_update_request =
  hu_CallbackURL :: "string option"
  hu_Active :: "bool option"

record hook_list_result =
  hl_Items :: "subscription list"
  hl_Total :: nat
  hl_Limit :: int
  hl_Offset :: int

definition su_json :: "render_env \<Rightarrow> subscription \<Rightarrow> json" where
  "su_json env x = JObj [(''id'', JStr (re_uuid env (su_ID x))), (''system_id'', JStr (re_uuid env (su_SystemID x))),
     (''callback_url'', JStr (su_CallbackURL x)), (''active'', JBool (su_Active x)),
     (''created_at'', JStr (re_time env (su_CreatedAt x))), (''updated_at'', JStr (re_time env (su_UpdatedAt x)))]"

definition su_of_row :: "webhook_row \<Rightarrow> subscription" where
  "su_of_row h = \<lparr>su_ID = wh_id h, su_SystemID = wh_system h, su_CallbackURL = wh_url h, su_Active = wh_active h,
     su_CreatedAt = wh_created h, su_UpdatedAt = wh_updated h\<rparr>"

subsection \<open>Statements\<close>

text \<open>Row level security covers the table; its deliveries go with a subscription.\<close>

definition webhooks :: "query_ctx \<Rightarrow> database \<Rightarrow> webhook_row list" where
  "webhooks q d = filter (\<lambda>h. visible q (Some (wh_system h))) (db_webhooks d)"

definition insert_webhook :: "uuid \<Rightarrow> string \<Rightarrow> string \<Rightarrow> bool \<Rightarrow> webhook_row statement" where
  "insert_webhook sys url secret active = (\<lambda>q d.
     let h = \<lparr>wh_id = q_uuid q, wh_system = sys, wh_url = url, wh_secret = secret, wh_active = active,
              wh_created = q_now q, wh_updated = q_now q\<rparr> in
     if \<not> system_check q d (Some sys) then pg_error ''P0001'' []
     else if \<not> visible q (Some sys) then pg_error ''42501'' []
     else if list_ex (\<lambda>h'. wh_id h' = wh_id h) (db_webhooks d) then pg_error ''23505'' ''webhook_subscription_pkey''
     else Inr (h, d\<lparr>db_webhooks := db_webhooks d @ [h]\<rparr>))"

definition update_webhooks :: "(webhook_row \<Rightarrow> bool) \<Rightarrow> (webhook_row \<Rightarrow> webhook_row) \<Rightarrow> webhook_row list statement" where
  "update_webhooks P f = (\<lambda>q d.
     let hit = (\<lambda>h. visible q (Some (wh_system h)) \<and> P h); upd = (\<lambda>h. (f h)\<lparr>wh_updated := q_now q\<rparr>)
     in Inr (map upd (filter hit (db_webhooks d)), d\<lparr>db_webhooks := map (\<lambda>h. if hit h then upd h else h) (db_webhooks d)\<rparr>))"

definition delete_webhooks :: "(webhook_row \<Rightarrow> bool) \<Rightarrow> nat statement" where
  "delete_webhooks P = (\<lambda>q d.
     let hit = (\<lambda>h. visible q (Some (wh_system h)) \<and> P h); gone = map wh_id (filter hit (db_webhooks d))
     in Inr (length gone, d\<lparr>db_webhooks := filter (\<lambda>h. \<not> hit h) (db_webhooks d),
          db_deliveries := filter (\<lambda>x. dl_subscription x \<notin> set gone) (db_deliveries d)\<rparr>))"

subsection \<open>Repository\<close>

definition Hook_repo_Create :: "subscription \<Rightarrow> string \<Rightarrow> subscription db" where
  "Hook_repo_Create x secret =
     bind (catch (exec (insert_webhook (su_SystemID x) (su_CallbackURL x) secret (su_Active x)))
             (\<lambda>e. if pg_code_is e ''23503'' then throw (Wrap ''system not found'' (WebhookE Webhook_ErrNotFound))
                  else throw (Wrap ''inserting webhook subscription'' e)))
       (\<lambda>h. ret (x\<lparr>su_ID := wh_id h, su_CreatedAt := wh_created h, su_UpdatedAt := wh_updated h\<rparr>))"

definition scanSubscription :: "(query_ctx \<Rightarrow> database \<Rightarrow> webhook_row list) \<Rightarrow> subscription db" where
  "scanSubscription f =
     catch (bind (query_row f) (\<lambda>h. ret (su_of_row h)))
       (\<lambda>e. if is_no_rows e then throw (WebhookE Webhook_ErrNotFound) else throw (Wrap ''scanning webhook subscription'' e))"

definition Hook_repo_GetByID :: "uuid \<Rightarrow> subscription db" where
  "Hook_repo_GetByID i = scanSubscription (\<lambda>q d. filter (\<lambda>h. wh_id h = i) (webhooks q d))"

definition system_hooks :: "uuid \<Rightarrow> query_ctx \<Rightarrow> database \<Rightarrow> webhook_row list" where
  "system_hooks sys q d = filter (\<lambda>h. wh_system h = sys) (webhooks q d)"

definition Hook_repo_List :: "uuid \<Rightarrow> int \<Rightarrow> int \<Rightarrow> (subscription list \<times> nat) db" where
  "Hook_repo_List sys limit offset =
     bind (wrap_err ''counting webhook subscriptions'' (query (\<lambda>q d. length (system_hooks sys q d)))) (\<lambda>total.
     bind (wrap_err ''listing webhook subscriptions'' (query_page limit offset
            (\<lambda>q d. sort_key wh_created (system_hooks sys q d)))) (\<lambda>rows.
     ret (map su_of_row rows, total)))"

definition Hook_repo_Update :: "subscription \<Rightarrow> subscription db" where
  "Hook_repo_Update x =
     bind (catch (scan_row (bind (exec (update_webhooks (\<lambda>h. wh_id h = su_ID x)
                    (\<lambda>h. h\<lparr>wh_url := su_CallbackURL x, wh_active := su_Active x\<rparr>)))
                 (\<lambda>rows. ret (case rows of [] \<Rightarrow> None | h # _ \<Rightarrow> Some (wh_updated h)))))
             (\<lambda>e. if is_no_rows e then throw (WebhookE Webhook_ErrNotFound)
                  else throw (Wrap ''updating webhook subscription'' e)))
       (\<lambda>t. ret (x\<lparr>su_UpdatedAt := t\<rparr>))"

definition Hook_repo_Delete :: "uuid \<Rightarrow> unit db" where
  "Hook_repo_Delete i =
     bind (wrap_err ''deleting webhook subscription'' (exec (delete_webhooks (\<lambda>h. wh_id h = i))))
       (\<lambda>n. if n = 0 then throw (WebhookE Webhook_ErrNotFound) else ret ())"

subsection \<open>Service\<close>

definition Hook_toAPIError :: "goerr \<Rightarrow> goerr" where
  "Hook_toAPIError = api_error [(WebhookE Webhook_ErrNotFound, api_NotFound ''webhook subscription'')]"

definition hook_entry :: "render_env \<Rightarrow> string \<Rightarrow> uuid \<Rightarrow> subscription option \<Rightarrow> subscription option \<Rightarrow> audit_entry" where
  "hook_entry env op i before after =
     entry_of op ''webhook_subscription'' i (map_option (su_json env) before) (map_option (su_json env) after)"

definition callback_check :: "render_env \<Rightarrow> string \<Rightarrow> APIError option" where
  "callback_check env url = (case re_url env url of
     None \<Rightarrow> None | Some e \<Rightarrow> Some (api_BadRequest [Lit ''callback_url must be a valid URL: '', Lit e]))"

definition hook_create_check :: "render_env \<Rightarrow> hook_create_request \<Rightarrow> APIError option" where
  "hook_create_check env req =
     (if hc_CallbackURL req = [] then Some (api_BadRequest [Lit ''callback_url is required''])
      else case callback_check env (hc_CallbackURL req) of
        Some a \<Rightarrow> Some a
      | None \<Rightarrow>
          if hc_Secret req = [] then Some (api_BadRequest [Lit ''secret is required''])
          else if length (hc_Secret req) < 16 then Some (api_BadRequest [Lit ''secret must be at least 16 characters''])
          else None)"

definition Hook_create_body :: "render_env \<Rightarrow> request_context \<Rightarrow> subscription \<Rightarrow> string \<Rightarrow> subscription db" where
  "Hook_create_body env ctx x secret =
     bind (Hook_repo_Create x secret) (\<lambda>x'.
     bind (WriteFromContext env ctx (hook_entry env OpCreate (su_ID x') None (Some x'))) (\<lambda>_. ret x'))"

definition Hook_Create :: "render_env \<Rightarrow> request_context \<Rightarrow> uuid \<Rightarrow> hook_create_request \<Rightarrow> subscription db" where
  "Hook_Create env ctx systemID req =
     bind (check (hook_create_check env req)) (\<lambda>_.
     map_err Hook_toAPIError (WithAuthScope ctx (Hook_create_body env ctx
       \<lparr>su_ID = uuid_Nil, su_SystemID = systemID, su_CallbackURL = hc_CallbackURL req, su_Active = True,
        su_CreatedAt = 0, su_UpdatedAt = 0\<rparr> (hc_Secret req))))"

definition Hook_GetByID :: "uuid \<Rightarrow> uuid \<Rightarrow> subscription db" where
  "Hook_GetByID systemID i =
     bind (map_err Hook_toAPIError (Hook_repo_GetByID i)) (\<lambda>x.
     if su_SystemID x \<noteq> systemID then reject (api_NotFound ''webhook subscription'') else ret x)"

definition Hook_List :: "uuid \<Rightarrow> int \<Rightarrow> int \<Rightarrow> hook_list_result db" where
  "Hook_List systemID limit0 offset =
     (let limit = clamp_limit 25 100 limit0 in
      bind (wrap_err ''listing webhook subscriptions'' (Hook_repo_List systemID limit offset)) (\<lambda>(items, total).
      ret \<lparr>hl_Items = items, hl_Total = total, hl_Limit = limit, hl_Offset = offset\<rparr>))"

definition hook_update_check :: "render_env \<Rightarrow> hook_update_request \<Rightarrow> APIError option" where
  "hook_update_check env req =
     (case hu_CallbackURL req of
        None \<Rightarrow> None
      | Some url \<Rightarrow> if url = [] then Some (api_BadRequest [Lit ''callback_url must not be empty'']) else callback_check env url)"

definition apply_hook_update :: "hook_update_request \<Rightarrow> subscription \<Rightarrow> subscription" where
  "apply_hook_update req x =
     (let x1 = (case hu_CallbackURL req of None \<Rightarrow> x | Some url \<Rightarrow> x\<lparr>su_CallbackURL := url\<rparr>)
      in case hu_Active req of None \<Rightarrow> x1 | Some b \<Rightarrow> x1\<lparr>su_Active := b\<rparr>)"

definition own_hook :: "uuid \<Rightarrow> uuid \<Rightarrow> subscription db" where
  "own_hook systemID i =
     bind (Hook_repo_GetByID i) (\<lambda>existing.
     if su_SystemID existing \<noteq> systemID then throw (WebhookE Webhook_ErrNotFound) else ret existing)"

definition Hook_update_body ::
  "render_env \<Rightarrow> request_context \<Rightarrow> uuid \<Rightarrow> uuid \<Rightarrow> hook_update_request \<Rightarrow> subscription db" where
  "Hook_update_body env ctx systemID i req =
     bind (own_hook systemID i) (\<lambda>existing.
     bind (Hook_repo_Update (apply_hook_update req existing)) (\<lambda>updated.
     bind (WriteFromContext env ctx (hook_entry env OpUpdate (su_ID updated) (Some existing) (Some updated))) (\<lambda>_.
     ret updated)))"

definition Hook_Update :: "render_env \<Rightarrow> request_context \<Rightarrow> uuid \<Rightarrow> uuid \<Rightarrow> hook_update_request \<Rightarrow> subscription db" where
  "Hook_Update env ctx systemID i req =
     bind (check (hook_update_check env req)) (\<lambda>_.
     map_err Hook_toAPIError (WithAuthScope ctx (Hook_update_body env ctx systemID i req)))"

definition Hook_delete_body :: "render_env \<Rightarrow> request_context \<Rightarrow> uuid \<Rightarrow> uuid \<Rightarrow> unit db" where
  "Hook_delete_body env ctx systemID i =
     bind (own_hook systemID i) (\<lambda>existing.
     bind (Hook_repo_Delete i) (\<lambda>_.
     WriteFromContext env ctx (hook_entry env OpDelete i (Some existing) None)))"

definition Hook_Delete :: "render_env \<Rightarrow> request_context \<Rightarrow> uuid \<Rightarrow> uuid \<Rightarrow> unit db" where
  "Hook_Delete env ctx systemID i = map_err Hook_toAPIError (WithAuthScope ctx (Hook_delete_body env ctx systemID i))"

subsection \<open>Laws\<close>

lemma core_ok_hooks: "core_ok (d\<lparr>db_webhooks := hs\<rparr>) = core_ok d" "core_ok (d\<lparr>db_deliveries := ds\<rparr>) = core_ok d"
  by (simp_all add: core_ok_def db_ok_def entity_ids_def type_ids_def)

lemma hook_statements [db_intros]:
  "preserving keeps_core (exec (insert_webhook sys url sec act))" "preserving keeps_core (exec (update_webhooks P f))"
  "preserving keeps_core (exec (delete_webhooks P))"
  "preserving same_audit (exec (insert_webhook sys url sec act))" "preserving same_audit (exec (update_webhooks P f))"
  "preserving same_audit (exec (delete_webhooks P))"
  by (rule preserving_exec; auto simp: keeps_core_def same_audit_def insert_webhook_def update_webhooks_def delete_webhooks_def
      core_ok_hooks pg_error_def Let_def intro: reflpI split: if_splits)+

lemma hook_reads [db_intros]:
  assumes "reflp R" "transp R"
  shows "preserving R (Hook_repo_GetByID i)" "preserving R (Hook_repo_List i l off)" "preserving R (own_hook i j)"
proof -
  show g: "preserving R (Hook_repo_GetByID i)" for i
    unfolding Hook_repo_GetByID_def scanSubscription_def by (intro db_intros assms)
  show "preserving R (Hook_repo_List i l off)" unfolding Hook_repo_List_def by (intro db_intros assms)
  show "preserving R (own_hook i j)" unfolding own_hook_def by (intro db_intros assms g)
qed

lemma hook_repo_ok [db_intros]:
  "preserving keeps_core (Hook_repo_Create x sec)" "preserving keeps_core (Hook_repo_Update x)" "preserving keeps_core (Hook_repo_Delete i)"
  unfolding Hook_repo_Create_def Hook_repo_Update_def Hook_repo_Delete_def by (intro db_intros)+

lemma hook_repo_audit [db_intros]:
  "preserving same_audit (Hook_repo_Create x sec)" "preserving same_audit (Hook_repo_Update x)" "preserving same_audit (Hook_repo_Delete i)"
  unfolding Hook_repo_Create_def Hook_repo_Update_def Hook_repo_Delete_def by (intro db_intros)+

lemma hook_bodies_ok [db_intros]:
  "preserving keeps_core (Hook_create_body env ctx x sec)" "preserving keeps_core (Hook_update_body env ctx sid i req)"
  "preserving keeps_core (Hook_delete_body env ctx sid i)"
  unfolding Hook_create_body_def Hook_update_body_def Hook_delete_body_def by (intro db_intros)+

lemma hook_create_audits:
  "audits (\<lambda>x' row. core_logged env ctx (hook_entry env OpCreate (su_ID x') None (Some x')) row) (Hook_create_body env ctx x sec)"
  unfolding Hook_create_body_def
  by (intro audits_bind_right audits_context_ret db_intros) (simp_all add: hook_entry_def)

lemma hook_delete_audits:
  "audits (\<lambda>_ row. \<exists>before. core_logged env ctx (hook_entry env OpDelete i (Some before) None) row) (Hook_delete_body env ctx sid i)"
  unfolding Hook_delete_body_def
  by (intro audits_bind_right db_intros audits_weaken [OF audits_context]) (auto simp: hook_entry_def)

end
