(* ===== verification/Core_Services.thy ===== *)
theory Core_Services
  imports Systems Relations Overlays Webhooks
begin

section \<open>The management requests\<close>

text \<open>
  Every mutation of the management services as one type of request, and what holds of all of them:
  one audit record per change or no change at all, and the integrity of the tables, whatever sequence
  of requests arrives and whatever fails on the way.
\<close>

datatype core_request =
    CreateType et_create_request | UpdateType uuid et_update_request | DeleteType uuid
  | CreateEntity ent_create_request | UpdateEntity uuid raw | DeleteEntity uuid
  | BulkEntities "ent_create_request list" string
  | CreateSystem sys_create_request | PatchSystem uuid sys_patch_request
  | CreateRelation rel_create_request | DeleteRelation uuid
  | CreateSchema uuid os_create_request | UpdateSchema uuid uuid raw | DeleteSchema uuid uuid
  | CreateOverlay uuid raw | UpdateOverlay uuid uuid raw | DeleteOverlay uuid uuid
  | CreateHook uuid hook_create_request | UpdateHook uuid uuid hook_update_request | DeleteHook uuid uuid

fun core_serve :: "'s schema_lib \<Rightarrow> render_env \<Rightarrow> request_context \<Rightarrow> core_request \<Rightarrow> unit db" where
  "core_serve lib env ctx (CreateType req) = quietly (ET_Create lib env ctx req)"
| "core_serve lib env ctx (UpdateType i req) = quietly (ET_Update lib env ctx i req)"
| "core_serve lib env ctx (DeleteType i) = ET_Delete env ctx i"
| "core_serve lib env ctx (CreateEntity req) = quietly (Ent_Create lib env ctx req)"
| "core_serve lib env ctx (UpdateEntity i props) = quietly (Ent_Update lib env ctx i props)"
| "core_serve lib env ctx (DeleteEntity i) = Ent_Delete env ctx i"
| "core_serve lib env ctx (BulkEntities items mode) = quietly (BulkCreate lib env ctx items mode)"
| "core_serve lib env ctx (CreateSystem req) = quietly (Sys_Create env ctx req)"
| "core_serve lib env ctx (PatchSystem i req) = quietly (Sys_Patch env ctx i req)"
| "core_serve lib env ctx (CreateRelation req) = quietly (Rel_Create env ctx req)"
| "core_serve lib env ctx (DeleteRelation i) = Rel_Delete env ctx i"
| "core_serve lib env ctx (CreateSchema sid req) = quietly (OS_Create lib env ctx sid req)"
| "core_serve lib env ctx (UpdateSchema sid i props) = quietly (OS_Update lib env ctx sid i props)"
| "core_serve lib env ctx (DeleteSchema sid i) = OS_Delete env ctx sid i"
| "core_serve lib env ctx (CreateOverlay ent props) = quietly (PO_Create lib env ctx ent props)"
| "core_serve lib env ctx (UpdateOverlay ent i props) = quietly (PO_Update lib env ctx ent i props)"
| "core_serve lib env ctx (DeleteOverlay ent i) = PO_Delete env ctx ent i"
| "core_serve lib env ctx (CreateHook sid req) = quietly (Hook_Create env ctx sid req)"
| "core_serve lib env ctx (UpdateHook sid i req) = quietly (Hook_Update env ctx sid i req)"
| "core_serve lib env ctx (DeleteHook sid i) = Hook_Delete env ctx sid i"

fun core_run :: "'s schema_lib \<Rightarrow> render_env \<Rightarrow> world \<Rightarrow> (request_context \<times> core_request) list \<Rightarrow> sess \<Rightarrow> sess" where
  "core_run lib env w [] s = s"
| "core_run lib env w ((ctx, r) # rs) s = core_run lib env w rs (snd (core_serve lib env ctx r w s))"

subsection \<open>What the record of a request says\<close>

fun request_op :: "core_request \<Rightarrow> string \<times> string \<times> uuid option" where
  "request_op (CreateType _) = (OpCreate, ''entity_type_definition'', None)"
| "request_op (UpdateType i _) = (OpUpdate, ''entity_type_definition'', Some i)"
| "request_op (DeleteType i) = (OpDelete, ''entity_type_definition'', Some i)"
| "request_op (CreateEntity _) = (OpCreate, ''entity'', None)"
| "request_op (UpdateEntity i _) = (OpUpdate, ''entity'', Some i)"
| "request_op (DeleteEntity i) = (OpDelete, ''entity'', Some i)"
| "request_op (BulkEntities _ _) = (OpCreate, ''entity'', None)"
| "request_op (CreateSystem _) = (OpCreate, ''system'', None)"
| "request_op (PatchSystem i _) = (OpUpdate, ''system'', Some i)"
| "request_op (CreateRelation _) = (OpCreate, ''relation'', None)"
| "request_op (DeleteRelation i) = (OpDelete, ''relation'', Some i)"
| "request_op (CreateSchema _ _) = (OpCreate, ''system_overlay_schema'', None)"
| "request_op (UpdateSchema _ i _) = (OpUpdate, ''system_overlay_schema'', Some i)"
| "request_op (DeleteSchema _ i) = (OpDelete, ''system_overlay_schema'', Some i)"
| "request_op (CreateOverlay _ _) = (OpCreate, ''property_overlay'', None)"
| "request_op (UpdateOverlay _ i _) = (OpUpdate, ''property_overlay'', Some i)"
| "request_op (DeleteOverlay _ i) = (OpDelete, ''property_overlay'', Some i)"
| "request_op (CreateHook _ _) = (OpCreate, ''webhook_subscription'', None)"
| "request_op (UpdateHook _ i _) = (OpUpdate, ''webhook_subscription'', Some i)"
| "request_op (DeleteHook _ i) = (OpDelete, ''webhook_subscription'', Some i)"

definition op_logged :: "render_env \<Rightarrow> request_context \<Rightarrow> string \<times> string \<times> uuid option \<Rightarrow> audit_row \<Rightarrow> bool" where
  "op_logged env ctx = (\<lambda>(op, rtype, target) row.
     (\<exists>i. ctx = Some i \<and> au_actor row = ActorString (re_uuid env) i \<and> au_system row = id_ActiveSystemID i)
     \<and> au_operation row = op \<and> au_resource_type row = rtype \<and> (target = None \<or> target = Some (au_resource_id row))
     \<and> (au_before row = None \<longleftrightarrow> op = OpCreate) \<and> (au_after row = None \<longleftrightarrow> op = OpDelete))"

lemma ops_distinct [simp]: "OpCreate \<noteq> OpUpdate" "OpCreate \<noteq> OpDelete" "OpUpdate \<noteq> OpDelete"
  "OpUpdate \<noteq> OpCreate" "OpDelete \<noteq> OpCreate" "OpDelete \<noteq> OpUpdate"
  by (simp_all add: OpCreate_def OpUpdate_def OpDelete_def)

lemma op_loggedI:
  assumes "core_logged env ctx (entry_of op rtype i before after) row" "target = None \<or> target = Some i"
    and "before = None \<longleftrightarrow> op = OpCreate" "after = None \<longleftrightarrow> op = OpDelete"
  shows "op_logged env ctx (op, rtype, target) row"
  using assms by (auto simp: core_logged_def op_logged_def)

lemma entry_defs: "et_entry env op i b a = entry_of op ''entity_type_definition'' i (map_option (et_json env) b) (map_option (et_json env) a)"
  "ent_entry env op i b' a' = entry_of op ''entity'' i (map_option (ent_json env) b') (map_option (ent_json env) a')"
  "sys_entry env op i b2 a2 = entry_of op ''system'' i (map_option (sys_json env) b2) (map_option (sys_json env) a2)"
  "rel_entry env op i b3 a3 = entry_of op ''relation'' i (map_option (rel_json env) b3) (map_option (rel_json env) a3)"
  "os_entry env op i b4 a4 = entry_of op ''system_overlay_schema'' i (map_option (os_json env) b4) (map_option (os_json env) a4)"
  "po_entry env op i b5 a5 = entry_of op ''property_overlay'' i (map_option (po_json env) b5) (map_option (po_json env) a5)"
  "hook_entry env op i b6 a6 = entry_of op ''webhook_subscription'' i (map_option (su_json env) b6) (map_option (su_json env) a6)"
  by (simp_all add: et_entry_def ent_entry_def sys_entry_def rel_entry_def os_entry_def po_entry_def hook_entry_def)

text \<open>A read or an update names the row it was asked for.\<close>

lemma audits_bind_known:
  assumes "preserving same_audit m" "\<And>x w s s'. m w s = (Inr x, s') \<Longrightarrow> audits P (f x)"
  shows "audits P (bind m f)"
proof (rule auditsI)
  fix w s y s'
  assume "bind m f w s = (Inr y, s')"
  then obtain x s1 where m: "m w s = (Inr x, s1)" and f: "f x w s1 = (Inr y, s')" by (auto simp: bind_Inr)
  have "db_audit (s_db s1) = db_audit (s_db s)"
    using preservingD(1) [OF assms(1) m] by (simp add: same_audit_def)
  with auditsD [OF assms(2) [OF m] f] show "\<exists>row. db_audit (s_db s') = db_audit (s_db s) @ [row] \<and> P y row" by simp
qed

lemma read_ids:
  "ET_repo_GetByID i w s = (Inr x1, s') \<Longrightarrow> et_ID x1 = i"
  "Ent_repo_GetByID i w s = (Inr x2, s') \<Longrightarrow> ent_ID x2 = i"
  "Sys_repo_GetByID i w s = (Inr x3, s') \<Longrightarrow> sy_ID x3 = i"
  "own_schema sid i w s = (Inr x4, s') \<Longrightarrow> os_ID x4 = i \<and> os_SystemID x4 = sid"
  "own_overlay ent sid i w s = (Inr x5, s') \<Longrightarrow> po_ID x5 = i \<and> po_SystemID x5 = sid \<and> po_EntityID x5 = ent"
  "own_hook sid i w s = (Inr x6, s') \<Longrightarrow> su_ID x6 = i \<and> su_SystemID x6 = sid"
proof -
  show "own_hook sid i w s = (Inr x6, s') \<Longrightarrow> su_ID x6 = i \<and> su_SystemID x6 = sid"
    by (auto simp: own_hook_def Hook_repo_GetByID_def scanSubscription_def bind_Inr su_of_row_def filter_eq_Cons_iff dest!: query_row_Inr split: if_splits)
  show "ET_repo_GetByID i w s = (Inr x1, s') \<Longrightarrow> et_ID x1 = i"
    by (auto simp: ET_repo_GetByID_def bind_Inr et_of_row_def filter_eq_Cons_iff dest!: query_row_Inr)
  show "Ent_repo_GetByID i w s = (Inr x2, s') \<Longrightarrow> ent_ID x2 = i"
    by (auto simp: Ent_repo_GetByID_def scanEntity_def bind_Inr ent_of_row_def filter_eq_Cons_iff split: prod.splits dest!: query_row_Inr)
  show "own_schema sid i w s = (Inr x4, s') \<Longrightarrow> os_ID x4 = i \<and> os_SystemID x4 = sid"
    by (auto simp: own_schema_def OS_repo_GetByID_def bind_Inr os_of_row_def filter_eq_Cons_iff dest!: query_row_Inr split: if_splits)
  show "own_overlay ent sid i w s = (Inr x5, s') \<Longrightarrow> po_ID x5 = i \<and> po_SystemID x5 = sid \<and> po_EntityID x5 = ent"
    by (auto simp: own_overlay_def PO_repo_GetByID_def scanOverlay_def bind_Inr po_of_row_def filter_eq_Cons_iff dest!: query_row_Inr split: if_splits)
  show "Sys_repo_GetByID i w s = (Inr x3, s') \<Longrightarrow> sy_ID x3 = i"
  proof -
    assume "Sys_repo_GetByID i w s = (Inr x3, s')"
    then have "exec (select_system i) w s = (Inr (Some x3), s')" by (simp add: Sys_repo_GetByID_def)
    then obtain q where "select_system i q (s_db s) = Inr (Some x3, s_db s')" by (elim exec_Inr_ctx)
    then show ?thesis
      by (auto simp: select_system_def system_of_row_def filter_eq_Cons_iff split: list.splits sum.splits)
  qed
qed

lemma update_ids:
  "ET_repo_Update x1 w s = (Inr y1, s') \<Longrightarrow> et_ID y1 = et_ID x1"
  "Ent_repo_Update x2 w s = (Inr y2, s') \<Longrightarrow> ent_ID y2 = ent_ID x2"
  "Sys_repo_Update x3 w s = (Inr y3, s') \<Longrightarrow> sy_ID y3 = sy_ID x3"
  "OS_repo_Update x4 w s = (Inr y4, s') \<Longrightarrow> os_ID y4 = os_ID x4"
  "PO_repo_Update x5 w s = (Inr y5, s') \<Longrightarrow> po_ID y5 = po_ID x5"
  "Hook_repo_Update x6 w s = (Inr y6, s') \<Longrightarrow> su_ID y6 = su_ID x6"
  by (auto simp: ET_repo_Update_def Ent_repo_Update_def Sys_repo_Update_def OS_repo_Update_def PO_repo_Update_def
      Hook_repo_Update_def bind_Inr)

subsection \<open>Every body writes its record\<close>

lemma create_audits:
  "audits (\<lambda>_. op_logged env ctx (OpCreate, ''entity_type_definition'', None)) (ET_create_body env ctx etd)"
  "audits (\<lambda>_. op_logged env ctx (OpCreate, ''entity'', None)) (Ent_create_body env ctx e)"
  "audits (\<lambda>_. op_logged env ctx (OpCreate, ''system'', None)) (Sys_create_body env ctx s)"
  "audits (\<lambda>_. op_logged env ctx (OpCreate, ''relation'', None)) (Rel_create_body env ctx req)"
  "audits (\<lambda>_. op_logged env ctx (OpCreate, ''system_overlay_schema'', None)) (OS_create_body env ctx os)"
  "audits (\<lambda>_. op_logged env ctx (OpCreate, ''property_overlay'', None)) (PO_create_body env ctx po)"
  "audits (\<lambda>_. op_logged env ctx (OpCreate, ''webhook_subscription'', None)) (Hook_create_body env ctx su sec)"
  by (rule audits_weaken [OF et_create_audits] audits_weaken [OF ent_create_audits] audits_weaken [OF sys_create_audits]
      audits_weaken [OF rel_create_audits] audits_weaken [OF os_create_audits] audits_weaken [OF po_create_audits]
      audits_weaken [OF hook_create_audits],
      unfold entry_defs, erule op_loggedI; simp)+

lemma delete_audits:
  "audits (\<lambda>_. op_logged env ctx (OpDelete, ''entity_type_definition'', Some i)) (ET_delete_body env ctx i)"
  "audits (\<lambda>_. op_logged env ctx (OpDelete, ''entity'', Some i)) (Ent_delete_body env ctx i)"
  "audits (\<lambda>_. op_logged env ctx (OpDelete, ''relation'', Some i)) (Rel_delete_body env ctx i)"
  "audits (\<lambda>_. op_logged env ctx (OpDelete, ''system_overlay_schema'', Some i)) (OS_delete_body env ctx sid i)"
  "audits (\<lambda>_. op_logged env ctx (OpDelete, ''property_overlay'', Some i)) (PO_delete_body env ctx ent sid i)"
  "audits (\<lambda>_. op_logged env ctx (OpDelete, ''webhook_subscription'', Some i)) (Hook_delete_body env ctx sid i)"
  by (rule audits_weaken [OF et_delete_audits] audits_weaken [OF ent_delete_audits] audits_weaken [OF rel_delete_audits]
      audits_weaken [OF os_delete_audits] audits_weaken [OF po_delete_audits] audits_weaken [OF hook_delete_audits],
      unfold entry_defs, elim exE, erule op_loggedI; simp)+

lemma update_record:
  assumes "preserving same_audit m" "\<And>u w s s'. m w s = (Inr u, s') \<Longrightarrow> idf u = i"
  shows "audits (\<lambda>_. op_logged env ctx (OpUpdate, rtype, Some i))
     (bind m (\<lambda>u. bind (WriteFromContext env ctx (entry_of OpUpdate rtype (idf u) (Some before) (Some (after u)))) (\<lambda>_. ret u)))"
proof (rule audits_bind_known [OF assms(1)])
  fix u w s s' assume "m w s = (Inr u, s')"
  with assms(2) have "idf u = i" by blast
  then show "audits (\<lambda>_. op_logged env ctx (OpUpdate, rtype, Some i))
     (bind (WriteFromContext env ctx (entry_of OpUpdate rtype (idf u) (Some before) (Some (after u)))) (\<lambda>_. ret u))"
    by (intro audits_context_ret) (auto intro: op_loggedI)
qed

lemma update_audits:
  "audits (\<lambda>_. op_logged env ctx (OpUpdate, ''entity_type_definition'', Some i)) (ET_update_body env ctx i req)"
  "audits (\<lambda>_. op_logged env ctx (OpUpdate, ''entity'', Some i)) (Ent_update_body lib env ctx i props)"
  "audits (\<lambda>_. op_logged env ctx (OpUpdate, ''system'', Some i)) (Sys_patch_body env ctx i preq)"
  "audits (\<lambda>_. op_logged env ctx (OpUpdate, ''system_overlay_schema'', Some i)) (OS_update_body env ctx sid i props)"
  "audits (\<lambda>_. op_logged env ctx (OpUpdate, ''property_overlay'', Some i)) (PO_update_body env ctx ent sid i props)"
  "audits (\<lambda>_. op_logged env ctx (OpUpdate, ''webhook_subscription'', Some i)) (Hook_update_body env ctx sid i hreq)"
proof -
  have same: "su_ID (apply_hook_update hreq x) = su_ID x" for x
    by (simp add: apply_hook_update_def Let_def split: option.splits)
  show "audits (\<lambda>_. op_logged env ctx (OpUpdate, ''webhook_subscription'', Some i)) (Hook_update_body env ctx sid i hreq)"
    unfolding Hook_update_body_def entry_defs option.map
    by (rule audits_bind_known, intro db_intros)
      (intro update_record db_intros, auto simp: same dest!: read_ids(6) update_ids(6))
  show "audits (\<lambda>_. op_logged env ctx (OpUpdate, ''entity_type_definition'', Some i)) (ET_update_body env ctx i req)"
    unfolding ET_update_body_def entry_defs option.map
    by (rule audits_bind_known, intro db_intros)
      (intro audits_bind_right update_record db_intros, auto dest!: read_ids(1) update_ids(1))
  show "audits (\<lambda>_. op_logged env ctx (OpUpdate, ''entity'', Some i)) (Ent_update_body lib env ctx i props)"
    unfolding Ent_update_body_def entry_defs option.map
    by (rule audits_bind_known, intro db_intros)
      (intro audits_bind_right update_record db_intros, auto dest!: read_ids(2) update_ids(2))
  show "audits (\<lambda>_. op_logged env ctx (OpUpdate, ''system'', Some i)) (Sys_patch_body env ctx i preq)"
    unfolding Sys_patch_body_def entry_defs option.map
    by (rule audits_bind_known, intro db_intros)
      (intro update_record db_intros, auto simp: apply_patch_def dest!: read_ids(3) update_ids(3))
  show "audits (\<lambda>_. op_logged env ctx (OpUpdate, ''system_overlay_schema'', Some i)) (OS_update_body env ctx sid i props)"
    unfolding OS_update_body_def entry_defs option.map
    by (rule audits_bind_known, intro db_intros)
      (intro update_record db_intros, auto dest!: read_ids(4) update_ids(4))
  show "audits (\<lambda>_. op_logged env ctx (OpUpdate, ''property_overlay'', Some i)) (PO_update_body env ctx ent sid i props)"
    unfolding PO_update_body_def entry_defs option.map
    by (rule audits_bind_known, intro db_intros)
      (intro update_record db_intros, auto dest!: read_ids(5) update_ids(5))
qed

subsection \<open>Whole requests\<close>

lemmas bodies_ok = et_bodies_ok ent_bodies_ok sys_bodies_ok rel_bodies_ok os_bodies_ok po_bodies_ok
  hook_bodies_ok

lemmas bodies_snapshot = bodies_ok [THEN preserving_keeps_snapshot]

lemma atomic_body:
  assumes "preserving keeps_core m" "audits (\<lambda>_. P) m" "\<And>n. \<not> w_indoubt w n"
  shows "atomic w P (map_err g (WithAuthScope ctx m))"
  by (rule atomic_map_err, rule atomic_scope [OF preserving_keeps_snapshot [OF assms(1)] assms(2,3)])

lemma safe_body:
  assumes "preserving keeps_core m"
  shows "safe keeps_core (map_err g (WithAuthScope ctx m))"
  by (intro safe_map_err safe_scope keeps_core_props preserving_keeps_snapshot [OF assms] preserving_ensures [OF assms])

lemma same_db_frame: "preserving same_db (check r)" "preserving same_db (MustIdentity ctx)"
  by (intro preserving_frame same_db_props)+

lemmas service_defs = ET_Create_def ET_Update_def ET_Delete_def Ent_Create_def Ent_Update_def Ent_Delete_def
  Sys_Create_def Sys_Patch_def Rel_Create_def Rel_Delete_def OS_Create_def OS_Update_def OS_Delete_def
  PO_Create_def PO_Update_def PO_Delete_def Hook_Create_def Hook_Update_def Hook_Delete_def

lemma atomic_requests:
  assumes w: "\<And>n. \<not> w_indoubt w n"
  shows "atomic w (op_logged env ctx (OpCreate, ''entity_type_definition'', None)) (ET_Create lib env ctx ecr)"
    "atomic w (op_logged env ctx (OpUpdate, ''entity_type_definition'', Some i)) (ET_Update lib env ctx i eur)"
    "atomic w (op_logged env ctx (OpDelete, ''entity_type_definition'', Some i)) (ET_Delete env ctx i)"
    "atomic w (op_logged env ctx (OpCreate, ''entity'', None)) (Ent_Create lib env ctx cr)"
    "atomic w (op_logged env ctx (OpUpdate, ''entity'', Some i)) (Ent_Update lib env ctx i props)"
    "atomic w (op_logged env ctx (OpDelete, ''entity'', Some i)) (Ent_Delete env ctx i)"
    "atomic w (op_logged env ctx (OpCreate, ''system'', None)) (Sys_Create env ctx scr)"
    "atomic w (op_logged env ctx (OpUpdate, ''system'', Some i)) (Sys_Patch env ctx i spr)"
    "atomic w (op_logged env ctx (OpCreate, ''relation'', None)) (Rel_Create env ctx rcr)"
    "atomic w (op_logged env ctx (OpDelete, ''relation'', Some i)) (Rel_Delete env ctx i)"
    "atomic w (op_logged env ctx (OpCreate, ''system_overlay_schema'', None)) (OS_Create lib env ctx sid ocr)"
    "atomic w (op_logged env ctx (OpUpdate, ''system_overlay_schema'', Some i)) (OS_Update lib env ctx sid i props)"
    "atomic w (op_logged env ctx (OpDelete, ''system_overlay_schema'', Some i)) (OS_Delete env ctx sid i)"
    "atomic w (op_logged env ctx (OpCreate, ''property_overlay'', None)) (PO_Create lib env ctx ent props)"
    "atomic w (op_logged env ctx (OpUpdate, ''property_overlay'', Some i)) (PO_Update lib env ctx ent i props)"
    "atomic w (op_logged env ctx (OpDelete, ''property_overlay'', Some i)) (PO_Delete env ctx ent i)"
    "atomic w (op_logged env ctx (OpCreate, ''webhook_subscription'', None)) (Hook_Create env ctx sid hcr)"
    "atomic w (op_logged env ctx (OpUpdate, ''webhook_subscription'', Some i)) (Hook_Update env ctx sid i hur)"
    "atomic w (op_logged env ctx (OpDelete, ''webhook_subscription'', Some i)) (Hook_Delete env ctx sid i)"
  unfolding service_defs case_prod_beta
  by (intro atomic_read atomic_if atomic_reject atomic_body create_audits update_audits delete_audits bodies_ok w
      same_db_frame same_db_props db_intros)+

lemma safe_requests:
  "safe keeps_core (ET_Create lib env ctx ecr)" "safe keeps_core (ET_Update lib env ctx i eur)"
  "safe keeps_core (ET_Delete env ctx i)" "safe keeps_core (Ent_Create lib env ctx cr)"
  "safe keeps_core (Ent_Update lib env ctx i props)" "safe keeps_core (Ent_Delete env ctx i)"
  "safe keeps_core (Sys_Create env ctx scr)" "safe keeps_core (Sys_Patch env ctx i spr)"
  "safe keeps_core (Rel_Create env ctx rcr)" "safe keeps_core (Rel_Delete env ctx i)"
  "safe keeps_core (OS_Create lib env ctx sid ocr)" "safe keeps_core (OS_Update lib env ctx sid i props)"
  "safe keeps_core (OS_Delete env ctx sid i)" "safe keeps_core (PO_Create lib env ctx ent props)"
  "safe keeps_core (PO_Update lib env ctx ent i props)" "safe keeps_core (PO_Delete env ctx ent i)"
  "safe keeps_core (Hook_Create env ctx sid hcr)"
  "safe keeps_core (Hook_Update env ctx sid i hur)" "safe keeps_core (Hook_Delete env ctx sid i)"
proof -
  have rd: "safe keeps_core m" if "\<And>R. reflp R \<Longrightarrow> transp R \<Longrightarrow> preserving R m" for m :: "'x db"
    by (rule safe_read [OF that]) (simp_all add: keeps_core_props)
  have rj: "safe keeps_core (reject a :: 'y db)" for a
    unfolding reject_def by (rule safe_simple(2)) (simp add: keeps_core_props)
  note rules = safe_bind [OF keeps_core_props(2)] safe_simple(4) rj safe_body bodies_ok
  show "safe keeps_core (ET_Create lib env ctx ecr)" "safe keeps_core (ET_Update lib env ctx i eur)"
    "safe keeps_core (ET_Delete env ctx i)" "safe keeps_core (Ent_Create lib env ctx cr)"
    "safe keeps_core (Ent_Update lib env ctx i props)" "safe keeps_core (Ent_Delete env ctx i)"
    "safe keeps_core (Sys_Create env ctx scr)" "safe keeps_core (Sys_Patch env ctx i spr)"
    "safe keeps_core (Rel_Create env ctx rcr)" "safe keeps_core (Rel_Delete env ctx i)"
    "safe keeps_core (OS_Create lib env ctx sid ocr)" "safe keeps_core (OS_Update lib env ctx sid i props)"
    "safe keeps_core (OS_Delete env ctx sid i)" "safe keeps_core (PO_Create lib env ctx ent props)"
    "safe keeps_core (PO_Update lib env ctx ent i props)" "safe keeps_core (PO_Delete env ctx ent i)"
  "safe keeps_core (Hook_Create env ctx sid hcr)"
  "safe keeps_core (Hook_Update env ctx sid i hur)" "safe keeps_core (Hook_Delete env ctx sid i)"
    unfolding service_defs case_prod_beta
    by (intro rules | rule rd, (intro db_intros; assumption))+
qed

subsection \<open>Bulk requests\<close>

text \<open>All or nothing with the value returned: what the value says of the record.\<close>

definition outcome :: "world \<Rightarrow> ('a \<Rightarrow> audit_row \<Rightarrow> bool) \<Rightarrow> 'a db \<Rightarrow> bool" where
  "outcome w Q m \<longleftrightarrow> (\<forall>(s :: sess) r s'. s_tx s = None \<longrightarrow> m w s = (r, s') \<longrightarrow>
     (case r of Inl e \<Rightarrow> s_db s' = s_db s | Inr x \<Rightarrow> \<exists>row. db_audit (s_db s') = db_audit (s_db s) @ [row] \<and> Q x row))"

lemma outcomeD:
  "outcome w Q m \<Longrightarrow> m w s = (r, s') \<Longrightarrow> s_tx (s :: sess) = None \<Longrightarrow>
     (case r of Inl e \<Rightarrow> s_db s' = s_db s | Inr x \<Rightarrow> \<exists>row. db_audit (s_db s') = db_audit (s_db s) @ [row] \<and> Q x row)"
  unfolding outcome_def by blast

lemma outcome_map:
  assumes "outcome w Q m" "\<And>x row. Q x row \<Longrightarrow> Q' (f x) row"
  shows "outcome w Q' (bind m (\<lambda>x. ret (f x)))"
  unfolding outcome_def
proof (intro allI impI)
  fix s :: sess and r s'
  assume s: "s_tx s = None" and run: "bind m (\<lambda>x. ret (f x)) w s = (r, s')"
  obtain x s1 where m: "m w s = (x, s1)" by fastforce
  from outcomeD [OF assms(1) m s] run m assms(2)
  show "case r of Inl e \<Rightarrow> s_db s' = s_db s | Inr x \<Rightarrow> \<exists>row. db_audit (s_db s') = db_audit (s_db s) @ [row] \<and> Q' x row"
    by (cases x) (auto simp: bind_def ret_def)
qed

lemma atomic_outcome: "atomic w P m \<Longrightarrow> outcome w (\<lambda>_. P) m"
  unfolding outcome_def using atomicD by blast

lemma outcome_return:
  assumes "atomic w P m" "\<And>row. P row \<Longrightarrow> Q y row"
  shows "outcome w Q (bind m (\<lambda>_. ret y))"
  by (rule outcome_map [OF atomic_outcome [OF assms(1)]]) (rule assms(2))

lemma outcome_read:
  assumes "preserving same_db m" "\<And>x. outcome w Q (f x)"
  shows "outcome w Q (bind m f)"
  unfolding outcome_def
proof (intro allI impI)
  fix s :: sess and r s'
  assume s: "s_tx s = None" and run: "bind m f w s = (r, s')"
  obtain x s1 where m: "m w s = (x, s1)" by fastforce
  from preservingD(1) [OF assms(1) m] keeps_no_tx [OF assms(1) m s] have 1: "s_db s1 = s_db s" "s_tx s1 = None"
    by (simp_all add: same_db_def)
  show "case r of Inl e \<Rightarrow> s_db s' = s_db s | Inr x \<Rightarrow> \<exists>row. db_audit (s_db s') = db_audit (s_db s) @ [row] \<and> Q x row"
  proof (cases x)
    case (Inl e)
    with run m 1 show ?thesis by (auto simp: bind_def)
  next
    case (Inr y)
    with run m have "f y w s1 = (r, s')" by (simp add: bind_def)
    from outcomeD [OF assms(2) this 1(2)] show ?thesis unfolding 1 .
  qed
qed

lemma safe_catch:
  assumes "transp R" "safe R m" "\<And>e. safe R (h e)"
  shows "safe R (catch m h)"
  unfolding safe_def
proof (intro allI impI)
  fix w and s :: sess assume s: "s_tx s = None"
  obtain r s1 where m: "m w s = (r, s1)" by fastforce
  from safeD [OF assms(2) s, of w] m have 1: "R (s_db s) (s_db s1)" "s_tx s1 = None" by simp_all
  show "R (s_db s) (s_db (snd (catch m h w s))) \<and> s_tx (snd (catch m h w s)) = None"
    using 1 safeD [OF assms(3) 1(2)] transpD [OF assms(1) 1(1)] by (cases r) (auto simp: catch_def m)
qed

definition item_op :: "bool \<Rightarrow> string \<times> string \<times> uuid option" where
  "item_op created = (if created then OpCreate else OpUpdate, ''entity'', None)"

lemma createOrUpdate_outcome:
  assumes "\<And>n. \<not> w_indoubt w n"
  shows "outcome w (\<lambda>created. op_logged env ctx (item_op created)) (createOrUpdate lib env ctx req)"
proof -
  have up: "op_logged env ctx (OpUpdate, ''entity'', Some i) row \<Longrightarrow> op_logged env ctx (item_op False) row" for i row
    by (auto simp: op_logged_def item_op_def)
  have cr: "op_logged env ctx (OpCreate, ''entity'', None) row \<Longrightarrow> op_logged env ctx (item_op True) row" for row
    by (simp add: item_op_def)
  have c: "outcome w (\<lambda>created. op_logged env ctx (item_op created)) (bind (Ent_Create lib env ctx r) (\<lambda>_. ret True))" for r
    by (rule outcome_return [OF atomic_requests(4) [OF assms]]) (rule cr)
  have u: "outcome w (\<lambda>created. op_logged env ctx (item_op created)) (bind (Ent_Update lib env ctx i props) (\<lambda>_. ret False))" for i props
    by (rule outcome_return [OF atomic_requests(5) [OF assms]]) (rule up)
  show ?thesis
    unfolding createOrUpdate_def case_prod_beta
    by (intro outcome_read same_db_props db_intros) (auto split: option.splits intro!: c u)
qed

lemma createOrUpdate_safe: "safe keeps_core (createOrUpdate lib env ctx req)"
proof -
  have rd: "safe keeps_core m" if "\<And>R. reflp R \<Longrightarrow> transp R \<Longrightarrow> preserving R m" for m :: "'x db"
    by (rule safe_read [OF that]) (simp_all add: keeps_core_props)
  have "safe keeps_core (Ent_checked lib ctx req)" by (rule safe_read) (intro db_intros; simp add: keeps_core_props)+
  moreover have "safe keeps_core (find_existing i x)" for i x by (rule rd) (intro db_intros)
  ultimately show ?thesis
    unfolding createOrUpdate_def case_prod_beta
    by (intro safe_bind keeps_core_props)
      (auto split: option.splits intro!: safe_bind safe_simple(1) safe_requests keeps_core_props)
qed

text \<open>One item: created, updated, or an error with its index and no change.\<close>

lemma bulk_item_safe: "safe keeps_core (bulk_item lib env ctx mode i item acc)"
  unfolding bulk_item_def
  by (intro safe_catch keeps_core_props safe_simple(4) safe_bind createOrUpdate_safe safe_simple(1) safe_requests)
    (auto split: goerr.splits intro!: safe_simple keeps_core_props)

lemma rethrow_Inr:
  "(case e of Panic p \<Rightarrow> throw e | _ \<Rightarrow> m) w s = (Inr a, s') \<Longrightarrow> m w s = (Inr a, s')"
  by (cases e) simp_all

lemma bulk_item_outcome:
  assumes "bulk_item lib env ctx mode i item acc w s = (Inr acc', s')" "s_tx s = None" "\<And>n. \<not> w_indoubt w n"
  shows "(\<exists>created row. db_audit (s_db s') = db_audit (s_db s) @ [row] \<and> op_logged env ctx (item_op created) row
       \<and> acc' = (if created then acc\<lparr>bk_Created := Suc (bk_Created acc)\<rparr> else acc\<lparr>bk_Updated := Suc (bk_Updated acc)\<rparr>))
     \<or> (\<exists>e. acc' = acc\<lparr>bk_Errors := bk_Errors acc @ [(i, e)]\<rparr> \<and> s_db s' = s_db s)"
proof -
  define step where "step created = (if created then acc\<lparr>bk_Created := Suc (bk_Created acc)\<rparr> else acc\<lparr>bk_Updated := Suc (bk_Updated acc)\<rparr>)" for created
  let ?m = "if mode = ''upsert'' then bind (createOrUpdate lib env ctx item) (\<lambda>created. ret (step created))
            else bind (Ent_Create lib env ctx item) (\<lambda>_. ret (step True))"
  define Q where "Q = (\<lambda>a row. \<exists>created. a = step created \<and> op_logged env ctx (item_op created) row)"
  have "outcome w Q (bind (createOrUpdate lib env ctx item) (\<lambda>created. ret (step created)))"
    by (rule outcome_map [OF createOrUpdate_outcome [OF assms(3)]]) (auto simp: Q_def)
  moreover have "outcome w Q (bind (Ent_Create lib env ctx item) (\<lambda>_. ret (step True)))"
    by (rule outcome_return [OF atomic_requests(4) [OF assms(3)]]) (auto simp: Q_def item_op_def intro!: exI [of _ True])
  ultimately have o: "outcome w Q ?m" by simp
  obtain r s1 where m: "?m w s = (r, s1)" by fastforce
  have run: "catch ?m (\<lambda>e. case e of Panic _ \<Rightarrow> throw e | _ \<Rightarrow> ret (acc\<lparr>bk_Errors := bk_Errors acc @ [(i, e)]\<rparr>)) w s = (Inr acc', s')"
    using assms(1) by (simp only: bulk_item_def step_def if_True)
  show ?thesis
  proof (cases r)
    case (Inl e)
    with outcomeD [OF o m assms(2)] have "s_db s1 = s_db s" by simp
    moreover have "ret (acc\<lparr>bk_Errors := bk_Errors acc @ [(i, e)]\<rparr>) w s1 = (Inr acc', s')"
      by (rule rethrow_Inr) (use run m Inl in \<open>simp add: catch_def\<close>)
    ultimately show ?thesis by (intro disjI2 exI [of _ e]) simp
  next
    case (Inr a)
    with run m have "a = acc'" "s1 = s'" by (simp_all add: catch_def)
    with outcomeD [OF o m assms(2)] Inr obtain row created where
      "db_audit (s_db s') = db_audit (s_db s) @ [row]" "acc' = step created" "op_logged env ctx (item_op created) row"
      by (auto simp: Q_def)
    then show ?thesis unfolding step_def by (intro disjI1 exI conjI)
  qed
qed

definition counts :: "nat \<Rightarrow> nat \<Rightarrow> (nat \<times> goerr) list \<Rightarrow> bulk_result \<Rightarrow> bulk_result" where
  "counts c u es acc = acc\<lparr>bk_Created := bk_Created acc + c, bk_Updated := bk_Updated acc + u, bk_Errors := bk_Errors acc @ es\<rparr>"

definition with_op :: "string \<Rightarrow> audit_row list \<Rightarrow> nat" where
  "with_op op rows = length (filter (\<lambda>row. au_operation row = op) rows)"

lemma with_op_simps [simp]: "with_op op [] = 0" "with_op op (r # rows) = (if au_operation r = op then 1 else 0) + with_op op rows"
  by (simp_all add: with_op_def)

lemma item_op_operation: "op_logged env ctx (item_op c) row \<Longrightarrow> au_operation row = (if c then OpCreate else OpUpdate)"
  by (simp add: op_logged_def item_op_def)

lemma bulk_loop_outcome:
  "bulk_loop lib env ctx mode i items acc w s = (Inr r, s') \<Longrightarrow> s_tx (s :: sess) = None \<Longrightarrow> (\<And>n. \<not> w_indoubt w n) \<Longrightarrow>
   \<exists>rows es. db_audit (s_db s') = db_audit (s_db s) @ rows \<and> (\<forall>row \<in> set rows. \<exists>c. op_logged env ctx (item_op c) row)
     \<and> r = counts (with_op OpCreate rows) (with_op OpUpdate rows) es acc
     \<and> length rows + length es = length items \<and> sorted_wrt (<) (map fst es) \<and> (\<forall>k \<in> fst ` set es. i \<le> k \<and> k < i + length items)"
proof (induction items arbitrary: i acc s)
  case Nil
  then show ?case by (intro exI [of _ "[]"]) (simp add: counts_def)
next
  case (Cons item items)
  from Cons.prems(1) obtain acc1 s1 where it: "bulk_item lib env ctx mode i item acc w s = (Inr acc1, s1)"
    and rest: "bulk_loop lib env ctx mode (Suc i) items acc1 w s1 = (Inr r, s')" by (auto simp: bind_Inr)
  have "s_tx s1 = None" using safeD [OF bulk_item_safe Cons.prems(2)] it by (metis snd_conv)
  from Cons.IH [OF rest this Cons.prems(3)] obtain rows es where IH:
    "db_audit (s_db s') = db_audit (s_db s1) @ rows" "\<forall>row \<in> set rows. \<exists>c. op_logged env ctx (item_op c) row"
    "r = counts (with_op OpCreate rows) (with_op OpUpdate rows) es acc1"
    "length rows + length es = length items" "sorted_wrt (<) (map fst es)" "\<forall>k \<in> fst ` set es. Suc i \<le> k \<and> k < Suc i + length items"
    by blast
  from bulk_item_outcome [OF it Cons.prems(2,3)] show ?case
  proof (elim disjE exE conjE)
    fix c row
    assume a: "db_audit (s_db s1) = db_audit (s_db s) @ [row]" "op_logged env ctx (item_op c) row"
      "acc1 = (if c then acc\<lparr>bk_Created := Suc (bk_Created acc)\<rparr> else acc\<lparr>bk_Updated := Suc (bk_Updated acc)\<rparr>)"
    show ?thesis
      by (rule exI [of _ "row # rows"], rule exI [of _ es])
        (use a IH item_op_operation [OF a(2)] in \<open>auto simp: counts_def\<close>)
  next
    fix e assume a: "acc1 = acc\<lparr>bk_Errors := bk_Errors acc @ [(i, e)]\<rparr>" "s_db s1 = s_db s"
    show ?thesis
      by (rule exI [of _ rows], rule exI [of _ "(i, e) # es"]) (use a IH in \<open>auto simp: counts_def\<close>)
  qed
qed

lemma bulk_loop_safe: "safe keeps_core (bulk_loop lib env ctx mode i items acc)"
  by (induction items arbitrary: i acc)
    (auto intro!: safe_bind safe_simple(1) bulk_item_safe keeps_core_props)

lemma BulkCreate_safe: "safe keeps_core (BulkCreate lib env ctx items mode)"
  unfolding BulkCreate_def Let_def reject_def
  by (intro safe_simple(4) safe_simple(2) bulk_loop_safe keeps_core_props)

lemma core_serve_safe: "safe keeps_core (core_serve lib env ctx r)"
  by (cases r) (simp_all add: quietly_def, (intro safe_bind safe_simple(1) safe_requests BulkCreate_safe keeps_core_props)+)

text \<open>
  C26. The audit trail of the management services is complete. A mutation either fails and leaves the
  whole database as it was, or it succeeds and appends exactly one audit record, which names the
  caller, the active system, the operation, the kind of resource and, for an update or a deletion, the
  resource that was asked for, with the state before and after. A commit whose acknowledgement is lost
  is the one exception of PostgreSQL.
\<close>

theorem management_audited:
  assumes "core_serve lib env ctx r w s = (res, s')" "s_tx (s :: sess) = None" "\<And>n. \<not> w_indoubt w n"
    and "\<And>items mode. r \<noteq> BulkEntities items mode"
  shows "case res of
      Inl e \<Rightarrow> s_db s' = s_db s
    | Inr _ \<Rightarrow> \<exists>row. db_audit (s_db s') = db_audit (s_db s) @ [row] \<and> op_logged env ctx (request_op r) row"
proof -
  have "atomic w (op_logged env ctx (request_op r)) (core_serve lib env ctx r)"
    using assms(4) by (cases r) (auto simp: atomic_requests [OF assms(3)] intro!: atomic_quietly)
  from atomicD [OF this assms(2,1)] show ?thesis .
qed

text \<open>
  C27. A bulk request accounts for every item: created, updated and failed items add up to the total,
  the errors carry the ascending positions of their items, and the audit log grows by one record per
  created and one per updated item, of the caller, and by nothing else.
\<close>

theorem bulk_accounts_for_items:
  assumes "BulkCreate lib env ctx items mode w s = (Inr r, s')" "s_tx (s :: sess) = None" "\<And>n. \<not> w_indoubt w n"
  shows "bk_Total r = length items \<and> bk_Created r + bk_Updated r + length (bk_Errors r) = length items
    \<and> sorted_wrt (<) (map fst (bk_Errors r)) \<and> (\<forall>k \<in> fst ` set (bk_Errors r). k < length items)
    \<and> (\<exists>rows. db_audit (s_db s') = db_audit (s_db s) @ rows \<and> (\<forall>row \<in> set rows. \<exists>c. op_logged env ctx (item_op c) row)
         \<and> with_op OpCreate rows = bk_Created r \<and> with_op OpUpdate rows = bk_Updated r)"
proof -
  from assms(1) obtain m where "bulk_loop lib env ctx m 0 items \<lparr>bk_Total = length items, bk_Created = 0, bk_Updated = 0, bk_Errors = []\<rparr>
      w s = (Inr r, s')" by (auto simp: BulkCreate_def Let_def split: if_splits)
  from bulk_loop_outcome [OF this assms(2,3)] obtain rows es where
    rows: "db_audit (s_db s') = db_audit (s_db s) @ rows" "\<forall>row \<in> set rows. \<exists>c. op_logged env ctx (item_op c) row"
    and r: "r = counts (with_op OpCreate rows) (with_op OpUpdate rows) es
       \<lparr>bk_Total = length items, bk_Created = 0, bk_Updated = 0, bk_Errors = []\<rparr>"
    and es: "length rows + length es = length items" "sorted_wrt (<) (map fst es)" "\<forall>k \<in> fst ` set es. k < length items"
    by auto
  have "with_op OpCreate rows + with_op OpUpdate rows = length rows"
    using rows(2) by (induction rows) (auto dest!: item_op_operation split: if_splits)
  with rows r es show ?thesis by (auto simp: counts_def)
qed

end
