(* ===== verification/Retrieval.thy ===== *)
theory Retrieval
  imports Entities "HOL-Library.List_Lexorder" "HOL-Library.Char_ord" "HOL-Library.Product_Lexorder"
begin

section \<open>Retrieval for decision points (\<open>internal/retrieval\<close>)\<close>

text \<open>
  The read side: an entity with its relations and the overlay of a system merged in, the search by
  JSON containment, the change log and the export; every answer is logged, best effort. The operator
  \<open>@>\<close> of PostgreSQL is the parameter \<open>contains\<close>, \<open>coll\<close> the rank of a text in its collation. The
  queries run on the pool, not in a scoped transaction.
\<close>

record relation_ref =
  rf_ID :: uuid
  rf_RelationType :: string
  rf_TargetEntityID :: uuid
  rf_SystemID :: "uuid option"

record merged_view =
  mv_ID :: uuid
  mv_TypeID :: uuid
  mv_Type :: string
  mv_ExternalID :: string
  mv_Properties :: raw
  mv_Relations :: "relation_ref list"
  mv_SystemID :: "uuid option"
  mv_CreatedAt :: gotime
  mv_UpdatedAt :: gotime

type_synonym export_item = merged_view

record changelog_entry =
  cl_ID :: uuid
  cl_Actor :: string
  cl_Operation :: string
  cl_ResourceType :: string
  cl_ResourceID :: uuid
  cl_BeforeValue :: raw
  cl_AfterValue :: raw
  cl_SystemID :: "uuid option"
  cl_Timestamp :: gotime

record 'a result_page =
  rg_Items :: "'a list"
  rg_Total :: nat
  rg_Limit :: int
  rg_Offset :: int

definition ref_of_row :: "relation_row \<Rightarrow> relation_ref" where
  "ref_of_row r = \<lparr>rf_ID = rl_id r, rf_RelationType = rl_type r, rf_TargetEntityID = rl_target r, rf_SystemID = rl_system r\<rparr>"

definition view_of_row :: "entity_row \<times> type_row \<Rightarrow> merged_view" where
  "view_of_row = (\<lambda>(e, t). \<lparr>mv_ID = en_id e, mv_TypeID = en_type_id e, mv_Type = ty_name t,
     mv_ExternalID = en_external_id e, mv_Properties = Some (en_properties e), mv_Relations = [],
     mv_SystemID = en_system_id e, mv_CreatedAt = en_created e, mv_UpdatedAt = en_updated e\<rparr>)"

definition changelog_of_row :: "audit_row \<Rightarrow> changelog_entry" where
  "changelog_of_row a = \<lparr>cl_ID = au_id a, cl_Actor = au_actor a, cl_Operation = au_operation a,
     cl_ResourceType = au_resource_type a, cl_ResourceID = au_resource_id a, cl_BeforeValue = au_before a,
     cl_AfterValue = au_after a, cl_SystemID = au_system a, cl_Timestamp = au_time a\<rparr>"

subsection \<open>Merging an overlay into the properties\<close>

text \<open>
  A key \<open>ns.sub\<close> of the overlay goes under the key \<open>ns\<close>; a key without a dot, or with only a leading
  one, replaces the key of the base. \<open>json.Marshal\<close> writes a map with its keys sorted. Copying into
  the nil map that a null leaves behind panics.
\<close>

definition marshal_map :: "json gomap \<Rightarrow> json" where
  "marshal_map m = JObj (sort_key fst m)"

definition split_key :: "string \<Rightarrow> (string \<times> string) option" where
  "split_key k = (case IndexByte k (CHR ''.'') of
     Some n \<Rightarrow> if 0 < n then Some (take n k, drop (Suc n) k) else None | None \<Rightarrow> None)"

fun group_overlay :: "json gomap \<Rightarrow> json gomap \<times> json gomap gomap \<Rightarrow> json gomap \<times> json gomap gomap" where
  "group_overlay [] acc = acc"
| "group_overlay ((k, v) # kvs) (base, nested) =
     group_overlay kvs
       (case split_key k of
          Some (ns, sub) \<Rightarrow>
            (base, AList.update ns (AList.update sub v (case map_of nested ns of None \<Rightarrow> [] | Some m \<Rightarrow> m)) nested)
        | None \<Rightarrow> (AList.update k v base, nested))"

definition maps_Copy :: "json gomap \<Rightarrow> json gomap \<Rightarrow> json gomap" where
  "maps_Copy dst src = fold (\<lambda>(k, v). AList.update k v) src dst"

fun merge_groups :: "json gomap gomap \<Rightarrow> json gomap \<Rightarrow> json gomap res" where
  "merge_groups [] base = Inr base"
| "merge_groups ((ns, sub) # groups) base =
     (case map_of base ns of
        None \<Rightarrow> merge_groups groups (AList.update ns (marshal_map sub) base)
      | Some existing \<Rightarrow>
          (case unmarshal_map (Some existing) of
             Inl _ \<Rightarrow> merge_groups groups (AList.update ns (marshal_map sub) base)
           | Inr None \<Rightarrow> Inl (Panic ''assignment to entry in nil map'')
           | Inr (Some obj) \<Rightarrow> merge_groups groups (AList.update ns (marshal_map (maps_Copy obj sub)) base)))"

definition mergeJSON :: "raw \<Rightarrow> raw \<Rightarrow> raw res" where
  "mergeJSON base overlay =
     (case overlay of
        None \<Rightarrow> Inr base
      | Some _ \<Rightarrow>
          (case unmarshal_map base of
             Inl _ \<Rightarrow> Inr base
           | Inr baseMap \<Rightarrow>
               (case unmarshal_map overlay of
                  Inl _ \<Rightarrow> Inr base
                | Inr overlayMap \<Rightarrow>
                    (case group_overlay (map_entries overlayMap) (map_entries baseMap, []) of
                       (flat, nested) \<Rightarrow> map_sum id (\<lambda>m. Some (marshal_map m)) (merge_groups nested flat)))))"

subsection \<open>Repository\<close>

definition lookup_relations :: "(string \<Rightarrow> nat) \<Rightarrow> uuid \<Rightarrow> uuid option \<Rightarrow> query_ctx \<Rightarrow> database \<Rightarrow> relation_row list" where
  "lookup_relations coll i sys q d =
     sort_key (\<lambda>r. (coll (rl_type r), rl_created r))
       (filter (\<lambda>r. rl_subject r = i \<and> (rl_system r = None \<or> sys \<noteq> None \<and> rl_system r = sys)) (relations q d))"

definition overlay_properties :: "uuid \<Rightarrow> uuid \<Rightarrow> raw db" where
  "overlay_properties i sys =
     catch (bind (query_row (\<lambda>q d. map ov_properties (filter (\<lambda>r. ov_entity r = i \<and> ov_system r = sys) (overlays q d))))
              (\<lambda>p. ret (Some p)))
       (\<lambda>_. ret None)"

definition LookupMerged :: "(string \<Rightarrow> nat) \<Rightarrow> string \<Rightarrow> string \<Rightarrow> uuid option \<Rightarrow> merged_view db" where
  "LookupMerged coll typeName externalID sys =
     bind (catch (bind (query_row (\<lambda>q d. filter (\<lambda>(e, t). ty_name t = typeName \<and> en_external_id e = externalID)
                    (typed_entities q d))) (\<lambda>et. ret (view_of_row et)))
             (\<lambda>e. if is_no_rows e then throw (RetrievalE Retrieval_ErrEntityNotFound)
                  else throw (Wrap ''looking up entity'' e))) (\<lambda>view.
     bind (case sys of
             None \<Rightarrow> ret (mv_Properties view)
           | Some u \<Rightarrow> bind (overlay_properties (mv_ID view) u) (\<lambda>p.
               case p of None \<Rightarrow> ret (mv_Properties view) | Some _ \<Rightarrow> lift_res (mergeJSON (mv_Properties view) p))) (\<lambda>props.
     bind (wrap_err ''fetching relations for lookup'' (query (lookup_relations coll (mv_ID view) sys))) (\<lambda>rows.
     ret (view\<lparr>mv_Properties := props, mv_Relations := map ref_of_row rows\<rparr>))))"

definition filter_rows ::
  "(json \<Rightarrow> json \<Rightarrow> bool) \<Rightarrow> string \<Rightarrow> json \<Rightarrow> query_ctx \<Rightarrow> database \<Rightarrow> (entity_row \<times> type_row) list" where
  "filter_rows contains typeName flt q d =
     filter (\<lambda>(e, t). contains (en_properties e) flt \<and> (typeName = [] \<or> ty_name t = typeName)) (typed_entities q d)"

definition FilterByProperties ::
  "(json \<Rightarrow> json \<Rightarrow> bool) \<Rightarrow> string \<Rightarrow> json \<Rightarrow> int \<Rightarrow> int \<Rightarrow> (merged_view list \<times> nat) db" where
  "FilterByProperties contains typeName flt limit offset =
     bind (wrap_err ''counting filtered entities'' (query (\<lambda>q d. length (filter_rows contains typeName flt q d)))) (\<lambda>total.
     bind (wrap_err ''filtering entities by properties'' (query_page limit offset
            (\<lambda>q d. sort_key (\<lambda>(e, t). (- en_created e, en_id e)) (filter_rows contains typeName flt q d)))) (\<lambda>rows.
     ret (map view_of_row rows, total)))"

definition changelog_rows :: "gotime \<Rightarrow> uuid option \<Rightarrow> database \<Rightarrow> audit_row list" where
  "changelog_rows since sys d =
     filter (\<lambda>a. since < au_time a \<and> (sys = None \<or> au_system a = None \<or> au_system a = sys)) (db_audit d)"

definition Ret_repo_ListChangelog :: "gotime \<Rightarrow> uuid option \<Rightarrow> int \<Rightarrow> int \<Rightarrow> (changelog_entry list \<times> nat) db" where
  "Ret_repo_ListChangelog since sys limit offset =
     bind (wrap_err ''counting changelog entries'' (query (\<lambda>q d. length (changelog_rows since sys d)))) (\<lambda>total.
     bind (wrap_err ''querying changelog'' (query_page limit offset (\<lambda>q d. sort_key au_time (changelog_rows since sys d)))) (\<lambda>rows.
     ret (map changelog_of_row rows, total)))"

definition export_relations :: "(string \<Rightarrow> nat) \<Rightarrow> uuid list \<Rightarrow> uuid option \<Rightarrow> query_ctx \<Rightarrow> database \<Rightarrow> relation_row list" where
  "export_relations coll ids sys q d =
     sort_key (\<lambda>r. (rl_subject r, coll (rl_type r), rl_created r))
       (filter (\<lambda>r. rl_subject r \<in> set ids \<and> (sys = None \<or> rl_system r = None \<or> rl_system r = sys)) (relations q d))"

definition ExportEntities :: "(string \<Rightarrow> nat) \<Rightarrow> string \<Rightarrow> uuid option \<Rightarrow> int \<Rightarrow> int \<Rightarrow> (export_item list \<times> nat) db" where
  "ExportEntities coll typeName sys limit offset =
     bind (wrap_err ''counting export entities'' (query (\<lambda>q d. length (ent_list_rows typeName q d)))) (\<lambda>total.
     bind (wrap_err ''exporting entities'' (query_page limit offset
            (\<lambda>q d. sort_key (\<lambda>(e, t). (en_created e, en_id e)) (ent_list_rows typeName q d)))) (\<lambda>rows.
     let items = map view_of_row rows in
     if items = [] then ret ([], total)
     else bind (wrap_err ''fetching relations for export'' (query (export_relations coll (map mv_ID items) sys))) (\<lambda>rels.
       ret (map (\<lambda>item. item\<lparr>mv_Relations := map ref_of_row (filter (\<lambda>r. rl_subject r = mv_ID item) rels)\<rparr>) items, total))))"

definition insert_retrieval :: "string \<Rightarrow> json \<Rightarrow> json \<Rightarrow> uuid option \<Rightarrow> unit statement" where
  "insert_retrieval caller params refs sys = (\<lambda>q d.
     Inr ((), d\<lparr>db_retrievals := db_retrievals d @ [\<lparr>rt_caller = caller, rt_query = params, rt_refs = refs,
       rt_system = sys, rt_time = q_now q\<rparr>]\<rparr>))"

definition WriteLog :: "string \<Rightarrow> json \<Rightarrow> json \<Rightarrow> uuid option \<Rightarrow> unit db" where
  "WriteLog caller params refs sys = wrap_err ''writing retrieval log'' (exec (insert_retrieval caller params refs sys))"

subsection \<open>Service\<close>

definition logRetrieval :: "request_context \<Rightarrow> uuid option \<Rightarrow> json \<Rightarrow> json \<Rightarrow> unit db" where
  "logRetrieval ctx sys params refs =
     bind (MustIdentity ctx) (\<lambda>i.
     catch (WriteLog (id_Subject i) params refs (case sys of Some u \<Rightarrow> Some u | None \<Rightarrow> id_ActiveSystemID i)) (\<lambda>_. ret ()))"

definition LogRetrieval :: "request_context \<Rightarrow> json \<Rightarrow> json \<Rightarrow> unit db" where
  "LogRetrieval ctx params refs = logRetrieval ctx None params refs"

definition uuidRefsJSON :: "render_env \<Rightarrow> uuid list \<Rightarrow> json" where
  "uuidRefsJSON env ids = JArr (map (\<lambda>u. JStr (re_uuid env u)) ids)"

definition uuid_or_null :: "render_env \<Rightarrow> uuid option \<Rightarrow> json" where
  "uuid_or_null env u = (case u of None \<Rightarrow> JNull | Some i \<Rightarrow> JStr (re_uuid env i))"

definition json_int :: "int \<Rightarrow> json" where
  "json_int n = JNum (show_int n)"

definition Ret_assertSystemAccess :: "request_context \<Rightarrow> uuid option \<Rightarrow> unit db" where
  "Ret_assertSystemAccess ctx requested =
     bind (MustIdentity ctx) (\<lambda>i.
     if id_IsPlatformAdmin i \<or> id_ActiveSystemID i = None \<or> requested = None then ret ()
     else if id_ActiveSystemID i \<noteq> requested
     then reject (api_Forbidden [Lit (''system-scoped callers may only request their own system'' @ [CHR 0x27] @ ''s data'')])
     else ret ())"

definition Ret_toAPIError :: "goerr \<Rightarrow> goerr" where
  "Ret_toAPIError = api_error [(RetrievalE Retrieval_ErrEntityNotFound, api_NotFound ''entity'')]"

definition Lookup ::
  "(string \<Rightarrow> nat) \<Rightarrow> render_env \<Rightarrow> request_context \<Rightarrow> string \<Rightarrow> string \<Rightarrow> uuid option \<Rightarrow> merged_view db" where
  "Lookup coll env ctx typeName externalID sys =
     (if typeName = [] then reject (api_BadRequest [Lit ''type is required''])
      else if externalID = [] then reject (api_BadRequest [Lit ''external_id is required''])
      else bind (Ret_assertSystemAccess ctx sys) (\<lambda>_.
        bind (map_err Ret_toAPIError (LookupMerged coll typeName externalID sys)) (\<lambda>view.
        bind (logRetrieval ctx sys (JObj [(''external_id'', JStr externalID), (''system_id'', uuid_or_null env sys),
                (''type'', JStr typeName)]) (uuidRefsJSON env [mv_ID view])) (\<lambda>_. ret view))))"

definition Filter ::
  "(json \<Rightarrow> json \<Rightarrow> bool) \<Rightarrow> render_env \<Rightarrow> request_context \<Rightarrow> string \<Rightarrow> raw \<Rightarrow> int \<Rightarrow> int \<Rightarrow> merged_view result_page db" where
  "Filter contains env ctx typeName flt limit0 offset =
     (case flt of
        None \<Rightarrow> reject (api_BadRequest [Lit ''filter is required''])
      | Some f \<Rightarrow>
          let limit = clamp_limit 25 100 limit0 in
          bind (wrap_err ''filtering entities'' (FilterByProperties contains typeName f limit offset)) (\<lambda>(items, total).
          bind (logRetrieval ctx None (JObj [(''filter'', f), (''limit'', json_int limit), (''offset'', json_int offset),
                  (''type'', JStr typeName)]) (uuidRefsJSON env (map mv_ID items))) (\<lambda>_.
          ret \<lparr>rg_Items = items, rg_Total = total, rg_Limit = limit, rg_Offset = offset\<rparr>)))"

text \<open>The system a change log is restricted to.\<close>

definition changelog_system :: "identity \<Rightarrow> uuid option \<Rightarrow> APIError + uuid option" where
  "changelog_system i sys =
     (case id_ActiveSystemID i of
        None \<Rightarrow> Inr sys
      | Some u \<Rightarrow>
          if sys \<noteq> None \<and> sys \<noteq> Some u
          then Inl (api_Forbidden [Lit (''system-scoped callers may only query their own system'' @ [CHR 0x27] @ ''s changelog'')])
          else Inr (Some u))"

definition ListChangelog ::
  "render_env \<Rightarrow> request_context \<Rightarrow> gotime \<Rightarrow> uuid option \<Rightarrow> int \<Rightarrow> int \<Rightarrow> changelog_entry result_page db" where
  "ListChangelog env ctx since sys0 limit0 offset =
     bind (MustIdentity ctx) (\<lambda>i.
     bind (lift_api (changelog_system i sys0)) (\<lambda>sys.
     let limit = clamp_limit 25 100 limit0 in
     bind (wrap_err ''listing changelog'' (Ret_repo_ListChangelog since sys limit offset)) (\<lambda>(items, total).
     bind (logRetrieval ctx sys (JObj [(''limit'', json_int limit), (''offset'', json_int offset),
             (''since'', JStr (re_time env since)), (''system_id'', uuid_or_null env sys)]) (JArr [])) (\<lambda>_.
     ret \<lparr>rg_Items = items, rg_Total = total, rg_Limit = limit, rg_Offset = offset\<rparr>))))"

definition Export ::
  "(string \<Rightarrow> nat) \<Rightarrow> render_env \<Rightarrow> request_context \<Rightarrow> string \<Rightarrow> uuid option \<Rightarrow> int \<Rightarrow> int \<Rightarrow> export_item result_page db" where
  "Export coll env ctx typeName sys0 limit0 offset =
     bind (MustIdentity ctx) (\<lambda>i.
     let sys = (if sys0 = None then id_ActiveSystemID i else sys0); limit = clamp_limit 100 500 limit0 in
     bind (wrap_err ''exporting entities'' (ExportEntities coll typeName sys limit offset)) (\<lambda>(items, total).
     bind (logRetrieval ctx sys (JObj [(''limit'', json_int limit), (''offset'', json_int offset), (''type'', JStr typeName)])
             (uuidRefsJSON env (map mv_ID items))) (\<lambda>_.
     ret \<lparr>rg_Items = items, rg_Total = total, rg_Limit = limit, rg_Offset = offset\<rparr>)))"

end
