(* ===== verification/Admin_Reads.thy ===== *)
theory Admin_Reads
  imports Entities Webhooks
begin

section \<open>Reads of the management UI (\<open>internal/useradmin\<close>, \<open>handler/stats.go\<close>)\<close>

text \<open>
  The list of users with their external identities, and the counters of the dashboard. Neither changes
  a table.
\<close>

subsection \<open>Users\<close>

record external_identity =
  xi_ProviderName :: string
  xi_ExternalSubject :: string

record admin_user =
  au_Entity :: entity
  au_ExternalIdentities :: "external_identity list"

record user_list_result =
  ur_Items :: "admin_user list"
  ur_Total :: nat
  ur_Limit :: int
  ur_Offset :: int

definition user_rows :: "query_ctx \<Rightarrow> database \<Rightarrow> (entity_row \<times> type_row) list" where
  "user_rows q d = filter (\<lambda>(e, t). ty_name t = ''User'') (typed_entities q d)"

text \<open>The identities of one of the entities, in the order of the third query.\<close>

definition identities_of :: "identity_row list \<Rightarrow> entity \<Rightarrow> admin_user" where
  "identities_of rows e = \<lparr>au_Entity = e, au_ExternalIdentities =
     map (\<lambda>i. \<lparr>xi_ProviderName = ei_provider i, xi_ExternalSubject = ei_subject i\<rparr>)
       (filter (\<lambda>i. ei_entity_id i = ent_ID e) rows)\<rparr>"

definition Useradmin_repo_List :: "int \<Rightarrow> int \<Rightarrow> user_list_result db" where
  "Useradmin_repo_List limit offset =
     bind (wrap_err ''counting users'' (query (\<lambda>q d. length (user_rows q d)))) (\<lambda>total.
     if total = 0 then ret \<lparr>ur_Items = [], ur_Total = 0, ur_Limit = limit, ur_Offset = offset\<rparr>
     else bind (wrap_err ''querying users'' (query_page limit offset
                  (\<lambda>q d. sort_key (\<lambda>(e, t). - en_created e) (user_rows q d)))) (\<lambda>rows.
       let users = map ent_of_row rows; entityIDs = map ent_ID users in
       bind (if entityIDs = [] then ret []
             else wrap_err ''querying external identities''
               (query (\<lambda>q d. filter (\<lambda>i. ei_entity_id i \<in> set entityIDs) (db_identities d)))) (\<lambda>idents.
       ret \<lparr>ur_Items = map (identities_of idents) users, ur_Total = total, ur_Limit = limit, ur_Offset = offset\<rparr>)))"

definition Useradmin_List :: "int \<Rightarrow> int \<Rightarrow> user_list_result db" where
  "Useradmin_List limit0 offset0 =
     (let limit = clamp_limit 50 200 limit0; offset = (if offset0 < 0 then 0 else offset0)
      in wrap_err ''listing users'' (Useradmin_repo_List limit offset))"

subsection \<open>Counters\<close>

record stats_response =
  st_TotalEntities :: nat
  st_ActiveSystems :: nat
  st_SubscribedWebhooks :: nat

text \<open>
  The active systems: the cast of the flag may fail. \<open>cast_all\<close> tells whether the planner tests the flag
  of an entity before it looks at its type.
\<close>

fun count_active :: "query_ctx \<Rightarrow> entity_row list \<Rightarrow> dberr + entity_row list" where
  "count_active q [] = Inr []"
| "count_active q (e # es) =
     (case active_flag q e of
        Inl err \<Rightarrow> Inl err
      | Inr b \<Rightarrow> (case count_active q es of Inl err \<Rightarrow> Inl err | Inr xs \<Rightarrow> Inr (if b then e # xs else xs)))"

definition select_active_systems :: "bool \<Rightarrow> nat statement" where
  "select_active_systems cast_all = (\<lambda>q d.
     let system = has_type d ''System'' in
     case count_active q (if cast_all then entities q d else filter system (entities q d)) of
       Inl err \<Rightarrow> Inl err
     | Inr es \<Rightarrow> Inr (length (filter system es), d))"

definition stats_body :: "bool \<Rightarrow> stats_response db" where
  "stats_body cast_all =
     bind (wrap_err ''counting entities'' (query (\<lambda>q d. length (entities q d)))) (\<lambda>n.
     bind (wrap_err ''counting active systems'' (exec (select_active_systems cast_all))) (\<lambda>m.
     bind (wrap_err ''counting webhook subscriptions'' (query (\<lambda>q d.
       length (filter (\<lambda>h. visible q (Some (wh_system h)) \<and> wh_active h) (db_webhooks d))))) (\<lambda>k.
     ret \<lparr>st_TotalEntities = n, st_ActiveSystems = m, st_SubscribedWebhooks = k\<rparr>)))"

definition Stats :: "bool \<Rightarrow> stats_response db" where
  "Stats cast_all = WithSystemScope None (stats_body cast_all)"

end
