(* ===== verification/Api_Bodies.thy ===== *)
theory Api_Bodies
  imports Go_Decode Entity_Types Entities Systems Relations Overlay_Schemas Overlays Webhooks
begin

section \<open>The bodies of the management requests\<close>

text \<open>
  The request structs of the services with their JSON tags, as decoders. \<open>up\<close> parses an identifier.
\<close>

definition uuid_decoder :: "(string \<Rightarrow> uuid option) \<Rightarrow> uuid decoder" where
  "uuid_decoder up = dec_text up"

definition et_create_decoder :: "et_create_request decoder" where
  "et_create_decoder = dec_struct [(''type_name'', field ec_TypeName ec_TypeName_update dec_string),
     (''allowed_properties'', field ec_AllowedProperties ec_AllowedProperties_update dec_raw),
     (''allowed_relations'', field ec_AllowedRelations ec_AllowedRelations_update dec_raw),
     (''scope'', field ec_Scope ec_Scope_update dec_string)]"

definition zero_et_create :: et_create_request where
  "zero_et_create = \<lparr>ec_TypeName = [], ec_AllowedProperties = None, ec_AllowedRelations = None, ec_Scope = []\<rparr>"

definition et_update_decoder :: "et_update_request decoder" where
  "et_update_decoder = dec_struct [(''allowed_properties'', field eu_AllowedProperties eu_AllowedProperties_update dec_raw),
     (''allowed_relations'', field eu_AllowedRelations eu_AllowedRelations_update dec_raw)]"

definition zero_et_update :: et_update_request where
  "zero_et_update = \<lparr>eu_AllowedProperties = None, eu_AllowedRelations = None\<rparr>"

definition ent_create_decoder :: "(string \<Rightarrow> uuid option) \<Rightarrow> ent_create_request decoder" where
  "ent_create_decoder up = dec_struct [(''type'', field cr_Type cr_Type_update dec_string),
     (''external_id'', field cr_ExternalID cr_ExternalID_update dec_string),
     (''properties'', field cr_Properties cr_Properties_update dec_raw),
     (''system_id'', field cr_SystemID cr_SystemID_update (dec_ptr uuid_Nil (uuid_decoder up)))]"

definition zero_ent_create :: ent_create_request where
  "zero_ent_create = \<lparr>cr_Type = [], cr_ExternalID = [], cr_Properties = None, cr_SystemID = None\<rparr>"

text \<open>Bodies with one raw member: the update of an entity, of an overlay and of an overlay schema.\<close>

record raw_request =
  rw_Value :: raw

definition raw_decoder :: "string \<Rightarrow> raw_request decoder" where
  "raw_decoder tag = dec_struct [(tag, field rw_Value rw_Value_update dec_raw)]"

definition zero_raw :: raw_request where
  "zero_raw = \<lparr>rw_Value = None\<rparr>"

record bulk_request =
  bq_Entities :: "ent_create_request list"
  bq_Mode :: string

definition bulk_decoder :: "(string \<Rightarrow> uuid option) \<Rightarrow> bulk_request decoder" where
  "bulk_decoder up = dec_struct [(''entities'', field bq_Entities bq_Entities_update (dec_slice zero_ent_create (ent_create_decoder up))),
     (''mode'', field bq_Mode bq_Mode_update dec_string)]"

definition zero_bulk :: bulk_request where
  "zero_bulk = \<lparr>bq_Entities = [], bq_Mode = []\<rparr>"

definition sys_create_decoder :: "sys_create_request decoder" where
  "sys_create_decoder = dec_struct [(''name'', field sr_Name sr_Name_update dec_string),
     (''description'', field sr_Description sr_Description_update dec_string)]"

definition zero_sys_create :: sys_create_request where
  "zero_sys_create = \<lparr>sr_Name = [], sr_Description = []\<rparr>"

definition sys_patch_decoder :: "sys_patch_request decoder" where
  "sys_patch_decoder = dec_struct [(''name'', field sp_Name sp_Name_update (dec_ptr [] dec_string)),
     (''description'', field sp_Description sp_Description_update (dec_ptr [] dec_string)),
     (''active'', field sp_Active sp_Active_update (dec_ptr False dec_bool))]"

definition zero_sys_patch :: sys_patch_request where
  "zero_sys_patch = \<lparr>sp_Name = None, sp_Description = None, sp_Active = None\<rparr>"

definition rel_create_decoder :: "(string \<Rightarrow> uuid option) \<Rightarrow> rel_create_request decoder" where
  "rel_create_decoder up = dec_struct [(''subject_entity_id'', field rc_SubjectEntityID rc_SubjectEntityID_update (uuid_decoder up)),
     (''relation_type'', field rc_RelationType rc_RelationType_update dec_string),
     (''target_entity_id'', field rc_TargetEntityID rc_TargetEntityID_update (uuid_decoder up)),
     (''system_id'', field rc_SystemID rc_SystemID_update (dec_ptr uuid_Nil (uuid_decoder up)))]"

definition zero_rel_create :: rel_create_request where
  "zero_rel_create = \<lparr>rc_SubjectEntityID = uuid_Nil, rc_RelationType = [], rc_TargetEntityID = uuid_Nil, rc_SystemID = None\<rparr>"

definition os_create_decoder :: "(string \<Rightarrow> uuid option) \<Rightarrow> os_create_request decoder" where
  "os_create_decoder up = dec_struct [(''entity_type_id'', field oc_EntityTypeID oc_EntityTypeID_update (uuid_decoder up)),
     (''allowed_overlay_properties'', field oc_AllowedOverlayProperties oc_AllowedOverlayProperties_update dec_raw)]"

definition zero_os_create :: os_create_request where
  "zero_os_create = \<lparr>oc_EntityTypeID = uuid_Nil, oc_AllowedOverlayProperties = None\<rparr>"

definition hook_create_decoder :: "hook_create_request decoder" where
  "hook_create_decoder = dec_struct [(''callback_url'', field hc_CallbackURL hc_CallbackURL_update dec_string),
     (''secret'', field hc_Secret hc_Secret_update dec_string)]"

definition zero_hook_create :: hook_create_request where
  "zero_hook_create = \<lparr>hc_CallbackURL = [], hc_Secret = []\<rparr>"

definition hook_update_decoder :: "hook_update_request decoder" where
  "hook_update_decoder = dec_struct [(''callback_url'', field hu_CallbackURL hu_CallbackURL_update (dec_ptr [] dec_string)),
     (''active'', field hu_Active hu_Active_update (dec_ptr False dec_bool))]"

definition zero_hook_update :: hook_update_request where
  "zero_hook_update = \<lparr>hu_CallbackURL = None, hu_Active = None\<rparr>"

end
