(* ===== verification/Api_Http.thy ===== *)
theory Api_Http
  imports Core_Services Retrieval Authn Admin_Reads Api_Bodies Http_Routes
begin

section \<open>The management API (\<open>internal/api\<close>)\<close>

text \<open>
  From a request below \<open>/api/v1\<close> to its response: the authentication, the route table with the gates of
  each route and of each group of routes, the handlers with the decoding of path, query and body, and the
  mapping of service errors to responses. A path is the list of its segments after \<open>/api/v1\<close>. The text of
  a JSON error is left out of its response.
\<close>

subsection \<open>Requests and responses\<close>

record api_call =
  aq_request :: http_request
  aq_method :: string
  aq_path :: "string list"
  aq_query :: "string \<Rightarrow> string"
  aq_body :: "json option"

record me_response =
  mr_Sub :: string
  mr_Provider :: string
  mr_EntityID :: string
  mr_Groups :: "string list"
  mr_IsPlatformAdmin :: bool
  mr_AllowedSystems :: "string list"

datatype api_body = EmptyBody | ErrorBody APIError | PlainBody string
  | TypeBody entity_type_definition | TypeListBody "entity_type_definition list" nat
  | SystemBody system | SystemListBody "system list" nat
  | SchemaBody overlay_schema | SchemaListBody "overlay_schema list" nat
  | HookBody subscription | HookListBody hook_list_result
  | EntityBody entity | EntityListBody ent_list_result | BulkBody bulk_result
  | OverlayBody property_overlay | OverlayListBody po_list_result
  | RelationBody relation | RelationListBody rel_list_result
  | ViewBody merged_view | ViewPageBody "merged_view result_page" | ChangelogBody "changelog_entry result_page"
  | MeBody me_response | StatsBody stats_response | UserListBody user_list_result

record api_response =
  ap_Status :: int
  ap_Body :: api_body

definition response_JSON :: "int \<Rightarrow> api_body \<Rightarrow> api_response" where
  "response_JSON status body = \<lparr>ap_Status = status, ap_Body = body\<rparr>"

definition response_Error :: "APIError \<Rightarrow> api_response" where
  "response_Error e = response_JSON (HTTPStatus e) (ErrorBody e)"

definition response_NoContent :: api_response where
  "response_NoContent = response_JSON 204 EmptyBody"

text \<open>
  What the handlers use: the services' libraries, and the parsers of identifiers, instants and JSON texts.
  \<open>av_cast_all\<close> is the planner's choice in the dashboard's query.
\<close>

record 's api_env =
  av_lib :: "'s schema_lib"
  av_render :: render_env
  av_uuid :: "string \<Rightarrow> uuid option"
  av_time :: "string \<Rightarrow> gotime option"
  av_json :: "string \<Rightarrow> json option"
  av_coll :: "string \<Rightarrow> nat"
  av_contains :: "json \<Rightarrow> json \<Rightarrow> bool"
  av_cast_all :: bool

subsection \<open>Parameters (\<open>handler/params.go\<close>)\<close>

definition decodeJSON :: "'a decoder \<Rightarrow> 'a \<Rightarrow> api_call \<Rightarrow> ('a \<Rightarrow> api_response db) \<Rightarrow> api_response db" where
  "decodeJSON d zero q f =
     (case decode_body d zero (aq_body q) of
        None \<Rightarrow> ret (response_Error (api_BadRequest [Lit ''invalid JSON: '']))
      | Some x \<Rightarrow> f x)"

definition invalid_uuid :: "string \<Rightarrow> api_response" where
  "invalid_uuid name = response_Error (api_BadRequest [Lit (''invalid '' @ name @ '': must be a valid UUID'')])"

definition pathUUID :: "'s api_env \<Rightarrow> path_params \<Rightarrow> string \<Rightarrow> (uuid \<Rightarrow> api_response db) \<Rightarrow> api_response db" where
  "pathUUID v ps name f = (case av_uuid v (param ps name) of None \<Rightarrow> ret (invalid_uuid name) | Some i \<Rightarrow> f i)"

definition positive_or :: "(int \<Rightarrow> bool) \<Rightarrow> int \<Rightarrow> string \<Rightarrow> int" where
  "positive_or ok d text = (if text = [] then d else case Atoi text of None \<Rightarrow> d | Some n \<Rightarrow> if ok n then n else d)"

definition parsePagination :: "api_call \<Rightarrow> int \<times> int" where
  "parsePagination q = (positive_or (\<lambda>n. n > 0) 25 (aq_query q ''limit''), positive_or (\<lambda>n. n \<ge> 0) 0 (aq_query q ''offset''))"

definition queryUUID :: "'s api_env \<Rightarrow> api_call \<Rightarrow> string \<Rightarrow> (uuid option \<Rightarrow> api_response db) \<Rightarrow> api_response db" where
  "queryUUID v q name f =
     (let val = aq_query q name in
      if val = [] then f None
      else case av_uuid v val of None \<Rightarrow> ret (invalid_uuid name) | Some i \<Rightarrow> f (Some i))"

text \<open>A service call and what its handler writes. A panic passes by.\<close>

definition api_respond :: "('a \<Rightarrow> api_response) \<Rightarrow> 'a db \<Rightarrow> api_response db" where
  "api_respond ok m = (\<lambda>w s.
     case m w s of
       (Inr x, s') \<Rightarrow> (Inr (ok x), s')
     | (Inl e, s') \<Rightarrow> if panics e then (Inl e, s') else (Inr (response_Error (HandleError e)), s'))"

subsection \<open>Entity types, systems, overlay schemas\<close>

definition EntityTypeHandler_List :: "'s api_env \<Rightarrow> api_response db" where
  "EntityTypeHandler_List v = api_respond (\<lambda>items. response_JSON 200 (TypeListBody items (length items))) (ET_List (av_coll v))"

definition EntityTypeHandler_Create :: "'s api_env \<Rightarrow> request_context \<Rightarrow> api_call \<Rightarrow> api_response db" where
  "EntityTypeHandler_Create v ctx q = decodeJSON et_create_decoder zero_et_create q (\<lambda>req.
     api_respond (\<lambda>t. response_JSON 201 (TypeBody t)) (ET_Create (av_lib v) (av_render v) ctx req))"

definition EntityTypeHandler_GetByID :: "'s api_env \<Rightarrow> path_params \<Rightarrow> api_response db" where
  "EntityTypeHandler_GetByID v ps = pathUUID v ps ''type_id'' (\<lambda>i.
     api_respond (\<lambda>t. response_JSON 200 (TypeBody t)) (ET_GetByID i))"

definition EntityTypeHandler_Update :: "'s api_env \<Rightarrow> request_context \<Rightarrow> path_params \<Rightarrow> api_call \<Rightarrow> api_response db" where
  "EntityTypeHandler_Update v ctx ps q = pathUUID v ps ''type_id'' (\<lambda>i.
     decodeJSON et_update_decoder zero_et_update q (\<lambda>req.
     api_respond (\<lambda>t. response_JSON 200 (TypeBody t)) (ET_Update (av_lib v) (av_render v) ctx i req)))"

definition EntityTypeHandler_Delete :: "'s api_env \<Rightarrow> request_context \<Rightarrow> path_params \<Rightarrow> api_response db" where
  "EntityTypeHandler_Delete v ctx ps = pathUUID v ps ''type_id'' (\<lambda>i.
     api_respond (\<lambda>_. response_NoContent) (ET_Delete (av_render v) ctx i))"

definition SystemHandler_List :: "'s api_env \<Rightarrow> request_context \<Rightarrow> api_response db" where
  "SystemHandler_List v ctx = api_respond (\<lambda>items. response_JSON 200 (SystemListBody items (length items))) (Sys_List (av_coll v) ctx)"

definition SystemHandler_Create :: "'s api_env \<Rightarrow> request_context \<Rightarrow> api_call \<Rightarrow> api_response db" where
  "SystemHandler_Create v ctx q = decodeJSON sys_create_decoder zero_sys_create q (\<lambda>req.
     api_respond (\<lambda>x. response_JSON 201 (SystemBody x)) (Sys_Create (av_render v) ctx req))"

definition SystemHandler_GetByID :: "'s api_env \<Rightarrow> path_params \<Rightarrow> api_response db" where
  "SystemHandler_GetByID v ps = pathUUID v ps ''system_id'' (\<lambda>i.
     api_respond (\<lambda>x. response_JSON 200 (SystemBody x)) (Sys_GetByID i))"

definition SystemHandler_Patch :: "'s api_env \<Rightarrow> request_context \<Rightarrow> path_params \<Rightarrow> api_call \<Rightarrow> api_response db" where
  "SystemHandler_Patch v ctx ps q = pathUUID v ps ''system_id'' (\<lambda>i.
     decodeJSON sys_patch_decoder zero_sys_patch q (\<lambda>req.
     api_respond (\<lambda>x. response_JSON 200 (SystemBody x)) (Sys_Patch (av_render v) ctx i req)))"

definition OverlaySchemaHandler_List :: "'s api_env \<Rightarrow> path_params \<Rightarrow> api_response db" where
  "OverlaySchemaHandler_List v ps = pathUUID v ps ''system_id'' (\<lambda>sid.
     api_respond (\<lambda>items. response_JSON 200 (SchemaListBody items (length items))) (OS_ListBySystem sid))"

definition OverlaySchemaHandler_Create :: "'s api_env \<Rightarrow> request_context \<Rightarrow> path_params \<Rightarrow> api_call \<Rightarrow> api_response db" where
  "OverlaySchemaHandler_Create v ctx ps q = pathUUID v ps ''system_id'' (\<lambda>sid.
     decodeJSON (os_create_decoder (av_uuid v)) zero_os_create q (\<lambda>req.
     api_respond (\<lambda>x. response_JSON 201 (SchemaBody x)) (OS_Create (av_lib v) (av_render v) ctx sid req)))"

definition OverlaySchemaHandler_GetByID :: "'s api_env \<Rightarrow> path_params \<Rightarrow> api_response db" where
  "OverlaySchemaHandler_GetByID v ps = pathUUID v ps ''system_id'' (\<lambda>sid. pathUUID v ps ''schema_id'' (\<lambda>i.
     api_respond (\<lambda>x. response_JSON 200 (SchemaBody x)) (OS_GetByID sid i)))"

definition OverlaySchemaHandler_Update :: "'s api_env \<Rightarrow> request_context \<Rightarrow> path_params \<Rightarrow> api_call \<Rightarrow> api_response db" where
  "OverlaySchemaHandler_Update v ctx ps q = pathUUID v ps ''system_id'' (\<lambda>sid. pathUUID v ps ''schema_id'' (\<lambda>i.
     decodeJSON (raw_decoder ''allowed_overlay_properties'') zero_raw q (\<lambda>req.
     api_respond (\<lambda>x. response_JSON 200 (SchemaBody x)) (OS_Update (av_lib v) (av_render v) ctx sid i (rw_Value req)))))"

definition OverlaySchemaHandler_Delete :: "'s api_env \<Rightarrow> request_context \<Rightarrow> path_params \<Rightarrow> api_response db" where
  "OverlaySchemaHandler_Delete v ctx ps = pathUUID v ps ''system_id'' (\<lambda>sid. pathUUID v ps ''schema_id'' (\<lambda>i.
     api_respond (\<lambda>_. response_NoContent) (OS_Delete (av_render v) ctx sid i)))"

subsection \<open>Webhooks\<close>

definition WebhookHandler_List :: "'s api_env \<Rightarrow> path_params \<Rightarrow> api_call \<Rightarrow> api_response db" where
  "WebhookHandler_List v ps q = pathUUID v ps ''system_id'' (\<lambda>sid. let (limit, offset) = parsePagination q in
     api_respond (\<lambda>x. response_JSON 200 (HookListBody x)) (Hook_List sid limit offset))"

definition WebhookHandler_Create :: "'s api_env \<Rightarrow> request_context \<Rightarrow> path_params \<Rightarrow> api_call \<Rightarrow> api_response db" where
  "WebhookHandler_Create v ctx ps q = pathUUID v ps ''system_id'' (\<lambda>sid.
     decodeJSON hook_create_decoder zero_hook_create q (\<lambda>req.
     api_respond (\<lambda>x. response_JSON 201 (HookBody x)) (Hook_Create (av_render v) ctx sid req)))"

definition WebhookHandler_GetByID :: "'s api_env \<Rightarrow> path_params \<Rightarrow> api_response db" where
  "WebhookHandler_GetByID v ps = pathUUID v ps ''system_id'' (\<lambda>sid. pathUUID v ps ''webhook_id'' (\<lambda>i.
     api_respond (\<lambda>x. response_JSON 200 (HookBody x)) (Hook_GetByID sid i)))"

definition WebhookHandler_Update :: "'s api_env \<Rightarrow> request_context \<Rightarrow> path_params \<Rightarrow> api_call \<Rightarrow> api_response db" where
  "WebhookHandler_Update v ctx ps q = pathUUID v ps ''system_id'' (\<lambda>sid. pathUUID v ps ''webhook_id'' (\<lambda>i.
     decodeJSON hook_update_decoder zero_hook_update q (\<lambda>req.
     api_respond (\<lambda>x. response_JSON 200 (HookBody x)) (Hook_Update (av_render v) ctx sid i req))))"

definition WebhookHandler_Delete :: "'s api_env \<Rightarrow> request_context \<Rightarrow> path_params \<Rightarrow> api_response db" where
  "WebhookHandler_Delete v ctx ps = pathUUID v ps ''system_id'' (\<lambda>sid. pathUUID v ps ''webhook_id'' (\<lambda>i.
     api_respond (\<lambda>_. response_NoContent) (Hook_Delete (av_render v) ctx sid i)))"

subsection \<open>Entities, relations, overlays\<close>

definition EntityHandler_List :: "api_call \<Rightarrow> api_response db" where
  "EntityHandler_List q = (let (limit, offset) = parsePagination q in
     api_respond (\<lambda>x. response_JSON 200 (EntityListBody x)) (Ent_List (aq_query q ''type'') limit offset))"

definition EntityHandler_Create :: "'s api_env \<Rightarrow> request_context \<Rightarrow> api_call \<Rightarrow> api_response db" where
  "EntityHandler_Create v ctx q = decodeJSON (ent_create_decoder (av_uuid v)) zero_ent_create q (\<lambda>req.
     api_respond (\<lambda>e. response_JSON 201 (EntityBody e)) (Ent_Create (av_lib v) (av_render v) ctx req))"

definition EntityHandler_BulkCreate :: "'s api_env \<Rightarrow> request_context \<Rightarrow> api_call \<Rightarrow> api_response db" where
  "EntityHandler_BulkCreate v ctx q = decodeJSON (bulk_decoder (av_uuid v)) zero_bulk q (\<lambda>req.
     api_respond (\<lambda>r. response_JSON 200 (BulkBody r)) (BulkCreate (av_lib v) (av_render v) ctx (bq_Entities req) (bq_Mode req)))"

definition EntityHandler_GetByID :: "'s api_env \<Rightarrow> path_params \<Rightarrow> api_response db" where
  "EntityHandler_GetByID v ps = pathUUID v ps ''entity_id'' (\<lambda>i.
     api_respond (\<lambda>e. response_JSON 200 (EntityBody e)) (Ent_GetByID i))"

definition EntityHandler_Update :: "'s api_env \<Rightarrow> request_context \<Rightarrow> path_params \<Rightarrow> api_call \<Rightarrow> api_response db" where
  "EntityHandler_Update v ctx ps q = pathUUID v ps ''entity_id'' (\<lambda>i.
     decodeJSON (raw_decoder ''properties'') zero_raw q (\<lambda>req.
     api_respond (\<lambda>e. response_JSON 200 (EntityBody e)) (Ent_Update (av_lib v) (av_render v) ctx i (rw_Value req))))"

definition EntityHandler_Delete :: "'s api_env \<Rightarrow> request_context \<Rightarrow> path_params \<Rightarrow> api_response db" where
  "EntityHandler_Delete v ctx ps = pathUUID v ps ''entity_id'' (\<lambda>i.
     api_respond (\<lambda>_. response_NoContent) (Ent_Delete (av_render v) ctx i))"

definition RelationHandler_Create :: "'s api_env \<Rightarrow> request_context \<Rightarrow> api_call \<Rightarrow> api_response db" where
  "RelationHandler_Create v ctx q = decodeJSON (rel_create_decoder (av_uuid v)) zero_rel_create q (\<lambda>req.
     api_respond (\<lambda>r. response_JSON 201 (RelationBody r)) (Rel_Create (av_render v) ctx req))"

definition RelationHandler_GetByID :: "'s api_env \<Rightarrow> path_params \<Rightarrow> api_response db" where
  "RelationHandler_GetByID v ps = pathUUID v ps ''relation_id'' (\<lambda>i.
     api_respond (\<lambda>r. response_JSON 200 (RelationBody r)) (Rel_GetByID i))"

definition RelationHandler_ListByEntity ::
  "'s api_env \<Rightarrow> request_context \<Rightarrow> path_params \<Rightarrow> api_call \<Rightarrow> api_response db" where
  "RelationHandler_ListByEntity v ctx ps q = pathUUID v ps ''entity_id'' (\<lambda>i.
     let (limit, offset) = parsePagination q in queryUUID v q ''system_id'' (\<lambda>sys.
     let params = \<lparr>rp_RelationType = aq_query q ''relation_type'', rp_SystemID = sys, rp_Limit = limit, rp_Offset = offset\<rparr> in
     api_respond (\<lambda>r. response_JSON 200 (RelationListBody r))
       (bind (Rel_ListByEntity i params) (\<lambda>result.
        bind (LogRetrieval ctx
               (JObj [(''entity_id'', JStr (re_uuid (av_render v) i)), (''limit'', json_int limit), (''offset'', json_int offset),
                  (''relation_type'', JStr (rp_RelationType params)), (''system_id'', uuid_or_null (av_render v) sys)])
               (uuidRefsJSON (av_render v) (map rel_ID (rr_Items result)))) (\<lambda>_.
        ret result)))))"

definition RelationHandler_Delete :: "'s api_env \<Rightarrow> request_context \<Rightarrow> path_params \<Rightarrow> api_response db" where
  "RelationHandler_Delete v ctx ps = pathUUID v ps ''relation_id'' (\<lambda>i.
     api_respond (\<lambda>_. response_NoContent) (Rel_Delete (av_render v) ctx i))"

definition OverlayHandler_List :: "'s api_env \<Rightarrow> request_context \<Rightarrow> path_params \<Rightarrow> api_call \<Rightarrow> api_response db" where
  "OverlayHandler_List v ctx ps q = pathUUID v ps ''entity_id'' (\<lambda>ent. let (limit, offset) = parsePagination q in
     api_respond (\<lambda>x. response_JSON 200 (OverlayListBody x)) (PO_ListByEntity ctx ent limit offset))"

definition OverlayHandler_Create :: "'s api_env \<Rightarrow> request_context \<Rightarrow> path_params \<Rightarrow> api_call \<Rightarrow> api_response db" where
  "OverlayHandler_Create v ctx ps q = pathUUID v ps ''entity_id'' (\<lambda>ent.
     decodeJSON (raw_decoder ''properties'') zero_raw q (\<lambda>req.
     api_respond (\<lambda>x. response_JSON 201 (OverlayBody x)) (PO_Create (av_lib v) (av_render v) ctx ent (rw_Value req))))"

definition OverlayHandler_GetByID :: "'s api_env \<Rightarrow> request_context \<Rightarrow> path_params \<Rightarrow> api_response db" where
  "OverlayHandler_GetByID v ctx ps = pathUUID v ps ''entity_id'' (\<lambda>ent. pathUUID v ps ''overlay_id'' (\<lambda>i.
     api_respond (\<lambda>x. response_JSON 200 (OverlayBody x)) (PO_GetByID ctx ent i)))"

definition OverlayHandler_Update :: "'s api_env \<Rightarrow> request_context \<Rightarrow> path_params \<Rightarrow> api_call \<Rightarrow> api_response db" where
  "OverlayHandler_Update v ctx ps q = pathUUID v ps ''entity_id'' (\<lambda>ent. pathUUID v ps ''overlay_id'' (\<lambda>i.
     decodeJSON (raw_decoder ''properties'') zero_raw q (\<lambda>req.
     api_respond (\<lambda>x. response_JSON 200 (OverlayBody x)) (PO_Update (av_lib v) (av_render v) ctx ent i (rw_Value req)))))"

definition OverlayHandler_Delete :: "'s api_env \<Rightarrow> request_context \<Rightarrow> path_params \<Rightarrow> api_response db" where
  "OverlayHandler_Delete v ctx ps = pathUUID v ps ''entity_id'' (\<lambda>ent. pathUUID v ps ''overlay_id'' (\<lambda>i.
     api_respond (\<lambda>_. response_NoContent) (PO_Delete (av_render v) ctx ent i)))"

subsection \<open>Retrieval, identity, dashboard\<close>

definition bad_request :: "string \<Rightarrow> api_response db" where
  "bad_request text = ret (response_Error (HandleError (ApiE (api_BadRequest [Lit text]))))"

definition RetrievalHandler_Lookup :: "'s api_env \<Rightarrow> request_context \<Rightarrow> api_call \<Rightarrow> api_response db" where
  "RetrievalHandler_Lookup v ctx q =
     (let typeName = aq_query q ''type''; externalID = aq_query q ''external_id'' in
      if typeName = [] \<or> externalID = [] then bad_request ''type and external_id query parameters are required''
      else queryUUID v q ''system_id'' (\<lambda>sys.
        api_respond (\<lambda>x. response_JSON 200 (ViewBody x)) (Lookup (av_coll v) (av_render v) ctx typeName externalID sys)))"

text \<open>\<open>json.Unmarshal\<close> into a map takes an object or null.\<close>

definition object_text :: "'s api_env \<Rightarrow> string \<Rightarrow> json option" where
  "object_text v t = (case av_json v t of Some (JObj kvs) \<Rightarrow> Some (JObj kvs) | Some JNull \<Rightarrow> Some JNull | _ \<Rightarrow> None)"

definition RetrievalHandler_Filter :: "'s api_env \<Rightarrow> request_context \<Rightarrow> api_call \<Rightarrow> api_response db" where
  "RetrievalHandler_Filter v ctx q =
     (let filterStr = aq_query q ''filter'' in
      if filterStr = [] then bad_request ''filter query parameter is required''
      else case object_text v filterStr of
        None \<Rightarrow> bad_request (''filter must be a valid JSON object (e.g. {'' @ Quote ''department'' @ '':'' @ Quote ''ops'' @ ''})'')
      | Some flt \<Rightarrow> (let (limit, offset) = parsePagination q in
          api_respond (\<lambda>x. response_JSON 200 (ViewPageBody x))
            (Filter (av_contains v) (av_render v) ctx (aq_query q ''type'') (Some flt) limit offset)))"

definition RetrievalHandler_Changelog :: "'s api_env \<Rightarrow> request_context \<Rightarrow> api_call \<Rightarrow> api_response db" where
  "RetrievalHandler_Changelog v ctx q =
     (let sinceStr = aq_query q ''since'' in
      if sinceStr = [] then bad_request ''since query parameter is required (RFC3339 format, e.g. 2026-01-01T00:00:00Z)''
      else case av_time v sinceStr of
        None \<Rightarrow> bad_request ''since must be a valid RFC3339 timestamp (e.g. 2026-01-01T00:00:00Z)''
      | Some since \<Rightarrow> queryUUID v q ''system_id'' (\<lambda>sys. let (limit, offset) = parsePagination q in
          api_respond (\<lambda>x. response_JSON 200 (ChangelogBody x)) (ListChangelog (av_render v) ctx since sys limit offset)))"

definition RetrievalHandler_Export :: "'s api_env \<Rightarrow> request_context \<Rightarrow> api_call \<Rightarrow> api_response db" where
  "RetrievalHandler_Export v ctx q = (let (limit, offset) = parsePagination q in
     api_respond (\<lambda>x. response_JSON 200 (ViewPageBody x))
       (Export (av_coll v) (av_render v) ctx (aq_query q ''type'') None limit offset))"

definition me_of :: "'s api_env \<Rightarrow> identity \<Rightarrow> me_response" where
  "me_of v i = \<lparr>mr_Sub = id_Subject i, mr_Provider = id_Provider i,
     mr_EntityID = (if id_EntityID i \<noteq> uuid_Nil then re_uuid (av_render v) (id_EntityID i) else []),
     mr_Groups = id_Groups i, mr_IsPlatformAdmin = id_IsPlatformAdmin i,
     mr_AllowedSystems = map (re_uuid (av_render v)) (id_AllowedSystems i)\<rparr>"

definition MeHandler_Get :: "'s api_env \<Rightarrow> request_context \<Rightarrow> api_response db" where
  "MeHandler_Get v ctx = bind (MustIdentity ctx) (\<lambda>i. ret (response_JSON 200 (MeBody (me_of v i))))"

definition StatsHandler_Get :: "'s api_env \<Rightarrow> api_response db" where
  "StatsHandler_Get v = api_respond (\<lambda>x. response_JSON 200 (StatsBody x)) (Stats (av_cast_all v))"

definition UsersHandler_admin_List :: "api_call \<Rightarrow> api_response db" where
  "UsersHandler_admin_List q = (let (limit, offset) = parsePagination q in
     api_respond (\<lambda>x. response_JSON 200 (UserListBody x)) (Useradmin_List limit offset))"

subsection \<open>Routes (\<open>router.go\<close>)\<close>

datatype api_endpoint = Me_get
  | Types_list | Types_create | Types_get | Types_put | Types_delete
  | Systems_list | Systems_create | Systems_get | Systems_patch
  | Schemas_list | Schemas_create | Schemas_get | Schemas_put | Schemas_delete
  | Hooks_list | Hooks_create | Hooks_get | Hooks_patch | Hooks_delete
  | Admin_users | Stats_get | Changelog_get | Export_get
  | Entities_lookup | Entities_search | Entities_bulk | Entities_create | Entities_list
  | Entities_get | Entities_patch | Entities_delete | Entity_relations
  | Overlays_list | Overlays_create | Overlays_get | Overlays_put | Overlays_delete
  | Relations_create | Relations_get | Relations_delete

text \<open>The route \<open>/\<close> of a group answers with and without the slash.\<close>

definition root :: "string \<Rightarrow> segment list \<Rightarrow> 'e \<Rightarrow> 'e route list" where
  "root m pat e = [(m, pat, e), (m, pat @ [Seg []], e)]"

definition schemas_path :: "segment list" where
  "schemas_path = [Seg ''systems'', Param ''system_id'', Seg ''overlay-schemas'']"

definition webhooks_path :: "segment list" where
  "webhooks_path = [Seg ''systems'', Param ''system_id'', Seg ''webhooks'']"

definition overlays_path :: "segment list" where
  "overlays_path = [Seg ''entities'', Param ''entity_id'', Seg ''overlays'']"

definition type_routes :: "api_endpoint route list" where
  "type_routes = root ''GET'' [Seg ''entity-types''] Types_list @ root ''POST'' [Seg ''entity-types''] Types_create
     @ [(''GET'', [Seg ''entity-types'', Param ''type_id''], Types_get), (''PUT'', [Seg ''entity-types'', Param ''type_id''], Types_put),
        (''DELETE'', [Seg ''entity-types'', Param ''type_id''], Types_delete)]"

definition system_routes :: "api_endpoint route list" where
  "system_routes = root ''GET'' [Seg ''systems''] Systems_list @ root ''POST'' [Seg ''systems''] Systems_create
     @ root ''GET'' [Seg ''systems'', Param ''system_id''] Systems_get @ root ''PATCH'' [Seg ''systems'', Param ''system_id''] Systems_patch
     @ root ''GET'' schemas_path Schemas_list @ root ''POST'' schemas_path Schemas_create
     @ [(''GET'', schemas_path @ [Param ''schema_id''], Schemas_get), (''PUT'', schemas_path @ [Param ''schema_id''], Schemas_put),
        (''DELETE'', schemas_path @ [Param ''schema_id''], Schemas_delete)]
     @ root ''GET'' webhooks_path Hooks_list @ root ''POST'' webhooks_path Hooks_create
     @ root ''GET'' (webhooks_path @ [Param ''webhook_id'']) Hooks_get
     @ root ''PATCH'' (webhooks_path @ [Param ''webhook_id'']) Hooks_patch
     @ root ''DELETE'' (webhooks_path @ [Param ''webhook_id'']) Hooks_delete"

definition entity_routes :: "api_endpoint route list" where
  "entity_routes =
     [(''GET'', [Seg ''entities'', Seg ''lookup''], Entities_lookup), (''GET'', [Seg ''entities'', Seg ''search''], Entities_search),
      (''POST'', [Seg ''entities'', Seg ''bulk''], Entities_bulk)]
     @ root ''POST'' [Seg ''entities''] Entities_create @ root ''GET'' [Seg ''entities''] Entities_list
     @ root ''GET'' [Seg ''entities'', Param ''entity_id''] Entities_get
     @ root ''PATCH'' [Seg ''entities'', Param ''entity_id''] Entities_patch
     @ root ''DELETE'' [Seg ''entities'', Param ''entity_id''] Entities_delete
     @ [(''GET'', [Seg ''entities'', Param ''entity_id'', Seg ''relations''], Entity_relations)]
     @ root ''GET'' overlays_path Overlays_list @ root ''POST'' overlays_path Overlays_create
     @ root ''GET'' (overlays_path @ [Param ''overlay_id'']) Overlays_get
     @ root ''PUT'' (overlays_path @ [Param ''overlay_id'']) Overlays_put
     @ root ''DELETE'' (overlays_path @ [Param ''overlay_id'']) Overlays_delete"

definition relation_routes :: "api_endpoint route list" where
  "relation_routes = root ''POST'' [Seg ''relations''] Relations_create
     @ root ''GET'' [Seg ''relations'', Param ''relation_id''] Relations_get
     @ root ''DELETE'' [Seg ''relations'', Param ''relation_id''] Relations_delete"

definition api_routes :: "api_endpoint route list" where
  "api_routes = (''GET'', [Seg ''me''], Me_get) # type_routes @ system_routes @ root ''GET'' [Seg ''users''] Admin_users
     @ [(''GET'', [Seg ''stats''], Stats_get), (''GET'', [Seg ''changelog''], Changelog_get), (''GET'', [Seg ''export''], Export_get)]
     @ entity_routes @ relation_routes"

subsection \<open>Gates\<close>

text \<open>The middlewares of \<open>r.With(...)\<close> in front of a route.\<close>

type_synonym request_gate = "http_request \<Rightarrow> identity option \<Rightarrow> gate"

definition all_roles :: "string list" where
  "all_roles = [''admin'', ''system-admin'', ''editor'', ''viewer'']"

definition editors :: "string list" where
  "editors = [''admin'', ''editor'']"

definition system_admins :: "string list" where
  "system_admins = [''admin'', ''system-admin'']"

fun route_gates :: "(string \<Rightarrow> uuid option) \<Rightarrow> api_endpoint \<Rightarrow> request_gate list" where
  "route_gates up e =
     (if e \<in> {Types_create, Types_put, Types_delete, Systems_create} then [\<lambda>r. RequirePlatformAdmin]
      else if e = Systems_list then [\<lambda>r. RequireAnyRole all_roles]
      else if e = Systems_get then [\<lambda>r. RequireAnyRole all_roles, RequirePathSystemInScope up ''system_id'']
      else if e = Systems_patch then [\<lambda>r. RequireAnyRole system_admins, RequirePathSystemInScope up ''system_id'']
      else if e \<in> {Entities_bulk, Entities_create, Entities_patch, Entities_delete, Overlays_create, Overlays_put, Overlays_delete,
                   Relations_create, Relations_delete} then [\<lambda>r. RequireAnyRole editors]
      else [])"

text \<open>The middlewares of \<open>r.Use(...)\<close>: they run for every path below the pattern, known or not.\<close>

definition group_gates :: "(string \<Rightarrow> uuid option) \<Rightarrow> (segment list \<times> request_gate list) list" where
  "group_gates up =
     [(schemas_path, [\<lambda>r. RequireAnyRole system_admins, RequirePathSystemInScope up ''system_id'']),
      (webhooks_path, [\<lambda>r. RequireRole ''admin'', \<lambda>r. RequireSystemScope]),
      ([Seg ''users''], [\<lambda>r. RequireRole ''admin''])]"

fun match_prefix :: "segment list \<Rightarrow> string list \<Rightarrow> path_params option" where
  "match_prefix [] xs = Some []"
| "match_prefix (Seg t # ps) (x # xs) = (if x = t then match_prefix ps xs else None)"
| "match_prefix (Param n # ps) (x # xs) = map_option ((#) (n, x)) (match_prefix ps xs)"
| "match_prefix (_ # ps) [] = None"

fun first_refusal :: "request_gate list \<Rightarrow> http_request \<Rightarrow> identity option \<Rightarrow> APIError option" where
  "first_refusal [] r ctx = None"
| "first_refusal (g # gs) r ctx = (case g r ctx of Inl e \<Rightarrow> Some e | Inr _ \<Rightarrow> first_refusal gs r ctx)"

definition routed :: "api_call \<Rightarrow> path_params \<Rightarrow> http_request" where
  "routed q ps = (aq_request q)\<lparr>rq_url_param := param ps\<rparr>"

fun group_refusal :: "(segment list \<times> request_gate list) list \<Rightarrow> api_call \<Rightarrow> identity option \<Rightarrow> APIError option" where
  "group_refusal [] q ctx = None"
| "group_refusal ((pat, gs) # groups) q ctx =
     (case match_prefix pat (aq_path q) of
        None \<Rightarrow> group_refusal groups q ctx
      | Some ps \<Rightarrow> first_refusal gs (routed q ps) ctx)"

subsection \<open>The whole mount\<close>

fun api_handler :: "'s api_env \<Rightarrow> api_endpoint \<Rightarrow> request_context \<Rightarrow> path_params \<Rightarrow> api_call \<Rightarrow> api_response db" where
  "api_handler v Me_get ctx ps q = MeHandler_Get v ctx"
| "api_handler v Types_list ctx ps q = EntityTypeHandler_List v"
| "api_handler v Types_create ctx ps q = EntityTypeHandler_Create v ctx q"
| "api_handler v Types_get ctx ps q = EntityTypeHandler_GetByID v ps"
| "api_handler v Types_put ctx ps q = EntityTypeHandler_Update v ctx ps q"
| "api_handler v Types_delete ctx ps q = EntityTypeHandler_Delete v ctx ps"
| "api_handler v Systems_list ctx ps q = SystemHandler_List v ctx"
| "api_handler v Systems_create ctx ps q = SystemHandler_Create v ctx q"
| "api_handler v Systems_get ctx ps q = SystemHandler_GetByID v ps"
| "api_handler v Systems_patch ctx ps q = SystemHandler_Patch v ctx ps q"
| "api_handler v Schemas_list ctx ps q = OverlaySchemaHandler_List v ps"
| "api_handler v Schemas_create ctx ps q = OverlaySchemaHandler_Create v ctx ps q"
| "api_handler v Schemas_get ctx ps q = OverlaySchemaHandler_GetByID v ps"
| "api_handler v Schemas_put ctx ps q = OverlaySchemaHandler_Update v ctx ps q"
| "api_handler v Schemas_delete ctx ps q = OverlaySchemaHandler_Delete v ctx ps"
| "api_handler v Hooks_list ctx ps q = WebhookHandler_List v ps q"
| "api_handler v Hooks_create ctx ps q = WebhookHandler_Create v ctx ps q"
| "api_handler v Hooks_get ctx ps q = WebhookHandler_GetByID v ps"
| "api_handler v Hooks_patch ctx ps q = WebhookHandler_Update v ctx ps q"
| "api_handler v Hooks_delete ctx ps q = WebhookHandler_Delete v ctx ps"
| "api_handler v Admin_users ctx ps q = UsersHandler_admin_List q"
| "api_handler v Stats_get ctx ps q = StatsHandler_Get v"
| "api_handler v Changelog_get ctx ps q = RetrievalHandler_Changelog v ctx q"
| "api_handler v Export_get ctx ps q = RetrievalHandler_Export v ctx q"
| "api_handler v Entities_lookup ctx ps q = RetrievalHandler_Lookup v ctx q"
| "api_handler v Entities_search ctx ps q = RetrievalHandler_Filter v ctx q"
| "api_handler v Entities_bulk ctx ps q = EntityHandler_BulkCreate v ctx q"
| "api_handler v Entities_create ctx ps q = EntityHandler_Create v ctx q"
| "api_handler v Entities_list ctx ps q = EntityHandler_List q"
| "api_handler v Entities_get ctx ps q = EntityHandler_GetByID v ps"
| "api_handler v Entities_patch ctx ps q = EntityHandler_Update v ctx ps q"
| "api_handler v Entities_delete ctx ps q = EntityHandler_Delete v ctx ps"
| "api_handler v Entity_relations ctx ps q = RelationHandler_ListByEntity v ctx ps q"
| "api_handler v Overlays_list ctx ps q = OverlayHandler_List v ctx ps q"
| "api_handler v Overlays_create ctx ps q = OverlayHandler_Create v ctx ps q"
| "api_handler v Overlays_get ctx ps q = OverlayHandler_GetByID v ctx ps"
| "api_handler v Overlays_put ctx ps q = OverlayHandler_Update v ctx ps q"
| "api_handler v Overlays_delete ctx ps q = OverlayHandler_Delete v ctx ps"
| "api_handler v Relations_create ctx ps q = RelationHandler_Create v ctx q"
| "api_handler v Relations_get ctx ps q = RelationHandler_GetByID v ps"
| "api_handler v Relations_delete ctx ps q = RelationHandler_Delete v ctx ps"

definition api_routed :: "'s api_env \<Rightarrow> request_context \<Rightarrow> api_call \<Rightarrow> api_response db" where
  "api_routed v ctx q =
     (case group_refusal (group_gates (av_uuid v)) q ctx of
        Some e \<Rightarrow> ret (response_Error e)
      | None \<Rightarrow>
          (case find_route api_routes (aq_method q) (aq_path q) of
             NotFound \<Rightarrow> ret (response_JSON 404 (PlainBody ''404 page not found''))
           | MethodNotAllowed \<Rightarrow> ret (response_JSON 405 EmptyBody)
           | Found e ps \<Rightarrow>
               (case first_refusal (route_gates (av_uuid v) e) (routed q ps) ctx of
                  Some err \<Rightarrow> ret (response_Error err)
                | None \<Rightarrow> api_handler v e ctx ps q)))"

text \<open>
  A call with its state: the identities and their cache, and the session. The context holds the identity
  that the authentication found. \<open>Recovery\<close> is around everything.
\<close>

definition api_http ::
  "'s api_env \<Rightarrow> 'k authn_config \<Rightarrow> gotime \<Rightarrow> gotime \<Rightarrow> api_call \<Rightarrow> world \<Rightarrow> auth_state \<Rightarrow> sess \<Rightarrow> api_response \<times> auth_state \<times> sess" where
  "api_http v cfg now1 now2 q w st s =
     (case Authentication cfg \<lparr>ae_now1 = now1, ae_now2 = now2, ae_resolver = pgx_source w\<rparr> (aq_request q) st s of
        (Inl e, st', s') \<Rightarrow> (response_Error e, st', s')
      | (Inr p, st', s') \<Rightarrow>
          (case api_routed v (Some (as_heap st' ! p)) q w s' of
             (Inl e, s'') \<Rightarrow> (response_Error (api_Internal [Lit ''an unexpected error occurred'']), st', s'')
           | (Inr resp, s'') \<Rightarrow> (resp, st', s'')))"

end
