(* ===== verification/Api_Http_Rules.thy ===== *)
theory Api_Http_Rules
  imports Api_Http
begin

section \<open>Who may do what through the API\<close>

text \<open>
  The contract of the management API: for each request of the services the access level its caller needs,
  and the system that has to be within the caller's reach. \<open>honours_contract\<close> says of a handler that it does
  nothing to the tables (the retrieval log aside) or what a permitted request does.
\<close>

subsection \<open>The contract\<close>

fun required_level :: "core_request \<Rightarrow> access" where
  "required_level (CreateType _) = PlatformAdmin" | "required_level (UpdateType _ _) = PlatformAdmin"
| "required_level (DeleteType _) = PlatformAdmin" | "required_level (CreateSystem _) = PlatformAdmin"
| "required_level (CreateHook _ _) = PlatformAdmin" | "required_level (UpdateHook _ _ _) = PlatformAdmin"
| "required_level (DeleteHook _ _) = PlatformAdmin"
| "required_level (PatchSystem _ _) = SystemAdmin" | "required_level (CreateSchema _ _) = SystemAdmin"
| "required_level (UpdateSchema _ _ _) = SystemAdmin" | "required_level (DeleteSchema _ _) = SystemAdmin"
| "required_level _ = Editor"

fun target_system :: "core_request \<Rightarrow> uuid option" where
  "target_system (PatchSystem sys _) = Some sys" | "target_system (CreateSchema sys _) = Some sys"
| "target_system (UpdateSchema sys _ _) = Some sys" | "target_system (DeleteSchema sys _) = Some sys"
| "target_system _ = None"

fun of_webhooks :: "core_request \<Rightarrow> bool" where
  "of_webhooks (CreateHook _ _) = True" | "of_webhooks (UpdateHook _ _ _) = True" | "of_webhooks (DeleteHook _ _) = True"
| "of_webhooks _ = False"

definition permitted :: "identity \<Rightarrow> core_request \<Rightarrow> bool" where
  "permitted i rq \<longleftrightarrow> required_level rq \<le> access_of i
     \<and> (\<forall>sys. target_system rq = Some sys \<longrightarrow> id_IsPlatformAdmin i \<or> sys \<in> set (id_AllowedSystems i))
     \<and> (of_webhooks rq \<longrightarrow> id_ActiveSystemID i \<noteq> None)"

definition unlogged :: "database \<Rightarrow> database" where
  "unlogged d = d\<lparr>db_retrievals := []\<rparr>"

definition same_core :: "database \<Rightarrow> database \<Rightarrow> bool" where
  "same_core d d' \<longleftrightarrow> unlogged d' = unlogged d"

lemma same_core_props [db_intros]: "reflp same_core" "transp same_core"
  by (auto simp: same_core_def intro!: reflpI transpI)

definition honours_contract :: "'s api_env \<Rightarrow> identity \<Rightarrow> api_response db \<Rightarrow> bool" where
  "honours_contract v i m \<longleftrightarrow> (\<forall>w (s :: sess) r s'. s_tx s = None \<longrightarrow> m w s = (r, s') \<longrightarrow>
     same_core (s_db s) (s_db s') \<and> s_tx s' = None
     \<or> (\<exists>rq out. core_serve (av_lib v) (av_render v) (Some i) rq w s = (out, s') \<and> permitted i rq
          \<and> (out = Inr () \<longrightarrow> (\<exists>resp. r = Inr resp \<and> ap_Status resp < 300))))"

subsection \<open>Rules for handlers\<close>

lemma contract_ret [intro]: "honours_contract v i (ret resp)"
  by (simp add: honours_contract_def ret_def same_core_def)

lemma endpoint_pathUUID:
  "(\<And>x. av_uuid v (param ps name) = Some x \<Longrightarrow> honours_contract v i (f x)) \<Longrightarrow> honours_contract v i (pathUUID v ps name f)"
  by (simp add: pathUUID_def contract_ret split: option.splits)

lemma endpoint_decodeJSON: "(\<And>x. honours_contract v i (f x)) \<Longrightarrow> honours_contract v i (decodeJSON d zero q f)"
  by (simp add: decodeJSON_def contract_ret split: option.splits)

lemma endpoint_queryUUID: "(\<And>x. honours_contract v i (f x)) \<Longrightarrow> honours_contract v i (queryUUID v q name f)"
  by (simp add: queryUUID_def Let_def contract_ret split: option.splits)

lemma endpoint_bad_request: "honours_contract v i (bad_request t)"
  by (simp add: bad_request_def contract_ret)

lemma api_respond_state: "snd (api_respond ok m w s) = snd (m w s)"
  by (simp add: api_respond_def split: prod.splits sum.splits)

lemma endpoint_read:
  assumes "safe same_core m"
  shows "honours_contract v i (api_respond ok m)"
  unfolding honours_contract_def
proof (intro allI impI disjI1)
  fix w and s :: sess and r s' assume "s_tx s = None" and run: "api_respond ok m w s = (r, s')"
  with safeD [OF assms, of s w] have "same_core (s_db s) (s_db (snd (m w s))) \<and> s_tx (snd (m w s)) = None" by blast
  moreover from api_respond_state [of ok m w s] run have "snd (m w s) = s'" by simp
  ultimately show "same_core (s_db s) (s_db s') \<and> s_tx s' = None" by simp
qed

lemma quietly_unit: "quietly m = m"
  by (simp add: quietly_def bind_def ret_def fun_eq_iff split: prod.splits sum.splits)

lemma endpoint_write:
  assumes "quietly m = core_serve (av_lib v) (av_render v) (Some i) rq" "\<And>x. ap_Status (ok x) < 300" "permitted i rq"
  shows "honours_contract v i (api_respond ok m)"
  unfolding honours_contract_def
proof (intro allI impI disjI2)
  fix w and s :: sess and r s' assume run: "api_respond ok m w s = (r, s')"
  obtain o' s1 where m: "m w s = (o', s1)" by fastforce
  with api_respond_state [of ok m w s] run have s1: "s1 = s'" by simp
  have "quietly m w s = (map_sum id (\<lambda>_. ()) o', s')"
    using m s1 by (simp add: quietly_def bind_def ret_def split: sum.splits)
  moreover have "map_sum id (\<lambda>_. ()) o' = Inr () \<longrightarrow> (\<exists>resp. r = Inr resp \<and> ap_Status resp < 300)"
    using run m assms(2) by (cases o') (auto simp: api_respond_def)
  ultimately show "\<exists>rq out. core_serve (av_lib v) (av_render v) (Some i) rq w s = (out, s') \<and> permitted i rq
          \<and> (out = Inr () \<longrightarrow> (\<exists>resp. r = Inr resp \<and> ap_Status resp < 300))"
    using assms(1,3) by metis
qed

subsection \<open>Reads\<close>

lemma safe_preserving: "preserving R m \<Longrightarrow> safe R m"
  unfolding safe_def
proof (intro allI impI)
  fix w and s :: sess assume "preserving R m" "s_tx s = None"
  with preservingD [of R m w s] show "R (s_db s) (s_db (snd (m w s))) \<and> s_tx (snd (m w s)) = None"
    by (cases "m w s") simp
qed

lemma preserving_split [db_intros]: "(\<And>a b. x = (a, b) \<Longrightarrow> preserving R (f a b)) \<Longrightarrow> preserving R (case x of (a, b) \<Rightarrow> f a b)"
  by (simp split: prod.splits)

lemma preserving_option [db_intros]:
  "preserving R m \<Longrightarrow> (\<And>y. preserving R (f y)) \<Longrightarrow> preserving R (case x of None \<Rightarrow> m | Some y \<Rightarrow> f y)"
  by (simp split: option.splits)

lemma exec_same_core: "(\<And>q d x d'. f q d = Inr (x, d') \<Longrightarrow> d' = d) \<Longrightarrow> preserving same_core (exec f)"
  by (rule preserving_exec) (auto simp: same_core_def intro: reflpI)

lemma log_same_core: "preserving same_core (logRetrieval ctx sys params refs)" "preserving same_core (LogRetrieval ctx params refs)"
proof -
  have "preserving same_core (exec (insert_retrieval caller params refs sys))" for caller params refs sys
    by (rule preserving_exec) (auto simp: same_core_def unlogged_def insert_retrieval_def intro: reflpI)
  then show l: "preserving same_core (logRetrieval ctx sys params refs)" for sys params refs
    unfolding logRetrieval_def WriteLog_def by (intro db_intros)
  show "preserving same_core (LogRetrieval ctx params refs)" unfolding LogRetrieval_def by (rule l)
qed

lemma reads_systems: "preserving same_core (Sys_List coll ctx)" "preserving same_core (Sys_GetByID i)"
  unfolding Sys_List_def Sys_GetByID_def Sys_repo_List_def Sys_repo_GetByID_def
  by (intro db_intros exec_same_core; simp add: select_systems_def select_system_def split: sum.splits option.splits list.splits)+

lemma reads_management:
  "preserving same_core (ET_List coll)" "preserving same_core (ET_GetByID i)"
  "preserving same_core (OS_ListBySystem i)" "preserving same_core (OS_GetByID i j)"
  "preserving same_core (Hook_List i lim off)" "preserving same_core (Hook_GetByID i j)"
  "preserving same_core (Ent_List tn lim off)" "preserving same_core (Ent_GetByID i)"
  "preserving same_core (PO_ListByEntity ctx i lim off)" "preserving same_core (PO_GetByID ctx i j)"
  "preserving same_core (Rel_ListByEntity i rp)" "preserving same_core (Rel_GetByID i)"
  unfolding ET_List_def ET_GetByID_def OS_ListBySystem_def OS_GetByID_def Hook_List_def Hook_GetByID_def
    Ent_List_def Ent_GetByID_def PO_ListByEntity_def PO_GetByID_def Rel_ListByEntity_def Rel_GetByID_def Let_def case_prod_beta
    ET_repo_List_def ET_repo_GetByID_def OS_repo_ListBySystem_def OS_repo_GetByID_def Hook_repo_List_def Hook_repo_GetByID_def
    scanSubscription_def Ent_repo_List_def Ent_repo_GetByID_def scanEntity_def PO_repo_ListByEntity_def PO_repo_GetByID_def scanOverlay_def
    Rel_repo_ListByEntity_def Rel_repo_GetByID_def resolveEntity_def assertSystemAccess_def
  by (intro db_intros)+

lemma reads_retrieval:
  "preserving same_core (Lookup coll env ctx tn ext sys)" "preserving same_core (Filter cont env ctx tn flt lim off)"
  "preserving same_core (ListChangelog env ctx since sys lim off)" "preserving same_core (Export coll env ctx tn sys lim off)"
  unfolding Lookup_def Filter_def ListChangelog_def Export_def LookupMerged_def FilterByProperties_def Let_def
    Ret_repo_ListChangelog_def ExportEntities_def Ret_assertSystemAccess_def overlay_properties_def
  by (intro db_intros log_same_core)+

lemma reads_users: "preserving same_core (Useradmin_List lim off)"
  unfolding Useradmin_List_def Useradmin_repo_List_def Let_def by (intro db_intros)

lemma reads_stats: "safe same_core (Stats c)"
proof -
  have active: "preserving same_core (exec (select_active_systems c))"
    by (rule exec_same_core) (simp add: select_active_systems_def Let_def split: sum.splits)
  have body: "preserving same_core (stats_body c)" unfolding stats_body_def by (intro db_intros active)
  have scope: "WithSystemScope None fn = WithAuthScope (Some ((new_identity [] [] [])\<lparr>id_ActiveSystemID := None\<rparr>)) fn" for fn :: "'x db"
    by (simp add: WithAuthScope_def MustIdentity_def bind_def ret_def fun_eq_iff)
  show ?thesis unfolding Stats_def scope
    by (rule safe_scope [OF preserving_keeps_snapshot [OF body] preserving_ensures [OF body] same_core_props(1)])
qed

subsection \<open>The gates give the contract\<close>

definition opened :: "'s api_env \<Rightarrow> path_params \<Rightarrow> api_call \<Rightarrow> identity \<Rightarrow> request_gate list \<Rightarrow> bool" where
  "opened v ps q i gs \<longleftrightarrow> first_refusal gs (routed q ps) (Some i) = None"

lemma opened_simps [simp]:
  "opened v ps q i []"
  "opened v ps q i (g # gs) \<longleftrightarrow> g (routed q ps) (Some i) = Inr () \<and> opened v ps q i gs"
  by (auto simp: opened_def split: sum.splits)

lemma gate_levels:
  "RequirePlatformAdmin (Some i) = Inr () \<longleftrightarrow> PlatformAdmin \<le> access_of i"
  "RequireRole ''admin'' (Some i) = Inr () \<longleftrightarrow> PlatformAdmin \<le> access_of i"
  "RequireAnyRole editors (Some i) = Inr () \<longleftrightarrow> Editor \<le> access_of i"
  "RequireAnyRole system_admins (Some i) = Inr () \<longleftrightarrow> SystemAdmin \<le> access_of i"
  "RequireSystemScope (Some i) = Inr () \<longleftrightarrow> id_ActiveSystemID i \<noteq> None"
  "RequirePathSystemInScope up n (routed q ps) (Some i) = Inr () \<longleftrightarrow>
     (\<exists>sys. up (param ps n) = Some sys \<and> (id_IsPlatformAdmin i \<or> sys \<in> set (id_AllowedSystems i)))"
  by (auto simp: gates_open role_level_def editors_def system_admins_def RequireSystemScope_def path_gate_open routed_def)
     (cases "access_of i"; simp add: less_eq_access_def)+

text \<open>The gates of the group of an endpoint.\<close>

definition schema_endpoints :: "api_endpoint set" where
  "schema_endpoints = {Schemas_list, Schemas_create, Schemas_get, Schemas_put, Schemas_delete}"

definition hook_endpoints :: "api_endpoint set" where
  "hook_endpoints = {Hooks_list, Hooks_create, Hooks_get, Hooks_patch, Hooks_delete}"

definition endpoint_group :: "'s api_env \<Rightarrow> api_endpoint \<Rightarrow> request_gate list" where
  "endpoint_group v e =
     (if e \<in> schema_endpoints then [\<lambda>r. RequireAnyRole system_admins, RequirePathSystemInScope (av_uuid v) ''system_id'']
      else if e \<in> hook_endpoints then [\<lambda>r. RequireRole ''admin'', \<lambda>r. RequireSystemScope]
      else if e = Admin_users then [\<lambda>r. RequireRole ''admin''] else [])"

lemma write_rules:
  "\<lbrakk>\<And>x. ap_Status (ok1 x) < 300; permitted i (CreateType b1)\<rbrakk> \<Longrightarrow> honours_contract v i (api_respond ok1 (ET_Create (av_lib v) (av_render v) (Some i) b1))"
  "\<lbrakk>\<And>x. ap_Status (ok1 x) < 300; permitted i (UpdateType j b2)\<rbrakk> \<Longrightarrow> honours_contract v i (api_respond ok1 (ET_Update (av_lib v) (av_render v) (Some i) j b2))"
  "\<lbrakk>\<And>x. ap_Status (ok2 x) < 300; permitted i (DeleteType j)\<rbrakk> \<Longrightarrow> honours_contract v i (api_respond ok2 (ET_Delete (av_render v) (Some i) j))"
  "\<lbrakk>\<And>x. ap_Status (ok3 x) < 300; permitted i (CreateSystem b3)\<rbrakk> \<Longrightarrow> honours_contract v i (api_respond ok3 (Sys_Create (av_render v) (Some i) b3))"
  "\<lbrakk>\<And>x. ap_Status (ok3 x) < 300; permitted i (PatchSystem j b4)\<rbrakk> \<Longrightarrow> honours_contract v i (api_respond ok3 (Sys_Patch (av_render v) (Some i) j b4))"
  "\<lbrakk>\<And>x. ap_Status (ok4 x) < 300; permitted i (CreateSchema j b5)\<rbrakk> \<Longrightarrow> honours_contract v i (api_respond ok4 (OS_Create (av_lib v) (av_render v) (Some i) j b5))"
  "\<lbrakk>\<And>x. ap_Status (ok4 x) < 300; permitted i (UpdateSchema j k raw)\<rbrakk> \<Longrightarrow> honours_contract v i (api_respond ok4 (OS_Update (av_lib v) (av_render v) (Some i) j k raw))"
  "\<lbrakk>\<And>x. ap_Status (ok2 x) < 300; permitted i (DeleteSchema j k)\<rbrakk> \<Longrightarrow> honours_contract v i (api_respond ok2 (OS_Delete (av_render v) (Some i) j k))"
  "\<lbrakk>\<And>x. ap_Status (ok5 x) < 300; permitted i (CreateHook j b6)\<rbrakk> \<Longrightarrow> honours_contract v i (api_respond ok5 (Hook_Create (av_render v) (Some i) j b6))"
  "\<lbrakk>\<And>x. ap_Status (ok5 x) < 300; permitted i (UpdateHook j k b7)\<rbrakk> \<Longrightarrow> honours_contract v i (api_respond ok5 (Hook_Update (av_render v) (Some i) j k b7))"
  "\<lbrakk>\<And>x. ap_Status (ok2 x) < 300; permitted i (DeleteHook j k)\<rbrakk> \<Longrightarrow> honours_contract v i (api_respond ok2 (Hook_Delete (av_render v) (Some i) j k))"
  "\<lbrakk>\<And>x. ap_Status (ok6 x) < 300; permitted i (CreateEntity b8)\<rbrakk> \<Longrightarrow> honours_contract v i (api_respond ok6 (Ent_Create (av_lib v) (av_render v) (Some i) b8))"
  "\<lbrakk>\<And>x. ap_Status (ok6 x) < 300; permitted i (UpdateEntity j raw)\<rbrakk> \<Longrightarrow> honours_contract v i (api_respond ok6 (Ent_Update (av_lib v) (av_render v) (Some i) j raw))"
  "\<lbrakk>\<And>x. ap_Status (ok2 x) < 300; permitted i (DeleteEntity j)\<rbrakk> \<Longrightarrow> honours_contract v i (api_respond ok2 (Ent_Delete (av_render v) (Some i) j))"
  "\<lbrakk>\<And>x. ap_Status (ok7 x) < 300; permitted i (BulkEntities items mode)\<rbrakk> \<Longrightarrow>
     honours_contract v i (api_respond ok7 (BulkCreate (av_lib v) (av_render v) (Some i) items mode))"
  "\<lbrakk>\<And>x. ap_Status (ok8 x) < 300; permitted i (CreateRelation b9)\<rbrakk> \<Longrightarrow> honours_contract v i (api_respond ok8 (Rel_Create (av_render v) (Some i) b9))"
  "\<lbrakk>\<And>x. ap_Status (ok2 x) < 300; permitted i (DeleteRelation j)\<rbrakk> \<Longrightarrow> honours_contract v i (api_respond ok2 (Rel_Delete (av_render v) (Some i) j))"
  "\<lbrakk>\<And>x. ap_Status (ok9 x) < 300; permitted i (CreateOverlay j raw)\<rbrakk> \<Longrightarrow> honours_contract v i (api_respond ok9 (PO_Create (av_lib v) (av_render v) (Some i) j raw))"
  "\<lbrakk>\<And>x. ap_Status (ok9 x) < 300; permitted i (UpdateOverlay j k raw)\<rbrakk> \<Longrightarrow> honours_contract v i (api_respond ok9 (PO_Update (av_lib v) (av_render v) (Some i) j k raw))"
  "\<lbrakk>\<And>x. ap_Status (ok2 x) < 300; permitted i (DeleteOverlay j k)\<rbrakk> \<Longrightarrow> honours_contract v i (api_respond ok2 (PO_Delete (av_render v) (Some i) j k))"
  by (rule endpoint_write; (assumption | simp add: quietly_unit))+

lemmas handler_steps = endpoint_pathUUID endpoint_decodeJSON endpoint_queryUUID write_rules

lemma endpoint_split: "(\<And>a b. honours_contract v i (f a b)) \<Longrightarrow> honours_contract v i (case p of (a, b) \<Rightarrow> f a b)"
  by (cases p) simp

lemma endpoint_if: "honours_contract v i m \<Longrightarrow> honours_contract v i m' \<Longrightarrow> honours_contract v i (if b then m else m')"
  by simp

lemma endpoint_option:
  "honours_contract v i m \<Longrightarrow> (\<And>y. honours_contract v i (f y)) \<Longrightarrow> honours_contract v i (case x of None \<Rightarrow> m | Some y \<Rightarrow> f y)"
  by (simp split: option.splits)

lemmas read_steps = endpoint_pathUUID endpoint_queryUUID endpoint_split endpoint_if endpoint_option endpoint_bad_request
  endpoint_read [OF safe_preserving [OF reads_management(1)]] endpoint_read [OF safe_preserving [OF reads_management(2)]]
  endpoint_read [OF safe_preserving [OF reads_management(3)]] endpoint_read [OF safe_preserving [OF reads_management(4)]]
  endpoint_read [OF safe_preserving [OF reads_management(5)]] endpoint_read [OF safe_preserving [OF reads_management(6)]]
  endpoint_read [OF safe_preserving [OF reads_management(7)]] endpoint_read [OF safe_preserving [OF reads_management(8)]]
  endpoint_read [OF safe_preserving [OF reads_management(9)]] endpoint_read [OF safe_preserving [OF reads_management(10)]]
  endpoint_read [OF safe_preserving [OF reads_management(12)]]
  endpoint_read [OF safe_preserving [OF reads_systems(1)]] endpoint_read [OF safe_preserving [OF reads_systems(2)]]
  endpoint_read [OF safe_preserving [OF reads_retrieval(1)]] endpoint_read [OF safe_preserving [OF reads_retrieval(2)]]
  endpoint_read [OF safe_preserving [OF reads_retrieval(3)]] endpoint_read [OF safe_preserving [OF reads_retrieval(4)]]
  endpoint_read [OF safe_preserving [OF reads_users]] endpoint_read [OF reads_stats]

lemma list_relations_endpoint: "honours_contract v i (RelationHandler_ListByEntity v ctx ps q)"
proof -
  have "safe same_core (bind (Rel_ListByEntity j rp) (\<lambda>result. bind (LogRetrieval ctx params (refs result)) (\<lambda>_. ret result)))"
    for j rp params and refs :: "rel_list_result \<Rightarrow> json"
    by (rule safe_preserving) (intro db_intros reads_management log_same_core)
  then show ?thesis
    unfolding RelationHandler_ListByEntity_def Let_def by (intro endpoint_pathUUID endpoint_split endpoint_queryUUID endpoint_read)
qed

lemma me_endpoint: "honours_contract v i (MeHandler_Get v (Some i))"
  by (simp add: MeHandler_Get_def MustIdentity_def bind_def ret_def honours_contract_def same_core_def)

lemmas read_handlers = EntityTypeHandler_List_def EntityTypeHandler_GetByID_def SystemHandler_List_def SystemHandler_GetByID_def
  OverlaySchemaHandler_List_def OverlaySchemaHandler_GetByID_def WebhookHandler_List_def WebhookHandler_GetByID_def
  UsersHandler_admin_List_def StatsHandler_Get_def RetrievalHandler_Changelog_def RetrievalHandler_Export_def RetrievalHandler_Lookup_def
  RetrievalHandler_Filter_def EntityHandler_List_def EntityHandler_GetByID_def OverlayHandler_List_def OverlayHandler_GetByID_def
  RelationHandler_GetByID_def

lemma read_endpoints:
  "e \<in> {Me_get, Types_list, Types_get, Systems_list, Systems_get, Schemas_list, Schemas_get, Hooks_list, Hooks_get, Admin_users,
        Stats_get, Changelog_get, Export_get, Entities_lookup, Entities_search, Entities_list, Entities_get, Entity_relations,
        Overlays_list, Overlays_get, Relations_get} \<Longrightarrow> honours_contract v i (api_handler v e (Some i) ps q)"
  by (elim insertE emptyE; simp only: api_handler.simps;
      (rule me_endpoint list_relations_endpoint | simp only: read_handlers Let_def, intro read_steps))

lemmas write_handlers = EntityTypeHandler_Create_def EntityTypeHandler_Update_def EntityTypeHandler_Delete_def
  SystemHandler_Create_def SystemHandler_Patch_def OverlaySchemaHandler_Create_def OverlaySchemaHandler_Update_def
  OverlaySchemaHandler_Delete_def WebhookHandler_Create_def WebhookHandler_Update_def WebhookHandler_Delete_def
  EntityHandler_BulkCreate_def EntityHandler_Create_def EntityHandler_Update_def EntityHandler_Delete_def
  OverlayHandler_Create_def OverlayHandler_Update_def OverlayHandler_Delete_def RelationHandler_Create_def RelationHandler_Delete_def

lemma write_endpoints:
  assumes "opened v ps q i (route_gates (av_uuid v) e)" "opened v ps q i (endpoint_group v e)"
    "e \<in> {Types_create, Types_put, Types_delete, Systems_create, Systems_patch, Schemas_create, Schemas_put, Schemas_delete,
       Hooks_create, Hooks_patch, Hooks_delete, Entities_bulk, Entities_create, Entities_patch, Entities_delete,
       Overlays_create, Overlays_put, Overlays_delete, Relations_create, Relations_delete}"
  shows "honours_contract v i (api_handler v e (Some i) ps q)"
  using assms(3)
  by (elim insertE emptyE; simp only: api_handler.simps write_handlers; intro handler_steps;
      insert assms(1,2); simp add: response_JSON_def response_NoContent_def permitted_def gate_levels endpoint_group_def
        schema_endpoints_def hook_endpoints_def)

subsection \<open>Routes and groups\<close>

lemma match_path_prefix: "match_path (p @ r) xs = Some ps \<Longrightarrow> \<exists>ps1 ps2. match_prefix p xs = Some ps1 \<and> ps = ps1 @ ps2"
proof (induction p xs arbitrary: ps rule: match_prefix.induct)
  case (3 n p x xs)
  then obtain ps' where "match_path (p @ r) xs = Some ps'" "ps = (n, x) # ps'" by (auto split: if_splits)
  with 3 show ?case by fastforce
qed (auto split: if_splits)

definition group_of :: "api_endpoint \<Rightarrow> segment list" where
  "group_of e =
     (if e \<in> schema_endpoints then schemas_path else if e \<in> hook_endpoints then webhooks_path
      else if e = Admin_users then [Seg ''users''] else [])"

lemma routes_grouped: "list_all (\<lambda>(m, pat, e). take (length (group_of e)) pat = group_of e) api_routes"
  by code_simp

lemma routes_in_groups: "(m, pat, e) \<in> set api_routes \<Longrightarrow> \<exists>r. pat = group_of e @ r"
  using routes_grouped unfolding list_all_iff by (intro exI [of _ "drop (length (group_of e)) pat"]) (metis (mono_tags, lifting) append_take_drop_id case_prodD)

lemma match_prefix_Some:
  "match_prefix (Seg t # p) xs = Some ps \<longleftrightarrow> (\<exists>r. xs = t # r \<and> match_prefix p r = Some ps)"
  "match_prefix (Param n # p) xs = Some ps \<longleftrightarrow> (\<exists>x r ps'. xs = x # r \<and> match_prefix p r = Some ps' \<and> ps = (n, x) # ps')"
  by (cases xs; auto)+

lemma prefix_group:
  "match_prefix schemas_path xs = Some ps \<longleftrightarrow> (\<exists>x r. xs = ''systems'' # x # ''overlay-schemas'' # r \<and> ps = [(''system_id'', x)])"
  "match_prefix webhooks_path xs = Some ps \<longleftrightarrow> (\<exists>x r. xs = ''systems'' # x # ''webhooks'' # r \<and> ps = [(''system_id'', x)])"
  "match_prefix [Seg ''users''] xs = Some ps \<longleftrightarrow> (\<exists>r. xs = ''users'' # r \<and> ps = [])"
  unfolding schemas_path_def webhooks_path_def match_prefix_Some by auto

lemma first_refusal_params: "param ps = param ps' \<Longrightarrow> first_refusal gs (routed q ps) ctx = first_refusal gs (routed q ps') ctx"
  by (simp add: routed_def)

lemma group_opened:
  assumes "find_route api_routes m (aq_path q) = Found e ps" "group_refusal (group_gates (av_uuid v)) q (Some i) = None"
  shows "opened v ps q i (endpoint_group v e)"
proof -
  from find_route_Found [OF assms(1)] obtain pat where "(m, pat, e) \<in> set api_routes" "match_path pat (aq_path q) = Some ps" by blast
  with routes_in_groups obtain r where "match_path (group_of e @ r) (aq_path q) = Some ps" by blast
  from match_path_prefix [OF this] obtain ps1 ps2 where pre: "match_prefix (group_of e) (aq_path q) = Some ps1" "ps = ps1 @ ps2" by blast
  consider (schemas) "group_of e = schemas_path" "endpoint_group v e = [\<lambda>r. RequireAnyRole system_admins, RequirePathSystemInScope (av_uuid v) ''system_id'']"
    | (hooks) "group_of e = webhooks_path" "endpoint_group v e = [\<lambda>r. RequireRole ''admin'', \<lambda>r. RequireSystemScope]"
    | (users) "group_of e = [Seg ''users'']" "endpoint_group v e = [\<lambda>r. RequireRole ''admin'']"
    | (none) "endpoint_group v e = []"
    by (cases "e \<in> schema_endpoints"; cases "e \<in> hook_endpoints"; cases "e = Admin_users"; simp add: group_of_def endpoint_group_def)
  then show ?thesis
  proof cases
    case schemas
    with pre(1) have m: "match_prefix schemas_path (aq_path q) = Some ps1" by simp
    with prefix_group(1) obtain x where "ps1 = [(''system_id'', x)]" by blast
    with pre(2) have "param ps ''system_id'' = param ps1 ''system_id''" by (simp add: param_def)
    moreover from assms(2) m have "opened v ps1 q i [\<lambda>r. RequireAnyRole system_admins, RequirePathSystemInScope (av_uuid v) ''system_id'']"
      by (simp add: group_gates_def opened_def)
    ultimately show ?thesis unfolding schemas(2) opened_simps gate_levels by simp
  next
    case hooks
    with pre(1) have m: "match_prefix webhooks_path (aq_path q) = Some ps1" by simp
    with prefix_group(2) obtain x r where "aq_path q = ''systems'' # x # ''webhooks'' # r" by blast
    then have "match_prefix schemas_path (aq_path q) = None" by (simp add: schemas_path_def)
    with assms(2) m have "opened v ps1 q i [\<lambda>r. RequireRole ''admin'', \<lambda>r. RequireSystemScope]"
      by (simp add: group_gates_def opened_def)
    then show ?thesis unfolding hooks(2) opened_simps gate_levels by simp
  next
    case users
    with pre(1) have m: "match_prefix [Seg ''users''] (aq_path q) = Some ps1" by simp
    with prefix_group(3) obtain r where "aq_path q = ''users'' # r" by blast
    then have "match_prefix schemas_path (aq_path q) = None" "match_prefix webhooks_path (aq_path q) = None"
      by (simp_all add: schemas_path_def webhooks_path_def)
    with assms(2) m have "opened v ps1 q i [\<lambda>r. RequireRole ''admin'']" by (simp add: group_gates_def opened_def)
    then show ?thesis unfolding users(2) opened_simps gate_levels by simp
  next
    case none
    then show ?thesis by simp
  qed
qed

lemma routed_endpoint: "honours_contract v i (api_routed v (Some i) q)"
proof (cases "group_refusal (group_gates (av_uuid v)) q (Some i)")
  case None
  show ?thesis
  proof (cases "find_route api_routes (aq_method q) (aq_path q)")
    case (Found e ps)
    show ?thesis
    proof (cases "first_refusal (route_gates (av_uuid v) e) (routed q ps) (Some i)")
      case None
      then have "opened v ps q i (route_gates (av_uuid v) e)" by (simp add: opened_def)
      with group_opened [OF Found \<open>group_refusal _ _ _ = None\<close>] read_endpoints [of e v i ps q] write_endpoints [of v ps q i e]
      have "honours_contract v i (api_handler v e (Some i) ps q)" by (cases e) simp_all
      with None Found \<open>group_refusal _ _ _ = None\<close> show ?thesis by (simp add: api_routed_def)
    qed (simp add: api_routed_def Found \<open>group_refusal _ _ _ = None\<close> contract_ret)
  qed (simp_all add: api_routed_def None contract_ret)
qed (simp add: api_routed_def contract_ret)

subsection \<open>The whole call\<close>

lemma cache_Resolve_reads:
  assumes "cache_Resolve (pgx_source w) n1 n2 p s st x = (r, st', x')" "s_tx x = None"
  shows "s_db x' = s_db x \<and> s_tx x' = None"
proof -
  from assms(1) have "x' = x \<or> x' = snd (pgx_source w p s x)"
    by (auto simp: cache_Resolve_def Let_def split: prod.splits option.splits sum.splits)
  moreover obtain r1 x1 where run: "resolver_Resolve pgx_resolver p s w x = (r1, x1)" by fastforce
  have "preserving same_db (resolver_Resolve pgx_resolver p s)" by (rule pgx.resolve_reads)
  from preservingD [OF this run] assms(2) have "s_db x1 = s_db x" "s_tx x1 = None" by (simp_all add: same_db_def)
  ultimately show ?thesis using assms(2) run by (auto simp: pgx_source_def)
qed

lemma Authentication_reads:
  assumes "Authentication cfg \<lparr>ae_now1 = n1, ae_now2 = n2, ae_resolver = pgx_source w\<rparr> r st s = (x, st', s')" "s_tx s = None"
  shows "s_db s' = s_db s \<and> s_tx s' = None"
proof -
  have jwt: "s_db s2 = s_db s \<and> s_tx s2 = None"
    if "resolveJWT cfg \<lparr>ae_now1 = n1, ae_now2 = n2, ae_resolver = pgx_source w\<rparr> r st s = (y, st2, s2)" for y st2 s2
    using that assms(2)
    by (auto simp: resolveJWT_def Let_def split: if_splits option.splits sum.splits dest!: cache_Resolve_reads)
  have mtls: "s2 = t" if "resolveMTLS h r st1 t = (y, st2, s2)" for h y st1 st2 s2 and t :: sess
    using that by (auto simp: resolveMTLS_def Let_def split: sum.splits prod.splits)
  have cred: "s_db s2 = s_db s \<and> s_tx s2 = None"
    if "credentials cfg \<lparr>ae_now1 = n1, ae_now2 = n2, ae_resolver = pgx_source w\<rparr> r st s = (y, st2, s2)" for y st2 s2
    using that assms(2)
    by (auto simp: credentials_def split: if_splits prod.splits sum.splits option.splits dest!: jwt mtls)
  from assms(1) show ?thesis
    by (auto simp: Authentication_def split: prod.splits option.splits sum.splits dest!: cred)
qed

text \<open>What a call does to the session: reads, or one permitted request after the authentication.\<close>

lemma api_http_cases:
  assumes "s_tx s = None" "api_http v cfg n1 n2 q w st s = (resp, st', s')"
  obtains (reads) "same_core (s_db s) (s_db s')" "s_tx s' = None"
    | (writes) p s1 rq out where
        "Authentication cfg \<lparr>ae_now1 = n1, ae_now2 = n2, ae_resolver = pgx_source w\<rparr> (aq_request q) st s = (Inr p, st', s1)"
        "s_db s1 = s_db s" "s_tx s1 = None" "permitted (as_heap st' ! p) rq"
        "core_serve (av_lib v) (av_render v) (Some (as_heap st' ! p)) rq w s1 = (out, s')" "out = Inr () \<longrightarrow> ap_Status resp < 300"
proof -
  obtain x st1 s1 where a: "Authentication cfg \<lparr>ae_now1 = n1, ae_now2 = n2, ae_resolver = pgx_source w\<rparr> (aq_request q) st s = (x, st1, s1)"
    by (metis prod.exhaust)
  from Authentication_reads [OF a assms(1)] have s1: "s_db s1 = s_db s" "s_tx s1 = None" by simp_all
  show thesis
  proof (cases x)
    case (Inl e)
    with a assms(2) have "s' = s1" by (simp add: api_http_def)
    with s1 show ?thesis by (intro reads) (simp_all add: same_core_def)
  next
    case (Inr p)
    let ?i = "as_heap st1 ! p"
    obtain r s2 where m: "api_routed v (Some ?i) q w s1 = (r, s2)" by fastforce
    from assms(2) a Inr m have out: "st' = st1" "s' = s2" "\<forall>resp'. r = Inr resp' \<longrightarrow> resp = resp'"
      by (auto simp: api_http_def split: sum.splits)
    from routed_endpoint [of v ?i q, unfolded honours_contract_def, rule_format, OF s1(2) m] show ?thesis
    proof (elim disjE exE conjE)
      assume "same_core (s_db s1) (s_db s2)" "s_tx s2 = None"
      with s1(1) out(2) show ?thesis by (intro reads) simp_all
    next
      fix rq o' assume "core_serve (av_lib v) (av_render v) (Some ?i) rq w s1 = (o', s2)" "permitted ?i rq"
        "o' = Inr () \<longrightarrow> (\<exists>resp. r = Inr resp \<and> ap_Status resp < 300)"
      with a Inr s1 out show ?thesis by (intro writes) auto
    qed
  qed
qed

text \<open>
  C1. The access matrix of the management API. Whatever a call changes in the tables (the retrieval log aside,
  and no commit being left in doubt), it changes as one request of the services, in the name of an identity
  that the authentication of this very call found, that has the level the contract asks for this request,
  reach on the system in the path where the request is about one, and an active system for webhooks. Unless
  the request is a bulk one, the response then says so (a status below 300) and the log has exactly one new
  record, of this caller, operation and kind of resource; so a call that is answered with an error has
  changed nothing.
\<close>

theorem api_access_matrix:
  assumes "s_tx s = None" "\<And>n. \<not> w_indoubt w n" "api_http v cfg n1 n2 q w st s = (resp, st', s')"
    "unlogged (s_db s') \<noteq> unlogged (s_db s)"
  shows "\<exists>p s1 rq out. Authentication cfg \<lparr>ae_now1 = n1, ae_now2 = n2, ae_resolver = pgx_source w\<rparr> (aq_request q) st s = (Inr p, st', s1)
    \<and> s_db s1 = s_db s \<and> permitted (as_heap st' ! p) rq
    \<and> core_serve (av_lib v) (av_render v) (Some (as_heap st' ! p)) rq w s1 = (out, s')
    \<and> ((\<forall>items mode. rq \<noteq> BulkEntities items mode) \<longrightarrow> ap_Status resp < 300
         \<and> (\<exists>row. db_audit (s_db s') = db_audit (s_db s) @ [row]
              \<and> op_logged (av_render v) (Some (as_heap st' ! p)) (request_op rq) row))"
  using assms(1,3)
proof (cases rule: api_http_cases)
  case reads
  with assms(4) show ?thesis by (simp add: same_core_def)
next
  case (writes p s1 rq out)
  let ?i = "as_heap st' ! p"
  have "ap_Status resp < 300 \<and> (\<exists>row. db_audit (s_db s') = db_audit (s_db s) @ [row]
            \<and> op_logged (av_render v) (Some ?i) (request_op rq) row)" if "\<forall>items mode. rq \<noteq> BulkEntities items mode"
  proof -
    have "atomic w (op_logged (av_render v) (Some ?i) (request_op rq)) (core_serve (av_lib v) (av_render v) (Some ?i) rq)"
      using that by (cases rq) (auto simp: atomic_requests [OF assms(2)] intro!: atomic_quietly)
    from atomicD [OF this writes(3,5)] assms(4) writes(2,6) show ?thesis by (cases out) auto
  qed
  with writes show ?thesis by blast
qed

end
