(* ===== verification/Dispatcher.thy ===== *)
theory Dispatcher
  imports Webhooks
begin

section \<open>Delivery of events (\<open>internal/webhook/dispatcher.go\<close>)\<close>

text \<open>
  The background worker: it turns audit records into deliveries, posts the due ones with a signature,
  and records the outcome with the time of the next attempt. The rows it reads and writes are those of
  \<open>internal/webhook/repository.go\<close>. Parameters are the bytes \<open>json.Marshal\<close> writes, HMAC-SHA256, which
  URLs \<open>http.NewRequest\<close> accepts, what the network answers to the \<open>n\<close>-th request, and the clock then.
\<close>

subsection \<open>Deliveries\<close>

record pending_delivery =
  pd_DeliveryID :: uuid
  pd_SubscriptionID :: uuid
  pd_AuditLogID :: uuid
  pd_Attempts :: int
  pd_CallbackURL :: string
  pd_Secret :: string
  pd_Actor :: string
  pd_Operation :: string
  pd_ResourceType :: string
  pd_ResourceID :: uuid
  pd_BeforeValue :: raw
  pd_AfterValue :: raw
  pd_SystemID :: "uuid option"
  pd_AuditTimestamp :: gotime

definition pending_of :: "delivery_row \<times> webhook_row \<times> audit_row \<Rightarrow> pending_delivery" where
  "pending_of = (\<lambda>(x, h, a). \<lparr>pd_DeliveryID = dl_id x, pd_SubscriptionID = dl_subscription x, pd_AuditLogID = dl_audit x,
     pd_Attempts = dl_attempts x, pd_CallbackURL = wh_url h, pd_Secret = wh_secret h, pd_Actor = au_actor a,
     pd_Operation = au_operation a, pd_ResourceType = au_resource_type a, pd_ResourceID = au_resource_id a,
     pd_BeforeValue = au_before a, pd_AfterValue = au_after a, pd_SystemID = au_system a, pd_AuditTimestamp = au_time a\<rparr>)"

definition undelivered :: "query_ctx \<Rightarrow> database \<Rightarrow> (audit_row \<times> webhook_row) list" where
  "undelivered q d = filter (\<lambda>(a, h). q_now q - 24 * hour < au_time a
       \<and> \<not> list_ex (\<lambda>x. dl_audit x = au_id a \<and> dl_subscription x = wh_id h) (db_deliveries d))
     [(a, h). a \<leftarrow> db_audit d, h \<leftarrow> filter (\<lambda>h. au_system a = Some (wh_system h) \<and> wh_active h) (webhooks q d)]"

definition FindUndelivered :: "int \<Rightarrow> (uuid \<times> uuid) list db" where
  "FindUndelivered limit = wrap_err ''finding undelivered audit entries'' (query_page limit 0
     (\<lambda>q d. map (\<lambda>(a, h). (au_id a, wh_id h)) (sort_key (\<lambda>(a, h). au_time a) (undelivered q d))))"

definition insert_delivery :: "uuid \<Rightarrow> uuid \<Rightarrow> unit statement" where
  "insert_delivery sub al = (\<lambda>q d.
     let x = \<lparr>dl_id = q_uuid q, dl_subscription = sub, dl_audit = al, dl_status = ''pending'', dl_attempts = 0,
              dl_next_retry = None, dl_response = None, dl_created = q_now q\<rparr> in
     if list_ex (\<lambda>x'. dl_id x' = dl_id x) (db_deliveries d) then Inr ((), d)
     else if \<not> list_ex (\<lambda>h. wh_id h = sub) (db_webhooks d) then pg_error ''23503'' ''webhook_delivery_subscription_id_fkey''
     else if \<not> list_ex (\<lambda>a. au_id a = al) (db_audit d) then pg_error ''23503'' ''webhook_delivery_audit_log_id_fkey''
     else Inr ((), d\<lparr>db_deliveries := db_deliveries d @ [x]\<rparr>))"

definition CreateDelivery :: "uuid \<Rightarrow> uuid \<Rightarrow> unit db" where
  "CreateDelivery sub al = wrap_err ''creating webhook delivery'' (exec (insert_delivery sub al))"

definition due :: "query_ctx \<Rightarrow> delivery_row \<Rightarrow> bool" where
  "due q x \<longleftrightarrow> dl_status x = ''pending''
     \<or> dl_status x = ''failed'' \<and> (case dl_next_retry x of None \<Rightarrow> False | Some t \<Rightarrow> t \<le> q_now q)"

definition pending_rows :: "query_ctx \<Rightarrow> database \<Rightarrow> (delivery_row \<times> webhook_row \<times> audit_row) list" where
  "pending_rows q d =
     [(x, h, a). x \<leftarrow> filter (due q) (db_deliveries d),
                 h \<leftarrow> filter (\<lambda>h. wh_id h = dl_subscription x) (webhooks q d),
                 a \<leftarrow> filter (\<lambda>a. au_id a = dl_audit x) (db_audit d)]"

definition FindPending :: "int \<Rightarrow> pending_delivery list db" where
  "FindPending limit =
     bind (wrap_err ''fetching pending deliveries'' (query_page limit 0
            (\<lambda>q d. sort_key (\<lambda>(x, h, a). dl_created x) (pending_rows q d)))) (\<lambda>rows.
     ret (map pending_of rows))"

text \<open>A timestamp is stored in microseconds.\<close>

definition pg_timestamp :: "gotime \<Rightarrow> gotime" where
  "pg_timestamp t = t div 1000 * 1000"

definition update_delivery :: "uuid \<Rightarrow> string \<Rightarrow> int \<Rightarrow> gotime option \<Rightarrow> int option \<Rightarrow> unit statement" where
  "update_delivery i status attempts next_retry code = (\<lambda>q d.
     let hit = (\<lambda>x. dl_id x = i);
         upd = (\<lambda>x. x\<lparr>dl_status := status, dl_attempts := attempts, dl_next_retry := map_option pg_timestamp next_retry,
                      dl_response := code\<rparr>) in
     if list_ex hit (db_deliveries d) \<and> status \<notin> {''pending'', ''delivered'', ''failed''}
     then pg_error ''23514'' ''webhook_delivery_status_check''
     else Inr ((), d\<lparr>db_deliveries := map (\<lambda>x. if hit x then upd x else x) (db_deliveries d)\<rparr>))"

definition UpdateDelivery :: "uuid \<Rightarrow> string \<Rightarrow> int \<Rightarrow> gotime option \<Rightarrow> int option \<Rightarrow> unit db" where
  "UpdateDelivery i status attempts next_retry code =
     wrap_err ''updating webhook delivery'' (exec (update_delivery i status attempts next_retry code))"

subsection \<open>The worker\<close>

definition maxRetries :: int where "maxRetries = 5"
definition enqueueBatchSize :: int where "enqueueBatchSize = 100"
definition dispatchBatchSize :: int where "dispatchBatchSize = 50"
definition deliveryStatusDelivered :: string where "deliveryStatusDelivered = ''delivered''"
definition deliveryStatusFailed :: string where "deliveryStatusFailed = ''failed''"

record event_payload =
  ep_EventID :: uuid
  ep_EventType :: string
  ep_SystemID :: "uuid option"
  ep_ResourceType :: string
  ep_ResourceID :: uuid
  ep_Actor :: string
  ep_Timestamp :: gotime
  ep_Before :: raw
  ep_After :: raw

definition ep_json :: "render_env \<Rightarrow> event_payload \<Rightarrow> json" where
  "ep_json env p = JObj ([(''event_id'', JStr (re_uuid env (ep_EventID p))), (''event_type'', JStr (ep_EventType p))]
     @ (case ep_SystemID p of None \<Rightarrow> [] | Some u \<Rightarrow> [(''system_id'', JStr (re_uuid env u))])
     @ [(''resource_type'', JStr (ep_ResourceType p)), (''resource_id'', JStr (re_uuid env (ep_ResourceID p))),
        (''actor'', JStr (ep_Actor p)), (''timestamp'', JStr (re_time env (ep_Timestamp p)))]
     @ (case ep_Before p of None \<Rightarrow> [] | Some v \<Rightarrow> [(''before'', v)])
     @ (case ep_After p of None \<Rightarrow> [] | Some v \<Rightarrow> [(''after'', v)]))"

record http_request =
  hr_URL :: string
  hr_Body :: string
  hr_ContentType :: string
  hr_Delivery :: string
  hr_Signature :: string

datatype http_result = HttpError | HttpResponse int

record http_env =
  ne_marshal :: "json \<Rightarrow> string"
  ne_hmac :: "string \<Rightarrow> string \<Rightarrow> string"
  ne_request_ok :: "string \<Rightarrow> bool"
  ne_do :: "nat \<Rightarrow> http_request \<Rightarrow> http_result"
  ne_now :: "nat \<Rightarrow> gotime"

record disp =
  dp_sess :: sess
  dp_sent :: "http_request list"

definition computeHMAC :: "http_env \<Rightarrow> string \<Rightarrow> string \<Rightarrow> string" where
  "computeHMAC net secret body = hex_encode (ne_hmac net secret body)"

text \<open>The product is one of 64-bit integers, and a negative shift count panics.\<close>

definition backoff :: "int \<Rightarrow> duration" where
  "backoff attempts = min (sint (word_of_int (30 * second) * push_bit (nat (attempts - 1)) (1 :: 64 word))) (24 * hour)"

definition backoffTime :: "gotime \<Rightarrow> int \<Rightarrow> gotime res" where
  "backoffTime now attempts = (if attempts < 1 then Inl (Panic ''negative shift amount'') else Inr (now + backoff attempts))"

definition enqueue :: "unit db" where
  "enqueue =
     bind (FindUndelivered enqueueBatchSize) (\<lambda>pairs.
     if pairs = [] then ret ()
     else with_tx ''begin transaction''
       (bind (for_each pairs (\<lambda>(al, sub). catch (CreateDelivery sub al) (\<lambda>_. ret ()))) (\<lambda>_. commit_tx)))"

definition payload_of :: "pending_delivery \<Rightarrow> event_payload" where
  "payload_of pd = \<lparr>ep_EventID = pd_DeliveryID pd, ep_EventType = pd_ResourceType pd @ ''.'' @ pd_Operation pd,
     ep_SystemID = pd_SystemID pd, ep_ResourceType = pd_ResourceType pd, ep_ResourceID = pd_ResourceID pd,
     ep_Actor = pd_Actor pd, ep_Timestamp = pd_AuditTimestamp pd, ep_Before = pd_BeforeValue pd, ep_After = pd_AfterValue pd\<rparr>"

definition request_of :: "render_env \<Rightarrow> http_env \<Rightarrow> pending_delivery \<Rightarrow> http_request" where
  "request_of env net pd =
     (let body = ne_marshal net (ep_json env (payload_of pd)) in
      \<lparr>hr_URL = pd_CallbackURL pd, hr_Body = body, hr_ContentType = ''application/json'',
       hr_Delivery = re_uuid env (pd_DeliveryID pd), hr_Signature = ''sha256='' @ computeHMAC net (pd_Secret pd) body\<rparr>)"

definition outcome_of :: "http_result \<Rightarrow> string \<times> int option" where
  "outcome_of r = (case r of
     HttpResponse code \<Rightarrow> (if 200 \<le> code \<and> code < 300 then deliveryStatusDelivered else deliveryStatusFailed, Some code)
   | HttpError \<Rightarrow> (deliveryStatusFailed, None))"

definition store_outcome :: "pending_delivery \<Rightarrow> string \<Rightarrow> gotime option \<Rightarrow> int option \<Rightarrow> unit db" where
  "store_outcome pd status next_retry code =
     with_tx ''begin update transaction''
       (bind (UpdateDelivery (pd_DeliveryID pd) status (pd_Attempts pd + 1) next_retry code) (\<lambda>_. commit_tx))"

definition attempt :: "render_env \<Rightarrow> http_env \<Rightarrow> world \<Rightarrow> pending_delivery \<Rightarrow> disp \<Rightarrow> unit res \<times> disp" where
  "attempt env net w pd st =
     (if \<not> ne_request_ok net (pd_CallbackURL pd) then (Inr (), st)
      else
        let req = request_of env net pd; k = length (dp_sent st); newAttempts = pd_Attempts pd + 1;
            st1 = st\<lparr>dp_sent := dp_sent st @ [req]\<rparr> in
        case outcome_of (ne_do net k req) of (status, lastCode) \<Rightarrow>
          (case (if status = deliveryStatusFailed \<and> newAttempts < maxRetries
                 then map_sum id Some (backoffTime (ne_now net k) newAttempts) else Inr None) of
             Inl e \<Rightarrow> (Inl e, st1)
           | Inr nextRetry \<Rightarrow> (Inr (), st1\<lparr>dp_sess := snd (store_outcome pd status nextRetry lastCode w (dp_sess st1))\<rparr>)))"

fun attempts :: "render_env \<Rightarrow> http_env \<Rightarrow> world \<Rightarrow> pending_delivery list \<Rightarrow> disp \<Rightarrow> unit res \<times> disp" where
  "attempts env net w [] st = (Inr (), st)"
| "attempts env net w (pd # pds) st =
     (case attempt env net w pd st of (Inl e, st') \<Rightarrow> (Inl e, st') | (Inr _, st') \<Rightarrow> attempts env net w pds st')"

definition dispatch :: "render_env \<Rightarrow> http_env \<Rightarrow> world \<Rightarrow> disp \<Rightarrow> unit res \<times> disp" where
  "dispatch env net w st =
     (case FindPending dispatchBatchSize w (dp_sess st) of
        (Inl _, s) \<Rightarrow> (Inr (), st\<lparr>dp_sess := s\<rparr>)
      | (Inr pending, s) \<Rightarrow> attempts env net w pending (st\<lparr>dp_sess := s\<rparr>))"

definition cycle :: "render_env \<Rightarrow> http_env \<Rightarrow> world \<Rightarrow> disp \<Rightarrow> unit res \<times> disp" where
  "cycle env net w st = dispatch env net w (st\<lparr>dp_sess := snd (enqueue w (dp_sess st))\<rparr>)"

text \<open>
  The loop of \<open>Run\<close>, one element for every cycle until the context is cancelled: the first one at once,
  the others at the ticks. A panic ends the process.
\<close>

fun Run :: "render_env \<Rightarrow> (http_env \<times> world) list \<Rightarrow> disp \<Rightarrow> unit res \<times> disp" where
  "Run env [] st = (Inr (), st)"
| "Run env ((net, w) # cs) st =
     (case cycle env net w st of (Inl e, st') \<Rightarrow> (Inl e, st') | (Inr _, st') \<Rightarrow> Run env cs st')"

end
