(* ===== verification/Core_Rules.thy ===== *)
theory Core_Rules
  imports Core_Services
begin

section \<open>What the management services enforce\<close>

text \<open>
  The rules on the content: entities conform to the schema of their type and to its scope, edges to the
  declarations of their subject's type, overlays to their schema and their system's namespace, global
  types and the state of systems belong to platform administrators, and a caller with an active system
  writes nothing that belongs to another.
\<close>

subsection \<open>What a statement did\<close>

lemma insert_entity_Inr:
  "insert_entity tid ext props sys q d = Inr (e, d') \<Longrightarrow>
     en_type_id e = tid \<and> en_external_id e = ext \<and> en_properties e = props \<and> en_system_id e = sys
     \<and> d' = d\<lparr>db_entities := db_entities d @ [e]\<rparr> \<and> visible q sys"
  by (auto simp: insert_entity_def pg_error_def Let_def split: if_splits)

lemma insert_relation_Inr:
  "insert_relation subj rt tgt sys q d = Inr (r, d') \<Longrightarrow>
     rl_subject r = subj \<and> rl_type r = rt \<and> rl_target r = tgt \<and> rl_system r = sys
     \<and> d' = d\<lparr>db_relations := db_relations d @ [r]\<rparr> \<and> visible q sys"
  by (auto simp: insert_relation_def pg_error_def Let_def split: if_splits)

lemma insert_overlay_Inr:
  "insert_overlay ent sys props q d = Inr (r, d') \<Longrightarrow>
     ov_entity r = ent \<and> ov_system r = sys \<and> ov_properties r = props
     \<and> d' = d\<lparr>db_overlays := db_overlays d @ [r]\<rparr> \<and> visible q (Some sys)"
  by (auto simp: insert_overlay_def pg_error_def Let_def split: if_splits)

lemma insert_schema_Inr:
  "insert_schema sys tid allowed q d = Inr (r, d') \<Longrightarrow>
     sc_system r = sys \<and> sc_type r = tid \<and> sc_allowed r = allowed \<and> d' = d\<lparr>db_schemas := db_schemas d @ [r]\<rparr>"
  by (auto simp: insert_schema_def pg_error_def Let_def split: if_splits)

lemma type_statements_Inr:
  "insert_type name props rels scope q d = Inr (t, d') \<Longrightarrow> ty_scope t = scope \<and> d' = d\<lparr>db_types := db_types d @ [t]\<rparr>"
  "update_types P f q d = Inr (ts, d') \<Longrightarrow> db_types d' = map (\<lambda>t. if P t then (f t)\<lparr>ty_updated := q_now q\<rparr> else t) (db_types d)"
  "delete_type i q d = Inr (n, d') \<Longrightarrow> db_types d' = filter (\<lambda>t. ty_id t \<noteq> i) (db_types d)"
  by (auto simp: insert_type_def update_types_def delete_type_def pg_error_def Let_def split: if_splits)

lemma not_null_Inr: "not_null r f q d = Inr z \<longleftrightarrow> (\<exists>j. r = Some j \<and> f j q d = Inr z)"
  by (auto simp: not_null_def pg_error_def split: option.splits)

lemma filter_ConsD: "filter P xs = y # ys \<Longrightarrow> y \<in> set xs \<and> P y"
  by (auto simp: filter_eq_Cons_iff)

lemma in_typed_entities:
  "(e, t) \<in> set (typed_entities q d) \<longleftrightarrow>
     e \<in> set (db_entities d) \<and> visible q (en_system_id e) \<and> t \<in> set (db_types d) \<and> ty_id t = en_type_id e"
  by (auto simp: typed_entities_def entities_def)

text \<open>The audit record is the only other trace: the tables but the audit log.\<close>

definition but_audit :: "database \<Rightarrow> database" where
  "but_audit d = d\<lparr>db_audit := []\<rparr>"

lemma but_audit_append [simp]: "but_audit (d\<lparr>db_audit := as\<rparr>) = but_audit d"
  by (simp add: but_audit_def)

lemma WriteFromContext_but: "WriteFromContext env ctx entry w s = (Inr x, s') \<Longrightarrow> but_audit (s_db s') = but_audit (s_db s)"
  by (auto dest: WriteFromContext_Inr)

lemma but_audit_eq:
  "but_audit d' = but_audit d \<longleftrightarrow> db_types d' = db_types d \<and> db_entities d' = db_entities d \<and> db_identities d' = db_identities d
     \<and> db_relations d' = db_relations d \<and> db_overlays d' = db_overlays d \<and> db_schemas d' = db_schemas d
     \<and> db_webhooks d' = db_webhooks d \<and> db_deliveries d' = db_deliveries d \<and> db_retrievals d' = db_retrievals d"
  by (cases d; cases d') (auto simp: but_audit_def)

text \<open>The session in which the body of a scoped request runs.\<close>

definition scoped_to :: "world \<Rightarrow> request_context \<Rightarrow> query_ctx \<Rightarrow> bool" where
  "scoped_to w ctx q \<longleftrightarrow> q_bypass q = w_bypass_rls w
     \<and> (\<forall>i u. ctx = Some i \<longrightarrow> id_ActiveSystemID i = Some u \<longrightarrow> q_setting q = SetSystem u)"

lemma scoped_visible:
  "scoped_to w ctx q \<Longrightarrow> ctx = Some i \<Longrightarrow> id_ActiveSystemID i = Some u \<Longrightarrow> \<not> w_bypass_rls w \<Longrightarrow>
   visible q sys \<longleftrightarrow> sys = None \<or> sys = Some u"
  by (auto simp: scoped_to_def visible_def)

lemma scoped_own:
  assumes "scoped_to w ctx q" "visible q sys"
  shows "\<forall>c u. ctx = Some c \<longrightarrow> id_ActiveSystemID c = Some u \<longrightarrow> \<not> w_bypass_rls w \<longrightarrow> sys \<in> {None, Some u}"
  using assms by (auto simp: scoped_visible)

lemma tx_scoped:
  assumes "ctx_in w s q" "s_tx s = Some t"
    "tx_setting t = (case id_ActiveSystemID i of None \<Rightarrow> w_unset w n | Some u \<Rightarrow> SetSystem u)"
  shows "scoped_to w (Some i) q"
  using assms by (auto simp: scoped_to_def ctx_in_def)

lemma reads_none:
  "preserving same_db m \<Longrightarrow> m w s = (r, s') \<Longrightarrow> s_tx s = None \<Longrightarrow> s_db s' = s_db s \<and> s_tx s' = None"
  using preservingD(1) keeps_no_tx by (fastforce simp: same_db_def)

subsection \<open>Entities\<close>

lemma resolveType_Inr:
  "resolveType name w s = (Inr t, s') \<Longrightarrow> t \<in> set (db_types (s_db s)) \<and> ty_name t = name \<and> s_db s' = s_db s \<and> s_tx s' = s_tx s"
proof -
  assume "resolveType name w s = (Inr t, s')"
  then have "query_row (\<lambda>q d. filter (\<lambda>t. ty_name t = name) (db_types d)) w s = (Inr t, s')"
    by (auto simp: resolveType_def catch_Inr split: if_splits)
  from query_row_Inr [OF this] show ?thesis by (auto dest!: filter_ConsD)
qed

lemma Ent_checked_Inr:
  assumes "Ent_checked lib ctx req w s = (Inr (t, sys, props), s')" "s_tx s = None"
  shows "t \<in> set (db_types (s_db s)) \<and> ty_name t = cr_Type req \<and> cr_ExternalID req \<noteq> []
     \<and> resolveEffectiveSystemID ctx (cr_SystemID req) = Inr sys \<and> validateScopeConstraints t sys = None
     \<and> props = default_props (cr_Properties req) \<and> validateProperties lib props (ty_allowed_properties t) = None
     \<and> s_db s' = s_db s \<and> s_tx s' = None"
  using assms unfolding Ent_checked_def Let_def
  by (auto simp: bind_Inr validateCreateRequest_def split: if_splits dest!: resolveType_Inr)

lemma Ent_create_run:
  assumes "Ent_create_body env ctx e0 w s = (Inr e, s')"
  shows "\<exists>q row p. ctx_in w s q \<and> visible q (ent_SystemID e0) \<and> ent_Properties e0 = Some p
     \<and> en_type_id row = ent_TypeID e0 \<and> en_external_id row = ent_ExternalID e0 \<and> en_properties row = p
     \<and> en_system_id row = ent_SystemID e0
     \<and> e = e0\<lparr>ent_ID := en_id row, ent_CreatedAt := en_created row, ent_UpdatedAt := en_updated row\<rparr>
     \<and> but_audit (s_db s') = but_audit ((s_db s)\<lparr>db_entities := db_entities (s_db s) @ [row]\<rparr>)"
proof -
  from assms obtain row s1 u where
    ins: "exec (not_null (ent_Properties e0) (\<lambda>p. insert_entity (ent_TypeID e0) (ent_ExternalID e0) p (ent_SystemID e0))) w s = (Inr row, s1)"
    and e: "e = e0\<lparr>ent_ID := en_id row, ent_CreatedAt := en_created row, ent_UpdatedAt := en_updated row\<rparr>"
    and wr: "WriteFromContext env ctx (ent_entry env OpCreate (en_id row) None (Some e)) w s1 = (Inr u, s')"
    by (auto simp: Ent_create_body_def Ent_repo_Create_def bind_Inr)
  from exec_Inr_ctx [OF ins] obtain q where
    st: "not_null (ent_Properties e0) (\<lambda>p. insert_entity (ent_TypeID e0) (ent_ExternalID e0) p (ent_SystemID e0)) q (s_db s) = Inr (row, s_db s1)"
    and q: "ctx_in w s q" .
  from st obtain p where "ent_Properties e0 = Some p"
    "insert_entity (ent_TypeID e0) (ent_ExternalID e0) p (ent_SystemID e0) q (s_db s) = Inr (row, s_db s1)"
    by (auto simp: not_null_Inr)
  with insert_entity_Inr [OF this(2)] q e WriteFromContext_but [OF wr] show ?thesis
    by (intro exI [of _ q] exI [of _ row] exI [of _ p]) simp
qed

text \<open>
  C28. An entity that is created is the one that was asked for: one row is added, of the requested type
  and external id, with the requested properties (the empty object by default), which conform to the
  JSON Schema of the type; it belongs to a system exactly if the type's scope says so; and the entity
  of a caller with an active system belongs to that system. Nothing else changes but the audit log.
\<close>

theorem entity_create_valid:
  assumes "Ent_Create lib env ctx req w s = (Inr e, s')" "s_tx (s :: sess) = None"
  shows "\<exists>t row. t \<in> set (db_types (s_db s)) \<and> ty_name t = cr_Type req \<and> e = ent_of_row (row, t)
     \<and> but_audit (s_db s') = but_audit ((s_db s)\<lparr>db_entities := db_entities (s_db s) @ [row]\<rparr>)
     \<and> en_type_id row = ty_id t \<and> en_external_id row = cr_ExternalID req \<and> cr_ExternalID req \<noteq> []
     \<and> Some (en_properties row) = default_props (cr_Properties req)
     \<and> conforms lib ''oad://entity/properties'' (ty_allowed_properties t) (en_properties row)
     \<and> (ty_scope t = ScopeSystemScoped \<longrightarrow> en_system_id row \<noteq> None) \<and> (ty_scope t = ScopeGlobal \<longrightarrow> en_system_id row = None)
     \<and> (\<forall>i u. ctx = Some i \<longrightarrow> id_ActiveSystemID i = Some u \<longrightarrow> en_system_id row = Some u)"
proof -
  from assms(1) obtain t sys props s1 where ck: "Ent_checked lib ctx req w s = (Inr (t, sys, props), s1)"
    and run: "WithAuthScope ctx (Ent_create_body env ctx
       \<lparr>ent_ID = uuid_Nil, ent_TypeID = ty_id t, ent_Type = ty_name t, ent_ExternalID = cr_ExternalID req,
        ent_Properties = props, ent_SystemID = sys, ent_CreatedAt = 0, ent_UpdatedAt = 0\<rparr>) w s1 = (Inr e, s')"
    by (auto simp: Ent_Create_def bind_Inr)
  note ck' = Ent_checked_Inr [OF ck assms(2)]
  then have tx: "s_tx s1 = None" by blast
  from with_scope_Inr [OF run tx ent_bodies_ok(1) [THEN preserving_keeps_snapshot]] obtain s2 s3 where
    db: "s_db s2 = s_db s1" "s_db s' = s_db s3" and body: "Ent_create_body env ctx
       \<lparr>ent_ID = uuid_Nil, ent_TypeID = ty_id t, ent_Type = ty_name t, ent_ExternalID = cr_ExternalID req,
        ent_Properties = props, ent_SystemID = sys, ent_CreatedAt = 0, ent_UpdatedAt = 0\<rparr> w s2 = (Inr e, s3)" by blast
  from Ent_create_run [OF body] obtain row p where row: "props = Some p" "en_type_id row = ty_id t"
    "en_external_id row = cr_ExternalID req" "en_properties row = p" "en_system_id row = sys"
    "e = ent_of_row (row, t)" "but_audit (s_db s3) = but_audit ((s_db s2)\<lparr>db_entities := db_entities (s_db s2) @ [row]\<rparr>)"
    by (auto simp: ent_of_row_def)
  have conf: "conforms lib ''oad://entity/properties'' (ty_allowed_properties t) p"
    using ck' row(1) by (simp add: validateProperties_def against_schema_None)
  have scope: "(ty_scope t = ScopeSystemScoped \<longrightarrow> sys \<noteq> None) \<and> (ty_scope t = ScopeGlobal \<longrightarrow> sys = None)"
    using ck' by (auto simp: validateScopeConstraints_def ScopeSystemScoped_def ScopeGlobal_def split: if_splits)
  have own: "\<forall>i u. ctx = Some i \<longrightarrow> id_ActiveSystemID i = Some u \<longrightarrow> sys = Some u"
    using ck' by (auto simp: resolveEffectiveSystemID_def split: if_splits)
  show ?thesis
    by (rule exI [of _ t], rule exI [of _ row]) (use ck' row conf scope own db in simp)
qed

lemma Ent_repo_GetByID_Inr:
  assumes "Ent_repo_GetByID i w s = (Inr x, s')"
  shows "\<exists>q e t. x = ent_of_row (e, t) \<and> (e, t) \<in> set (typed_entities q (s_db s)) \<and> en_id e = i \<and> ctx_in w s q
     \<and> s_db s' = s_db s \<and> s_tx s' = s_tx s"
proof -
  from assms obtain et where "query_row (\<lambda>q d. filter (\<lambda>(e, t). en_id e = i) (typed_entities q d)) w s = (Inr et, s')"
    "x = ent_of_row et"
    by (auto simp: Ent_repo_GetByID_def scanEntity_def bind_Inr)
  with query_row_Inr [OF this(1)] show ?thesis by (cases et) (auto dest!: filter_ConsD)
qed

text \<open>The first of the updated rows, as \<open>RETURNING\<close> with \<open>QueryRow\<close> reads it.\<close>

lemma first_row_Inr:
  assumes "scan_row (bind (exec st) (\<lambda>rows. ret (case rows of [] \<Rightarrow> None | y # _ \<Rightarrow> Some (g y)))) w s = (Inr t, s')"
  shows "\<exists>y ys. exec st w s = (Inr (y # ys), s') \<and> t = g y"
proof -
  from assms obtain rows where "exec st w s = (Inr rows, s')" "Some t = (case rows of [] \<Rightarrow> None | y # _ \<Rightarrow> Some (g y))"
    by (auto simp: bind_Inr)
  then show ?thesis by (cases rows) auto
qed

lemma Ent_repo_Update_Inr:
  assumes "Ent_repo_Update e w s = (Inr u, s')" "distinct (map en_id (db_entities (s_db s)))"
  shows "\<exists>p t. ent_Properties e = Some p \<and> u = e\<lparr>ent_UpdatedAt := t\<rparr> \<and> s_tx s' = s_tx s
     \<and> s_db s' = (s_db s)\<lparr>db_entities := map (\<lambda>x. if en_id x = ent_ID e then x\<lparr>en_properties := p, en_updated := t\<rparr> else x)
                    (db_entities (s_db s))\<rparr>"
proof -
  let ?st = "not_null (ent_Properties e) (\<lambda>p. update_entities (\<lambda>q d x. en_id x = ent_ID e) (\<lambda>x. x\<lparr>en_properties := p\<rparr>))"
  from assms(1) obtain t where fr: "scan_row (bind (exec ?st) (\<lambda>rows. ret (case rows of [] \<Rightarrow> None | y # _ \<Rightarrow> Some (en_updated y)))) w s = (Inr t, s')"
    and ut: "u = e\<lparr>ent_UpdatedAt := t\<rparr>"
    by (auto simp: Ent_repo_Update_def bind_Inr simp del: scan_row_Inr)
  from first_row_Inr [OF fr] obtain y ys where ex: "exec ?st w s = (Inr (y # ys), s')" and t: "t = en_updated y" by blast
  define rows where "rows = y # ys"
  have ex: "exec ?st w s = (Inr rows, s')" and rows: "rows = y # tl rows" and u: "u = e\<lparr>ent_UpdatedAt := en_updated y\<rparr>"
    using ex ut t by (simp_all add: rows_def)
  from exec_Inr_ctx [OF ex] obtain q where st: "?st q (s_db s) = Inr (rows, s_db s')" and tx: "s_tx s' = s_tx s" .
  from st obtain p where p: "ent_Properties e = Some p"
    and up: "update_entities (\<lambda>q d x. en_id x = ent_ID e) (\<lambda>x. x\<lparr>en_properties := p\<rparr>) q (s_db s) = Inr (rows, s_db s')"
    by (auto simp: not_null_Inr)
  let ?hit = "\<lambda>x. visible q (en_system_id x) \<and> en_id x = ent_ID e"
  from up have r: "rows = map (\<lambda>x. x\<lparr>en_properties := p, en_updated := q_now q\<rparr>) (filter ?hit (db_entities (s_db s)))"
    and d: "s_db s' = (s_db s)\<lparr>db_entities := map (\<lambda>x. if ?hit x then x\<lparr>en_properties := p, en_updated := q_now q\<rparr> else x) (db_entities (s_db s))\<rparr>"
    by (auto simp: update_entities_def Let_def)
  have "y \<in> set rows" by (subst rows) simp
  with r obtain x0 where x0: "x0 \<in> set (filter ?hit (db_entities (s_db s)))" and y: "en_updated y = q_now q" by auto
  have "?hit x \<longleftrightarrow> en_id x = ent_ID e" if "x \<in> set (db_entities (s_db s))" for x
    using x0 that assms(2) by (auto simp: distinct_map inj_on_def)
  then have "map (\<lambda>x. if ?hit x then x\<lparr>en_properties := p, en_updated := q_now q\<rparr> else x) (db_entities (s_db s))
      = map (\<lambda>x. if en_id x = ent_ID e then x\<lparr>en_properties := p, en_updated := q_now q\<rparr> else x) (db_entities (s_db s))"
    by (intro map_cong refl) auto
  with d p u y tx show ?thesis by (intro exI [of _ p] exI [of _ "q_now q"]) simp
qed

lemma Ent_update_body_Inr:
  assumes "Ent_update_body lib env ctx i props w s = (Inr e, s')"
  shows "\<exists>ex t sa sb sc. Ent_repo_GetByID i w s = (Inr ex, sa) \<and> resolveType (ent_Type ex) w sa = (Inr t, sb)
     \<and> validateProperties lib props (ty_allowed_properties t) = None
     \<and> Ent_repo_Update (ex\<lparr>ent_Properties := props\<rparr>) w sb = (Inr e, sc) \<and> but_audit (s_db s') = but_audit (s_db sc)"
proof -
  from assms obtain ex t sa sb sc x where 1: "Ent_repo_GetByID i w s = (Inr ex, sa)" "resolveType (ent_Type ex) w sa = (Inr t, sb)"
     "validateProperties lib props (ty_allowed_properties t) = None"
     "Ent_repo_Update (ex\<lparr>ent_Properties := props\<rparr>) w sb = (Inr e, sc)"
     "WriteFromContext env ctx (ent_entry env OpUpdate (ent_ID e) (Some ex) (Some e)) w sc = (Inr x, s')"
    by (auto simp: Ent_update_body_def bind_Inr)
  from WriteFromContext_but [OF 1(5)] 1 show ?thesis by blast
qed

text \<open>
  An update of an entity replaces its properties and its time of change and nothing else: not its
  type, external id, system or identifier, not another entity, and no other table but the audit log.
  The new properties conform to the JSON Schema of the entity's type, and a caller with an active
  system reaches only its own entities and the global ones.
\<close>

theorem entity_update_valid:
  assumes "Ent_Update lib env ctx i props w s = (Inr e, s')" "s_tx (s :: sess) = None" "core_ok (s_db s)"
  shows "\<exists>row t p now. row \<in> set (db_entities (s_db s)) \<and> en_id row = i \<and> t \<in> set (db_types (s_db s)) \<and> ty_id t = en_type_id row
     \<and> props = Some p \<and> conforms lib ''oad://entity/properties'' (ty_allowed_properties t) p
     \<and> but_audit (s_db s') = but_audit ((s_db s)\<lparr>db_entities :=
          map (\<lambda>x. if en_id x = i then x\<lparr>en_properties := p, en_updated := now\<rparr> else x) (db_entities (s_db s))\<rparr>)
     \<and> e = ent_of_row (row\<lparr>en_properties := p, en_updated := now\<rparr>, t)
     \<and> (\<forall>c u. ctx = Some c \<longrightarrow> id_ActiveSystemID c = Some u \<longrightarrow> \<not> w_bypass_rls w \<longrightarrow> en_system_id row \<in> {None, Some u})"
proof -
  from assms(1) obtain p where p: "props = Some p" and run: "WithAuthScope ctx (Ent_update_body lib env ctx i props) w s = (Inr e, s')"
    by (auto simp: Ent_Update_def split: if_splits)
  obtain c n s1 tx s2 where c: "ctx = Some c" and db1: "s_db s1 = s_db s" and tx: "s_tx s1 = Some tx"
      "tx_setting tx = (case id_ActiveSystemID c of None \<Rightarrow> w_unset w n | Some u \<Rightarrow> SetSystem u)"
    and body: "Ent_update_body lib env ctx i props w s1 = (Inr e, s2)" and db2: "s_db s' = s_db s2"
    by (rule with_scope_Inr [OF run assms(2) ent_bodies_ok(2) [THEN preserving_keeps_snapshot]]) (rule that)
  note db = db1 db2
  from Ent_update_body_Inr [OF body] obtain ex t sa sb sc where get: "Ent_repo_GetByID i w s1 = (Inr ex, sa)"
    and ty: "resolveType (ent_Type ex) w sa = (Inr t, sb)" and val: "validateProperties lib props (ty_allowed_properties t) = None"
    and up: "Ent_repo_Update (ex\<lparr>ent_Properties := props\<rparr>) w sb = (Inr e, sc)"
    and but: "but_audit (s_db s2) = but_audit (s_db sc)"
    by blast
  from Ent_repo_GetByID_Inr [OF get] db obtain q row t0 where ex: "ex = ent_of_row (row, t0)" and q: "ctx_in w s1 q"
    and row: "row \<in> set (db_entities (s_db s))" "visible q (en_system_id row)" "en_id row = i"
    and t0: "t0 \<in> set (db_types (s_db s))" "ty_id t0 = en_type_id row" and sa: "s_db sa = s_db s"
    by (auto simp: in_typed_entities)
  from resolveType_Inr [OF ty] sa ex have t: "t \<in> set (db_types (s_db s))" "ty_name t = ty_name t0" and sb: "s_db sb = s_db s"
    by (auto simp: ent_of_row_def)
  from assms(3) t t0(1) have tt: "t = t0" by (auto simp: core_ok_def db_ok_def distinct_map inj_on_def)
  from assms(3) sb have "distinct (map en_id (db_entities (s_db sb)))" by (simp add: core_ok_def db_ok_def)
  from Ent_repo_Update_Inr [OF up this] obtain now where e: "e = (ex\<lparr>ent_Properties := props\<rparr>)\<lparr>ent_UpdatedAt := now\<rparr>"
    and sc: "s_db sc = (s_db s)\<lparr>db_entities := map (\<lambda>x. if en_id x = i then x\<lparr>en_properties := p, en_updated := now\<rparr> else x) (db_entities (s_db s))\<rparr>"
    using p ex row(3) sb by (auto simp: ent_of_row_def)
  have vis: "\<forall>c u. ctx = Some c \<longrightarrow> id_ActiveSystemID c = Some u \<longrightarrow> \<not> w_bypass_rls w \<longrightarrow> en_system_id row \<in> {None, Some u}"
    unfolding c by (rule scoped_own [OF tx_scoped [OF q tx] row(2)])
  show ?thesis
    by (rule exI [of _ row], rule exI [of _ t], rule exI [of _ p], rule exI [of _ now])
      (use row t0 t tt p val e ex sc but db vis in \<open>simp add: validateProperties_def against_schema_None ent_of_row_def\<close>)
qed

subsection \<open>Relations\<close>

lemma typed_entity_Inr:
  assumes "typed_entity what i w s = (Inr t, s')"
  shows "\<exists>q e. (e, t) \<in> set (typed_entities q (s_db s)) \<and> en_id e = i \<and> ctx_in w s q \<and> s_db s' = s_db s \<and> s_tx s' = s_tx s"
proof -
  from assms obtain et where "query_row (\<lambda>q d. filter (\<lambda>(e, t). en_id e = i) (typed_entities q d)) w s = (Inr et, s')" "t = snd et"
    by (auto simp: typed_entity_def bind_Inr catch_Inr split: prod.splits if_splits)
  with query_row_Inr [OF this(1)] show ?thesis by (cases et) (auto dest!: filter_ConsD)
qed

lemma Rel_create_body_Inr:
  assumes "Rel_create_body env ctx req w s = (Inr r, s')"
  shows "\<exists>ts targets tt sa sb sc. typed_entity ''subject'' (rc_SubjectEntityID req) w s = (Inr ts, sa)
     \<and> extractRelationEntry ts (rc_RelationType req) = Inr targets
     \<and> typed_entity ''target'' (rc_TargetEntityID req) w sa = (Inr tt, sb)
     \<and> check_target ts (rc_RelationType req) targets (ty_name tt) = None
     \<and> Rel_repo_Create \<lparr>rel_ID = uuid_Nil, rel_SubjectEntityID = rc_SubjectEntityID req,
             rel_RelationType = rc_RelationType req, rel_TargetEntityID = rc_TargetEntityID req,
             rel_SystemID = rc_SystemID req, rel_CreatedAt = 0\<rparr> w sb = (Inr r, sc)
     \<and> but_audit (s_db s') = but_audit (s_db sc)"
proof -
  from assms obtain ts targets tt sa sb sc x where 1: "typed_entity ''subject'' (rc_SubjectEntityID req) w s = (Inr ts, sa)"
     "extractRelationEntry ts (rc_RelationType req) = Inr targets"
     "typed_entity ''target'' (rc_TargetEntityID req) w sa = (Inr tt, sb)"
     "check_target ts (rc_RelationType req) targets (ty_name tt) = None"
     "Rel_repo_Create \<lparr>rel_ID = uuid_Nil, rel_SubjectEntityID = rc_SubjectEntityID req,
             rel_RelationType = rc_RelationType req, rel_TargetEntityID = rc_TargetEntityID req,
             rel_SystemID = rc_SystemID req, rel_CreatedAt = 0\<rparr> w sb = (Inr r, sc)"
     "WriteFromContext env ctx (rel_entry env OpCreate (rel_ID r) None (Some r)) w sc = (Inr x, s')"
    by (auto simp: Rel_create_body_def getSubjectInfo_def getTargetTypeName_def bind_Inr)
  from WriteFromContext_but [OF 1(6)] 1(1-5) show ?thesis by blast
qed

text \<open>
  C29. An edge is only created where the schema allows it: subject and target are two different
  entities, the type of the subject declares the relation, and the type of the target is among the
  targets declared. The row added is the one that was asked for, nothing else changes but the audit
  log, and a caller with an active system adds only global edges and edges of that system.
\<close>

theorem relation_create_allowed:
  assumes "Rel_Create env ctx req w s = (Inr r, s')" "s_tx (s :: sess) = None"
  shows "\<exists>row es ts et tt targets es'. r = rel_of_row row
     \<and> but_audit (s_db s') = but_audit ((s_db s)\<lparr>db_relations := db_relations (s_db s) @ [row]\<rparr>)
     \<and> rl_subject row = rc_SubjectEntityID req \<and> rl_type row = rc_RelationType req \<and> rl_target row = rc_TargetEntityID req
     \<and> rl_system row = rc_SystemID req \<and> rl_subject row \<noteq> rl_target row
     \<and> es \<in> set (db_entities (s_db s)) \<and> en_id es = rl_subject row \<and> ts \<in> set (db_types (s_db s)) \<and> ty_id ts = en_type_id es
     \<and> et \<in> set (db_entities (s_db s)) \<and> en_id et = rl_target row \<and> tt \<in> set (db_types (s_db s)) \<and> ty_id tt = en_type_id et
     \<and> relation_entries (ty_allowed_relations ts) = Inr es' \<and> map_of es' (rl_type row) = Some targets \<and> ty_name tt \<in> set targets
     \<and> (\<forall>c u. ctx = Some c \<longrightarrow> id_ActiveSystemID c = Some u \<longrightarrow> \<not> w_bypass_rls w \<longrightarrow> rl_system row \<in> {None, Some u})"
proof -
  from assms(1) have val: "Rel_validateCreateRequest req = None" and run: "WithAuthScope ctx (Rel_create_body env ctx req) w s = (Inr r, s')"
    by (auto simp: Rel_Create_def bind_Inr)
  obtain c n s1 tx s2 where c: "ctx = Some c" and db1: "s_db s1 = s_db s" and tx: "s_tx s1 = Some tx"
      "tx_setting tx = (case id_ActiveSystemID c of None \<Rightarrow> w_unset w n | Some u \<Rightarrow> SetSystem u)"
    and body: "Rel_create_body env ctx req w s1 = (Inr r, s2)" and db2: "s_db s' = s_db s2"
    by (rule with_scope_Inr [OF run assms(2) rel_bodies_ok(1) [THEN preserving_keeps_snapshot]]) (rule that)
  note db = db1 db2
  from Rel_create_body_Inr [OF body] obtain ts targets tt sa sb sc where
    sub: "typed_entity ''subject'' (rc_SubjectEntityID req) w s1 = (Inr ts, sa)"
    and ext: "extractRelationEntry ts (rc_RelationType req) = Inr targets"
    and tgt: "typed_entity ''target'' (rc_TargetEntityID req) w sa = (Inr tt, sb)"
    and ck: "check_target ts (rc_RelationType req) targets (ty_name tt) = None"
    and cr: "Rel_repo_Create \<lparr>rel_ID = uuid_Nil, rel_SubjectEntityID = rc_SubjectEntityID req,
             rel_RelationType = rc_RelationType req, rel_TargetEntityID = rc_TargetEntityID req,
             rel_SystemID = rc_SystemID req, rel_CreatedAt = 0\<rparr> w sb = (Inr r, sc)"
    and but: "but_audit (s_db s2) = but_audit (s_db sc)"
    by blast
  from typed_entity_Inr [OF sub] db obtain es where es: "es \<in> set (db_entities (s_db s))" "en_id es = rc_SubjectEntityID req"
    "ts \<in> set (db_types (s_db s))" "ty_id ts = en_type_id es" and sa: "s_db sa = s_db s" "s_tx sa = s_tx s1"
    by (auto simp: in_typed_entities)
  from typed_entity_Inr [OF tgt] sa obtain et where et: "et \<in> set (db_entities (s_db s))" "en_id et = rc_TargetEntityID req"
    "tt \<in> set (db_types (s_db s))" "ty_id tt = en_type_id et" and sb: "s_db sb = s_db s" "s_tx sb = s_tx s1"
    by (auto simp: in_typed_entities)
  from cr obtain row where ins: "exec (insert_relation (rc_SubjectEntityID req) (rc_RelationType req) (rc_TargetEntityID req) (rc_SystemID req)) w sb = (Inr row, sc)"
    and r: "r = \<lparr>rel_ID = rl_id row, rel_SubjectEntityID = rc_SubjectEntityID req, rel_RelationType = rc_RelationType req,
       rel_TargetEntityID = rc_TargetEntityID req, rel_SystemID = rc_SystemID req, rel_CreatedAt = rl_created row\<rparr>"
    by (auto simp: Rel_repo_Create_def bind_Inr)
  from exec_Inr_ctx [OF ins] obtain q where
    "insert_relation (rc_SubjectEntityID req) (rc_RelationType req) (rc_TargetEntityID req) (rc_SystemID req) q (s_db sb) = Inr (row, s_db sc)"
    and q: "ctx_in w sb q" .
  note row = insert_relation_Inr [OF this(1)]
  from q sb(2) have q1: "ctx_in w s1 q \<or> ctx_in w sb q" by simp
  have "ctx_in w sb q" "s_tx sb = Some tx" using q sb(2) tx(1) by simp_all
  note sc = tx_scoped [OF this tx(2)]
  have vis: "\<forall>c u. ctx = Some c \<longrightarrow> id_ActiveSystemID c = Some u \<longrightarrow> \<not> w_bypass_rls w \<longrightarrow> rl_system row \<in> {None, Some u}"
    unfolding c by (rule scoped_own [OF sc]) (use row in simp)
  from ext obtain es' where es': "relation_entries (ty_allowed_relations ts) = Inr es'" "map_of es' (rc_RelationType req) = Some targets"
    by (auto simp: extractRelationEntry_def split: sum.splits option.splits)
  have target: "ty_name tt \<in> set targets" using ck by (simp add: check_target_def split: if_splits)
  have neq: "rc_SubjectEntityID req \<noteq> rc_TargetEntityID req" using val by (auto simp: Rel_validateCreateRequest_def split: if_splits)
  show ?thesis
    by (rule exI [of _ row], rule exI [of _ es], rule exI [of _ ts], rule exI [of _ et], rule exI [of _ tt], rule exI [of _ targets],
        rule exI [of _ es']) (use row r es et es' target neq vis but db sb in \<open>simp add: rel_of_row_def\<close>)
qed

end
