(* ===== verification/Core_Scope.thy ===== *)
theory Core_Scope
  imports Core_Rules
begin

section \<open>Who may change what\<close>

text \<open>
  Row level security seen from the services: a caller with an active system changes no row of another
  system. Global entity types are changed by platform administrators only, and the name and the active
  flag of a system too.
\<close>

subsection \<open>Successes inside a scoped transaction\<close>

definition in_scope :: "uuid \<Rightarrow> world \<Rightarrow> sess \<Rightarrow> bool" where
  "in_scope u w s \<longleftrightarrow> (\<exists>t. s_tx s = Some t \<and> tx_setting t = SetSystem u) \<and> \<not> w_bypass_rls w"

definition within :: "uuid \<Rightarrow> (database \<Rightarrow> database \<Rightarrow> bool) \<Rightarrow> 'a db \<Rightarrow> bool" where
  "within u R m \<longleftrightarrow> (\<forall>w s x s'. in_scope u w s \<longrightarrow> m w s = (Inr x, s') \<longrightarrow> R (s_db s) (s_db s') \<and> in_scope u w s')"

named_theorems scope_intros

lemma withinD: "within u R m \<Longrightarrow> m w s = (Inr x, s') \<Longrightarrow> in_scope u w s \<Longrightarrow> R (s_db s) (s_db s') \<and> in_scope u w s'"
  unfolding within_def by blast

lemma within_bind [scope_intros]:
  assumes "transp R" "within u R m" "\<And>x. within u R (f x)"
  shows "within u R (bind m f)"
  unfolding within_def bind_Inr
proof (intro allI impI, elim exE conjE)
  fix w s y s' x s1
  assume "in_scope u w s" "m w s = (Inr x, s1)" "f x w s1 = (Inr y, s')"
  with withinD [OF assms(2)] withinD [OF assms(3)] assms(1)
  show "R (s_db s) (s_db s') \<and> in_scope u w s'" by (metis transpD)
qed

definition fails :: "'a db \<Rightarrow> bool" where
  "fails m \<longleftrightarrow> (\<forall>w s. isl (fst (m w s)))"

lemma fails_intros [scope_intros]:
  "fails (throw e)" "fails (reject a)" "fails m \<Longrightarrow> fails m' \<Longrightarrow> fails (if b then m else m')"
  by (simp_all add: fails_def throw_def reject_def)

lemma within_catch [scope_intros]:
  assumes "within u R m" "\<And>e. fails (h e)"
  shows "within u R (catch m h)"
  unfolding within_def
proof (intro allI impI)
  fix w s x s' assume s: "in_scope u w s" and c: "catch m h w s = (Inr x, s')"
  have "m w s = (Inr x, s')"
  proof (cases "m w s")
    case (Pair r s1)
    show ?thesis
    proof (cases r)
      case (Inl e)
      with c Pair have "h e w s1 = (Inr x, s')" by (simp add: catch_def)
      with assms(2) [of e] show ?thesis unfolding fails_def by (metis fst_conv isl_def sum.distinct(1))
    next
      case (Inr y)
      with c Pair show ?thesis by (simp add: catch_def)
    qed
  qed
  from withinD [OF assms(1) this s] show "R (s_db s) (s_db s') \<and> in_scope u w s'" .
qed

lemma within_returns [scope_intros]:
  "reflp R \<Longrightarrow> within u R (ret x)" "within u R (throw e)" "within u R (reject a)" "reflp R \<Longrightarrow> within u R (check ck)"
  "reflp R \<Longrightarrow> within u R (lift_api r)" "reflp R \<Longrightarrow> within u R (MustIdentity ctx)"
  by (simp_all add: within_def reflpD)

lemma within_if [scope_intros]: "within u R m \<Longrightarrow> within u R m' \<Longrightarrow> within u R (if b then m else m')"
  by simp

lemma within_wrap [scope_intros]: "within u R m \<Longrightarrow> within u R (wrap_err c m)"
  unfolding wrap_err_def by (intro within_catch fails_intros)

lemma within_scan_row [scope_intros]: "within u R m \<Longrightarrow> within u R (scan_row m)"
  by (auto simp: within_def)

lemma within_exec:
  assumes "\<And>q d x d'. q_setting q = SetSystem u \<Longrightarrow> \<not> q_bypass q \<Longrightarrow> f q d = Inr (x, d') \<Longrightarrow> R d d'"
  shows "within u R (exec f)"
  unfolding within_def
proof (intro allI impI)
  fix w s x s' assume s: "in_scope u w s" and e: "exec f w s = (Inr x, s')"
  from exec_Inr_ctx [OF e] obtain q where q: "f q (s_db s) = Inr (x, s_db s')" "ctx_in w s q" "s_tx s' = s_tx s" .
  from s q(2) have "q_setting q = SetSystem u" "\<not> q_bypass q" by (auto simp: in_scope_def ctx_in_def)
  from assms [OF this q(1)] s q(3) show "R (s_db s) (s_db s') \<and> in_scope u w s'" by (simp add: in_scope_def)
qed

lemma within_query [scope_intros]: "reflp R \<Longrightarrow> within u R (query f)" "reflp R \<Longrightarrow> within u R (query_row f)"
proof -
  assume R: "reflp R"
  show q: "within u R (query f)" for f unfolding query_def by (rule within_exec) (use R in \<open>auto simp: reflpD\<close>)
  show "within u R (query_row f)" for f unfolding query_row_def by (intro within_scan_row q)
qed

lemma within_not_null [scope_intros]:
  assumes "\<And>j. within u R (exec (f j))"
  shows "within u R (exec (not_null r f))"
proof (cases r)
  case None
  show ?thesis by (rule within_exec) (simp add: not_null_def None pg_error_def)
next
  case (Some j)
  then have "not_null r f = f j" by (simp add: not_null_def fun_eq_iff)
  with assms show ?thesis by simp
qed

subsection \<open>The rows of other systems\<close>

definition foreign :: "uuid \<Rightarrow> uuid option \<Rightarrow> bool" where
  "foreign u sys \<longleftrightarrow> sys \<noteq> None \<and> sys \<noteq> Some u"

definition foreign_rows :: "uuid \<Rightarrow> database \<Rightarrow> entity_row list \<times> relation_row list \<times> overlay_row list \<times> webhook_row list" where
  "foreign_rows u d = (filter (\<lambda>e. foreign u (en_system_id e)) (db_entities d), filter (\<lambda>r. foreign u (rl_system r)) (db_relations d),
     filter (\<lambda>r. foreign u (Some (ov_system r))) (db_overlays d), filter (\<lambda>h. foreign u (Some (wh_system h))) (db_webhooks d))"

definition keeps_foreign :: "uuid \<Rightarrow> database \<Rightarrow> database \<Rightarrow> bool" where
  "keeps_foreign u d d' \<longleftrightarrow> foreign_rows u d' = foreign_rows u d"

lemma keeps_foreign_props [scope_intros]: "reflp (keeps_foreign u)" "transp (keeps_foreign u)"
  by (auto simp: keeps_foreign_def intro: reflpI transpI)

lemma visible_scoped: "q_setting q = SetSystem u \<Longrightarrow> \<not> q_bypass q \<Longrightarrow> visible q sys \<longleftrightarrow> \<not> foreign u sys"
  by (cases sys) (auto simp: visible_def foreign_def)

lemma filter_map_invisible:
  "(\<And>x. sysf (g x) = sysf x) \<Longrightarrow> filter (\<lambda>x. foreign u (sysf x)) (map (\<lambda>x. if \<not> foreign u (sysf x) \<and> P x then g x else x) xs)
     = filter (\<lambda>x. foreign u (sysf x)) xs"
  by (induction xs) auto

lemma filter_absorb: "(\<And>x. F x \<Longrightarrow> Q x) \<Longrightarrow> filter F (filter Q xs) = filter F xs"
  by (induction xs) auto

lemma statements_keep_foreign [scope_intros]:
  "within u (keeps_foreign u) (exec (insert_entity tid ext props sys))"
  "within u (keeps_foreign u) (exec (insert_relation subj rt tgt sys))"
  "within u (keeps_foreign u) (exec (insert_overlay ent osys props))"
  "within u (keeps_foreign u) (exec (insert_entity_of_type tname ext props))"
  "within u (keeps_foreign u) (exec (insert_type name props rels scope))"
  "within u (keeps_foreign u) (exec (delete_type i))" "within u (keeps_foreign u) (exec (insert_schema ssys tid allowed))"
  "within u (keeps_foreign u) (exec (delete_schemas U))" "within u (keeps_foreign u) (exec (insert_audit a))"
proof -
  have e: "keeps_foreign u d d'" if "q_setting q = SetSystem u" "\<not> q_bypass q" "insert_entity tid ext props sys q d = Inr (e, d')"
    for q d d' tid ext props sys e
    using insert_entity_Inr [OF that(3)] visible_scoped [OF that(1,2)] by (auto simp: keeps_foreign_def foreign_rows_def)
  show "within u (keeps_foreign u) (exec (insert_entity tid ext props sys))" by (rule within_exec) (rule e)
  show "within u (keeps_foreign u) (exec (insert_entity_of_type tname ext props))"
    by (rule within_exec) (auto simp: insert_entity_of_type_def keeps_foreign_props reflpD split: option.splits sum.splits intro: e)
  show "within u (keeps_foreign u) (exec (insert_relation subj rt tgt sys))"
    by (rule within_exec) (auto simp: keeps_foreign_def foreign_rows_def visible_scoped dest!: insert_relation_Inr)
  show "within u (keeps_foreign u) (exec (insert_overlay ent osys props))"
    by (rule within_exec) (auto simp: keeps_foreign_def foreign_rows_def visible_scoped dest!: insert_overlay_Inr)
  show "within u (keeps_foreign u) (exec (insert_type name props rels scope))"
    "within u (keeps_foreign u) (exec (delete_type i))" "within u (keeps_foreign u) (exec (insert_schema ssys tid allowed))"
    "within u (keeps_foreign u) (exec (delete_schemas U))" "within u (keeps_foreign u) (exec (insert_audit a))"
    by (rule within_exec; auto simp: keeps_foreign_def foreign_rows_def insert_type_def delete_type_def insert_schema_def
        delete_schemas_def insert_audit_def pg_error_def Let_def split: if_splits)+
qed

lemma updates_keep_foreign [scope_intros]:
  "(\<And>e. en_system_id (f e) = en_system_id e) \<Longrightarrow> within u (keeps_foreign u) (exec (update_entities P f))"
  "(\<And>e. en_system_id (f e) = en_system_id e) \<Longrightarrow> within u (keeps_foreign u) (exec (update_entities_key P f))"
  "(\<And>r. ov_system (h r) = ov_system r) \<Longrightarrow> within u (keeps_foreign u) (exec (update_overlays W h))"
  "within u (keeps_foreign u) (exec (update_types T g))" "within u (keeps_foreign u) (exec (update_schemas S k))"
  "within u (keeps_foreign u) (exec (delete_overlays D))" "within u (keeps_foreign u) (exec (delete_relations E))"
proof -
  have e: "keeps_foreign u d d'" if "q_setting q = SetSystem u" "\<not> q_bypass q" "update_entities P f q d = Inr (x, d')"
    "\<And>e. en_system_id (f e) = en_system_id e" for q d d' x
    using that(3,4) filter_map_invisible [where sysf = en_system_id and g = "\<lambda>e. (f e)\<lparr>en_updated := q_now q\<rparr>" and P = "\<lambda>e. P q d e" and u = u and xs = "db_entities d"]
    by (auto simp: update_entities_def Let_def keeps_foreign_def foreign_rows_def visible_scoped [OF that(1,2)])
  show "(\<And>e. en_system_id (f e) = en_system_id e) \<Longrightarrow> within u (keeps_foreign u) (exec (update_entities P f))"
    by (rule within_exec) (rule e)
  show "(\<And>e. en_system_id (f e) = en_system_id e) \<Longrightarrow> within u (keeps_foreign u) (exec (update_entities_key P f))"
    by (rule within_exec) (auto simp: update_entities_key_def pg_error_def split: sum.splits if_splits intro: e)
  show "within u (keeps_foreign u) (exec (update_overlays W h))" if "\<And>r. ov_system (h r) = ov_system r"
  proof (rule within_exec)
    fix q d x d' assume q: "q_setting q = SetSystem u" "\<not> q_bypass q" and st: "update_overlays W h q d = Inr (x, d')"
    show "keeps_foreign u d d'"
      using st that filter_map_invisible [where sysf = "\<lambda>r. Some (ov_system r)" and g = "\<lambda>r. (h r)\<lparr>ov_updated := q_now q\<rparr>" and P = W and u = u
          and xs = "db_overlays d"]
      by (auto simp: update_overlays_def Let_def keeps_foreign_def foreign_rows_def visible_scoped [OF q])
  qed
  show "within u (keeps_foreign u) (exec (update_types T g))" "within u (keeps_foreign u) (exec (update_schemas S k))"
    by (rule within_exec; auto simp: keeps_foreign_def foreign_rows_def update_types_def update_schemas_def Let_def)+
  show "within u (keeps_foreign u) (exec (delete_overlays D))"
  proof (rule within_exec)
    fix q d x d' assume q: "q_setting q = SetSystem u" "\<not> q_bypass q" and st: "delete_overlays D q d = Inr (x, d')"
    show "keeps_foreign u d d'"
      using st by (auto simp: delete_overlays_def Let_def keeps_foreign_def foreign_rows_def visible_scoped [OF q] simp del: filter_filter intro!: filter_absorb)
  qed
  show "within u (keeps_foreign u) (exec (delete_relations E))"
  proof (rule within_exec)
    fix q d x d' assume q: "q_setting q = SetSystem u" "\<not> q_bypass q" and st: "delete_relations E q d = Inr (x, d')"
    show "keeps_foreign u d d'"
      using st by (auto simp: delete_relations_def Let_def keeps_foreign_def foreign_rows_def visible_scoped [OF q] simp del: filter_filter intro!: filter_absorb)
  qed
qed

lemma hooks_keep_foreign [scope_intros]:
  "within u (keeps_foreign u) (exec (insert_webhook hsys url sec act))" "within u (keeps_foreign u) (exec (delete_webhooks P))"
  "(\<And>h. wh_system (f h) = wh_system h) \<Longrightarrow> within u (keeps_foreign u) (exec (update_webhooks P f))"
proof -
  show "within u (keeps_foreign u) (exec (insert_webhook hsys url sec act))"
    by (rule within_exec) (auto simp: keeps_foreign_def foreign_rows_def visible_scoped insert_webhook_def pg_error_def Let_def split: if_splits)
  show "within u (keeps_foreign u) (exec (delete_webhooks P))"
  proof (rule within_exec)
    fix q d x d' assume q: "q_setting q = SetSystem u" "\<not> q_bypass q" and st: "delete_webhooks P q d = Inr (x, d')"
    show "keeps_foreign u d d'"
      using st by (auto simp: delete_webhooks_def Let_def keeps_foreign_def foreign_rows_def visible_scoped [OF q] simp del: filter_filter intro!: filter_absorb)
  qed
  show "within u (keeps_foreign u) (exec (update_webhooks P f))" if "\<And>h. wh_system (f h) = wh_system h"
  proof (rule within_exec)
    fix q d x d' assume q: "q_setting q = SetSystem u" "\<not> q_bypass q" and st: "update_webhooks P f q d = Inr (x, d')"
    show "keeps_foreign u d d'"
      using st that filter_map_invisible [where sysf = "\<lambda>h. Some (wh_system h)" and g = "\<lambda>h. (f h)\<lparr>wh_updated := q_now q\<rparr>" and P = P and u = u
          and xs = "db_webhooks d"]
      by (auto simp: update_webhooks_def Let_def keeps_foreign_def foreign_rows_def visible_scoped [OF q])
  qed
qed

lemma within_context [scope_intros]: "within u (keeps_foreign u) (WriteFromContext env ctx entry)"
  unfolding WriteFromContext_def audit_Write_def by (intro scope_intros)

lemmas body_defs = ET_create_body_def ET_update_body_def ET_delete_body_def Ent_create_body_def Ent_update_body_def
  Sys_create_body_def Sys_patch_body_def Rel_create_body_def Rel_delete_body_def OS_create_body_def OS_update_body_def
  OS_delete_body_def PO_create_body_def PO_update_body_def PO_delete_body_def
  Hook_create_body_def Hook_update_body_def Hook_delete_body_def

lemmas repo_defs = ET_repo_Create_def ET_repo_GetByID_def ET_repo_Update_def ET_repo_Delete_def
  Ent_repo_Create_def Ent_repo_GetByID_def scanEntity_def Ent_repo_Update_def resolveType_def
  Sys_repo_Create_def Sys_repo_GetByID_def Sys_repo_Update_def Let_def
  Rel_repo_Create_def Rel_repo_GetByID_def Rel_repo_Delete_def getSubjectInfo_def getTargetTypeName_def typed_entity_def case_prod_beta
  OS_repo_Create_def OS_repo_GetByID_def OS_repo_Update_def OS_repo_Delete_def own_schema_def
  PO_repo_Create_def PO_repo_GetByID_def scanOverlay_def PO_repo_Update_def PO_repo_Delete_def own_overlay_def
  Hook_repo_Create_def Hook_repo_GetByID_def scanSubscription_def Hook_repo_Update_def Hook_repo_Delete_def own_hook_def

lemma within_select_system [scope_intros]: "within u (keeps_foreign u) (exec (select_system i))"
  by (rule within_exec) (auto simp: select_system_def keeps_foreign_def split: list.splits sum.splits)

lemma bodies_keep_foreign:
  "within u (keeps_foreign u) (ET_create_body env ctx etd)" "within u (keeps_foreign u) (ET_update_body env ctx i eur)"
  "within u (keeps_foreign u) (ET_delete_body env ctx i)" "within u (keeps_foreign u) (Ent_create_body env ctx e)"
  "within u (keeps_foreign u) (Ent_update_body lib env ctx i props)" "within u (keeps_foreign u) (Sys_create_body env ctx s)"
  "within u (keeps_foreign u) (Sys_patch_body env ctx i spr)" "within u (keeps_foreign u) (Rel_create_body env ctx rcr)"
  "within u (keeps_foreign u) (Rel_delete_body env ctx i)" "within u (keeps_foreign u) (OS_create_body env ctx os)"
  "within u (keeps_foreign u) (OS_update_body env ctx sid i props)" "within u (keeps_foreign u) (OS_delete_body env ctx sid i)"
  "within u (keeps_foreign u) (PO_create_body env ctx po)" "within u (keeps_foreign u) (PO_update_body env ctx ent sid i props)"
  "within u (keeps_foreign u) (PO_delete_body env ctx ent sid i)"
  "within u (keeps_foreign u) (Hook_create_body env ctx su sec)" "within u (keeps_foreign u) (Hook_update_body env ctx sid i hreq)"
  "within u (keeps_foreign u) (Hook_delete_body env ctx sid i)"
  unfolding body_defs repo_defs by ((intro scope_intros; simp)+)

text \<open>Deleting an entity takes its edges and overlays along, those of other systems too.\<close>

definition apart_rows :: "uuid \<Rightarrow> uuid \<Rightarrow> database \<Rightarrow> entity_row list \<times> relation_row list \<times> overlay_row list \<times> webhook_row list" where
  "apart_rows u i d = (filter (\<lambda>e. foreign u (en_system_id e)) (db_entities d),
     filter (\<lambda>r. foreign u (rl_system r) \<and> rl_subject r \<noteq> i \<and> rl_target r \<noteq> i) (db_relations d),
     filter (\<lambda>r. foreign u (Some (ov_system r)) \<and> ov_entity r \<noteq> i) (db_overlays d),
     filter (\<lambda>h. foreign u (Some (wh_system h))) (db_webhooks d))"

definition apart :: "uuid \<Rightarrow> uuid \<Rightarrow> database \<Rightarrow> database \<Rightarrow> bool" where
  "apart u i d d' \<longleftrightarrow> (core_ok d \<longrightarrow> core_ok d' \<and> apart_rows u i d' = apart_rows u i d)"

lemma apart_props [scope_intros]: "reflp (apart u i)" "transp (apart u i)"
  by (auto simp: apart_def intro!: reflpI transpI)

lemma within_apart_delete [scope_intros]: "within u (apart u i) (exec (delete_entities (\<lambda>d e. en_id e = i)))"
proof (rule within_exec)
  fix q d n d' assume q: "q_setting q = SetSystem u" "\<not> q_bypass q" and st: "delete_entities (\<lambda>d e. en_id e = i) q d = Inr (n, d')"
  define ids where "ids = map en_id (filter (\<lambda>e. en_id e = i) (entities q d))"
  have ids: "set ids \<subseteq> {i}" by (auto simp: ids_def)
  from st have d': "d' = cascade_delete ids d" by (auto simp: delete_entities_def Let_def pg_error_def ids_def split: if_splits)
  show "apart u i d d'"
    unfolding apart_def
  proof (intro impI conjI)
    assume ok: "core_ok d"
    from core_ok_delete_entities [OF st ok] show "core_ok d'" .
    have "en_id e \<notin> set ids" if "e \<in> set (db_entities d)" "foreign u (en_system_id e)" for e
    proof
      assume "en_id e \<in> set ids"
      then obtain e' where "e' \<in> set (db_entities d)" "visible q (en_system_id e')" "en_id e' = en_id e"
        by (auto simp: ids_def entities_def)
      moreover from ok have "distinct (map en_id (db_entities d))" by (simp add: core_ok_def db_ok_def)
      ultimately have "e' = e" using that(1) by (auto simp: distinct_map inj_on_def)
      with \<open>visible q (en_system_id e')\<close> that(2) show False by (simp add: visible_scoped [OF q])
    qed
    then have "filter (\<lambda>e. foreign u (en_system_id e)) (filter (\<lambda>e. en_id e \<notin> set ids) (db_entities d))
        = filter (\<lambda>e. foreign u (en_system_id e)) (db_entities d)"
      by (auto simp: filter_filter intro!: filter_cong)
    with ids show "apart_rows u i d' = apart_rows u i d"
      by (auto simp: d' cascade_delete_def apart_rows_def simp del: filter_filter intro!: filter_absorb)
  qed
qed

lemma within_apart_audit [scope_intros]: "within u (apart u i) (exec (insert_audit a))"
  by (rule within_exec) (auto simp: apart_def apart_rows_def insert_audit_def pg_error_def core_ok_def db_ok_rest entity_ids_def
      type_ids_def split: if_splits)

lemma entity_delete_apart: "within u (apart u i) (Ent_delete_body env ctx i)"
  unfolding Ent_delete_body_def Ent_repo_Delete_def Ent_repo_GetByID_def scanEntity_def WriteFromContext_def audit_Write_def
  by (intro scope_intros)

subsection \<open>Requests of a caller with an active system\<close>

definition safe_for :: "world \<Rightarrow> (database \<Rightarrow> database \<Rightarrow> bool) \<Rightarrow> 'a db \<Rightarrow> bool" where
  "safe_for w R m \<longleftrightarrow> (\<forall>s :: sess. s_tx s = None \<longrightarrow> R (s_db s) (s_db (snd (m w s))) \<and> s_tx (snd (m w s)) = None)"

lemma safe_forD: "safe_for w R m \<Longrightarrow> s_tx (s :: sess) = None \<Longrightarrow> m w s = (r, s') \<Longrightarrow> R (s_db s) (s_db s') \<and> s_tx s' = None"
  unfolding safe_for_def by (drule spec [of _ s]) simp

lemma safe_for_bind:
  assumes "transp R" "safe_for w R m" "\<And>x. safe_for w R (f x)"
  shows "safe_for w R (bind m f)"
  unfolding safe_for_def
proof (intro allI impI)
  fix s :: sess assume s: "s_tx s = None"
  obtain r s1 where m: "m w s = (r, s1)" by fastforce
  from safe_forD [OF assms(2) s m] have 1: "R (s_db s) (s_db s1)" "s_tx s1 = None" by simp_all
  show "R (s_db s) (s_db (snd (bind m f w s))) \<and> s_tx (snd (bind m f w s)) = None"
  proof (cases r)
    case (Inl e)
    with m 1 show ?thesis by (simp add: bind_def)
  next
    case (Inr x)
    obtain r2 s2 where f: "f x w s1 = (r2, s2)" by fastforce
    from safe_forD [OF assms(3) 1(2) f] 1 assms(1) Inr m f show ?thesis by (auto simp: bind_def dest: transpD)
  qed
qed

lemma safe_for_catch:
  assumes "transp R" "safe_for w R m" "\<And>e. safe_for w R (h e)"
  shows "safe_for w R (catch m h)"
  unfolding safe_for_def
proof (intro allI impI)
  fix s :: sess assume s: "s_tx s = None"
  obtain r s1 where m: "m w s = (r, s1)" by fastforce
  from safe_forD [OF assms(2) s m] have 1: "R (s_db s) (s_db s1)" "s_tx s1 = None" by simp_all
  show "R (s_db s) (s_db (snd (catch m h w s))) \<and> s_tx (snd (catch m h w s)) = None"
  proof (cases r)
    case (Inr x)
    with m 1 show ?thesis by (simp add: catch_def)
  next
    case (Inl e)
    obtain r2 s2 where f: "h e w s1 = (r2, s2)" by fastforce
    from safe_forD [OF assms(3) 1(2) f] 1 assms(1) Inl m f show ?thesis by (auto simp: catch_def dest: transpD)
  qed
qed

lemma safe_for_simple:
  "reflp R \<Longrightarrow> safe_for w R (ret x)" "reflp R \<Longrightarrow> safe_for w R (throw e)" "reflp R \<Longrightarrow> safe_for w R (reject a)"
  "safe_for w R m \<Longrightarrow> safe_for w R m' \<Longrightarrow> safe_for w R (if b then m else m')"
  by (auto simp: safe_for_def ret_def throw_def reject_def reflpD)

lemma safe_for_read: "preserving same_db m \<Longrightarrow> reflp R \<Longrightarrow> safe_for w R m"
proof -
  assume m: "preserving same_db m" and R: "reflp R"
  have "R (s_db s) (s_db (snd (m w s))) \<and> s_tx (snd (m w s)) = None" if "s_tx s = None" for s :: sess
    using reads_none [OF m prod.collapse [symmetric] that] R by (simp add: reflpD)
  then show ?thesis by (simp add: safe_for_def)
qed

lemma safe_for_scope:
  assumes "within u R m" "keeps_snapshot m" "reflp R" "transp R" "ctx = Some c" "id_ActiveSystemID c = Some u" "\<not> w_bypass_rls w"
  shows "safe_for w R (map_err g (WithAuthScope ctx m))"
proof -
  have "safe_for w R (WithAuthScope ctx m)"
    unfolding safe_for_def
  proof (intro allI impI)
    fix s :: sess assume s: "s_tx s = None"
    obtain r s' where run: "WithAuthScope ctx m w s = (r, s')" by fastforce
    from run s assms(2) have "R (s_db s) (s_db s') \<and> s_tx s' = None"
    proof (rule scope_outcome)
      assume "s_db s' = s_db s" "s_tx s' = None"
      with assms(3) show ?thesis by (simp add: reflpD)
    next
      fix i n x s1 t s2
      assume a: "ctx = Some i" "s_db s1 = s_db s" "s_tx s1 = Some t"
        "tx_setting t = (case id_ActiveSystemID i of None \<Rightarrow> w_unset w n | Some u \<Rightarrow> SetSystem u)"
        "m w s1 = (Inr x, s2)" "s_db s' = s_db s2" "s_tx s' = None"
      then have "in_scope u w s1" using assms(5-7) by (auto simp: in_scope_def)
      from withinD [OF assms(1) a(5) this] a show ?thesis by simp
    qed
    with run show "R (s_db s) (s_db (snd (WithAuthScope ctx m w s))) \<and> s_tx (snd (WithAuthScope ctx m w s)) = None" by simp
  qed
  then show ?thesis unfolding map_err_def by (intro safe_for_catch safe_for_simple assms)
qed

definition scoped_caller :: "world \<Rightarrow> request_context \<Rightarrow> uuid \<Rightarrow> bool" where
  "scoped_caller w ctx u \<longleftrightarrow> (\<exists>c. ctx = Some c \<and> id_ActiveSystemID c = Some u) \<and> \<not> w_bypass_rls w"

lemma scope_request:
  assumes "scoped_caller w ctx u" "within u (keeps_foreign u) m" "preserving keeps_core m"
  shows "safe_for w (keeps_foreign u) (map_err g (WithAuthScope ctx m))"
proof -
  from assms(1) obtain c where "ctx = Some c" "id_ActiveSystemID c = Some u" "\<not> w_bypass_rls w" by (auto simp: scoped_caller_def)
  from safe_for_scope [OF assms(2) preserving_keeps_snapshot [OF assms(3)] keeps_foreign_props this] show ?thesis .
qed

lemma read_request: "(\<And>R. reflp R \<Longrightarrow> transp R \<Longrightarrow> preserving R m) \<Longrightarrow> safe_for w (keeps_foreign u) m"
  by (rule safe_for_read) (simp_all add: same_db_props keeps_foreign_props)

lemmas request_rules = safe_for_bind [OF keeps_foreign_props(2)] safe_for_simple(4) safe_for_simple(1-3) [OF keeps_foreign_props(1)]
  bodies_keep_foreign bodies_ok

lemma requests_keep_foreign:
  assumes "scoped_caller w ctx u"
  shows "safe_for w (keeps_foreign u) (ET_Create lib env ctx ecr)" "safe_for w (keeps_foreign u) (ET_Update lib env ctx i eur)"
    "safe_for w (keeps_foreign u) (ET_Delete env ctx i)" "safe_for w (keeps_foreign u) (Ent_Create lib env ctx cr)"
    "safe_for w (keeps_foreign u) (Ent_Update lib env ctx i props)"
    "safe_for w (keeps_foreign u) (Sys_Create env ctx scr)" "safe_for w (keeps_foreign u) (Sys_Patch env ctx i spr)"
    "safe_for w (keeps_foreign u) (Rel_Create env ctx rcr)" "safe_for w (keeps_foreign u) (Rel_Delete env ctx i)"
    "safe_for w (keeps_foreign u) (OS_Create lib env ctx sid ocr)" "safe_for w (keeps_foreign u) (OS_Update lib env ctx sid i props)"
    "safe_for w (keeps_foreign u) (OS_Delete env ctx sid i)" "safe_for w (keeps_foreign u) (PO_Create lib env ctx ent props)"
    "safe_for w (keeps_foreign u) (PO_Update lib env ctx ent i props)" "safe_for w (keeps_foreign u) (PO_Delete env ctx ent i)"
    "safe_for w (keeps_foreign u) (Hook_Create env ctx sid hcr)" "safe_for w (keeps_foreign u) (Hook_Update env ctx sid i hur)"
    "safe_for w (keeps_foreign u) (Hook_Delete env ctx sid i)"
  unfolding service_defs case_prod_beta
  by (intro request_rules scope_request [OF assms] | rule read_request, (intro db_intros; assumption))+

lemma bulk_safe_for:
  assumes R: "reflp R" "transp R" and "\<And>req. safe_for w R (Ent_Create lib env ctx req)" "\<And>i props. safe_for w R (Ent_Update lib env ctx i props)"
  shows "safe_for w R (BulkCreate lib env ctx items mode)"
proof -
  note rules = safe_for_bind [OF R(2)] safe_for_simple(4) safe_for_simple(1-3) [OF R(1)] assms(3,4)
  have up: "safe_for w R (createOrUpdate lib env ctx req)" for req
  proof -
    have "preserving same_db (Ent_checked lib ctx req)" "preserving same_db (find_existing i x)" for i x
      by (intro db_intros)+
    then have rd: "safe_for w R (Ent_checked lib ctx req)" "safe_for w R (find_existing i x)" for i x
      using safe_for_read R(1) by blast+
    show ?thesis
      unfolding createOrUpdate_def case_prod_beta
      by (intro safe_for_bind [OF R(2)] rd) (auto split: option.splits intro!: rules)
  qed
  have item: "safe_for w R (bulk_item lib env ctx m i item acc)" for m i item acc
    unfolding bulk_item_def by (intro safe_for_catch R rules up) (auto split: goerr.splits intro!: rules)
  have "safe_for w R (bulk_loop lib env ctx m i items acc)" for m i acc
    by (induction items arbitrary: i acc) (auto intro!: rules item)
  then show ?thesis unfolding BulkCreate_def Let_def by (intro rules)
qed

lemma bulk_keeps_foreign:
  "scoped_caller w ctx u \<Longrightarrow> safe_for w (keeps_foreign u) (BulkCreate lib env ctx items mode)"
  by (intro bulk_safe_for keeps_foreign_props requests_keep_foreign)


subsection \<open>Global types\<close>

definition global_types :: "database \<Rightarrow> type_row list" where
  "global_types d = filter (\<lambda>t. ty_scope t = ScopeGlobal) (db_types d)"

definition keeps_globals :: "database \<Rightarrow> database \<Rightarrow> bool" where
  "keeps_globals d d' \<longleftrightarrow> (core_ok d \<longrightarrow> core_ok d' \<and> global_types d' = global_types d)"

definition same_types :: "database \<Rightarrow> database \<Rightarrow> bool" where
  "same_types d d' \<longleftrightarrow> db_types d' = db_types d"

lemma types_kept_props [db_intros]: "reflp same_types" "transp same_types"
  by (auto simp: same_types_def intro: reflpI transpI)

lemma keeps_globals_props [db_intros]: "reflp keeps_globals" "transp keeps_globals"
  by (auto simp: keeps_globals_def intro!: reflpI transpI)

lemma types_kept_statements [db_intros]:
  "preserving same_types (exec (insert_entity tid ext props sys))" "preserving same_types (exec (insert_entity_of_type tname ext props))"
  "preserving same_types (exec (update_entities P f))" "preserving same_types (exec (update_entities_key P f))"
  "preserving same_types (exec (delete_entities S))" "preserving same_types (exec (insert_relation subj rt tgt rsys))"
  "preserving same_types (exec (delete_relations E))" "preserving same_types (exec (insert_overlay ent osys oprops))"
  "preserving same_types (exec (update_overlays W h))" "preserving same_types (exec (delete_overlays D))"
  "preserving same_types (exec (insert_schema ssys stid allowed))" "preserving same_types (exec (update_schemas U k))"
  "preserving same_types (exec (delete_schemas V))" "preserving same_types (exec (insert_audit a))"
  "preserving same_types (exec (insert_webhook hsys url sec act))" "preserving same_types (exec (update_webhooks Y l))"
  "preserving same_types (exec (delete_webhooks Y))"
  by (rule preserving_exec; auto simp: same_types_def insert_entity_def insert_entity_of_type_def update_entities_def update_entities_key_def
      delete_entities_def cascade_delete_def insert_relation_def delete_relations_def insert_overlay_def update_overlays_def
      delete_overlays_def insert_schema_def update_schemas_def delete_schemas_def insert_audit_def
      insert_webhook_def update_webhooks_def delete_webhooks_def pg_error_def Let_def
      intro: reflpI split: if_splits option.splits sum.splits)+

lemma same_types_context [db_intros]: "preserving same_types (WriteFromContext env ctx entry)"
  unfolding WriteFromContext_def audit_Write_def by (intro db_intros)

lemma bodies_same_types [db_intros]:
  "preserving same_types (Ent_create_body env ctx e)" "preserving same_types (Ent_update_body lib env ctx i props)"
  "preserving same_types (Ent_delete_body env ctx i)" "preserving same_types (Sys_create_body env ctx s)"
  "preserving same_types (Sys_patch_body env ctx i spr)" "preserving same_types (Rel_create_body env ctx rcr)"
  "preserving same_types (Rel_delete_body env ctx i)" "preserving same_types (OS_create_body env ctx os)"
  "preserving same_types (OS_update_body env ctx sid i props)" "preserving same_types (OS_delete_body env ctx sid i)"
  "preserving same_types (PO_create_body env ctx po)" "preserving same_types (PO_update_body env ctx ent sid i props)"
  "preserving same_types (PO_delete_body env ctx ent sid i)"
  "preserving same_types (Hook_create_body env ctx su sec)" "preserving same_types (Hook_update_body env ctx sid i hreq)"
  "preserving same_types (Hook_delete_body env ctx sid i)"
  unfolding Ent_create_body_def Ent_update_body_def Ent_delete_body_def Sys_create_body_def Sys_patch_body_def
    Rel_create_body_def Rel_delete_body_def OS_create_body_def OS_update_body_def OS_delete_body_def
    PO_create_body_def PO_update_body_def PO_delete_body_def
    Ent_repo_Create_def Ent_repo_Update_def Ent_repo_Delete_def Sys_repo_Create_def Sys_repo_Update_def Let_def
    Rel_repo_Create_def Rel_repo_Delete_def OS_repo_Create_def OS_repo_Update_def OS_repo_Delete_def
    PO_repo_Create_def PO_repo_Update_def PO_repo_Delete_def
    Hook_create_body_def Hook_update_body_def Hook_delete_body_def Hook_repo_Create_def Hook_repo_Update_def Hook_repo_Delete_def
  by (intro db_intros)+

lemma safe_for_body_types:
  assumes "preserving same_types m" "preserving keeps_core m"
  shows "safe_for w keeps_globals (map_err g (WithAuthScope ctx m))"
proof -
  have e: "ensures keeps_globals m"
    using preserving_ensures [OF assms(1)] preserving_ensures [OF assms(2)]
    unfolding ensures_def keeps_globals_def same_types_def keeps_core_def global_types_def by metis
  have "safe keeps_globals (map_err g (WithAuthScope ctx m))"
    by (intro safe_map_err safe_scope keeps_globals_props preserving_keeps_snapshot [OF assms(2)] e)
  then show ?thesis by (simp add: safe_def safe_for_def)
qed

lemma requests_keep_globals:
  "safe_for w keeps_globals (Ent_Create lib env ctx cr)"
  "safe_for w keeps_globals (Ent_Update lib env ctx i props)" "safe_for w keeps_globals (Ent_Delete env ctx i)"
  "safe_for w keeps_globals (Sys_Create env ctx scr)" "safe_for w keeps_globals (Sys_Patch env ctx i spr)"
  "safe_for w keeps_globals (Rel_Create env ctx rcr)" "safe_for w keeps_globals (Rel_Delete env ctx i)"
  "safe_for w keeps_globals (OS_Create lib env ctx sid ocr)" "safe_for w keeps_globals (OS_Update lib env ctx sid i props)"
  "safe_for w keeps_globals (OS_Delete env ctx sid i)" "safe_for w keeps_globals (PO_Create lib env ctx ent props)"
  "safe_for w keeps_globals (PO_Update lib env ctx ent i props)" "safe_for w keeps_globals (PO_Delete env ctx ent i)"
    "safe_for w keeps_globals (Hook_Create env ctx sid hcr)"
    "safe_for w keeps_globals (Hook_Update env ctx sid i hur)" "safe_for w keeps_globals (Hook_Delete env ctx sid i)"
proof -
  have rd: "safe_for w keeps_globals m" if "\<And>R. reflp R \<Longrightarrow> transp R \<Longrightarrow> preserving R m" for m :: "'x db"
    by (rule safe_for_read) (simp_all add: that same_db_props keeps_globals_props)
  note rules = safe_for_bind [OF keeps_globals_props(2)] safe_for_simple(4) safe_for_simple(1-3) [OF keeps_globals_props(1)]
    safe_for_body_types bodies_same_types bodies_ok
  show "safe_for w keeps_globals (Ent_Create lib env ctx cr)"
    "safe_for w keeps_globals (Ent_Update lib env ctx i props)" "safe_for w keeps_globals (Ent_Delete env ctx i)"
    "safe_for w keeps_globals (Sys_Create env ctx scr)" "safe_for w keeps_globals (Sys_Patch env ctx i spr)"
    "safe_for w keeps_globals (Rel_Create env ctx rcr)" "safe_for w keeps_globals (Rel_Delete env ctx i)"
    "safe_for w keeps_globals (OS_Create lib env ctx sid ocr)" "safe_for w keeps_globals (OS_Update lib env ctx sid i props)"
    "safe_for w keeps_globals (OS_Delete env ctx sid i)" "safe_for w keeps_globals (PO_Create lib env ctx ent props)"
    "safe_for w keeps_globals (PO_Update lib env ctx ent i props)" "safe_for w keeps_globals (PO_Delete env ctx ent i)"
    "safe_for w keeps_globals (Hook_Create env ctx sid hcr)"
    "safe_for w keeps_globals (Hook_Update env ctx sid i hur)" "safe_for w keeps_globals (Hook_Delete env ctx sid i)"
    unfolding service_defs case_prod_beta
    by (intro rules | rule rd, (intro db_intros; assumption))+
qed

definition not_admin :: "request_context \<Rightarrow> bool" where
  "not_admin ctx \<longleftrightarrow> (\<forall>c. ctx = Some c \<longrightarrow> \<not> id_IsPlatformAdmin c)"

lemma not_admin_gate: "not_admin ctx \<Longrightarrow> requirePlatformAdminForGlobal ctx scope = None \<longleftrightarrow> scope \<noteq> ScopeGlobal"
  by (auto simp: requirePlatformAdminForGlobal_def not_admin_def split: option.splits)

lemma type_create_keeps_globals:
  assumes "not_admin ctx"
  shows "safe_for w keeps_globals (ET_Create lib env ctx req)"
proof -
  have body: "ensures keeps_globals (ET_create_body env ctx etd)" if "et_Scope etd \<noteq> ScopeGlobal" for etd
  proof (rule ensuresI)
    fix w s x s' assume run: "ET_create_body env ctx etd w s = (Inr x, s')"
    then obtain row s1 e u where ins: "exec (not_null (et_AllowedProperties etd) (\<lambda>p. not_null (et_AllowedRelations etd) (\<lambda>r.
        insert_type (et_TypeName etd) p r (et_Scope etd)))) w s = (Inr row, s1)" and wr: "WriteFromContext env ctx e w s1 = (Inr u, s')"
      by (auto simp: ET_create_body_def ET_repo_Create_def bind_Inr)
    from exec_Inr [OF ins] obtain q where "not_null (et_AllowedProperties etd) (\<lambda>p. not_null (et_AllowedRelations etd) (\<lambda>r.
        insert_type (et_TypeName etd) p r (et_Scope etd))) q (s_db s) = Inr (row, s_db s1)" by blast
    then obtain p r where "insert_type (et_TypeName etd) p r (et_Scope etd) q (s_db s) = Inr (row, s_db s1)"
      by (auto simp: not_null_Inr)
    then have "global_types (s_db s1) = global_types (s_db s)"
      using that by (auto simp: global_types_def dest!: type_statements_Inr(1))
    with WriteFromContext_but [OF wr] have "global_types (s_db s') = global_types (s_db s)" by (simp add: but_audit_eq global_types_def)
    with preservingD(1) [OF et_bodies_ok(1) run] show "keeps_globals (s_db s) (s_db s')" by (simp add: keeps_globals_def keeps_core_def)
  qed
  have ok: "safe_for w keeps_globals (map_err g (WithAuthScope ctx (ET_create_body env ctx etd)))" if "et_Scope etd \<noteq> ScopeGlobal" for g etd
  proof -
    have "safe keeps_globals (map_err g (WithAuthScope ctx (ET_create_body env ctx etd)))"
      by (intro safe_map_err safe_scope keeps_globals_props preserving_keeps_snapshot [OF et_bodies_ok(1)] body that)
    then show ?thesis by (simp add: safe_def safe_for_def)
  qed
  have ck: "safe_for w keeps_globals (check c)" for c
    by (rule safe_for_read) (intro db_intros keeps_globals_props)+
  show ?thesis
  proof (cases "ec_Scope req = ScopeGlobal")
    case True
    then obtain a where "requirePlatformAdminForGlobal ctx (ec_Scope req) = Some a"
      using not_admin_gate [OF assms, of "ec_Scope req"] by auto
    then have "ET_Create lib env ctx req = bind (check (validateCreate lib req)) (\<lambda>_. reject a)"
      by (auto simp: ET_Create_def check_def reject_def bind_def throw_def fun_eq_iff split: option.splits)
    then show ?thesis using safe_for_bind [OF keeps_globals_props(2) ck safe_for_simple(3) [OF keeps_globals_props(1)]] by simp
  next
    case False
    then show ?thesis
      unfolding ET_Create_def by (intro safe_for_bind keeps_globals_props ck ok) simp
  qed
qed

text \<open>Reading the type that is changed, and changing no other.\<close>

lemma ET_repo_GetByID_Inr:
  assumes "ET_repo_GetByID i w s = (Inr x, s')"
  shows "\<exists>t \<in> set (db_types (s_db s)). x = et_of_row t \<and> ty_id t = i \<and> s_db s' = s_db s \<and> s_tx s' = s_tx s"
proof -
  from assms obtain t where "query_row (\<lambda>q d. filter (\<lambda>t. ty_id t = i) (db_types d)) w s = (Inr t, s')" "x = et_of_row t"
    by (auto simp: ET_repo_GetByID_def bind_Inr)
  with query_row_Inr [OF this(1)] show ?thesis by (auto dest!: filter_ConsD)
qed

lemma only_type:
  assumes "core_ok d" "t \<in> set (db_types d)" "ty_id t = i" "ty_scope t \<noteq> ScopeGlobal" "t' \<in> set (db_types d)" "ty_scope t' = ScopeGlobal"
  shows "ty_id t' \<noteq> i"
  using assms by (auto simp: core_ok_def db_ok_def distinct_map inj_on_def)

lemma type_update_keeps_globals:
  assumes "not_admin ctx"
  shows "ensures keeps_globals (ET_update_body env ctx i req)"
proof (rule ensuresI)
  fix w s x s' assume run: "ET_update_body env ctx i req w s = (Inr x, s')"
  then obtain ex s1 s2 e u where get: "ET_repo_GetByID i w s = (Inr ex, s1)" and gate: "requirePlatformAdminForGlobal ctx (et_Scope ex) = None"
    and up: "ET_repo_Update (ex\<lparr>et_AllowedProperties := eu_AllowedProperties req, et_AllowedRelations := eu_AllowedRelations req\<rparr>) w s1 = (Inr x, s2)"
    and wr: "WriteFromContext env ctx e w s2 = (Inr u, s')"
    by (auto simp: ET_update_body_def bind_Inr)
  from ET_repo_GetByID_Inr [OF get] obtain t where t: "t \<in> set (db_types (s_db s))" "ex = et_of_row t" "ty_id t = i" and s1: "s_db s1 = s_db s" by blast
  from gate t(2) not_admin_gate [OF assms] have scope: "ty_scope t \<noteq> ScopeGlobal" by (simp add: et_of_row_def)
  from up obtain rows f where ex: "exec (not_null (eu_AllowedProperties req) (\<lambda>p. not_null (eu_AllowedRelations req) (\<lambda>r.
      update_types (\<lambda>t. ty_id t = et_ID ex) (\<lambda>t. t\<lparr>ty_allowed_properties := p, ty_allowed_relations := r\<rparr>)))) w s1 = (Inr rows, s2)"
    by (auto simp: ET_repo_Update_def bind_Inr)
  from exec_Inr [OF this] obtain q where "not_null (eu_AllowedProperties req) (\<lambda>p. not_null (eu_AllowedRelations req) (\<lambda>r.
      update_types (\<lambda>t. ty_id t = et_ID ex) (\<lambda>t. t\<lparr>ty_allowed_properties := p, ty_allowed_relations := r\<rparr>))) q (s_db s1) = Inr (rows, s_db s2)"
    by blast
  then obtain p r where
    "update_types (\<lambda>t. ty_id t = i) (\<lambda>t. t\<lparr>ty_allowed_properties := p, ty_allowed_relations := r\<rparr>) q (s_db s) = Inr (rows, s_db s2)"
    using t(2,3) s1 by (auto simp: not_null_Inr et_of_row_def)
  then have d: "db_types (s_db s2) = map (\<lambda>t. if ty_id t = i then t\<lparr>ty_allowed_properties := p, ty_allowed_relations := r, ty_updated := q_now q\<rparr> else t)
      (db_types (s_db s))" by (rule type_statements_Inr(2))
  have "global_types (s_db s2) = global_types (s_db s)" if ok: "core_ok (s_db s)"
  proof -
    have "filter (\<lambda>t. ty_scope t = ScopeGlobal) (map (\<lambda>t. if ty_id t = i then t\<lparr>ty_allowed_properties := p, ty_allowed_relations := r, ty_updated := q_now q\<rparr> else t) ts)
        = filter (\<lambda>t. ty_scope t = ScopeGlobal) ts" if "\<forall>t' \<in> set ts. ty_scope t' = ScopeGlobal \<longrightarrow> ty_id t' \<noteq> i" for ts :: "type_row list"
      using that by (induction ts) auto
    with only_type [OF ok t(1,3) scope] show ?thesis by (simp add: global_types_def d)
  qed
  with WriteFromContext_but [OF wr] preservingD(1) [OF et_bodies_ok(2) run] show "keeps_globals (s_db s) (s_db s')"
    by (simp add: keeps_globals_def keeps_core_def but_audit_eq global_types_def)
qed

lemma type_delete_keeps_globals:
  assumes "not_admin ctx"
  shows "safe_for w keeps_globals (ET_Delete env ctx i)"
  unfolding safe_for_def
proof (intro allI impI)
  fix s :: sess assume tx: "s_tx s = None"
  obtain r s' where run: "ET_Delete env ctx i w s = (r, s')" by fastforce
  have core: "keeps_core (s_db s) (s_db s') \<and> s_tx s' = None"
    using safeD [OF safe_requests(3) tx, of env ctx i w] by (simp add: run)
  have "global_types (s_db s') = global_types (s_db s)" if ok: "core_ok (s_db s)"
  proof -
    obtain rg s1 where get: "map_err ET_toAPIError (ET_repo_GetByID i) w s = (rg, s1)" by fastforce
    have "preserving same_db (map_err ET_toAPIError (ET_repo_GetByID i))" by (intro db_intros)
    from reads_none [OF this get tx] have s1: "s_db s1 = s_db s" "s_tx s1 = None" by simp_all
    show ?thesis
    proof (cases rg)
      case (Inl e)
      with run get s1 show ?thesis by (simp add: ET_Delete_def bind_def)
    next
      case (Inr ex)
      with get have "ET_repo_GetByID i w s = (Inr ex, s1)" by simp
      from ET_repo_GetByID_Inr [OF this] obtain t where t: "t \<in> set (db_types (s_db s))" "ex = et_of_row t" "ty_id t = i" by blast
      show ?thesis
      proof (cases "requirePlatformAdminForGlobal ctx (et_Scope ex)")
        case (Some a)
        with run get Inr s1 show ?thesis by (simp add: ET_Delete_def bind_def check_def reject_def throw_def)
      next
        case None
        with t(2) not_admin_gate [OF assms] have scope: "ty_scope t \<noteq> ScopeGlobal" by (simp add: et_of_row_def)
        define R where "R d d' \<longleftrightarrow> (d = s_db s \<longrightarrow> global_types d' = global_types (s_db s))" for d d'
        have body: "ensures R (ET_delete_body env ctx i)"
        proof (rule ensuresI)
          fix w s0 x s2 assume "ET_delete_body env ctx i w s0 = (Inr x, s2)"
          then obtain e0 s3 n s4 e u where g: "ET_repo_GetByID i w s0 = (Inr e0, s3)" and del: "exec (delete_type i) w s3 = (Inr n, s4)"
            and wr: "WriteFromContext env ctx e w s4 = (Inr u, s2)"
            by (auto simp: ET_delete_body_def ET_repo_Delete_def bind_Inr split: if_splits)
          from exec_Inr [OF del] ET_repo_GetByID_Inr [OF g] obtain q where "delete_type i q (s_db s0) = Inr (n, s_db s4)" by auto
          then have d: "db_types (s_db s4) = filter (\<lambda>t. ty_id t \<noteq> i) (db_types (s_db s0))"
            by (rule type_statements_Inr(3))
          have "filter (\<lambda>t. ty_scope t = ScopeGlobal) (filter (\<lambda>t. ty_id t \<noteq> i) (db_types (s_db s)))
              = filter (\<lambda>t. ty_scope t = ScopeGlobal) (db_types (s_db s))"
            using only_type [OF ok t(1,3) scope] by (auto simp: filter_filter intro!: filter_cong)
          with WriteFromContext_but [OF wr] show "R (s_db s0) (s_db s2)"
            by (simp add: R_def but_audit_eq global_types_def d del: filter_filter)
        qed
        have sb: "s_db s5 = s_db s \<Longrightarrow> s_tx s5 = None \<Longrightarrow> WithAuthScope ctx (ET_delete_body env ctx i) w s5 = (r5, s6)
            \<Longrightarrow> global_types (s_db s6) = global_types (s_db s)" for s5 s6 :: sess and r5
        proof -
          assume a: "s_db s5 = s_db s" "s_tx s5 = None" and run5: "WithAuthScope ctx (ET_delete_body env ctx i) w s5 = (r5, s6)"
          from run5 a(2) preserving_keeps_snapshot [OF et_bodies_ok(3)] show "global_types (s_db s6) = global_types (s_db s)"
            by (rule scope_outcome) (use a(1) ensuresD [OF body] in \<open>auto simp: R_def\<close>)
        qed
        obtain rh s5 where has: "wrap_err ''checking entities for type'' (ET_repo_HasEntities i) w s1 = (rh, s5)" by fastforce
        have "preserving same_db (wrap_err ''checking entities for type'' (ET_repo_HasEntities i))" by (intro db_intros)
        from reads_none [OF this has s1(2)] s1 have s5: "s_db s5 = s_db s" "s_tx s5 = None" by simp_all
        obtain r6 s6 where w6: "WithAuthScope ctx (ET_delete_body env ctx i) w s5 = (r6, s6)" by fastforce
        have "s' = s5 \<or> s' = s6"
          using run get Inr None has w6
          by (cases rh; cases r6) (auto simp: ET_Delete_def bind_def check_def ret_def reject_def throw_def map_err_def catch_def split: if_splits)
        with sb [OF s5 w6] s5(1) show ?thesis by auto
      qed
    qed
  qed
  with core run show "keeps_globals (s_db s) (s_db (snd (ET_Delete env ctx i w s))) \<and> s_tx (snd (ET_Delete env ctx i w s)) = None"
    by (simp add: keeps_globals_def keeps_core_def)
qed

text \<open>
  Global entity types belong to the platform administrators: no request of anyone else, whatever
  it is and however it ends, creates, changes or deletes one.
\<close>

theorem global_types_for_admins:
  assumes "core_serve lib env ctx r w s = (res, s')" "s_tx (s :: sess) = None" "core_ok (s_db s)"
    and "\<And>c. ctx = Some c \<Longrightarrow> \<not> id_IsPlatformAdmin c"
  shows "global_types (s_db s') = global_types (s_db s)"
proof -
  have na: "not_admin ctx" using assms(4) by (simp add: not_admin_def)
  note q = safe_for_bind [OF keeps_globals_props(2) _ safe_for_simple(1) [OF keeps_globals_props(1)]]
  have ck: "safe_for w keeps_globals (check a)" for a by (rule safe_for_read) (intro db_intros keeps_globals_props)+
  have up: "safe_for w keeps_globals (ET_Update lib env ctx i req)" for i req
  proof -
    have "safe keeps_globals (map_err ET_toAPIError (WithAuthScope ctx (ET_update_body env ctx i req)))"
      by (intro safe_map_err safe_scope keeps_globals_props preserving_keeps_snapshot [OF et_bodies_ok(2)] type_update_keeps_globals na)
    then show ?thesis unfolding ET_Update_def by (intro safe_for_bind keeps_globals_props ck) (simp add: safe_def safe_for_def)
  qed
  have "safe_for w keeps_globals (core_serve lib env ctx r)"
    by (cases r) (auto simp: quietly_def intro!: q requests_keep_globals type_create_keeps_globals type_delete_keeps_globals up na
        bulk_safe_for keeps_globals_props)
  from safe_forD [OF this assms(2,1)] assms(3) show ?thesis by (simp add: keeps_globals_def)
qed

end
