(* ===== verification/Requests.thy ===== *)
theory Requests
  imports Core_Scope Scim_Tenant
begin

section \<open>Every request of the API\<close>

text \<open>
  The mutations of the management services and the requests of the SCIM providers as one type. A
  relation between databases that every statement respects holds of every request, whatever fails on
  the way: the locale \<open>table_law\<close>. It is interpreted on the integrity of the tables here, and on that of
  the webhooks in \<open>Dispatcher_Rules\<close>.
\<close>

datatype api_request = Manage request_context core_request | Provision string scim_request

fun api_serve :: "'s schema_lib \<Rightarrow> 'f scim_env \<Rightarrow> api_request \<Rightarrow> unit db" where
  "api_serve lib v (Manage ctx r) = core_serve lib (sv_render v) ctx r"
| "api_serve lib v (Provision p r) = scim_serve v p r"

fun api_run :: "'s schema_lib \<Rightarrow> 'f scim_env \<Rightarrow> world \<Rightarrow> api_request list \<Rightarrow> sess \<Rightarrow> sess" where
  "api_run lib v w [] s = s"
| "api_run lib v w (r # rs) s = api_run lib v w rs (snd (api_serve lib v r w s))"

locale table_law =
  fixes R :: "database \<Rightarrow> database \<Rightarrow> bool"
  assumes R: "reflp R" "transp R"
    and entity_law: "preserving R (exec (insert_entity tid ext props sys))" "preserving R (exec (insert_entity_of_type tname ext props))"
      "preserving R (exec (delete_entities S))"
      "(\<And>e. en_id (f e) = en_id e \<and> en_type_id (f e) = en_type_id e \<and> en_external_id (f e) = en_external_id e) \<Longrightarrow>
         preserving R (exec (update_entities P f))"
      "(\<And>e. en_id (f e) = en_id e \<and> en_type_id (f e) = en_type_id e) \<Longrightarrow> preserving R (exec (update_entities_key P f))"
    and identity_law: "preserving R (exec (insert_identity eid p sub))" "preserving R (exec (delete_identities Q))"
    and relation_law: "preserving R (exec (insert_relation subj rt tgt sys))" "preserving R (exec (delete_relations E))"
    and type_law: "preserving R (exec (insert_type name props rels scope))" "preserving R (exec (delete_type i))"
      "(\<And>t. ty_id (g t) = ty_id t \<and> ty_name (g t) = ty_name t) \<Longrightarrow> preserving R (exec (update_types T g))"
    and overlay_law: "preserving R (exec (insert_overlay ent osys props))" "preserving R (exec (delete_overlays D))"
      "(\<And>r. ov_entity (h r) = ov_entity r \<and> ov_system (h r) = ov_system r) \<Longrightarrow> preserving R (exec (update_overlays W h))"
    and schema_law: "preserving R (exec (insert_schema ssys tid props))" "preserving R (exec (delete_schemas U))"
      "(\<And>r. sc_type (k r) = sc_type r \<and> sc_system (k r) = sc_system r) \<Longrightarrow> preserving R (exec (update_schemas V k))"
    and hook_law: "preserving R (exec (insert_webhook hsys url sec act))" "preserving R (exec (delete_webhooks X))"
      "(\<And>x. wh_id (l x) = wh_id x \<and> wh_system (l x) = wh_system x) \<Longrightarrow> preserving R (exec (update_webhooks X l))"
    and audit_law: "preserving R (exec (insert_audit a))"
begin

lemmas laws = R entity_law identity_law relation_law type_law overlay_law schema_law hook_law audit_law

lemma context_law: "preserving R (WriteFromContext env ctx entry)" "preserving R (audit_Write entry)"
  unfolding WriteFromContext_def audit_Write_def by (intro db_intros laws)+

lemma core_bodies:
  "preserving R (ET_create_body env ctx etd)" "preserving R (ET_update_body env ctx i eur)" "preserving R (ET_delete_body env ctx i)"
  "preserving R (Ent_create_body env ctx e)" "preserving R (Ent_update_body lib env ctx i props)" "preserving R (Ent_delete_body env ctx i)"
  "preserving R (Sys_create_body env ctx s)" "preserving R (Sys_patch_body env ctx i spr)"
  "preserving R (Rel_create_body env ctx rcr)" "preserving R (Rel_delete_body env ctx i)"
  "preserving R (OS_create_body env ctx os)" "preserving R (OS_update_body env ctx sid i props)" "preserving R (OS_delete_body env ctx sid i)"
  "preserving R (PO_create_body env ctx po)" "preserving R (PO_update_body env ctx ent sid i props)" "preserving R (PO_delete_body env ctx ent sid i)"
  "preserving R (Hook_create_body env ctx su secr)" "preserving R (Hook_update_body env ctx sid i hreq)"
  "preserving R (Hook_delete_body env ctx sid i)"
  unfolding body_defs Ent_delete_body_def ET_repo_Create_def ET_repo_Update_def ET_repo_Delete_def
    Ent_repo_Create_def Ent_repo_Update_def Ent_repo_Delete_def Sys_repo_Create_def Sys_repo_Update_def Let_def
    Rel_repo_Create_def Rel_repo_Delete_def OS_repo_Create_def OS_repo_Update_def OS_repo_Delete_def
    PO_repo_Create_def PO_repo_Update_def PO_repo_Delete_def Hook_repo_Create_def Hook_repo_Update_def Hook_repo_Delete_def
  by ((intro db_intros laws context_law; simp)+)

lemma scope_law:
  assumes "preserving R m"
  shows "safe R (map_err g (WithAuthScope ctx m))"
  by (intro safe_map_err safe_scope R preserving_keeps_snapshot [OF assms] preserving_ensures [OF assms])

lemma core_requests:
  "safe R (ET_Create lib env ctx ecr)" "safe R (ET_Update lib env ctx i eur)" "safe R (ET_Delete env ctx i)"
  "safe R (Ent_Create lib env ctx cr)" "safe R (Ent_Update lib env ctx i props)" "safe R (Ent_Delete env ctx i)"
  "safe R (Sys_Create env ctx scr)" "safe R (Sys_Patch env ctx i spr)"
  "safe R (Rel_Create env ctx rcr)" "safe R (Rel_Delete env ctx i)"
  "safe R (OS_Create lib env ctx sid ocr)" "safe R (OS_Update lib env ctx sid i props)" "safe R (OS_Delete env ctx sid i)"
  "safe R (PO_Create lib env ctx ent props)" "safe R (PO_Update lib env ctx ent i props)" "safe R (PO_Delete env ctx ent i)"
  "safe R (Hook_Create env ctx sid hcr)" "safe R (Hook_Update env ctx sid i hur)" "safe R (Hook_Delete env ctx sid i)"
proof -
  have rd: "safe R m" if "\<And>R. reflp R \<Longrightarrow> transp R \<Longrightarrow> preserving R m" for m :: "'x db"
    by (rule safe_read [OF that]) (simp_all add: R)
  have rj: "safe R (reject a :: 'y db)" for a
    unfolding reject_def by (rule safe_simple(2)) (simp add: R)
  note rules = safe_bind [OF R(2)] safe_simple(4) rj scope_law core_bodies
  show "safe R (ET_Create lib env ctx ecr)" "safe R (ET_Update lib env ctx i eur)" "safe R (ET_Delete env ctx i)"
    "safe R (Ent_Create lib env ctx cr)" "safe R (Ent_Update lib env ctx i props)" "safe R (Ent_Delete env ctx i)"
    "safe R (Sys_Create env ctx scr)" "safe R (Sys_Patch env ctx i spr)"
    "safe R (Rel_Create env ctx rcr)" "safe R (Rel_Delete env ctx i)"
    "safe R (OS_Create lib env ctx sid ocr)" "safe R (OS_Update lib env ctx sid i props)" "safe R (OS_Delete env ctx sid i)"
    "safe R (PO_Create lib env ctx ent props)" "safe R (PO_Update lib env ctx ent i props)" "safe R (PO_Delete env ctx ent i)"
    "safe R (Hook_Create env ctx sid hcr)" "safe R (Hook_Update env ctx sid i hur)" "safe R (Hook_Delete env ctx sid i)"
    unfolding service_defs case_prod_beta
    by (intro rules | rule rd, (intro db_intros; assumption))+
qed

lemma bulk_law: "safe R (BulkCreate lib env ctx items mode)"
proof -
  have one: "safe_for w R m" if "safe R m" for m :: "'x db" and w using that by (simp add: safe_def safe_for_def)
  have "safe_for w R (BulkCreate lib env ctx items mode)" for w
    by (rule bulk_safe_for [OF R]) (rule one core_requests)+
  then show ?thesis by (simp add: safe_def safe_for_def)
qed

lemma core_serve_law: "safe R (core_serve lib env ctx r)"
  by (cases r) (simp_all add: quietly_def, (intro safe_bind safe_simple(1) core_requests bulk_law R)+)

lemma scim_serve_law: "safe R (scim_serve v p r)"
proof (rule serve_safe [OF R])
  show "ensures R (Users_create_body p u)" "ensures R (Users_write_body p i b n)" "ensures R (Users_delete_body p i)"
    "ensures R (Groups_create_body p g ids)" "ensures R (Groups_write_body p i gb n ids)" "ensures R (Groups_delete_body p i)"
    for u i b n g ids gb
    unfolding users_bodies Groups_create_body_def Groups_write_body_def Groups_delete_body_def Groups_repo_Create_def
      Groups_repo_Delete_def Groups_repo_Replace_def reconcileMembers_def insert_member_def store_Create_def store_Update_def
      store_Delete_def audit_Write_def Let_def split_def
    by (rule preserving_ensures; (intro db_intros laws; simp)+)+
qed

lemma api_serve_law: "safe R (api_serve lib v r)"
  by (cases r) (simp_all add: core_serve_law scim_serve_law)

lemma api_run_law: "s_tx s = None \<Longrightarrow> R (s_db s) (s_db (api_run lib v w rs s)) \<and> s_tx (api_run lib v w rs s) = None"
proof (induction rs arbitrary: s)
  case Nil
  then show ?case by (simp add: reflpD [OF R(1)])
next
  case (Cons r rs)
  let ?s = "snd (api_serve lib v r w s)"
  have 1: "R (s_db s) (s_db ?s)" "s_tx ?s = None" using safeD [OF api_serve_law Cons.prems, of lib v r w] by simp_all
  from Cons.IH [OF 1(2)] transpD [OF R(2) 1(1)] show ?case by simp
qed

end

interpretation core: table_law keeps_core
  by unfold_locales
    (auto intro!: keeps_core_props keeps_core_statements keeps_core_insert_of_type keeps_core_updates hook_statements
      preserving_exec simp: keeps_core_def insert_audit_def pg_error_def core_ok_def db_ok_rest entity_ids_def type_ids_def split: if_splits)

end
