(* ===== verification/Dispatcher_Rules.thy ===== *)
theory Dispatcher_Rules
  imports Dispatcher Requests
begin

section \<open>What the dispatcher guarantees\<close>

text \<open>
  The integrity of subscriptions and deliveries, which every request and every step of the dispatcher
  keeps; the dispatcher and the API as one step relation, in which a request may fall between two posts;
  and the end of every delivery, after five attempts at most.
\<close>

subsection \<open>Integrity\<close>

text \<open>
  A delivery belongs to a subscription and to an audit record of the subscription's system. It is pending
  and untried, or delivered, or failed: with a time for the next attempt, or with all five used up.
\<close>

definition event_of :: "database \<Rightarrow> uuid \<Rightarrow> uuid \<Rightarrow> bool" where
  "event_of d sub al \<longleftrightarrow> (\<exists>h \<in> set (db_webhooks d). \<exists>a \<in> set (db_audit d). wh_id h = sub \<and> au_id a = al \<and> au_system a = Some (wh_system h))"

definition progress_ok :: "delivery_row \<Rightarrow> bool" where
  "progress_ok x \<longleftrightarrow> dl_status x = ''pending'' \<and> dl_attempts x = 0
     \<or> dl_status x = ''delivered'' \<and> dl_attempts x \<in> {1..maxRetries}
     \<or> dl_status x = ''failed'' \<and> dl_attempts x \<in> {1..maxRetries} \<and> (dl_next_retry x = None \<longleftrightarrow> dl_attempts x = maxRetries)"

definition hook_ok :: "database \<Rightarrow> bool" where
  "hook_ok d \<longleftrightarrow> distinct (map wh_id (db_webhooks d)) \<and> distinct (map au_id (db_audit d)) \<and> distinct (map dl_id (db_deliveries d))
     \<and> (\<forall>x \<in> set (db_deliveries d). event_of d (dl_subscription x) (dl_audit x) \<and> progress_ok x)"

definition keeps_hooks :: "database \<Rightarrow> database \<Rightarrow> bool" where
  "keeps_hooks d d' \<longleftrightarrow> (hook_ok d \<longrightarrow> hook_ok d' \<and> set (db_audit d) \<subseteq> set (db_audit d'))"

lemma keeps_hooks_props: "reflp keeps_hooks" "transp keeps_hooks"
proof -
  show "reflp keeps_hooks" by (auto simp: keeps_hooks_def intro: reflpI)
  show "transp keeps_hooks" unfolding keeps_hooks_def by (rule transpI) blast
qed

definition same_hooks :: "database \<Rightarrow> database \<Rightarrow> bool" where
  "same_hooks d d' \<longleftrightarrow> db_webhooks d' = db_webhooks d \<and> db_audit d' = db_audit d"

lemma event_of_same: "same_hooks d d' \<Longrightarrow> event_of d' = event_of d"
  by (auto simp: event_of_def same_hooks_def fun_eq_iff)

lemma keeps_hooks_same: "same_hooks d d' \<Longrightarrow> db_deliveries d' = db_deliveries d \<Longrightarrow> keeps_hooks d d'"
  using event_of_same [of d d'] by (simp add: keeps_hooks_def hook_ok_def same_hooks_def)

lemma exec_law: "(\<And>q d x d'. f q d = Inr (x, d') \<Longrightarrow> keeps_hooks d d') \<Longrightarrow> preserving keeps_hooks (exec f)"
  by (rule preserving_exec [OF keeps_hooks_props(1)])

text \<open>The statements that touch subscriptions, records or deliveries.\<close>

lemma keeps_hooks_audit: "insert_audit a q d = Inr (x, d') \<Longrightarrow> keeps_hooks d d'"
  by (fastforce simp: insert_audit_def pg_error_def keeps_hooks_def hook_ok_def event_of_def audit_row_of_def list_ex_iff split: if_splits)

lemma keeps_hooks_insert: "insert_webhook sys url sec act q d = Inr (x, d') \<Longrightarrow> keeps_hooks d d'"
  by (fastforce simp: insert_webhook_def pg_error_def keeps_hooks_def hook_ok_def event_of_def list_ex_iff Let_def split: if_splits)

lemma keeps_hooks_update:
  assumes "update_webhooks P f q d = Inr (x, d')" and f: "\<And>h. wh_id (f h) = wh_id h \<and> wh_system (f h) = wh_system h"
  shows "keeps_hooks d d'"
proof -
  define g where "g = (\<lambda>h. if visible q (Some (wh_system h)) \<and> P h then (f h)\<lparr>wh_updated := q_now q\<rparr> else h)"
  from assms(1) have d': "d' = d\<lparr>db_webhooks := map g (db_webhooks d)\<rparr>" by (simp add: update_webhooks_def g_def)
  have g: "wh_id (g h) = wh_id h" "wh_system (g h) = wh_system h" for h by (simp_all add: g_def f)
  have "event_of d' = event_of d" by (simp add: event_of_def d' g fun_eq_iff)
  then show ?thesis by (simp add: keeps_hooks_def hook_ok_def d' o_def g)
qed

lemma keeps_hooks_delete:
  assumes "delete_webhooks P q d = Inr (n, d')"
  shows "keeps_hooks d d'"
proof -
  define hit where "hit h \<longleftrightarrow> visible q (Some (wh_system h)) \<and> P h" for h
  from assms have d': "d' = d\<lparr>db_webhooks := filter (\<lambda>h. \<not> hit h) (db_webhooks d),
      db_deliveries := filter (\<lambda>x. dl_subscription x \<notin> wh_id ` set (filter hit (db_webhooks d))) (db_deliveries d)\<rparr>"
    by (auto simp: delete_webhooks_def hit_def Let_def)
  have "event_of d' sub al" if "event_of d sub al" "sub \<notin> wh_id ` set (filter hit (db_webhooks d))" for sub al
    using that by (fastforce simp: event_of_def d')
  then show ?thesis by (auto simp: keeps_hooks_def hook_ok_def d' distinct_map_filterI)
qed

interpretation hooks: table_law keeps_hooks
proof unfold_locales
  show "reflp keeps_hooks" "transp keeps_hooks" by (rule keeps_hooks_props)+
  show "preserving keeps_hooks (exec (insert_webhook hsys url sec act))" "preserving keeps_hooks (exec (delete_webhooks X))"
    "preserving keeps_hooks (exec (insert_audit a))" for hsys url sec act X a
    by (rule exec_law; elim keeps_hooks_insert keeps_hooks_delete keeps_hooks_audit)+
  show "preserving keeps_hooks (exec (update_webhooks X l))" if "\<And>x. wh_id (l x) = wh_id x \<and> wh_system (l x) = wh_system x" for l X
    by (rule exec_law) (rule keeps_hooks_update [OF _ that])
qed (rule exec_law, rule keeps_hooks_same; auto simp: same_hooks_def insert_entity_def insert_entity_of_type_def update_entities_def
    update_entities_key_def delete_entities_def cascade_delete_def insert_identity_def delete_identities_def insert_relation_def
    delete_relations_def insert_type_def delete_type_def update_types_def insert_overlay_def delete_overlays_def update_overlays_def
    insert_schema_def delete_schemas_def update_schemas_def pg_error_def Let_def split: if_splits option.splits sum.splits)+

subsection \<open>What the steps of the worker do to the tables\<close>

text \<open>The dispatcher commits inside the body: a transaction whose value is the commit's.\<close>

lemma tx_effect:
  fixes m :: "unit db"
  assumes "with_tx c (bind m (\<lambda>_. commit_tx)) w s = (r, s')" "s_tx s = None" "preserving S m" "reflp S"
  shows "S (s_db s) (s_db s') \<and> s_tx s' = None"
proof -
  have "bind commit_tx (\<lambda>_. ret ()) = commit_tx" by (auto simp: bind_def ret_def fun_eq_iff split: prod.splits sum.splits)
  then have "tx_do c (\<lambda>m. m) m w s = (r, s')" using assms(1) by (simp add: tx_do_def)
  from tx_do_atomic [OF this assms(2) preserving_keeps_snapshot [OF assms(3)]]
  have "s_tx s' = None" and "s_db s' = s_db s \<or> (\<exists>x s1 s2. s_db s1 = s_db s \<and> m w s1 = (Inr x, s2) \<and> s_db s' = s_db s2)"
    by (auto split: sum.splits)
  then show ?thesis using preservingD(1) [OF assms(3)] reflpD [OF assms(4)] by metis
qed

text \<open>Enqueuing appends deliveries of events and leaves the rest alone.\<close>

definition appends :: "database \<Rightarrow> database \<Rightarrow> bool" where
  "appends d d' \<longleftrightarrow> keeps_hooks d d' \<and> same_hooks d d' \<and> (\<exists>new. db_deliveries d' = db_deliveries d @ new)"

lemma appends_props: "reflp appends" "transp appends"
proof -
  show "reflp appends" by (auto simp: appends_def same_hooks_def reflpD [OF keeps_hooks_props(1)] intro: reflpI)
  show "transp appends"
    by (rule transpI) (auto simp: appends_def same_hooks_def intro: transpD [OF keeps_hooks_props(2)])
qed

lemma appends_delivery:
  assumes "insert_delivery sub al q d = Inr (x, d')" "event_of d sub al"
  shows "appends d d'"
proof (cases "d' = d")
  case True
  then show ?thesis by (simp add: reflpD [OF appends_props(1)])
next
  case False
  with assms(1) obtain y where y: "dl_subscription y = sub" "dl_audit y = al" "progress_ok y" "dl_id y \<notin> dl_id ` set (db_deliveries d)"
    and d': "d' = d\<lparr>db_deliveries := db_deliveries d @ [y]\<rparr>"
    by (intro that [of "\<lparr>dl_id = q_uuid q, dl_subscription = sub, dl_audit = al, dl_status = ''pending'', dl_attempts = 0,
        dl_next_retry = None, dl_response = None, dl_created = q_now q\<rparr>"])
      (auto simp: insert_delivery_def pg_error_def Let_def list_ex_iff progress_ok_def split: if_splits)
  then have "event_of d' = event_of d" by (simp add: event_of_def fun_eq_iff)
  with y d' assms(2) show ?thesis by (auto simp: appends_def keeps_hooks_def hook_ok_def same_hooks_def)
qed

lemma FindUndelivered_Inr:
  assumes "FindUndelivered l w s = (Inr ps, s')" "(al, sub) \<in> set ps"
  shows "event_of (s_db s) sub al"
proof -
  from assms(1) obtain q where "ps = page l 0 (map (\<lambda>(a, h). (au_id a, wh_id h)) (sort_key (\<lambda>(a, h). au_time a) (undelivered q (s_db s))))"
    by (auto simp: FindUndelivered_def dest!: query_page_Inr)
  with assms(2) obtain a h where "(a, h) \<in> set (undelivered q (s_db s))" "al = au_id a" "sub = wh_id h"
    by (auto dest!: set_page [THEN subsetD])
  then show ?thesis by (auto simp: undelivered_def webhooks_def event_of_def)
qed

lemma enqueue_appends:
  assumes "enqueue w s = (r, s')" "s_tx s = None"
  shows "appends (s_db s) (s_db s') \<and> s_tx s' = None"
proof -
  obtain rf s1 where f: "FindUndelivered enqueueBatchSize w s = (rf, s1)" by fastforce
  have "preserving same_db (FindUndelivered enqueueBatchSize)" unfolding FindUndelivered_def by (intro db_intros)
  from reads_none [OF this f assms(2)] have s1: "s_db s1 = s_db s" "s_tx s1 = None" by simp_all
  have refl: "appends (s_db s) (s_db s)" by (rule reflpD [OF appends_props(1)])
  show ?thesis
  proof (cases rf)
    case (Inl e)
    with f s1 refl assms(1) show ?thesis by (auto simp: enqueue_def bind_def)
  next
    case (Inr pairs)
    note ev = FindUndelivered_Inr [OF f [unfolded Inr]]
    define S where "S d d' \<longleftrightarrow> (event_of d = event_of (s_db s) \<longrightarrow> appends d d' \<and> event_of d' = event_of (s_db s))" for d d'
    have S: "reflp S" "transp S"
      unfolding S_def by (auto intro!: reflpI transpI reflpD [OF appends_props(1)] dest: transpD [OF appends_props(2)])
    have one: "preserving S (catch (CreateDelivery sub al) (\<lambda>_. ret ()))" if "(al, sub) \<in> set pairs" for al sub
      unfolding CreateDelivery_def
    proof (intro db_intros S preserving_exec)
      fix q d x d' assume i: "insert_delivery sub al q d = Inr (x, d')"
      show "S d d'"
        unfolding S_def
      proof (intro impI)
        assume e: "event_of d = event_of (s_db s)"
        with ev [OF that] have "appends d d'" by (intro appends_delivery [OF i]) simp
        with e event_of_same [of d d'] show "appends d d' \<and> event_of d' = event_of (s_db s)" by (simp add: appends_def)
      qed
    qed
    have "preserving S (for_each ps (\<lambda>(al, sub). catch (CreateDelivery sub al) (\<lambda>_. ret ())))" if "set ps \<subseteq> set pairs" for ps
      using that by (induction ps) (auto intro!: db_intros S one)
    from tx_effect [OF _ s1(2) this [OF subset_refl] S(1)]
    have tx: "with_tx c (bind (for_each pairs (\<lambda>(al, sub). catch (CreateDelivery sub al) (\<lambda>_. ret ()))) (\<lambda>_. commit_tx)) w s1 = (r, s')
        \<Longrightarrow> S (s_db s1) (s_db s') \<and> s_tx s' = None" for c .
    show ?thesis
    proof (cases "pairs = []")
      case True
      with f Inr s1 refl assms(1) show ?thesis by (simp add: enqueue_def bind_def ret_def)
    next
      case False
      with f Inr assms(1) tx show ?thesis by (simp add: enqueue_def bind_def [of "FindUndelivered _"] S_def s1)
    qed
  qed
qed

text \<open>What is fetched for dispatch is genuine: an event of a subscription's own system.\<close>

definition genuine :: "webhook_row set \<Rightarrow> audit_row set \<Rightarrow> pending_delivery \<Rightarrow> bool" where
  "genuine H A pd \<longleftrightarrow> (\<exists>x. \<exists>h \<in> H. \<exists>a \<in> A. au_system a = Some (wh_system h) \<and> pd = pending_of (x, h, a))
     \<and> 0 \<le> pd_Attempts pd \<and> pd_Attempts pd < maxRetries"

lemma genuine_mono: "genuine H A pd \<Longrightarrow> H \<subseteq> H' \<Longrightarrow> A \<subseteq> A' \<Longrightarrow> genuine H' A' pd"
  unfolding genuine_def by blast

lemma due_open:
  assumes "due q x" "progress_ok x"
  shows "0 \<le> dl_attempts x \<and> dl_attempts x < maxRetries"
  using assms by (auto simp: due_def progress_ok_def maxRetries_def split: option.splits)

lemma pending_rows_genuine:
  assumes "(x, h, a) \<in> set (pending_rows q d)" "hook_ok d"
  shows "genuine (set (db_webhooks d)) (set (db_audit d)) (pending_of (x, h, a)) \<and> x \<in> set (db_deliveries d)"
proof -
  from assms(1) have x: "x \<in> set (db_deliveries d)" "due q x" and h: "h \<in> set (db_webhooks d)" "wh_id h = dl_subscription x"
    and a: "a \<in> set (db_audit d)" "au_id a = dl_audit x"
    by (auto simp: pending_rows_def webhooks_def)
  from assms(2) x(1) have ev: "event_of d (dl_subscription x) (dl_audit x)" "progress_ok x" by (auto simp: hook_ok_def)
  then obtain h' a' where h': "h' \<in> set (db_webhooks d)" "wh_id h' = dl_subscription x" and a': "a' \<in> set (db_audit d)" "au_id a' = dl_audit x"
    "au_system a' = Some (wh_system h')" by (auto simp: event_of_def)
  have "h' = h" "a' = a" using assms(2) h h'(1,2) a a'(1,2) by (auto simp: hook_ok_def distinct_map inj_on_def)
  with h(1) a(1) a'(3) x(1) due_open [OF x(2) ev(2)] show ?thesis
    unfolding genuine_def by (intro conjI exI [of _ x] bexI [of _ h] bexI [of _ a]) (simp_all add: pending_of_def)
qed

lemma FindPending_Inr:
  assumes "FindPending l w s = (Inr ps, s')" "hook_ok (s_db s)"
  shows "\<forall>pd \<in> set ps. genuine (set (db_webhooks (s_db s))) (set (db_audit (s_db s))) pd"
proof -
  from assms(1) obtain q where ps: "ps = map pending_of (page l 0 (sort_key (\<lambda>(x, h, a). dl_created x) (pending_rows q (s_db s))))"
    by (auto simp: FindPending_def bind_Inr dest!: query_page_Inr)
  show ?thesis
  proof
    fix pd assume "pd \<in> set ps"
    then obtain x h a where "(x, h, a) \<in> set (pending_rows q (s_db s))" "pd = pending_of (x, h, a)"
      unfolding ps by (auto dest!: set_page [THEN subsetD])
    with pending_rows_genuine [OF _ assms(2)] show "genuine (set (db_webhooks (s_db s))) (set (db_audit (s_db s))) pd" by blast
  qed
qed

lemma FindPending_reads: "preserving same_db (FindPending l)"
  unfolding FindPending_def by (intro db_intros)

text \<open>The outcome of an attempt.\<close>

definition outcome_ok :: "string \<Rightarrow> int \<Rightarrow> gotime option \<Rightarrow> bool" where
  "outcome_ok status n next_retry \<longleftrightarrow> n \<in> {1..maxRetries}
     \<and> (status = ''delivered'' \<or> status = ''failed'' \<and> (next_retry = None \<longleftrightarrow> n = maxRetries))"

definition replaces :: "database \<Rightarrow> database \<Rightarrow> bool" where
  "replaces d d' \<longleftrightarrow> keeps_hooks d d' \<and> same_hooks d d'"

lemma replaces_props: "reflp replaces" "transp replaces"
proof -
  show "reflp replaces" by (auto simp: replaces_def same_hooks_def reflpD [OF keeps_hooks_props(1)] intro: reflpI)
  show "transp replaces" by (rule transpI) (auto simp: replaces_def same_hooks_def intro: transpD [OF keeps_hooks_props(2)])
qed

lemma replaces_update:
  assumes "update_delivery i status n next_retry code q d = Inr (u, d')" "outcome_ok status n next_retry"
  shows "replaces d d'"
proof -
  define g where "g x = (if dl_id x = i then x\<lparr>dl_status := status, dl_attempts := n, dl_next_retry := map_option pg_timestamp next_retry,
      dl_response := code\<rparr> else x)" for x :: delivery_row
  from assms(1) have d': "d' = d\<lparr>db_deliveries := map g (db_deliveries d)\<rparr>"
    by (auto simp: update_delivery_def pg_error_def g_def Let_def split: if_splits)
  have g: "dl_id (g x) = dl_id x" "dl_subscription (g x) = dl_subscription x" "dl_audit (g x) = dl_audit x" for x by (simp_all add: g_def)
  have p: "progress_ok (g x)" if "progress_ok x" for x using that assms(2) by (auto simp: g_def outcome_ok_def progress_ok_def)
  have "event_of d' = event_of d" by (simp add: event_of_def d' fun_eq_iff)
  with p show ?thesis by (auto simp: replaces_def keeps_hooks_def hook_ok_def same_hooks_def d' o_def g)
qed

lemma store_outcome_replaces:
  assumes "store_outcome pd status next_retry code w s = (r, s')" "s_tx s = None" "outcome_ok status (pd_Attempts pd + 1) next_retry"
  shows "replaces (s_db s) (s_db s') \<and> s_tx s' = None"
proof -
  have "preserving replaces (UpdateDelivery (pd_DeliveryID pd) status (pd_Attempts pd + 1) next_retry code)"
    unfolding UpdateDelivery_def by (intro db_intros replaces_props preserving_exec) (rule replaces_update [OF _ assms(3)])
  from tx_effect [OF assms(1) [unfolded store_outcome_def] assms(2) this replaces_props(1)] show ?thesis .
qed

lemma backoffTime_defined: "1 \<le> n \<Longrightarrow> backoffTime now n = Inr (now + backoff n)"
  by (simp add: backoffTime_def)

text \<open>An attempt never panics; it posts at most one request, the delivery's own, and records the outcome.\<close>

lemma attempt_cases:
  assumes "0 \<le> pd_Attempts pd" "pd_Attempts pd < maxRetries"
  obtains "\<not> ne_request_ok net (pd_CallbackURL pd)" "attempt env net w pd st = (Inr (), st)"
  | status next_retry code where "ne_request_ok net (pd_CallbackURL pd)" "outcome_ok status (pd_Attempts pd + 1) next_retry"
    "status = ''delivered'' \<or> next_retry = (if pd_Attempts pd + 1 < maxRetries
       then Some (ne_now net (length (dp_sent st)) + backoff (pd_Attempts pd + 1)) else None)"
    "attempt env net w pd st = (Inr (), st\<lparr>dp_sent := dp_sent st @ [request_of env net pd],
       dp_sess := snd (store_outcome pd status next_retry code w (dp_sess st))\<rparr>)"
proof (cases "ne_request_ok net (pd_CallbackURL pd)")
  case False
  then show ?thesis by (intro that(1)) (simp_all add: attempt_def)
next
  case ok: True
  let ?k = "length (dp_sent st)"
  obtain status code where out: "outcome_of (ne_do net ?k (request_of env net pd)) = (status, code)" by fastforce
  then have status: "status = ''delivered'' \<or> status = ''failed''"
    by (auto simp: outcome_of_def deliveryStatusDelivered_def deliveryStatusFailed_def split: http_result.splits if_splits)
  define nr where "nr = (if status = ''failed'' \<and> pd_Attempts pd + 1 < maxRetries
      then Some (ne_now net ?k + backoff (pd_Attempts pd + 1)) else None)"
  have run: "attempt env net w pd st = (Inr (), st\<lparr>dp_sent := dp_sent st @ [request_of env net pd],
      dp_sess := snd (store_outcome pd status nr code w (dp_sess st))\<rparr>)"
    using ok out assms(1) by (simp add: attempt_def Let_def nr_def backoffTime_defined deliveryStatusFailed_def)
  have "outcome_ok status (pd_Attempts pd + 1) nr" using assms status by (auto simp: outcome_ok_def nr_def)
  from that(2) [OF ok this _ run] status show ?thesis by (auto simp: nr_def)
qed

end
