(* ===== verification/Service.thy ===== *)
theory Service
  imports Server Scim_Http_Rules Api_Http_Rules Dispatcher_Rules
begin

section \<open>The running server\<close>

text \<open>
  The calls that a started server gets, on the state they share: the management API with the identities and
  their cache, the SCIM endpoints with the tenants, both on the same tables. A change of a user through SCIM
  drops the cached identity before it answers (\<open>SetCacheInvalidator\<close> in \<open>cmd/oad/cmd/run.go\<close>).
\<close>

record ('s, 'f) handlers =
  hd_Api :: "'s api_env"
  hd_Scim :: "'f scim_env"
  hd_Time :: "string \<Rightarrow> gotime option"
  hd_SHA256 :: "string \<Rightarrow> string"

text \<open>A call of the API with the clock readings of its authentication.\<close>

datatype http_call = ApiCall api_call gotime gotime | ScimCall scim_call

definition scim_step ::
  "('s, 'f) handlers \<Rightarrow> registry \<Rightarrow> scim_call \<Rightarrow> world \<Rightarrow> auth_state \<Rightarrow> sess \<Rightarrow> (goerr + scim_response) \<times> auth_state \<times> sess" where
  "scim_step h reg q w st s =
     (case scim_http (hd_Scim h) (hd_Time h) (hd_SHA256 h) reg q w s of
        (Inl e, s') \<Rightarrow> (Inl e, st, s')
      | (Inr resp, s') \<Rightarrow> (Inr resp, st\<lparr>as_cache := drop_keys (sp_Dropped resp) (as_cache st)\<rparr>, s'))"

fun server_step :: "('s, 'f) handlers \<Rightarrow> 'k server \<Rightarrow> world \<Rightarrow> http_call \<Rightarrow> auth_state \<times> sess \<Rightarrow> auth_state \<times> sess" where
  "server_step h sv w (ApiCall q n1 n2) (st, s) = snd (api_http (hd_Api h) (run_Authn sv) n1 n2 q w st s)"
| "server_step h sv w (ScimCall q) (st, s) = snd (scim_step h (run_Registry sv) q w st s)"

fun server_run :: "('s, 'f) handlers \<Rightarrow> 'k server \<Rightarrow> world \<Rightarrow> http_call list \<Rightarrow> auth_state \<times> sess \<Rightarrow> auth_state \<times> sess" where
  "server_run h sv w [] x = x"
| "server_run h sv w (c # cs) x = server_run h sv w cs (server_step h sv w c x)"

lemma server_run_append: "server_run h sv w (cs @ ds) x = server_run h sv w ds (server_run h sv w cs x)"
  by (induction cs arbitrary: x) simp_all

subsection \<open>Integrity\<close>

text \<open>The laws of the tables do not look at the log of retrievals.\<close>

lemma laws_unlogged:
  "core_ok (unlogged d) = core_ok d" "hook_ok (unlogged d) = hook_ok d" "db_audit (unlogged d) = db_audit d"
  by (simp_all add: unlogged_def core_ok_def db_ok_def entity_ids_def type_ids_def hook_ok_def event_of_def)

lemma same_core_keeps:
  assumes "same_core d d'"
  shows "keeps_core d d'" "keeps_hooks d d'"
  using assms laws_unlogged [of d] laws_unlogged [of d'] by (simp_all add: same_core_def keeps_core_def keeps_hooks_def)

lemma api_step_keeps:
  assumes "s_tx s = None" "api_http v cfg n1 n2 q w st s = (resp, st', s')"
  shows "keeps_core (s_db s) (s_db s') \<and> keeps_hooks (s_db s) (s_db s') \<and> s_tx s' = None"
  using assms
proof (cases rule: api_http_cases)
  case reads
  with same_core_keeps show ?thesis by blast
next
  case (writes p s1 rq out)
  let ?m = "core_serve (av_lib v) (av_render v) (Some (as_heap st' ! p)) rq"
  from writes(5) have "snd (?m w s1) = s'" by simp
  with safeD [OF core.core_serve_law writes(3)] safeD [OF hooks.core_serve_law writes(3)] writes(2) show ?thesis by metis
qed

lemma scim_step_keeps:
  assumes "buildSCIMRegistry (hd_SHA256 h) ps = Inr reg" "s_tx s = None" "scim_step h reg q w st s = (r, st', s')"
  shows "keeps_core (s_db s) (s_db s') \<and> keeps_hooks (s_db s) (s_db s') \<and> s_tx s' = None"
proof -
  obtain r0 where "scim_http (hd_Scim h) (hd_Time h) (hd_SHA256 h) reg q w s = (r0, s')"
    using assms(3) by (auto simp: scim_step_def split: prod.splits sum.splits)
  with assms(1) show ?thesis
  proof (cases rule: scim_http_cases)
    case (idle resp)
    with assms(2) show ?thesis by (simp add: keeps_core_def keeps_hooks_def)
  next
    case (served resp token p rq out)
    from served(6) have "snd (scim_serve (hd_Scim h) (pc_Name p) rq w s) = s'" by simp
    with safeD [OF core.scim_serve_law assms(2)] safeD [OF hooks.scim_serve_law assms(2)] show ?thesis by metis
  qed
qed

lemma server_run_keeps:
  assumes "buildSCIMRegistry (hd_SHA256 h) ps = Inr (run_Registry sv)" "s_tx s = None" "server_run h sv w cs (st, s) = (st', s')"
  shows "keeps_core (s_db s) (s_db s') \<and> keeps_hooks (s_db s) (s_db s') \<and> s_tx s' = None"
  using assms(2,3)
proof (induction cs arbitrary: st s)
  case Nil
  then show ?case by (simp add: keeps_core_def keeps_hooks_def)
next
  case (Cons c cs)
  obtain st1 s1 where c: "server_step h sv w c (st, s) = (st1, s1)" by fastforce
  have 1: "keeps_core (s_db s) (s_db s1) \<and> keeps_hooks (s_db s) (s_db s1) \<and> s_tx s1 = None"
  proof (cases c)
    case (ApiCall q n1 n2)
    with c obtain resp where "api_http (hd_Api h) (run_Authn sv) n1 n2 q w st s = (resp, st1, s1)"
      by (cases "api_http (hd_Api h) (run_Authn sv) n1 n2 q w st s") simp
    from api_step_keeps [OF Cons.prems(1) this] show ?thesis .
  next
    case (ScimCall q)
    with c obtain r where "scim_step h (run_Registry sv) q w st s = (r, st1, s1)"
      by (cases "scim_step h (run_Registry sv) q w st s") simp
    from scim_step_keeps [OF assms(1) Cons.prems(1) this] show ?thesis .
  qed
  with Cons.prems(2) c have "keeps_core (s_db s1) (s_db s') \<and> keeps_hooks (s_db s1) (s_db s') \<and> s_tx s' = None"
    by (intro Cons.IH [of s1 st1]) simp_all
  with 1 show ?case using transpD [OF keeps_core_props(2)] transpD [OF keeps_hooks_props(2)] by blast
qed

subsection \<open>A deactivated user\<close>

lemma scim_http_mount:
  assumes "scim_http v pt sha reg q w s = (Inr resp, s')" "sp_Body resp = UserDoc u"
  shows "scim_mount v pt sha reg q w s = (Inr resp, s')"
  using assms by (auto simp: scim_http_def catch_def ret_def WriteJSON_def split: prod.splits sum.splits)

lemma users_routes:
  assumes "t \<noteq> []"
  shows "find_route scim_routes ''GET'' [''Users'', t] = Found Users_get [(''id'', t)]"
    "find_route scim_routes ''PUT'' [''Users'', t] = Found Users_replace [(''id'', t)]"
    "find_route scim_routes ''PATCH'' [''Users'', t] = Found Users_patch [(''id'', t)]"
  using assms by (simp_all add: scim_routes_def)

text \<open>A user in a response comes from the service.\<close>

lemma scim_respond_user:
  assumes "scim_respond we ok m w s = (Inr resp, s')" "sp_Body resp = UserDoc u"
  obtains x s1 where "m w s = (Inr x, s1)" "ok x w s1 = (Inr resp, s')"
  using assms by (auto simp: scim_respond_def WriteError_def WriteJSON_def split: prod.splits sum.splits if_splits)

lemma replied_user:
  assumes "(case x of (updated, ks) \<Rightarrow> dropping ks (ok_response (us_Meta updated) (UserDoc updated))) w s1 = (Inr resp, s')"
    "sp_Body resp = UserDoc u"
  shows "x = (u, sp_Dropped resp) \<and> s1 = s'"
  using assms by (cases x) (auto simp: dropping_def ok_response_def deref_def bind_Inr split: option.splits)

lemma user_write_handlers:
  assumes "sp_Body resp = UserDoc u"
    and "UsersHandler_Patch v (Some p) t q w s = (Inr resp, s') \<or> UsersHandler_Replace v pt (Some p) t q w s = (Inr resp, s')"
  obtains i x where "p \<noteq> []" "sv_uuid v t = Some i" "x = (u, sp_Dropped resp)"
    "(\<exists>ops. Users_Patch (sv_float v) (sv_render v) p i ops w s = (Inr x, s')) \<or> (\<exists>u0. Users_Replace (sv_render v) p i u0 w s = (Inr x, s'))"
proof -
  have no_error: "ret (WriteError e) w s \<noteq> (Inr resp, s')" for e
    using assms(1) by (auto simp: ret_def WriteError_def WriteJSON_def)
  have p: "p \<noteq> []" using assms(2) no_error
    by (auto simp: UsersHandler_Patch_def UsersHandler_Replace_def with_provider_def ProviderFromContext_def split: if_splits)
  then obtain i where i: "sv_uuid v t = Some i" using assms(2) no_error
    by (cases "sv_uuid v t") (auto simp: UsersHandler_Patch_def UsersHandler_Replace_def with_provider_def ProviderFromContext_def with_id_def)
  from assms(2) show thesis
  proof
    assume h: "UsersHandler_Patch v (Some p) t q w s = (Inr resp, s')"
    then obtain req :: patch_request where "scim_respond writeUserError (\<lambda>(updated, ks). dropping ks (ok_response (us_Meta updated) (UserDoc updated)))
        (Users_Patch (sv_float v) (sv_render v) p i (pq_Operations req)) w s = (Inr resp, s')"
      using p i no_error
      by (auto simp: UsersHandler_Patch_def with_provider_def ProviderFromContext_def with_id_def with_json_def split: option.splits)
    from scim_respond_user [OF this assms(1)] obtain x s1 where x: "Users_Patch (sv_float v) (sv_render v) p i (pq_Operations req) w s = (Inr x, s1)"
      "(case x of (updated, ks) \<Rightarrow> dropping ks (ok_response (us_Meta updated) (UserDoc updated))) w s1 = (Inr resp, s')" by blast
    from replied_user [OF x(2) assms(1)] x(1) show thesis by (intro that [OF p i, of x]) blast+
  next
    assume h: "UsersHandler_Replace v pt (Some p) t q w s = (Inr resp, s')"
    then obtain u0 where "scim_respond writeUserError (\<lambda>(updated, ks). dropping ks (ok_response (us_Meta updated) (UserDoc updated)))
        (Users_Replace (sv_render v) p i u0) w s = (Inr resp, s')"
      using p i no_error
      by (auto simp: UsersHandler_Replace_def with_provider_def ProviderFromContext_def with_id_def with_json_def split: option.splits)
    from scim_respond_user [OF this assms(1)] obtain x s1 where x: "Users_Replace (sv_render v) p i u0 w s = (Inr x, s1)"
      "(case x of (updated, ks) \<Rightarrow> dropping ks (ok_response (us_Meta updated) (UserDoc updated))) w s1 = (Inr resp, s')" by blast
    from replied_user [OF x(2) assms(1)] x(1) show thesis by (intro that [OF p i, of x]) blast+
  qed
qed

lemma user_write_call:
  assumes "scim_http v pt sha reg q w s = (Inr resp, s')" "sp_Body resp = UserDoc u"
    and "sq_method q = ''PUT'' \<or> sq_method q = ''PATCH''" "sq_path q = [''Users'', t]" "t \<noteq> []"
    and "scim_Authenticate sha reg (sq_authorization q) = Inr p"
  obtains i where "p \<noteq> []" "sv_uuid v t = Some i"
    "(\<exists>ops. Users_Patch (sv_float v) (sv_render v) p i ops w s = (Inr (u, sp_Dropped resp), s'))
     \<or> (\<exists>u0. Users_Replace (sv_render v) p i u0 w s = (Inr (u, sp_Dropped resp), s'))"
proof -
  have "UsersHandler_Patch v (Some p) t q w s = (Inr resp, s') \<or> UsersHandler_Replace v pt (Some p) t q w s = (Inr resp, s')"
    using scim_http_mount [OF assms(1,2)] assms(3-6) users_routes [OF assms(5)] by (auto simp: scim_mount_def discovery_def param_def)
  then show thesis by (rule user_write_handlers [OF assms(2)]) (use that in blast)
qed

lemma get_user_call:
  assumes "fst (Users_GetByEntityID (sv_render v) p i w s) = Inr u" "p \<noteq> []" "sv_uuid v t = Some i" "t \<noteq> []"
    and "sq_method q = ''GET''" "sq_path q = [''Users'', t]" "scim_Authenticate sha reg (sq_authorization q) = Inr p"
  shows "\<exists>g s'. scim_http v pt sha reg q w s = (Inr g, s') \<and> sp_Status g = 200 \<and> sp_Body g = UserDoc u"
proof -
  obtain s' where run: "Users_GetByEntityID (sv_render v) p i w s = (Inr u, s')" using assms(1) by (metis prod.collapse)
  with users_yield(2) [of "sv_render v" p i] obtain m where m: "us_Meta u = Some m" unfolding yields_def by blast
  let ?g = "\<lparr>sp_Status = 200, sp_Location = None, sp_ETag = Some (me_Version m), sp_Body = UserDoc u, sp_Dropped = []\<rparr>"
  have "scim_http v pt sha reg q w s = (Inr ?g, s')"
    using run m assms(2-7) users_routes(1) [OF assms(4)]
    by (simp add: scim_http_def scim_mount_def discovery_def param_def UsersHandler_GetByID_def with_provider_def ProviderFromContext_def
        with_id_def scim_respond_def ok_response_def deref_def bind_def ret_def catch_def)
  then show ?thesis by auto
qed

lemma disabled_call:
  assumes "ac_mode cfg = ''jwt''" "rq_header (aq_request c) ''Authorization'' = ''Bearer '' @ token"
    "AuthenticateRaw (ac_jwt cfg) (ac_providers cfg) token = Inr (RawToken p sub)"
    "fst (cache_Resolve (pgx_source w) n1 n2 p sub st s) = Inl (AuthE ErrDisabled)" "s_tx s = None"
  shows "\<exists>st' s'. api_http v cfg n1 n2 c w st s = (response_Error (api_Forbidden [Lit ''account is disabled'']), st', s') \<and> s_db s' = s_db s"
proof -
  obtain st' s' where r: "cache_Resolve (pgx_source w) n1 n2 p sub st s = (Inl (AuthE ErrDisabled), st', s')"
    using assms(4) by (metis prod.collapse)
  have t: "CutPrefix (rq_header (aq_request c) ''Authorization'') ''Bearer '' = Some token"
    unfolding assms(2) by (rule CutPrefix_append)
  have h: "rq_header (aq_request c) ''Authorization'' \<noteq> []" by (simp add: assms(2))
  have a: "Authentication cfg \<lparr>ae_now1 = n1, ae_now2 = n2, ae_resolver = pgx_source w\<rparr> (aq_request c) st s
      = (Inl (api_Forbidden [Lit ''account is disabled'']), st', s')"
    using assms(1,3) r t h
    by (simp add: Authentication_def credentials_def resolveJWT_def authn_error_def)
  with Authentication_reads [OF a assms(5)] show ?thesis by (simp add: api_http_def)
qed

end
