(* ===== verification/Api_Http_Sample.thy ===== *)
theory Api_Http_Sample
  imports Api_Http_Rules
begin

section \<open>A call of the management API\<close>

text \<open>
  An administrator with a client certificate registers the system hr; the access matrix is applied to the call.
\<close>

definition call_lib :: "unit schema_lib" where
  "call_lib = \<lparr>js_AddResource = (\<lambda>_ _. None), js_Compile = (\<lambda>_ _. Inr ()), js_Validate = (\<lambda>_ _. None)\<rparr>"

definition call_env :: "unit api_env" where
  "call_env = \<lparr>av_lib = call_lib,
     av_render = \<lparr>re_uuid = (\<lambda>_. ''u''), re_sha256 = (\<lambda>s. s), re_time = (\<lambda>_. ''t''), re_url = (\<lambda>_. None)\<rparr>,
     av_uuid = (\<lambda>_. None), av_time = (\<lambda>_. None), av_json = (\<lambda>_. None), av_coll = length,
     av_contains = (\<lambda>_ _. False), av_cast_all = False\<rparr>"

definition cert_config :: "nat authn_config" where
  "cert_config = sample_config\<lparr>ac_mode := ''mtls'', ac_mtls := Some ''X-Client-Cert''\<rparr>"

definition new_system_call :: api_call where
  "new_system_call = \<lparr>aq_request = \<lparr>rq_peer_certs = [(''root'', [''admin''])], rq_header = (\<lambda>_. []), rq_url_param = (\<lambda>_. [])\<rparr>,
     aq_method = ''POST'', aq_path = [''systems''], aq_query = (\<lambda>_. []),
     aq_body = Some (JObj [(''name'', JStr ''hr'')])\<rparr>"

definition new_system_run :: "api_response \<times> auth_state \<times> sess" where
  "new_system_run = api_http call_env cert_config 0 0 new_system_call sample_world sample_auth sample_sess"

definition call_outcome :: "api_response \<times> auth_state \<times> sess \<Rightarrow> int \<times> nat \<times> nat" where
  "call_outcome r = (case r of (resp, st, s) \<Rightarrow> (ap_Status resp, length (db_entities (s_db s)), length (db_audit (s_db s))))"

lemma new_system_outcome: "call_outcome new_system_run = (201, 4, 1)"
  by code_simp

lemma new_system_counts: "length (db_entities (s_db sample_sess)) = 3" "s_tx sample_sess = None" "\<not> w_indoubt sample_world n"
  by (simp_all add: sample_sess_def sample_db_def sample_world_def)

theorem api_access_matrix_witness:
  "\<exists>resp st s' p rq row. api_http call_env cert_config 0 0 new_system_call sample_world sample_auth sample_sess = (resp, st, s')
     \<and> ap_Status resp < 300 \<and> permitted (as_heap st ! p) rq
     \<and> ((\<exists>items mode. rq = BulkEntities items mode) \<or> row \<in> set (db_audit (s_db s'))
          \<and> op_logged (av_render call_env) (Some (as_heap st ! p)) (request_op rq) row)"
proof -
  obtain resp st s' where run: "new_system_run = (resp, st, s')" by (metis prod.exhaust)
  with new_system_outcome [unfolded call_outcome_def run prod.case] have r: "ap_Status resp = 201" "length (db_entities (s_db s')) = 4"
    by simp_all
  have "db_entities (unlogged (s_db s')) \<noteq> db_entities (unlogged (s_db sample_sess))"
    using r(2) new_system_counts(1) by (auto simp: unlogged_def)
  then have "unlogged (s_db s') \<noteq> unlogged (s_db sample_sess)" by metis
  from api_access_matrix [OF new_system_counts(2,3) run [unfolded new_system_run_def] this]
  obtain p rq where m: "permitted (as_heap st ! p) rq"
    "(\<forall>items mode. rq \<noteq> BulkEntities items mode) \<Longrightarrow> \<exists>row. db_audit (s_db s') = db_audit (s_db sample_sess) @ [row]
        \<and> op_logged (av_render call_env) (Some (as_heap st ! p)) (request_op rq) row" by blast
  then obtain row where "(\<exists>items mode. rq = BulkEntities items mode) \<or> row \<in> set (db_audit (s_db s'))
        \<and> op_logged (av_render call_env) (Some (as_heap st ! p)) (request_op rq) row"
    by (metis in_set_conv_decomp)
  with m(1) r(1) run [unfolded new_system_run_def] show ?thesis
    by (intro exI [of _ resp] exI [of _ st] exI [of _ s'] exI [of _ p] exI [of _ rq] exI [of _ row]) simp
qed

end
