(* ===== verification/Service_Sample.thy ===== *)
theory Service_Sample
  imports Service Api_Http_Sample
begin

section \<open>Calls to a running server\<close>

text \<open>
  The provider kc deactivates its user, who then calls the API; and a server that has started gets calls at
  both mounts. The theorems on the running server are applied to them.
\<close>

definition sample_handlers :: "(unit, nat) handlers" where
  "sample_handlers = \<lparr>hd_Api = call_env, hd_Scim = Scim_Tenant.sample_env\<lparr>sv_uuid := \<lambda>_. Some 10\<rparr>, hd_Time = (\<lambda>_. None), hd_SHA256 = (\<lambda>s. s)\<rparr>"

definition kc_registry :: registry where
  "kc_registry = [\<lparr>tn_provider = ''kc'', tn_hash = ''t1''\<rparr>]"

definition deactivate_call :: scim_call where
  "deactivate_call = \<lparr>sq_method = ''PATCH'', sq_path = [''Users'', ''u''], sq_authorization = ''Bearer t1'', sq_query = (\<lambda>_. []),
     sq_body = Some (JObj [(''Operations'', JArr [JObj [(''op'', JStr ''Replace''), (''path'', JStr ''active''), (''value'', JBool False)]])])\<rparr>"

definition ann_call :: api_call where
  "ann_call = \<lparr>aq_request = sample_request [], aq_method = ''GET'', aq_path = [''me''], aq_query = (\<lambda>_. []), aq_body = None\<rparr>"

lemma deactivate_decoded:
  "decode_body patch_decoder \<lparr>pq_Schemas = [], pq_Operations = []\<rparr> (sq_body deactivate_call) = Some \<lparr>pq_Schemas = [], pq_Operations = deactivate\<rparr>"
  by (simp add: deactivate_call_def deactivate_def patch_decoder_def patch_op_decoder_def decoder_defs)

lemma deactivate_admitted:
  "scim_Authenticate (hd_SHA256 sample_handlers) kc_registry (sq_authorization deactivate_call) = Inr ''kc''"
  by (simp add: scim_Authenticate_def deactivate_call_def kc_registry_def sample_handlers_def CutPrefix_def Lookup_token_def)

lemma deactivate_step_run:
  "\<exists>resp st' s' u. scim_step sample_handlers kc_registry deactivate_call sample_world sample_auth sample_sess = (Inr resp, st', s')
     \<and> sp_Body resp = UserDoc u \<and> us_ExternalID u = ''u1'' \<and> us_Active u = Some False \<and> sp_Dropped resp \<noteq> []"
proof -
  let ?v = "hd_Scim sample_handlers"
  from deactivate_run [of "sv_float ?v" "sv_render ?v"] obtain u s' where
    d: "Users_Patch (sv_float ?v) (sv_render ?v) ''kc'' 10 deactivate sample_world sample_sess = (Inr (u, [(''kc'', ''u1'')]), s')"
    and u: "us_Active u = Some False" "us_ExternalID u = ''u1''" by blast
  from users_yield(4) [of "sv_float ?v" "sv_render ?v" "''kc''" 10 deactivate] d obtain m where m: "us_Meta u = Some m"
    unfolding yields_def by fastforce
  have i: "sv_uuid ?v t = Some 10" for t by (simp add: sample_handlers_def)
  have "find_route scim_routes (sq_method deactivate_call) (sq_path deactivate_call) = Found Users_patch [(''id'', ''u'')]"
    by (simp add: deactivate_call_def users_routes(3))
  then have "scim_http ?v (hd_Time sample_handlers) (hd_SHA256 sample_handlers) kc_registry deactivate_call sample_world sample_sess
     = (Inr \<lparr>sp_Status = 200, sp_Location = None, sp_ETag = Some (me_Version m), sp_Body = UserDoc u, sp_Dropped = [(''kc'', ''u1'')]\<rparr>, s')"
    using deactivate_admitted
    by (simp add: scim_http_def scim_mount_def discovery_def UsersHandler_Patch_def with_provider_def ProviderFromContext_def with_id_def
        with_json_def deactivate_decoded scim_respond_def dropping_def ok_response_def deref_def bind_def ret_def catch_def d m i)
  with u show ?thesis by (simp add: scim_step_def)
qed

subsection \<open>After the first start\<close>

definition first_calls :: "http_call list" where
  "first_calls = [ApiCall new_system_call 1 2, ScimCall deactivate_call, ApiCall ann_call 3 4]"

fun started :: "nat server res \<times> sess \<Rightarrow> bool" where
  "started (Inl e, s) = False"
| "started (Inr sv, s) = (core_ok (s_db s) \<and> hook_ok (s_db s) \<and> (case s_tx s of None \<Rightarrow> True | Some _ \<Rightarrow> False))"

lemma first_started: "started first_run"
  by code_simp

end
