(* ===== verification/Core_Overlay_Rules.thy ===== *)
theory Core_Overlay_Rules
  imports Core_Rules
begin

section \<open>What the overlay services enforce\<close>

text \<open>
  A schema declares keys in the namespace of its system only, and an overlay that is written belongs to
  the caller's active system, stays in its namespace and conforms to its schema.
\<close>

definition object_keys :: "json \<Rightarrow> string list" where
  "object_keys j = (case j of JObj kvs \<Rightarrow> map fst kvs | _ \<Rightarrow> [])"

lemma set_decode_keys: "fst ` set (decode_members kvs) = fst ` set kvs"
proof -
  have "dom (map_of (decode_members kvs)) = dom (map_of (rev kvs))" by (simp add: map_of_decode_members)
  then show ?thesis by (simp add: dom_map_of_conv_image_fst)
qed

lemma namespace_keys:
  "PO_validateNamespacePrefix (Some p) name = None \<Longrightarrow> \<forall>k \<in> set (object_keys p). prefix (name @ ''.'') k"
proof -
  assume a: "PO_validateNamespacePrefix (Some p) name = None"
  have "set (object_keys p) \<subseteq> set (map fst (map_entries m))" if "unmarshal_map (Some p) = Inr m" for m
    using that by (cases p) (force simp: object_keys_def map_entries_def set_decode_keys)+
  with a show ?thesis
    by (fastforce simp: PO_validateNamespacePrefix_def namespace_check_None split: sum.splits)
qed

subsection \<open>What the checks establish\<close>

definition active_system :: "database \<Rightarrow> query_ctx \<Rightarrow> uuid \<Rightarrow> string \<Rightarrow> bool" where
  "active_system d q u name \<longleftrightarrow> (\<exists>e \<in> set (db_entities d). en_id e = u \<and> has_type d ''System'' e \<and> active_flag q e = Inr True
     \<and> jsonb_text q (en_properties e) ''name'' = Some name)"

lemma scan_text_Inr [simp]: "scan_text m w s = (Inr x, s') \<longleftrightarrow> m w s = (Inr (Some x), s')"
  by (auto simp: scan_text_def bind_Inr split: option.splits)

lemma catch_reject_if_Inr [simp]:
  "catch m (\<lambda>e. if P e then reject a else reject b) w s = (Inr x, s') \<longleftrightarrow> m w s = (Inr x, s')"
  by (auto simp: catch_Inr split: if_splits)

lemma resolveCallerSystem_Inr:
  assumes "resolveCallerSystem ctx w s = (Inr (u, name), s')"
  shows "\<exists>i q. ctx = Some i \<and> id_ActiveSystemID i = Some u \<and> active_system (s_db s) q u name \<and> s_db s' = s_db s \<and> s_tx s' = s_tx s"
proof -
  from assms obtain i where i: "ctx = Some i" "id_ActiveSystemID i = Some u"
    and ex: "exec (select_active_system u) w s = (Inr (Some (Some name)), s')"
    by (auto simp: resolveCallerSystem_def bind_Inr split: option.splits)
  from exec_Inr_ctx [OF ex] obtain q where st: "select_active_system u q (s_db s) = Inr (Some (Some name), s_db s')"
    and tx: "s_tx s' = s_tx s" .
  let ?es = "filter (\<lambda>e. en_id e = u \<and> has_type (s_db s) ''System'' e) (entities q (s_db s))"
  from st obtain e es where es: "?es = e # es" and "s_db s' = s_db s" "active_flag q e = Inr True"
      "jsonb_text q (en_properties e) ''name'' = Some name"
    by (auto simp: select_active_system_def split: list.splits sum.splits if_splits)
  with filter_ConsD [OF es] i tx show ?thesis by (auto simp: active_system_def entities_def)
qed

lemma resolveEntity_Inr:
  "resolveEntity i w s = (Inr tid, s') \<Longrightarrow>
   (\<exists>e \<in> set (db_entities (s_db s)). en_id e = i \<and> en_type_id e = tid) \<and> s_db s' = s_db s \<and> s_tx s' = s_tx s"
  unfolding resolveEntity_def catch_reject_if_Inr by (drule query_row_Inr) (auto simp: map_eq_Cons_conv entities_def dest!: filter_ConsD)

lemma resolveOverlaySchema_Inr:
  "resolveOverlaySchema sys tid w s = (Inr doc, s') \<Longrightarrow>
   (\<exists>r \<in> set (db_schemas (s_db s)). sc_system r = sys \<and> sc_type r = tid \<and> sc_allowed r = doc) \<and> s_db s' = s_db s \<and> s_tx s' = s_tx s"
  unfolding resolveOverlaySchema_def catch_reject_if_Inr by (drule query_row_Inr) (auto simp: map_eq_Cons_conv dest!: filter_ConsD)

text \<open>What a document must satisfy to become the overlay of a system on an entity.\<close>

definition overlay_allowed :: "'s schema_lib \<Rightarrow> database \<Rightarrow> query_ctx \<Rightarrow> uuid \<Rightarrow> uuid \<Rightarrow> json \<Rightarrow> bool" where
  "overlay_allowed lib d q sys ent p \<longleftrightarrow>
     (\<exists>name. active_system d q sys name \<and> (\<forall>k \<in> set (object_keys p). prefix (name @ ''.'') k))
     \<and> (\<exists>e \<in> set (db_entities d). \<exists>r \<in> set (db_schemas d). en_id e = ent \<and> sc_system r = sys \<and> sc_type r = en_type_id e
          \<and> conforms lib ''oad://overlay/properties'' (sc_allowed r) p)"

lemma PO_checked_Inr:
  assumes "PO_checked lib ctx ent props w s = (Inr sys, s')"
  shows "\<exists>i p q. ctx = Some i \<and> id_ActiveSystemID i = Some sys \<and> props = Some p \<and> overlay_allowed lib (s_db s) q sys ent p
     \<and> s_db s' = s_db s \<and> s_tx s' = s_tx s"
proof -
  from assms obtain p name tid doc s1 s2 where p: "props = Some p" and c: "resolveCallerSystem ctx w s = (Inr (sys, name), s1)"
    and e: "resolveEntity ent w s1 = (Inr tid, s2)" and r: "resolveOverlaySchema sys tid w s2 = (Inr doc, s')"
    and v: "validateOverlayProperties lib props name doc = None"
    by (auto simp: PO_checked_def bind_Inr split: if_splits)
  from resolveCallerSystem_Inr [OF c] obtain i q where i: "ctx = Some i" "id_ActiveSystemID i = Some sys"
    "active_system (s_db s) q sys name" "s_db s1 = s_db s" "s_tx s1 = s_tx s" by blast
  from v p have v': "PO_validateNamespacePrefix (Some p) name = None" "conforms lib ''oad://overlay/properties'' doc p"
    by (auto simp: validateOverlayProperties_def against_schema_None split: option.splits)
  from resolveEntity_Inr [OF e] i(4,5) obtain er where er: "er \<in> set (db_entities (s_db s))" "en_id er = ent" "en_type_id er = tid"
    and s2: "s_db s2 = s_db s" "s_tx s2 = s_tx s" by auto
  from resolveOverlaySchema_Inr [OF r] s2 obtain sr where sr: "sr \<in> set (db_schemas (s_db s))" "sc_system sr = sys" "sc_type sr = tid"
    "sc_allowed sr = doc" and s': "s_db s' = s_db s" "s_tx s' = s_tx s" by auto
  have "overlay_allowed lib (s_db s) q sys ent p"
    unfolding overlay_allowed_def using i(3) namespace_keys [OF v'(1)] er sr v'(2) by blast
  with i p s' show ?thesis by blast
qed

lemma po_of_row_simps [simp]: "po_ID (po_of_row r) = ov_id r" "po_EntityID (po_of_row r) = ov_entity r" "po_SystemID (po_of_row r) = ov_system r"
  by (simp_all add: po_of_row_def)

lemma own_overlay_Inr:
  assumes "own_overlay ent sys i w s = (Inr x, s')"
  shows "\<exists>q r rs. filter (\<lambda>r. ov_id r = i) (overlays q (s_db s)) = r # rs \<and> x = po_of_row r \<and> ov_entity r = ent \<and> ov_system r = sys
     \<and> ctx_in w s q \<and> s_db s' = s_db s \<and> s_tx s' = s_tx s"
proof -
  from assms obtain r where "query_row (\<lambda>q d. filter (\<lambda>r. ov_id r = i) (overlays q d)) w s = (Inr r, s')"
    and "x = po_of_row r" "ov_entity r = ent" "ov_system r = sys"
    by (auto simp: own_overlay_def PO_repo_GetByID_def scanOverlay_def bind_Inr split: if_splits)
  with query_row_Inr [OF this(1)] show ?thesis by blast
qed

lemma same_visibility:
  "ctx_in w s q \<Longrightarrow> ctx_in w s' q' \<Longrightarrow> s_tx s = Some t \<Longrightarrow> s_tx s' = s_tx s \<Longrightarrow> overlays q d = overlays q' d"
  by (simp add: ctx_in_def overlays_def visible_def)

lemma overlay_created:
  assumes "PO_Create lib env ctx ent props w s = (Inr x, s')" "s_tx (s :: sess) = None"
  shows "\<exists>i p q row. ctx = Some i \<and> id_ActiveSystemID i = Some (ov_system row) \<and> props = Some p
     \<and> overlay_allowed lib (s_db s) q (ov_system row) ent p \<and> ov_entity row = ent \<and> ov_properties row = p \<and> x = po_of_row row
     \<and> db_overlays (s_db s') = db_overlays (s_db s) @ [row]"
proof -
  from assms(1) obtain sys s1 where ck: "PO_checked lib ctx ent props w s = (Inr sys, s1)"
    and run: "WithAuthScope ctx (PO_create_body env ctx \<lparr>po_ID = uuid_Nil, po_EntityID = ent, po_SystemID = sys,
        po_Properties = props, po_CreatedAt = 0, po_UpdatedAt = 0\<rparr>) w s1 = (Inr x, s')"
    by (auto simp: PO_Create_def bind_Inr)
  from PO_checked_Inr [OF ck] assms(2) obtain i p q where i: "ctx = Some i" "id_ActiveSystemID i = Some sys" "props = Some p"
    "overlay_allowed lib (s_db s) q sys ent p" "s_db s1 = s_db s" "s_tx s1 = None" by auto
  obtain s2 s3 where db: "s_db s2 = s_db s1" "s_db s' = s_db s3"
    and body: "PO_create_body env ctx \<lparr>po_ID = uuid_Nil, po_EntityID = ent, po_SystemID = sys,
        po_Properties = props, po_CreatedAt = 0, po_UpdatedAt = 0\<rparr> w s2 = (Inr x, s3)"
    by (rule with_scope_Inr [OF run i(6) po_bodies_ok(1) [THEN preserving_keeps_snapshot]]) (rule that)
  from body obtain row s4 u where ins: "exec (not_null props (insert_overlay ent sys)) w s2 = (Inr row, s4)"
    and x: "x = \<lparr>po_ID = ov_id row, po_EntityID = ent, po_SystemID = sys, po_Properties = props, po_CreatedAt = ov_created row,
       po_UpdatedAt = ov_updated row\<rparr>"
    and wr: "WriteFromContext env ctx (po_entry env OpCreate (ov_id row) None (Some x)) w s4 = (Inr u, s3)"
    by (auto simp: PO_create_body_def PO_repo_Create_def bind_Inr catch_Inr split: if_splits)
  from exec_Inr_ctx [OF ins] obtain q' where "not_null props (insert_overlay ent sys) q' (s_db s2) = Inr (row, s_db s4)" .
  with i(3) have "insert_overlay ent sys p q' (s_db s2) = Inr (row, s_db s4)" by (simp add: not_null_def)
  note row = insert_overlay_Inr [OF this]
  have "db_overlays (s_db s3) = db_overlays (s_db s4)" using WriteFromContext_but [OF wr] by (simp add: but_audit_eq)
  with row db i(5) have d: "db_overlays (s_db s') = db_overlays (s_db s) @ [row]" by simp
  show ?thesis
    by (rule exI [of _ i], rule exI [of _ p], rule exI [of _ q], rule exI [of _ row]) (use i row x d in \<open>simp add: po_of_row_def\<close>)
qed

lemma update_overlays_Inr:
  "update_overlays P f q d = Inr (rows, d') \<Longrightarrow>
   db_overlays d' = map (\<lambda>r. if visible q (Some (ov_system r)) \<and> P r then (f r)\<lparr>ov_updated := q_now q\<rparr> else r) (db_overlays d)"
  by (auto simp: update_overlays_def Let_def)

lemma update_schemas_Inr:
  "update_schemas P f q d = Inr (rows, d') \<Longrightarrow> rows = map (\<lambda>r. (f r)\<lparr>sc_updated := q_now q\<rparr>) (filter P (db_schemas d))
     \<and> db_schemas d' = map (\<lambda>r. if P r then (f r)\<lparr>sc_updated := q_now q\<rparr> else r) (db_schemas d)"
  by (auto simp: update_schemas_def Let_def)

lemma PO_repo_Update_Inr:
  assumes "PO_repo_Update x w s = (Inr u, s')"
  shows "\<exists>q p r rs. po_Properties x = Some p \<and> filter (\<lambda>r. ov_id r = po_ID x) (overlays q (s_db s)) = r # rs \<and> ctx_in w s q
     \<and> u = x\<lparr>po_UpdatedAt := q_now q\<rparr> \<and> s_tx s' = s_tx s
     \<and> update_overlays (\<lambda>r. ov_id r = po_ID x) (\<lambda>r. r\<lparr>ov_properties := p\<rparr>) q (s_db s)
         = Inr (map (\<lambda>r. r\<lparr>ov_properties := p, ov_updated := q_now q\<rparr>) (r # rs), s_db s')"
proof -
  let ?st = "not_null (po_Properties x) (\<lambda>p. update_overlays (\<lambda>r. ov_id r = po_ID x) (\<lambda>r. r\<lparr>ov_properties := p\<rparr>))"
  from assms obtain t where fr: "scan_row (bind (exec ?st) (\<lambda>rows. ret (case rows of [] \<Rightarrow> None | y # _ \<Rightarrow> Some (ov_updated y)))) w s = (Inr t, s')"
    and u: "u = x\<lparr>po_UpdatedAt := t\<rparr>"
    by (auto simp: PO_repo_Update_def bind_Inr simp del: scan_row_Inr)
  from first_row_Inr [OF fr] obtain y ys where ex: "exec ?st w s = (Inr (y # ys), s')" and t: "t = ov_updated y" by blast
  from exec_Inr_ctx [OF ex] obtain q where "?st q (s_db s) = Inr (y # ys, s_db s')" and q: "ctx_in w s q" "s_tx s' = s_tx s" .
  then obtain p where p: "po_Properties x = Some p"
    and up: "update_overlays (\<lambda>r. ov_id r = po_ID x) (\<lambda>r. r\<lparr>ov_properties := p\<rparr>) q (s_db s) = Inr (y # ys, s_db s')"
    by (auto simp: not_null_Inr)
  have f: "filter (\<lambda>r. visible q (Some (ov_system r)) \<and> ov_id r = po_ID x) (db_overlays (s_db s))
      = filter (\<lambda>r. ov_id r = po_ID x) (overlays q (s_db s))"
    by (simp add: overlays_def conj_commute)
  from up have "y # ys = map (\<lambda>r. r\<lparr>ov_properties := p, ov_updated := q_now q\<rparr>) (filter (\<lambda>r. ov_id r = po_ID x) (overlays q (s_db s)))"
    unfolding update_overlays_def Let_def f by simp
  then obtain r rs where r: "filter (\<lambda>r. ov_id r = po_ID x) (overlays q (s_db s)) = r # rs"
    and y: "y # ys = map (\<lambda>r. r\<lparr>ov_properties := p, ov_updated := q_now q\<rparr>) (r # rs)"
    by (cases "filter (\<lambda>r. ov_id r = po_ID x) (overlays q (s_db s))") auto
  from y have "t = q_now q" by (simp add: t)
  with p r q u up [unfolded y] show ?thesis by blast
qed

lemma overlay_replaced:
  assumes "PO_Update lib env ctx ent i props w s = (Inr x, s')" "s_tx (s :: sess) = None"
  shows "\<exists>c p q row now. ctx = Some c \<and> id_ActiveSystemID c = Some (ov_system row) \<and> props = Some p
     \<and> overlay_allowed lib (s_db s) q (ov_system row) ent p \<and> ov_entity row = ent \<and> ov_id row = i \<and> row \<in> set (db_overlays (s_db s))
     \<and> x = po_of_row (row\<lparr>ov_properties := p, ov_updated := now\<rparr>) \<and> row\<lparr>ov_properties := p, ov_updated := now\<rparr> \<in> set (db_overlays (s_db s'))
     \<and> filter (\<lambda>r. ov_id r \<noteq> i) (db_overlays (s_db s')) = filter (\<lambda>r. ov_id r \<noteq> i) (db_overlays (s_db s))"
proof -
  from assms(1) obtain sys s1 where ck: "PO_checked lib ctx ent props w s = (Inr sys, s1)"
    and run: "WithAuthScope ctx (PO_update_body env ctx ent sys i props) w s1 = (Inr x, s')"
    by (auto simp: PO_Update_def bind_Inr)
  from PO_checked_Inr [OF ck] assms(2) obtain c p q where c: "ctx = Some c" "id_ActiveSystemID c = Some sys" and p: "props = Some p"
    and ok: "overlay_allowed lib (s_db s) q sys ent p" and s1: "s_db s1 = s_db s" "s_tx s1 = None" by auto
  obtain s2 t s3 where db: "s_db s2 = s_db s1" and tx: "s_tx s2 = Some t" and db': "s_db s' = s_db s3"
    and body: "PO_update_body env ctx ent sys i props w s2 = (Inr x, s3)"
    by (rule with_scope_Inr [OF run s1(2) po_bodies_ok(2) [THEN preserving_keeps_snapshot]]) (rule that)
  from body obtain ex s4 s5 v where own: "own_overlay ent sys i w s2 = (Inr ex, s4)"
    and up: "PO_repo_Update (ex\<lparr>po_Properties := props\<rparr>) w s4 = (Inr x, s5)"
    and wr: "WriteFromContext env ctx (po_entry env OpUpdate (po_ID x) (Some ex) (Some x)) w s5 = (Inr v, s3)"
    by (auto simp: PO_update_body_def bind_Inr)
  from own_overlay_Inr [OF own] obtain q1 r rs where r: "filter (\<lambda>r. ov_id r = i) (overlays q1 (s_db s2)) = r # rs" "ex = po_of_row r"
    "ov_entity r = ent" "ov_system r = sys" and q1: "ctx_in w s2 q1" and s4: "s_db s4 = s_db s2" "s_tx s4 = s_tx s2" by blast
  from filter_ConsD [OF r(1)] have rid: "ov_id r = i" and rin: "r \<in> set (db_overlays (s_db s2))" by (auto simp: overlays_def)
  from PO_repo_Update_Inr [OF up] p r(2) rid obtain q2 r' rs' where r': "filter (\<lambda>r. ov_id r = i) (overlays q2 (s_db s4)) = r' # rs'"
    and q2: "ctx_in w s4 q2" and x: "x = (ex\<lparr>po_Properties := Some p\<rparr>)\<lparr>po_UpdatedAt := q_now q2\<rparr>"
    and st: "update_overlays (\<lambda>r. ov_id r = i) (\<lambda>r. r\<lparr>ov_properties := p\<rparr>) q2 (s_db s4)
         = Inr (map (\<lambda>r. r\<lparr>ov_properties := p, ov_updated := q_now q2\<rparr>) (r' # rs'), s_db s5)" by auto
  have "r' = r" using r' r(1) same_visibility [OF q1 q2 tx s4(2)] by (simp add: s4(1))
  define h where "h = (\<lambda>r :: overlay_row. visible q2 (Some (ov_system r)) \<and> ov_id r = i)"
  from st have d5: "db_overlays (s_db s5) = map (\<lambda>r. if h r then r\<lparr>ov_properties := p, ov_updated := q_now q2\<rparr> else r) (db_overlays (s_db s4))"
    unfolding h_def by (rule update_overlays_Inr)
  from filter_ConsD [OF r'] have "h r" "r \<in> set (db_overlays (s_db s4))" by (auto simp: h_def overlays_def \<open>r' = r\<close>)
  then have "r\<lparr>ov_properties := p, ov_updated := q_now q2\<rparr> \<in> set (db_overlays (s_db s5))" unfolding d5 by force
  moreover have "filter (\<lambda>r. ov_id r \<noteq> i) (map (\<lambda>r. if h r then r\<lparr>ov_properties := p, ov_updated := q_now q2\<rparr> else r) rows)
      = filter (\<lambda>r. ov_id r \<noteq> i) rows" for rows :: "overlay_row list"
    by (induction rows) (auto simp: h_def)
  moreover have "db_overlays (s_db s3) = db_overlays (s_db s5)" using WriteFromContext_but [OF wr] by (simp add: but_audit_eq)
  ultimately have "r\<lparr>ov_properties := p, ov_updated := q_now q2\<rparr> \<in> set (db_overlays (s_db s'))"
    "filter (\<lambda>r. ov_id r \<noteq> i) (db_overlays (s_db s')) = filter (\<lambda>r. ov_id r \<noteq> i) (db_overlays (s_db s))"
    using db' db s4(1) s1(1) by (simp_all add: d5)
  moreover have "x = po_of_row (r\<lparr>ov_properties := p, ov_updated := q_now q2\<rparr>)" using x r(2) by (simp add: po_of_row_def)
  ultimately show ?thesis
    using c p ok r(3,4) rid rin db s1(1)
    by (intro exI [of _ c] exI [of _ p] exI [of _ q] exI [of _ r] exI [of _ "q_now q2"]) simp
qed

text \<open>
  C30. An overlay that is written, by creation or by replacement, belongs to the active system of the
  caller and to the requested entity; that system is active; every key of the document carries the
  system's name and a dot; and the document conforms to the schema the system declared for the
  entity's type. The row holds the document, and no other overlay changes.
\<close>

theorem overlay_write_valid:
  assumes "PO_Create lib env ctx ent props w s = (Inr x, s') \<or> PO_Update lib env ctx ent i props w s = (Inr x, s')"
    "s_tx (s :: sess) = None"
  shows "\<exists>c p q row. ctx = Some c \<and> id_ActiveSystemID c = Some (ov_system row) \<and> props = Some p
     \<and> overlay_allowed lib (s_db s) q (ov_system row) ent p
     \<and> x = po_of_row row \<and> ov_entity row = ent \<and> ov_properties row = p \<and> row \<in> set (db_overlays (s_db s'))
     \<and> filter (\<lambda>r. ov_id r \<noteq> ov_id row) (db_overlays (s_db s')) = filter (\<lambda>r. ov_id r \<noteq> ov_id row) (db_overlays (s_db s))"
  using assms(1)
proof
  assume "PO_Create lib env ctx ent props w s = (Inr x, s')"
  from overlay_created [OF this assms(2)] show ?thesis by fastforce
next
  assume "PO_Update lib env ctx ent i props w s = (Inr x, s')"
  from overlay_replaced [OF this assms(2)] obtain c p q row now where r: "ctx = Some c" "id_ActiveSystemID c = Some (ov_system row)"
    "props = Some p" "overlay_allowed lib (s_db s) q (ov_system row) ent p" "ov_entity row = ent" "ov_id row = i"
    "x = po_of_row (row\<lparr>ov_properties := p, ov_updated := now\<rparr>)" "row\<lparr>ov_properties := p, ov_updated := now\<rparr> \<in> set (db_overlays (s_db s'))"
    "filter (\<lambda>r. ov_id r \<noteq> i) (db_overlays (s_db s')) = filter (\<lambda>r. ov_id r \<noteq> i) (db_overlays (s_db s))" by blast
  show ?thesis
    by (rule exI [of _ c], rule exI [of _ p], rule exI [of _ q], rule exI [of _ "row\<lparr>ov_properties := p, ov_updated := now\<rparr>"])
      (use r in simp)
qed

subsection \<open>Overlay schemas\<close>

lemma resolveSystemName_Inr:
  "resolveSystemName u w s = (Inr name, s') \<Longrightarrow>
   (\<exists>q. \<exists>e \<in> set (db_entities (s_db s)). en_id e = u \<and> has_type (s_db s) ''System'' e \<and> jsonb_text q (en_properties e) ''name'' = Some name)
     \<and> s_db s' = s_db s \<and> s_tx s' = s_tx s"
  unfolding resolveSystemName_def catch_reject_if_Inr scan_text_Inr
  by (drule query_row_Inr) (auto simp: map_eq_Cons_conv entities_def dest!: filter_ConsD)

lemma validateSchema_None:
  "validateSchema lib props name = None \<Longrightarrow>
   \<exists>p ks. props = Some p \<and> ValidateIsJSONSchema lib (Some p) = None \<and> schema_keys (Some p) = Inr ks \<and> (\<forall>k \<in> set ks. prefix (name @ ''.'') k)"
  by (cases props) (auto simp: validateSchema_def OS_validateNamespacePrefix_def namespace_check_None ValidateIsJSONSchema_def
      split: option.splits sum.splits)

lemma own_schema_Inr:
  assumes "own_schema sid i w s = (Inr x, s')"
  shows "\<exists>r rs. filter (\<lambda>r. sc_id r = i) (db_schemas (s_db s)) = r # rs \<and> x = os_of_row r \<and> sc_system r = sid
     \<and> s_db s' = s_db s \<and> s_tx s' = s_tx s"
proof -
  from assms obtain r where "query_row (\<lambda>q d. filter (\<lambda>r. sc_id r = i) (db_schemas d)) w s = (Inr r, s')"
    and x: "x = os_of_row r" and "os_SystemID (os_of_row r) = sid"
    by (auto simp: own_schema_def OS_repo_GetByID_def bind_Inr split: if_splits)
  with query_row_Inr [OF this(1)] show ?thesis by (auto simp: os_of_row_def)
qed

lemma OS_repo_Update_Inr:
  assumes "OS_repo_Update x w s = (Inr u, s')"
  shows "\<exists>p t r rs. os_AllowedOverlayProperties x = Some p \<and> u = x\<lparr>os_UpdatedAt := t\<rparr>
     \<and> filter (\<lambda>r. sc_id r = os_ID x) (db_schemas (s_db s)) = r # rs \<and> r\<lparr>sc_allowed := p, sc_updated := t\<rparr> \<in> set (db_schemas (s_db s'))"
proof -
  let ?st = "not_null (os_AllowedOverlayProperties x) (\<lambda>p. update_schemas (\<lambda>r. sc_id r = os_ID x) (\<lambda>r. r\<lparr>sc_allowed := p\<rparr>))"
  from assms obtain t where fr: "scan_row (bind (exec ?st) (\<lambda>rows. ret (case rows of [] \<Rightarrow> None | y # _ \<Rightarrow> Some (sc_updated y)))) w s = (Inr t, s')"
    and u: "u = x\<lparr>os_UpdatedAt := t\<rparr>"
    by (auto simp: OS_repo_Update_def bind_Inr simp del: scan_row_Inr)
  from first_row_Inr [OF fr] obtain y ys where ex: "exec ?st w s = (Inr (y # ys), s')" and t: "t = sc_updated y" by blast
  from exec_Inr_ctx [OF ex] obtain q where "?st q (s_db s) = Inr (y # ys, s_db s')" .
  then obtain p where p: "os_AllowedOverlayProperties x = Some p"
    and up: "update_schemas (\<lambda>r. sc_id r = os_ID x) (\<lambda>r. r\<lparr>sc_allowed := p\<rparr>) q (s_db s) = Inr (y # ys, s_db s')"
    by (auto simp: not_null_Inr)
  from up have y: "y # ys = map (\<lambda>r. r\<lparr>sc_allowed := p, sc_updated := q_now q\<rparr>) (filter (\<lambda>r. sc_id r = os_ID x) (db_schemas (s_db s)))"
    and d: "db_schemas (s_db s') = map (\<lambda>r. if sc_id r = os_ID x then r\<lparr>sc_allowed := p, sc_updated := q_now q\<rparr> else r) (db_schemas (s_db s))"
    using update_schemas_Inr [OF up] by blast+
  from y obtain r rs where r: "filter (\<lambda>r. sc_id r = os_ID x) (db_schemas (s_db s)) = r # rs"
    and y': "y # ys = map (\<lambda>r. r\<lparr>sc_allowed := p, sc_updated := q_now q\<rparr>) (r # rs)"
    by (cases "filter (\<lambda>r. sc_id r = os_ID x) (db_schemas (s_db s))") auto
  from y' have "t = q_now q" by (simp add: t)
  moreover from filter_ConsD [OF r] have "r\<lparr>sc_allowed := p, sc_updated := q_now q\<rparr> \<in> set (db_schemas (s_db s'))" unfolding d by force
  ultimately show ?thesis using p u r by blast
qed

lemma overlay_schema_created:
  assumes "OS_Create lib env ctx sid req w s = (Inr x, s')" "s_tx (s :: sess) = None"
  shows "\<exists>s1 name row p. resolveSystemName sid w s = (Inr name, s1) \<and> oc_AllowedOverlayProperties req = Some p
     \<and> validateSchema lib (Some p) name = None \<and> os_AllowedOverlayProperties x = Some p \<and> os_SystemID x = sid
     \<and> row \<in> set (db_schemas (s_db s')) \<and> sc_system row = sid \<and> sc_id row = os_ID x \<and> sc_allowed row = p"
proof -
  from assms(1) obtain name p s1 where name: "resolveSystemName sid w s = (Inr name, s1)" and p: "oc_AllowedOverlayProperties req = Some p"
    and val: "validateSchema lib (Some p) name = None"
    and run: "WithAuthScope ctx (OS_create_body env ctx \<lparr>os_ID = uuid_Nil, os_SystemID = sid, os_EntityTypeID = oc_EntityTypeID req,
           os_AllowedOverlayProperties = Some p, os_CreatedAt = 0, os_UpdatedAt = 0\<rparr>) w s1 = (Inr x, s')"
    by (auto simp: OS_Create_def bind_Inr split: if_splits)
  from resolveSystemName_Inr [OF name] assms(2) have tx: "s_tx s1 = None" by simp
  obtain s2 s3 where db: "s_db s' = s_db s3" and body: "OS_create_body env ctx \<lparr>os_ID = uuid_Nil, os_SystemID = sid,
      os_EntityTypeID = oc_EntityTypeID req, os_AllowedOverlayProperties = Some p, os_CreatedAt = 0, os_UpdatedAt = 0\<rparr> w s2 = (Inr x, s3)"
    by (rule with_scope_Inr [OF run tx os_bodies_ok(1) [THEN preserving_keeps_snapshot]]) (rule that)
  from body obtain row s4 u where ins: "exec (not_null (Some p) (insert_schema sid (oc_EntityTypeID req))) w s2 = (Inr row, s4)"
    and x: "os_ID x = sc_id row" "os_SystemID x = sid" "os_AllowedOverlayProperties x = Some p"
    and wr: "WriteFromContext env ctx (os_entry env OpCreate (sc_id row) None (Some x)) w s4 = (Inr u, s3)"
    by (auto simp: OS_create_body_def OS_repo_Create_def bind_Inr catch_Inr split: if_splits)
  from exec_Inr_ctx [OF ins] obtain q where "not_null (Some p) (insert_schema sid (oc_EntityTypeID req)) q (s_db s2) = Inr (row, s_db s4)" .
  then have "insert_schema sid (oc_EntityTypeID req) p q (s_db s2) = Inr (row, s_db s4)" by (simp add: not_null_def)
  note row = insert_schema_Inr [OF this]
  have "db_schemas (s_db s3) = db_schemas (s_db s4)" using WriteFromContext_but [OF wr] by (simp add: but_audit_eq)
  with row db have "row \<in> set (db_schemas (s_db s'))" by simp
  with name p val x row show ?thesis
    by (intro exI [of _ s1] exI [of _ name] exI [of _ row] exI [of _ p]) simp
qed

lemma overlay_schema_replaced:
  assumes "OS_Update lib env ctx sid i props w s = (Inr x, s')" "s_tx (s :: sess) = None"
  shows "\<exists>s1 name row p. resolveSystemName sid w s = (Inr name, s1) \<and> props = Some p
     \<and> validateSchema lib (Some p) name = None \<and> os_AllowedOverlayProperties x = Some p \<and> os_SystemID x = sid
     \<and> row \<in> set (db_schemas (s_db s')) \<and> sc_system row = sid \<and> sc_id row = os_ID x \<and> sc_allowed row = p"
proof -
  from assms(1) obtain name p s1 where name: "resolveSystemName sid w s = (Inr name, s1)" and p: "props = Some p"
    and val: "validateSchema lib (Some p) name = None" and run: "WithAuthScope ctx (OS_update_body env ctx sid i props) w s1 = (Inr x, s')"
    by (auto simp: OS_Update_def bind_Inr split: if_splits)
  from resolveSystemName_Inr [OF name] assms(2) have tx: "s_tx s1 = None" by simp
  obtain s2 s3 where db: "s_db s' = s_db s3" and body: "OS_update_body env ctx sid i props w s2 = (Inr x, s3)"
    by (rule with_scope_Inr [OF run tx os_bodies_ok(2) [THEN preserving_keeps_snapshot]]) (rule that)
  from body obtain ex s4 s5 v where own: "own_schema sid i w s2 = (Inr ex, s4)"
    and up: "OS_repo_Update (ex\<lparr>os_AllowedOverlayProperties := props\<rparr>) w s4 = (Inr x, s5)"
    and wr: "WriteFromContext env ctx (os_entry env OpUpdate (os_ID x) (Some ex) (Some x)) w s5 = (Inr v, s3)"
    by (auto simp: OS_update_body_def bind_Inr)
  from own_schema_Inr [OF own] obtain r rs where r: "filter (\<lambda>r. sc_id r = i) (db_schemas (s_db s2)) = r # rs" "ex = os_of_row r" "sc_system r = sid"
    "s_db s4 = s_db s2" by blast
  from filter_ConsD [OF r(1)] have ri: "sc_id r = i" by simp
  with r(2) have exi: "os_ID ex = i" "os_SystemID ex = sid" by (simp_all add: os_of_row_def r(3))
  from OS_repo_Update_Inr [OF up] exi p r(1,4) obtain t where x: "x = (ex\<lparr>os_AllowedOverlayProperties := props\<rparr>)\<lparr>os_UpdatedAt := t\<rparr>"
    and row: "r\<lparr>sc_allowed := p, sc_updated := t\<rparr> \<in> set (db_schemas (s_db s5))" by auto
  have "db_schemas (s_db s3) = db_schemas (s_db s5)" using WriteFromContext_but [OF wr] by (simp add: but_audit_eq)
  with row db have "r\<lparr>sc_allowed := p, sc_updated := t\<rparr> \<in> set (db_schemas (s_db s'))" by simp
  with name p val x r(3) ri exi show ?thesis
    by (intro exI [of _ s1] exI [of _ name] exI [of _ "r\<lparr>sc_allowed := p, sc_updated := t\<rparr>"] exI [of _ p]) simp
qed

text \<open>
  C31. An overlay schema that is stored, by creation or by replacement, is a JSON Schema the library
  accepts, and every key it declares begins with the name of the system it belongs to and a dot; the
  system of a schema never changes.
\<close>

theorem overlay_schema_namespaced:
  assumes "OS_Create lib env ctx sid req w s = (Inr x, s') \<and> oc_AllowedOverlayProperties req = props
      \<or> OS_Update lib env ctx sid i props w s = (Inr x, s')"
    "s_tx (s :: sess) = None"
  shows "\<exists>p q e name ks. props = Some p \<and> os_AllowedOverlayProperties x = Some p \<and> os_SystemID x = sid
     \<and> e \<in> set (db_entities (s_db s)) \<and> en_id e = sid \<and> has_type (s_db s) ''System'' e \<and> jsonb_text q (en_properties e) ''name'' = Some name
     \<and> ValidateIsJSONSchema lib (Some p) = None \<and> schema_keys (Some p) = Inr ks \<and> (\<forall>k \<in> set ks. prefix (name @ ''.'') k)
     \<and> (\<exists>row \<in> set (db_schemas (s_db s')). sc_system row = sid \<and> sc_id row = os_ID x \<and> sc_allowed row = p)"
proof -
  from assms(1) have "\<exists>s1 name row p. resolveSystemName sid w s = (Inr name, s1) \<and> props = Some p
     \<and> validateSchema lib (Some p) name = None \<and> os_AllowedOverlayProperties x = Some p \<and> os_SystemID x = sid
     \<and> row \<in> set (db_schemas (s_db s')) \<and> sc_system row = sid \<and> sc_id row = os_ID x \<and> sc_allowed row = p"
  proof (elim disjE conjE)
    assume "OS_Create lib env ctx sid req w s = (Inr x, s')" and r: "oc_AllowedOverlayProperties req = props"
    from overlay_schema_created [OF this(1) assms(2)] show ?thesis unfolding r .
  next
    assume "OS_Update lib env ctx sid i props w s = (Inr x, s')"
    from overlay_schema_replaced [OF this assms(2)] show ?thesis .
  qed
  then obtain s1 name row p where a: "resolveSystemName sid w s = (Inr name, s1)" "validateSchema lib (Some p) name = None"
    and b: "props = Some p" "os_AllowedOverlayProperties x = Some p" "os_SystemID x = sid" "row \<in> set (db_schemas (s_db s'))"
      "sc_system row = sid" "sc_id row = os_ID x" "sc_allowed row = p" by blast
  from validateSchema_None [OF a(2)] resolveSystemName_Inr [OF a(1)] b show ?thesis by blast
qed

end
