(* ===== verification/System_Rules.thy ===== *)
theory System_Rules
  imports Core_Rules
begin

section \<open>Changing a system\<close>

text \<open>Who may patch which field of a system, and what the patch leaves in the tables.\<close>

lemma has_type_find:
  assumes "core_ok d" "e \<in> set (db_entities d)"
  shows "map_option ty_id (find_type d name) = Some (en_type_id e) \<longleftrightarrow> has_type d name e"
proof
  assume "map_option ty_id (find_type d name) = Some (en_type_id e)"
  then obtain t where "find_type d name = Some t" "ty_id t = en_type_id e" by auto
  then show "has_type d name e" by (auto simp: has_type_def find_type_def find_Some_iff list_ex_iff)
next
  assume "has_type d name e"
  then obtain t where t: "t \<in> set (db_types d)" "ty_id t = en_type_id e" "ty_name t = name" by (auto simp: has_type_def list_ex_iff)
  have "find_type d name = Some t"
    using t assms(1) unfolding find_type_def core_ok_def db_ok_def
    by (auto simp: find_Some_iff in_set_conv_nth distinct_conv_nth)
  with t show "map_option ty_id (find_type d name) = Some (en_type_id e)" by simp
qed

lemma Sys_repo_GetByID_Inr:
  assumes "Sys_repo_GetByID i w s = (Inr x, s')"
  shows "\<exists>q e. e \<in> set (db_entities (s_db s)) \<and> en_id e = i \<and> has_type (s_db s) ''System'' e \<and> system_of_row q e = Inr x
     \<and> s_db s' = s_db s \<and> s_tx s' = s_tx s"
proof -
  from assms have "exec (select_system i) w s = (Inr (Some x), s')" by (simp add: Sys_repo_GetByID_def)
  from exec_Inr [OF this] obtain q where st: "select_system i q (s_db s) = Inr (Some x, s_db s')" and tx: "s_tx s' = s_tx s" by blast
  from st obtain e es where f: "filter (\<lambda>e. en_id e = i) (system_rows q (s_db s)) = e # es" and x: "system_of_row q e = Inr x"
    and db: "s_db s' = s_db s"
    by (auto simp: select_system_def split: list.splits sum.splits)
  from filter_ConsD [OF f] have "e \<in> set (db_entities (s_db s))" "en_id e = i" "has_type (s_db s) ''System'' e"
    by (auto simp: system_rows_def entities_def systemTypeName_def)
  with x db tx show ?thesis by blast
qed

lemma update_entities_key_Inr:
  "update_entities_key P f q d = Inr (rows, d') \<Longrightarrow>
   rows = map (\<lambda>e. (f e)\<lparr>en_updated := q_now q\<rparr>) (filter (\<lambda>e. visible q (en_system_id e) \<and> P q d e) (db_entities d))
   \<and> d' = d\<lparr>db_entities := map (\<lambda>e. if visible q (en_system_id e) \<and> P q d e then (f e)\<lparr>en_updated := q_now q\<rparr> else e) (db_entities d)\<rparr>"
  by (auto simp: update_entities_key_def update_entities_def pg_error_def Let_def split: if_splits)

text \<open>The row a system is stored in.\<close>

definition stored_as :: "system \<Rightarrow> entity_row \<Rightarrow> entity_row" where
  "stored_as s e = e\<lparr>en_external_id := sy_Name s, en_properties := systemProperties s, en_updated := sy_UpdatedAt s\<rparr>"

lemma Sys_repo_Update_Inr:
  assumes "Sys_repo_Update x w s = (Inr u, s')" "core_ok (s_db s)"
  shows "\<exists>t. u = x\<lparr>sy_UpdatedAt := t\<rparr> \<and> s_db s' = (s_db s)\<lparr>db_entities :=
     map (\<lambda>e. if en_id e = sy_ID x then stored_as u e else e) (db_entities (s_db s))\<rparr>
     \<and> (\<exists>e \<in> set (db_entities (s_db s)). en_id e = sy_ID x \<and> has_type (s_db s) ''System'' e)"
proof -
  let ?P = "\<lambda>(q :: query_ctx) d e. en_id e = sy_ID x \<and> map_option ty_id (find_type d systemTypeName) = Some (en_type_id e)"
  let ?f = "\<lambda>e :: entity_row. e\<lparr>en_external_id := sy_Name x, en_properties := systemProperties x\<rparr>"
  from assms obtain t where fr: "scan_row (bind (exec (update_entities_key ?P ?f)) (\<lambda>rows. ret (case rows of [] \<Rightarrow> None | y # _ \<Rightarrow> Some (en_updated y)))) w s = (Inr t, s')"
    and u: "u = x\<lparr>sy_UpdatedAt := t\<rparr>"
    by (auto simp: Sys_repo_Update_def bind_Inr catch_throw_Inr catch_Inr simp del: scan_row_Inr split: if_splits)
  from first_row_Inr [OF fr] obtain y ys where ex: "exec (update_entities_key ?P ?f) w s = (Inr (y # ys), s')" and t: "t = en_updated y" by blast
  from exec_Inr [OF ex] obtain q where st: "update_entities_key ?P ?f q (s_db s) = Inr (y # ys, s_db s')" by blast
  let ?hit = "\<lambda>e. visible q (en_system_id e) \<and> ?P q (s_db s) e"
  note up = update_entities_key_Inr [OF st]
  then have "y \<in> set (map (\<lambda>e. (?f e)\<lparr>en_updated := q_now q\<rparr>) (filter ?hit (db_entities (s_db s))))"
    by (metis list.set_intros(1))
  then obtain e0 where e0: "e0 \<in> set (db_entities (s_db s))" "?hit e0" and y: "en_updated y = q_now q" by auto
  have "distinct (map en_id (db_entities (s_db s)))" using assms(2) by (simp add: core_ok_def db_ok_def)
  then have "?hit e \<longleftrightarrow> en_id e = sy_ID x" if "e \<in> set (db_entities (s_db s))" for e
    using e0 that by (auto simp: distinct_map inj_on_def)
  then have m: "map (\<lambda>e. if ?hit e then (?f e)\<lparr>en_updated := q_now q\<rparr> else e) (db_entities (s_db s))
      = map (\<lambda>e. if en_id e = sy_ID x then stored_as u e else e) (db_entities (s_db s))"
    by (intro map_cong refl) (simp add: stored_as_def u t y systemProperties_def)
  have "has_type (s_db s) ''System'' e0" using has_type_find [OF assms(2) e0(1)] e0(2) by (simp add: systemTypeName_def)
  with e0 up m u t y show ?thesis by (intro exI [of _ t]) auto
qed

text \<open>
  C32. A patch of a system writes what it was given and keeps the rest: the stored row reads back as
  the returned system, its external id is its name, and no other entity changes. A caller who is not a
  platform administrator can only patch the active system of the request, and there only the
  description: name and active flag stay as they were.
\<close>

theorem system_patch_gate:
  assumes "Sys_Patch env ctx i req w s = (Inr x, s')" "s_tx (s :: sess) = None" "core_ok (s_db s)"
  shows "\<exists>q row old. row \<in> set (db_entities (s_db s)) \<and> en_id row = i \<and> has_type (s_db s) ''System'' row
     \<and> system_of_row q row = Inr old \<and> x = (apply_patch req old)\<lparr>sy_UpdatedAt := sy_UpdatedAt x\<rparr>
     \<and> but_audit (s_db s') = but_audit ((s_db s)\<lparr>db_entities := map (\<lambda>e. if en_id e = i then stored_as x e else e) (db_entities (s_db s))\<rparr>)
     \<and> en_external_id (stored_as x row) = sy_Name x \<and> (\<forall>q'. system_of_row q' (stored_as x row) = Inr x) \<and> sp_Name req \<noteq> Some []
     \<and> (\<forall>c. ctx = Some c \<longrightarrow> \<not> id_IsPlatformAdmin c \<longrightarrow>
          id_ActiveSystemID c = Some i \<and> sy_Name x = sy_Name old \<and> sy_Active x = sy_Active old)"
proof -
  from assms(1) have name: "sp_Name req \<noteq> Some []" and gate: "patch_allowed env ctx i req = None"
    and run: "WithAuthScope ctx (Sys_patch_body env ctx i req) w s = (Inr x, s')"
    by (auto simp: Sys_Patch_def bind_Inr split: if_splits)
  obtain s1 s2 where db: "s_db s1 = s_db s" "s_db s' = s_db s2" and body: "Sys_patch_body env ctx i req w s1 = (Inr x, s2)"
    by (rule with_scope_Inr [OF run assms(2) sys_bodies_ok(2) [THEN preserving_keeps_snapshot]]) (rule that)
  from body obtain old s3 s4 e u where get: "Sys_repo_GetByID i w s1 = (Inr old, s3)"
    and up: "Sys_repo_Update (apply_patch req old) w s3 = (Inr x, s4)" and wr: "WriteFromContext env ctx e w s4 = (Inr u, s2)"
    by (auto simp: Sys_patch_body_def bind_Inr)
  from Sys_repo_GetByID_Inr [OF get] db obtain q row where row: "row \<in> set (db_entities (s_db s))" "en_id row = i"
    "has_type (s_db s) ''System'' row" "system_of_row q row = Inr old" and s3: "s_db s3 = s_db s" by auto
  from row(2,4) have old: "sy_ID old = i" "sy_CreatedAt old = en_created row" by (auto simp: system_of_row_def split: sum.splits)
  from Sys_repo_Update_Inr [OF up] s3 assms(3) old(1) obtain t where x: "x = (apply_patch req old)\<lparr>sy_UpdatedAt := t\<rparr>"
    and s4: "s_db s4 = (s_db s)\<lparr>db_entities := map (\<lambda>e. if en_id e = i then stored_as x e else e) (db_entities (s_db s))\<rparr>"
    by (auto simp: apply_patch_def)
  have ids: "sy_ID x = en_id row" "sy_CreatedAt x = en_created row" using x old row(2) by (simp_all add: apply_patch_def)
  have again: "system_of_row q' (stored_as x row) = Inr x" for q'
  proof -
    have "stored_as x row = (row\<lparr>en_external_id := sy_Name x, en_updated := sy_UpdatedAt x\<rparr>)\<lparr>en_properties := systemProperties x\<rparr>"
      by (simp add: stored_as_def)
    then show ?thesis by (simp only: system_of_row_properties) (simp add: ids [symmetric])
  qed
  have adm: "\<forall>c. ctx = Some c \<longrightarrow> \<not> id_IsPlatformAdmin c \<longrightarrow>
      id_ActiveSystemID c = Some i \<and> sy_Name x = sy_Name old \<and> sy_Active x = sy_Active old"
    using gate x by (auto simp: patch_allowed_def apply_patch_def split: if_splits)
  show ?thesis
    by (rule exI [of _ q], rule exI [of _ row], rule exI [of _ old])
      (use row name again adm WriteFromContext_but [OF wr] s4 db x in \<open>simp add: stored_as_def\<close>)
qed

end
