(* ===== verification/Core_Sample.thy ===== *)
theory Core_Sample
  imports Core_Overlay_Rules Core_Scope System_Rules
begin

section \<open>An installation, and requests on it\<close>

text \<open>
  Two systems, crm and hr, a user, a document type of the systems and an overlay schema, and the
  requests of an administrator of crm. The theorems of the management services are applied to them.
\<close>

subsection \<open>The installation\<close>

definition crm_row :: entity_row where
  "crm_row = sample_entity 12 3 ''crm'' (JObj [(''name'', JStr ''crm''), (''active'', JBool True)])"
definition hr_row :: entity_row where
  "hr_row = sample_entity 13 3 ''hr'' (JObj [(''name'', JStr ''hr''), (''active'', JBool True)])"
definition bob_row :: entity_row where
  "bob_row = sample_entity 10 1 ''bob'' (JObj [])"
definition note_row :: entity_row where
  "note_row = (sample_entity 14 4 ''note'' (JObj [(''title'', JStr ''n'')]))\<lparr>en_system_id := Some 12\<rparr>"

definition owners :: json where
  "owners = JObj [(''owned_by'', JObj [(''target_types'', JArr [JStr ''User''])])]"

definition doc_type :: type_row where
  "doc_type = (sample_type 4 ''Doc'')\<lparr>ty_allowed_properties := JObj [(''required'', JArr [JStr ''title''])],
     ty_allowed_relations := owners, ty_scope := ''system_scoped''\<rparr>"

definition crm_schema :: json where
  "crm_schema = JObj [(''properties'', JObj [(''crm.level'', JObj [])])]"

definition hr_overlay :: overlay_row where
  "hr_overlay = \<lparr>ov_id = 50, ov_entity = 10, ov_system = 13, ov_properties = JObj [(''hr.grade'', JNum ''3'')],
     ov_created = 0, ov_updated = 0\<rparr>"

definition crm_rule :: schema_row where
  "crm_rule = \<lparr>sc_id = 40, sc_system = 12, sc_type = 1, sc_allowed = crm_schema, sc_created = 0, sc_updated = 0\<rparr>"

definition core_db :: database where
  "core_db = \<lparr>db_types = [sample_type 1 ''User'', sample_type 2 ''Group'', sample_type 3 ''System'', doc_type],
     db_entities = [bob_row, crm_row, hr_row, note_row], db_identities = [], db_relations = [],
     db_overlays = [hr_overlay], db_schemas = [crm_rule], db_webhooks = [], db_audit = [],
     db_deliveries = [], db_retrievals = []\<rparr>"

definition crm_admin :: identity where
  "crm_admin = \<lparr>id_Subject = ''amy'', id_Provider = ''kc'', id_EntityID = 15, id_Groups = [''oad:admin''],
     id_AllowedSystems = [12], id_IsPlatformAdmin = False, id_IsSystemAdmin = True, id_ActiveSystemID = Some 12,
     id_AuthMode = ''jwt''\<rparr>"

definition core_env :: render_env where
  "core_env = \<lparr>re_uuid = (\<lambda>_. ''u''), re_sha256 = (\<lambda>s. s), re_time = (\<lambda>_. ''t''), re_url = (\<lambda>_. None)\<rparr>"

text \<open>A validator that looks at the required members only.\<close>

definition member_names :: "json \<Rightarrow> string list" where
  "member_names j = (case j of JObj kvs \<Rightarrow> map fst kvs | _ \<Rightarrow> [])"

definition required_names :: "json \<Rightarrow> string list" where
  "required_names j = (case jsonb_get j ''required'' of
     Some (JArr vs) \<Rightarrow> concat (map (\<lambda>v. case v of JStr s \<Rightarrow> [s] | _ \<Rightarrow> []) vs) | _ \<Rightarrow> [])"

definition required_lib :: "string list schema_lib" where
  "required_lib = \<lparr>js_AddResource = (\<lambda>_ _. None), js_Compile = (\<lambda>_ j. Inr (required_names j)),
     js_Validate = (\<lambda>req j. if set req \<subseteq> set (member_names j) then None else Some (Inr (VErr ''missing'' [])))\<rparr>"

lemma core_rows [simp]:
  "en_id crm_row = 12" "en_id hr_row = 13" "en_id bob_row = 10" "en_id note_row = 14"
  "en_type_id crm_row = 3" "en_type_id hr_row = 3" "en_type_id bob_row = 1" "en_type_id note_row = 4"
  "en_external_id crm_row = ''crm''" "en_external_id hr_row = ''hr''" "en_external_id bob_row = ''bob''" "en_external_id note_row = ''note''"
  "en_system_id crm_row = None" "en_system_id hr_row = None" "en_system_id bob_row = None" "en_system_id note_row = Some 12"
  "en_properties crm_row = JObj [(''name'', JStr ''crm''), (''active'', JBool True)]"
  "en_created crm_row = 0"
  "ty_id doc_type = 4" "ty_name doc_type = ''Doc''" "ty_scope doc_type = ''system_scoped''" "ty_allowed_relations doc_type = owners"
  "ty_allowed_properties doc_type = JObj [(''required'', JArr [JStr ''title''])]"
  "ty_id (sample_type u n) = u" "ty_name (sample_type u n) = n" "ty_scope (sample_type u n) = ''global''"
  "ty_allowed_properties (sample_type u n) = JObj []" "ty_allowed_relations (sample_type u n) = JObj []"
  "ov_id hr_overlay = 50" "ov_entity hr_overlay = 10" "ov_system hr_overlay = 13"
  "sc_id crm_rule = 40" "sc_system crm_rule = 12" "sc_type crm_rule = 1" "sc_allowed crm_rule = crm_schema"
  by (simp_all add: crm_row_def hr_row_def bob_row_def note_row_def doc_type_def hr_overlay_def crm_rule_def
      sample_entity_def sample_type_def)

lemma core_tables [simp]:
  "db_types core_db = [sample_type 1 ''User'', sample_type 2 ''Group'', sample_type 3 ''System'', doc_type]"
  "db_entities core_db = [bob_row, crm_row, hr_row, note_row]" "db_identities core_db = []" "db_relations core_db = []"
  "db_overlays core_db = [hr_overlay]" "db_schemas core_db = [crm_rule]" "db_webhooks core_db = []" "db_audit core_db = []"
  by (simp_all add: core_db_def)

lemma crm_admin_simps [simp]:
  "id_ActiveSystemID crm_admin = Some 12" "\<not> id_IsPlatformAdmin crm_admin"
  by (simp_all add: crm_admin_def)

lemma core_db_ok: "core_ok core_db"
  by (simp add: core_ok_def db_ok_def entity_ids_def type_ids_def relation_key_def)

subsection \<open>Runs\<close>

definition core_sess :: "database \<Rightarrow> nat \<Rightarrow> sess" where
  "core_sess d n = \<lparr>s_db = d, s_n = n, s_tx = None\<rparr>"

definition core_tx :: "gotime \<Rightarrow> database \<Rightarrow> nat \<Rightarrow> sess" where
  "core_tx m d n = \<lparr>s_db = d, s_n = n,
     s_tx = Some \<lparr>tx_snapshot = core_db, tx_now = m, tx_setting = SetSystem 12, tx_aborted = False\<rparr>\<rparr>"

definition core_ctx :: "gotime \<Rightarrow> setting \<Rightarrow> nat \<Rightarrow> query_ctx" where
  "core_ctx m v n = \<lparr>q_setting = v, q_now = m, q_uuid = of_nat (100 + n), q_bypass = False, q_render = (\<lambda>_. [])\<rparr>"

lemma core_exec:
  "f (core_ctx m (SetSystem 12) n) d = Inr (x, d') \<Longrightarrow> exec f sample_world (core_tx m d n) = (Inr x, core_tx m d' (Suc n))"
  "f (core_ctx (int n) SetEmpty n) d = Inr (x, d') \<Longrightarrow> exec f sample_world (core_sess d n) = (Inr x, core_sess d' (Suc n))"
  by (simp_all add: exec_def core_tx_def core_sess_def core_ctx_def sample_world_def)

lemma core_query:
  "query f sample_world (core_tx m d n) = (Inr (f (core_ctx m (SetSystem 12) n) d), core_tx m d (Suc n))"
  "query f sample_world (core_sess d n) = (Inr (f (core_ctx (int n) SetEmpty n) d), core_sess d (Suc n))"
  by (simp_all add: query_def core_exec)

lemma core_visible [simp]:
  "visible (core_ctx m (SetSystem 12) n) sys \<longleftrightarrow> sys = None \<or> sys = Some 12" "visible (core_ctx m SetEmpty n) sys"
  by (auto simp: visible_def core_ctx_def)

lemma core_ctx_simps [simp]: "q_now (core_ctx m v n) = m" "q_uuid (core_ctx m v n) = 100 + of_nat n"
  by (simp_all add: core_ctx_def)

text \<open>A transaction whose body succeeds.\<close>

lemma core_scope:
  assumes "fn sample_world (core_tx (int n) core_db (Suc (Suc n))) = (Inr x, core_tx m d k)"
  shows "WithAuthScope (Some crm_admin) fn sample_world (core_sess core_db n) = (Inr x, core_sess d (Suc k))"
proof -
  have b: "begin_tx sample_world (core_sess core_db n) = (Inr (), \<lparr>s_db = core_db, s_n = Suc n,
      s_tx = Some \<lparr>tx_snapshot = core_db, tx_now = int n, tx_setting = SetEmpty, tx_aborted = False\<rparr>\<rparr>)"
    by (simp add: begin_tx_def core_sess_def sample_world_def)
  have s: "set_system 12 sample_world \<lparr>s_db = core_db, s_n = Suc n,
      s_tx = Some \<lparr>tx_snapshot = core_db, tx_now = int n, tx_setting = SetEmpty, tx_aborted = False\<rparr>\<rparr>
      = (Inr (), core_tx (int n) core_db (Suc (Suc n)))"
    by (simp add: set_system_def query_def exec_def db_simps core_tx_def sample_world_def)
  have c: "commit_tx sample_world (core_tx m d k) = (Inr (), core_sess d (Suc k))"
    by (simp add: commit_tx_def core_tx_def core_sess_def sample_world_def)
  have r: "rollback (core_sess d (Suc k)) = core_sess d (Suc k)" by (simp add: rollback_def core_sess_def)
  show ?thesis
    by (simp add: WithAuthScope_def MustIdentity_def WithSystemScope_def with_tx_def db_simps b s c wrap_err_def assms r)
qed

definition admin_record :: "audit_entry \<Rightarrow> gotime \<Rightarrow> nat \<Rightarrow> audit_row" where
  "admin_record e m n = audit_row_of (e\<lparr>ae_actor := ActorString (re_uuid core_env) crm_admin, ae_system := Some 12\<rparr>)
     (core_ctx m (SetSystem 12) n)"

lemma core_audit:
  assumes "db_audit d = []" "ae_operation e \<in> {''create'', ''update'', ''delete''}"
  shows "WriteFromContext core_env (Some crm_admin) e sample_world (core_tx m d n)
    = (Inr (), core_tx m (d\<lparr>db_audit := [admin_record e m n]\<rparr>) (Suc n))"
  using assms by (simp add: WriteFromContext_def MustIdentity_def audit_Write_def wrap_err_def db_simps insert_audit_def
      core_exec admin_record_def)

lemma core_runs:
  assumes "\<exists>e d k. body sample_world (core_tx (int n) core_db (Suc (Suc n))) = (Inr e, core_tx m d k)"
  shows "\<exists>e s'. WithAuthScope (Some crm_admin) body sample_world (core_sess core_db n) = (Inr e, s')"
proof -
  from assms obtain e d k where "body sample_world (core_tx (int n) core_db (Suc (Suc n))) = (Inr e, core_tx m d k)" by blast
  then have "WithAuthScope (Some crm_admin) body sample_world (core_sess core_db n) = (Inr e, core_sess d (Suc k))"
    by (rule core_scope)
  then show ?thesis by blast
qed

lemmas core_steps = db_simps core_query core_exec core_audit OpCreate_def OpUpdate_def OpDelete_def
  query_row_def scan_row_def check_def wrap_err_def

lemma core_entities [simp]:
  "entities (core_ctx m v n) core_db = filter (\<lambda>e. visible (core_ctx m v n) (en_system_id e)) [bob_row, crm_row, hr_row, note_row]"
  by (simp add: entities_def)

lemma core_types [simp]:
  "find_type core_db ''System'' = Some (sample_type 3 ''System'')"
  "has_type core_db ''System'' e \<longleftrightarrow> en_type_id e = 3"
  by (auto simp: find_type_def has_type_def)

subsection \<open>Creating a document\<close>

definition memo_request :: ent_create_request where
  "memo_request = \<lparr>cr_Type = ''Doc'', cr_ExternalID = ''memo'', cr_Properties = Some (JObj [(''title'', JStr ''m'')]), cr_SystemID = None\<rparr>"

lemma memo_name [simp]: "cr_ExternalID memo_request = ''memo''" "cr_Type memo_request = ''Doc''"
  by (simp_all add: memo_request_def)

lemma memo_checked:
  "Ent_checked required_lib (Some crm_admin) memo_request sample_world (core_sess core_db n)
     = (Inr (doc_type, Some 12, Some (JObj [(''title'', JStr ''m'')])), core_sess core_db (Suc n))"
  by (simp add: Ent_checked_def memo_request_def check_def validateCreateRequest_def resolveType_def query_row_def scan_row_def
      core_query db_simps lift_api_def resolveEffectiveSystemID_def validateScopeConstraints_def default_props_def
      validateProperties_def against_schema_def compile_schema_def ValidateRaw_def validate_instance_def required_lib_def
      required_names_def member_names_def jsonb_get_def)

definition memo_row :: entity_row where
  "memo_row = \<lparr>en_id = 103, en_type_id = 4, en_external_id = ''memo'', en_properties = JObj [(''title'', JStr ''m'')],
     en_system_id = Some 12, en_builtin = False, en_created = 1, en_updated = 1\<rparr>"

lemma memo_run:
  "\<exists>e s'. Ent_Create required_lib core_env (Some crm_admin) memo_request sample_world (core_sess core_db 0)
     = (Inr e, s')"
proof -
  let ?e = "\<lparr>ent_ID = uuid_Nil, ent_TypeID = 4, ent_Type = ''Doc'', ent_ExternalID = ''memo'',
        ent_Properties = Some (JObj [(''title'', JStr ''m'')]), ent_SystemID = Some 12, ent_CreatedAt = 0, ent_UpdatedAt = 0\<rparr>"
  have "insert_entity 4 ''memo'' (JObj [(''title'', JStr ''m'')]) (Some 12) (core_ctx 1 (SetSystem 12) (Suc (Suc (Suc 0)))) core_db
      = Inr (memo_row, core_db\<lparr>db_entities := db_entities core_db @ [memo_row]\<rparr>)"
    by (simp add: insert_entity_def system_check_def memo_row_def Let_def)
  then have "\<exists>e d k. Ent_create_body core_env (Some crm_admin) ?e sample_world (core_tx (int (Suc 0)) core_db (Suc (Suc (Suc 0))))
      = (Inr e, core_tx 1 d k)"
    by (simp add: Ent_create_body_def Ent_repo_Create_def core_steps not_null_def memo_row_def ent_entry_def) blast
  from core_runs [of "Ent_create_body core_env (Some crm_admin) ?e" "(Suc 0)", OF this] show ?thesis
    by (auto simp: Ent_Create_def db_simps memo_checked map_err_def)
qed

subsection \<open>A new edge\<close>

definition owner_request :: rel_create_request where
  "owner_request = \<lparr>rc_SubjectEntityID = 14, rc_RelationType = ''owned_by'', rc_TargetEntityID = 10, rc_SystemID = Some 12\<rparr>"

lemma owners_entries: "relation_entries owners = Inr [(''owned_by'', [''User''])]"
  by (simp add: relation_entries_def owners_def decode_members_def map_entries_def allowedRelationEntry_def strings_ok_def
      field_matches_def)

lemma owner_run:
  "\<exists>e s'. Rel_Create core_env (Some crm_admin) owner_request sample_world (core_sess core_db 0) = (Inr e, s')"
proof -
  have ins: "\<exists>row. rl_id row = 104 \<and> insert_relation 14 ''owned_by'' 10 (Some 12) (core_ctx 0 (SetSystem 12) (Suc (Suc (Suc (Suc 0))))) core_db
      = Inr (row, core_db\<lparr>db_relations := [row]\<rparr>)"
    by (simp add: insert_relation_def system_check_def Let_def)
  then obtain row where "insert_relation 14 ''owned_by'' 10 (Some 12) (core_ctx 0 (SetSystem 12) (Suc (Suc (Suc (Suc 0))))) core_db
      = Inr (row, core_db\<lparr>db_relations := [row]\<rparr>)" by blast
  then have "\<exists>e d k. Rel_create_body core_env (Some crm_admin) owner_request sample_world (core_tx (int 0) core_db (Suc (Suc 0)))
      = (Inr e, core_tx 0 d k)"
    by (simp add: Rel_create_body_def owner_request_def getSubjectInfo_def getTargetTypeName_def typed_entity_def core_steps
        typed_entities_def lift_api_def extractRelationEntry_def owners_entries check_target_def Rel_repo_Create_def rel_entry_def) blast
  from core_runs [of "Rel_create_body core_env (Some crm_admin) owner_request" "0", OF this] show ?thesis
    by (auto simp: Rel_Create_def core_steps map_err_def Rel_validateCreateRequest_def owner_request_def)
qed

subsection \<open>A new overlay and a new overlay schema\<close>

lemma crm_caller:
  "resolveCallerSystem (Some crm_admin) sample_world (core_sess core_db n) = (Inr (12, ''crm''), core_sess core_db (Suc n))"
proof -
  have "active_flag q crm_row = Inr True" for q
    by (simp add: active_flag_def jsonb_text_def jsonb_get_def pg_bool_texts)
  then have "select_active_system 12 (core_ctx (int n) SetEmpty n) core_db = Inr (Some (Some ''crm''), core_db)"
    by (simp add: select_active_system_def jsonb_text_def jsonb_get_def)
  then show ?thesis by (simp add: resolveCallerSystem_def MustIdentity_def scan_text_def core_steps)
qed

lemma level_checked:
  "PO_checked required_lib (Some crm_admin) 10 (Some (JObj [(''crm.level'', JNum ''1'')])) sample_world (core_sess core_db 0)
     = (Inr 12, core_sess core_db (Suc (Suc (Suc 0))))"
  by (simp add: PO_checked_def core_steps crm_caller resolveEntity_def resolveOverlaySchema_def validateOverlayProperties_def
      PO_validateNamespacePrefix_def decode_members_def map_entries_def namespace_check_def Let_def against_schema_def
      compile_schema_def ValidateRaw_def validate_instance_def required_lib_def required_names_def jsonb_get_def crm_schema_def)

lemma level_run:
  "\<exists>e s'. PO_Create required_lib core_env (Some crm_admin) 10 (Some (JObj [(''crm.level'', JNum ''1'')])) sample_world (core_sess core_db 0)
     = (Inr e, s')"
proof -
  let ?n = "Suc (Suc (Suc 0))"
  let ?e = "\<lparr>po_ID = uuid_Nil, po_EntityID = 10, po_SystemID = 12, po_Properties = Some (JObj [(''crm.level'', JNum ''1'')]),
        po_CreatedAt = 0, po_UpdatedAt = 0\<rparr>"
  have "\<exists>row. insert_overlay 10 12 (JObj [(''crm.level'', JNum ''1'')]) (core_ctx 3 (SetSystem 12) (Suc (Suc ?n))) core_db
      = Inr (row, core_db\<lparr>db_overlays := [hr_overlay, row]\<rparr>)"
    by (simp add: insert_overlay_def system_check_def Let_def)
  then obtain row where "insert_overlay 10 12 (JObj [(''crm.level'', JNum ''1'')]) (core_ctx 3 (SetSystem 12) (Suc (Suc ?n))) core_db
      = Inr (row, core_db\<lparr>db_overlays := [hr_overlay, row]\<rparr>)" by blast
  then have "\<exists>e d k. PO_create_body core_env (Some crm_admin) ?e sample_world (core_tx (int ?n) core_db (Suc (Suc ?n)))
      = (Inr e, core_tx 3 d k)"
    by (simp add: PO_create_body_def PO_repo_Create_def core_steps not_null_def po_entry_def) blast
  from core_runs [of "PO_create_body core_env (Some crm_admin) ?e" "?n", OF this] show ?thesis
    by (auto simp: PO_Create_def core_steps level_checked map_err_def)
qed

definition badge_request :: os_create_request where
  "badge_request = \<lparr>oc_EntityTypeID = 2, oc_AllowedOverlayProperties = Some crm_schema\<rparr>"

lemma badge_run:
  "\<exists>e s'. OS_Create required_lib core_env (Some crm_admin) 12 badge_request sample_world (core_sess core_db 0) = (Inr e, s')"
proof -
  let ?e = "\<lparr>os_ID = uuid_Nil, os_SystemID = 12, os_EntityTypeID = 2, os_AllowedOverlayProperties = Some crm_schema,
        os_CreatedAt = 0, os_UpdatedAt = 0\<rparr>"
  have name: "resolveSystemName 12 sample_world (core_sess core_db 0) = (Inr ''crm'', core_sess core_db (Suc 0))"
    by (simp add: resolveSystemName_def scan_text_def core_steps jsonb_text_def jsonb_get_def)
  have valid: "validateSchema required_lib (Some crm_schema) ''crm'' = None"
    by (simp add: validateSchema_def ValidateIsJSONSchema_def required_lib_def OS_validateNamespacePrefix_def schema_keys_def
        crm_schema_def properties_ok_def field_matches_def namespace_check_def Let_def)
  have "\<exists>row. insert_schema 12 2 crm_schema (core_ctx 1 (SetSystem 12) (Suc (Suc (Suc 0)))) core_db
      = Inr (row, core_db\<lparr>db_schemas := [crm_rule, row]\<rparr>)"
    by (simp add: insert_schema_def system_check_def Let_def)
  then obtain row where "insert_schema 12 2 crm_schema (core_ctx 1 (SetSystem 12) (Suc (Suc (Suc 0)))) core_db
      = Inr (row, core_db\<lparr>db_schemas := [crm_rule, row]\<rparr>)" by blast
  then have "\<exists>e d k. OS_create_body core_env (Some crm_admin) ?e sample_world (core_tx (int (Suc 0)) core_db (Suc (Suc (Suc 0))))
      = (Inr e, core_tx 1 d k)"
    by (simp add: OS_create_body_def OS_repo_Create_def core_steps not_null_def os_entry_def) blast
  from core_runs [of "OS_create_body core_env (Some crm_admin) ?e" "(Suc 0)", OF this] show ?thesis
    by (auto simp: OS_Create_def core_steps map_err_def badge_request_def name valid)
qed

subsection \<open>Updates of an entity and of a system\<close>

lemma bob_update_run:
  "\<exists>e s'. Ent_Update required_lib core_env (Some crm_admin) 10 (Some (JObj [])) sample_world (core_sess core_db 0) = (Inr e, s')"
proof -
  have "\<exists>row. update_entities (\<lambda>q d e. en_id e = 10) (\<lambda>e. e\<lparr>en_properties := JObj []\<rparr>) (core_ctx 0 (SetSystem 12) (Suc (Suc (Suc (Suc 0))))) core_db
      = Inr ([row], core_db\<lparr>db_entities := [row, crm_row, hr_row, note_row]\<rparr>)"
    by (simp add: update_entities_def Let_def)
  then obtain row where "update_entities (\<lambda>q d e. en_id e = 10) (\<lambda>e. e\<lparr>en_properties := JObj []\<rparr>) (core_ctx 0 (SetSystem 12) (Suc (Suc (Suc (Suc 0))))) core_db
      = Inr ([row], core_db\<lparr>db_entities := [row, crm_row, hr_row, note_row]\<rparr>)" by blast
  then have "\<exists>e d k. Ent_update_body required_lib core_env (Some crm_admin) 10 (Some (JObj [])) sample_world (core_tx (int 0) core_db (Suc (Suc 0)))
      = (Inr e, core_tx 0 d k)"
    by (simp add: Ent_update_body_def Ent_repo_GetByID_def scanEntity_def core_steps typed_entities_def ent_of_row_def resolveType_def
      validateProperties_def against_schema_def compile_schema_def ValidateRaw_def validate_instance_def required_lib_def
      required_names_def jsonb_get_def Ent_repo_Update_def not_null_def ent_entry_def) blast
  from core_runs [of "Ent_update_body required_lib core_env (Some crm_admin) 10 (Some (JObj []))" 0, OF this] show ?thesis
    by (auto simp: Ent_Update_def core_steps map_err_def)
qed

definition about_crm :: sys_patch_request where
  "about_crm = \<lparr>sp_Name = None, sp_Description = Some ''sales'', sp_Active = None\<rparr>"

lemma patch_run:
  "\<exists>e s'. Sys_Patch core_env (Some crm_admin) 12 about_crm sample_world (core_sess core_db 0) = (Inr e, s')"
proof -
  have flag: "active_flag q crm_row = Inr True" for q
    by (simp add: active_flag_def jsonb_text_def jsonb_get_def pg_bool_texts)
  have "\<exists>e d k. Sys_patch_body core_env (Some crm_admin) 12 about_crm sample_world (core_tx (int 0) core_db (Suc (Suc 0)))
      = (Inr e, core_tx 0 d k)"
    by (simp add: Sys_patch_body_def Sys_repo_GetByID_def core_steps select_system_def system_rows_def systemTypeName_def
      system_of_row_def flag text_or_empty_def jsonb_text_def jsonb_get_def about_crm_def apply_patch_def Sys_repo_Update_def
      update_entities_key_def update_entities_def Let_def sys_entry_def) blast
  from core_runs [of "Sys_patch_body core_env (Some crm_admin) 12 about_crm" 0, OF this] show ?thesis
    by (auto simp: Sys_Patch_def core_steps map_err_def patch_allowed_def about_crm_def)
qed

subsection \<open>The theorems on these requests\<close>

abbreviation "amy \<equiv> Some crm_admin"
abbreviation "core_start \<equiv> core_sess core_db 0"

lemma core_start: "s_tx core_start = None" "s_db core_start = core_db" "\<not> w_indoubt sample_world n" "\<not> w_bypass_rls sample_world"
  by (simp_all add: core_sess_def sample_world_def)

theorem management_audited_witness:
  "\<exists>s' row. core_serve required_lib core_env amy (CreateEntity memo_request) sample_world core_start = (Inr (), s')
     \<and> db_audit (s_db s') = [row] \<and> op_logged core_env amy (OpCreate, ''entity'', None) row"
proof -
  from memo_run obtain e s' where "Ent_Create required_lib core_env amy memo_request sample_world core_start = (Inr e, s')" by blast
  then have run: "core_serve required_lib core_env amy (CreateEntity memo_request) sample_world core_start = (Inr (), s')"
    by (simp add: quietly_def db_simps)
  from management_audited [OF run core_start(1,3)] run show ?thesis by (simp add: core_start)
qed

theorem bulk_accounts_for_items_witness:
  "\<exists>r s'. BulkCreate required_lib core_env amy [memo_request] [] sample_world core_start = (Inr r, s')
     \<and> bk_Created r + bk_Updated r + length (bk_Errors r) = 1"
proof -
  from memo_run obtain e s' where "Ent_Create required_lib core_env amy memo_request sample_world core_start = (Inr e, s')" by blast
  then have "\<exists>r. BulkCreate required_lib core_env amy [memo_request] [] sample_world core_start = (Inr r, s')"
    by (simp add: BulkCreate_def bulk_item_def db_simps)
  then obtain r where run: "BulkCreate required_lib core_env amy [memo_request] [] sample_world core_start = (Inr r, s')" by blast
  from bulk_accounts_for_items [OF run core_start(1,3)] run show ?thesis by auto
qed

theorem entity_create_valid_witness:
  "\<exists>e s' row. Ent_Create required_lib core_env amy memo_request sample_world core_start = (Inr e, s')
     \<and> row \<in> set (db_entities (s_db s')) \<and> en_external_id row = ''memo'' \<and> en_system_id row = Some 12"
proof -
  from memo_run obtain e s' where run: "Ent_Create required_lib core_env amy memo_request sample_world core_start = (Inr e, s')" by blast
  from entity_create_valid [OF run core_start(1)] obtain row where
    "but_audit (s_db s') = but_audit ((s_db core_start)\<lparr>db_entities := db_entities (s_db core_start) @ [row]\<rparr>)"
    "en_external_id row = ''memo''" "en_system_id row = Some 12" by auto
  with run show ?thesis by (intro exI [of _ e] exI [of _ s'] exI [of _ row]) (auto dest: arg_cong [where f = db_entities] simp: but_audit_def)
qed

theorem entity_update_valid_witness:
  "\<exists>e s' now. Ent_Update required_lib core_env amy 10 (Some (JObj [])) sample_world core_start = (Inr e, s')
     \<and> but_audit (s_db s') = but_audit (core_db\<lparr>db_entities := [bob_row\<lparr>en_properties := JObj [], en_updated := now\<rparr>, crm_row, hr_row, note_row]\<rparr>)"
proof -
  from bob_update_run obtain e s' where run: "Ent_Update required_lib core_env amy 10 (Some (JObj [])) sample_world core_start = (Inr e, s')" by blast
  from entity_update_valid [OF run core_start(1)] core_db_ok run show ?thesis by (auto simp: core_start)
qed

theorem relation_create_allowed_witness:
  "\<exists>e s' row. Rel_Create core_env amy owner_request sample_world core_start = (Inr e, s')
     \<and> but_audit (s_db s') = but_audit (core_db\<lparr>db_relations := [row]\<rparr>) \<and> rl_subject row = 14 \<and> rl_target row = 10"
proof -
  from owner_run obtain e s' where run: "Rel_Create core_env amy owner_request sample_world core_start = (Inr e, s')" by blast
  from relation_create_allowed [OF run core_start(1)] run show ?thesis by (auto simp: core_start owner_request_def)
qed

theorem overlay_write_valid_witness:
  "\<exists>e s' row. PO_Create required_lib core_env amy 10 (Some (JObj [(''crm.level'', JNum ''1'')])) sample_world core_start = (Inr e, s')
     \<and> row \<in> set (db_overlays (s_db s')) \<and> ov_system row = 12 \<and> ov_entity row = 10"
proof -
  from level_run obtain e s' where
    run: "PO_Create required_lib core_env amy 10 (Some (JObj [(''crm.level'', JNum ''1'')])) sample_world core_start = (Inr e, s')" by blast
  from overlay_write_valid [OF disjI1 [OF run] core_start(1)] run show ?thesis by auto
qed

theorem overlay_schema_namespaced_witness:
  "\<exists>e s' row. OS_Create required_lib core_env amy 12 badge_request sample_world core_start = (Inr e, s')
     \<and> row \<in> set (db_schemas (s_db s')) \<and> sc_system row = 12 \<and> sc_allowed row = crm_schema"
proof -
  from badge_run obtain e s' where run: "OS_Create required_lib core_env amy 12 badge_request sample_world core_start = (Inr e, s')" by blast
  then have "OS_Create required_lib core_env amy 12 badge_request sample_world core_start = (Inr e, s')
      \<and> oc_AllowedOverlayProperties badge_request = Some crm_schema" by (simp add: badge_request_def)
  from overlay_schema_namespaced [OF disjI1 [OF this] core_start(1)] run show ?thesis by auto
qed


theorem global_types_for_admins_witness:
  "sample_type 1 ''User'' \<in> set (db_types (s_db (snd (core_serve required_lib core_env amy (DeleteType 1) sample_world core_start))))"
proof -
  have na: "\<not> id_IsPlatformAdmin c" if "amy = Some c" for c using that by auto
  have ok: "core_ok (s_db core_start)" by (simp add: core_start core_db_ok)
  have same: "global_types (s_db (snd (core_serve required_lib core_env amy (DeleteType 1) sample_world core_start))) = global_types (s_db core_start)"
    by (rule global_types_for_admins [OF prod.collapse [symmetric] core_start(1) ok na])
  have "sample_type 1 ''User'' \<in> set (global_types (s_db core_start))" by (simp add: global_types_def ScopeGlobal_def core_start)
  from this [folded same] show ?thesis by (simp only: global_types_def set_filter mem_Collect_eq)
qed

theorem system_patch_gate_witness:
  "\<exists>x s'. Sys_Patch core_env amy 12 about_crm sample_world core_start = (Inr x, s') \<and> sy_Name x = ''crm'' \<and> sy_Description x = ''sales'' \<and> sy_Active x"
proof -
  from patch_run obtain x s' where run: "Sys_Patch core_env amy 12 about_crm sample_world core_start = (Inr x, s')" by blast
  from system_patch_gate [OF run core_start(1)] core_db_ok obtain q old where old: "system_of_row q crm_row = Inr old"
    and x: "x = (apply_patch about_crm old)\<lparr>sy_UpdatedAt := sy_UpdatedAt x\<rparr>" by (auto simp: core_start)
  have "sy_Name old = ''crm'' \<and> sy_Active old" using old
    by (auto simp: system_of_row_def active_flag_def jsonb_text_def jsonb_get_def pg_bool_texts text_or_empty_def)
  moreover have "sy_Name x = sy_Name old \<and> sy_Description x = ''sales'' \<and> sy_Active x = sy_Active old"
    by (subst (1 2 3) x) (simp add: apply_patch_def about_crm_def)
  ultimately show ?thesis using run by (intro exI [of _ x] exI [of _ s']) simp
qed

end
