(* ===== verification/Retrieval_Rules.thy ===== *)
theory Retrieval_Rules
  imports Retrieval Core_Rules "HOL-Library.Multiset"
begin

section \<open>What the retrieval service returns\<close>

text \<open>
  The merge of an overlay against its specification by paths, the separation of systems in what is
  read, and the completeness of paging.
\<close>

subsection \<open>Merging by paths\<close>

text \<open>
  Looking up a path in the merged document: \<open>under_ns\<close> is the overlay's value for a member of a
  namespace, \<open>plain\<close> the value of a key before namespaces are looked at.
\<close>

definition under_ns :: "json gomap \<Rightarrow> string \<Rightarrow> string \<Rightarrow> json option" where
  "under_ns c ns sub = (if ns \<noteq> [] \<and> CHR ''.'' \<notin> set ns then map_of (rev c) (ns @ ''.'' @ sub) else None)"

definition plain :: "json gomap \<Rightarrow> json gomap \<Rightarrow> string \<Rightarrow> json option" where
  "plain b c k = (if split_key k = None \<and> map_of (rev c) k \<noteq> None then map_of (rev c) k else map_of (rev b) k)"

definition members :: "json option \<Rightarrow> string \<Rightarrow> json option" where
  "members j sub = (case j of Some (JObj kvs) \<Rightarrow> map_of (rev kvs) sub | _ \<Rightarrow> None)"

definition merged_at :: "json gomap \<Rightarrow> json gomap \<Rightarrow> string \<Rightarrow> json option \<Rightarrow> bool" where
  "merged_at b c k r \<longleftrightarrow>
     (if \<forall>sub. under_ns c k sub = None then r = plain b c k
      else \<exists>obj. r = Some (JObj obj) \<and> sorted (map fst obj) \<and> distinct (map fst obj)
             \<and> (\<forall>sub. map_of obj sub = (case under_ns c k sub of Some v \<Rightarrow> Some v | None \<Rightarrow> members (plain b c k) sub)))"

lemma IndexByte_split: "IndexByte k b = Some n \<longleftrightarrow> (\<exists>x y. k = x @ b # y \<and> b \<notin> set x \<and> length x = n)"
proof
  assume i: "IndexByte k b = Some n"
  note IndexByte_Some [OF i]
  then show "\<exists>x y. k = x @ b # y \<and> b \<notin> set x \<and> length x = n"
    by (intro exI [of _ "take n k"] exI [of _ "drop (Suc n) k"]) (auto simp: id_take_nth_drop)
qed (auto simp: IndexByte_append)

lemma split_key_Some: "split_key k = Some (ns, sub) \<longleftrightarrow> k = ns @ ''.'' @ sub \<and> ns \<noteq> [] \<and> CHR ''.'' \<notin> set ns"
proof (cases "IndexByte k (CHR ''.'')")
  case None
  then show ?thesis by (auto simp: split_key_def IndexByte_append)
next
  case (Some n)
  then obtain x y where k: "k = x @ CHR ''.'' # y" "CHR ''.'' \<notin> set x" "length x = n" by (auto simp: IndexByte_split)
  have "split_key k = (if x \<noteq> [] then Some (x, y) else None)" using k Some by (auto simp: split_key_def)
  moreover have "x @ CHR ''.'' # y = ns @ CHR ''.'' # sub \<longleftrightarrow> x = ns \<and> y = sub" if "CHR ''.'' \<notin> set ns"
  proof
    assume e: "x @ CHR ''.'' # y = ns @ CHR ''.'' # sub"
    have "length x = length ns"
      using IndexByte_append [OF k(2), of y] IndexByte_append [OF that, of sub] by (simp add: e)
    with e show "x = ns \<and> y = sub" by simp
  qed simp
  ultimately show ?thesis using k(1,2) by auto
qed

text \<open>Grouping: the flat keys go into the base, the others into their group.\<close>

definition group_at :: "json gomap gomap \<Rightarrow> string \<Rightarrow> string \<Rightarrow> json option" where
  "group_at n ns sub = (case map_of n ns of None \<Rightarrow> None | Some m \<Rightarrow> map_of m sub)"

definition groups_ok :: "json gomap gomap \<Rightarrow> bool" where
  "groups_ok n \<longleftrightarrow> distinct (map fst n) \<and> (\<forall>(ns, m) \<in> set n. m \<noteq> [] \<and> distinct (map fst m))"

lemma groups_ok_group: "groups_ok n \<Longrightarrow> map_of n ns = Some m \<Longrightarrow> m \<noteq> [] \<and> distinct (map fst m)"
  by (auto simp: groups_ok_def dest!: map_of_SomeD)

lemma groups_ok_none:
  assumes "groups_ok n"
  shows "map_of n ns = None \<longleftrightarrow> (\<forall>sub. group_at n ns sub = None)"
proof (cases "map_of n ns")
  case (Some m)
  with groups_ok_group [OF assms] obtain k v m' where "m = (k, v) # m'" by (metis neq_Nil_conv prod.collapse)
  then have "group_at n ns k = Some v" by (simp add: group_at_def Some)
  with Some show ?thesis by auto
qed (simp add: group_at_def)

lemma groups_ok_update:
  assumes "groups_ok n" "m \<noteq> []" "distinct (map fst m)"
  shows "groups_ok (AList.update ns m n)"
proof -
  have "(x, y) \<in> set (AList.update ns m n) \<Longrightarrow> (x, y) \<in> set n \<or> y = m" for x y
    by (induction n) (auto split: if_splits)
  with assms show ?thesis by (fastforce simp: groups_ok_def distinct_update)
qed

lemma update_nonempty: "AList.update k v m \<noteq> []"
  by (cases m) (auto split: if_splits)

definition overlay_spec :: "json gomap \<Rightarrow> json gomap \<Rightarrow> json gomap gomap \<Rightarrow> json gomap \<Rightarrow> json gomap gomap \<Rightarrow> bool" where
  "overlay_spec c b n b' n' \<longleftrightarrow>
     (\<forall>k. map_of b' k = (if split_key k = None \<and> map_of c k \<noteq> None then map_of c k else map_of b k))
     \<and> (\<forall>k ns sub. split_key k = Some (ns, sub) \<longrightarrow> group_at n' ns sub = (if map_of c k \<noteq> None then map_of c k else group_at n ns sub))
     \<and> (\<forall>ns sub. split_key (ns @ ''.'' @ sub) \<noteq> Some (ns, sub) \<longrightarrow> group_at n' ns sub = group_at n ns sub)"

lemma group_overlay_spec:
  assumes "group_overlay c (b, n) = (b', n')" "distinct (map fst c)" "groups_ok n" "distinct (map fst b)"
  shows "groups_ok n' \<and> distinct (map fst b') \<and> overlay_spec c b n b' n'"
  using assms
proof (induction c arbitrary: b n)
  case Nil
  then show ?case by (simp add: overlay_spec_def)
next
  case (Cons kv c)
  obtain k v where kv: "kv = (k, v)" by fastforce
  have new: "map_of c k = None" using Cons.prems(2) by (simp add: kv map_of_eq_None_iff)
  show ?case
  proof (cases "split_key k")
    case None
    have "group_overlay c (AList.update k v b, n) = (b', n')" using Cons.prems(1) None by (simp add: kv)
    from Cons.IH [OF this] Cons.prems(2-4) have ih: "groups_ok n' \<and> distinct (map fst b') \<and> overlay_spec c (AList.update k v b) n b' n'"
      by (simp add: kv distinct_update)
    then have "overlay_spec (kv # c) b n b' n'"
      using None new unfolding overlay_spec_def kv update_conv' by (simp split: if_splits)
    with ih show ?thesis by blast
  next
    case (Some p)
    obtain ns sub where p: "split_key k = Some (ns, sub)" using Some by (cases p) auto
    let ?m = "case map_of n ns of None \<Rightarrow> [] | Some m \<Rightarrow> m"
    let ?n = "AList.update ns (AList.update sub v ?m) n"
    have dm: "distinct (map fst ?m)" using groups_ok_group [OF Cons.prems(3), of ns] by (auto split: option.splits)
    have ok: "groups_ok ?n" by (intro groups_ok_update Cons.prems(3) update_nonempty distinct_update dm)
    have at: "group_at ?n x y = (if x = ns \<and> y = sub then Some v else group_at n x y)" for x y
      by (auto simp: group_at_def update_conv' split: option.splits)
    have "group_overlay c (b, ?n) = (b', n')" using Cons.prems(1) p by (simp add: kv)
    from Cons.IH [OF this _ ok Cons.prems(4)] Cons.prems(2)
    have ih: "groups_ok n' \<and> distinct (map fst b') \<and> overlay_spec c b ?n b' n'" by (simp add: kv)
    have key: "split_key j = Some (ns, sub) \<longleftrightarrow> j = k" for j using p by (auto simp: split_key_Some)
    have "overlay_spec (kv # c) b n b' n'"
      unfolding overlay_spec_def kv
    proof (intro conjI allI impI)
      fix j show "map_of b' j = (if split_key j = None \<and> map_of ((k, v) # c) j \<noteq> None then map_of ((k, v) # c) j else map_of b j)"
        using ih p by (auto simp: overlay_spec_def)
    next
      fix j x y assume j: "split_key j = Some (x, y)"
      with ih have "group_at n' x y = (if map_of c j \<noteq> None then map_of c j else group_at ?n x y)" by (simp add: overlay_spec_def)
      then show "group_at n' x y = (if map_of ((k, v) # c) j \<noteq> None then map_of ((k, v) # c) j else group_at n x y)"
        using key [of j] j new at [of x y] by (cases "j = k") auto
    next
      fix x y assume a: "split_key (x @ ''.'' @ y) \<noteq> Some (x, y)"
      then have "\<not> (x = ns \<and> y = sub)" using p by (auto simp: split_key_Some)
      then have "group_at ?n x y = group_at n x y" unfolding at by (rule if_not_P)
      moreover have "group_at n' x y = group_at ?n x y" using ih a unfolding overlay_spec_def by blast
      ultimately show "group_at n' x y = group_at n x y" by (rule trans [rotated])
    qed
    with ih show ?thesis by blast
  qed
qed

text \<open>Copying a group into the object that is there.\<close>

definition object_at :: "json option \<Rightarrow> json gomap" where
  "object_at j = (case j of Some (JObj kvs) \<Rightarrow> decode_members kvs | _ \<Rightarrow> [])"

lemma maps_Copy_spec:
  "distinct (map fst src) \<Longrightarrow> distinct (map fst dst) \<Longrightarrow>
   map_of (maps_Copy dst src) = map_of dst ++ map_of src \<and> distinct (map fst (maps_Copy dst src))"
  unfolding maps_Copy_def
proof (induction src arbitrary: dst)
  case (Cons kv src)
  obtain k v where kv: "kv = (k, v)" by fastforce
  have "map_of src k = None" using Cons.prems(1) by (simp add: kv map_of_eq_None_iff)
  then have "(map_of dst)(k \<mapsto> v) ++ map_of src = map_of dst ++ map_of ((k, v) # src)"
    by (auto simp: fun_eq_iff map_add_def split: option.splits)
  moreover have "map_of (AList.update k v dst) = (map_of dst)(k \<mapsto> v)" by (rule update_conv')
  moreover have "distinct (map fst src)" "distinct (map fst (AList.update k v dst))" using Cons.prems by (simp_all add: kv distinct_update)
  note Cons.IH [OF this]
  ultimately show ?case by (simp only: kv fold.simps o_apply prod.case)
qed simp

lemma merge_groups_spec:
  assumes "groups_ok gs" "distinct (map fst base)"
  shows "case merge_groups gs base of
      Inl e \<Rightarrow> \<exists>ns. map_of gs ns \<noteq> None \<and> map_of base ns = Some JNull
    | Inr m \<Rightarrow> distinct (map fst m) \<and> (\<forall>k. case map_of gs k of None \<Rightarrow> map_of m k = map_of base k
        | Some sub \<Rightarrow> map_of base k \<noteq> Some JNull \<and> (\<exists>ob. map_of m k = Some (marshal_map ob) \<and> distinct (map fst ob)
            \<and> map_of ob = map_of (object_at (map_of base k)) ++ map_of sub))"
  using assms
proof (induction gs arbitrary: base)
  case (Cons g groups)
  obtain ns sub where g: "g = (ns, sub)" by fastforce
  have ok: "groups_ok groups" "distinct (map fst sub)" and new: "map_of groups ns = None"
    using Cons.prems(1) by (auto simp: groups_ok_def map_of_eq_None_iff g)
  let ?step = "\<lambda>ob. merge_groups ((ns, sub) # groups) base = merge_groups groups (AList.update ns (marshal_map ob) base)
      \<and> distinct (map fst ob) \<and> map_of ob = map_of (object_at (map_of base ns)) ++ map_of sub"
  show ?case
  proof (cases "map_of base ns = Some JNull")
    case True
    then show ?thesis by (auto simp: g)
  next
    case False
    have "\<exists>ob. ?step ob"
    proof (cases "\<exists>kvs. map_of base ns = Some (JObj kvs)")
      case True
      then obtain kvs where "map_of base ns = Some (JObj kvs)" by blast
      with maps_Copy_spec [OF ok(2) distinct_decode_members [of kvs]] show ?thesis
        by (intro exI [of _ "maps_Copy (decode_members kvs) sub"]) (simp add: object_at_def)
    next
      case no: False
      show ?thesis
      proof (cases "map_of base ns")
        case None
        with ok(2) show ?thesis by (intro exI [of _ sub]) (simp add: object_at_def)
      next
        case (Some j)
        with no False ok(2) show ?thesis by (intro exI [of _ sub]) (cases j; simp add: object_at_def)
      qed
    qed
    then obtain ob where ob: "?step ob" by blast
    let ?b = "AList.update ns (marshal_map ob) base"
    have b: "map_of ?b = (map_of base)(ns \<mapsto> marshal_map ob)" by (rule update_conv')
    note ih = Cons.IH [OF ok(1) distinct_update [OF Cons.prems(2)], of ns "marshal_map ob"]
    show ?thesis
    proof (cases "merge_groups groups ?b")
      case (Inl e)
      with ih obtain x where "map_of groups x \<noteq> None" "map_of ?b x = Some JNull" by auto
      with new b have "map_of (g # groups) x \<noteq> None \<and> map_of base x = Some JNull" by (auto simp: g split: if_splits)
      with ob Inl show ?thesis by (auto simp: g)
    next
      case (Inr m)
      have "case map_of (g # groups) k of None \<Rightarrow> map_of m k = map_of base k
        | Some sub \<Rightarrow> map_of base k \<noteq> Some JNull \<and> (\<exists>ob. map_of m k = Some (marshal_map ob) \<and> distinct (map fst ob)
            \<and> map_of ob = map_of (object_at (map_of base k)) ++ map_of sub)" for k
      proof (cases "k = ns")
        case True
        from ih Inr new have "map_of m ns = map_of ?b ns" by (auto dest: spec [of _ ns])
        with ob False True b show ?thesis by (auto simp: g)
      next
        case ne: False
        from ih Inr have "case map_of groups k of None \<Rightarrow> map_of m k = map_of ?b k
          | Some sub \<Rightarrow> map_of ?b k \<noteq> Some JNull \<and> (\<exists>ob. map_of m k = Some (marshal_map ob) \<and> distinct (map fst ob)
            \<and> map_of ob = map_of (object_at (map_of ?b k)) ++ map_of sub)" by auto
        moreover have "map_of ?b k = map_of base k" using ne b by simp
        ultimately show ?thesis using ne by (cases "map_of groups k") (simp_all add: g)
      qed
      with ih Inr ob show ?thesis by (simp add: g)
    qed
  qed
qed simp

lemma marshal_members:
  fixes m :: "json gomap"
  assumes "distinct (map fst m)"
  shows "map_of (sort_key fst m) = map_of m" "sorted (map fst (sort_key fst m))" "distinct (map fst (sort_key fst m))"
proof -
  show d: "distinct (map fst (sort_key fst m))" using assms by (simp add: distinct_map)
  show "map_of (sort_key fst m) = map_of m" by (rule map_of_eqI) (use d assms in \<open>auto simp: map_of_eq_Some_iff dom_map_of_conv_image_fst\<close>)
qed simp

lemma object_at_members: "map_of (object_at j) = members j"
  by (auto simp: object_at_def members_def map_of_decode_members fun_eq_iff split: option.splits json.splits)

text \<open>
  C33. The merge of an overlay into the properties follows the paths: a key without a namespace is the
  overlay's if it has one there and the base's otherwise; under a namespace the document holds an
  object whose members are the overlay's and, where it has none, those of the object in the base; the
  keys come sorted and once. It panics exactly when the base holds null under a namespace the overlay
  writes to.
\<close>

theorem overlay_merge:
  "case mergeJSON (Some (JObj b)) (Some (JObj c)) of
     Inl e \<Rightarrow> \<exists>ns sub. plain b c ns = Some JNull \<and> under_ns c ns sub \<noteq> None
   | Inr r \<Rightarrow> (\<exists>m. r = Some (JObj m) \<and> sorted (map fst m) \<and> distinct (map fst m) \<and> (\<forall>k. merged_at b c k (map_of m k)))
       \<and> \<not> (\<exists>ns sub. plain b c ns = Some JNull \<and> under_ns c ns sub \<noteq> None)"
proof -
  obtain b' n' where g: "group_overlay (decode_members c) (decode_members b, []) = (b', n')" by fastforce
  have "groups_ok []" by (simp add: groups_ok_def)
  from group_overlay_spec [OF g distinct_decode_members this distinct_decode_members]
  have spec: "groups_ok n'" "distinct (map fst b')" "overlay_spec (decode_members c) (decode_members b) [] b' n'" by auto
  have flat: "map_of b' k = plain b c k" for k
    using spec(3) by (simp add: overlay_spec_def plain_def map_of_decode_members)
  have grp: "group_at n' ns sub = under_ns c ns sub" for ns sub
    using spec(3) split_key_Some [of "ns @ ''.'' @ sub" ns sub]
    by (auto simp: overlay_spec_def under_ns_def map_of_decode_members group_at_def)
  have run: "mergeJSON (Some (JObj b)) (Some (JObj c)) = map_sum id (\<lambda>m. Some (marshal_map m)) (merge_groups n' b')"
    by (simp add: mergeJSON_def map_entries_def g)
  note m = merge_groups_spec [OF spec(1,2)]
  have none: "map_of n' ns = None \<longleftrightarrow> (\<forall>sub. under_ns c ns sub = None)" for ns
    by (simp add: groups_ok_none [OF spec(1)] grp)
  show ?thesis
  proof (cases "merge_groups n' b'")
    case (Inl e)
    with m none flat obtain ns where "plain b c ns = Some JNull" "\<exists>sub. under_ns c ns sub \<noteq> None" by auto
    with run Inl show ?thesis by auto
  next
    case (Inr x)
    note x = m [unfolded Inr sum.case]
    note xk = x [THEN conjunct2, THEN HOL.spec]
    have at: "merged_at b c k (map_of x k) \<and> ((\<forall>sub. under_ns c k sub = None) \<or> plain b c k \<noteq> Some JNull)" for k
    proof (cases "map_of n' k")
      case None
      with xk [of k] none flat show ?thesis by (simp add: merged_at_def)
    next
      case (Some sub)
      with xk [of k] flat obtain ob where n: "plain b c k \<noteq> Some JNull" and ob: "map_of x k = Some (marshal_map ob)" "distinct (map fst ob)"
        "map_of ob = map_of (object_at (plain b c k)) ++ map_of sub" by auto
      have "map_of sub y = under_ns c k y" for y using grp [of k y] Some by (simp add: group_at_def)
      then have "map_of ob y = (case under_ns c k y of Some v \<Rightarrow> Some v | None \<Rightarrow> members (plain b c k) y)" for y
        by (simp add: ob(3) object_at_members map_add_def)
      with marshal_members [OF ob(2)] have "merged_at b c k (map_of x k)"
        using none [of k] Some by (auto simp: merged_at_def ob(1) marshal_map_def)
      with n show ?thesis by blast
    qed
    have "x = x \<and> distinct (map fst x)" using x by simp
    with marshal_members [of x] have "\<exists>m. JObj (sort_key fst x) = JObj m \<and> sorted (map fst m) \<and> distinct (map fst m)
        \<and> (\<forall>k. merged_at b c k (map_of m k))" using at by auto
    moreover have "\<not> (\<exists>ns sub. plain b c ns = Some JNull \<and> under_ns c ns sub \<noteq> None)"
    proof (intro notI, elim exE conjE)
      fix ns sub assume "plain b c ns = Some JNull" "under_ns c ns sub \<noteq> None"
      with at [of ns] show False by auto
    qed
    ultimately show ?thesis unfolding run Inr by (simp add: marshal_map_def)
  qed
qed

subsection \<open>Who reads what\<close>

lemma logRetrieval_Inr:
  assumes "logRetrieval ctx sys params refs w s = (Inr x, s')"
  shows "\<exists>i. ctx = Some i"
  using assms by (auto simp: logRetrieval_def bind_Inr)

text \<open>Every list operation returns at most the page it was asked for, and the page size has its bounds.\<close>

lemma filter_page:
  assumes "Filter contains env ctx tn flt limit offset w s = (Inr r, s')"
  shows "rg_Limit r = clamp_limit 25 100 limit \<and> length (rg_Items r) \<le> nat (rg_Limit r)"
  using assms
  by (auto simp: Filter_def Let_def bind_Inr FilterByProperties_def wrap_err_Inr dest!: query_page_Inr split: option.splits prod.splits
      intro: length_page)

lemma changelog_page:
  assumes "ListChangelog env ctx since sys limit offset w s = (Inr r, s')"
  shows "rg_Limit r = clamp_limit 25 100 limit \<and> length (rg_Items r) \<le> nat (rg_Limit r)"
  using assms
  by (auto simp: ListChangelog_def Let_def bind_Inr Ret_repo_ListChangelog_def wrap_err_Inr dest!: query_page_Inr split: prod.splits
      intro: length_page)

lemma export_page:
  assumes "Export coll env ctx tn sys limit offset w s = (Inr r, s')"
  shows "rg_Limit r = clamp_limit 100 500 limit \<and> length (rg_Items r) \<le> nat (rg_Limit r)"
  using assms
  by (auto simp: Export_def Let_def bind_Inr ExportEntities_def wrap_err_Inr dest!: query_page_Inr split: prod.splits if_splits
      intro: length_page)

subsection \<open>Paging through the export\<close>

text \<open>A client that asks for \<open>n\<close> pages in turn, from page \<open>k\<close>.\<close>

fun export_walk ::
  "(string \<Rightarrow> nat) \<Rightarrow> render_env \<Rightarrow> request_context \<Rightarrow> string \<Rightarrow> nat \<Rightarrow> nat \<Rightarrow> nat \<Rightarrow> export_item list db" where
  "export_walk coll env ctx tn l k 0 = ret []"
| "export_walk coll env ctx tn l k (Suc n) =
     bind (Export coll env ctx tn None (int l) (int (k * l))) (\<lambda>p.
     bind (export_walk coll env ctx tn l (Suc k) n) (\<lambda>items. ret (rg_Items p @ items)))"

definition export_order :: "query_ctx \<Rightarrow> string \<Rightarrow> database \<Rightarrow> uuid list" where
  "export_order q tn d = map (\<lambda>(e, t). en_id e) (sort_key (\<lambda>(e, t). (en_created e, en_id e)) (ent_list_rows tn q d))"

definition same_entities :: "database \<Rightarrow> database \<Rightarrow> bool" where
  "same_entities d d' \<longleftrightarrow> db_entities d' = db_entities d \<and> db_types d' = db_types d"

lemma export_order_same: "same_entities d d' \<Longrightarrow> export_order q tn d' = export_order q tn d"
  by (simp add: export_order_def ent_list_rows_def typed_entities_def entities_def same_entities_def)

lemma export_order_ctx: "export_order (ctx_at w v n) tn d = export_order (view_ctx w v) tn d"
  by (simp add: export_order_def ent_list_rows_def typed_entities_def entities_def ctx_at_def view_ctx_def visible_def)

lemma log_quiet:
  assumes "quiet w v" "s_tx s = None"
  shows "\<exists>s'. logRetrieval (Some i) sys params refs w s = (Inr (), s') \<and> same_entities (s_db s) (s_db s') \<and> s_tx s' = None"
  by (simp add: logRetrieval_def MustIdentity_def WriteLog_def wrap_err_def db_simps quiet_exec [OF assms] insert_retrieval_def
      same_entities_def assms)

lemma ExportEntities_quiet:
  assumes "quiet w v" "s_tx s = None"
  shows "\<exists>items tot s'. ExportEntities coll tn sys (int l) (int m) w s = (Inr (items, tot), s') \<and> s_db s' = s_db s \<and> s_tx s' = None
     \<and> map mv_ID items = take l (drop m (export_order (view_ctx w v) tn (s_db s)))"
proof -
  let ?rows = "\<lambda>q. page (int l) (int m) (sort_key (\<lambda>(e, t). (en_created e, en_id e)) (ent_list_rows tn q (s_db s)))"
  have ids: "map mv_ID (map view_of_row (?rows (ctx_at w v n))) = take l (drop m (export_order (view_ctx w v) tn (s_db s)))" for n
  proof -
    have "map mv_ID (map view_of_row xs) = map (\<lambda>(e, t). en_id e) xs" for xs by (auto simp: view_of_row_def)
    then have "map mv_ID (map view_of_row (?rows (ctx_at w v n))) = take l (drop m (export_order (ctx_at w v n) tn (s_db s)))"
      by (simp add: page_def export_order_def take_map drop_map)
    then show ?thesis by (simp only: export_order_ctx)
  qed
  define s1 where "s1 = s\<lparr>s_n := Suc (s_n s)\<rparr>"
  define s2 where "s2 = s1\<lparr>s_n := Suc (s_n s1)\<rparr>"
  have tx: "s_tx s1 = None" "s_tx s2 = None" and db: "s_db s1 = s_db s" "s_db s2 = s_db s" using assms(2) by (simp_all add: s1_def s2_def)
  have q1: "query f w s = (Inr (f (ctx_at w v (s_n s)) (s_db s)), s1)" for f :: "query_ctx \<Rightarrow> database \<Rightarrow> nat"
    by (simp add: quiet_query [OF assms] s1_def)
  have q2: "query_page (int l) (int m) f w s1 = (Inr (page (int l) (int m) (f (ctx_at w v (s_n s1)) (s_db s))), s2)"
    for f :: "query_ctx \<Rightarrow> database \<Rightarrow> (entity_row \<times> type_row) list"
    by (simp add: query_page_def quiet_exec [OF assms(1) tx(1)] limit_offset_def db s2_def)
  let ?items = "map view_of_row (?rows (ctx_at w v (s_n s1)))"
  show ?thesis
  proof (cases "?items = []")
    case True
    then have "ExportEntities coll tn sys (int l) (int m) w s = (Inr ([], length (ent_list_rows tn (ctx_at w v (s_n s)) (s_db s))), s2)"
      by (simp add: ExportEntities_def wrap_err_def db_simps q1 q2)
    with True ids [of "s_n s1"] tx db show ?thesis by simp
  next
    case False
    then have "\<exists>items. ExportEntities coll tn sys (int l) (int m) w s
        = (Inr (items, length (ent_list_rows tn (ctx_at w v (s_n s)) (s_db s))), s2\<lparr>s_n := Suc (s_n s2)\<rparr>) \<and> map mv_ID items = map mv_ID ?items"
      by (simp add: ExportEntities_def wrap_err_def db_simps q1 q2 quiet_query [OF assms(1) tx(2)] Let_def comp_def)
    with ids [of "s_n s1"] tx db show ?thesis by fastforce
  qed
qed

lemma export_quiet:
  assumes "quiet w v" "s_tx s = None" "0 < l" "l \<le> 500"
  shows "\<exists>p s'. Export coll env (Some i) tn None (int l) (int m) w s = (Inr p, s') \<and> same_entities (s_db s) (s_db s') \<and> s_tx s' = None
     \<and> map mv_ID (rg_Items p) = take l (drop m (export_order (view_ctx w v) tn (s_db s)))"
proof -
  have c: "clamp_limit 100 500 (int l) = int l" using assms(3,4) by (simp add: clamp_limit_def)
  obtain items tot s1 where run: "ExportEntities coll tn (id_ActiveSystemID i) (int l) (int m) w s = (Inr (items, tot), s1)"
    and s1: "s_db s1 = s_db s" "s_tx s1 = None" and ids: "map mv_ID items = take l (drop m (export_order (view_ctx w v) tn (s_db s)))"
    using ExportEntities_quiet [OF assms(1,2)] by blast
  obtain s2 where log: "logRetrieval (Some i) (id_ActiveSystemID i) (JObj [(''limit'', json_int (int l)), (''offset'', json_int (int m)), (''type'', JStr tn)])
      (uuidRefsJSON env (map mv_ID items)) w s1 = (Inr (), s2)" "same_entities (s_db s1) (s_db s2)" "s_tx s2 = None"
    using log_quiet [OF assms(1) s1(2)] by blast
  from run log have "Export coll env (Some i) tn None (int l) (int m) w s
      = (Inr \<lparr>rg_Items = items, rg_Total = tot, rg_Limit = int l, rg_Offset = int m\<rparr>, s2)"
    by (simp add: Export_def MustIdentity_def db_simps wrap_err_def c Let_def)
  with ids log s1 show ?thesis by simp
qed

lemma export_walk_quiet:
  assumes "quiet w v" "s_tx s = None" "0 < l" "l \<le> 500"
  shows "\<exists>items s'. export_walk coll env (Some i) tn l k n w s = (Inr items, s')
     \<and> map mv_ID items = take (n * l) (drop (k * l) (export_order (view_ctx w v) tn (s_db s)))"
  using assms(2)
proof (induction n arbitrary: k s)
  case (Suc n)
  obtain p s1 where p: "Export coll env (Some i) tn None (int l) (int (k * l)) w s = (Inr p, s1)" "same_entities (s_db s) (s_db s1)"
    "s_tx s1 = None" "map mv_ID (rg_Items p) = take l (drop (k * l) (export_order (view_ctx w v) tn (s_db s)))"
    using export_quiet [OF assms(1) Suc.prems assms(3,4)] by blast
  from Suc.IH [OF p(3), of "Suc k"] export_order_same [OF p(2)] obtain items s2 where
    "export_walk coll env (Some i) tn l (Suc k) n w s1 = (Inr items, s2)"
    "map mv_ID items = take (n * l) (drop (Suc k * l) (export_order (view_ctx w v) tn (s_db s)))" by auto
  with p show ?case by (simp add: db_simps take_add drop_drop add.commute)
qed (simp add: db_simps)

text \<open>
  C34. Paging through the export is complete: while no statement fails and nobody else writes, the pages
  of any size from 1 to 500, asked for in turn, hold every entity of the requested type exactly once,
  in the order of creation time and identifier.
\<close>

theorem export_pages_complete:
  assumes "quiet w v" "s_tx s = None" "0 < l" "l \<le> 500"
    and "length (ent_list_rows tn (view_ctx w v) (s_db s)) \<le> n * l"
  shows "\<exists>items s'. export_walk coll env (Some i) tn l 0 n w s = (Inr items, s')
     \<and> map mv_ID items = export_order (view_ctx w v) tn (s_db s)
     \<and> mset (map mv_ID items) = mset (map (\<lambda>(e, t). en_id e) (ent_list_rows tn (view_ctx w v) (s_db s)))"
proof -
  have len: "length (export_order (view_ctx w v) tn (s_db s)) \<le> n * l" using assms(5) by (simp add: export_order_def)
  moreover have "mset (export_order (view_ctx w v) tn (s_db s)) = mset (map (\<lambda>(e, t). en_id e) (ent_list_rows tn (view_ctx w v) (s_db s)))"
    by (simp only: export_order_def mset_map mset_sort)
  moreover obtain items s' where "export_walk coll env (Some i) tn l 0 n w s = (Inr items, s')"
    "map mv_ID items = take (n * l) (drop (0 * l) (export_order (view_ctx w v) tn (s_db s)))"
    using export_walk_quiet [OF assms(1-4)] by blast
  ultimately show ?thesis by (intro exI [of _ items] exI [of _ s']) (simp del: mset_map)
qed

subsection \<open>Systems are separated in what is read\<close>

lemma changelog_scoped:
  assumes "ListChangelog env (Some i) since sys limit offset w s = (Inr r, s')" "id_ActiveSystemID i = Some u" "c \<in> set (rg_Items r)"
  shows "cl_SystemID c \<in> {None, Some u}"
proof -
  from assms(1,2) have "set (rg_Items r) \<subseteq> changelog_of_row ` set (changelog_rows since (Some u) (s_db s))"
    by (auto simp: ListChangelog_def changelog_system_def lift_api_def Let_def bind_Inr Ret_repo_ListChangelog_def
        wrap_err_Inr ret_def dest!: query_page_Inr query_Inr set_page [THEN subsetD] split: if_splits)
  with assms(3) show ?thesis by (auto simp: changelog_rows_def changelog_of_row_def)
qed

lemma ExportEntities_scoped:
  assumes "ExportEntities coll tn (Some u) limit offset w s = (Inr (items, tot), s')" "x \<in> set items" "rf \<in> set (mv_Relations x)"
  shows "rf_SystemID rf \<in> {None, Some u}"
  using assms
  by (auto simp: ExportEntities_def bind_Inr wrap_err_Inr Let_def ret_def export_relations_def ref_of_row_def
      dest!: query_Inr split: if_splits)

lemma export_scoped:
  assumes "Export coll env (Some i) tn None limit offset w s = (Inr r, s')" "id_ActiveSystemID i = Some u"
    "x \<in> set (rg_Items r)" "rf \<in> set (mv_Relations x)"
  shows "rf_SystemID rf \<in> {None, Some u}"
proof -
  from assms obtain items tot s1 where "ExportEntities coll tn (Some u) (clamp_limit 100 500 limit) offset w s = (Inr (items, tot), s1)"
    "rg_Items r = items" by (auto simp: Export_def Let_def bind_Inr wrap_err_Inr ret_def)
  with assms(3,4) show ?thesis using ExportEntities_scoped by blast
qed

text \<open>A lookup merges nothing but the overlay of the requested system.\<close>

definition view_from :: "database \<Rightarrow> uuid option \<Rightarrow> merged_view \<Rightarrow> bool" where
  "view_from d sys x \<longleftrightarrow> (\<exists>e \<in> set (db_entities d). en_id e = mv_ID x
     \<and> (mv_Properties x = Some (en_properties e)
        \<or> (\<exists>r \<in> set (db_overlays d). ov_entity r = en_id e \<and> Some (ov_system r) = sys
             \<and> mergeJSON (Some (en_properties e)) (Some (ov_properties r)) = Inr (mv_Properties x)))
     \<and> (\<forall>rf \<in> set (mv_Relations x). rf_SystemID rf = None \<or> sys \<noteq> None \<and> rf_SystemID rf = sys))"

lemma overlay_properties_Inr:
  assumes "overlay_properties i u w s = (Inr p, s')"
  shows "s_db s' = s_db s \<and> (case p of None \<Rightarrow> True
     | Some j \<Rightarrow> \<exists>r \<in> set (db_overlays (s_db s)). ov_entity r = i \<and> ov_system r = u \<and> j = ov_properties r)"
proof -
  let ?f = "\<lambda>q d. map ov_properties (filter (\<lambda>r. ov_entity r = i \<and> ov_system r = u) (overlays q d))"
  let ?same = "\<lambda>d d' :: database. d' = d"
  have R: "reflp ?same" "transp ?same" by (auto intro!: reflpI transpI)
  from assms consider (no) e where "p = None" "query_row ?f w s = (Inl e, s')"
    | (row) j where "p = Some j" "query_row ?f w s = (Inr j, s')"
    by (cases "query_row ?f w s") (auto simp: overlay_properties_def catch_def bind_def ret_def split: sum.splits)
  then show ?thesis
  proof cases
    case no
    with preservingD(1) [OF preserving_query_row [OF R] no(2)] show ?thesis by simp
  next
    case row
    from query_row_Inr [OF row(2)] obtain q ys where j: "?f q (s_db s) = j # ys" and d: "s_db s' = s_db s" by (elim exE conjE)
    from j have "j \<in> set (?f q (s_db s))" by (simp only: list.set_intros)
    with row(1) d show ?thesis by (auto simp: overlays_def)
  qed
qed

lemma LookupMerged_from:
  assumes "LookupMerged coll tn ext sys w s = (Inr x, s')"
  shows "view_from (s_db s) sys x"
proof -
  let ?row = "query_row (\<lambda>q d. filter (\<lambda>(e, t). ty_name t = tn \<and> en_external_id e = ext) (typed_entities q d))"
  from assms obtain et s1 props s2 rows where
    v: "?row w s = (Inr et, s1)"
    and p: "(case sys of None \<Rightarrow> ret (mv_Properties (view_of_row et))
       | Some u \<Rightarrow> bind (overlay_properties (mv_ID (view_of_row et)) u) (\<lambda>p. case p of None \<Rightarrow> ret (mv_Properties (view_of_row et))
           | Some _ \<Rightarrow> lift_res (mergeJSON (mv_Properties (view_of_row et)) p))) w s1 = (Inr props, s2)"
    and r: "query (lookup_relations coll (mv_ID (view_of_row et)) sys) w s2 = (Inr rows, s')"
    and x: "x = (view_of_row et)\<lparr>mv_Properties := props, mv_Relations := map ref_of_row rows\<rparr>"
    by (auto simp: LookupMerged_def bind_Inr)
  obtain e t where et: "et = (e, t)" by fastforce
  from query_row_Inr [OF v] obtain q ys where
    "filter (\<lambda>(e, t). ty_name t = tn \<and> en_external_id e = ext) (typed_entities q (s_db s)) = (e, t) # ys" and d1: "s_db s1 = s_db s"
    by (auto simp: et)
  then have "(e, t) \<in> set (typed_entities q (s_db s))" by (metis list.set_intros(1) filter_is_subset subsetD)
  then have e: "e \<in> set (db_entities (s_db s))" by (simp add: in_typed_entities)
  have view: "mv_Properties (view_of_row et) = Some (en_properties e)" "mv_ID (view_of_row et) = en_id e" by (simp_all add: view_of_row_def et)
  have "s_db s2 = s_db s \<and> (props = Some (en_properties e) \<or> (\<exists>r \<in> set (db_overlays (s_db s)). ov_entity r = en_id e
     \<and> Some (ov_system r) = sys \<and> mergeJSON (Some (en_properties e)) (Some (ov_properties r)) = Inr props))"
  proof (cases sys)
    case None
    with p d1 show ?thesis by (simp add: view)
  next
    case (Some u)
    with p [unfolded view] obtain o' s0 where o: "overlay_properties (en_id e) u w s1 = (Inr o', s0)"
      and c: "(case o' of None \<Rightarrow> ret (Some (en_properties e)) | Some _ \<Rightarrow> lift_res (mergeJSON (Some (en_properties e)) o')) w s0 = (Inr props, s2)"
      by (auto simp: bind_Inr)
    from overlay_properties_Inr [OF o] c d1 Some show ?thesis by (cases o') auto
  qed
  moreover from query_Inr [OF r] obtain q' where "rows = lookup_relations coll (en_id e) sys q' (s_db s2)"
    by (auto simp: view_of_row_def et)
  then have "\<forall>rf \<in> set (map ref_of_row rows). rf_SystemID rf = None \<or> sys \<noteq> None \<and> rf_SystemID rf = sys"
    by (auto simp: lookup_relations_def ref_of_row_def)
  ultimately show ?thesis using e by (auto simp: view_from_def x view_of_row_def et intro!: bexI [of _ e])
qed

lemma assert_scoped:
  assumes "Ret_assertSystemAccess (Some i) sys w s = (Inr x, s')" "id_ActiveSystemID i = Some u" "\<not> id_IsPlatformAdmin i"
  shows "(sys = None \<or> sys = Some u) \<and> s' = s"
  using assms by (auto simp: Ret_assertSystemAccess_def MustIdentity_def bind_Inr reject_def split: if_splits)

lemma lookup_scoped:
  assumes "Lookup coll env (Some i) tn ext sys w s = (Inr x, s')" "id_ActiveSystemID i = Some u" "\<not> id_IsPlatformAdmin i"
  shows "(sys = None \<or> sys = Some u) \<and> view_from (s_db s) sys x"
proof -
  from assms(1) obtain a s1 s2 where a: "Ret_assertSystemAccess (Some i) sys w s = (Inr a, s1)"
    and l: "LookupMerged coll tn ext sys w s1 = (Inr x, s2)"
    by (auto simp: Lookup_def bind_Inr map_err_def catch_Inr reject_def split: if_splits)
  from assert_scoped [OF a assms(2,3)] LookupMerged_from [OF l] show ?thesis by simp
qed


lemma entity_page:
  assumes "Ent_List tn limit offset w s = (Inr r, s')"
  shows "lr_Limit r = clamp_limit 25 100 limit \<and> length (lr_Items r) \<le> nat (lr_Limit r)"
  using assms
  by (auto simp: Ent_List_def Let_def bind_Inr Ent_repo_List_def dest!: query_page_Inr split: prod.splits
      intro: length_page)

definition bounded_page :: "int \<Rightarrow> int \<Rightarrow> int \<Rightarrow> int \<Rightarrow> 'a list \<Rightarrow> bool" where
  "bounded_page dflt most asked l xs \<longleftrightarrow> l = (if asked < 1 then dflt else min asked most) \<and> 1 \<le> l \<and> l \<le> most \<and> int (length xs) \<le> l"

lemma bounded_pageI:
  assumes "l = clamp_limit dflt most asked \<and> length xs \<le> nat l" "1 \<le> dflt" "dflt \<le> most"
  shows "bounded_page dflt most asked l xs"
  using assms by (auto simp: bounded_page_def clamp_limit_def split: if_splits)

text \<open>
  C36. No list is longer than its page, and no client can ask for a longer page: the search, the change
  log and the list of entities return at most 100 items, the export at most 500, and a page size out
  of range is replaced by the default or the maximum.
\<close>

theorem list_pages_bounded:
  assumes "Filter contains env ctx tn flt limit offset w s1 = (Inr found, s1')"
    and "ListChangelog env ctx since sys limit offset w s2 = (Inr changes, s2')"
    and "Ent_List tn limit offset w s3 = (Inr ents, s3')"
    and "Export coll env ctx tn sys limit offset w s4 = (Inr items, s4')"
  shows "bounded_page 25 100 limit (rg_Limit found) (rg_Items found)
    \<and> bounded_page 25 100 limit (rg_Limit changes) (rg_Items changes)
    \<and> bounded_page 25 100 limit (lr_Limit ents) (lr_Items ents)
    \<and> bounded_page 100 500 limit (rg_Limit items) (rg_Items items)"
  using bounded_pageI [OF filter_page [OF assms(1)]] bounded_pageI [OF changelog_page [OF assms(2)]]
    bounded_pageI [OF entity_page [OF assms(3)]] bounded_pageI [OF export_page [OF assms(4)]]
  by (intro conjI) simp_all

end
