(* ===== verification/Retrieval_Sample.thy ===== *)
theory Retrieval_Sample
  imports Core_Sample Retrieval_Rules
begin

section \<open>Reading from the installation\<close>

text \<open>
  The installation of \<open>Core_Sample\<close> with three audit records and two edges, read by the
  administrator of crm; the theorems on retrieval are applied to what comes back.
\<close>

definition log_row :: "uuid \<Rightarrow> uuid option \<Rightarrow> gotime \<Rightarrow> audit_row" where
  "log_row i sys t = \<lparr>au_id = i, au_actor = ''kc:amy'', au_operation = ''update'', au_resource_type = ''entity'',
     au_resource_id = 10, au_before = None, au_after = None, au_system = sys, au_time = t\<rparr>"

definition edge_row :: "uuid \<Rightarrow> uuid option \<Rightarrow> relation_row" where
  "edge_row i sys = (sample_relation i 10 ''member'' 12)\<lparr>rl_system := sys\<rparr>"

definition read_db :: database where
  "read_db = core_db\<lparr>db_audit := [log_row 60 (Some 13) 3, log_row 61 (Some 12) 4, log_row 62 None 2],
     db_relations := [edge_row 70 (Some 12), edge_row 71 (Some 13)]\<rparr>"

lemma read_rows [simp]:
  "au_system (log_row i sys t) = sys" "au_time (log_row i sys t) = t" "au_id (log_row i sys t) = i"
  "db_audit read_db = [log_row 60 (Some 13) 3, log_row 61 (Some 12) 4, log_row 62 None 2]"
  "db_types read_db = db_types core_db" "db_entities read_db = db_entities core_db" "db_overlays read_db = [hr_overlay]"
  by (simp_all add: log_row_def read_db_def)

definition read_logged :: "uuid option \<Rightarrow> json \<Rightarrow> json \<Rightarrow> nat \<Rightarrow> database" where
  "read_logged sys params refs n = read_db\<lparr>db_retrievals := db_retrievals read_db @ [\<lparr>rt_caller = ''amy'', rt_query = params, rt_refs = refs,
     rt_system = (case sys of Some u \<Rightarrow> Some u | None \<Rightarrow> Some 12), rt_time = int n\<rparr>]\<rparr>"

lemma read_log:
  "logRetrieval amy sys params refs sample_world (core_sess read_db n) = (Inr (), core_sess (read_logged sys params refs n) (Suc n))"
proof -
  have "id_Subject crm_admin = ''amy''" by (simp add: crm_admin_def)
  then show ?thesis
    by (cases sys) (simp_all add: logRetrieval_def MustIdentity_def WriteLog_def insert_retrieval_def core_steps read_logged_def)
qed

lemma changes_run:
  "\<exists>r s'. ListChangelog core_env amy 0 None 50 0 sample_world (core_sess read_db 0) = (Inr r, s')
     \<and> map cl_ID (rg_Items r) = [62, 61]"
proof -
  have rows: "changelog_rows 0 (Some 12) read_db = [log_row 61 (Some 12) 4, log_row 62 None 2]"
    by (simp add: changelog_rows_def)
  have "sort_key au_time [log_row 61 (Some 12) 4, log_row 62 None 2] = [log_row 62 None 2, log_row 61 (Some 12) 4]"
    by simp
  then have "Ret_repo_ListChangelog 0 (Some 12) 50 0 sample_world (core_sess read_db 0)
      = (Inr (map changelog_of_row [log_row 62 None 2, log_row 61 (Some 12) 4], 2), core_sess read_db (Suc (Suc 0)))"
    by (simp add: Ret_repo_ListChangelog_def query_page_def limit_offset_def core_steps rows page_def)
  then show ?thesis
    by (simp add: read_log ListChangelog_def MustIdentity_def changelog_system_def lift_api_def clamp_limit_def wrap_err_def db_simps
        changelog_of_row_def)
qed

lemma read_quiet: "quiet sample_world SetEmpty" "s_tx (core_sess read_db 0) = None" "s_db (core_sess read_db 0) = read_db"
  by (simp_all add: quiet_def sample_world_def core_sess_def)

lemma user_rows: "ent_list_rows ''User'' (core_ctx m SetEmpty n) read_db = [(bob_row, sample_type 1 ''User'')]"
  by (simp add: ent_list_rows_def typed_entities_def entities_def)

lemma export_order_read: "export_order (view_ctx sample_world SetEmpty) ''User'' read_db = [10]"
proof -
  have "ent_list_rows ''User'' (view_ctx sample_world SetEmpty) read_db = [(bob_row, sample_type 1 ''User'')]"
    by (simp add: ent_list_rows_def typed_entities_def entities_def visible_def view_ctx_def)
  then show ?thesis by (simp add: export_order_def)
qed

lemma export_run:
  "\<exists>r s'. Export (\<lambda>_. 0) core_env amy ''User'' None 50 0 sample_world (core_sess read_db 0) = (Inr r, s') \<and> map mv_ID (rg_Items r) = [10]"
  using export_quiet [OF read_quiet(1,2), of 50 "\<lambda>_. 0" core_env crm_admin "''User''" 0] by (auto simp: read_quiet(3) export_order_read)

lemma bob_lookup:
  "\<exists>x s'. Lookup (\<lambda>_. 0) core_env amy ''User'' ''bob'' (Some 12) sample_world (core_sess read_db 0) = (Inr x, s')
     \<and> mv_ID x = 10 \<and> map rf_ID (mv_Relations x) = [70]"
proof -
  have rels: "lookup_relations (\<lambda>_. 0) (mv_ID (view_of_row (bob_row, sample_type 1 ''User''))) (Some 12) (core_ctx m SetEmpty n) read_db
      = [edge_row 70 (Some 12)]" for m n
    by (simp add: lookup_relations_def relations_def read_db_def edge_row_def sample_relation_def view_of_row_def)
  have "LookupMerged (\<lambda>_. 0) ''User'' ''bob'' (Some 12) sample_world (core_sess read_db 0)
     = (Inr ((view_of_row (bob_row, sample_type 1 ''User''))\<lparr>mv_Relations := [ref_of_row (edge_row 70 (Some 12))]\<rparr>),
        core_sess read_db (Suc (Suc (Suc 0))))"
    by (simp add: LookupMerged_def overlay_properties_def core_steps typed_entities_def entities_def overlays_def rels)
  then show ?thesis
    by (simp add: read_log Lookup_def Ret_assertSystemAccess_def MustIdentity_def map_err_def db_simps view_of_row_def ref_of_row_def
        edge_row_def sample_relation_def)
qed

lemma found_run:
  "\<exists>r s'. Filter (\<lambda>_ _. True) core_env amy ''User'' (Some (JObj [])) 50 0 sample_world (core_sess read_db 0) = (Inr r, s')
     \<and> map mv_ID (rg_Items r) = [10]"
proof -
  have "filter_rows (\<lambda>_ _. True) ''User'' (JObj []) (core_ctx m SetEmpty n) read_db = [(bob_row, sample_type 1 ''User'')]" for m n
    by (simp add: filter_rows_def typed_entities_def entities_def)
  then have "FilterByProperties (\<lambda>_ _. True) ''User'' (JObj []) 50 0 sample_world (core_sess read_db 0)
      = (Inr ([view_of_row (bob_row, sample_type 1 ''User'')], 1), core_sess read_db (Suc (Suc 0)))"
    by (simp add: FilterByProperties_def query_page_def limit_offset_def core_steps page_def)
  then show ?thesis by (simp add: Filter_def clamp_limit_def wrap_err_def db_simps read_log [where sys = None] view_of_row_def)
qed

lemma entities_run:
  "\<exists>r s'. Ent_List ''User'' 50 0 sample_world (core_sess read_db 0) = (Inr r, s') \<and> map ent_ID (lr_Items r) = [10]"
proof -
  have "Ent_repo_List ''User'' 50 0 sample_world (core_sess read_db 0)
      = (Inr ([ent_of_row (bob_row, sample_type 1 ''User'')], 1), core_sess read_db (Suc (Suc 0)))"
    by (simp add: Ent_repo_List_def query_page_def limit_offset_def core_steps page_def user_rows)
  then show ?thesis by (simp add: Ent_List_def clamp_limit_def wrap_err_def db_simps ent_of_row_def)
qed

subsection \<open>The theorems on these reads\<close>

theorem export_pages_complete_witness:
  "\<exists>items s'. export_walk (\<lambda>_. 0) core_env amy ''User'' 5 0 2 sample_world (core_sess read_db 0) = (Inr items, s') \<and> map mv_ID items = [10]"
proof -
  have "length (ent_list_rows ''User'' (view_ctx sample_world SetEmpty) (s_db (core_sess read_db 0))) \<le> 2 * 5"
    using arg_cong [OF export_order_read, of length] by (simp add: export_order_def read_quiet(3))
  from export_pages_complete [OF read_quiet(1,2) _ _ this] export_order_read show ?thesis
    by (fastforce simp: read_quiet(3))
qed


theorem list_pages_bounded_witness:
  "\<exists>found changes ents items s1 s2 s3 s4.
     Filter (\<lambda>_ _. True) core_env amy ''User'' (Some (JObj [])) 50 0 sample_world (core_sess read_db 0) = (Inr found, s1)
     \<and> ListChangelog core_env amy 0 None 50 0 sample_world (core_sess read_db 0) = (Inr changes, s2)
     \<and> Ent_List ''User'' 50 0 sample_world (core_sess read_db 0) = (Inr ents, s3)
     \<and> Export (\<lambda>_. 0) core_env amy ''User'' None 50 0 sample_world (core_sess read_db 0) = (Inr items, s4)
     \<and> rg_Limit found = 50 \<and> rg_Limit changes = 50 \<and> lr_Limit ents = 50 \<and> rg_Limit items = 50"
proof -
  obtain found s1 where f: "Filter (\<lambda>_ _. True) core_env amy ''User'' (Some (JObj [])) 50 0 sample_world (core_sess read_db 0) = (Inr found, s1)"
    using found_run by (elim exE conjE)
  obtain changes s2 where c: "ListChangelog core_env amy 0 None 50 0 sample_world (core_sess read_db 0) = (Inr changes, s2)"
    using changes_run by (elim exE conjE)
  obtain ents s3 where l: "Ent_List ''User'' 50 0 sample_world (core_sess read_db 0) = (Inr ents, s3)"
    using entities_run by (elim exE conjE)
  obtain items s4 where e: "Export (\<lambda>_. 0) core_env amy ''User'' None 50 0 sample_world (core_sess read_db 0) = (Inr items, s4)"
    using export_run by (elim exE conjE)
  from list_pages_bounded [OF f c l e] f c l e show ?thesis
    by (intro exI [of _ found] exI [of _ changes] exI [of _ ents] exI [of _ items] exI conjI) (auto simp: bounded_page_def)
qed

end
