(* ===== verification/Dispatcher_System.thy ===== *)
theory Dispatcher_System
  imports Dispatcher_Rules
begin

section \<open>The dispatcher beside the API\<close>

text \<open>
  One step relation for the process: the worker enqueues, fetches a batch and posts its deliveries one
  by one, and a request of the API may fall between any two of these steps, so that a subscription can
  change or go while its deliveries wait in the batch. The cycle of the code is a run of these steps.
\<close>

record dsys =
  dy_disp :: disp
  dy_queue :: "pending_delivery list"
  dy_known :: "webhook_row list"

abbreviation dy_sess :: "dsys \<Rightarrow> sess" where "dy_sess y \<equiv> dp_sess (dy_disp y)"
abbreviation dy_db :: "dsys \<Rightarrow> database" where "dy_db y \<equiv> s_db (dp_sess (dy_disp y))"

text \<open>\<open>dy_known\<close> is a history: every state a subscription ever had.\<close>

definition with_sess :: "dsys \<Rightarrow> sess \<Rightarrow> dsys" where
  "with_sess y s = y\<lparr>dy_disp := (dy_disp y)\<lparr>dp_sess := s\<rparr>, dy_known := dy_known y @ db_webhooks (s_db s)\<rparr>"

inductive dsys_step :: "'s schema_lib \<Rightarrow> 'f scim_env \<Rightarrow> world \<Rightarrow> http_env \<Rightarrow> dsys \<Rightarrow> dsys \<Rightarrow> bool"
  for lib v w net where
  Enqueue: "dy_queue y = [] \<Longrightarrow> dsys_step lib v w net y (with_sess y (snd (enqueue w (dy_sess y))))"
| Fetch: "dy_queue y = [] \<Longrightarrow> FindPending dispatchBatchSize w (dy_sess y) = (r, s) \<Longrightarrow>
    dsys_step lib v w net y ((with_sess y s)\<lparr>dy_queue := (case r of Inl _ \<Rightarrow> [] | Inr ps \<Rightarrow> ps)\<rparr>)"
| Attempt: "dy_queue y = pd # ps \<Longrightarrow> attempt (sv_render v) net w pd (dy_disp y) = (Inr (), st) \<Longrightarrow>
    dsys_step lib v w net y (y\<lparr>dy_disp := st, dy_queue := ps\<rparr>)"
| Request: "dsys_step lib v w net y (with_sess y (snd (api_serve lib v r w (dy_sess y))))"

definition dsys_init :: "database \<Rightarrow> nat \<Rightarrow> dsys" where
  "dsys_init d n = \<lparr>dy_disp = \<lparr>dp_sess = \<lparr>s_db = d, s_n = n, s_tx = None\<rparr>, dp_sent = []\<rparr>, dy_queue = [], dy_known = db_webhooks d\<rparr>"

definition dsys_reach :: "'s schema_lib \<Rightarrow> 'f scim_env \<Rightarrow> world \<Rightarrow> http_env \<Rightarrow> dsys \<Rightarrow> dsys \<Rightarrow> bool" where
  "dsys_reach lib v w net = (dsys_step lib v w net)\<^sup>*\<^sup>*"

subsection \<open>The cycle is a run of the steps\<close>

lemma attempts_run:
  "dy_queue y = pds \<Longrightarrow> attempts (sv_render v) net w pds (dy_disp y) = (Inr (), st) \<Longrightarrow>
   dsys_reach lib v w net y (y\<lparr>dy_disp := st, dy_queue := []\<rparr>)"
proof (induction pds arbitrary: y)
  case Nil
  then have "y = y\<lparr>dy_disp := st, dy_queue := []\<rparr>" by simp
  then show ?case by (simp add: dsys_reach_def)
next
  case (Cons pd pds)
  from Cons.prems(2) obtain st1 where a: "attempt (sv_render v) net w pd (dy_disp y) = (Inr (), st1)"
    and rest: "attempts (sv_render v) net w pds st1 = (Inr (), st)" by (auto split: prod.splits sum.splits)
  let ?y = "y\<lparr>dy_disp := st1, dy_queue := pds\<rparr>"
  have "dsys_step lib v w net y ?y" by (rule Attempt [OF Cons.prems(1) a])
  moreover have "dsys_reach lib v w net ?y (?y\<lparr>dy_disp := st, dy_queue := []\<rparr>)" by (rule Cons.IH) (simp_all add: rest)
  ultimately show ?case unfolding dsys_reach_def by (simp add: converse_rtranclp_into_rtranclp)
qed

lemma cycle_run:
  assumes "dy_queue y = []" "cycle (sv_render v) net w (dy_disp y) = (Inr (), st)"
  shows "\<exists>k. dsys_reach lib v w net y \<lparr>dy_disp = st, dy_queue = [], dy_known = k\<rparr>"
proof -
  let ?y1 = "with_sess y (snd (enqueue w (dy_sess y)))"
  obtain r s where f: "FindPending dispatchBatchSize w (dy_sess ?y1) = (r, s)" by fastforce
  let ?y2 = "(with_sess ?y1 s)\<lparr>dy_queue := (case r of Inl _ \<Rightarrow> [] | Inr ps \<Rightarrow> ps)\<rparr>"
  have 1: "dsys_step lib v w net y ?y1" by (rule Enqueue [OF assms(1)])
  have 2: "dsys_step lib v w net ?y1 ?y2" by (rule Fetch [OF _ f]) (simp add: with_sess_def assms(1))
  have d2: "dy_disp ?y2 = (dy_disp y)\<lparr>dp_sess := s\<rparr>" by (simp add: with_sess_def)
  have "attempts (sv_render v) net w (dy_queue ?y2) (dy_disp ?y2) = (Inr (), st)"
  proof (cases r)
    case (Inl e)
    with assms(2) f show ?thesis by (simp add: cycle_def dispatch_def with_sess_def)
  next
    case (Inr ps)
    with assms(2) f show ?thesis by (simp add: cycle_def dispatch_def with_sess_def)
  qed
  from attempts_run [OF refl this, of lib] 1 2 have "dsys_reach lib v w net y (?y2\<lparr>dy_disp := st, dy_queue := []\<rparr>)"
    unfolding dsys_reach_def by (meson converse_rtranclp_into_rtranclp)
  moreover have "?y2\<lparr>dy_disp := st, dy_queue := []\<rparr> = \<lparr>dy_disp = st, dy_queue = [], dy_known = dy_known ?y2\<rparr>"
    by (rule dsys.equality) simp_all
  ultimately show ?thesis by (intro exI [of _ "dy_known ?y2"]) simp
qed

subsection \<open>The invariant\<close>

definition event_payload_of :: "uuid \<Rightarrow> audit_row \<Rightarrow> event_payload" where
  "event_payload_of i a = \<lparr>ep_EventID = i, ep_EventType = au_resource_type a @ ''.'' @ au_operation a, ep_SystemID = au_system a,
     ep_ResourceType = au_resource_type a, ep_ResourceID = au_resource_id a, ep_Actor = au_actor a, ep_Timestamp = au_time a,
     ep_Before = au_before a, ep_After = au_after a\<rparr>"

definition authentic :: "render_env \<Rightarrow> http_env \<Rightarrow> webhook_row set \<Rightarrow> audit_row set \<Rightarrow> http_request \<Rightarrow> bool" where
  "authentic env net H A req \<longleftrightarrow> (\<exists>h \<in> H. \<exists>a \<in> A. \<exists>i. au_system a = Some (wh_system h) \<and> hr_URL req = wh_url h
     \<and> hr_Body req = ne_marshal net (ep_json env (event_payload_of i a)) \<and> hr_Delivery req = re_uuid env i
     \<and> hr_Signature req = ''sha256='' @ hex_encode (ne_hmac net (wh_secret h) (hr_Body req)))"

lemma authentic_mono: "authentic env net H A req \<Longrightarrow> H \<subseteq> H' \<Longrightarrow> A \<subseteq> A' \<Longrightarrow> authentic env net H' A' req"
  unfolding authentic_def by blast

lemma genuine_authentic: "genuine H A pd \<Longrightarrow> authentic env net H A (request_of env net pd)"
  unfolding genuine_def authentic_def
  by (elim conjE exE bexE, intro bexI exI conjI)
    (auto simp: request_of_def Let_def payload_of_def event_payload_of_def pending_of_def computeHMAC_def)

definition dsys_ok :: "render_env \<Rightarrow> http_env \<Rightarrow> dsys \<Rightarrow> bool" where
  "dsys_ok env net y \<longleftrightarrow> s_tx (dy_sess y) = None \<and> hook_ok (dy_db y) \<and> set (db_webhooks (dy_db y)) \<subseteq> set (dy_known y)
     \<and> (\<forall>pd \<in> set (dy_queue y). genuine (set (dy_known y)) (set (db_audit (dy_db y))) pd)
     \<and> (\<forall>req \<in> set (dp_sent (dy_disp y)). authentic env net (set (dy_known y)) (set (db_audit (dy_db y))) req)"

lemma with_sess_ok:
  assumes "dsys_ok env net y" "keeps_hooks (dy_db y) (s_db s)" "s_tx s = None"
  shows "dsys_ok env net (with_sess y s)"
proof -
  from assms have h: "hook_ok (s_db s)" and A: "set (db_audit (dy_db y)) \<subseteq> set (db_audit (s_db s))"
    by (auto simp: dsys_ok_def keeps_hooks_def)
  have K: "set (dy_known y) \<subseteq> set (dy_known y) \<union> set (db_webhooks (s_db s))" by simp
  show ?thesis
    using assms(1,3) h genuine_mono [OF _ K A] authentic_mono [OF _ K A] by (auto simp: dsys_ok_def with_sess_def)
qed

lemma dsys_step_ok:
  assumes "dsys_step lib v w net y y'" "dsys_ok (sv_render v) net y"
  shows "dsys_ok (sv_render v) net y'"
  using assms(1)
proof (cases rule: dsys_step.cases)
  case Enqueue
  have "appends (dy_db y) (s_db (snd (enqueue w (dy_sess y)))) \<and> s_tx (snd (enqueue w (dy_sess y))) = None"
    using assms(2) by (intro enqueue_appends [OF prod.collapse [symmetric]]) (simp add: dsys_ok_def)
  then show ?thesis unfolding Enqueue(1) by (intro with_sess_ok assms(2)) (auto simp: appends_def)
next
  case (Fetch r s)
  from assms(2) have tx: "s_tx (dy_sess y) = None" and h: "hook_ok (dy_db y)" by (auto simp: dsys_ok_def)
  from reads_none [OF FindPending_reads Fetch(3) tx] have s: "s_db s = dy_db y" "s_tx s = None" by simp_all
  have ok: "dsys_ok (sv_render v) net (with_sess y s)"
    by (rule with_sess_ok [OF assms(2)]) (simp_all add: s reflpD [OF keeps_hooks_props(1)])
  have "\<forall>pd \<in> set (case r of Inl _ \<Rightarrow> [] | Inr ps \<Rightarrow> ps). genuine (set (db_webhooks (dy_db y))) (set (db_audit (dy_db y))) pd"
    using FindPending_Inr [OF _ h] Fetch(3) by (cases r) auto
  with ok show ?thesis unfolding Fetch(1) by (auto simp: dsys_ok_def with_sess_def s intro: genuine_mono)
next
  case (Attempt pd ps st)
  from assms(2) Attempt(2) have tx: "s_tx (dy_sess y) = None" and g: "genuine (set (dy_known y)) (set (db_audit (dy_db y))) pd"
    by (auto simp: dsys_ok_def)
  then have at: "0 \<le> pd_Attempts pd" "pd_Attempts pd < maxRetries" by (simp_all add: genuine_def)
  from at show ?thesis
  proof (cases rule: attempt_cases [where net = net and env = "sv_render v" and w = w and st = "dy_disp y"])
    case 1
    with Attempt assms(2) show ?thesis by (auto simp: dsys_ok_def)
  next
    case (2 status nr code)
    let ?s = "snd (store_outcome pd status nr code w (dy_sess y))"
    have r: "replaces (dy_db y) (s_db ?s) \<and> s_tx ?s = None" by (rule store_outcome_replaces [OF prod.collapse [symmetric] tx 2(2)])
    from Attempt(3) 2(4) have st: "st = (dy_disp y)\<lparr>dp_sent := dp_sent (dy_disp y) @ [request_of (sv_render v) net pd], dp_sess := ?s\<rparr>" by simp
    from r assms(2) genuine_authentic [OF g] Attempt(2) show ?thesis
      by (auto simp: Attempt(1) st dsys_ok_def replaces_def same_hooks_def keeps_hooks_def)
  qed
next
  case (Request r)
  have "keeps_hooks (dy_db y) (s_db (snd (api_serve lib v r w (dy_sess y)))) \<and> s_tx (snd (api_serve lib v r w (dy_sess y))) = None"
    using assms(2) by (intro safeD [OF hooks.api_serve_law]) (simp add: dsys_ok_def)
  then show ?thesis unfolding Request(1) by (intro with_sess_ok assms(2)) auto
qed

lemma dsys_reach_ok:
  assumes "dsys_reach lib v w net y y'" "dsys_ok (sv_render v) net y"
  shows "dsys_ok (sv_render v) net y'"
  using assms unfolding dsys_reach_def by (induction rule: rtranclp_induct) (auto intro: dsys_step_ok)

text \<open>
  C7. Webhook events are authentic. However the dispatcher's steps and the requests of the API
  interleave, and whatever fails, every request it posts carries one audit record of the system whose
  subscription names the URL, and is signed with HMAC-SHA256 under that subscription's secret; every
  delivery belongs to a subscription of its event's system, was tried at most five times, and has a next
  attempt exactly if it failed less than five times; and the dispatcher does not panic.
\<close>

theorem webhook_events_authentic:
  assumes "dsys_reach lib v w net (dsys_init d n) y" "hook_ok d"
  shows "(\<forall>req \<in> set (dp_sent (dy_disp y)). authentic (sv_render v) net (set (dy_known y)) (set (db_audit (dy_db y))) req)
    \<and> hook_ok (dy_db y)
    \<and> (case dy_queue y of [] \<Rightarrow> True | pd # _ \<Rightarrow> fst (attempt (sv_render v) net w pd (dy_disp y)) = Inr ())"
proof -
  have "dsys_ok (sv_render v) net (dsys_init d n)" using assms(2) by (simp add: dsys_ok_def dsys_init_def)
  from dsys_reach_ok [OF assms(1) this] have ok: "dsys_ok (sv_render v) net y" .
  moreover have "fst (attempt (sv_render v) net w pd (dy_disp y)) = Inr ()" if "dy_queue y = pd # ps" for pd ps
  proof -
    from ok that have "0 \<le> pd_Attempts pd" "pd_Attempts pd < maxRetries" by (auto simp: dsys_ok_def genuine_def)
    then show ?thesis by (cases rule: attempt_cases [where net = net and env = "sv_render v" and w = w and st = "dy_disp y"]) simp_all
  qed
  ultimately show ?thesis by (auto simp: dsys_ok_def split: list.split)
qed

end
