(* ===== verification/Dispatcher_Liveness.thy ===== *)
theory Dispatcher_Liveness
  imports Dispatcher_Rules
begin

section \<open>Every delivery comes to an end\<close>

text \<open>
  While the database answers and the URLs can be requested, each delivery is settled after five attempts
  at most: delivered, or failed for good. The cycles may come as often as they like; what counts is how
  many of them are far enough apart for the longest pause, 240 seconds, to have passed.
\<close>

subsection \<open>Pauses\<close>

definition longest_pause :: duration where "longest_pause = 240 * second"

lemma push_bit_word: "n < 4 \<Longrightarrow> sint (word_of_int (30 * second) * push_bit n (1 :: 64 word)) = 30 * second * 2 ^ n"
proof -
  assume "n < 4"
  then have "n \<in> {0, 1, 2, 3}" by auto
  then show ?thesis by (auto simp: second_def push_bit_eq_mult)
qed

lemma backoff_pauses:
  assumes "1 \<le> n" "n < maxRetries"
  shows "backoff n = 30 * second * 2 ^ nat (n - 1)" "backoff n \<le> longest_pause"
proof -
  have n: "nat (n - 1) < 4" using assms by (simp add: maxRetries_def)
  then have p: "30 * second * 2 ^ nat (n - 1) \<le> longest_pause"
  proof -
    have "nat (n - 1) \<in> {0, 1, 2, 3}" using n by auto
    then show ?thesis by (auto simp: longest_pause_def second_def)
  qed
  moreover have "longest_pause \<le> 24 * hour" by (simp add: longest_pause_def hour_def second_def)
  ultimately show "backoff n = 30 * second * 2 ^ nat (n - 1)" unfolding backoff_def push_bit_word [OF n] by linarith
  with p show "backoff n \<le> longest_pause" by simp
qed

lemma pg_timestamp_le: "pg_timestamp t \<le> t"
  unfolding pg_timestamp_def by (simp add: minus_mod_eq_div_mult [symmetric])

subsection \<open>Settled deliveries\<close>

definition settled :: "delivery_row \<Rightarrow> bool" where
  "settled x \<longleftrightarrow> dl_status x = ''delivered'' \<or> dl_status x = ''failed'' \<and> dl_next_retry x = None"

definition retry_by :: "gotime \<Rightarrow> delivery_row \<Rightarrow> bool" where
  "retry_by T x \<longleftrightarrow> dl_status x = ''pending'' \<or> (\<exists>t. dl_next_retry x = Some t \<and> t \<le> T)"

definition same_delivery :: "delivery_row \<Rightarrow> delivery_row \<Rightarrow> bool" where
  "same_delivery x x' \<longleftrightarrow> dl_id x' = dl_id x \<and> dl_subscription x' = dl_subscription x \<and> dl_audit x' = dl_audit x"

text \<open>\<open>x'\<close> is \<open>x\<close> after an attempt that ended by the instant \<open>g\<close>.\<close>

definition tried :: "gotime \<Rightarrow> delivery_row \<Rightarrow> delivery_row \<Rightarrow> bool" where
  "tried g x x' \<longleftrightarrow> same_delivery x x' \<and> dl_attempts x' = dl_attempts x + 1
     \<and> (settled x' \<or> dl_status x' = ''failed'' \<and> retry_by (g + longest_pause) x')"

lemma due_not_settled: "due q x \<Longrightarrow> \<not> settled x"
  by (auto simp: due_def settled_def split: option.splits)

lemma retry_due:
  assumes "\<not> settled x" "progress_ok x" "retry_by T x" "T \<le> q_now q"
  shows "due q x"
  using assms by (auto simp: due_def settled_def retry_by_def progress_ok_def split: option.splits)

lemma last_settled: "progress_ok x \<Longrightarrow> maxRetries \<le> dl_attempts x \<Longrightarrow> settled x"
  by (auto simp: progress_ok_def settled_def maxRetries_def)

subsection \<open>A transaction while the database answers\<close>

lemma quiet_tx:
  assumes "quiet w v" "s_tx s = None"
    and "\<And>q. f q (s_db s) = Inr ((), d)"
  shows "with_tx c (bind (wrap_err e (exec f)) (\<lambda>_. commit_tx)) w s = (Inr (), \<lparr>s_db = d, s_n = s_n s + 3, s_tx = None\<rparr>)"
  using assms by (cases s)
    (simp add: with_tx_def begin_tx_def quiet_def wrap_err_def db_simps exec_def commit_tx_def rollback_def Let_def)

lemma store_outcome_quiet:
  assumes "quiet w v" "s_tx s = None" "status \<in> {''delivered'', ''failed''}"
  shows "s_tx (snd (store_outcome pd status nr code w s)) = None
    \<and> s_db (snd (store_outcome pd status nr code w s)) = (s_db s)\<lparr>db_deliveries := map (\<lambda>x. if dl_id x = pd_DeliveryID pd
        then x\<lparr>dl_status := status, dl_attempts := pd_Attempts pd + 1, dl_next_retry := map_option pg_timestamp nr, dl_response := code\<rparr>
        else x) (db_deliveries (s_db s))\<rparr>"
proof -
  let ?d = "(s_db s)\<lparr>db_deliveries := map (\<lambda>x. if dl_id x = pd_DeliveryID pd
        then x\<lparr>dl_status := status, dl_attempts := pd_Attempts pd + 1, dl_next_retry := map_option pg_timestamp nr, dl_response := code\<rparr>
        else x) (db_deliveries (s_db s))\<rparr>"
  have "update_delivery (pd_DeliveryID pd) status (pd_Attempts pd + 1) nr code q (s_db s) = Inr ((), ?d)" for q
    using assms(3) by (auto simp: update_delivery_def Let_def)
  from quiet_tx [where f = "update_delivery (pd_DeliveryID pd) status (pd_Attempts pd + 1) nr code", OF assms(1,2) this]
  show ?thesis by (simp add: store_outcome_def UpdateDelivery_def)
qed

subsection \<open>One cycle\<close>

text \<open>
  The conditions of a cycle: the database answers and shows all subscriptions, every URL can be
  requested, its statements read a clock from \<open>t\<close> on and its attempts one up to \<open>g\<close>.
\<close>

definition window :: "http_env \<Rightarrow> world \<Rightarrow> gotime \<Rightarrow> gotime \<Rightarrow> bool" where
  "window net w t g \<longleftrightarrow> quiet w SetEmpty \<and> (\<forall>url. ne_request_ok net url) \<and> (\<forall>n. t \<le> w_time w n) \<and> (\<forall>k. ne_now net k \<le> g) \<and> t \<le> g"

text \<open>What an attempt does to the row it is about.\<close>

definition attempted :: "gotime \<Rightarrow> uuid set \<Rightarrow> delivery_row list \<Rightarrow> delivery_row list \<Rightarrow> bool" where
  "attempted g ids xs xs' \<longleftrightarrow> list_all2 (\<lambda>x x'. if dl_id x \<in> ids then tried g x x' else x' = x) xs xs'"

lemma attempted_ids: "attempted g ids xs xs' \<Longrightarrow> map dl_id xs' = map dl_id xs"
  unfolding attempted_def
  by (induction rule: list_all2_induct) (auto simp: tried_def same_delivery_def split: if_splits)

lemma attempted_comp:
  assumes "attempted g {i} xs ys" "attempted g ids ys zs" "i \<notin> ids"
  shows "attempted g (insert i ids) xs zs"
  using assms unfolding attempted_def
proof (induction xs ys arbitrary: zs rule: list_all2_induct)
  case (Cons x xs y ys)
  from Cons.prems(1) obtain z zs' where zs: "zs = z # zs'" by (cases zs) auto
  with Cons show ?case by (auto simp: tried_def same_delivery_def split: if_splits)
qed simp

lemma attempt_quiet:
  assumes "window net w t g" "s_tx (dp_sess st) = None" "genuine H A pd"
    and "\<forall>x \<in> set (db_deliveries (s_db (dp_sess st))). dl_id x = pd_DeliveryID pd \<longrightarrow> dl_attempts x = pd_Attempts pd"
  shows "\<exists>st'. attempt env net w pd st = (Inr (), st') \<and> s_tx (dp_sess st') = None \<and> replaces (s_db (dp_sess st)) (s_db (dp_sess st'))
     \<and> attempted g {pd_DeliveryID pd} (db_deliveries (s_db (dp_sess st))) (db_deliveries (s_db (dp_sess st')))"
proof -
  have n: "0 \<le> pd_Attempts pd" "pd_Attempts pd < maxRetries" using assms(3) by (simp_all add: genuine_def)
  then show ?thesis
  proof (cases rule: attempt_cases [where net = net and env = env and w = w and st = st])
    case 1
    with assms(1) show ?thesis by (simp add: window_def)
  next
    case (2 status nr code)
    let ?x' = "\<lambda>x. x\<lparr>dl_status := status, dl_attempts := pd_Attempts pd + 1, dl_next_retry := map_option pg_timestamp nr, dl_response := code\<rparr>"
    let ?s = "snd (store_outcome pd status nr code w (dp_sess st))"
    have q: "quiet w SetEmpty" using assms(1) by (simp add: window_def)
    have st: "status \<in> {''delivered'', ''failed''}" using 2(2) by (auto simp: outcome_ok_def)
    note out = store_outcome_quiet [OF q assms(2) st, of pd nr code]
    have r: "replaces (s_db (dp_sess st)) (s_db ?s)" using store_outcome_replaces [OF prod.collapse [symmetric] assms(2) 2(2)] by simp
    have tr: "tried g x (?x' x)" if "dl_attempts x = pd_Attempts pd" for x :: delivery_row
    proof -
      have "settled (?x' x) \<or> (status = ''failed'' \<and> (\<exists>u. nr = Some u \<and> u \<le> g + longest_pause))"
      proof (cases "status = ''delivered'' \<or> nr = None")
        case True
        with st show ?thesis by (auto simp: settled_def)
      next
        case False
        with 2(3) st have "pd_Attempts pd + 1 < maxRetries" "status = ''failed''"
          and nr: "nr = Some (ne_now net (length (dp_sent st)) + backoff (pd_Attempts pd + 1))" by (auto split: if_splits)
        moreover have "ne_now net (length (dp_sent st)) \<le> g" using assms(1) by (simp add: window_def)
        ultimately show ?thesis using backoff_pauses(2) [of "pd_Attempts pd + 1"] n by (intro disjI2 conjI exI) auto
      qed
      with that pg_timestamp_le show ?thesis
        by (auto simp: tried_def same_delivery_def retry_by_def intro: order_trans)
    qed
    have "attempted g {pd_DeliveryID pd} (db_deliveries (s_db (dp_sess st))) (db_deliveries (s_db ?s))"
      using out assms(4) tr by (auto simp: attempted_def list_all2_conv_all_nth)
    with 2(4) r out show ?thesis by simp
  qed
qed

lemma attempts_quiet:
  assumes "window net w t g" "\<forall>pd \<in> set pds. genuine H A pd" "distinct (map pd_DeliveryID pds)" "s_tx (dp_sess st) = None"
    and "\<forall>pd \<in> set pds. \<forall>x \<in> set (db_deliveries (s_db (dp_sess st))). dl_id x = pd_DeliveryID pd \<longrightarrow> dl_attempts x = pd_Attempts pd"
  shows "\<exists>st'. attempts env net w pds st = (Inr (), st') \<and> s_tx (dp_sess st') = None \<and> replaces (s_db (dp_sess st)) (s_db (dp_sess st'))
     \<and> attempted g (pd_DeliveryID ` set pds) (db_deliveries (s_db (dp_sess st))) (db_deliveries (s_db (dp_sess st')))"
  using assms(2-5)
proof (induction pds arbitrary: st)
  case Nil
  then show ?case by (simp add: attempted_def list_all2_refl reflpD [OF replaces_props(1)])
next
  case (Cons pd pds)
  let ?xs = "\<lambda>st. db_deliveries (s_db (dp_sess st))"
  obtain st1 where 1: "attempt env net w pd st = (Inr (), st1)" "s_tx (dp_sess st1) = None"
    "replaces (s_db (dp_sess st)) (s_db (dp_sess st1))" "attempted g {pd_DeliveryID pd} (?xs st) (?xs st1)"
    using attempt_quiet [OF assms(1) Cons.prems(3)] Cons.prems(1,4) by (meson list.set_intros(1))
  have keep: "y \<in> set (?xs st)" if "y \<in> set (?xs st1)" "dl_id y \<noteq> pd_DeliveryID pd" for y
  proof -
    from that(1) obtain k where k: "k < length (?xs st1)" "y = ?xs st1 ! k" by (auto simp: in_set_conv_nth)
    from 1(4) k have len: "k < length (?xs st)" and r: "if dl_id (?xs st ! k) \<in> {pd_DeliveryID pd} then tried g (?xs st ! k) y else y = ?xs st ! k"
      by (auto simp: attempted_def list_all2_conv_all_nth)
    from r that(2) have "y = ?xs st ! k" by (auto simp: tried_def same_delivery_def split: if_splits)
    with len show ?thesis by simp
  qed
  have "\<forall>p \<in> set pds. \<forall>x \<in> set (?xs st1). dl_id x = pd_DeliveryID p \<longrightarrow> dl_attempts x = pd_Attempts p"
    using Cons.prems(2,4) keep by fastforce
  from Cons.IH [OF _ _ 1(2) this] Cons.prems(1,2) obtain st2 where 2: "attempts env net w pds st1 = (Inr (), st2)"
    "s_tx (dp_sess st2) = None" "replaces (s_db (dp_sess st1)) (s_db (dp_sess st2))"
    "attempted g (pd_DeliveryID ` set pds) (?xs st1) (?xs st2)" by auto
  have "attempted g (insert (pd_DeliveryID pd) (pd_DeliveryID ` set pds)) (?xs st) (?xs st2)"
    by (rule attempted_comp [OF 1(4) 2(4)]) (use Cons.prems(2) in auto)
  with 1(1) 2(1,2) transpD [OF replaces_props(2) 1(3) 2(3)] show ?case by auto
qed

text \<open>Fewer open deliveries than a batch holds: all that are due are fetched.\<close>

definition open_count :: "database \<Rightarrow> nat" where
  "open_count d = length (filter (\<lambda>x. \<not> settled x) (db_deliveries d))"

lemma length_filter_mono: "(\<And>x. P x \<Longrightarrow> Q x) \<Longrightarrow> length (filter P xs) \<le> length (filter Q xs)"
  by (induction xs) (auto simp: le_SucI)

lemma filter_key: "distinct (map f xs) \<Longrightarrow> x \<in> set xs \<Longrightarrow> filter (\<lambda>y. f y = f x) xs = [x]"
  by (induction xs) (auto simp: filter_empty_conv image_iff)

lemma pending_rows_all:
  assumes "hook_ok d" "webhooks q d = db_webhooks d"
  shows "map fst (pending_rows q d) = filter (due q) (db_deliveries d)"
proof -
  have "map fst (concat (map (\<lambda>x. concat (map (\<lambda>h. map (\<lambda>a. (x, h, a)) (filter (\<lambda>a. au_id a = dl_audit x) (db_audit d)))
      (filter (\<lambda>h. wh_id h = dl_subscription x) (webhooks q d)))) xs)) = xs" if "set xs \<subseteq> set (db_deliveries d)" for xs
    using that
  proof (induction xs)
    case (Cons x xs)
    then have "event_of d (dl_subscription x) (dl_audit x)" using assms(1) by (simp add: hook_ok_def)
    then obtain h a where "h \<in> set (db_webhooks d)" "dl_subscription x = wh_id h" "a \<in> set (db_audit d)" "dl_audit x = au_id a"
      by (auto simp: event_of_def)
    with assms have "filter (\<lambda>h. wh_id h = dl_subscription x) (webhooks q d) = [h]" "filter (\<lambda>a. au_id a = dl_audit x) (db_audit d) = [a]"
      by (simp_all add: hook_ok_def filter_key)
    with Cons show ?case by simp
  qed simp
  from this [of "filter (due q) (db_deliveries d)"] show ?thesis by (simp add: pending_rows_def)
qed

lemma FindPending_quiet:
  assumes "quiet w SetEmpty" "s_tx s = None" "hook_ok (s_db s)" "int (open_count (s_db s)) \<le> dispatchBatchSize"
  defines "q \<equiv> ctx_at w SetEmpty (s_n s)"
  shows "\<exists>ps s'. FindPending dispatchBatchSize w s = (Inr ps, s') \<and> s_db s' = s_db s \<and> s_tx s' = None
     \<and> distinct (map pd_DeliveryID ps) \<and> pd_DeliveryID ` set ps = dl_id ` {x \<in> set (db_deliveries (s_db s)). due q x}
     \<and> (\<forall>pd \<in> set ps. genuine (set (db_webhooks (s_db s))) (set (db_audit (s_db s))) pd)
     \<and> (\<forall>pd \<in> set ps. \<forall>x \<in> set (db_deliveries (s_db s)). dl_id x = pd_DeliveryID pd \<longrightarrow> dl_attempts x = pd_Attempts pd)"
proof -
  let ?d = "s_db s" and ?rows = "sort_key (\<lambda>(x, h, a). dl_created x) (pending_rows q (s_db s))"
  define ps where "ps = map pending_of ?rows"
  have rows: "map fst (pending_rows q ?d) = filter (due q) (db_deliveries ?d)"
    by (rule pending_rows_all [OF assms(3)]) (simp add: webhooks_def visible_def q_def ctx_at_def)
  have "length (filter (due q) (db_deliveries ?d)) \<le> open_count ?d"
    unfolding open_count_def by (rule length_filter_mono) (rule due_not_settled)
  then have len: "length ?rows \<le> nat dispatchBatchSize"
    using arg_cong [where f = length, OF rows] assms(4) by simp
  have all: "page dispatchBatchSize 0 ?rows = ?rows" using len by (simp add: page_def)
  have "query_page dispatchBatchSize 0 (\<lambda>q d. sort_key (\<lambda>(x, h, a). dl_created x) (pending_rows q d)) w s = (Inr ?rows, s\<lparr>s_n := Suc (s_n s)\<rparr>)"
    using all by (simp add: query_page_def quiet_exec [OF assms(1,2)] limit_offset_def dispatchBatchSize_def q_def)
  then have run: "FindPending dispatchBatchSize w s = (Inr ps, s\<lparr>s_n := Suc (s_n s)\<rparr>)"
    by (simp add: FindPending_def wrap_err_def db_simps ps_def)
  have ids: "map pd_DeliveryID (map pending_of zs) = map dl_id (map fst zs)" for zs
    by (auto simp: pending_of_def)
  have d: "distinct (map dl_id (db_deliveries ?d))" using assms(3) by (simp add: hook_ok_def)
  have "distinct (map dl_id (map fst (pending_rows q ?d)))" unfolding rows by (rule distinct_map_filterI [OF d])
  then have 1: "distinct (map pd_DeliveryID ps)" unfolding ps_def ids by (simp add: distinct_map inj_on_def)
  have "set (map pd_DeliveryID ps) = dl_id ` set (map fst (pending_rows q ?d))"
    unfolding ps_def ids by (simp only: set_map set_sort)
  then have 2: "pd_DeliveryID ` set ps = dl_id ` {x \<in> set (db_deliveries ?d). due q x}" unfolding rows by simp
  have 3: "\<forall>pd \<in> set ps. genuine (set (db_webhooks ?d)) (set (db_audit ?d)) pd" using FindPending_Inr [OF run assms(3)] .
  have 4: "dl_attempts x = pd_Attempts pd" if pd: "pd \<in> set ps" and x: "x \<in> set (db_deliveries ?d)" "dl_id x = pd_DeliveryID pd" for pd x
  proof -
    from pd obtain y h a where y: "(y, h, a) \<in> set (pending_rows q ?d)" "pd = pending_of (y, h, a)" by (auto simp: ps_def)
    then have "y \<in> set (db_deliveries ?d)" using pending_rows_genuine [OF _ assms(3)] by blast
    with x y(2) d have "x = y" by (auto simp: pending_of_def distinct_map inj_on_def)
    with y(2) show ?thesis by (simp add: pending_of_def)
  qed
  from run assms(2) 1 2 3 4 show ?thesis by (intro exI [of _ ps] exI [of _ "s\<lparr>s_n := Suc (s_n s)\<rparr>"]) simp
qed

lemma cycle_quiet:
  assumes "window net w t g" "s_tx (dp_sess st) = None" "hook_ok (s_db (dp_sess st))"
    "int (open_count (s_db (snd (enqueue w (dp_sess st))))) \<le> dispatchBatchSize"
  shows "\<exists>st' new q. cycle env net w st = (Inr (), st') \<and> s_tx (dp_sess st') = None \<and> hook_ok (s_db (dp_sess st')) \<and> t \<le> q_now q
     \<and> distinct (map dl_id (db_deliveries (s_db (dp_sess st)) @ new))
     \<and> (\<forall>x \<in> set (db_deliveries (s_db (dp_sess st)) @ new). progress_ok x)
     \<and> attempted g (dl_id ` {x \<in> set (db_deliveries (s_db (dp_sess st)) @ new). due q x})
          (db_deliveries (s_db (dp_sess st)) @ new) (db_deliveries (s_db (dp_sess st')))"
proof -
  let ?s = "snd (enqueue w (dp_sess st))"
  have "appends (s_db (dp_sess st)) (s_db ?s) \<and> s_tx ?s = None" by (rule enqueue_appends [OF prod.collapse [symmetric] assms(2)])
  then obtain new where s: "hook_ok (s_db ?s)" "s_tx ?s = None" "db_deliveries (s_db ?s) = db_deliveries (s_db (dp_sess st)) @ new"
    using assms(3) by (auto simp: appends_def keeps_hooks_def)
  have q: "quiet w SetEmpty" using assms(1) by (simp add: window_def)
  let ?q = "ctx_at w SetEmpty (s_n ?s)"
  from FindPending_quiet [OF q s(2,1) assms(4)] obtain ps s' where f: "FindPending dispatchBatchSize w ?s = (Inr ps, s')"
    "s_db s' = s_db ?s" "s_tx s' = None" and ps: "distinct (map pd_DeliveryID ps)"
    "pd_DeliveryID ` set ps = dl_id ` {x \<in> set (db_deliveries (s_db ?s)). due ?q x}"
    "\<forall>pd \<in> set ps. genuine (set (db_webhooks (s_db ?s))) (set (db_audit (s_db ?s))) pd"
    "\<forall>pd \<in> set ps. \<forall>x \<in> set (db_deliveries (s_db ?s)). dl_id x = pd_DeliveryID pd \<longrightarrow> dl_attempts x = pd_Attempts pd" by blast
  let ?st = "st\<lparr>dp_sess := s'\<rparr>"
  from attempts_quiet [OF assms(1) ps(3,1), of ?st env] f ps(4) obtain st' where a: "attempts env net w ps ?st = (Inr (), st')"
    "s_tx (dp_sess st') = None" "replaces (s_db ?s) (s_db (dp_sess st'))"
    "attempted g (pd_DeliveryID ` set ps) (db_deliveries (s_db ?s)) (db_deliveries (s_db (dp_sess st')))" by auto
  have "cycle env net w st = (Inr (), st')" using f(1) a(1) by (simp add: cycle_def dispatch_def)
  moreover have "hook_ok (s_db (dp_sess st'))" using a(3) s(1) by (simp add: replaces_def keeps_hooks_def)
  moreover have "t \<le> q_now ?q" using assms(1) by (simp add: window_def ctx_at_def)
  moreover have "distinct (map dl_id (db_deliveries (s_db (dp_sess st)) @ new))" using s(1) by (simp only: hook_ok_def s(3) [symmetric])
  moreover have "\<forall>x \<in> set (db_deliveries (s_db (dp_sess st)) @ new). progress_ok x" using s(1) by (simp add: hook_ok_def s(3) [symmetric])
  ultimately show ?thesis using a(2,4) unfolding ps(2) s(3) by blast
qed

subsection \<open>Many cycles\<close>

text \<open>A schedule: the cycles with their windows, one after the other.\<close>

type_synonym schedule = "((http_env \<times> world) \<times> gotime \<times> gotime) list"

fun scheduled :: "gotime \<Rightarrow> schedule \<Rightarrow> bool" where
  "scheduled g0 [] \<longleftrightarrow> True"
| "scheduled g0 (((net, w), t, g) # cs) \<longleftrightarrow> window net w t g \<and> g0 \<le> t \<and> scheduled g cs"

text \<open>How many cycles are apart: each starts the longest pause after the one counted before it has ended.\<close>

fun apart_cycles :: "gotime \<Rightarrow> schedule \<Rightarrow> nat" where
  "apart_cycles T [] = 0"
| "apart_cycles T ((c, t, g) # cs) = (if T \<le> t then Suc (apart_cycles (g + longest_pause) cs) else apart_cycles T cs)"

fun uncrowded :: "render_env \<Rightarrow> (http_env \<times> world) list \<Rightarrow> disp \<Rightarrow> bool" where
  "uncrowded env [] st \<longleftrightarrow> True"
| "uncrowded env ((net, w) # cs) st \<longleftrightarrow>
     int (open_count (s_db (snd (enqueue w (dp_sess st))))) \<le> dispatchBatchSize \<and> uncrowded env cs (snd (cycle env net w st))"

text \<open>After \<open>j\<close> cycles apart, a delivery is settled or was tried \<open>j\<close> times.\<close>

definition on_track :: "uuid set \<Rightarrow> nat \<Rightarrow> gotime \<Rightarrow> gotime \<Rightarrow> delivery_row list \<Rightarrow> bool" where
  "on_track I j T g0 xs \<longleftrightarrow> I \<subseteq> dl_id ` set xs \<and> (\<forall>x \<in> set xs. dl_id x \<in> I \<longrightarrow> settled x
     \<or> int j + 1 \<le> dl_attempts x \<and> retry_by (max T (g0 + longest_pause)) x \<or> int j \<le> dl_attempts x \<and> retry_by T x)"

lemma retry_by_mono: "retry_by T x \<Longrightarrow> T \<le> T' \<Longrightarrow> retry_by T' x"
  by (auto simp: retry_by_def)

lemma list_all2_right: "list_all2 P xs ys \<Longrightarrow> y \<in> set ys \<Longrightarrow> \<exists>x \<in> set xs. P x y"
  by (induction rule: list_all2_induct) auto

lemma on_track_step:
  assumes track: "on_track I j T g0 xs" and at: "attempted g (dl_id ` {x \<in> set (xs @ new). due q x}) (xs @ new) xs'"
    and d: "distinct (map dl_id (xs @ new))" and p: "\<forall>x \<in> set (xs @ new). progress_ok x"
    and clock: "g0 \<le> t" "t \<le> g" "t \<le> q_now q"
  shows "if T \<le> t then on_track I (Suc j) (g + longest_pause) g xs' else on_track I j T g xs'"
proof -
  let ?ids = "dl_id ` {x \<in> set (xs @ new). due q x}"
  have on: "I \<subseteq> dl_id ` set xs"
    and on': "\<And>x. x \<in> set xs \<Longrightarrow> dl_id x \<in> I \<Longrightarrow> settled x \<or> int j + 1 \<le> dl_attempts x \<and> retry_by (max T (g0 + longest_pause)) x
        \<or> int j \<le> dl_attempts x \<and> retry_by T x"
    using track unfolding on_track_def by blast+
  have same_ids: "dl_id ` set xs' = dl_id ` set (xs @ new)" using arg_cong [where f = set, OF attempted_ids [OF at]] by (simp only: set_map)
  have ids: "dl_id ` set xs \<subseteq> dl_id ` set xs'" unfolding same_ids by (rule image_mono) simp
  have prog: "settled x' \<or> int j + 1 \<le> dl_attempts x' \<and> retry_by (if T \<le> t then g + longest_pause else max T (g + longest_pause)) x'
      \<or> \<not> T \<le> t \<and> int j \<le> dl_attempts x' \<and> retry_by T x'" if x': "x' \<in> set xs'" "dl_id x' \<in> I" for x'
  proof -
    obtain x where x: "x \<in> set (xs @ new)" and r: "if dl_id x \<in> ?ids then tried g x x' else x' = x"
      using list_all2_right [OF at [unfolded attempted_def] x'(1)] by (elim bexE)
    from r have same: "dl_id x' = dl_id x" by (cases "dl_id x \<in> ?ids") (simp_all only: tried_def same_delivery_def if_True if_False)
    have due: "dl_id x \<in> ?ids \<longleftrightarrow> due q x"
    proof
      assume "dl_id x \<in> ?ids"
      then obtain y where y: "y \<in> set (xs @ new)" "due q y" "dl_id x = dl_id y" by blast
      from d have "inj_on dl_id (set (xs @ new))" by (rule distinct_map [THEN iffD1, THEN conjunct2])
      from inj_onD [OF this y(3) x y(1)] y(2) show "due q x" by simp
    next
      assume "due q x"
      with x show "dl_id x \<in> ?ids" by (intro imageI CollectI conjI)
    qed
    have "dl_id x \<in> dl_id ` set xs" using on x'(2) unfolding same by (rule subsetD)
    moreover have "dl_id ` set xs \<inter> dl_id ` set new = {}" using d by simp
    ultimately have "x \<in> set xs" using x by auto
    from on' [OF this] x'(2) have tr: "settled x \<or> int j + 1 \<le> dl_attempts x \<and> retry_by (max T (g0 + longest_pause)) x
        \<or> int j \<le> dl_attempts x \<and> retry_by T x" unfolding same by blast
    show ?thesis
    proof (cases "due q x")
      case True
      with r due have "tried g x x'" by simp
      then have n: "dl_attempts x' = dl_attempts x + 1" and o': "settled x' \<or> retry_by (g + longest_pause) x'"
        by (auto simp: tried_def)
      have "int j \<le> dl_attempts x" using tr due_not_settled [OF True] by auto
      with n have j: "int j + 1 \<le> dl_attempts x'" by simp
      from o' show ?thesis
      proof
        assume "retry_by (g + longest_pause) x'"
        moreover have "g + longest_pause \<le> (if T \<le> t then g + longest_pause else max T (g + longest_pause))" by simp
        ultimately have "retry_by (if T \<le> t then g + longest_pause else max T (g + longest_pause)) x'" by (rule retry_by_mono)
        with j show ?thesis by blast
      qed (rule disjI1)
    next
      case False
      with r due have eq: "x' = x" by simp
      have late: "\<not> settled x \<Longrightarrow> retry_by T x \<Longrightarrow> \<not> T \<le> t"
        using False retry_due [of x T q] p x clock(3) by auto
      have later: "max T (g0 + longest_pause) \<le> (if T \<le> t then g + longest_pause else max T (g + longest_pause))"
        using clock by (auto simp: longest_pause_def second_def)
      from tr show ?thesis
        unfolding eq
      proof (elim disjE conjE)
        assume "settled x"
        then show "settled x \<or> int j + 1 \<le> dl_attempts x
          \<and> retry_by (if T \<le> t then g + longest_pause else max T (g + longest_pause)) x \<or> \<not> T \<le> t \<and> int j \<le> dl_attempts x \<and> retry_by T x"
          by (rule disjI1)
      next
        assume "int j \<le> dl_attempts x" "retry_by T x"
        then show "settled x \<or> int j + 1 \<le> dl_attempts x
          \<and> retry_by (if T \<le> t then g + longest_pause else max T (g + longest_pause)) x \<or> \<not> T \<le> t \<and> int j \<le> dl_attempts x \<and> retry_by T x"
          using late by blast
      next
        assume "int j + 1 \<le> dl_attempts x" "retry_by (max T (g0 + longest_pause)) x"
        with retry_by_mono [OF _ later] show "settled x \<or> int j + 1 \<le> dl_attempts x
          \<and> retry_by (if T \<le> t then g + longest_pause else max T (g + longest_pause)) x \<or> \<not> T \<le> t \<and> int j \<le> dl_attempts x \<and> retry_by T x"
          by simp
      qed
    qed
  qed
  have all: "\<forall>x' \<in> set xs'. dl_id x' \<in> I \<longrightarrow> settled x' \<or> int j + 1 \<le> dl_attempts x'
      \<and> retry_by (if T \<le> t then g + longest_pause else max T (g + longest_pause)) x' \<or> \<not> T \<le> t \<and> int j \<le> dl_attempts x' \<and> retry_by T x'"
    by (intro ballI impI) (rule prog)
  have sub: "I \<subseteq> dl_id ` set xs'" by (rule subset_trans [OF on ids])
  show ?thesis
  proof (cases "T \<le> t")
    case True
    have S: "int (Suc j) = int j + 1" by simp
    from sub show ?thesis
      unfolding if_P [OF True] on_track_def S
    proof (intro conjI ballI impI)
      fix x' assume "x' \<in> set xs'" "dl_id x' \<in> I"
      with all True have "settled x' \<or> int j + 1 \<le> dl_attempts x' \<and> retry_by (g + longest_pause) x'" by simp
      then show "settled x' \<or> int j + 1 + 1 \<le> dl_attempts x' \<and> retry_by (max (g + longest_pause) (g + longest_pause)) x'
          \<or> int j + 1 \<le> dl_attempts x' \<and> retry_by (g + longest_pause) x'" by auto
    qed
  next
    case False
    from False have "on_track I j T g xs'"
      unfolding on_track_def using all sub by (intro conjI) (simp_all only: if_False simp_thms)
    with False show ?thesis by (simp only: if_False)
  qed
qed

lemma Run_on_track:
  assumes "scheduled g0 cs" "s_tx (dp_sess st) = None" "hook_ok (s_db (dp_sess st))" "uncrowded env (map fst cs) st"
    and "on_track I j T g0 (db_deliveries (s_db (dp_sess st)))"
  shows "\<exists>st' T' g'. Run env (map fst cs) st = (Inr (), st') \<and> hook_ok (s_db (dp_sess st'))
     \<and> on_track I (j + apart_cycles T cs) T' g' (db_deliveries (s_db (dp_sess st')))"
  using assms
proof (induction cs arbitrary: g0 st j T)
  case (Cons c cs)
  obtain net w t g where c: "c = ((net, w), t, g)" by (cases c) auto
  from Cons.prems(1) c have win: "window net w t g" and g0: "g0 \<le> t" and rest: "scheduled g cs" by auto
  from Cons.prems(4) c have few: "int (open_count (s_db (snd (enqueue w (dp_sess st))))) \<le> dispatchBatchSize"
    and un: "uncrowded env (map fst cs) (snd (cycle env net w st))" by auto
  from cycle_quiet [OF win Cons.prems(2,3) few] obtain st1 new q where cy: "cycle env net w st = (Inr (), st1)" "s_tx (dp_sess st1) = None"
    "hook_ok (s_db (dp_sess st1))" "t \<le> q_now q" "distinct (map dl_id (db_deliveries (s_db (dp_sess st)) @ new))"
    "\<forall>x \<in> set (db_deliveries (s_db (dp_sess st)) @ new). progress_ok x"
    "attempted g (dl_id ` {x \<in> set (db_deliveries (s_db (dp_sess st)) @ new). due q x})
      (db_deliveries (s_db (dp_sess st)) @ new) (db_deliveries (s_db (dp_sess st1)))" by blast
  have "t \<le> g" using win by (simp add: window_def)
  note track = on_track_step [OF Cons.prems(5) cy(7,5,6) g0 this cy(4)]
  have un1: "uncrowded env (map fst cs) st1" using un cy(1) by simp
  show ?case
  proof (cases "T \<le> t")
    case True
    with track have "on_track I (Suc j) (g + longest_pause) g (db_deliveries (s_db (dp_sess st1)))" by simp
    from Cons.IH [OF rest cy(2,3) un1 this] cy(1) True show ?thesis by (simp add: c)
  next
    case False
    with track have "on_track I j T g (db_deliveries (s_db (dp_sess st1)))" by simp
    from Cons.IH [OF rest cy(2,3) un1 this] cy(1) False show ?thesis by (simp add: c)
  qed
qed auto


end
