(* ===== verification/Dispatcher_Sample.thy ===== *)
theory Dispatcher_Sample
  imports Retrieval_Sample Dispatcher_System Dispatcher_Liveness
begin

section \<open>An event of the installation, delivered\<close>

text \<open>
  The installation of \<open>Core_Sample\<close> with one subscription of crm and one audit record of crm. A receiver
  that answers gets the event; one that never answers is tried five times and given up.
\<close>

definition crm_hook :: webhook_row where
  "crm_hook = \<lparr>wh_id = 80, wh_system = 12, wh_url = ''http://crm'', wh_secret = ''key'', wh_active = True, wh_created = 0, wh_updated = 0\<rparr>"

definition hook_db :: "delivery_row list \<Rightarrow> database" where
  "hook_db xs = core_db\<lparr>db_webhooks := [crm_hook], db_audit := [log_row 61 (Some 12) 4], db_deliveries := xs\<rparr>"

definition open_net :: "http_result \<Rightarrow> gotime \<Rightarrow> http_env" where
  "open_net r t = \<lparr>ne_marshal = (\<lambda>_. ''event''), ne_hmac = (@), ne_request_ok = (\<lambda>_. True), ne_do = (\<lambda>_ _. r), ne_now = (\<lambda>_. t)\<rparr>"

definition first_try :: delivery_row where
  "first_try = \<lparr>dl_id = 90, dl_subscription = 80, dl_audit = 61, dl_status = ''pending'', dl_attempts = 0,
     dl_next_retry = None, dl_response = None, dl_created = 5\<rparr>"

lemma hook_rows [simp]:
  "wh_id crm_hook = 80" "wh_system crm_hook = 12" "wh_active crm_hook" "wh_url crm_hook = ''http://crm''"
  "db_webhooks (hook_db xs) = [crm_hook]" "db_audit (hook_db xs) = [log_row 61 (Some 12) 4]" "db_deliveries (hook_db xs) = xs"
  "dl_id first_try = 90" "dl_subscription first_try = 80" "dl_audit first_try = 61" "dl_status first_try = ''pending''"
  "dl_attempts first_try = 0"
  by (simp_all add: crm_hook_def hook_db_def first_try_def)

lemma hook_db_ok: "hook_ok (hook_db [])" "hook_ok (hook_db [first_try])"
  by (simp_all add: hook_ok_def event_of_def progress_ok_def)

subsection \<open>Delivered at once\<close>

definition delivering :: disp where
  "delivering = \<lparr>dp_sess = \<lparr>s_db = hook_db [first_try], s_n = 0, s_tx = None\<rparr>, dp_sent = []\<rparr>"

lemma fetched:
  "FindPending dispatchBatchSize sample_world (core_sess (hook_db [first_try]) n)
     = (Inr [pending_of (first_try, crm_hook, log_row 61 (Some 12) 4)], core_sess (hook_db [first_try]) (Suc n))"
  by (simp add: FindPending_def query_page_def limit_offset_def page_def dispatchBatchSize_def pending_rows_def webhooks_def due_def core_steps)

lemma one_post:
  "\<exists>y. dsys_reach required_lib sample_env sample_world (open_net (HttpResponse 200) 9) (dsys_init (hook_db [first_try]) 0) y
     \<and> length (dp_sent (dy_disp y)) = 1"
proof -
  let ?net = "open_net (HttpResponse 200) 9" and ?y = "dsys_init (hook_db [first_try]) 0"
  let ?pd = "pending_of (first_try, crm_hook, log_row 61 (Some 12) 4)"
  have sess: "dy_sess ?y = core_sess (hook_db [first_try]) 0" by (simp add: dsys_init_def core_sess_def)
  let ?y1 = "(with_sess ?y (core_sess (hook_db [first_try]) 1))\<lparr>dy_queue := [?pd]\<rparr>"
  have q: "dy_queue ?y = []" by (simp add: dsys_init_def)
  have f: "FindPending dispatchBatchSize sample_world (dy_sess ?y) = (Inr [?pd], core_sess (hook_db [first_try]) 1)"
    using fetched [of 0] by (simp add: sess)
  from dsys_step.Fetch [OF q f] have 1: "dsys_step required_lib sample_env sample_world ?net ?y ?y1" by simp
  have n: "0 \<le> pd_Attempts ?pd" "pd_Attempts ?pd < maxRetries" by (simp_all add: pending_of_def maxRetries_def)
  from n obtain st where st: "attempt (sv_render sample_env) ?net sample_world ?pd (dy_disp ?y1) = (Inr (), st)"
    and sent: "length (dp_sent st) = 1"
    by (cases rule: attempt_cases [where net = ?net and env = "sv_render sample_env" and w = sample_world and st = "dy_disp ?y1"])
      (auto simp: open_net_def with_sess_def dsys_init_def)
  have 2: "dsys_step required_lib sample_env sample_world ?net ?y1 (?y1\<lparr>dy_disp := st, dy_queue := []\<rparr>)"
    by (rule dsys_step.Attempt [OF _ st]) simp
  from 1 2 have "dsys_reach required_lib sample_env sample_world ?net ?y (?y1\<lparr>dy_disp := st, dy_queue := []\<rparr>)"
    unfolding dsys_reach_def by (meson converse_rtranclp_into_rtranclp rtranclp.rtrancl_refl)
  with sent show ?thesis by (intro exI [of _ "?y1\<lparr>dy_disp := st, dy_queue := []\<rparr>"]) simp
qed

theorem webhook_events_authentic_witness:
  "\<exists>y req. dsys_reach required_lib sample_env sample_world (open_net (HttpResponse 200) 9) (dsys_init (hook_db [first_try]) 0) y
     \<and> dp_sent (dy_disp y) = [req]
     \<and> authentic (sv_render sample_env) (open_net (HttpResponse 200) 9) (set (dy_known y)) (set (db_audit (dy_db y))) req"
proof -
  obtain y where y: "dsys_reach required_lib sample_env sample_world (open_net (HttpResponse 200) 9) (dsys_init (hook_db [first_try]) 0) y"
    "length (dp_sent (dy_disp y)) = 1" using one_post by blast
  then obtain req where "dp_sent (dy_disp y) = [req]" by (auto simp: length_Suc_conv)
  with webhook_events_authentic [OF y(1) hook_db_ok(2)] y(1) show ?thesis by auto
qed

subsection \<open>Given up after five attempts\<close>

text \<open>While the only event has its delivery, the worker adds none.\<close>

definition one_delivery :: "disp \<Rightarrow> bool" where
  "one_delivery st \<longleftrightarrow> s_tx (dp_sess st) = None \<and> hook_ok (s_db (dp_sess st)) \<and> db_webhooks (s_db (dp_sess st)) = [crm_hook]
     \<and> db_audit (s_db (dp_sess st)) = [log_row 61 (Some 12) 4]
     \<and> (\<exists>x. db_deliveries (s_db (dp_sess st)) = [x] \<and> dl_subscription x = 80 \<and> dl_audit x = 61)"

lemma one_delivery_enqueue:
  assumes "one_delivery st" "quiet w SetEmpty"
  shows "snd (enqueue w (dp_sess st)) = (dp_sess st)\<lparr>s_n := Suc (s_n (dp_sess st))\<rparr>"
proof -
  have tx: "s_tx (dp_sess st) = None" using assms(1) by (simp add: one_delivery_def)
  have none: "undelivered q (s_db (dp_sess st)) = []" for q
    using assms(1) by (auto simp: one_delivery_def undelivered_def webhooks_def filter_empty_conv)
  show ?thesis
    by (simp add: enqueue_def FindUndelivered_def wrap_err_def db_simps query_page_def quiet_exec [OF assms(2) tx] limit_offset_def
        enqueueBatchSize_def page_def none)
qed

lemma one_delivery_cycle:
  assumes st: "one_delivery st" and w: "window net w t g"
  shows "int (open_count (s_db (snd (enqueue w (dp_sess st))))) \<le> dispatchBatchSize" "one_delivery (snd (cycle env net w st))"
proof -
  have q: "quiet w SetEmpty" using w by (simp add: window_def)
  let ?s = "(dp_sess st)\<lparr>s_n := Suc (s_n (dp_sess st))\<rparr>"
  note e = one_delivery_enqueue [OF st q]
  have few: "int (open_count (s_db ?s)) \<le> dispatchBatchSize"
    using st by (auto simp: one_delivery_def open_count_def dispatchBatchSize_def)
  then show "int (open_count (s_db (snd (enqueue w (dp_sess st))))) \<le> dispatchBatchSize" by (simp add: e)
  from st have s: "s_tx ?s = None" "hook_ok (s_db ?s)" by (simp_all add: one_delivery_def)
  from FindPending_quiet [OF q s few] obtain ps s' where f: "FindPending dispatchBatchSize w ?s = (Inr ps, s')"
    "s_db s' = s_db ?s" "s_tx s' = None" and ps: "distinct (map pd_DeliveryID ps)"
    "\<forall>pd \<in> set ps. genuine (set (db_webhooks (s_db ?s))) (set (db_audit (s_db ?s))) pd"
    "\<forall>pd \<in> set ps. \<forall>x \<in> set (db_deliveries (s_db ?s)). dl_id x = pd_DeliveryID pd \<longrightarrow> dl_attempts x = pd_Attempts pd" by blast
  from attempts_quiet [OF w ps(2,1), of "st\<lparr>dp_sess := s'\<rparr>" env] f ps(3) obtain st' where
    a: "attempts env net w ps (st\<lparr>dp_sess := s'\<rparr>) = (Inr (), st')" "s_tx (dp_sess st') = None"
      "replaces (s_db (dp_sess st)) (s_db (dp_sess st'))"
      "attempted g (pd_DeliveryID ` set ps) (db_deliveries (s_db (dp_sess st))) (db_deliveries (s_db (dp_sess st')))" by auto
  have c: "cycle env net w st = (Inr (), st')" using f(1) a(1) by (simp add: cycle_def dispatch_def e)
  from st obtain x where x: "db_deliveries (s_db (dp_sess st)) = [x]" "dl_subscription x = 80" "dl_audit x = 61"
    by (auto simp: one_delivery_def)
  then obtain x' where "db_deliveries (s_db (dp_sess st')) = [x']" "dl_subscription x' = 80" "dl_audit x' = 61"
    using a(4) by (auto simp: attempted_def list_all2_Cons1 tried_def same_delivery_def split: if_splits)
  then show "one_delivery (snd (cycle env net w st))"
    using st a(2,3) by (auto simp: c one_delivery_def replaces_def keeps_hooks_def same_hooks_def)
qed

lemma one_delivery_uncrowded:
  "scheduled g0 cs \<Longrightarrow> one_delivery st \<Longrightarrow> uncrowded env (map fst cs) st"
proof (induction cs arbitrary: g0 st)
  case (Cons c cs)
  obtain net w t g where c: "c = ((net, w), t, g)" by (cases c) auto
  with Cons.prems have "window net w t g" "scheduled g cs" by auto
  with Cons one_delivery_cycle(1) [OF Cons.prems(2) this(1)] one_delivery_cycle(2) [OF Cons.prems(2) this(1), of env] c show ?case by simp
qed simp

text \<open>Five cycles, 240 seconds apart, in which the receiver cannot be reached.\<close>

definition silent_cycles :: schedule where
  "silent_cycles = map (\<lambda>t. ((open_net HttpError t, sample_world\<lparr>w_time := \<lambda>_. t\<rparr>), t, t)) (map (\<lambda>k. k * longest_pause) [0, 1, 2, 3, 4])"

lemma silent_scheduled: "scheduled 0 silent_cycles" "apart_cycles 0 silent_cycles = 5"
  by (simp_all add: silent_cycles_def longest_pause_def second_def window_def quiet_def sample_world_def open_net_def)


end
