(* ===== verification/Spec2Isabelle.thy ===== *)
theory Spec2Isabelle
  imports Scim_Path Scim_Sql Scim_Discovery_Rules Service_Sample Dispatcher_Sample
begin

text \<open>
  OAD is a directory for authorization: it keeps typed entities, the relations between them, and properties
  that systems overlay on them, in PostgreSQL; policy decision points read from it. Three kinds of clients call
  it: administrators and services through the management API (\<open>internal/api\<close>), identity providers through
  SCIM 2.0 (\<open>internal/scim\<close>), and the receivers of webhooks, which it calls. This development translates the
  Go code of the server into definitions and proves what they promise.

  \<^bold>\<open>The parts and how they interact.\<close> A call of the API is authenticated (token or certificate, identity
  from the tables through a cache), passes the gates of its route, is decoded by its handler and served by a
  service, whose transaction is scoped to the active system of the caller by row level security and ends with
  a record in the audit log. A SCIM call is admitted by the token of its provider and served in the same way;
  a change of a user drops the cached identity. A worker turns audit records into webhook deliveries and posts
  them. At the start the configuration is loaded and the first administrators are created.

  \<^bold>\<open>The theories and the code they model.\<close>
  \<^item> Go and PostgreSQL: \<open>Go_Base\<close> (strings, integers, lists), \<open>Go_Errors\<close> (errors as values,
    \<open>internal/apierr\<close>, \<open>internal/api/response\<close>), \<open>Go_Json\<close>, \<open>Go_Decode\<close> (request bodies), \<open>Http_Routes\<close> (the
    router); \<open>Pg_Db\<close>, \<open>Pg_Tables\<close> (the tables and statements with their constraints, transactions, and statements
    that fail), \<open>Pg_Integrity\<close> and \<open>Db_Laws\<close> (their invariants and the rules for programs).
  \<^item> Identity: \<open>Identity\<close> (\<open>internal/auth/identity.go\<close>, \<open>mtls.go\<close>, \<open>jwt.go\<close>, \<open>internal/api/middleware/authz.go\<close>),
    \<open>Identity_Cache\<close> (\<open>cache.go\<close>, sequentially and with interleaved critical sections), \<open>Resolver\<close>
    (\<open>resolver.go\<close>), \<open>Authn\<close> (\<open>middleware/auth.go\<close>), \<open>Bootstrap\<close> (\<open>bootstrap.go\<close>).
  \<^item> SCIM: \<open>Scim_Filter\<close>, \<open>Scim_Grammar\<close>, \<open>Scim_Path\<close> (\<open>internal/scim/parser\<close>), \<open>Scim_Sql\<close> (\<open>users/filter.go\<close>,
    \<open>groups/filter.go\<close>), \<open>Scim_Patch\<close>, \<open>Scim_Users\<close>, \<open>Scim_Groups\<close> (resources, mappers, PATCH), \<open>Scim_Store\<close>,
    \<open>Scim_Store_Laws\<close> (the statements both repositories share), \<open>Scim_Users_Svc\<close>, \<open>Scim_Groups_Svc\<close> (services),
    \<open>Scim_Tenant\<close> (all requests of the tenants), \<open>Scim_Auth\<close> (\<open>scim/auth\<close>), \<open>Scim_Discovery\<close> with its rules
    (\<open>scim/schema\<close>, \<open>handler/discovery.go\<close>), \<open>Scim_Http\<close> with its rules (\<open>scim/handler\<close>).
  \<^item> Management: \<open>Core_Base\<close> (scope, audit, validation), \<open>Core_Tables\<close>, \<open>Entity_Types\<close>, \<open>Entities\<close>, \<open>Systems\<close>,
    \<open>Relations\<close>, \<open>Overlay_Schemas\<close>, \<open>Overlays\<close>, \<open>Webhooks\<close>, \<open>Retrieval\<close> (one package of \<open>internal\<close> each),
    \<open>Core_Services\<close> (all mutations), the rules \<open>Core_Rules\<close>, \<open>Core_Overlay_Rules\<close>, \<open>Core_Scope\<close>, \<open>System_Rules\<close>,
    \<open>Retrieval_Rules\<close>; \<open>Admin_Reads\<close> (\<open>internal/useradmin\<close>, \<open>handler/stats.go\<close>), \<open>Api_Bodies\<close> and \<open>Api_Http\<close>
    with its rules (\<open>internal/api/router.go\<close>, \<open>internal/api/handler\<close>).
  \<^item> Webhook delivery: \<open>Dispatcher\<close> (\<open>internal/webhook/dispatcher.go\<close>), \<open>Dispatcher_Rules\<close>, \<open>Dispatcher_System\<close>,
    \<open>Dispatcher_Liveness\<close>.
  \<^item> The process: \<open>Config\<close> with its rules (\<open>internal/config\<close>), \<open>Server\<close> (\<open>cmd/oad/cmd/run.go\<close> up to the router),
    \<open>Requests\<close> (every mutation as one type), \<open>Service\<close> (both mounts on shared tables and cache).
  The theories whose names end in \<open>Sample\<close> hold small installations to which the theorems are applied.

  \<^bold>\<open>How code becomes definitions.\<close> A definition has the name of its function, with the package or receiver
  before it where several share a name (\<open>Ent_Create\<close> is \<open>Create\<close> of \<open>internal/entity\<close>). Structs are records,
  errors are values of \<open>goerr\<close>, a panic is one of them that handlers do not see. A repository or service
  method is a program \<open>world \<Rightarrow> sess \<Rightarrow> result \<times> sess\<close>: the session holds the tables, the number of
  statements so far and the open transaction with its snapshot; the world tells which statements fail, what
  clock and identifier generator give, and whether a commit is left in doubt. So the theorems hold whatever
  fails between two statements. Each request runs alone, except where interleaving is the point: the identity
  cache, and the dispatcher among requests.

  \<^bold>\<open>What the lemmas show.\<close> The grammar of filters and the meaning of the SQL made from them; the identity that
  the tables determine, and that caches and headers keep to it; isolation of tenants and of systems; exactly
  one audit record for each change and no change without one; the rules on content; integrity of all tables;
  completeness of paging; authenticity of webhook posts and the end of every delivery; the precedence of
  configuration sources; the access matrix of the API; and, in this theory, what holds of the server as a
  whole. The interfaces are locales: the resolver's repository and the identity source, the expiring cache,
  the resources of PATCH, the attribute tables of filters, audited transactions, and laws of tables.

  \<^bold>\<open>Bounds.\<close> The parser's mutual recursion has the fuel \<open>4 * length + 8\<close> of its input, which is proved to
  be enough. The backoff is computed on 64-bit words, attempts are at most 5, the longest pause is 240
  seconds. Page sizes are clamped as in the code. Integers from requests are those of \<open>strconv.Atoi\<close>.

  \<^bold>\<open>Parameters\<close>, which stand for code outside the repository: the JWT and JSON Schema libraries, SHA-256 and
  HMAC, the parsers and printers of UUIDs, floats, durations, instants, URLs and YAML, the text of JSON, the
  collation, the operator \<open>@>\<close> and the evaluation of a WHERE fragment in PostgreSQL, the network and the
  clock. Hypotheses on them are named in the theorems that use them. The texts of errors with \<open>%v\<close>
  and of libraries' errors are kept as terms, not rendered.

  \<^bold>\<open>Not modelled.\<close> Commands other than \<open>run\<close>, listening and shutdown, logging, correlation, metrics and
  compression (side channels and I/O); the health check and the embedded web UI; the connection pool and the
  migration runner; the SQL of the migrations as such (its constraints, triggers and policies are in the
  tables); parallel transactions; \<open>EntityHandler.Lookup\<close>, which has no route; the protocol tester and the
  development identity provider under \<open>deployments\<close>, which are test tools.
\<close>

section \<open>Properties that span components\<close>

text \<open>
  The tables keep their integrity. Whatever management and SCIM requests arrive, from whichever callers
  and identity providers, and whatever fails in between: keys stay unique, every entity has its type,
  every edge and overlay its entities, no entity has two overlays of one system, every overlay schema
  has its type, every delivery has its subscription and an audit record of the same system.
\<close>

theorem api_integrity:
  assumes "s_tx s = None" "core_ok (s_db s)" "hook_ok (s_db s)"
  shows "core_ok (s_db (api_run lib v w rs s)) \<and> hook_ok (s_db (api_run lib v w rs s)) \<and> s_tx (api_run lib v w rs s) = None
    \<and> set (db_audit (s_db s)) \<subseteq> set (db_audit (s_db (api_run lib v w rs s)))"
  using core.api_run_law [OF assms(1), of lib v w rs] hooks.api_run_law [OF assms(1), of lib v w rs] assms(2,3)
  by (auto simp: keeps_core_def keeps_hooks_def)

theorem api_integrity_witness:
  "core_ok (s_db (api_run required_lib Scim_Tenant.sample_env sample_world
     [Manage amy (DeleteEntity 10), Manage amy (CreateHook 12 \<lparr>hc_CallbackURL = ''http://c'', hc_Secret = ''0123456789abcdef''\<rparr>),
      Provision ''kc'' (UserDelete 10)] (core_sess (hook_db [first_try]) 0)))"
proof -
  have "core_ok (hook_db [first_try])"
    using core_db_ok by (simp add: hook_db_def core_ok_def db_ok_def entity_ids_def type_ids_def)
  then show ?thesis by (intro api_integrity [THEN conjunct1]) (simp_all add: core_sess_def hook_db_ok(2))
qed

text \<open>
  C5. The server keeps its tables in order. Whatever calls arrive at the API and the SCIM endpoints of a started
  server, well formed or not, from whichever callers, and whatever fails in between: the tables keep their
  integrity (keys, references, one overlay of a system for an entity, deliveries with their subscription and
  event), no record of the log is lost, and no transaction stays open.
\<close>

theorem server_integrity:
  assumes "runServer h opts env w0 s0 = (Inr sv, s)" "s_tx s = None" "core_ok (s_db s)" "hook_ok (s_db s)"
    and "hd_SHA256 hs = ho_SHA256 h" "server_run hs sv w calls (run_Identities sv, s) = (st', s')"
  shows "core_ok (s_db s') \<and> hook_ok (s_db s') \<and> set (db_audit (s_db s)) \<subseteq> set (db_audit (s_db s')) \<and> s_tx s' = None"
proof -
  from runServer_Inr(2) [OF assms(1)] obtain auth reg where
    "buildSCIMRegistry (ho_SHA256 h) (acf_Providers (cf_Auth (run_Config sv))) = Inr reg" "sv = new_server h (run_Config sv) auth reg"
    by (rule serve_config_Inr)
  then have "buildSCIMRegistry (hd_SHA256 hs) (acf_Providers (cf_Auth (run_Config sv))) = Inr (run_Registry sv)"
    using assms(5) by (metis new_server_def server.select_convs(4))
  from server_run_keeps [OF this assms(2,6)] assms(3,4) show ?thesis by (simp add: keeps_core_def keeps_hooks_def)
qed

theorem server_integrity_witness:
  "\<exists>sv s st' s'. first_run = (Inr sv, s) \<and> server_run sample_handlers sv sample_world first_calls (run_Identities sv, s) = (st', s')
     \<and> core_ok (s_db s') \<and> hook_ok (s_db s')"
proof -
  obtain x s where x: "first_run = (x, s)" by fastforce
  from first_started [unfolded x] obtain sv where sv: "x = Inr sv" "core_ok (s_db s)" "hook_ok (s_db s)" "s_tx s = None"
    by (cases x) (auto split: option.splits)
  obtain st' s' where run: "server_run sample_handlers sv sample_world first_calls (run_Identities sv, s) = (st', s')" by fastforce
  have h: "hd_SHA256 sample_handlers = ho_SHA256 first_host" by (simp add: sample_handlers_def first_host_def)
  from server_integrity [OF x [unfolded sv(1) first_run_def] sv(4,2,3) h run] x sv(1) run show ?thesis by blast
qed



end
